(* ===== verification/Prelude.thy ===== *)
theory Prelude
  imports Complex_Main "HOL-Library.Multiset" "HOL-Library.List_Lexorder" "HOL-Library.Char_ord" "HOL-Library.Sublist"
begin

text \<open>
  Shared vocabulary of the development: the names of the model's basic types, the results that
  the Go services return, and the generic facts on lists and sums that the component theories use.

  \<^item> \<open>uuid\<close>: a \<^verbatim>\<open>uuid.UUID\<close>, read as the number its 128 bits write; \<open>uuid_nil\<close> is \<^verbatim>\<open>uuid.Nil\<close>.
  \<^item> \<open>time\<close>: a \<^verbatim>\<open>time.Time\<close> as nanoseconds since the Unix epoch, and \<open>duration\<close> a
    \<^verbatim>\<open>time.Duration\<close> in nanoseconds. \<open>zero_time\<close> is Go's zero value \<^verbatim>\<open>time.Time{}\<close>, the start of
    year 1.
  \<^item> \<open>app_error\<close>: the vocabulary of \<^verbatim>\<open>internal/apperr\<close>; \<open>Internal\<close> is an error wrapped by
    \<^verbatim>\<open>fmt.Errorf\<close> with no \<^verbatim>\<open>apperr\<close> type inside, kept with its message prefix; \<open>RuntimeUnavailable\<close> is
    \<^verbatim>\<open>runtime.unavailableError\<close>, also when it is wrapped again.
  \<^item> \<open>'a result\<close>: a Go pair \<^verbatim>\<open>(T, error)\<close>: \<open>Inl\<close> the error, \<open>Inr\<close> the value.
\<close>

named_theorems defs_unfold \<open>definitions the component proofs unfold\<close>

type_synonym uuid = nat
type_synonym time = int
type_synonym duration = int

definition uuid_nil :: uuid where
  "uuid_nil = 0"

definition second :: duration where
  "second = 1000000000"

definition zero_time :: time where
  "zero_time = - 62135596800 * second"

subsection \<open>Domain errors\<close>

datatype app_error =
    ErrNotFound
  | NotFound string
  | ErrForbidden
  | Forbidden string
  | ErrConflict
  | Conflict string
  | ErrUnauthenticated
  | ErrBadRequest
  | ErrUnavailable
  | Unavailable string duration
  | ErrNotImplemented
  | NotImplemented string
  | Validation "(string \<times> string list) list"
  | RateLimited duration string
  | CtxErr
  | RuntimeUnavailable string
  | Internal string

type_synonym 'a result = "app_error + 'a"

text \<open>The \<^verbatim>\<open>Is\<close> methods: which sentinel \<^verbatim>\<open>errors.Is\<close> finds in an error.\<close>

fun sentinel_of :: "app_error \<Rightarrow> app_error option" where
  "sentinel_of (NotFound _) = Some ErrNotFound"
| "sentinel_of (Forbidden _) = Some ErrForbidden"
| "sentinel_of (Conflict _) = Some ErrConflict"
| "sentinel_of (Unavailable _ _) = Some ErrUnavailable"
| "sentinel_of (NotImplemented _) = Some ErrNotImplemented"
| "sentinel_of _ = None"

definition errors_Is :: "app_error \<Rightarrow> app_error \<Rightarrow> bool" where
  "errors_Is e t \<longleftrightarrow> e = t \<or> sentinel_of e = Some t"

text \<open>The field map of a \<^verbatim>\<open>Validation\<close>, as an association list with one entry per field.\<close>

type_synonym fields = "(string \<times> string list) list"

fun Validation_Add :: "fields \<Rightarrow> string \<Rightarrow> string \<Rightarrow> fields" where
  "Validation_Add [] field msg = [(field, [msg])]"
| "Validation_Add ((k, ms) # v) field msg =
     (if k = field then (k, ms @ [msg]) # v else (k, ms) # Validation_Add v field msg)"

definition HasErrors :: "fields \<Rightarrow> bool" where
  "HasErrors v \<longleftrightarrow> length v > 0"

definition OrNil :: "fields \<Rightarrow> app_error option" where
  "OrNil v = (if HasErrors v then Some (Validation v) else None)"

text \<open>\<open>if cond { v.Add(field, msg) }\<close>.\<close>

definition add_if :: "bool \<Rightarrow> string \<Rightarrow> string \<Rightarrow> fields \<Rightarrow> fields" where
  "add_if b field msg v = (if b then Validation_Add v field msg else v)"

lemma Validation_Add_not_Nil [simp]: "Validation_Add v field msg \<noteq> []"
  by (cases "(v, field, msg)" rule: Validation_Add.cases) auto

lemma add_if_Nil_iff [simp]: "add_if b field msg v = [] \<longleftrightarrow> \<not> b \<and> v = []"
  by (simp add: add_if_def)

lemma OrNil_None_iff [simp]: "OrNil v = None \<longleftrightarrow> v = []"
  by (simp add: OrNil_def HasErrors_def)

lemma OrNil_Some_iff: "OrNil v = Some e \<longleftrightarrow> v \<noteq> [] \<and> e = Validation v"
  by (auto simp: OrNil_def HasErrors_def)

lemma set_map_Validation_Add [simp]:
  "fst ` set (Validation_Add v field msg) = insert field (fst ` set v)"
  by (induction v field msg rule: Validation_Add.induct) auto

subsection \<open>Generic facts\<close>

lemma case_sum_Inr_iff:
  "(case r of Inl e \<Rightarrow> Inl e | Inr x \<Rightarrow> f x) = Inr y \<longleftrightarrow> (\<exists>x. r = Inr x \<and> f x = Inr y)"
  by (cases r) auto

lemma length_filter_le_one_iff:
  "length (filter P xs) \<le> 1 \<longleftrightarrow>
   (\<forall>i < length xs. \<forall>j < length xs. P (xs ! i) \<and> P (xs ! j) \<longrightarrow> i = j)"
proof (induction xs)
  case Nil
  then show ?case by simp
next
  case (Cons x xs)
  show ?case
  proof (cases "P x")
    case True
    have "length (filter P (x # xs)) \<le> 1 \<longleftrightarrow> (\<forall>y \<in> set xs. \<not> P y)"
      using True by (auto simp: filter_empty_conv)
    also have "\<dots> \<longleftrightarrow> (\<forall>i < length (x # xs). \<forall>j < length (x # xs).
        P ((x # xs) ! i) \<and> P ((x # xs) ! j) \<longrightarrow> i = j)"
      using True by (auto simp: all_set_conv_all_nth All_less_Suc2)
    finally show ?thesis .
  next
    case False
    with Cons.IH show ?thesis by (auto simp: All_less_Suc2)
  qed
qed

lemma sum_list_map_filter_mset:
  "mset xs = mset ys \<Longrightarrow> sum_list (map f xs) = (sum_list (map f ys) :: int)"
  by (metis mset_map sum_mset_sum_list)

lemma filter_mset_eq_list:
  "mset xs = mset ys \<Longrightarrow> mset (filter P xs) = mset (filter P ys)"
  by (metis mset_filter)

lemma filter_key_singleton:
  assumes "distinct (map k xs)" "x \<in> set xs"
  shows "filter (\<lambda>y. k y = k x) xs = [x]"
  using assms
proof (induction xs)
  case (Cons y ys)
  then show ?case
    by (cases "k y = k x") (auto simp: filter_empty_conv image_iff dest: sym)
qed simp

lemma find_key:
  assumes "distinct (map k xs)" "x \<in> set xs"
  shows "List.find (\<lambda>y. k y = k x) xs = Some x"
  using assms by (induction xs) force+

lemma subseq_append_later: "subseq xs ys \<Longrightarrow> subseq xs (ys @ zs)"
  by (metis append_Nil2 list_emb_Nil list_emb_append_mono)

lemma ex_Some_case: "(case r of None \<Rightarrow> False | Some x \<Rightarrow> P x) \<Longrightarrow> \<exists>x. r = Some x \<and> P x"
  by (cases r) auto

lemma list_update_last: "xs \<noteq> [] \<Longrightarrow> xs[length xs - Suc 0 := m] = butlast xs @ [m]"
  by (cases xs rule: rev_cases) auto

lemma all_in_update: "\<forall>x \<in> set xs. P x \<Longrightarrow> P y \<Longrightarrow> \<forall>x \<in> set (xs[i := y]). P x"
  using set_update_subset_insert by fastforce

lemma length_filter_update:
  "i < length xs \<Longrightarrow> int (length (filter P (xs[i := y]))) =
     int (length (filter P xs)) - (if P (xs ! i) then 1 else 0) + (if P y then 1 else 0)"
proof (induction xs arbitrary: i)
  case (Cons x xs)
  show ?case
  proof (cases i)
    case (Suc j)
    then show ?thesis using Cons.IH [of j] Cons.prems by auto
  qed simp
qed simp

end
