(* ===== verification/Float64.thy ===== *)
theory Float64
  imports Prelude "HOL-Library.Log_Nat"
begin

text \<open>
  Go's \<^verbatim>\<open>float64\<close> arithmetic as far as the scoring formula uses it. A float64 value is the rational
  it denotes; every operation is the exact rational operation followed by \<open>fl64\<close>, the IEEE 754
  rounding to a 53-bit significand, ties to even. The exponent range is not bounded: the formula's
  operands are converted 64-bit integers, so every intermediate value is 0 or lies between
  \<open>2\<^sup>-\<^sup>1\<^sup>2\<^sup>8\<close> and \<open>2\<^sup>1\<^sup>9\<^sup>2\<close>, inside the range of normal numbers.

  \<open>math_Round\<close> is \<^verbatim>\<open>math.Round\<close> (nearest integer, halves away from zero), \<open>int64\<close> the wrap-around of
  64-bit integer arithmetic and \<open>float_to_int\<close> the conversion \<^verbatim>\<open>int(f)\<close> of an integral float64: out of
  range the result is the one of amd64, \<open>- 2\<^sup>6\<^sup>3\<close>.

  The locale \<open>float_rounding\<close> is the contract the formula relies on (monotone, exact on short
  dyadic numbers, half an ulp of error); \<open>fl64\<close> is shown to satisfy it.
\<close>

subsection \<open>Definitions\<close>

definition elog2 :: "rat \<Rightarrow> int" where
  "elog2 x = (let (a, b) = quotient_of \<bar>x\<bar>; k = bitlen a - bitlen b
              in if 2 powi k \<le> \<bar>x\<bar> then k else k - 1)"

definition round_half_even :: "rat \<Rightarrow> int" where
  "round_half_even x =
     (let f = \<lfloor>x\<rfloor>; d = x - of_int f
      in if d < 1 / 2 then f else if 1 / 2 < d then f + 1 else if even f then f else f + 1)"

definition fl64 :: "rat \<Rightarrow> rat" where
  "fl64 x = (if x = 0 then 0
             else let u = 2 powi (elog2 x - 52) in of_int (round_half_even (x / u)) * u)"

definition math_Round :: "rat \<Rightarrow> int" where
  "math_Round x = (if 0 \<le> x then \<lfloor>x + 1 / 2\<rfloor> else - \<lfloor>- x + 1 / 2\<rfloor>)"

definition int64 :: "int \<Rightarrow> int" where
  "int64 n = (n + 2 ^ 63) mod 2 ^ 64 - 2 ^ 63"

definition float_to_int :: "int \<Rightarrow> int" where
  "float_to_int n = (if - (2 ^ 63) \<le> n \<and> n < 2 ^ 63 then n else - (2 ^ 63))"

subsection \<open>The contract of a rounding\<close>

locale float_rounding =
  fixes fl :: "rat \<Rightarrow> rat"
  assumes fl_mono: "x \<le> y \<Longrightarrow> fl x \<le> fl y"
    and fl_exact: "\<bar>n\<bar> < 2 ^ 53 \<Longrightarrow> fl (of_int n * 2 powi k) = of_int n * 2 powi k"
    and fl_err: "\<bar>fl x - x\<bar> \<le> \<bar>x\<bar> * 2 powi (- 53)"
begin

lemma fl_int: "\<bar>n\<bar> < 2 ^ 53 \<Longrightarrow> fl (of_int n) = of_int n"
  using fl_exact [of n 0] by simp

lemma fl_zero: "fl 0 = 0"
  using fl_int [of 0] by simp

lemma fl_nonneg: "0 \<le> x \<Longrightarrow> 0 \<le> fl x"
  using fl_mono [of 0 x] by (simp add: fl_zero)

lemma fl_quarter: "\<bar>4 * n + 1\<bar> < 2 ^ 53 \<Longrightarrow> fl (of_int n + 1 / 4) = of_int n + 1 / 4"
  using fl_exact [of "4 * n + 1" "- 2"] by (simp add: power_int_minus add_divide_distrib)

lemma fl_pos:
  assumes "1 \<le> x" shows "1 \<le> fl x"
  using fl_mono [OF assms] fl_int [of 1] by simp

lemma fl_lower:
  assumes "0 \<le> x" shows "x * (1 - 2 powi (- 53)) \<le> fl x"
proof -
  from fl_err [of x] assms have "x - x * 2 powi (- 53) \<le> fl x" by linarith
  then show ?thesis by (simp only: right_diff_distrib mult_1_right)
qed

lemma fl_upper:
  assumes "0 \<le> x" shows "fl x \<le> x * (1 + 2 powi (- 53))"
proof -
  from fl_err [of x] assms have "fl x \<le> x + x * 2 powi (- 53)" by linarith
  then show ?thesis by (simp only: distrib_left mult_1_right)
qed

end

subsection \<open>fl64 satisfies the contract\<close>

lemma round_half_even_cases:
  "round_half_even x = \<lfloor>x\<rfloor> \<and> x - of_int \<lfloor>x\<rfloor> \<le> 1 / 2
   \<or> round_half_even x = \<lfloor>x\<rfloor> + 1 \<and> 1 / 2 \<le> x - of_int \<lfloor>x\<rfloor>"
  by (auto simp: round_half_even_def Let_def)

lemma round_half_even_of_int [simp]: "round_half_even (of_int n) = n"
  by (simp add: round_half_even_def)

lemma round_half_even_mono:
  assumes "x \<le> y" shows "round_half_even x \<le> round_half_even y"
proof (cases "\<lfloor>x\<rfloor> = \<lfloor>y\<rfloor>")
  case True
  with assms show ?thesis by (auto simp: round_half_even_def Let_def)
next
  case False
  with assms have "\<lfloor>x\<rfloor> + 1 \<le> \<lfloor>y\<rfloor>" using floor_mono [OF assms] by linarith
  with round_half_even_cases [of x] round_half_even_cases [of y] show ?thesis by linarith
qed

lemma round_half_even_err: "\<bar>of_int (round_half_even x) - x\<bar> \<le> 1 / 2"
proof -
  have "of_int \<lfloor>x\<rfloor> \<le> x" "x < of_int \<lfloor>x\<rfloor> + 1" by linarith+
  with round_half_even_cases [of x] show ?thesis
    by (auto simp: abs_le_iff field_simps)
qed

lemma elog2_bounds:
  assumes "x \<noteq> 0"
  shows "2 powi elog2 x \<le> \<bar>x\<bar>" and "\<bar>x\<bar> < 2 powi (elog2 x + 1)"
proof -
  obtain a b where q: "quotient_of \<bar>x\<bar> = (a, b)" by fastforce
  then have x: "\<bar>x\<bar> = of_int a / of_int b" and b: "b > 0"
    using quotient_of_div quotient_of_denom_pos by blast+
  from assms x b have a: "a > 0"
    by (metis abs_ge_zero abs_eq_0 divide_less_0_iff div_0 linorder_neqE_linordered_idom
        not_le of_int_0 of_int_less_0_iff of_int_0_less_iff)
  define k where "k = bitlen a - bitlen b"
  from bitlen_bounds [OF a] bitlen_bounds [OF b]
  have ab: "2 ^ nat (bitlen a - 1) \<le> a" "a < 2 ^ nat (bitlen a)"
    "2 ^ nat (bitlen b - 1) \<le> b" "b < 2 ^ nat (bitlen b)" by auto
  have la: "bitlen a \<ge> 1" "bitlen b \<ge> 1"
    using a b bitlen_nonneg bitlen_eq_zero_iff by (metis int_one_le_iff_zero_less less_le not_less)+
  have p: "(2::rat) powi m = of_int (2 ^ nat m)" if "0 \<le> m" for m :: int
    using that by (simp add: power_int_def)
  have r: "(2::rat) powi (bitlen a - 1) \<le> of_int a" "of_int a < (2::rat) powi bitlen a"
    "(2::rat) powi (bitlen b - 1) \<le> of_int b" "of_int b < (2::rat) powi bitlen b"
    using ab la by (simp_all only: p of_int_le_iff of_int_less_iff)
  have lo: "2 powi (k - 1) \<le> \<bar>x\<bar>"
  proof -
    have "(2::rat) powi (k - 1) = 2 powi (bitlen a - 1) / 2 powi (bitlen b)"
      by (simp add: k_def power_int_diff [symmetric] algebra_simps)
    also have "\<dots> \<le> of_int a / of_int b"
      using r b a by (intro frac_le) auto
    finally show ?thesis by (simp add: x)
  qed
  have hi: "\<bar>x\<bar> < 2 powi (k + 1)"
  proof -
    have "of_int a / of_int b < (2::rat) powi bitlen a / 2 powi (bitlen b - 1)"
      using r b a by (intro frac_less) auto
    also have "\<dots> = 2 powi (k + 1)"
      by (simp add: k_def power_int_diff [symmetric] algebra_simps)
    finally show ?thesis by (simp add: x)
  qed
  show "2 powi elog2 x \<le> \<bar>x\<bar>" "\<bar>x\<bar> < 2 powi (elog2 x + 1)"
    using lo hi by (auto simp: elog2_def q k_def Let_def)
qed

lemma fl64_zero [simp]: "fl64 0 = 0"
  by (simp add: fl64_def)

lemma fl64_range_pos:
  assumes "0 < x"
  shows "2 powi elog2 x \<le> fl64 x" and "fl64 x \<le> 2 powi (elog2 x + 1)"
proof -
  define u where "u = (2::rat) powi (elog2 x - 52)"
  have u: "u > 0" by (simp add: u_def)
  have e: "2 powi elog2 x = of_int (2 ^ 52) * u" "2 powi (elog2 x + 1) = of_int (2 ^ 53) * u"
    by (simp_all add: u_def power_int_diff power_int_add)
  from assms have b: "of_int (2 ^ 52) \<le> x / u" "x / u \<le> of_int (2 ^ 53)"
    using elog2_bounds [of x] u unfolding e by (auto simp: pos_le_divide_eq pos_divide_le_eq)
  have "2 ^ 52 \<le> round_half_even (x / u)" "round_half_even (x / u) \<le> 2 ^ 53"
    using b [THEN round_half_even_mono] by (simp_all only: round_half_even_of_int)
  then have "of_int (2 ^ 52) * u \<le> of_int (round_half_even (x / u)) * u"
    "of_int (round_half_even (x / u)) * u \<le> of_int (2 ^ 53) * u"
    using u by (simp_all only: mult_le_cancel_right_pos of_int_le_iff)
  then show "2 powi elog2 x \<le> fl64 x" "fl64 x \<le> 2 powi (elog2 x + 1)"
    using assms unfolding e by (simp_all add: fl64_def u_def Let_def)
qed

lemma round_half_even_minus: "round_half_even (- x) = - round_half_even x"
proof (cases "x = of_int \<lfloor>x\<rfloor>")
  case True
  then show ?thesis by (metis of_int_minus round_half_even_of_int)
next
  case False
  then have "\<lfloor>- x\<rfloor> = - \<lfloor>x\<rfloor> - 1"
    by (metis ceiling_altdef ceiling_def floor_minus minus_diff_eq minus_minus diff_minus_eq_add
        add.commute uminus_add_conv_diff)
  then show ?thesis by (auto simp: round_half_even_def Let_def)
qed

lemma elog2_minus [simp]: "elog2 (- x) = elog2 x"
  by (simp add: elog2_def)

lemma fl64_minus: "fl64 (- x) = - fl64 x"
  by (simp add: fl64_def Let_def round_half_even_minus)

lemma elog2_mono:
  assumes "0 < x" "x \<le> y" shows "elog2 x \<le> elog2 y"
proof (rule ccontr)
  assume "\<not> elog2 x \<le> elog2 y"
  then have "(2::rat) powi (elog2 y + 1) \<le> 2 powi elog2 x"
    by (intro power_int_increasing) auto
  with elog2_bounds [of x] elog2_bounds [of y] assms show False by auto
qed

lemma fl64_mono_pos:
  assumes "0 < x" "x \<le> y" shows "fl64 x \<le> fl64 y"
proof (cases "elog2 x = elog2 y")
  case True
  with assms have "round_half_even (x / 2 powi (elog2 x - 52)) \<le> round_half_even (y / 2 powi (elog2 x - 52))"
    by (intro round_half_even_mono divide_right_mono) auto
  with True assms show ?thesis by (simp add: fl64_def Let_def)
next
  case False
  with elog2_mono [OF assms] have "(2::rat) powi (elog2 x + 1) \<le> 2 powi elog2 y"
    by (intro power_int_increasing) auto
  with fl64_range_pos [of x] fl64_range_pos [of y] assms show ?thesis by auto
qed

lemma fl64_nonneg: "0 \<le> x \<Longrightarrow> 0 \<le> fl64 x"
  using fl64_range_pos(1) [of x] by (cases "x = 0") (auto intro: order_trans [rotated])

lemma fl64_mono:
  assumes "x \<le> y" shows "fl64 x \<le> fl64 y"
proof -
  consider "0 < x" | "x \<le> 0" "0 \<le> y" | "y < 0" by linarith
  then show ?thesis
  proof cases
    case 1
    with assms show ?thesis by (intro fl64_mono_pos)
  next
    case 2
    then show ?thesis using fl64_nonneg [of "- x"] fl64_nonneg [of y] by (simp add: fl64_minus)
  next
    case 3
    with assms show ?thesis using fl64_mono_pos [of "- y" "- x"] by (simp add: fl64_minus)
  qed
qed

lemma fl64_exact:
  assumes n: "\<bar>n\<bar> < 2 ^ 53"
  shows "fl64 (of_int n * 2 powi k) = of_int n * 2 powi k"
proof (cases "n = 0")
  case True
  then show ?thesis by simp
next
  case False
  define x where "x = (of_int n * 2 powi k :: rat)"
  have x0: "x \<noteq> 0" using False by (simp add: x_def)
  have "2 powi elog2 x \<le> \<bar>x\<bar>" using elog2_bounds x0 by blast
  also have "\<dots> = of_int \<bar>n\<bar> * 2 powi k" by (simp add: x_def abs_mult)
  also have "\<dots> < of_int (2 ^ 53) * 2 powi k"
    using n by (intro mult_strict_right_mono) (simp_all only: of_int_less_iff, simp)
  also have "\<dots> = 2 powi (53 + k)" by (simp add: power_int_add)
  finally have "elog2 x < 53 + k"
    by (meson not_le one_le_numeral power_int_increasing)
  define j where "j = nat (k - elog2 x + 52)"
  with \<open>elog2 x < 53 + k\<close> have j: "k = elog2 x - 52 + int j" by simp
  define u where "u = (2::rat) powi (elog2 x - 52)"
  have "(2::rat) powi k = 2 powi (elog2 x - 52 + int j)" using j by presburger
  then have "2 powi k = 2 ^ j * u" by (simp add: power_int_add u_def)
  then have x: "x = of_int (n * 2 ^ j) * u" by (simp add: x_def)
  have u: "u \<noteq> 0" by (simp add: u_def)
  with x have "x / u = of_int (n * 2 ^ j)" by simp
  then have "fl64 x = of_int (n * 2 ^ j) * u"
    using x0 by (simp only: fl64_def u_def [symmetric] Let_def round_half_even_of_int if_False)
  then have "fl64 x = x" by (simp only: x [symmetric])
  then show ?thesis by (simp only: x_def)
qed

lemma fl64_err:
  "\<bar>fl64 x - x\<bar> \<le> \<bar>x\<bar> * 2 powi (- 53)"
proof (cases "x = 0")
  case True
  then show ?thesis by simp
next
  case False
  define u where "u = (2::rat) powi (elog2 x - 52)"
  have u: "u > 0" by (simp add: u_def)
  have "fl64 x - x = (of_int (round_half_even (x / u)) - x / u) * u"
    using False u by (simp add: fl64_def u_def [symmetric] Let_def algebra_simps)
  then have "\<bar>fl64 x - x\<bar> = \<bar>of_int (round_half_even (x / u)) - x / u\<bar> * u"
    using u by (simp add: abs_mult)
  also have "\<dots> \<le> 1 / 2 * u"
    using u round_half_even_err by (intro mult_right_mono) auto
  also have "\<dots> = 2 powi elog2 x * 2 powi (- 53)"
    by (simp add: u_def power_int_diff power_int_minus)
  also have "\<dots> \<le> \<bar>x\<bar> * 2 powi (- 53)"
    using elog2_bounds(1) [OF False] by (intro mult_right_mono) auto
  finally show ?thesis .
qed

interpretation f64: float_rounding fl64
  by unfold_locales (use fl64_mono fl64_exact fl64_err in blast)+

subsection \<open>Rounding to integers\<close>

lemma math_Round_mono:
  assumes "x \<le> y" shows "math_Round x \<le> math_Round y"
proof -
  consider "0 \<le> x" | "x < 0" "0 \<le> y" | "x < 0" "y < 0" by linarith
  then show ?thesis
  proof cases
    case 1
    with assms show ?thesis by (auto simp: math_Round_def intro: floor_mono)
  next
    case 2
    then have "0 \<le> \<lfloor>- x + 1 / 2\<rfloor>" "0 \<le> \<lfloor>y + 1 / 2\<rfloor>" by (auto simp: le_floor_iff)
    then have "- \<lfloor>- x + 1 / 2\<rfloor> \<le> \<lfloor>y + 1 / 2\<rfloor>" by linarith
    with 2 show ?thesis by (simp only: math_Round_def if_True not_le [symmetric] if_False)
  next
    case 3
    then have "\<lfloor>- y + 1 / 2\<rfloor> \<le> \<lfloor>- x + 1 / 2\<rfloor>" using assms by (intro floor_mono) simp
    with 3 show ?thesis by (simp add: math_Round_def)
  qed
qed

lemma math_Round_of_int [simp]: "math_Round (of_int n) = n"
proof -
  have "\<lfloor>rat_of_int n + 1 / 2\<rfloor> = n" "\<lfloor>- rat_of_int n + 1 / 2\<rfloor> = - n"
    by (simp_all add: floor_eq_iff)
  then show ?thesis by (simp add: math_Round_def)
qed

lemma math_Round_err: "\<bar>of_int (math_Round x) - x\<bar> \<le> 1 / 2"
proof (cases "0 \<le> x")
  case True
  have "of_int \<lfloor>x + 1 / 2\<rfloor> \<le> x + 1 / 2" "x + 1 / 2 < of_int \<lfloor>x + 1 / 2\<rfloor> + 1" by linarith+
  with True have "\<bar>of_int \<lfloor>x + 1 / 2\<rfloor> - x\<bar> \<le> 1 / 2" by linarith
  with True show ?thesis by (simp only: math_Round_def if_True)
next
  case False
  have "of_int \<lfloor>- x + 1 / 2\<rfloor> \<le> - x + 1 / 2" "- x + 1 / 2 < of_int \<lfloor>- x + 1 / 2\<rfloor> + 1"
    by linarith+
  then have "\<bar>of_int (- \<lfloor>- x + 1 / 2\<rfloor>) - x\<bar> \<le> 1 / 2" by linarith
  with False show ?thesis by (simp only: math_Round_def if_False)
qed

lemma math_Round_quarter: "x \<le> of_int n + 1 / 4 \<Longrightarrow> math_Round x \<le> n"
proof -
  assume "x \<le> of_int n + 1 / 4"
  with math_Round_err [of x] have "of_int (math_Round x) < (of_int (n + 1) :: rat)"
    by linarith
  then show ?thesis by (simp only: of_int_less_iff)
qed

lemma int64_id: "- (2 ^ 63) \<le> n \<Longrightarrow> n < 2 ^ 63 \<Longrightarrow> int64 n = n"
  by (simp add: int64_def)

lemma float_to_int_mono:
  "m \<le> n \<Longrightarrow> n < 2 ^ 63 \<Longrightarrow> float_to_int m \<le> float_to_int n"
  by (auto simp: float_to_int_def)

end
