(* ===== verification/Registry_Spec.thy ===== *)
theory Registry_Spec
  imports Prelude
begin

text \<open>
  The contract shared by the three plugin registries of the platform (scoring modes, challenge
  types, auth providers): a name resolves to an entry, a plugin registers and deregisters names, and
  the built-in names are protected. Each registry theory interprets these locales on its own
  definitions.

  \<open>run_ops\<close> plays a sequence of loader calls against a registry. A refused \<open>RegOp\<close> leaves the
  registry as it was, as the error return of \<^verbatim>\<open>Register\<close> does.
\<close>

datatype 'e reg_op = RegOp string 'e bool | DeregOp string

fun plugin_op :: "'e reg_op \<Rightarrow> bool" where
  "plugin_op (RegOp n e override) \<longleftrightarrow> \<not> override"
| "plugin_op (DeregOp n) \<longleftrightarrow> True"

fun apply_op ::
  "('r \<Rightarrow> string \<Rightarrow> 'e \<Rightarrow> bool \<Rightarrow> 'r result) \<Rightarrow> ('r \<Rightarrow> string \<Rightarrow> 'r) \<Rightarrow> 'r \<Rightarrow> 'e reg_op \<Rightarrow> 'r" where
  "apply_op reg dereg r (RegOp n e override) =
     (case reg r n e override of Inl m \<Rightarrow> r | Inr r' \<Rightarrow> r')"
| "apply_op reg dereg r (DeregOp n) = dereg r n"

fun run_ops ::
  "('r \<Rightarrow> string \<Rightarrow> 'e \<Rightarrow> bool \<Rightarrow> 'r result) \<Rightarrow> ('r \<Rightarrow> string \<Rightarrow> 'r) \<Rightarrow> 'r \<Rightarrow> 'e reg_op list \<Rightarrow> 'r" where
  "run_ops reg dereg r [] = r"
| "run_ops reg dereg r (x # xs) = run_ops reg dereg (apply_op reg dereg r x) xs"

locale registry =
  fixes lookup :: "'r \<Rightarrow> string \<Rightarrow> 'e option"
    and register :: "'r \<Rightarrow> string \<Rightarrow> 'e \<Rightarrow> bool \<Rightarrow> 'r result"
    and deregister :: "'r \<Rightarrow> string \<Rightarrow> 'r"
    and builtin :: "'r \<Rightarrow> string \<Rightarrow> bool"
    and invar :: "'r \<Rightarrow> bool"
  assumes register_protected: "invar r \<Longrightarrow> builtin r n \<Longrightarrow> \<exists>m. register r n e False = Inl m"
    and register_accepts: "invar r \<Longrightarrow> \<not> builtin r n \<or> ov \<Longrightarrow> \<exists>r'. register r n e ov = Inr r'"
    and register_lookup: "invar r \<Longrightarrow> register r n e ov = Inr r' \<Longrightarrow> lookup r' = (lookup r)(n \<mapsto> e)"
    and register_builtin: "invar r \<Longrightarrow> register r n e ov = Inr r' \<Longrightarrow> builtin r' = builtin r"
    and register_invar: "invar r \<Longrightarrow> register r n e ov = Inr r' \<Longrightarrow> invar r'"
    and deregister_other: "invar r \<Longrightarrow> k \<noteq> n \<Longrightarrow> lookup (deregister r n) k = lookup r k"
    and deregister_gone: "invar r \<Longrightarrow> \<not> builtin r n \<Longrightarrow> lookup (deregister r n) n = None"
    and deregister_builtin: "invar r \<Longrightarrow> builtin (deregister r n) = builtin r"
    and deregister_invar: "invar r \<Longrightarrow> invar (deregister r n)"
    and builtin_resolves: "invar r \<Longrightarrow> builtin r n \<Longrightarrow> lookup r n \<noteq> None"
begin

lemma apply_op_keeps:
  assumes "invar r"
  shows "invar (apply_op register deregister r x)
    \<and> builtin (apply_op register deregister r x) = builtin r"
  using assms
  by (cases x) (auto split: sum.splits
      dest: register_invar register_builtin simp: deregister_invar deregister_builtin)

lemma run_ops_keeps:
  "invar r \<Longrightarrow> invar (run_ops register deregister r xs)
    \<and> builtin (run_ops register deregister r xs) = builtin r"
  by (induction xs arbitrary: r) (auto simp: apply_op_keeps)

lemma run_ops_builtin_resolves:
  "invar r \<Longrightarrow> builtin r n \<Longrightarrow> lookup (run_ops register deregister r xs) n \<noteq> None"
  using run_ops_keeps [of r xs] builtin_resolves [of "run_ops register deregister r xs" n] by simp

text \<open>What a plugin registered is gone after its revert, and the other names are untouched.\<close>

lemma register_deregister:
  assumes "invar r" "\<not> builtin r n" "register r n e ov = Inr r'"
  shows "lookup (deregister r' n) = (lookup r)(n := None)"
proof
  fix k
  have r': "invar r'" "builtin r' = builtin r" "lookup r' = (lookup r)(n \<mapsto> e)"
    using assms register_invar register_builtin register_lookup by blast+
  show "lookup (deregister r' n) k = ((lookup r)(n := None)) k"
    using assms(2) r' by (cases "k = n") (simp_all add: deregister_gone deregister_other)
qed

end

text \<open>A registry that keeps its built-ins in a base map and puts them back on a revert.\<close>

locale restoring_registry = registry +
  fixes home :: "'a \<Rightarrow> string \<Rightarrow> 'b option"
  assumes deregister_restores: "invar r \<Longrightarrow> builtin r n \<Longrightarrow> lookup (deregister r n) n = home r n"
    and register_home: "invar r \<Longrightarrow> register r n e ov = Inr r' \<Longrightarrow> home r' = home r"
    and deregister_home: "invar r \<Longrightarrow> home (deregister r n) = home r"
begin

lemma apply_plugin_op_frame:
  assumes "invar r" "builtin r n" "lookup r n = home r n" "plugin_op x"
  shows "lookup (apply_op register deregister r x) n = home r n
    \<and> home (apply_op register deregister r x) = home r"
proof (cases x)
  case (RegOp k e ov)
  show ?thesis
  proof (cases "register r k e ov")
    case (Inl m)
    with RegOp assms show ?thesis by simp
  next
    case (Inr r')
    then have "k \<noteq> n" using assms RegOp register_protected [of r n e] by auto
    with Inr RegOp assms show ?thesis
      by (simp add: register_lookup [OF assms(1) Inr] register_home [OF assms(1) Inr])
  qed
next
  case (DeregOp k)
  with assms show ?thesis
    by (cases "k = n") (simp_all add: deregister_restores deregister_other deregister_home)
qed

lemma run_plugin_ops_frame:
  "invar r \<Longrightarrow> builtin r n \<Longrightarrow> lookup r n = home r n \<Longrightarrow> list_all plugin_op xs
   \<Longrightarrow> lookup (run_ops register deregister r xs) n = home r n"
  by (induction xs arbitrary: r) (auto simp: apply_op_keeps apply_plugin_op_frame)

end

text \<open>A registry whose protected names no revert can touch.\<close>

locale break_glass_registry = registry +
  assumes deregister_protected: "invar r \<Longrightarrow> builtin r n \<Longrightarrow> deregister r n = r"
begin

lemma run_plugin_ops_kept:
  "invar r \<Longrightarrow> builtin r n \<Longrightarrow> list_all plugin_op xs
   \<Longrightarrow> lookup (run_ops register deregister r xs) n = lookup r n"
proof (induction xs arbitrary: r)
  case Nil
  then show ?case by simp
next
  case (Cons x xs)
  have "lookup (apply_op register deregister r x) n = lookup r n"
  proof (cases x)
    case (RegOp k e ov)
    show ?thesis
    proof (cases "register r k e ov")
      case (Inl m)
      with RegOp show ?thesis by simp
    next
      case (Inr r')
      then have "k \<noteq> n" using Cons.prems RegOp register_protected [of r n e] by auto
      with Inr RegOp Cons.prems show ?thesis by (simp add: register_lookup)
    qed
  next
    case (DeregOp k)
    with Cons.prems show ?thesis
      by (cases "k = n") (simp_all add: deregister_protected deregister_other)
  qed
  with Cons show ?case by (simp add: apply_op_keeps)
qed

end

end
