(* ===== verification/Scoring.thy ===== *)
theory Scoring
  imports Float64 Registry_Spec
begin

text \<open>
  The package \<^verbatim>\<open>internal/scoring\<close>: the two built-in engines of \<^verbatim>\<open>engine.go\<close> and the mode registry of
  \<^verbatim>\<open>registry.go\<close>. A scoring engine is its name and its value function. The registry's atomic pointer
  to an immutable map is the map itself: each operation reads or swaps it as a whole. The Go type
  \<^verbatim>\<open>int\<close> is 64 bits wide.
\<close>

subsection \<open>Engines\<close>

record ChallengeScoring =
  Initial :: int
  Minimum :: int
  Decay :: int

definition ModeStatic :: string where
  "ModeStatic = ''static''"

definition ModeDynamic :: string where
  "ModeDynamic = ''dynamic''"

definition IsBuiltinMode :: "string \<Rightarrow> bool" where
  "IsBuiltinMode mode \<longleftrightarrow> mode = ModeStatic \<or> mode = ModeDynamic"

record ScoringEngine =
  engine_Name :: string
  engine_Value :: "ChallengeScoring \<Rightarrow> int \<Rightarrow> int"

definition StaticEngine_Value :: "ChallengeScoring \<Rightarrow> int \<Rightarrow> int" where
  "StaticEngine_Value params solves = Initial params"

text \<open>The float64 expression of \<^verbatim>\<open>DynamicEngine.Value\<close>, over any rounding.\<close>

definition decay_value :: "(rat \<Rightarrow> rat) \<Rightarrow> int \<Rightarrow> int \<Rightarrow> int \<Rightarrow> int \<Rightarrow> rat" where
  "decay_value fl initial spread decay solves =
     (let s = fl (of_int solves);
          d = fl (of_int decay)
      in fl (fl (of_int initial) - fl (fl (fl (of_int spread) * fl (s * s)) / fl (d * d))))"

definition DynamicEngine_Value :: "ChallengeScoring \<Rightarrow> int \<Rightarrow> int" where
  "DynamicEngine_Value params solves =
     (let solves = (if solves < 0 then 0 else solves)
      in if Decay params \<le> 0 then Minimum params
         else
           let val = decay_value fl64 (Initial params) (int64 (Initial params - Minimum params))
                       (Decay params) solves;
               rounded = float_to_int (math_Round val)
           in if rounded < Minimum params then Minimum params else rounded)"

definition StaticEngine :: ScoringEngine where
  "StaticEngine = \<lparr>engine_Name = ModeStatic, engine_Value = StaticEngine_Value\<rparr>"

definition DynamicEngine :: ScoringEngine where
  "DynamicEngine = \<lparr>engine_Name = ModeDynamic, engine_Value = DynamicEngine_Value\<rparr>"

subsection \<open>The mode registry\<close>

record engEntry =
  entry_engine :: ScoringEngine
  entry_protected :: bool

record Registry =
  reg_m :: "string \<rightharpoonup> engEntry"
  reg_base :: "string \<rightharpoonup> engEntry"

fun builtin_entries :: "ScoringEngine list \<Rightarrow> (string \<rightharpoonup> engEntry) \<Rightarrow> (string \<rightharpoonup> engEntry)" where
  "builtin_entries [] m = m"
| "builtin_entries (e # es) m =
     builtin_entries es (m(engine_Name e \<mapsto> \<lparr>entry_engine = e, entry_protected = True\<rparr>))"

definition NewRegistry :: "ScoringEngine list \<Rightarrow> Registry" where
  "NewRegistry builtins =
     (let m = builtin_entries builtins Map.empty in \<lparr>reg_m = m, reg_base = m\<rparr>)"

definition Deregister :: "Registry \<Rightarrow> string \<Rightarrow> Registry" where
  "Deregister r name =
     (case reg_m r name of
        None \<Rightarrow> r
      | Some _ \<Rightarrow>
          let next = (reg_m r)(name := None)
          in r\<lparr>reg_m := (case reg_base r name of
                            Some b \<Rightarrow> next(name \<mapsto> b)
                          | None \<Rightarrow> next)\<rparr>)"

definition Get :: "Registry \<Rightarrow> string \<Rightarrow> ScoringEngine option" where
  "Get r mode = map_option entry_engine (reg_m r mode)"

definition Value :: "Registry \<Rightarrow> string \<Rightarrow> ChallengeScoring \<Rightarrow> int \<Rightarrow> int" where
  "Value r mode params solves =
     (case reg_m r mode of
        Some e \<Rightarrow> engine_Value (entry_engine e) params solves
      | None \<Rightarrow> engine_Value StaticEngine params solves)"

definition Register :: "Registry \<Rightarrow> string \<Rightarrow> ScoringEngine \<Rightarrow> bool \<Rightarrow> Registry result" where
  "Register r name e override =
     (let old = reg_m r;
          refused = (case old name of Some ex \<Rightarrow> entry_protected ex \<and> \<not> override | None \<Rightarrow> False);
          protected = (case old name of Some ex \<Rightarrow> entry_protected ex | None \<Rightarrow> False)
      in if refused then Inl (Internal ''scoring: protected built-in'')
         else Inr (r\<lparr>reg_m := old(name \<mapsto>
                \<lparr>entry_engine = e, entry_protected = protected\<rparr>)\<rparr>))"

definition Engines :: "Registry \<Rightarrow> string \<rightharpoonup> ScoringEngine" where
  "Engines r = (\<lambda>k. map_option entry_engine (reg_m r k))"

definition IsRegisteredMode :: "Registry \<Rightarrow> string \<Rightarrow> bool" where
  "IsRegisteredMode r mode \<longleftrightarrow> Get r mode \<noteq> None"

definition defaultRegistry :: Registry where
  "defaultRegistry = NewRegistry [StaticEngine, DynamicEngine]"

subsection \<open>The decay formula, over any rounding\<close>

context float_rounding
begin

lemma decay_value_le_initial:
  assumes "0 \<le> initial" "initial < 2 ^ 53" "0 \<le> spread" "0 < decay" "0 \<le> solves"
  shows "decay_value fl initial spread decay solves \<le> of_int initial"
proof -
  let ?q = "fl (fl (fl (of_int spread) * fl (fl (of_int solves) * fl (of_int solves)))
              / fl (fl (of_int decay) * fl (of_int decay)))"
  have "0 \<le> ?q"
    using assms by (intro fl_nonneg divide_nonneg_nonneg mult_nonneg_nonneg [OF fl_nonneg])
      (auto intro: fl_nonneg)
  then have "fl (of_int initial - ?q) \<le> fl (of_int initial)" by (intro fl_mono) simp
  then show ?thesis using assms by (simp add: decay_value_def Let_def fl_int)
qed

lemma decay_value_antimono:
  assumes "0 \<le> spread" "0 < decay" "0 \<le> s" "s \<le> s'"
  shows "decay_value fl initial spread decay s' \<le> decay_value fl initial spread decay s"
proof -
  have "fl (of_int s) \<le> fl (of_int s')" "0 \<le> fl (of_int s)"
    using assms by (auto intro: fl_mono fl_nonneg)
  then have "fl (of_int s) * fl (of_int s) \<le> fl (of_int s') * fl (of_int s')"
    by (intro mult_mono) auto
  moreover have "0 \<le> fl (of_int spread)" "0 \<le> fl (fl (of_int decay) * fl (of_int decay))"
    using assms by (auto intro: fl_nonneg)
  ultimately show ?thesis
    unfolding decay_value_def Let_def
    by (intro fl_mono diff_left_mono divide_right_mono mult_left_mono)
qed

lemma decay_value_zero:
  assumes "0 \<le> initial" "initial < 2 ^ 53"
  shows "decay_value fl initial spread decay 0 = of_int initial"
  using assms by (simp add: decay_value_def Let_def fl_zero fl_int)

lemma decay_quotient_ge:
  assumes D: "0 \<le> (D::rat)" and Q: "1 \<le> Q" "Q \<le> P"
  shows "D * (1 - 2 powi (- 53)) * (1 - 2 powi (- 53)) \<le> fl (fl (D * P) / Q)"
proof -
  have e: "(0::rat) \<le> 1 - 2 powi (- 53)" by simp
  have "D * Q * (1 - 2 powi (- 53)) \<le> D * P * (1 - 2 powi (- 53))"
    using D Q by (intro mult_right_mono [OF _ e] mult_left_mono) auto
  also have "\<dots> \<le> fl (D * P)" using D Q by (intro fl_lower) auto
  finally have "D * (1 - 2 powi (- 53)) \<le> fl (D * P) / Q"
    using Q by (simp add: pos_le_divide_eq mult.commute mult.left_commute)
  moreover have "0 \<le> fl (D * P) / Q" using D Q by (intro divide_nonneg_nonneg fl_nonneg) auto
  ultimately show ?thesis
    using fl_lower [of "fl (D * P) / Q"] mult_right_mono [OF _ e] by fastforce
qed

lemma decay_value_le_min:
  assumes i: "0 \<le> initial" "initial < 2 ^ 31" and m: "0 \<le> least" "least \<le> initial"
    and d: "0 < decay" "decay \<le> solves"
  shows "decay_value fl initial (initial - least) decay solves \<le> of_int least + 1 / 4"
proof -
  let ?D = "of_int (initial - least) :: rat"
  let ?Q = "fl (fl (of_int decay) * fl (of_int decay))"
  let ?P = "fl (fl (of_int solves) * fl (of_int solves))"
  have d1: "1 \<le> fl (of_int decay)" using d by (intro fl_pos) simp
  then have Q: "1 \<le> ?Q" using mult_mono [OF d1 d1] by (intro fl_pos) simp
  have "fl (of_int decay) \<le> fl (of_int solves)" using d by (intro fl_mono) simp
  with d1 have "?Q \<le> ?P" by (intro fl_mono [OF mult_mono]) auto
  with Q have q: "?D * (1 - 2 powi (- 53)) * (1 - 2 powi (- 53)) \<le> fl (fl (?D * ?P) / ?Q)"
    using m by (intro decay_quotient_ge) auto
  have "initial - least < 2 ^ 31" using i m by simp
  then have "?D < of_int (2 ^ 31)" by (simp only: of_int_less_iff)
  then have D8: "?D * 2 powi (- 53) \<le> 1 / 8" by (simp add: power_int_minus field_simps)
  have sq: "D * (1 - e) * (1 - e) = D - 2 * (D * e) + D * (e * e)" for D e :: rat
    by (simp add: algebra_simps)
  have "0 \<le> ?D * (2 powi (- 53) * 2 powi (- 53))"
    using m by (intro mult_nonneg_nonneg) auto
  with D8 have "?D - 1 / 4 \<le> ?D * (1 - 2 powi (- 53)) * (1 - 2 powi (- 53))"
    unfolding sq by linarith
  with q have "of_int initial - fl (fl (?D * ?P) / ?Q) \<le> of_int least + 1 / 4"
    unfolding of_int_diff by linarith
  then have "fl (of_int initial - fl (fl (?D * ?P) / ?Q)) \<le> fl (of_int least + 1 / 4)"
    by (rule fl_mono)
  also have "\<dots> = of_int least + 1 / 4" using i m by (intro fl_quarter) auto
  finally show ?thesis
    using i m fl_int [of initial] fl_int [of "initial - least"] by (simp add: decay_value_def Let_def)
qed

end


subsection \<open>The dynamic engine\<close>

text \<open>What the write-time validation of a dynamic challenge and the 32-bit columns guarantee.\<close>

definition wf_scoring :: "ChallengeScoring \<Rightarrow> bool" where
  "wf_scoring p \<longleftrightarrow> 0 \<le> Minimum p \<and> Minimum p \<le> Initial p \<and> Initial p < 2 ^ 31"

lemma wf_scoring_int64 [simp]:
  "wf_scoring p \<Longrightarrow> int64 (Initial p - Minimum p) = Initial p - Minimum p"
  by (simp add: wf_scoring_def int64_id)

lemma dynamic_raw_le_initial:
  assumes "wf_scoring p" "0 < Decay p" "0 \<le> s"
  shows "math_Round (decay_value fl64 (Initial p) (Initial p - Minimum p) (Decay p) s) \<le> Initial p"
proof -
  have "decay_value fl64 (Initial p) (Initial p - Minimum p) (Decay p) s \<le> of_int (Initial p)"
    using assms by (intro f64.decay_value_le_initial) (auto simp: wf_scoring_def)
  then show ?thesis using math_Round_mono by fastforce
qed

text \<open>C10. The dynamic engine's value always lies between the challenge's minimum and its initial
  points, for every solve count, whatever the rounding of the float64 formula does.\<close>

theorem dynamic_value_bounds:
  assumes "wf_scoring p"
  shows "Minimum p \<le> DynamicEngine_Value p solves \<and> DynamicEngine_Value p solves \<le> Initial p"
proof (cases "Decay p \<le> 0")
  case True
  with assms show ?thesis by (simp add: DynamicEngine_Value_def Let_def wf_scoring_def)
next
  case False
  define s where "s = (if solves < 0 then 0 else solves)"
  have "math_Round (decay_value fl64 (Initial p) (Initial p - Minimum p) (Decay p) s) \<le> Initial p"
    using assms False by (intro dynamic_raw_le_initial) (auto simp: s_def)
  then have "float_to_int (math_Round (decay_value fl64 (Initial p) (Initial p - Minimum p) (Decay p) s))
      \<le> Initial p"
    using assms by (auto simp: float_to_int_def wf_scoring_def)
  with False assms show ?thesis
    by (auto simp: DynamicEngine_Value_def Let_def s_def [symmetric] wf_scoring_def)
qed

theorem dynamic_value_bounds_witness:
  "wf_scoring \<lparr>Initial = 500, Minimum = 100, Decay = 50\<rparr> \<and>
   100 \<le> DynamicEngine_Value \<lparr>Initial = 500, Minimum = 100, Decay = 50\<rparr> 7"
  using dynamic_value_bounds [of "\<lparr>Initial = 500, Minimum = 100, Decay = 50\<rparr>" 7]
  by (simp add: wf_scoring_def)

text \<open>A further solve never raises a challenge's value: the dynamic engine is antitone in the
  solve count.\<close>

theorem dynamic_value_antimono:
  assumes "wf_scoring p" "s \<le> s'"
  shows "DynamicEngine_Value p s' \<le> DynamicEngine_Value p s"
proof (cases "Decay p \<le> 0")
  case True
  then show ?thesis by (simp add: DynamicEngine_Value_def Let_def)
next
  case False
  let ?c = "\<lambda>s. if s < 0 then 0 else s :: int"
  let ?v = "\<lambda>s. math_Round (decay_value fl64 (Initial p) (Initial p - Minimum p) (Decay p) s)"
  have "?v (?c s') \<le> ?v (?c s)"
    using assms False
    by (intro math_Round_mono f64.decay_value_antimono) (auto simp: wf_scoring_def)
  moreover have "?v (?c s) < 2 ^ 63"
    using dynamic_raw_le_initial [OF assms(1), of "?c s"] False assms(1)
    by (auto simp: wf_scoring_def)
  ultimately have "float_to_int (?v (?c s')) \<le> float_to_int (?v (?c s))"
    by (intro float_to_int_mono)
  then show ?thesis using False assms(1) by (auto simp: DynamicEngine_Value_def Let_def)
qed

theorem dynamic_value_antimono_witness:
  "DynamicEngine_Value \<lparr>Initial = 500, Minimum = 100, Decay = 50\<rparr> 9
   \<le> DynamicEngine_Value \<lparr>Initial = 500, Minimum = 100, Decay = 50\<rparr> 8"
  using dynamic_value_antimono [of "\<lparr>Initial = 500, Minimum = 100, Decay = 50\<rparr>" 8 9]
  by (simp add: wf_scoring_def)

text \<open>The ends of the curve are exact although the formula is computed in float64: with no solve
  the challenge is worth its initial points, and from \<^verbatim>\<open>Decay\<close> solves on it is worth exactly its
  minimum.\<close>

theorem dynamic_value_ends:
  assumes "wf_scoring p" "0 < Decay p"
  shows "(s \<le> 0 \<longrightarrow> DynamicEngine_Value p s = Initial p) \<and>
         (Decay p \<le> s \<longrightarrow> DynamicEngine_Value p s = Minimum p)"
proof (intro conjI impI)
  assume "s \<le> 0"
  with assms show "DynamicEngine_Value p s = Initial p"
    by (auto simp: DynamicEngine_Value_def Let_def wf_scoring_def f64.decay_value_zero
        float_to_int_def int64_id)
next
  assume s: "Decay p \<le> s"
  have "decay_value fl64 (Initial p) (Initial p - Minimum p) (Decay p) s \<le> of_int (Minimum p) + 1 / 4"
    using assms s by (intro f64.decay_value_le_min) (auto simp: wf_scoring_def)
  then have "math_Round (decay_value fl64 (Initial p) (Initial p - Minimum p) (Decay p) s) \<le> Minimum p"
    by (rule math_Round_quarter)
  moreover from assms have "0 \<le> Minimum p" by (simp add: wf_scoring_def)
  ultimately show "DynamicEngine_Value p s = Minimum p"
    using assms s by (auto simp: DynamicEngine_Value_def Let_def float_to_int_def)
qed

theorem dynamic_value_ends_witness:
  "DynamicEngine_Value \<lparr>Initial = 500, Minimum = 100, Decay = 50\<rparr> 0 = 500 \<and>
   DynamicEngine_Value \<lparr>Initial = 500, Minimum = 100, Decay = 50\<rparr> 80 = 100"
  using dynamic_value_ends [of "\<lparr>Initial = 500, Minimum = 100, Decay = 50\<rparr>" 0]
    dynamic_value_ends [of "\<lparr>Initial = 500, Minimum = 100, Decay = 50\<rparr>" 80]
  by (simp add: wf_scoring_def)

subsection \<open>The registry refines its contract\<close>

definition reg_invar :: "Registry \<Rightarrow> bool" where
  "reg_invar r \<longleftrightarrow>
     (\<forall>n b. reg_base r n = Some b \<longrightarrow> entry_protected b \<and> reg_m r n \<noteq> None) \<and>
     (\<forall>n e. reg_m r n = Some e \<longrightarrow> (entry_protected e \<longleftrightarrow> reg_base r n \<noteq> None))"

definition reg_builtin :: "Registry \<Rightarrow> string \<Rightarrow> bool" where
  "reg_builtin r n \<longleftrightarrow> reg_base r n \<noteq> None"

definition reg_home :: "Registry \<Rightarrow> string \<Rightarrow> ScoringEngine option" where
  "reg_home r n = map_option entry_engine (reg_base r n)"

lemma Register_base: "Register r n e ov = Inr r' \<Longrightarrow> reg_base r' = reg_base r"
  by (auto simp: Register_def Let_def split: if_splits)

lemma Deregister_base [simp]: "reg_base (Deregister r n) = reg_base r"
  by (simp add: Deregister_def Let_def split: option.split)

interpretation scoring_reg: restoring_registry Get Register Deregister reg_builtin reg_invar reg_home
proof unfold_locales
  fix r n e ov r' k
  assume inv: "reg_invar r"
  show "\<exists>m. Register r n e False = Inl m" if "reg_builtin r n"
    using inv that
    by (fastforce simp: reg_invar_def reg_builtin_def Register_def Let_def split: option.splits)
  show "\<exists>r'. Register r n e ov = Inr r'" if "\<not> reg_builtin r n \<or> ov"
    using inv that
    by (auto simp: reg_invar_def reg_builtin_def Register_def Let_def split: option.splits)
  show "Get r n \<noteq> None" if "reg_builtin r n"
    using inv that by (auto simp: reg_invar_def reg_builtin_def Get_def)
  show "Get (Deregister r n) k = Get r k" if "k \<noteq> n"
    using that by (auto simp: Get_def Deregister_def Let_def split: option.splits)
  show "Get (Deregister r n) n = None" if "\<not> reg_builtin r n"
    using that by (auto simp: Get_def Deregister_def reg_builtin_def Let_def split: option.splits)
  show "Get (Deregister r n) n = reg_home r n" if "reg_builtin r n"
    using inv that
    by (auto simp: Get_def Deregister_def reg_builtin_def reg_home_def reg_invar_def Let_def
        split: option.splits)
  show "reg_invar (Deregister r n)"
    using inv by (auto simp: reg_invar_def Deregister_def Let_def split: option.splits)
  show "reg_builtin (Deregister r n) = reg_builtin r" "reg_home (Deregister r n) = reg_home r"
    by (auto simp: reg_builtin_def reg_home_def)
  assume reg: "Register r n e ov = Inr r'"
  show "Get r' = (Get r)(n \<mapsto> e)"
    using reg by (auto simp: Get_def Register_def Let_def split: if_splits)
  show "reg_builtin r' = reg_builtin r" "reg_home r' = reg_home r"
    using reg by (auto simp: reg_builtin_def reg_home_def Register_base)
  show "reg_invar r'"
    using inv reg by (fastforce simp: reg_invar_def Register_def Let_def split: if_splits option.splits)
qed

lemma defaultRegistry_wf [simp]:
  "reg_invar defaultRegistry" "reg_builtin defaultRegistry ModeStatic"
  "reg_builtin defaultRegistry ModeDynamic"
  "reg_home defaultRegistry ModeStatic = Some StaticEngine"
  "reg_home defaultRegistry ModeDynamic = Some DynamicEngine"
  "Get defaultRegistry ModeStatic = Some StaticEngine"
  "Get defaultRegistry ModeDynamic = Some DynamicEngine"
  by (auto simp: defaultRegistry_def NewRegistry_def Let_def reg_invar_def reg_builtin_def
      reg_home_def Get_def StaticEngine_def DynamicEngine_def ModeStatic_def ModeDynamic_def)

lemma Value_Get: "Get r m = Some e \<Longrightarrow> Value r m p s = engine_Value e p s"
  by (auto simp: Get_def Value_def)

lemma run_builtin_values:
  assumes "list_all plugin_op xs"
  shows "Value (run_ops Register Deregister defaultRegistry xs) ModeStatic = StaticEngine_Value"
    and "Value (run_ops Register Deregister defaultRegistry xs) ModeDynamic = DynamicEngine_Value"
proof -
  have "Get (run_ops Register Deregister defaultRegistry xs) ModeStatic = Some StaticEngine"
    "Get (run_ops Register Deregister defaultRegistry xs) ModeDynamic = Some DynamicEngine"
    using scoring_reg.run_plugin_ops_frame [OF _ _ _ assms] by simp_all
  then show "Value (run_ops Register Deregister defaultRegistry xs) ModeStatic = StaticEngine_Value"
    "Value (run_ops Register Deregister defaultRegistry xs) ModeDynamic = DynamicEngine_Value"
    by (simp_all add: fun_eq_iff Value_Get StaticEngine_def DynamicEngine_def)
qed

lemma run_builtin_mode_value:
  assumes "list_all plugin_op xs" "IsBuiltinMode mode"
  shows "Value (run_ops Register Deregister defaultRegistry xs) mode = Value defaultRegistry mode"
  using assms run_builtin_values [of xs] run_builtin_values [of "[]"]
  by (auto simp: IsBuiltinMode_def)

text \<open>No sequence of plugin registrations and reverts changes how a built-in mode scores: after any
  calls of the plugin loader (none overriding), \<^verbatim>\<open>static\<close> and \<^verbatim>\<open>dynamic\<close> still compute the
  built-in formulas.\<close>

theorem builtin_modes_stable:
  assumes "list_all plugin_op xs"
  shows "Value (run_ops Register Deregister defaultRegistry xs) ModeStatic p s = StaticEngine_Value p s
    \<and> Value (run_ops Register Deregister defaultRegistry xs) ModeDynamic p s = DynamicEngine_Value p s"
  by (simp add: run_builtin_values [OF assms])

theorem builtin_modes_stable_witness:
  "Value (run_ops Register Deregister defaultRegistry
      [RegOp ''dynamic'' StaticEngine False, RegOp ''decay'' StaticEngine False, DeregOp ''dynamic''])
     ModeDynamic \<lparr>Initial = 500, Minimum = 100, Decay = 50\<rparr> 3
   = DynamicEngine_Value \<lparr>Initial = 500, Minimum = 100, Decay = 50\<rparr> 3"
  using builtin_modes_stable [of "[RegOp ''dynamic'' StaticEngine False,
      RegOp ''decay'' StaticEngine False, DeregOp ''dynamic'']"]
  by simp

end
