(* ===== verification/Challenge_Types.thy ===== *)
theory Challenge_Types
  imports Registry_Spec
begin

text \<open>
  The challenge-type registry, \<^verbatim>\<open>internal/challenges/typeregistry.go\<close>. A challenge type is its id, its
  author-time configuration validation and, for a plugin type only, its flag checker. Plugin code
  runs out of process: its answers are values of the entry, \<open>None\<close> standing for a Go error.
\<close>

type_synonym config = "(string \<times> string) list"

record ConfigValidation =
  cv_OK :: bool
  cv_FieldErrors :: config
  cv_Normalized :: config

record ChallengeType =
  ct_ID :: string
  ct_ValidateConfig :: "config \<Rightarrow> ConfigValidation option"
  ct_CheckFlag :: "(string \<Rightarrow> config \<Rightarrow> config \<Rightarrow> bool option) option"

definition builtinType :: "string \<Rightarrow> ChallengeType" where
  "builtinType i = \<lparr>ct_ID = i,
     ct_ValidateConfig = (\<lambda>_. Some \<lparr>cv_OK = True, cv_FieldErrors = [], cv_Normalized = []\<rparr>),
     ct_CheckFlag = None\<rparr>"

record ctEntry =
  ct :: ChallengeType
  ct_protected :: bool

record TypeRegistry =
  tr_m :: "string \<rightharpoonup> ctEntry"
  tr_base :: "string \<rightharpoonup> ctEntry"

fun type_entries :: "ChallengeType list \<Rightarrow> (string \<rightharpoonup> ctEntry) \<Rightarrow> (string \<rightharpoonup> ctEntry)" where
  "type_entries [] m = m"
| "type_entries (t # ts) m = type_entries ts (m(ct_ID t \<mapsto> \<lparr>ct = t, ct_protected = True\<rparr>))"

definition NewTypeRegistry :: "ChallengeType list \<Rightarrow> TypeRegistry" where
  "NewTypeRegistry builtins =
     (let m = type_entries builtins Map.empty in \<lparr>tr_m = m, tr_base = m\<rparr>)"

definition DeregisterType :: "TypeRegistry \<Rightarrow> string \<Rightarrow> TypeRegistry" where
  "DeregisterType r i =
     (case tr_m r i of
        None \<Rightarrow> r
      | Some _ \<Rightarrow>
          let next = (tr_m r)(i := None)
          in r\<lparr>tr_m := (case tr_base r i of Some b \<Rightarrow> next(i \<mapsto> b) | None \<Rightarrow> next)\<rparr>)"

definition GetType :: "TypeRegistry \<Rightarrow> string \<Rightarrow> ChallengeType option" where
  "GetType r i = map_option ct (tr_m r i)"

definition IsRegisteredType :: "TypeRegistry \<Rightarrow> string \<Rightarrow> bool" where
  "IsRegisteredType r i \<longleftrightarrow> tr_m r i \<noteq> None"

definition RegisterType :: "TypeRegistry \<Rightarrow> string \<Rightarrow> ChallengeType \<Rightarrow> bool \<Rightarrow> TypeRegistry result" where
  "RegisterType r i t override =
     (let old = tr_m r;
          refused = (case old i of Some e \<Rightarrow> ct_protected e \<and> \<not> override | None \<Rightarrow> False);
          protected = (case old i of Some e \<Rightarrow> ct_protected e | None \<Rightarrow> False)
      in if refused then Inl (Internal ''challenges: protected built-in'')
         else Inr (r\<lparr>tr_m := old(i \<mapsto> \<lparr>ct = t, ct_protected = protected\<rparr>)\<rparr>))"

definition defaultTypeRegistry :: TypeRegistry where
  "defaultTypeRegistry = NewTypeRegistry [builtinType ''standard'', builtinType ''container'']"

subsection \<open>The registry refines its contract\<close>

definition tr_invar :: "TypeRegistry \<Rightarrow> bool" where
  "tr_invar r \<longleftrightarrow>
     (\<forall>n b. tr_base r n = Some b \<longrightarrow> ct_protected b \<and> tr_m r n \<noteq> None) \<and>
     (\<forall>n e. tr_m r n = Some e \<longrightarrow> (ct_protected e \<longleftrightarrow> tr_base r n \<noteq> None))"

definition tr_builtin :: "TypeRegistry \<Rightarrow> string \<Rightarrow> bool" where
  "tr_builtin r n \<longleftrightarrow> tr_base r n \<noteq> None"

definition tr_home :: "TypeRegistry \<Rightarrow> string \<Rightarrow> ChallengeType option" where
  "tr_home r n = map_option ct (tr_base r n)"

lemma RegisterType_base: "RegisterType r n e ov = Inr r' \<Longrightarrow> tr_base r' = tr_base r"
  by (auto simp: RegisterType_def Let_def split: if_splits)

lemma DeregisterType_base [simp]: "tr_base (DeregisterType r n) = tr_base r"
  by (simp add: DeregisterType_def Let_def split: option.split)

interpretation type_reg: restoring_registry GetType RegisterType DeregisterType tr_builtin tr_invar tr_home
proof unfold_locales
  fix r n e ov r' k
  assume inv: "tr_invar r"
  show "\<exists>m. RegisterType r n e False = Inl m" if "tr_builtin r n"
    using inv that
    by (fastforce simp: tr_invar_def tr_builtin_def RegisterType_def Let_def split: option.splits)
  show "\<exists>r'. RegisterType r n e ov = Inr r'" if "\<not> tr_builtin r n \<or> ov"
    using inv that
    by (auto simp: tr_invar_def tr_builtin_def RegisterType_def Let_def split: option.splits)
  show "GetType r n \<noteq> None" if "tr_builtin r n"
    using inv that by (auto simp: tr_invar_def tr_builtin_def GetType_def)
  show "GetType (DeregisterType r n) k = GetType r k" if "k \<noteq> n"
    using that by (auto simp: GetType_def DeregisterType_def Let_def split: option.splits)
  show "GetType (DeregisterType r n) n = None" if "\<not> tr_builtin r n"
    using that by (auto simp: GetType_def DeregisterType_def tr_builtin_def Let_def split: option.splits)
  show "GetType (DeregisterType r n) n = tr_home r n" if "tr_builtin r n"
    using inv that
    by (auto simp: GetType_def DeregisterType_def tr_builtin_def tr_home_def tr_invar_def Let_def
        split: option.splits)
  show "tr_invar (DeregisterType r n)"
    using inv by (auto simp: tr_invar_def DeregisterType_def Let_def split: option.splits)
  show "tr_builtin (DeregisterType r n) = tr_builtin r" "tr_home (DeregisterType r n) = tr_home r"
    by (auto simp: tr_builtin_def tr_home_def)
  assume reg: "RegisterType r n e ov = Inr r'"
  show "GetType r' = (GetType r)(n \<mapsto> e)"
    using reg by (auto simp: GetType_def RegisterType_def Let_def split: if_splits)
  show "tr_builtin r' = tr_builtin r" "tr_home r' = tr_home r"
    using reg by (auto simp: tr_builtin_def tr_home_def RegisterType_base)
  show "tr_invar r'"
    using inv reg by (fastforce simp: tr_invar_def RegisterType_def Let_def split: if_splits option.splits)
qed

lemma defaultTypeRegistry_wf [simp]:
  "tr_invar defaultTypeRegistry"
  "tr_builtin defaultTypeRegistry n \<longleftrightarrow> n = ''standard'' \<or> n = ''container''"
  "GetType defaultTypeRegistry ''standard'' = Some (builtinType ''standard'')"
  "GetType defaultTypeRegistry ''container'' = Some (builtinType ''container'')"
  by (auto simp: defaultTypeRegistry_def NewTypeRegistry_def Let_def tr_invar_def tr_builtin_def
      GetType_def builtinType_def)

end
