(* ===== verification/Auth_Registry.thy ===== *)
theory Auth_Registry
  imports Registry_Spec
begin

text \<open>
  The auth-provider registry, \<^verbatim>\<open>internal/auth/registry.go\<close>. A provider is opaque to the registry:
  the entries carry a value of any type \<open>'p\<close> with its name. Unlike the scoring and type registries
  this one has no base map: a protected entry cannot be removed at all.
\<close>

record 'p entry =
  provider :: 'p
  protected :: bool

record 'p AuthRegistry =
  ar_m :: "string \<rightharpoonup> 'p entry"
  ar_defaultName :: string

definition NewAuthRegistry :: "string \<Rightarrow> 'p \<Rightarrow> 'p AuthRegistry" where
  "NewAuthRegistry name def =
     \<lparr>ar_m = [name \<mapsto> \<lparr>provider = def, protected = True\<rparr>], ar_defaultName = name\<rparr>"

definition GetProvider :: "'p AuthRegistry \<Rightarrow> string \<Rightarrow> 'p option" where
  "GetProvider r name = map_option provider (ar_m r name)"

definition Default :: "'p AuthRegistry \<Rightarrow> 'p option" where
  "Default r = GetProvider r (ar_defaultName r)"

definition RegisterProvider ::
  "'p AuthRegistry \<Rightarrow> string \<Rightarrow> 'p \<Rightarrow> bool \<Rightarrow> 'p AuthRegistry result" where
  "RegisterProvider r name p override =
     (let old = ar_m r;
          refused = (case old name of Some e \<Rightarrow> protected e \<and> \<not> override | None \<Rightarrow> False);
          prot = (case old name of Some e \<Rightarrow> protected e | None \<Rightarrow> False)
      in if refused then Inl (Internal ''auth: protected built-in'')
         else Inr (r\<lparr>ar_m := old(name \<mapsto> \<lparr>provider = p, protected = prot\<rparr>)\<rparr>))"

definition DeregisterProvider :: "'p AuthRegistry \<Rightarrow> string \<Rightarrow> 'p AuthRegistry" where
  "DeregisterProvider r name =
     (case ar_m r name of
        None \<Rightarrow> r
      | Some e \<Rightarrow> if protected e then r else r\<lparr>ar_m := (ar_m r)(name := None)\<rparr>)"

text \<open>\<^verbatim>\<open>HasUsableLogin\<close> scans the registered names; \<open>names\<close> is that key list.\<close>

definition HasUsableLogin :: "string list \<Rightarrow> string \<Rightarrow> bool \<Rightarrow> bool" where
  "HasUsableLogin names defaultName emailEnabled \<longleftrightarrow>
     emailEnabled \<or> list_ex (\<lambda>name. name \<noteq> defaultName) names"

subsection \<open>The registry refines its contract\<close>

definition ar_builtin :: "'p AuthRegistry \<Rightarrow> string \<Rightarrow> bool" where
  "ar_builtin r n \<longleftrightarrow> (case ar_m r n of Some e \<Rightarrow> protected e | None \<Rightarrow> False)"

interpretation auth_reg: break_glass_registry
  GetProvider RegisterProvider DeregisterProvider ar_builtin "\<lambda>_. True"
proof unfold_locales
  fix r :: "'p AuthRegistry" and n e ov r' k
  show "\<exists>m. RegisterProvider r n e False = Inl m" if "ar_builtin r n"
    using that by (auto simp: ar_builtin_def RegisterProvider_def Let_def split: option.splits)
  show "\<exists>r'. RegisterProvider r n e ov = Inr r'" if "\<not> ar_builtin r n \<or> ov"
    using that by (auto simp: ar_builtin_def RegisterProvider_def Let_def split: option.splits)
  show "GetProvider r n \<noteq> None" if "ar_builtin r n"
    using that by (auto simp: ar_builtin_def GetProvider_def split: option.splits)
  show "GetProvider (DeregisterProvider r n) k = GetProvider r k" if "k \<noteq> n"
    using that by (auto simp: GetProvider_def DeregisterProvider_def split: option.splits)
  show "GetProvider (DeregisterProvider r n) n = None" if "\<not> ar_builtin r n"
    using that by (auto simp: GetProvider_def DeregisterProvider_def ar_builtin_def split: option.splits)
  show "ar_builtin (DeregisterProvider r n) = ar_builtin r"
    by (auto simp: DeregisterProvider_def ar_builtin_def fun_eq_iff split: option.splits)
  show "DeregisterProvider r n = r" if "ar_builtin r n"
    using that by (auto simp: DeregisterProvider_def ar_builtin_def split: option.splits)
  assume reg: "RegisterProvider r n e ov = Inr r'"
  show "GetProvider r' = (GetProvider r)(n \<mapsto> e)"
    using reg by (auto simp: GetProvider_def RegisterProvider_def Let_def split: if_splits)
  show "ar_builtin r' = ar_builtin r"
    using reg by (auto simp: ar_builtin_def RegisterProvider_def Let_def fun_eq_iff
        split: if_splits option.splits)
qed auto

lemma NewAuthRegistry_wf [simp]:
  "ar_builtin (NewAuthRegistry name def) name"
  "GetProvider (NewAuthRegistry name def) name = Some def"
  by (simp_all add: NewAuthRegistry_def ar_builtin_def GetProvider_def)

lemma run_defaultName:
  "ar_defaultName (run_ops RegisterProvider DeregisterProvider r xs) = ar_defaultName r"
proof (induction xs arbitrary: r)
  case (Cons x xs)
  have "ar_defaultName (apply_op RegisterProvider DeregisterProvider r x) = ar_defaultName r"
    by (cases x) (auto simp: RegisterProvider_def DeregisterProvider_def Let_def
        split: option.splits sum.splits)
  with Cons show ?case by simp
qed simp

text \<open>The email/password provider is the break-glass login: whatever plugins register, revert or
  crash (no call overriding), \<^verbatim>\<open>Default()\<close> still returns the provider given at construction.\<close>

theorem default_provider_stable:
  assumes "list_all plugin_op xs"
  shows "Default (run_ops RegisterProvider DeregisterProvider (NewAuthRegistry name def) xs) = Some def"
  using auth_reg.run_plugin_ops_kept [OF TrueI NewAuthRegistry_wf(1) assms]
  by (simp add: Default_def run_defaultName) (simp add: NewAuthRegistry_def GetProvider_def)

theorem default_provider_stable_witness:
  "Default (run_ops RegisterProvider DeregisterProvider (NewAuthRegistry ''email'' (1::nat))
      [RegOp ''email'' 2 False, RegOp ''oidc'' 3 False, DeregOp ''email'', DeregOp ''oidc'']) = Some 1"
  using default_provider_stable [of "[RegOp ''email'' (2::nat) False, RegOp ''oidc'' 3 False,
      DeregOp ''email'', DeregOp ''oidc'']" "''email''" 1]
  by simp

end
