(* ===== verification/Database.thy ===== *)
theory Database
  imports Prelude
begin

text \<open>
  The relational store: the tables of \<^verbatim>\<open>internal/db/migrations\<close> as lists of records
  (\<^verbatim>\<open>internal/db/gen/models.go\<close>), and the queries of \<^verbatim>\<open>internal/db/queries\<close> as sqlc generated them under
  \<^verbatim>\<open>internal/db/gen\<close>.

  A table is the list of its rows in insertion order. A \<^verbatim>\<open>SELECT ... :one\<close> is \<open>List.find\<close>, with \<open>None\<close>
  for \<^verbatim>\<open>pgx.ErrNoRows\<close>; \<^verbatim>\<open>ORDER BY\<close> is a stable sort of the rows. A write returns the new database, or
  the SQLSTATE of the constraint it violates: \<open>UniqueViolation\<close> is 23505 with the constraint's name,
  \<open>ForeignKeyViolation\<close> is 23503. Nullable columns are options, 32-bit and 64-bit integer columns are
  \<open>int\<close>, \<^verbatim>\<open>jsonb\<close> columns keep their text. The columns of type \<^verbatim>\<open>citext\<close> compare after case folding; the
  folding is Postgres's and is the parameter \<open>cf\<close> of the operations that compare them. \<^verbatim>\<open>now()\<close> is a
  parameter too.
\<close>

subsection \<open>Rows\<close>

record User =
  u_ID :: uuid
  u_Username :: string
  u_Email :: string
  u_PasswordHash :: string
  u_Role :: string
  u_Banned :: bool
  u_Hidden :: bool
  u_CreatedAt :: time
  u_UpdatedAt :: time

record Team =
  t_ID :: uuid
  t_Name :: string
  t_InviteCode :: string
  t_CaptainID :: uuid
  t_Banned :: bool
  t_Hidden :: bool
  t_CreatedAt :: time
  t_UpdatedAt :: time

record TeamMember =
  m_TeamID :: uuid
  m_UserID :: uuid
  m_JoinedAt :: time

record Event =
  e_ID :: uuid
  e_Name :: string
  e_Description :: string
  e_StartsAt :: time
  e_EndsAt :: time
  e_FreezeAt :: "time option"
  e_CreatedAt :: time
  e_UpdatedAt :: time

record Challenge =
  c_ID :: uuid
  c_Slug :: string
  c_Title :: string
  c_Category :: string
  c_Description :: string
  c_Difficulty :: "string option"
  c_Kind :: string
  c_Flag :: string
  c_FlagCaseInsensitive :: bool
  c_Scoring :: string
  c_PointsInitial :: int
  c_PointsMin :: "int option"
  c_Decay :: "int option"
  c_MaxAttempts :: "int option"
  c_Visible :: bool
  c_Image :: "string option"
  c_InternalPort :: "int option"
  c_MemLimitMb :: int
  c_CpuMillis :: int
  c_ContainerEnv :: string
  c_ConnectionTemplate :: "string option"
  c_CreatedAt :: time
  c_UpdatedAt :: time
  c_Instancing :: string
  c_FlagMode :: string
  c_InstanceTtlSeconds :: "int option"
  c_Egress :: bool
  c_WritablePaths :: string
  c_Type :: string
  c_TypeConfig :: string

record Submission =
  s_ID :: uuid
  s_ChallengeID :: uuid
  s_TeamID :: uuid
  s_UserID :: uuid
  s_Provided :: string
  s_Correct :: bool
  s_Ip :: "string option"
  s_CreatedAt :: time
  s_ScoredValue :: "int option"
  s_ScoredBy :: "string option"

record Instance =
  i_ID :: uuid
  i_ChallengeID :: uuid
  i_State :: string
  i_ContainerID :: "string option"
  i_HostPort :: "int option"
  i_Error :: "string option"
  i_StartedAt :: "time option"
  i_LastHealthAt :: "time option"
  i_CreatedAt :: time
  i_UpdatedAt :: time
  i_TeamID :: "uuid option"
  i_Flag :: "string option"
  i_ExpiresAt :: "time option"
  i_Network :: "string option"

record db =
  users :: "User list"
  teams :: "Team list"
  team_members :: "TeamMember list"
  events :: "Event list"
  challenges :: "Challenge list"
  submissions :: "Submission list"
  instances :: "Instance list"

definition empty_db :: db where
  "empty_db = \<lparr>users = [], teams = [], team_members = [], events = [], challenges = [],
     submissions = [], instances = []\<rparr>"

datatype sql_error = UniqueViolation string | ForeignKeyViolation string | CheckViolation string

subsection \<open>Transactions\<close>

text \<open>\<^verbatim>\<open>db.WithTx\<close>: a body that returns an error is rolled back, so the database is as before (an error of the
  rollback itself is joined to the body's error, which is still found in it). A failing commit is
  ambiguous: \<open>landed\<close> says whether the server had applied it.\<close>

definition WithTx ::
  "bool \<Rightarrow> bool \<Rightarrow> bool \<Rightarrow> (db \<Rightarrow> (db \<times> 'a) result) \<Rightarrow> db \<Rightarrow> db \<times> 'a result" where
  "WithTx begin_fails commit_fails landed fn d =
     (if begin_fails then (d, Inl (Internal ''db: begin tx''))
      else case fn d of
             Inl e \<Rightarrow> (d, Inl e)
           | Inr (d', x) \<Rightarrow>
               if commit_fails then (if landed then d' else d, Inl (Internal ''db: commit tx''))
               else (d', Inr x))"

subsection \<open>Events\<close>

definition GetEvent :: "db \<Rightarrow> Event option" where
  "GetEvent d = (case sort_key e_CreatedAt (events d) of [] \<Rightarrow> None | e # _ \<Rightarrow> Some e)"

definition CountEvents :: "db \<Rightarrow> int" where
  "CountEvents d = int (length (events d))"

definition chk_events_window :: "Event \<Rightarrow> bool" where
  "chk_events_window e \<longleftrightarrow> e_StartsAt e < e_EndsAt e"

definition chk_events_freeze :: "Event \<Rightarrow> bool" where
  "chk_events_freeze e \<longleftrightarrow>
     (case e_FreezeAt e of None \<Rightarrow> True | Some f \<Rightarrow> f > e_StartsAt e \<and> f \<le> e_EndsAt e)"

definition CreateEvent ::
  "db \<Rightarrow> time \<Rightarrow> uuid \<Rightarrow> string \<Rightarrow> string \<Rightarrow> time \<Rightarrow> time \<Rightarrow> time option \<Rightarrow> sql_error + db \<times> Event" where
  "CreateEvent d now i name description starts ends freeze =
     (let e = \<lparr>e_ID = i, e_Name = name, e_Description = description, e_StartsAt = starts,
               e_EndsAt = ends, e_FreezeAt = freeze, e_CreatedAt = now, e_UpdatedAt = now\<rparr>
      in if \<not> chk_events_window e then Inl (CheckViolation ''chk_events_window'')
         else if \<not> chk_events_freeze e then Inl (CheckViolation ''chk_events_freeze'')
         else if list_ex (\<lambda>x. e_ID x = i) (events d) then Inl (UniqueViolation ''events_pkey'')
         else Inr (d\<lparr>events := events d @ [e]\<rparr>, e))"

text \<open>\<^verbatim>\<open>coalesce(narg, column)\<close>.\<close>

definition coalesce :: "'a option \<Rightarrow> 'a \<Rightarrow> 'a" where
  "coalesce narg column = (case narg of Some v \<Rightarrow> v | None \<Rightarrow> column)"

text \<open>\<open>None\<close> in the result is \<^verbatim>\<open>pgx.ErrNoRows\<close>: no row has the id.\<close>

definition UpdateEvent ::
  "db \<Rightarrow> time \<Rightarrow> uuid \<Rightarrow> string option \<Rightarrow> string option \<Rightarrow> time option \<Rightarrow> time option \<Rightarrow> bool \<Rightarrow>
   time option \<Rightarrow> sql_error + db \<times> Event option" where
  "UpdateEvent d now i name description starts ends set_freeze freeze =
     (let f = (\<lambda>e. e\<lparr>e_Name := coalesce name (e_Name e),
                     e_Description := coalesce description (e_Description e),
                     e_StartsAt := coalesce starts (e_StartsAt e),
                     e_EndsAt := coalesce ends (e_EndsAt e),
                     e_FreezeAt := (if set_freeze then freeze else e_FreezeAt e),
                     e_UpdatedAt := now\<rparr>);
          hit = filter (\<lambda>e. e_ID e = i) (events d)
      in if \<not> list_all (\<lambda>e. chk_events_window (f e)) hit then Inl (CheckViolation ''chk_events_window'')
         else if \<not> list_all (\<lambda>e. chk_events_freeze (f e)) hit
           then Inl (CheckViolation ''chk_events_freeze'')
         else Inr (d\<lparr>events := map (\<lambda>e. if e_ID e = i then f e else e) (events d)\<rparr>,
                   map_option f (List.find (\<lambda>e. e_ID e = i) (events d))))"

subsection \<open>Challenges\<close>

definition GetChallengeByID :: "db \<Rightarrow> uuid \<Rightarrow> Challenge option" where
  "GetChallengeByID d i = List.find (\<lambda>c. c_ID c = i) (challenges d)"

definition GetChallengeBySlug :: "db \<Rightarrow> string \<Rightarrow> Challenge option" where
  "GetChallengeBySlug d slug = List.find (\<lambda>c. c_Slug c = slug) (challenges d)"

definition GetChallengeForUpdate :: "db \<Rightarrow> uuid \<Rightarrow> Challenge option" where
  "GetChallengeForUpdate d i = List.find (\<lambda>c. c_ID c = i) (challenges d)"

subsection \<open>Submissions\<close>

definition HasTeamSolved :: "db \<Rightarrow> uuid \<Rightarrow> uuid \<Rightarrow> bool" where
  "HasTeamSolved d cid tid \<longleftrightarrow>
     list_ex (\<lambda>s. s_ChallengeID s = cid \<and> s_TeamID s = tid \<and> s_Correct s) (submissions d)"

definition CountTeamAttempts :: "db \<Rightarrow> uuid \<Rightarrow> uuid \<Rightarrow> int" where
  "CountTeamAttempts d cid tid =
     int (length (filter (\<lambda>s. s_ChallengeID s = cid \<and> s_TeamID s = tid) (submissions d)))"

definition CountChallengeSolves :: "db \<Rightarrow> uuid \<Rightarrow> int" where
  "CountChallengeSolves d cid =
     int (length (filter (\<lambda>s. s_ChallengeID s = cid \<and> s_Correct s) (submissions d)))"

definition CountTeamSubmissions :: "db \<Rightarrow> uuid \<Rightarrow> int" where
  "CountTeamSubmissions d tid = int (length (filter (\<lambda>s. s_TeamID s = tid) (submissions d)))"

text \<open>The insert of a submission: the primary key, the partial unique index
  \<^verbatim>\<open>uq_submissions_solve (challenge_id, team_id) WHERE correct\<close>, and the three foreign keys.\<close>

definition CreateSubmission ::
  "db \<Rightarrow> time \<Rightarrow> uuid \<Rightarrow> uuid \<Rightarrow> uuid \<Rightarrow> uuid \<Rightarrow> string \<Rightarrow> bool \<Rightarrow> string option \<Rightarrow> sql_error + db" where
  "CreateSubmission d now i cid tid uid provided correct ip =
     (if list_ex (\<lambda>s. s_ID s = i) (submissions d) then Inl (UniqueViolation ''submissions_pkey'')
      else if correct \<and> HasTeamSolved d cid tid then Inl (UniqueViolation ''uq_submissions_solve'')
      else if \<not> list_ex (\<lambda>c. c_ID c = cid) (challenges d)
        then Inl (ForeignKeyViolation ''submissions_challenge_id_fkey'')
      else if \<not> list_ex (\<lambda>t. t_ID t = tid) (teams d)
        then Inl (ForeignKeyViolation ''submissions_team_id_fkey'')
      else if \<not> list_ex (\<lambda>u. u_ID u = uid) (users d)
        then Inl (ForeignKeyViolation ''submissions_user_id_fkey'')
      else Inr (d\<lparr>submissions := submissions d @
        [\<lparr>s_ID = i, s_ChallengeID = cid, s_TeamID = tid, s_UserID = uid, s_Provided = provided,
          s_Correct = correct, s_Ip = ip, s_CreatedAt = now, s_ScoredValue = None,
          s_ScoredBy = None\<rparr>]\<rparr>))"

text \<open>\<^verbatim>\<open>RecordScore :execrows\<close>: the new database and the number of rows updated.\<close>

definition RecordScore :: "db \<Rightarrow> uuid \<Rightarrow> string \<Rightarrow> int option \<Rightarrow> db \<times> nat" where
  "RecordScore d i by value =
     (let hit = (\<lambda>s. s_ID s = i \<and> s_Correct s \<and> s_ScoredValue s = None)
      in (d\<lparr>submissions := map (\<lambda>s. if hit s then s\<lparr>s_ScoredValue := value, s_ScoredBy := Some by\<rparr>
                                  else s) (submissions d)\<rparr>,
          length (filter hit (submissions d))))"

record ListSolvesNeedingScoreRow =
  ns_ID :: uuid
  ns_ChallengeID :: uuid
  ns_Scoring :: string
  ns_PointsInitial :: int
  ns_PointsMin :: "int option"
  ns_Decay :: "int option"

definition needs_score :: "db \<Rightarrow> Submission \<Rightarrow> bool" where
  "needs_score d s \<longleftrightarrow> s_Correct s \<and> s_ScoredValue s = None \<and>
     (case GetChallengeByID d (s_ChallengeID s) of
        Some c \<Rightarrow> c_Scoring c \<notin> {''static'', ''dynamic''}
      | None \<Rightarrow> False)"

definition needing_row :: "db \<Rightarrow> Submission \<Rightarrow> ListSolvesNeedingScoreRow option" where
  "needing_row d s =
     map_option (\<lambda>c. \<lparr>ns_ID = s_ID s, ns_ChallengeID = s_ChallengeID s, ns_Scoring = c_Scoring c,
       ns_PointsInitial = c_PointsInitial c, ns_PointsMin = c_PointsMin c, ns_Decay = c_Decay c\<rparr>)
       (GetChallengeByID d (s_ChallengeID s))"

definition ListSolvesNeedingScore :: "db \<Rightarrow> nat \<Rightarrow> ListSolvesNeedingScoreRow list" where
  "ListSolvesNeedingScore d limit =
     List.map_filter (needing_row d)
       (take limit (sort_key s_CreatedAt (filter (needs_score d) (submissions d))))"

text \<open>The pair (missing, pending).\<close>

definition CountUnscoredPluginSolves :: "db \<Rightarrow> int \<times> int" where
  "CountUnscoredPluginSolves d =
     (let rows = filter (needs_score d) (submissions d)
      in (int (length (filter (\<lambda>s. s_ScoredBy s = None) rows)),
          int (length (filter (\<lambda>s. s_ScoredBy s = Some ''pending'') rows))))"

subsection \<open>The scoreboard's queries\<close>

record ListScoreboardTeamsRow =
  st_ID :: uuid
  st_Name :: string
  st_Banned :: bool

definition ListScoreboardTeams :: "db \<Rightarrow> ListScoreboardTeamsRow list" where
  "ListScoreboardTeams d =
     map (\<lambda>t. \<lparr>st_ID = t_ID t, st_Name = t_Name t, st_Banned = t_Banned t\<rparr>)
       (sort_key t_CreatedAt (filter (\<lambda>t. \<not> t_Hidden t) (teams d)))"

record ListValidSolvesRow =
  vs_TeamID :: uuid
  vs_ChallengeID :: uuid
  vs_SolvedAt :: time
  vs_TeamName :: string
  vs_TeamBanned :: bool
  vs_Scoring :: string
  vs_PointsInitial :: int
  vs_PointsMin :: "int option"
  vs_Decay :: "int option"
  vs_ScoredValue :: "int option"

text \<open>The \<^verbatim>\<open>EXISTS\<close> of both queries: the team has a member who is not hidden.\<close>

definition has_visible_member :: "db \<Rightarrow> uuid \<Rightarrow> bool" where
  "has_visible_member d tid \<longleftrightarrow>
     list_ex (\<lambda>m. m_TeamID m = tid \<and>
       list_ex (\<lambda>u. u_ID u = m_UserID m \<and> \<not> u_Hidden u) (users d)) (team_members d)"

definition valid_solve_row :: "db \<Rightarrow> Submission \<Rightarrow> ListValidSolvesRow option" where
  "valid_solve_row d s =
     (case (List.find (\<lambda>t. t_ID t = s_TeamID s) (teams d),
            List.find (\<lambda>c. c_ID c = s_ChallengeID s) (challenges d)) of
        (Some t, Some c) \<Rightarrow>
          if s_Correct s \<and> c_Visible c \<and> \<not> t_Hidden t \<and> has_visible_member d (t_ID t)
          then Some \<lparr>vs_TeamID = s_TeamID s, vs_ChallengeID = s_ChallengeID s,
                 vs_SolvedAt = s_CreatedAt s, vs_TeamName = t_Name t, vs_TeamBanned = t_Banned t,
                 vs_Scoring = c_Scoring c, vs_PointsInitial = c_PointsInitial c,
                 vs_PointsMin = c_PointsMin c, vs_Decay = c_Decay c,
                 vs_ScoredValue = s_ScoredValue s\<rparr>
          else None
      | _ \<Rightarrow> None)"

definition ListValidSolves :: "db \<Rightarrow> ListValidSolvesRow list" where
  "ListValidSolves d = sort_key vs_SolvedAt (List.map_filter (valid_solve_row d) (submissions d))"

definition CountValidSolves :: "db \<Rightarrow> int" where
  "CountValidSolves d =
     int (length (filter (\<lambda>s. s_Correct s \<and>
        (case (List.find (\<lambda>t. t_ID t = s_TeamID s) (teams d),
               List.find (\<lambda>c. c_ID c = s_ChallengeID s) (challenges d)) of
           (Some t, Some c) \<Rightarrow> c_Visible c \<and> \<not> t_Hidden t \<and> has_visible_member d (t_ID t)
         | _ \<Rightarrow> False)) (submissions d)))"

subsection \<open>Teams\<close>

definition GetTeamByID :: "db \<Rightarrow> uuid \<Rightarrow> Team option" where
  "GetTeamByID d i = List.find (\<lambda>t. t_ID t = i) (teams d)"

definition GetTeamByInviteCode :: "db \<Rightarrow> string \<Rightarrow> Team option" where
  "GetTeamByInviteCode d code = List.find (\<lambda>t. t_InviteCode t = code) (teams d)"

definition LockTeam :: "db \<Rightarrow> uuid \<Rightarrow> Team option" where
  "LockTeam d i = List.find (\<lambda>t. t_ID t = i) (teams d)"

text \<open>\<^verbatim>\<open>char_length\<close> of a UTF-8 text: the bytes that do not continue a character. The check
  \<^verbatim>\<open>chk_teams_name_len\<close> bounds it.\<close>

definition char_length :: "string \<Rightarrow> nat" where
  "char_length s = length (filter (\<lambda>c. \<not> (128 \<le> (of_char c :: nat) \<and> (of_char c :: nat) < 192)) s)"

definition chk_teams_name_len :: "string \<Rightarrow> bool" where
  "chk_teams_name_len name \<longleftrightarrow> 3 \<le> char_length name \<and> char_length name \<le> 48"

definition CreateTeam ::
  "(string \<Rightarrow> string) \<Rightarrow> db \<Rightarrow> time \<Rightarrow> uuid \<Rightarrow> string \<Rightarrow> string \<Rightarrow> uuid \<Rightarrow> sql_error + db \<times> Team" where
  "CreateTeam cf d now i name code captain =
     (if \<not> chk_teams_name_len name then Inl (CheckViolation ''chk_teams_name_len'')
      else if list_ex (\<lambda>t. t_ID t = i) (teams d) then Inl (UniqueViolation ''teams_pkey'')
      else if list_ex (\<lambda>t. cf (t_Name t) = cf name) (teams d)
        then Inl (UniqueViolation ''uq_teams_name'')
      else if list_ex (\<lambda>t. t_InviteCode t = code) (teams d)
        then Inl (UniqueViolation ''uq_teams_invite_code'')
      else if \<not> list_ex (\<lambda>u. u_ID u = captain) (users d)
        then Inl (ForeignKeyViolation ''teams_captain_id_fkey'')
      else let t = \<lparr>t_ID = i, t_Name = name, t_InviteCode = code, t_CaptainID = captain,
                     t_Banned = False, t_Hidden = False, t_CreatedAt = now, t_UpdatedAt = now\<rparr>
           in Inr (d\<lparr>teams := teams d @ [t]\<rparr>, t))"

definition AddTeamMember :: "db \<Rightarrow> time \<Rightarrow> uuid \<Rightarrow> uuid \<Rightarrow> sql_error + db" where
  "AddTeamMember d now tid uid =
     (if list_ex (\<lambda>m. m_TeamID m = tid \<and> m_UserID m = uid) (team_members d)
        then Inl (UniqueViolation ''team_members_pkey'')
      else if list_ex (\<lambda>m. m_UserID m = uid) (team_members d)
        then Inl (UniqueViolation ''uq_team_members_user'')
      else if \<not> list_ex (\<lambda>t. t_ID t = tid) (teams d)
        then Inl (ForeignKeyViolation ''team_members_team_id_fkey'')
      else if \<not> list_ex (\<lambda>u. u_ID u = uid) (users d)
        then Inl (ForeignKeyViolation ''team_members_user_id_fkey'')
      else Inr (d\<lparr>team_members := team_members d @
             [\<lparr>m_TeamID = tid, m_UserID = uid, m_JoinedAt = now\<rparr>]\<rparr>))"

definition RemoveTeamMember :: "db \<Rightarrow> uuid \<Rightarrow> uuid \<Rightarrow> db" where
  "RemoveTeamMember d tid uid =
     d\<lparr>team_members := filter (\<lambda>m. \<not> (m_TeamID m = tid \<and> m_UserID m = uid)) (team_members d)\<rparr>"

definition GetUserTeam :: "db \<Rightarrow> uuid \<Rightarrow> Team option" where
  "GetUserTeam d uid =
     (case List.find (\<lambda>m. m_UserID m = uid \<and> GetTeamByID d (m_TeamID m) \<noteq> None) (team_members d) of
        None \<Rightarrow> None
      | Some m \<Rightarrow> GetTeamByID d (m_TeamID m))"

definition CountTeamMembers :: "db \<Rightarrow> uuid \<Rightarrow> int" where
  "CountTeamMembers d tid = int (length (filter (\<lambda>m. m_TeamID m = tid) (team_members d)))"

text \<open>The member rows joined with their users, earliest joiner first.\<close>

definition ListTeamMembers :: "db \<Rightarrow> uuid \<Rightarrow> TeamMember list" where
  "ListTeamMembers d tid =
     sort_key m_JoinedAt
       (filter (\<lambda>m. m_TeamID m = tid \<and> list_ex (\<lambda>u. u_ID u = m_UserID m) (users d))
         (team_members d))"

definition update_team :: "db \<Rightarrow> uuid \<Rightarrow> (Team \<Rightarrow> Team) \<Rightarrow> db" where
  "update_team d i f = d\<lparr>teams := map (\<lambda>t. if t_ID t = i then f t else t) (teams d)\<rparr>"

definition UpdateTeamCaptain :: "db \<Rightarrow> time \<Rightarrow> uuid \<Rightarrow> uuid \<Rightarrow> db" where
  "UpdateTeamCaptain d now i captain =
     update_team d i (\<lambda>t. t\<lparr>t_CaptainID := captain, t_UpdatedAt := now\<rparr>)"

definition UpdateTeamName ::
  "(string \<Rightarrow> string) \<Rightarrow> db \<Rightarrow> time \<Rightarrow> uuid \<Rightarrow> string \<Rightarrow> sql_error + db \<times> Team option" where
  "UpdateTeamName cf d now i name =
     (if \<not> chk_teams_name_len name \<and> GetTeamByID d i \<noteq> None
        then Inl (CheckViolation ''chk_teams_name_len'')
      else if list_ex (\<lambda>t. t_ID t \<noteq> i \<and> cf (t_Name t) = cf name) (teams d) \<and> GetTeamByID d i \<noteq> None
        then Inl (UniqueViolation ''uq_teams_name'')
      else let d' = update_team d i (\<lambda>t. t\<lparr>t_Name := name, t_UpdatedAt := now\<rparr>)
           in Inr (d', GetTeamByID d' i))"

definition UpdateTeamInviteCode ::
  "db \<Rightarrow> time \<Rightarrow> uuid \<Rightarrow> string \<Rightarrow> sql_error + db \<times> Team option" where
  "UpdateTeamInviteCode d now i code =
     (if list_ex (\<lambda>t. t_ID t \<noteq> i \<and> t_InviteCode t = code) (teams d) \<and> GetTeamByID d i \<noteq> None
        then Inl (UniqueViolation ''uq_teams_invite_code'')
      else let d' = update_team d i (\<lambda>t. t\<lparr>t_InviteCode := code, t_UpdatedAt := now\<rparr>)
           in Inr (d', GetTeamByID d' i))"

definition UpdateTeamAdminFields ::
  "db \<Rightarrow> time \<Rightarrow> uuid \<Rightarrow> bool option \<Rightarrow> bool option \<Rightarrow> db \<times> Team option" where
  "UpdateTeamAdminFields d now i banned hidden =
     (let d' = update_team d i (\<lambda>t. t\<lparr>t_Banned := (case banned of Some b \<Rightarrow> b | None \<Rightarrow> t_Banned t),
                                      t_Hidden := (case hidden of Some h \<Rightarrow> h | None \<Rightarrow> t_Hidden t),
                                      t_UpdatedAt := now\<rparr>)
      in (d', GetTeamByID d' i))"

text \<open>\<^verbatim>\<open>DELETE FROM teams\<close> with the cascades of \<^verbatim>\<open>team_members\<close>, \<^verbatim>\<open>submissions\<close> and \<^verbatim>\<open>instances\<close>.\<close>

definition DeleteTeam :: "db \<Rightarrow> uuid \<Rightarrow> db" where
  "DeleteTeam d i =
     d\<lparr>teams := filter (\<lambda>t. t_ID t \<noteq> i) (teams d),
       team_members := filter (\<lambda>m. m_TeamID m \<noteq> i) (team_members d),
       submissions := filter (\<lambda>s. s_TeamID s \<noteq> i) (submissions d),
       instances := filter (\<lambda>n. i_TeamID n \<noteq> Some i) (instances d)\<rparr>"

text \<open>\<^verbatim>\<open>RepairStrandedCaptains\<close>: one \<^verbatim>\<open>UPDATE\<close> over all teams, against the member table of before.\<close>

definition earliest_member :: "db \<Rightarrow> uuid \<Rightarrow> uuid option" where
  "earliest_member d tid =
     (case sort_key m_JoinedAt (filter (\<lambda>m. m_TeamID m = tid) (team_members d)) of
        [] \<Rightarrow> None
      | m # _ \<Rightarrow> Some (m_UserID m))"

definition is_member :: "db \<Rightarrow> uuid \<Rightarrow> uuid \<Rightarrow> bool" where
  "is_member d tid uid \<longleftrightarrow> list_ex (\<lambda>m. m_TeamID m = tid \<and> m_UserID m = uid) (team_members d)"

definition stranded :: "db \<Rightarrow> Team \<Rightarrow> bool" where
  "stranded d t \<longleftrightarrow> \<not> is_member d (t_ID t) (t_CaptainID t)"

definition RepairStrandedCaptains_sql :: "db \<Rightarrow> time \<Rightarrow> db \<times> (uuid \<times> uuid) list" where
  "RepairStrandedCaptains_sql d now =
     (d\<lparr>teams := map (\<lambda>t. case earliest_member d (t_ID t) of
                            Some u \<Rightarrow> if stranded d t then t\<lparr>t_CaptainID := u, t_UpdatedAt := now\<rparr> else t
                          | None \<Rightarrow> t) (teams d)\<rparr>,
      List.map_filter (\<lambda>t. case earliest_member d (t_ID t) of
                            Some u \<Rightarrow> if stranded d t then Some (t_ID t, u) else None
                          | None \<Rightarrow> None) (teams d))"

subsection \<open>Facts on the queries\<close>

lemma find_Some_iff_ex: "(\<exists>x. List.find P xs = Some x) \<longleftrightarrow> list_ex P xs"
  by (induction xs) auto

lemma find_SomeD: "List.find P xs = Some x \<Longrightarrow> x \<in> set xs \<and> P x"
  by (induction xs) (auto split: if_splits)

lemma find_map_key:
  assumes "\<And>x. k (f x) = k x"
  shows "List.find (\<lambda>x. k x = i) (map f xs) = map_option f (List.find (\<lambda>x. k x = i) xs)"
  by (induction xs) (auto simp: assms)

text \<open>The count query and the list query select the same rows.\<close>

lemma map_filter_length:
  "length (List.map_filter f xs) = length (filter (\<lambda>x. f x \<noteq> None) xs)"
  by (induction xs) (auto simp: List.map_filter_def)

lemma CountValidSolves_eq: "CountValidSolves d = int (length (ListValidSolves d))"
proof -
  have "(s_Correct s \<and>
      (case (List.find (\<lambda>t. t_ID t = s_TeamID s) (teams d),
             List.find (\<lambda>c. c_ID c = s_ChallengeID s) (challenges d)) of
         (Some t, Some c) \<Rightarrow> c_Visible c \<and> \<not> t_Hidden t \<and> has_visible_member d (t_ID t)
       | _ \<Rightarrow> False)) \<longleftrightarrow> valid_solve_row d s \<noteq> None" for s
    by (auto simp: valid_solve_row_def split: option.splits)
  then show ?thesis
    by (simp add: CountValidSolves_def ListValidSolves_def map_filter_length)
qed

lemma has_visible_member_submissions [simp]:
  "has_visible_member (d\<lparr>submissions := ss\<rparr>) = has_visible_member d"
  by (simp add: has_visible_member_def fun_eq_iff)

lemma valid_solve_row_submissions [simp]:
  "valid_solve_row (d\<lparr>submissions := ss\<rparr>) = valid_solve_row d"
  by (simp add: valid_solve_row_def fun_eq_iff split: option.split)

lemma CreateSubmission_Inr:
  "CreateSubmission d now i cid tid uid provided correct ip = Inr d' \<Longrightarrow>
   d' = d\<lparr>submissions := submissions d @
        [\<lparr>s_ID = i, s_ChallengeID = cid, s_TeamID = tid, s_UserID = uid, s_Provided = provided,
          s_Correct = correct, s_Ip = ip, s_CreatedAt = now, s_ScoredValue = None,
          s_ScoredBy = None\<rparr>]\<rparr> \<and>
   \<not> list_ex (\<lambda>s. s_ID s = i) (submissions d) \<and> (correct \<longrightarrow> \<not> HasTeamSolved d cid tid)"
  by (auto simp: CreateSubmission_def split: if_splits)

end
