(* ===== verification/Go_Sort.thy ===== *)
theory Go_Sort
  imports Prelude "HOL-Library.Product_Lexorder"
begin

text \<open>
  \<^verbatim>\<open>sort.SliceStable\<close> of the Go standard library, for a less function that is a strict weak order: the
  stable sorted permutation, computed by insertion. The locale states what a less function owes the
  sort; \<open>key_less\<close> orders by a key in a linear order and always pays it.
\<close>

fun insort_less :: "('a \<Rightarrow> 'a \<Rightarrow> bool) \<Rightarrow> 'a \<Rightarrow> 'a list \<Rightarrow> 'a list" where
  "insort_less lt x [] = [x]"
| "insort_less lt x (y # ys) =
     (if lt y x then y # insort_less lt x ys else x # y # ys)"

fun SliceStable :: "('a \<Rightarrow> 'a \<Rightarrow> bool) \<Rightarrow> 'a list \<Rightarrow> 'a list" where
  "SliceStable lt [] = []"
| "SliceStable lt (x # xs) = insort_less lt x (SliceStable lt xs)"

lemma mset_insort_less [simp]: "mset (insort_less lt x xs) = add_mset x (mset xs)"
  by (induction xs) auto

lemma mset_SliceStable [simp]: "mset (SliceStable lt xs) = mset xs"
  by (induction xs) auto

lemma set_SliceStable [simp]: "set (SliceStable lt xs) = set xs"
  by (metis mset_SliceStable set_mset_mset)

lemma length_SliceStable [simp]: "length (SliceStable lt xs) = length xs"
  by (metis mset_SliceStable size_mset)

locale strict_weak_order =
  fixes lt :: "'a \<Rightarrow> 'a \<Rightarrow> bool"
  assumes less_asym: "lt x y \<Longrightarrow> \<not> lt y x"
    and less_neg_trans: "\<not> lt x y \<Longrightarrow> \<not> lt y z \<Longrightarrow> \<not> lt x z"
begin

lemma sorted_insort_less:
  "sorted_wrt (\<lambda>a b. \<not> lt b a) xs \<Longrightarrow> sorted_wrt (\<lambda>a b. \<not> lt b a) (insort_less lt x xs)"
proof (induction xs)
  case (Cons y ys)
  have "set (insort_less lt x ys) = insert x (set ys)"
    by (metis mset_insort_less set_mset_add_mset_insert set_mset_mset)
  with Cons show ?case using less_neg_trans [of _ y x] by (auto dest: less_asym)
qed simp

lemma sorted_SliceStable: "sorted_wrt (\<lambda>a b. \<not> lt b a) (SliceStable lt xs)"
  by (induction xs) (auto intro: sorted_insort_less)

text \<open>Elements that do not compare keep their order: the sort is stable.\<close>

lemma filter_insort_less:
  "filter (\<lambda>b. \<not> lt a b \<and> \<not> lt b a) (insort_less lt x xs)
   = filter (\<lambda>b. \<not> lt a b \<and> \<not> lt b a) (x # xs)"
proof (induction xs)
  case (Cons y ys)
  show ?case
  proof (cases "lt y x")
    case True
    then have "\<not> (\<not> lt a x \<and> \<not> lt x a \<and> \<not> lt a y \<and> \<not> lt y a)"
      using less_neg_trans by blast
    with True Cons show ?thesis by auto
  qed simp
qed simp

lemma stable_SliceStable:
  "filter (\<lambda>b. \<not> lt a b \<and> \<not> lt b a) (SliceStable lt xs)
   = filter (\<lambda>b. \<not> lt a b \<and> \<not> lt b a) xs"
proof (induction xs)
  case (Cons x xs)
  then show ?case using filter_insort_less [of a x "SliceStable lt xs"] by auto
qed simp

end

definition key_less :: "('a \<Rightarrow> 'k::linorder) \<Rightarrow> 'a \<Rightarrow> 'a \<Rightarrow> bool" where
  "key_less k x y \<longleftrightarrow> k x < k y"

interpretation key_order: strict_weak_order "key_less k"
  for k :: "'a \<Rightarrow> 'k::linorder"
  by unfold_locales (auto simp: key_less_def)

text \<open>With distinct keys the result does not depend on the order of the input.\<close>

lemma SliceStable_key_unique:
  fixes k :: "'a \<Rightarrow> 'k::linorder"
  assumes "mset xs = mset ys" "inj_on k (set xs)"
  shows "SliceStable (key_less k) xs = SliceStable (key_less k) ys"
proof -
  let ?s = "\<lambda>zs. SliceStable (key_less k) zs"
  have "sorted (map k (?s zs))" for zs
    using key_order.sorted_SliceStable [of k zs]
    by (simp add: sorted_map sorted_wrt_iff_nth_less key_less_def not_less)
  moreover have "mset (map k (?s xs)) = mset (map k (?s ys))"
    using assms by simp
  ultimately have "map k (?s xs) = map k (?s ys)"
    by (metis properties_for_sort)
  moreover have "set xs = set ys" using assms(1) mset_eq_setD by blast
  ultimately show ?thesis
    using assms(2) by (auto intro: map_inj_on)
qed

end
