(* ===== verification/Scoreboard_Compute.thy ===== *)
theory Scoreboard_Compute
  imports Scoring Database Go_Sort
begin

text \<open>
  \<^verbatim>\<open>internal/scoreboard/compute.go\<close>: standings recomputed from scratch. The function reads two queries,
  folds the solve rows into per-challenge counts and per-team aggregates, and sorts the teams. The
  two queries are separate statements, so each reads its own state of the database; either may fail.

  The reference definition below the model says what the board should hold, row by row and with no
  maps: \<open>team_points\<close> is the sum over a team's valid solves of what each solve is worth. The theorems
  show that the folds compute it.
\<close>

subsection \<open>The model\<close>

record Entry =
  en_Banned :: bool
  en_LastSolveAt :: "time option"
  en_Name :: string
  en_Points :: int
  en_Rank :: "int option"
  en_Solves :: int
  en_TeamID :: uuid

record Snapshot =
  sn_Frozen :: bool
  sn_GeneratedAt :: time
  sn_Standings :: "Entry list"
  sn_SolveCount :: int

record chalParams =
  cp_mode :: string
  cp_params :: ChallengeScoring

record agg =
  ag_points :: int
  ag_solves :: int
  ag_lastSolve :: time

text \<open>Reading a Go map with the zero value for an absent key.\<close>

definition read0 :: "('k \<rightharpoonup> int) \<Rightarrow> 'k \<Rightarrow> int" where
  "read0 m k = (case m k of Some v \<Rightarrow> v | None \<Rightarrow> 0)"

definition row_params :: "ListValidSolvesRow \<Rightarrow> ChallengeScoring" where
  "row_params r = \<lparr>Initial = vs_PointsInitial r,
     Minimum = (case vs_PointsMin r of Some m \<Rightarrow> m | None \<Rightarrow> 0),
     Decay = (case vs_Decay r of Some m \<Rightarrow> m | None \<Rightarrow> 0)\<rparr>"

definition count_step ::
  "ListValidSolvesRow \<Rightarrow> (uuid \<rightharpoonup> int) \<times> (uuid \<rightharpoonup> chalParams) \<Rightarrow> (uuid \<rightharpoonup> int) \<times> (uuid \<rightharpoonup> chalParams)" where
  "count_step r sc =
     (let (solveCount, chal) = sc;
          cid = vs_ChallengeID r;
          chal' = (case chal cid of
                     Some _ \<Rightarrow> chal
                   | None \<Rightarrow> chal(cid \<mapsto> \<lparr>cp_mode = vs_Scoring r, cp_params = row_params r\<rparr>));
          solveCount' = (if \<not> vs_TeamBanned r then solveCount(cid \<mapsto> read0 solveCount cid + 1)
                         else solveCount)
      in (solveCount', chal'))"

definition value_map ::
  "Registry \<Rightarrow> (uuid \<rightharpoonup> int) \<Rightarrow> (uuid \<rightharpoonup> chalParams) \<Rightarrow> (uuid \<rightharpoonup> int)" where
  "value_map reg solveCount chal = (\<lambda>cid.
     case chal cid of
       Some cp \<Rightarrow> if IsBuiltinMode (cp_mode cp)
                  then Some (Value reg (cp_mode cp) (cp_params cp) (read0 solveCount cid))
                  else None
     | None \<Rightarrow> None)"

definition agg_zero :: agg where
  "agg_zero = \<lparr>ag_points = 0, ag_solves = 0, ag_lastSolve = zero_time\<rparr>"

definition row_points :: "(uuid \<rightharpoonup> int) \<Rightarrow> ListValidSolvesRow \<Rightarrow> int" where
  "row_points val r =
     (if IsBuiltinMode (vs_Scoring r) then read0 val (vs_ChallengeID r)
      else case vs_ScoredValue r of Some v \<Rightarrow> v | None \<Rightarrow> 0)"

definition agg_add :: "(uuid \<rightharpoonup> int) \<Rightarrow> ListValidSolvesRow \<Rightarrow> agg \<Rightarrow> agg" where
  "agg_add val r a =
     \<lparr>ag_points = ag_points a + row_points val r,
      ag_solves = ag_solves a + 1,
      ag_lastSolve = (if ag_lastSolve a < vs_SolvedAt r then vs_SolvedAt r else ag_lastSolve a)\<rparr>"

definition agg_step ::
  "(uuid \<rightharpoonup> int) \<Rightarrow> ListValidSolvesRow \<Rightarrow> (uuid \<rightharpoonup> agg) \<Rightarrow> (uuid \<rightharpoonup> agg)" where
  "agg_step val r byTeam =
     byTeam(vs_TeamID r \<mapsto>
       agg_add val r (case byTeam (vs_TeamID r) of Some a \<Rightarrow> a | None \<Rightarrow> agg_zero))"

definition team_entry :: "(uuid \<rightharpoonup> agg) \<Rightarrow> ListScoreboardTeamsRow \<Rightarrow> Entry" where
  "team_entry byTeam t =
     (let e = \<lparr>en_Banned = st_Banned t, en_LastSolveAt = None, en_Name = st_Name t, en_Points = 0,
               en_Rank = None, en_Solves = 0, en_TeamID = st_ID t\<rparr>
      in case byTeam (st_ID t) of
           None \<Rightarrow> e
         | Some a \<Rightarrow> e\<lparr>en_Points := ag_points a, en_Solves := ag_solves a,
                        en_LastSolveAt := Some (ag_lastSolve a)\<rparr>)"

definition entry_less :: "Entry \<Rightarrow> Entry \<Rightarrow> bool" where
  "entry_less a b =
     (if en_Points a \<noteq> en_Points b then en_Points a > en_Points b
      else case (en_LastSolveAt a, en_LastSolveAt b) of
             (None, Some _) \<Rightarrow> True
           | (Some _, None) \<Rightarrow> False
           | (Some li, Some lj) \<Rightarrow> if li \<noteq> lj then li < lj else en_Name a < en_Name b
           | (None, None) \<Rightarrow> en_Name a < en_Name b)"

definition name_less :: "Entry \<Rightarrow> Entry \<Rightarrow> bool" where
  "name_less a b \<longleftrightarrow> en_Name a < en_Name b"

fun assign_ranks :: "int \<Rightarrow> Entry list \<Rightarrow> Entry list" where
  "assign_ranks i [] = []"
| "assign_ranks i (e # es) = e\<lparr>en_Rank := Some (i + 1)\<rparr> # assign_ranks (i + 1) es"

definition standings ::
  "Registry \<Rightarrow> ListScoreboardTeamsRow list \<Rightarrow> ListValidSolvesRow list \<Rightarrow> Entry list" where
  "standings reg teamRows solveRows =
     (let (solveCount, chal) = fold count_step solveRows (Map.empty, Map.empty);
          val = value_map reg solveCount chal;
          byTeam = fold (agg_step val) solveRows Map.empty;
          active = map (team_entry byTeam) (filter (\<lambda>t. \<not> st_Banned t) teamRows);
          banned = map (team_entry byTeam) (filter st_Banned teamRows)
      in assign_ranks 0 (SliceStable entry_less active) @ SliceStable name_less banned)"

datatype compute_call = ListTeamsCall | ListSolvesCall

definition compute ::
  "(compute_call \<Rightarrow> bool) \<Rightarrow> Registry \<Rightarrow> db \<Rightarrow> db \<Rightarrow> time \<Rightarrow> (Snapshot \<times> int) result" where
  "compute fails reg d d' now =
     (if fails ListTeamsCall then Inl (Internal ''scoreboard: listing teams'')
      else if fails ListSolvesCall then Inl (Internal ''scoreboard: listing solves'')
      else let teamRows = ListScoreboardTeams d; solveRows = ListValidSolves d'
           in Inr (\<lparr>sn_Frozen = False, sn_GeneratedAt = now,
                    sn_Standings = standings reg teamRows solveRows,
                    sn_SolveCount = int (length solveRows)\<rparr>, int (length solveRows)))"

subsection \<open>The reference: what a board holds\<close>

definition solves_of :: "ListValidSolvesRow list \<Rightarrow> uuid \<Rightarrow> int" where
  "solves_of rows cid = int (length (filter (\<lambda>r. vs_ChallengeID r = cid \<and> \<not> vs_TeamBanned r) rows))"

definition solve_worth :: "Registry \<Rightarrow> ListValidSolvesRow list \<Rightarrow> ListValidSolvesRow \<Rightarrow> int" where
  "solve_worth reg rows r =
     (if IsBuiltinMode (vs_Scoring r)
      then Value reg (vs_Scoring r) (row_params r) (solves_of rows (vs_ChallengeID r))
      else case vs_ScoredValue r of Some v \<Rightarrow> v | None \<Rightarrow> 0)"

definition team_rows :: "ListValidSolvesRow list \<Rightarrow> uuid \<Rightarrow> ListValidSolvesRow list" where
  "team_rows rows tid = filter (\<lambda>r. vs_TeamID r = tid) rows"

definition team_points :: "Registry \<Rightarrow> ListValidSolvesRow list \<Rightarrow> uuid \<Rightarrow> int" where
  "team_points reg rows tid = sum_list (map (solve_worth reg rows) (team_rows rows tid))"

definition last_solve :: "ListValidSolvesRow list \<Rightarrow> uuid \<Rightarrow> time option" where
  "last_solve rows tid =
     (if team_rows rows tid = [] then None
      else Some (Max (insert zero_time (set (map vs_SolvedAt (team_rows rows tid))))))"

definition ref_entry ::
  "Registry \<Rightarrow> ListValidSolvesRow list \<Rightarrow> ListScoreboardTeamsRow \<Rightarrow> Entry" where
  "ref_entry reg rows t =
     \<lparr>en_Banned = st_Banned t, en_LastSolveAt = last_solve rows (st_ID t), en_Name = st_Name t,
      en_Points = team_points reg rows (st_ID t), en_Rank = None,
      en_Solves = int (length (team_rows rows (st_ID t))), en_TeamID = st_ID t\<rparr>"

definition unranked :: "Entry \<Rightarrow> Entry" where
  "unranked e = e\<lparr>en_Rank := None\<rparr>"

text \<open>Rows of one challenge carry one set of scoring parameters, as rows of a join do.\<close>

definition rows_consistent :: "ListValidSolvesRow list \<Rightarrow> bool" where
  "rows_consistent rows \<longleftrightarrow>
     (\<forall>r \<in> set rows. \<forall>r' \<in> set rows. vs_ChallengeID r = vs_ChallengeID r' \<longrightarrow>
        vs_Scoring r = vs_Scoring r' \<and> row_params r = row_params r')"

subsection \<open>The folds compute the reference\<close>

lemma read0_upd: "read0 (m(k \<mapsto> v)) k' = (if k' = k then v else read0 m k')"
  by (simp add: read0_def)

lemma fold_count_solves:
  "read0 (fst (fold count_step rows (sc, ch))) cid = read0 sc cid + solves_of rows cid"
  by (induction rows arbitrary: sc ch)
     (auto simp: count_step_def Let_def solves_of_def read0_upd split: prod.split)

lemma fold_count_chal:
  "snd (fold count_step rows (sc, ch)) cid =
     (case ch cid of
        Some cp \<Rightarrow> Some cp
      | None \<Rightarrow> map_option (\<lambda>r. \<lparr>cp_mode = vs_Scoring r, cp_params = row_params r\<rparr>)
                  (List.find (\<lambda>r. vs_ChallengeID r = cid) rows))"
  by (induction rows arbitrary: sc ch)
     (auto simp: count_step_def Let_def split: prod.split option.split)

lemma read0_value_map:
  assumes "rows_consistent rows" "r \<in> set rows" "IsBuiltinMode (vs_Scoring r)"
    and "fold count_step rows (Map.empty, Map.empty) = (sc, ch)"
  shows "read0 (value_map reg sc ch) (vs_ChallengeID r) = solve_worth reg rows r"
proof -
  obtain r' where f: "List.find (\<lambda>x. vs_ChallengeID x = vs_ChallengeID r) rows = Some r'"
    using assms(2) find_Some_iff_ex [of "\<lambda>x. vs_ChallengeID x = vs_ChallengeID r" rows]
    by (auto simp: list_ex_iff)
  then have "r' \<in> set rows" "vs_ChallengeID r' = vs_ChallengeID r" using find_SomeD by fastforce+
  with assms(1,2) have "vs_Scoring r' = vs_Scoring r" "row_params r' = row_params r"
    unfolding rows_consistent_def by blast+
  with f have "ch (vs_ChallengeID r) = Some \<lparr>cp_mode = vs_Scoring r, cp_params = row_params r\<rparr>"
    using fold_count_chal [of rows Map.empty Map.empty "vs_ChallengeID r"] assms(4) by simp
  moreover have "read0 sc (vs_ChallengeID r) = solves_of rows (vs_ChallengeID r)"
    using fold_count_solves [of rows Map.empty Map.empty "vs_ChallengeID r"] assms(4)
    by (simp add: read0_def)
  ultimately show ?thesis
    using assms(3) by (simp add: value_map_def read0_def [of "\<lambda>cid. _ cid"] solve_worth_def)
qed

lemma fold_agg:
  "fold (agg_step val) rows m tid =
     (if team_rows rows tid = [] then m tid
      else Some (fold (agg_add val) (team_rows rows tid)
             (case m tid of Some a \<Rightarrow> a | None \<Rightarrow> agg_zero)))"
  by (induction rows arbitrary: m) (auto simp: agg_step_def team_rows_def)

lemma Max_insert_max:
  "finite S \<Longrightarrow> Max (insert (max a b) S) = Max (insert b (insert (a::int) S))"
  by (cases "S = {}") (simp_all add: max.assoc max.left_commute max.commute)

lemma fold_agg_add:
  "ag_points (fold (agg_add val) rs a) = ag_points a + sum_list (map (row_points val) rs)"
  "ag_solves (fold (agg_add val) rs a) = ag_solves a + int (length rs)"
  "ag_lastSolve (fold (agg_add val) rs a) = Max (insert (ag_lastSolve a) (set (map vs_SolvedAt rs)))"
proof (induction rs arbitrary: a)
  case (Cons r rs)
  { case 3
    have "ag_lastSolve (agg_add val r a) = max (ag_lastSolve a) (vs_SolvedAt r)"
      by (simp add: agg_add_def max_def)
    then show ?case
      using Cons(3) [of "agg_add val r a"] by (simp add: Max_insert_max insert_commute) }
qed (simp_all add: agg_add_def)

lemma team_entry_ref:
  assumes "rows_consistent rows" "fold count_step rows (Map.empty, Map.empty) = (sc, ch)"
  shows "team_entry (fold (agg_step (value_map reg sc ch)) rows Map.empty) t = ref_entry reg rows t"
proof -
  have "row_points (value_map reg sc ch) r = solve_worth reg rows r"
    if "r \<in> set (team_rows rows tid)" for r tid
    using that read0_value_map [OF assms(1) _ _ assms(2), of r]
    by (auto simp: row_points_def solve_worth_def team_rows_def)
  then have "sum_list (map (row_points (value_map reg sc ch)) (team_rows rows tid)) =
      sum_list (map (solve_worth reg rows) (team_rows rows tid))" for tid
    by (metis map_cong)
  then show ?thesis
    by (simp add: team_entry_def ref_entry_def fold_agg fold_agg_add agg_zero_def last_solve_def
        team_points_def)
qed

lemma standings_ref:
  assumes "rows_consistent rows"
  shows "standings reg ts rows =
    assign_ranks 0 (SliceStable entry_less (map (ref_entry reg rows) (filter (\<lambda>t. \<not> st_Banned t) ts)))
    @ SliceStable name_less (map (ref_entry reg rows) (filter st_Banned ts))"
proof -
  obtain sc ch where f: "fold count_step rows (Map.empty, Map.empty) = (sc, ch)" by fastforce
  have "team_entry (fold (agg_step (value_map reg sc ch)) rows Map.empty) = ref_entry reg rows"
    by (rule ext) (rule team_entry_ref [OF assms f])
  then show ?thesis by (simp add: standings_def f Let_def)
qed

lemma ListValidSolves_row:
  assumes "r \<in> set (ListValidSolves d)"
  shows "\<exists>c. List.find (\<lambda>c. c_ID c = vs_ChallengeID r) (challenges d) = Some c \<and>
    vs_Scoring r = c_Scoring c \<and> vs_PointsInitial r = c_PointsInitial c \<and>
    vs_PointsMin r = c_PointsMin c \<and> vs_Decay r = c_Decay c"
  using assms
  by (auto simp: ListValidSolves_def List.map_filter_def valid_solve_row_def
      split: option.splits if_splits)

lemma ListValidSolves_consistent [simp]: "rows_consistent (ListValidSolves d)"
  unfolding rows_consistent_def
proof (intro ballI impI)
  fix r r' assume r: "r \<in> set (ListValidSolves d)" "r' \<in> set (ListValidSolves d)"
    "vs_ChallengeID r = vs_ChallengeID r'"
  from ListValidSolves_row [OF r(1)] ListValidSolves_row [OF r(2)] r(3)
  show "vs_Scoring r = vs_Scoring r' \<and> row_params r = row_params r'"
    by (auto simp: row_params_def)
qed

subsection \<open>The order of the board\<close>

definition entry_key :: "Entry \<Rightarrow> int \<times> bool \<times> int \<times> string" where
  "entry_key e = (- en_Points e, en_LastSolveAt e \<noteq> None,
     (case en_LastSolveAt e of Some t \<Rightarrow> t | None \<Rightarrow> 0), en_Name e)"

lemma entry_less_key: "entry_less = key_less entry_key"
  by (auto simp: fun_eq_iff entry_less_def key_less_def entry_key_def less_prod_def
      split: option.splits)

lemma name_less_key: "name_less = key_less en_Name"
  by (auto simp: fun_eq_iff name_less_def key_less_def)

interpretation entry_order: strict_weak_order entry_less
  unfolding entry_less_key by (rule key_order.strict_weak_order_axioms)

interpretation name_order: strict_weak_order name_less
  unfolding name_less_key by (rule key_order.strict_weak_order_axioms)

lemma length_assign_ranks [simp]: "length (assign_ranks i es) = length es"
  by (induction es arbitrary: i) auto

lemma nth_assign_ranks:
  "j < length es \<Longrightarrow> assign_ranks i es ! j = (es ! j)\<lparr>en_Rank := Some (i + int j + 1)\<rparr>"
  by (induction es arbitrary: i j) (auto simp: nth_Cons split: nat.split)

lemma map_unranked_assign [simp]: "map unranked (assign_ranks i es) = map unranked es"
  by (induction es arbitrary: i) (auto simp: unranked_def)

lemma entry_less_rank [simp]:
  "entry_less (a\<lparr>en_Rank := x\<rparr>) b = entry_less a b" "entry_less a (b\<lparr>en_Rank := x\<rparr>) = entry_less a b"
  by (simp_all add: entry_less_def split: option.split)

lemma unranked_ref_entry [simp]: "unranked (ref_entry reg rows t) = ref_entry reg rows t"
  by (simp add: unranked_def ref_entry_def)

lemma mset_filter_partition: "mset (filter P xs) + mset (filter (\<lambda>x. \<not> P x) xs) = mset xs"
  by (induction xs) auto

lemma mset_unranked_standings:
  assumes "rows_consistent rows"
  shows "mset (map unranked (standings reg ts rows)) = mset (map (ref_entry reg rows) ts)"
proof -
  have "mset (map unranked (standings reg ts rows)) =
      image_mset (ref_entry reg rows) (mset (filter st_Banned ts) + mset (filter (\<lambda>t. \<not> st_Banned t) ts))"
    by (simp only: standings_ref [OF assms] map_append map_unranked_assign mset_append mset_map
        mset_SliceStable image_mset_union multiset.map_comp comp_def unranked_ref_entry add.commute)
  then show ?thesis by (simp only: mset_filter_partition mset_map)
qed

definition served_board :: "Registry \<Rightarrow> db \<Rightarrow> Entry list" where
  "served_board reg d = standings reg (ListScoreboardTeams d) (ListValidSolves d)"


text \<open>C1. The served board is exactly the solve log, re-read: it holds one entry per non-hidden team,
  zero-solve teams included, whose points, solve count and last solve are those of the reference
  definition over the team's valid solves, and nothing else.\<close>

theorem board_matches_log:
  "mset (map unranked (served_board reg d)) =
   mset (map (ref_entry reg (ListValidSolves d)) (ListScoreboardTeams d))"
  by (simp only: served_board_def mset_unranked_standings [OF ListValidSolves_consistent])

text \<open>The shape of the served board: first the non-banned teams, ranked 1, 2, 3, ... without ties
  and sorted by points, then earliest last solve, then name; after them the banned teams, unranked
  and sorted by name.\<close>

theorem board_order:
  "let b = served_board reg d; k = length (filter (\<lambda>t. \<not> st_Banned t) (ListScoreboardTeams d))
   in map en_Rank (take k b) = map (\<lambda>j. Some (int j + 1)) [0..<k] \<and>
      list_all (\<lambda>e. \<not> en_Banned e) (take k b) \<and>
      sorted_wrt (\<lambda>x y. \<not> entry_less y x) (take k b) \<and>
      list_all (\<lambda>e. en_Banned e \<and> en_Rank e = None) (drop k b) \<and>
      sorted_wrt (\<lambda>x y. \<not> name_less y x) (drop k b)"
proof -
  define ts where "ts = ListScoreboardTeams d"
  define rows where "rows = ListValidSolves d"
  define A where "A = SliceStable entry_less (map (ref_entry reg rows) (filter (\<lambda>t. \<not> st_Banned t) ts))"
  define B where "B = SliceStable name_less (map (ref_entry reg rows) (filter st_Banned ts))"
  have b: "served_board reg d = assign_ranks 0 A @ B"
    by (simp add: served_board_def standings_ref A_def B_def ts_def rows_def)
  have k: "length (filter (\<lambda>t. \<not> st_Banned t) ts) = length A" by (simp add: A_def)
  have "map en_Rank (assign_ranks 0 A) = map (\<lambda>j. Some (int j + 1)) [0..<length A]"
    by (rule nth_equalityI) (simp_all add: nth_assign_ranks)
  moreover have "list_all (\<lambda>e. \<not> en_Banned e) (assign_ranks 0 A)"
  proof -
    have "list_all (\<lambda>e. \<not> en_Banned e) A"
      by (auto simp: A_def list_all_iff ref_entry_def)
    then show ?thesis by (simp add: list_all_length nth_assign_ranks)
  qed
  moreover have "sorted_wrt (\<lambda>x y. \<not> entry_less y x) (assign_ranks 0 A)"
    using entry_order.sorted_SliceStable
    by (simp add: sorted_wrt_iff_nth_less nth_assign_ranks A_def)
  moreover have "list_all (\<lambda>e. en_Banned e \<and> en_Rank e = None) B"
    by (auto simp: B_def list_all_iff ref_entry_def)
  moreover have "sorted_wrt (\<lambda>x y. \<not> name_less y x) B"
    unfolding B_def by (rule name_order.sorted_SliceStable)
  ultimately show ?thesis
    by (simp add: b k ts_def [symmetric])
qed

text \<open>The read path never depends on plugins: whatever scoring plugins have been loaded, reverted
  or have crashed since start-up, the board computed from a database is the board computed with the
  built-in engines alone.\<close>

theorem board_plugin_independent:
  assumes "list_all plugin_op xs"
  shows "served_board (run_ops Register Deregister defaultRegistry xs) d = served_board defaultRegistry d"
proof -
  have "solve_worth (run_ops Register Deregister defaultRegistry xs) rows = solve_worth defaultRegistry rows"
    for rows by (auto simp: fun_eq_iff solve_worth_def run_builtin_mode_value [OF assms])
  then have "ref_entry (run_ops Register Deregister defaultRegistry xs) = ref_entry defaultRegistry"
    by (intro ext) (simp add: ref_entry_def team_points_def)
  then show ?thesis by (simp add: served_board_def standings_ref)
qed

theorem board_plugin_independent_witness:
  "served_board (run_ops Register Deregister defaultRegistry
      [RegOp ''first-blood'' StaticEngine False, DeregOp ''first-blood'']) empty_db
   = served_board defaultRegistry empty_db"
  by (rule board_plugin_independent) simp

text \<open>The board does not depend on the order in which the database returns the rows: team names
  being distinct, any two orders of the team rows and of the solve rows give the same standings,
  ranks included.\<close>

theorem board_row_order_irrelevant:
  assumes "mset ts = mset ts'" "mset rows = mset rows'" "rows_consistent rows"
    and "inj_on st_Name (set ts)"
  shows "standings reg ts rows = standings reg ts' rows'"
proof -
  have sets: "set rows = set rows'" using assms(2) mset_eq_setD by blast
  have cons': "rows_consistent rows'" using assms(3) unfolding rows_consistent_def sets .
  have "solves_of rows cid = solves_of rows' cid" for cid
    using filter_mset_eq_list [OF assms(2), THEN mset_eq_length] by (simp only: solves_of_def)
  then have "solves_of rows = solves_of rows'" by (rule ext)
  then have w: "solve_worth reg rows = solve_worth reg rows'" by (auto simp: fun_eq_iff solve_worth_def)
  have "ref_entry reg rows t = ref_entry reg rows' t" for t
  proof -
    let ?r = "team_rows rows (st_ID t)" and ?r' = "team_rows rows' (st_ID t)"
    have m: "mset ?r = mset ?r'"
      unfolding team_rows_def by (rule filter_mset_eq_list [OF assms(2)])
    then have "set ?r = set ?r'" "length ?r = length ?r'" "?r = [] \<longleftrightarrow> ?r' = []"
      by (auto dest: mset_eq_setD mset_eq_length)
    then show ?thesis
      using sum_list_map_filter_mset [OF m, of "solve_worth reg rows'"]
      by (simp add: ref_entry_def team_points_def last_solve_def w)
  qed
  then have "ref_entry reg rows = ref_entry reg rows'" by (rule ext)
  moreover have "SliceStable entry_less (map (ref_entry reg rows) (filter P ts)) =
      SliceStable entry_less (map (ref_entry reg rows) (filter P ts'))"
    "SliceStable name_less (map (ref_entry reg rows) (filter P ts)) =
      SliceStable name_less (map (ref_entry reg rows) (filter P ts'))" for P
    unfolding entry_less_key name_less_key
    using assms(4) filter_mset_eq_list [OF assms(1), of P]
    by (intro SliceStable_key_unique;
        auto simp: inj_on_def entry_key_def ref_entry_def)+
  ultimately show ?thesis
    by (simp add: standings_ref [OF assms(3)] standings_ref [OF cons'])
qed

definition two_teams :: "ListScoreboardTeamsRow list" where
  "two_teams = [\<lparr>st_ID = 1, st_Name = ''red'', st_Banned = False\<rparr>,
                \<lparr>st_ID = 2, st_Name = ''blue'', st_Banned = False\<rparr>]"

definition two_solves :: "ListValidSolvesRow list" where
  "two_solves =
     [\<lparr>vs_TeamID = 1, vs_ChallengeID = 7, vs_SolvedAt = 100, vs_TeamName = ''red'',
       vs_TeamBanned = False, vs_Scoring = ''static'', vs_PointsInitial = 50, vs_PointsMin = None,
       vs_Decay = None, vs_ScoredValue = None\<rparr>,
      \<lparr>vs_TeamID = 2, vs_ChallengeID = 7, vs_SolvedAt = 90, vs_TeamName = ''blue'',
       vs_TeamBanned = False, vs_Scoring = ''static'', vs_PointsInitial = 50, vs_PointsMin = None,
       vs_Decay = None, vs_ScoredValue = None\<rparr>]"

theorem board_row_order_irrelevant_witness:
  "standings defaultRegistry two_teams two_solves =
   standings defaultRegistry (rev two_teams) (rev two_solves)"
  by (rule board_row_order_irrelevant)
     (auto simp: two_teams_def two_solves_def rows_consistent_def row_params_def)

text \<open>Banned teams are shown but do not count: dropping every solve of a banned team from the log
  leaves the ranked part of the board, every team's points included, as it was.\<close>

theorem banned_solves_do_not_count:
  assumes "rows_consistent rows"
    and "\<forall>r \<in> set rows. \<forall>t \<in> set ts. vs_TeamID r = st_ID t \<longrightarrow> vs_TeamBanned r = st_Banned t"
  shows "let k = length (filter (\<lambda>t. \<not> st_Banned t) ts)
         in take k (standings reg ts rows) = take k (standings reg ts (filter (\<lambda>r. \<not> vs_TeamBanned r) rows))"
proof -
  let ?rows' = "filter (\<lambda>r. \<not> vs_TeamBanned r) rows"
  have cons': "rows_consistent ?rows'" using assms(1) by (auto simp: rows_consistent_def)
  have "solves_of ?rows' = solves_of rows"
    by (auto simp: fun_eq_iff solves_of_def intro!: arg_cong [where f = length] filter_cong)
  then have w: "solve_worth reg ?rows' = solve_worth reg rows" by (auto simp: fun_eq_iff solve_worth_def)
  have "ref_entry reg ?rows' t = ref_entry reg rows t" if "t \<in> set ts" "\<not> st_Banned t" for t
  proof -
    have "team_rows ?rows' (st_ID t) = team_rows rows (st_ID t)"
      using assms(2) that by (auto simp: team_rows_def intro!: filter_cong)
    then show ?thesis by (simp add: ref_entry_def team_points_def last_solve_def w)
  qed
  then have "map (ref_entry reg ?rows') (filter (\<lambda>t. \<not> st_Banned t) ts) =
      map (ref_entry reg rows) (filter (\<lambda>t. \<not> st_Banned t) ts)" by auto
  then have "SliceStable entry_less (map (ref_entry reg ?rows') (filter (\<lambda>t. \<not> st_Banned t) ts)) =
      SliceStable entry_less (map (ref_entry reg rows) (filter (\<lambda>t. \<not> st_Banned t) ts))"
    by (rule arg_cong)
  then show ?thesis
    by (simp add: standings_ref [OF assms(1)] standings_ref [OF cons'] Let_def)
qed

theorem banned_solves_do_not_count_witness:
  "take 2 (standings defaultRegistry two_teams two_solves) =
   take 2 (standings defaultRegistry two_teams (filter (\<lambda>r. \<not> vs_TeamBanned r) two_solves))"
proof -
  have "rows_consistent two_solves"
    by (auto simp: two_solves_def rows_consistent_def row_params_def)
  moreover have "\<forall>r \<in> set two_solves. \<forall>t \<in> set two_teams.
      vs_TeamID r = st_ID t \<longrightarrow> vs_TeamBanned r = st_Banned t"
    by (auto simp: two_solves_def two_teams_def)
  ultimately have "let k = length (filter (\<lambda>t. \<not> st_Banned t) two_teams)
    in take k (standings defaultRegistry two_teams two_solves) =
       take k (standings defaultRegistry two_teams (filter (\<lambda>r. \<not> vs_TeamBanned r) two_solves))"
    by (rule banned_solves_do_not_count)
  then show ?thesis by (simp add: two_teams_def numeral_2_eq_2)
qed

end
