(* ===== verification/Events_Service.thy ===== *)
theory Events_Service
  imports Database
begin

text \<open>
  \<^verbatim>\<open>internal/events/service.go\<close>: the single event's window, its phase and freeze against an injected
  clock, the partial update and the first-boot default.

  A service call that makes several statements outside a transaction takes one database state per
  statement; \<open>bool\<close> arguments named \<open>..._fails\<close> say which statement returns a driver error.
\<close>

datatype Phase = PhasePre | PhaseRunning | PhaseEnded

definition events_Get :: "bool \<Rightarrow> db \<Rightarrow> Event result" where
  "events_Get fails d =
     (if fails then Inl (Internal ''events: get'')
      else case GetEvent d of None \<Rightarrow> Inl ErrNotFound | Some e \<Rightarrow> Inr e)"

definition phase :: "time \<Rightarrow> Event \<Rightarrow> Phase" where
  "phase now e =
     (if now < e_StartsAt e then PhasePre
      else if now < e_EndsAt e then PhaseRunning
      else PhaseEnded)"

definition Frozen :: "time \<Rightarrow> Event \<Rightarrow> bool" where
  "Frozen now e = (case e_FreezeAt e of None \<Rightarrow> False | Some f \<Rightarrow> \<not> now < f)"

record UpdateInput =
  ui_Name :: "string option"
  ui_Description :: "string option"
  ui_StartsAt :: "time option"
  ui_EndsAt :: "time option"
  ui_SetFreeze :: bool
  ui_FreezeAt :: "time option"

definition update_validation :: "Event \<Rightarrow> UpdateInput \<Rightarrow> fields" where
  "update_validation cur inp =
     (let starts = coalesce (ui_StartsAt inp) (e_StartsAt cur);
          ends = coalesce (ui_EndsAt inp) (e_EndsAt cur);
          freeze = (if ui_SetFreeze inp then ui_FreezeAt inp else e_FreezeAt cur);
          v = add_if (\<not> starts < ends) ''ends_at'' ''must be after starts_at'' [];
          v = add_if (case freeze of None \<Rightarrow> False | Some f \<Rightarrow> \<not> starts < f \<or> ends < f)
                ''freeze_at'' ''must be within the event window'' v
      in add_if (case ui_Name inp of None \<Rightarrow> False | Some n \<Rightarrow> length n < 1 \<or> 200 < length n)
           ''name'' ''must be between 1 and 200 characters'' v)"

definition Update ::
  "bool \<Rightarrow> bool \<Rightarrow> db \<Rightarrow> db \<Rightarrow> time \<Rightarrow> UpdateInput \<Rightarrow> db \<times> Event result" where
  "Update get_fails update_fails d dw now inp =
     (case events_Get get_fails d of
        Inl e \<Rightarrow> (dw, Inl e)
      | Inr cur \<Rightarrow>
          (case OrNil (update_validation cur inp) of
             Some e \<Rightarrow> (dw, Inl e)
           | None \<Rightarrow>
               if update_fails then (dw, Inl (Internal ''events: update''))
               else case UpdateEvent dw now (e_ID cur) (ui_Name inp) (ui_Description inp)
                           (ui_StartsAt inp) (ui_EndsAt inp) (ui_SetFreeze inp) (ui_FreezeAt inp) of
                      Inr (dw', Some e) \<Rightarrow> (dw', Inr e)
                    | _ \<Rightarrow> (dw, Inl (Internal ''events: update''))))"

definition hour :: duration where
  "hour = 3600 * second"

definition EnsureDefault ::
  "bool \<Rightarrow> bool \<Rightarrow> bool \<Rightarrow> db \<Rightarrow> db \<Rightarrow> time \<Rightarrow> time \<Rightarrow> uuid \<Rightarrow> db \<times> unit result" where
  "EnsureDefault count_fails id_fails create_fails d dw clock_now db_now new_id =
     (if count_fails then (dw, Inl (Internal ''events: counting''))
      else if CountEvents d > 0 then (dw, Inr ())
      else if id_fails then (dw, Inl (Internal ''events: generating id''))
      else if create_fails then (dw, Inl (Internal ''events: creating default''))
      else case CreateEvent dw db_now new_id ''My CTF''
             ''Welcome! An admin can edit this event's name, description, and schedule in the admin panel.''
             (clock_now + 7 * 24 * hour) (clock_now + 9 * 24 * hour) None of
             Inl _ \<Rightarrow> (dw, Inl (Internal ''events: creating default''))
           | Inr (dw', _) \<Rightarrow> (dw', Inr ()))"

subsection \<open>The window invariant\<close>

definition event_ok :: "Event \<Rightarrow> bool" where
  "event_ok e \<longleftrightarrow> chk_events_window e \<and> chk_events_freeze e"

definition events_ok :: "db \<Rightarrow> bool" where
  "events_ok d \<longleftrightarrow> list_all event_ok (events d)"

lemma GetEvent_in: "GetEvent d = Some e \<Longrightarrow> e \<in> set (events d)"
  by (auto simp: GetEvent_def split: list.splits)
     (metis list.set_intros(1) set_sort)

lemma UpdateEvent_events_ok:
  "events_ok d \<Longrightarrow> UpdateEvent d now i n ds s e sf f = Inr (d', r) \<Longrightarrow> events_ok d'"
  by (auto simp: UpdateEvent_def Let_def events_ok_def event_ok_def list_all_iff split: if_splits)

lemma CreateEvent_events_ok:
  "events_ok d \<Longrightarrow> CreateEvent d now i n ds s e f = Inr (d', r) \<Longrightarrow> events_ok d'"
  by (auto simp: CreateEvent_def Let_def events_ok_def event_ok_def split: if_splits)

lemma Update_events_ok: "events_ok dw \<Longrightarrow> events_ok (fst (Update gf uf d dw now inp))"
  by (auto simp: Update_def split: sum.splits option.splits dest: UpdateEvent_events_ok)

lemma EnsureDefault_events_ok: "events_ok dw \<Longrightarrow> events_ok (fst (EnsureDefault cf idf crf d dw cn dn i))"
  by (auto simp: EnsureDefault_def split: sum.splits dest: CreateEvent_events_ok)

lemma Update_err_unchanged: "snd (Update gf uf d dw now inp) = Inl e \<Longrightarrow> fst (Update gf uf d dw now inp) = dw"
  by (auto simp: Update_def OrNil_def HasErrors_def split: sum.splits option.splits if_splits)

text \<open>What an accepted update says of the row: the validated window is the window written, when the
  row did not change between the read and the write.\<close>

lemma update_validation_Nil_iff:
  "update_validation cur inp = [] \<longleftrightarrow>
     event_ok (cur\<lparr>e_StartsAt := coalesce (ui_StartsAt inp) (e_StartsAt cur),
                   e_EndsAt := coalesce (ui_EndsAt inp) (e_EndsAt cur),
                   e_FreezeAt := (if ui_SetFreeze inp then ui_FreezeAt inp else e_FreezeAt cur)\<rparr>) \<and>
     (\<forall>n. ui_Name inp = Some n \<longrightarrow> 1 \<le> length n \<and> length n \<le> 200)"
  by (auto simp: update_validation_def Let_def event_ok_def chk_events_window_def
      chk_events_freeze_def not_less Suc_le_eq split: option.splits)

subsection \<open>Properties\<close>

definition updated_event :: "Event \<Rightarrow> time \<Rightarrow> UpdateInput \<Rightarrow> Event" where
  "updated_event cur now inp =
     cur\<lparr>e_Name := coalesce (ui_Name inp) (e_Name cur),
         e_Description := coalesce (ui_Description inp) (e_Description cur),
         e_StartsAt := coalesce (ui_StartsAt inp) (e_StartsAt cur),
         e_EndsAt := coalesce (ui_EndsAt inp) (e_EndsAt cur),
         e_FreezeAt := (if ui_SetFreeze inp then ui_FreezeAt inp else e_FreezeAt cur),
         e_UpdatedAt := now\<rparr>"

definition name_ok :: "string option \<Rightarrow> bool" where
  "name_ok n \<longleftrightarrow> (case n of None \<Rightarrow> True | Some s \<Rightarrow> 1 \<le> length s \<and> length s \<le> 200)"

lemma UpdateEvent_hit:
  assumes "distinct (map e_ID (events d))" "cur \<in> set (events d)" "event_ok (updated_event cur now inp)"
  shows "UpdateEvent d now (e_ID cur) (ui_Name inp) (ui_Description inp) (ui_StartsAt inp) (ui_EndsAt inp)
      (ui_SetFreeze inp) (ui_FreezeAt inp) =
    Inr (d\<lparr>events := map (\<lambda>e. if e_ID e = e_ID cur then updated_event cur now inp else e) (events d)\<rparr>,
         Some (updated_event cur now inp))"
proof -
  have "e = cur" if "e \<in> set (events d)" "e_ID e = e_ID cur" for e
    using assms(1,2) that by (simp add: distinct_map inj_on_def)
  then have m: "map (\<lambda>e. if e_ID e = e_ID cur then updated_event e now inp else e) (events d)
      = map (\<lambda>e. if e_ID e = e_ID cur then updated_event cur now inp else e) (events d)"
    by (intro map_cong refl if_cong) blast
  show ?thesis
    using assms(3) unfolding UpdateEvent_def Let_def updated_event_def [symmetric] m
    by (simp add: filter_key_singleton [OF assms(1,2)] find_key [OF assms(1,2)] event_ok_def)
qed

text \<open>A partial event update: with no driver error, the row read is the row written and the update is
  accepted exactly when the window it results in is well formed (start before end, the freeze inside) and
  a new name has 1 to 200 bytes; a refused update reports the offending fields and writes nothing.\<close>

theorem update_event_iff:
  assumes "GetEvent d = Some cur" "distinct (map e_ID (events d))"
  shows "Update False False d d now inp =
    (if event_ok (updated_event cur now inp) \<and> name_ok (ui_Name inp)
     then (d\<lparr>events := map (\<lambda>e. if e_ID e = e_ID cur then updated_event cur now inp else e) (events d)\<rparr>,
           Inr (updated_event cur now inp))
     else (d, Inl (Validation (update_validation cur inp))))"
proof -
  have iff: "update_validation cur inp = [] \<longleftrightarrow> event_ok (updated_event cur now inp) \<and> name_ok (ui_Name inp)"
    unfolding update_validation_Nil_iff
    by (auto simp: updated_event_def event_ok_def chk_events_window_def chk_events_freeze_def name_ok_def
        split: option.split)
  show ?thesis
  proof (cases "update_validation cur inp = []")
    case True
    with iff have ok: "event_ok (updated_event cur now inp)" "name_ok (ui_Name inp)" by blast+
    show ?thesis
      using True ok UpdateEvent_hit [OF assms(2) GetEvent_in [OF assms(1)] ok(1)]
      by (simp add: Update_def events_Get_def assms(1) OrNil_def HasErrors_def)
  next
    case False
    with iff have "\<not> (event_ok (updated_event cur now inp) \<and> name_ok (ui_Name inp))" by blast
    then show ?thesis using False by (simp add: Update_def events_Get_def assms(1) OrNil_def HasErrors_def)
  qed
qed

definition sample_event :: Event where
  "sample_event = \<lparr>e_ID = 1, e_Name = ''ctf'', e_Description = [], e_StartsAt = 0, e_EndsAt = 100,
     e_FreezeAt = Some 50, e_CreatedAt = 0, e_UpdatedAt = 0\<rparr>"

theorem update_event_iff_witness:
  "snd (Update False False (empty_db\<lparr>events := [sample_event]\<rparr>) (empty_db\<lparr>events := [sample_event]\<rparr>) 7
     \<lparr>ui_Name = None, ui_Description = None, ui_StartsAt = None, ui_EndsAt = Some 40, ui_SetFreeze = False,
      ui_FreezeAt = None\<rparr>)
   = Inl (Validation [(''freeze_at'', [''must be within the event window''])])"
  by (subst update_event_iff [where cur = sample_event])
     (simp_all add: GetEvent_def empty_db_def sample_event_def updated_event_def event_ok_def
        chk_events_window_def chk_events_freeze_def coalesce_def update_validation_def add_if_def Let_def)

end
