(* ===== verification/Scoreboard_Service.thy ===== *)
theory Scoreboard_Service
  imports Scoreboard_Compute Events_Service
begin

text \<open>
  \<^verbatim>\<open>internal/scoreboard/service.go\<close>: the cached board, its write guard, read repair, the freeze
  snapshot and the behaviour when Redis is away.

  The service's own state is the record \<open>service\<close>: the two Redis keys, the guard \<open>lastCount\<close>, the
  broadcasts sent and the metrics. A Redis value is the snapshot its JSON text encodes. Everything
  outside (Postgres, the clock, which calls fail) is a \<open>world\<close>: for every call the operation makes,
  named by its path in the call tree, what that call observes. Two calls of one operation may thus see
  two states of the database. A Redis command that fails has no effect; a timeout is a failure.
  Concurrent operations are the step relation at the end of the theory.
\<close>

subsection \<open>State and environment\<close>

datatype rkey = keyCurrent | keyFrozen

record service =
  redis :: "rkey \<Rightarrow> Snapshot option"
  lastCount :: int
  has_broadcast :: bool
  broadcasts :: "Snapshot list"
  breakReadRepair :: bool
  ScoreboardStaleReads :: nat
  ScoreboardStaleServed :: nat
  ScoreboardDegradedServed :: nat

definition New :: service where
  "New = \<lparr>redis = (\<lambda>_. None), lastCount = 0, has_broadcast = False, broadcasts = [],
     breakReadRepair = False, ScoreboardStaleReads = 0, ScoreboardStaleServed = 0,
     ScoreboardDegradedServed = 0\<rparr>"

definition SetBroadcaster :: "service \<Rightarrow> service" where
  "SetBroadcaster st = st\<lparr>has_broadcast := True\<rparr>"

datatype call =
    EventsGet | Clock | ListTeams | ListSolves | CountSolves
  | RGet | Unmarshal | Marshal | RSet | RSetNX | RExists | RExists2 | RDel
  | InFrozen | InCompute | InWrite | InServed | InFreeze | InRead nat | InRepair | InDegrade
  | InRecompute nat

record obs =
  ob_fail :: bool
  ob_db :: db
  ob_now :: time
  ob_reg :: Registry

type_synonym world = "call list \<Rightarrow> obs"

definition sub :: "world \<Rightarrow> call \<Rightarrow> world" where
  "sub w c = (\<lambda>p. w (c # p))"

subsection \<open>The operations\<close>

definition run_compute :: "world \<Rightarrow> (Snapshot \<times> int) result" where
  "run_compute w =
     compute (case_compute_call (ob_fail (w [ListTeams])) (ob_fail (w [ListSolves])))
       (ob_reg (w [ListSolves])) (ob_db (w [ListTeams])) (ob_db (w [ListSolves])) (ob_now (w [Clock]))"

definition frozen :: "world \<Rightarrow> bool" where
  "frozen w =
     (case events_Get (ob_fail (w [EventsGet])) (ob_db (w [EventsGet])) of
        Inl _ \<Rightarrow> False
      | Inr e \<Rightarrow> Frozen (ob_now (w [Clock])) e)"

definition svc_write :: "world \<Rightarrow> rkey \<Rightarrow> Snapshot \<Rightarrow> service \<Rightarrow> service \<times> unit result" where
  "svc_write w key snap st =
     (if ob_fail (w [Marshal]) then (st, Inl (Internal ''scoreboard: marshaling snapshot''))
      else if ob_fail (w [RSet]) then (st, Inl (Internal ''scoreboard: writing''))
      else (st\<lparr>redis := (redis st)(key := Some snap)\<rparr>, Inr ()))"

definition svc_writeNX :: "world \<Rightarrow> rkey \<Rightarrow> Snapshot \<Rightarrow> service \<Rightarrow> service \<times> unit result" where
  "svc_writeNX w key snap st =
     (if ob_fail (w [Marshal]) then (st, Inl (Internal ''scoreboard: marshaling snapshot''))
      else if ob_fail (w [RSetNX]) then (st, Inl (Internal ''scoreboard: writing''))
      else (if redis st key = None then st\<lparr>redis := (redis st)(key := Some snap)\<rparr> else st, Inr ()))"

definition svc_read :: "world \<Rightarrow> rkey \<Rightarrow> service \<Rightarrow> Snapshot option result" where
  "svc_read w key st =
     (if ob_fail (w [RGet]) then Inl (Internal ''scoreboard: reading'')
      else case redis st key of
             None \<Rightarrow> Inr None
           | Some snap \<Rightarrow> if ob_fail (w [Unmarshal]) then Inl (Internal ''scoreboard: unmarshaling'')
                          else Inr (Some snap))"

text \<open>The locked part of \<^verbatim>\<open>recompute\<close> and of \<^verbatim>\<open>readRepair\<close>: the guarded write of \<^verbatim>\<open>keyCurrent\<close>. The value
  \<open>True\<close> says the board was written.\<close>

definition publish :: "world \<Rightarrow> bool \<Rightarrow> Snapshot \<Rightarrow> int \<Rightarrow> service \<Rightarrow> service \<times> bool result" where
  "publish w force snap n_rows st =
     (if \<not> force \<and> n_rows < lastCount st then (st, Inr False)
      else case svc_write w keyCurrent snap st of
             (st', Inl e) \<Rightarrow> (st', Inl e)
           | (st', Inr _) \<Rightarrow> (st'\<lparr>lastCount := n_rows\<rparr>, Inr True))"

definition MaybeSnapshotFreeze :: "world \<Rightarrow> service \<Rightarrow> service \<times> unit result" where
  "MaybeSnapshotFreeze w st =
     (if \<not> frozen (sub w InFrozen) then (st, Inr ())
      else if ob_fail (w [RExists]) then (st, Inl (Internal ''scoreboard: checking frozen key''))
      else if redis st keyFrozen \<noteq> None then (st, Inr ())
      else if ob_fail (w [RExists2]) then (st, Inl (Internal ''scoreboard: re-checking frozen key''))
      else if redis st keyFrozen \<noteq> None then (st, Inr ())
      else case run_compute (sub w InCompute) of
             Inl e \<Rightarrow> (st, Inl e)
           | Inr (snap, _) \<Rightarrow> svc_writeNX (sub w InWrite) keyFrozen (snap\<lparr>sn_Frozen := True\<rparr>) st)"

definition degradeToRecompute :: "world \<Rightarrow> bool \<Rightarrow> service \<Rightarrow> service \<times> Snapshot result" where
  "degradeToRecompute w fz st =
     (case run_compute (sub w InCompute) of
        Inl e \<Rightarrow> (st, Inl e)
      | Inr (snap, _) \<Rightarrow>
          (st\<lparr>ScoreboardDegradedServed := ScoreboardDegradedServed st + 1\<rparr>, Inr (snap\<lparr>sn_Frozen := fz\<rparr>)))"

text \<open>The result of \<^verbatim>\<open>readRepair\<close>: the fresh board, or \<open>None\<close> when the cached one is kept.\<close>

definition readRepair :: "world \<Rightarrow> Snapshot \<Rightarrow> service \<Rightarrow> service \<times> Snapshot option" where
  "readRepair w snap st =
     (if ob_fail (w [CountSolves]) then (st, None)
      else if CountValidSolves (ob_db (w [CountSolves])) \<le> sn_SolveCount snap then (st, None)
      else let st1 = st\<lparr>ScoreboardStaleReads := ScoreboardStaleReads st + 1\<rparr>
           in case run_compute (sub w InCompute) of
                Inl _ \<Rightarrow> (st1\<lparr>ScoreboardStaleServed := ScoreboardStaleServed st1 + 1\<rparr>, None)
              | Inr (fresh, n_rows) \<Rightarrow> (fst (publish (sub w InWrite) False fresh n_rows st1), Some fresh))"

text \<open>The part of \<^verbatim>\<open>served\<close> from the read of \<^verbatim>\<open>keyCurrent\<close> on.\<close>

definition served_live :: "world \<Rightarrow> bool \<Rightarrow> bool \<Rightarrow> bool \<Rightarrow> service \<Rightarrow> service \<times> Snapshot result" where
  "served_live w fz isAdmin repair st =
     (case svc_read (sub w (InRead 2)) keyCurrent st of
        Inl e \<Rightarrow> if fz \<and> \<not> isAdmin then (st, Inl e) else degradeToRecompute (sub w InDegrade) fz st
      | Inr None \<Rightarrow>
          (case run_compute (sub w InCompute) of
             Inl e \<Rightarrow> (st, Inl e)
           | Inr (snap, _) \<Rightarrow>
               (case svc_write (sub w InWrite) keyCurrent snap st of
                  (st', Inl e) \<Rightarrow> (st', Inl e)
                | (st', Inr _) \<Rightarrow> (st', Inr (snap\<lparr>sn_Frozen := fz\<rparr>))))
      | Inr (Some snap) \<Rightarrow>
          if repair \<and> \<not> breakReadRepair st
          then case readRepair (sub w InRepair) snap st of
                 (st', Some fresh) \<Rightarrow> (st', Inr (fresh\<lparr>sn_Frozen := fz\<rparr>))
               | (st', None) \<Rightarrow> (st', Inr (snap\<lparr>sn_Frozen := fz\<rparr>))
          else (st, Inr (snap\<lparr>sn_Frozen := fz\<rparr>)))"

definition served :: "world \<Rightarrow> bool \<Rightarrow> bool \<Rightarrow> service \<Rightarrow> service \<times> Snapshot result" where
  "served w isAdmin repair st =
     (let fz = frozen (sub w InFrozen)
      in if fz \<and> \<not> isAdmin
         then case svc_read (sub w (InRead 0)) keyFrozen st of
                Inl e \<Rightarrow> (st, Inl e)
              | Inr (Some snap) \<Rightarrow> (st, Inr (snap\<lparr>sn_Frozen := True\<rparr>))
              | Inr None \<Rightarrow>
                  (case MaybeSnapshotFreeze (sub w InFreeze) st of
                     (st', Inl e) \<Rightarrow> (st', Inl e)
                   | (st', Inr _) \<Rightarrow>
                       (case svc_read (sub w (InRead 1)) keyFrozen st' of
                          Inl e \<Rightarrow> (st', Inl e)
                        | Inr (Some snap) \<Rightarrow> (st', Inr (snap\<lparr>sn_Frozen := True\<rparr>))
                        | Inr None \<Rightarrow> served_live w fz isAdmin repair st'))
         else served_live w fz isAdmin repair st)"

definition Current :: "world \<Rightarrow> bool \<Rightarrow> service \<Rightarrow> service \<times> Snapshot result" where
  "Current w isAdmin st = served w isAdmin True st"

definition recompute :: "world \<Rightarrow> bool \<Rightarrow> bool \<Rightarrow> service \<Rightarrow> service \<times> unit result" where
  "recompute w force broadcast st =
     (case run_compute (sub w InCompute) of
        Inl e \<Rightarrow> (st, Inl e)
      | Inr (snap, n_rows) \<Rightarrow>
          (case publish (sub w InWrite) force (snap\<lparr>sn_Frozen := frozen (sub w InFrozen)\<rparr>) n_rows st of
             (st', Inl e) \<Rightarrow> (st', Inl e)
           | (st', Inr False) \<Rightarrow> (st', Inr ())
           | (st', Inr True) \<Rightarrow>
               if broadcast \<and> has_broadcast st'
               then case served (sub w InServed) False False st' of
                      (st'', Inl e) \<Rightarrow> (st'', Inl e)
                    | (st'', Inr pub) \<Rightarrow> (st''\<lparr>broadcasts := broadcasts st'' @ [pub]\<rparr>, Inr ())
               else (st', Inr ())))"

definition Recompute :: "world \<Rightarrow> service \<Rightarrow> service \<times> unit result" where
  "Recompute w st = recompute w False True st"

definition RecomputeForce :: "world \<Rightarrow> service \<Rightarrow> service \<times> unit result" where
  "RecomputeForce w st =
     (case recompute (sub w (InRecompute 0)) True False st of
        (st', Inl e) \<Rightarrow> (st', Inl e)
      | (st', Inr _) \<Rightarrow> recompute (sub w (InRecompute 1)) False True st')"

definition ReconcileIfBehind :: "world \<Rightarrow> service \<Rightarrow> service \<times> unit result" where
  "ReconcileIfBehind w st =
     (case svc_read (sub w (InRead 0)) keyCurrent st of
        Inl e \<Rightarrow> (st, Inl e)
      | Inr None \<Rightarrow> Recompute (sub w (InRecompute 0)) st
      | Inr (Some snap) \<Rightarrow>
          if ob_fail (w [CountSolves]) then (st, Inl (Internal ''count valid solves''))
          else if sn_SolveCount snap < CountValidSolves (ob_db (w [CountSolves]))
          then Recompute (sub w (InRecompute 0)) st
          else (st, Inr ()))"

definition ClearFreeze :: "world \<Rightarrow> service \<Rightarrow> service \<times> unit result" where
  "ClearFreeze w st =
     (if ob_fail (w [RDel]) then (st, Inl (Internal ''scoreboard: clearing frozen snapshot''))
      else (st\<lparr>redis := (redis st)(keyFrozen := None)\<rparr>, Inr ()))"

end
