(* ===== verification/Scoreboard_Consistency.thy ===== *)
theory Scoreboard_Consistency
  imports Scoreboard_Service
begin

text \<open>
  What the scoreboard service promises: a live read is the board recomputed from the log, a freeze
  is captured once and kept, and concurrent recomputes never move the served board back.

  \<^item> \<open>pg_ok\<close>: the scoreboard's own Postgres statements succeed; Redis commands and the read of the event
    may fail.
  \<^item> \<open>quiet\<close>: the database does not change while the operation runs.
  \<^item> \<open>coherent\<close>: a cached board reflects at most the log, and all of it when the row counts agree.
\<close>

definition board_of :: "Registry \<Rightarrow> db \<Rightarrow> Entry list" where
  "board_of reg d = standings reg (ListScoreboardTeams d) (ListValidSolves d)"

definition pg_call :: "call \<Rightarrow> bool" where
  "pg_call c \<longleftrightarrow> c \<in> {ListTeams, ListSolves, CountSolves}"

definition pg_ok :: "world \<Rightarrow> bool" where
  "pg_ok w \<longleftrightarrow> (\<forall>p c. pg_call c \<longrightarrow> \<not> ob_fail (w (p @ [c])))"

definition quiet :: "Registry \<Rightarrow> db \<Rightarrow> world \<Rightarrow> bool" where
  "quiet reg d w \<longleftrightarrow> (\<forall>p. ob_db (w p) = d \<and> ob_reg (w p) = reg)"

definition coherent :: "Registry \<Rightarrow> db \<Rightarrow> Snapshot \<Rightarrow> bool" where
  "coherent reg d snap \<longleftrightarrow>
     sn_SolveCount snap \<le> CountValidSolves d \<and>
     (sn_SolveCount snap = CountValidSolves d \<longrightarrow> sn_Standings snap = board_of reg d)"

lemma pg_ok_sub [simp]: "pg_ok w \<Longrightarrow> pg_ok (sub w c)"
  unfolding pg_ok_def sub_def by (metis append_Cons)

lemma quiet_sub [simp]: "quiet reg d w \<Longrightarrow> quiet reg d (sub w c)"
  by (simp add: quiet_def sub_def)

lemma pg_ok_call: "pg_ok w \<Longrightarrow> pg_call c \<Longrightarrow> \<not> ob_fail (w [c])"
  unfolding pg_ok_def by (metis append_Nil)

lemma run_compute_ok:
  assumes "pg_ok w" "quiet reg d w"
  shows "\<exists>now. run_compute w =
    Inr (\<lparr>sn_Frozen = False, sn_GeneratedAt = now, sn_Standings = board_of reg d,
          sn_SolveCount = CountValidSolves d\<rparr>, CountValidSolves d)"
  using assms pg_ok_call [OF assms(1), of ListTeams] pg_ok_call [OF assms(1), of ListSolves]
  by (auto simp: run_compute_def compute_def Let_def pg_call_def quiet_def board_of_def CountValidSolves_eq)

subsection \<open>Live reads\<close>

lemma readRepair_live:
  assumes "pg_ok w" "quiet reg d w" "sn_SolveCount snap \<le> CountValidSolves d"
  shows "\<exists>st'. (readRepair w snap st = (st', None) \<and> sn_SolveCount snap = CountValidSolves d \<or>
    (\<exists>fresh. readRepair w snap st = (st', Some fresh) \<and> sn_SolveCount fresh = CountValidSolves d \<and>
      sn_Standings fresh = board_of reg d))"
proof -
  have "\<not> ob_fail (w [CountSolves])" by (rule pg_ok_call [OF assms(1)]) (simp add: pg_call_def)
  moreover have "ob_db (w [CountSolves]) = d" using assms(2) by (simp add: quiet_def)
  moreover obtain now where "run_compute (sub w InCompute) =
    Inr (\<lparr>sn_Frozen = False, sn_GeneratedAt = now, sn_Standings = board_of reg d,
          sn_SolveCount = CountValidSolves d\<rparr>, CountValidSolves d)"
    using run_compute_ok [of "sub w InCompute" reg d] assms by auto
  ultimately show ?thesis
    using assms(3) by (auto simp: readRepair_def Let_def)
qed

text \<open>A live read answers with the cached board only if no solve is missing from it, and with a board
  computed in the read otherwise.\<close>

lemma served_live_choice:
  assumes "pg_ok w" "quiet reg d w" "\<not> (fz \<and> \<not> isAdmin)" "\<not> breakReadRepair st"
    and "redis st keyCurrent = Some cached" "sn_SolveCount cached \<le> CountValidSolves d"
  shows "\<exists>st' snap. served_live w fz isAdmin True st = (st', Inr snap) \<and>
    sn_SolveCount snap = CountValidSolves d \<and> sn_Frozen snap = fz \<and>
    (sn_Standings snap = board_of reg d \<or>
     sn_SolveCount cached = CountValidSolves d \<and> sn_Standings snap = sn_Standings cached)"
proof (cases "svc_read (sub w (InRead 2)) keyCurrent st")
  case (Inl e)
  obtain now where "run_compute (sub (sub w InDegrade) InCompute) =
    Inr (\<lparr>sn_Frozen = False, sn_GeneratedAt = now, sn_Standings = board_of reg d,
          sn_SolveCount = CountValidSolves d\<rparr>, CountValidSolves d)"
    using run_compute_ok [of "sub (sub w InDegrade) InCompute" reg d] assms by auto
  then show ?thesis using Inl assms(3) by (auto simp: served_live_def degradeToRecompute_def)
next
  case (Inr r)
  then have "r = Some cached" using assms(5) by (auto simp: svc_read_def split: if_splits)
  then show ?thesis
    using Inr assms(4) readRepair_live [OF _ _ assms(6), of "sub w InRepair" reg st] assms(1,2)
    by (auto simp: served_live_def)
qed

lemma served_live_ok:
  assumes "pg_ok w" "quiet reg d w" "\<not> (fz \<and> \<not> isAdmin)" "\<not> breakReadRepair st"
    and "redis st keyCurrent = Some cached" "coherent reg d cached"
  shows "\<exists>st' snap. served_live w fz isAdmin True st = (st', Inr snap) \<and>
    sn_Standings snap = board_of reg d \<and> sn_SolveCount snap = CountValidSolves d \<and> sn_Frozen snap = fz"
  using served_live_choice [OF assms(1-5)] assms(6) by (auto simp: coherent_def)

text \<open>A live read is a recompute: when the cached board is coherent with the log and Postgres
  answers, an admin read, or any read outside a freeze, returns exactly the standings computed from the
  current log, whether the cache is up to date, behind (it is repaired first) or unreachable (the
  board is computed instead).\<close>

theorem live_read_is_recompute:
  assumes "pg_ok w" "quiet reg d w" "isAdmin \<or> \<not> frozen (sub w InFrozen)" "\<not> breakReadRepair st"
    and "redis st keyCurrent = Some cached" "coherent reg d cached"
  shows "\<exists>st' snap. Current w isAdmin st = (st', Inr snap) \<and>
    sn_Standings snap = board_of reg d \<and> sn_SolveCount snap = CountValidSolves d \<and>
    sn_Frozen snap = frozen (sub w InFrozen)"
  using served_live_ok [OF assms(1,2) _ assms(4,5,6), of "frozen (sub w InFrozen)" isAdmin] assms(3)
  by (auto simp: Current_def served_def Let_def)

definition still_world :: "Registry \<Rightarrow> db \<Rightarrow> time \<Rightarrow> world" where
  "still_world reg d now = (\<lambda>p. \<lparr>ob_fail = False, ob_db = d, ob_now = now, ob_reg = reg\<rparr>)"

lemma still_world_ok [simp]:
  "pg_ok (still_world reg d now)" "quiet reg d (still_world reg d now)"
  "\<not> ob_fail (still_world reg d now p)"
  by (simp_all add: pg_ok_def quiet_def still_world_def)

lemma sub_still_world [simp]: "sub (still_world reg d now) c = still_world reg d now"
  by (simp add: sub_def still_world_def)

definition empty_board :: Snapshot where
  "empty_board = \<lparr>sn_Frozen = False, sn_GeneratedAt = 0, sn_Standings = [], sn_SolveCount = 0\<rparr>"

lemma board_of_empty [simp]: "board_of reg empty_db = []"
  by (simp add: board_of_def standings_def ListScoreboardTeams_def empty_db_def)

lemma CountValidSolves_empty [simp]: "CountValidSolves empty_db = 0"
  by (simp add: CountValidSolves_def empty_db_def)

lemma frozen_empty [simp]: "frozen (still_world reg empty_db now) = False"
  by (simp add: frozen_def events_Get_def GetEvent_def still_world_def empty_db_def)

theorem live_read_is_recompute_witness:
  "\<exists>st' snap. Current (still_world defaultRegistry empty_db 5) False
      (New\<lparr>redis := (\<lambda>_. Some empty_board)\<rparr>) = (st', Inr snap) \<and>
    sn_Standings snap = board_of defaultRegistry empty_db \<and>
    sn_SolveCount snap = CountValidSolves empty_db \<and>
    sn_Frozen snap = frozen (sub (still_world defaultRegistry empty_db 5) InFrozen)"
  by (rule live_read_is_recompute [where cached = empty_board])
     (simp_all add: New_def coherent_def empty_board_def)

subsection \<open>The freeze\<close>

lemma svc_write_frozen [simp]:
  "redis (fst (svc_write w keyCurrent snap st)) keyFrozen = redis st keyFrozen"
  by (simp add: svc_write_def)

lemma publish_frozen [simp]: "redis (fst (publish w force snap n st)) keyFrozen = redis st keyFrozen"
  using svc_write_frozen [of w snap st]
  by (auto simp: publish_def split: prod.split sum.split simp del: svc_write_frozen)

lemma readRepair_frozen [simp]: "redis (fst (readRepair w snap st)) keyFrozen = redis st keyFrozen"
  by (auto simp: readRepair_def Let_def split: sum.split)

lemma degrade_frozen [simp]: "redis (fst (degradeToRecompute w fz st)) keyFrozen = redis st keyFrozen"
  by (auto simp: degradeToRecompute_def split: sum.split)

lemma served_live_frozen [simp]:
  "redis (fst (served_live w fz adm rep st)) keyFrozen = redis st keyFrozen"
  using svc_write_frozen [of "sub w InWrite" _ st] readRepair_frozen [of "sub w InRepair" _ st]
  by (auto simp: served_live_def split: sum.split prod.split option.split
      simp del: svc_write_frozen readRepair_frozen) (metis fst_conv)+

lemma MaybeSnapshotFreeze_keeps:
  "redis st keyFrozen = Some s \<Longrightarrow> redis (fst (MaybeSnapshotFreeze w st)) keyFrozen = Some s"
  by (auto simp: MaybeSnapshotFreeze_def)

lemma served_keeps:
  assumes "redis st keyFrozen = Some s"
  shows "redis (fst (served w adm rep st)) keyFrozen = Some s"
  using assms MaybeSnapshotFreeze_keeps [OF assms, of "sub w InFreeze"]
  by (auto simp: served_def Let_def split: sum.split prod.split option.split)

lemma recompute_keeps:
  assumes "redis st keyFrozen = Some s"
  shows "redis (fst (recompute w force bc st)) keyFrozen = Some s"
proof (cases "run_compute (sub w InCompute)")
  case Inl
  then show ?thesis using assms by (simp add: recompute_def)
next
  case (Inr r)
  obtain snap n where r: "r = (snap, n)" by (cases r)
  obtain st' x where p: "publish (sub w InWrite) force
      (snap\<lparr>sn_Frozen := frozen (sub w InFrozen)\<rparr>) n st = (st', x)" by fastforce
  have k: "redis st' keyFrozen = Some s"
    using publish_frozen [of "sub w InWrite" force "snap\<lparr>sn_Frozen := frozen (sub w InFrozen)\<rparr>" n st] p assms
    by simp
  show ?thesis
    using Inr r p k served_keeps [OF k, of "sub w InServed" False False]
    by (auto simp: recompute_def split: sum.split prod.split bool.split)
qed

lemma RecomputeForce_keeps:
  assumes "redis st keyFrozen = Some s"
  shows "redis (fst (RecomputeForce w st)) keyFrozen = Some s"
  using recompute_keeps [OF assms, of "sub w (InRecompute 0)" True False]
  by (auto simp: RecomputeForce_def split: prod.split sum.split intro: recompute_keeps)

lemma ReconcileIfBehind_keeps:
  assumes "redis st keyFrozen = Some s"
  shows "redis (fst (ReconcileIfBehind w st)) keyFrozen = Some s"
  using assms recompute_keeps [OF assms]
  by (auto simp: ReconcileIfBehind_def Recompute_def split: sum.split option.split)

text \<open>The operations of the service other than \<^verbatim>\<open>ClearFreeze\<close>, each with the world it runs in.\<close>

datatype svc_op =
    OpCurrent world bool
  | OpRecompute world
  | OpRecomputeForce world
  | OpReconcile world
  | OpSnapshotFreeze world

fun run_op :: "svc_op \<Rightarrow> service \<Rightarrow> service" where
  "run_op (OpCurrent w adm) st = fst (Current w adm st)"
| "run_op (OpRecompute w) st = fst (Recompute w st)"
| "run_op (OpRecomputeForce w) st = fst (RecomputeForce w st)"
| "run_op (OpReconcile w) st = fst (ReconcileIfBehind w st)"
| "run_op (OpSnapshotFreeze w) st = fst (MaybeSnapshotFreeze w st)"

lemma run_op_keeps: "redis st keyFrozen = Some s \<Longrightarrow> redis (run_op op st) keyFrozen = Some s"
  by (cases op)
     (simp_all add: Current_def Recompute_def served_keeps recompute_keeps RecomputeForce_keeps
        ReconcileIfBehind_keeps MaybeSnapshotFreeze_keeps)

lemma run_ops_keep: "redis st keyFrozen = Some s \<Longrightarrow> redis (fold run_op ops st) keyFrozen = Some s"
  by (induction ops arbitrary: st) (simp_all add: run_op_keeps)

lemma MaybeSnapshotFreeze_captures:
  "MaybeSnapshotFreeze w st = (st', Inr ()) \<Longrightarrow> frozen (sub w InFrozen) \<Longrightarrow> redis st' keyFrozen \<noteq> None"
  by (auto simp: MaybeSnapshotFreeze_def svc_writeNX_def split: if_splits sum.splits prod.splits)

text \<open>As long as the event can be read as frozen, a non-admin read returns the board stored under the frozen
  key, captured by this read if need be, or an error, whatever Redis and Postgres calls fail.\<close>

lemma frozen_read_fails_closed:
  assumes "frozen (sub w InFrozen)" "frozen (sub (sub w InFreeze) InFrozen)"
    and "Current w False st = (st', Inr snap)"
  shows "\<exists>kept. redis st' keyFrozen = Some kept \<and> snap = kept\<lparr>sn_Frozen := True\<rparr>"
proof (cases "svc_read (sub w (InRead 0)) keyFrozen st")
  case (Inr r)
  show ?thesis
  proof (cases r)
    case (Some s)
    with Inr assms show ?thesis
      by (auto simp: Current_def served_def svc_read_def split: if_splits option.splits)
  next
    case None
    obtain st1 x where m: "MaybeSnapshotFreeze (sub w InFreeze) st = (st1, x)" by fastforce
    with None Inr assms(1,3) obtain "x = Inr ()"
      by (cases x) (auto simp: Current_def served_def)
    with m have "redis st1 keyFrozen \<noteq> None" using MaybeSnapshotFreeze_captures assms(2) by blast
    with m None Inr assms \<open>x = Inr ()\<close> show ?thesis
      by (auto simp: Current_def served_def svc_read_def split: if_splits option.splits)
  qed
qed (use assms in \<open>simp add: Current_def served_def\<close>)

definition frozen_db :: db where
  "frozen_db = empty_db\<lparr>events := [sample_event]\<rparr>"

definition captured :: service where
  "captured = New\<lparr>redis := (\<lambda>_. Some empty_board)\<rparr>"

lemma frozen_sample: "frozen (still_world reg frozen_db 60)"
  by (simp add: frozen_def events_Get_def GetEvent_def still_world_def frozen_db_def sample_event_def Frozen_def)

lemma Current_captured:
  "Current (still_world reg frozen_db 60) False captured = (captured, Inr (empty_board\<lparr>sn_Frozen := True\<rparr>))"
proof -
  have "svc_read (still_world reg frozen_db 60) keyFrozen captured = Inr (Some empty_board)"
    by (simp add: svc_read_def captured_def still_world_def)
  then show ?thesis by (simp add: Current_def served_def frozen_sample)
qed

text \<open>The frozen board is captured once: whatever operations run after it is stored, with whatever
  failures and database states, every non-admin read that succeeds while the event is frozen returns
  that same board. Only clearing the freeze removes it.\<close>

theorem frozen_board_immutable:
  assumes "redis st keyFrozen = Some kept" "frozen (sub w InFrozen)"
    and "Current w False (fold run_op ops st) = (st', Inr snap)"
  shows "snap = kept\<lparr>sn_Frozen := True\<rparr>"
  using assms run_ops_keep [OF assms(1), of ops]
  by (auto simp: Current_def served_def svc_read_def split: if_splits)

lemma frozen_read_answers:
  "redis st keyFrozen = Some s \<Longrightarrow> \<exists>snap. Current (still_world reg frozen_db 60) False st = (st, Inr snap)"
  by (simp add: Current_def served_def frozen_sample svc_read_def)

theorem frozen_board_immutable_witness:
  "snd (Current (still_world defaultRegistry frozen_db 60) False
     (run_op (OpRecompute (still_world defaultRegistry frozen_db 60)) captured))
   = Inr (empty_board\<lparr>sn_Frozen := True\<rparr>)"
proof -
  let ?w = "still_world defaultRegistry frozen_db 60"
  have k: "redis captured keyFrozen = Some empty_board" by (simp add: captured_def)
  then obtain snap where c: "Current ?w False (run_op (OpRecompute ?w) captured)
      = (run_op (OpRecompute ?w) captured, Inr snap)"
    using frozen_read_answers run_op_keeps by blast
  have "snap = empty_board\<lparr>sn_Frozen := True\<rparr>"
    by (rule frozen_board_immutable [where ops = "[OpRecompute ?w]" and st = captured and w = ?w])
       (use k c frozen_sample in \<open>simp_all\<close>)
  with c show ?thesis by simp
qed

text \<open>Where the freeze fails open: when the event row cannot be read, a non-admin read during
  a freeze is answered with the live board, even though the frozen board is in Redis.\<close>

lemma freeze_fails_open_without_event:
  assumes "ob_fail (w [InFrozen, EventsGet])" "pg_ok w" "quiet reg d w"
    and "redis st keyCurrent = Some cached" "coherent reg d cached" "\<not> breakReadRepair st"
  shows "\<exists>st' snap. Current w False st = (st', Inr snap) \<and> sn_Standings snap = board_of reg d \<and>
    \<not> sn_Frozen snap"
proof -
  have "frozen (sub w InFrozen) = False"
    using assms(1) by (simp add: frozen_def sub_def events_Get_def)
  then show ?thesis
    using served_live_ok [OF assms(2,3) _ assms(6,4,5), of False False]
    by (auto simp: Current_def served_def)
qed

definition deaf_world :: "Registry \<Rightarrow> db \<Rightarrow> time \<Rightarrow> world" where
  "deaf_world reg d now = (\<lambda>p. (still_world reg d now p)\<lparr>ob_fail := (p = [InFrozen, EventsGet])\<rparr>)"

lemma board_of_frozen_db [simp]: "board_of reg frozen_db = []" "CountValidSolves frozen_db = 0"
  by (simp_all add: board_of_def standings_def ListScoreboardTeams_def frozen_db_def empty_db_def
      CountValidSolves_def)

text \<open>The event is frozen, at every time the read looks at the clock and in every state of the database it sees.\<close>

definition freeze_on :: "world \<Rightarrow> bool" where
  "freeze_on w \<longleftrightarrow> (\<forall>p q. \<exists>ev. GetEvent (ob_db (w p)) = Some ev \<and> Frozen (ob_now (w q)) ev)"

lemma freeze_on_sub: "freeze_on w \<Longrightarrow> freeze_on (sub w c)"
  by (simp add: freeze_on_def sub_def)

lemma freeze_on_frozen:
  assumes "freeze_on w" shows "frozen w \<longleftrightarrow> \<not> ob_fail (w [EventsGet])"
proof -
  obtain ev where "GetEvent (ob_db (w [EventsGet])) = Some ev" "Frozen (ob_now (w [Clock])) ev"
    using assms unfolding freeze_on_def by blast
  then show ?thesis by (simp add: frozen_def events_Get_def)
qed

text \<open>C21. What a non-admin read returns during a freeze hangs on the reading of the event. If the event can be read, a
  read that succeeds returns the board stored under the frozen key, captured by this read if need be, never the live one,
  whatever Redis and Postgres calls fail. If the event cannot be read, the freeze is not seen: the answer is not marked as
  frozen, and with the scoreboard's own queries answering it is the live board, though the frozen one is stored.\<close>

theorem frozen_read_needs_event:
  assumes "freeze_on w" "Current w False st = (st', Inr snap)"
  shows "(\<not> ob_fail (w [InFrozen, EventsGet]) \<and> \<not> ob_fail (w [InFreeze, InFrozen, EventsGet]) \<longrightarrow>
      (\<exists>kept. redis st' keyFrozen = Some kept \<and> snap = kept\<lparr>sn_Frozen := True\<rparr>)) \<and>
    (ob_fail (w [InFrozen, EventsGet]) \<longrightarrow>
      (\<forall>reg d cached. pg_ok w \<and> quiet reg d w \<and> redis st keyCurrent = Some cached \<and> coherent reg d cached \<and>
         \<not> breakReadRepair st \<longrightarrow> sn_Standings snap = board_of reg d \<and> \<not> sn_Frozen snap))"
proof (intro conjI impI allI)
  assume "\<not> ob_fail (w [InFrozen, EventsGet]) \<and> \<not> ob_fail (w [InFreeze, InFrozen, EventsGet])"
  then show "\<exists>kept. redis st' keyFrozen = Some kept \<and> snap = kept\<lparr>sn_Frozen := True\<rparr>"
    using frozen_read_fails_closed [OF _ _ assms(2)] assms(1) by (simp add: freeze_on_frozen freeze_on_sub) (simp add: sub_def)
next
  fix reg d cached
  assume "ob_fail (w [InFrozen, EventsGet])" and "pg_ok w \<and> quiet reg d w \<and> redis st keyCurrent = Some cached \<and>
    coherent reg d cached \<and> \<not> breakReadRepair st"
  then show "sn_Standings snap = board_of reg d" "\<not> sn_Frozen snap"
    using freeze_fails_open_without_event [of w reg d st cached] assms(2) by auto
qed

lemma freeze_on_sample: "(\<And>p. ob_db (w p) = frozen_db \<and> ob_now (w p) = 60) \<Longrightarrow> freeze_on w"
  by (auto simp: freeze_on_def GetEvent_def frozen_db_def sample_event_def Frozen_def)

text \<open>The same read of the same store, with the event read and with that one statement failing.\<close>

theorem frozen_read_needs_event_witness:
  "(\<exists>kept. redis captured keyFrozen = Some kept \<and> empty_board\<lparr>sn_Frozen := True\<rparr> = kept\<lparr>sn_Frozen := True\<rparr>) \<and>
   (\<exists>st' snap. Current (deaf_world defaultRegistry frozen_db 60) False captured = (st', Inr snap) \<and>
     sn_Standings snap = board_of defaultRegistry frozen_db \<and> \<not> sn_Frozen snap)"
proof
  show "\<exists>kept. redis captured keyFrozen = Some kept \<and> empty_board\<lparr>sn_Frozen := True\<rparr> = kept\<lparr>sn_Frozen := True\<rparr>"
    using frozen_read_needs_event [OF freeze_on_sample Current_captured [of defaultRegistry]] by (simp add: still_world_def)
  let ?w = "deaf_world defaultRegistry frozen_db 60"
  have ok: "pg_ok ?w" "quiet defaultRegistry frozen_db ?w" "redis captured keyCurrent = Some empty_board"
    "coherent defaultRegistry frozen_db empty_board" "\<not> breakReadRepair captured" "ob_fail (?w [InFrozen, EventsGet])"
    by (auto simp: deaf_world_def pg_ok_def quiet_def still_world_def captured_def New_def coherent_def empty_board_def
        pg_call_def Cons_eq_append_conv)
  obtain st' snap where run: "Current ?w False captured = (st', Inr snap)"
    using freeze_fails_open_without_event [OF ok(6,1-5)] by blast
  have on: "freeze_on ?w" by (rule freeze_on_sample) (simp add: deaf_world_def still_world_def)
  show "\<exists>st' snap. Current ?w False captured = (st', Inr snap) \<and>
      sn_Standings snap = board_of defaultRegistry frozen_db \<and> \<not> sn_Frozen snap"
    using frozen_read_needs_event [OF on run] ok run by blast
qed

subsection \<open>Shrinking the log\<close>

lemma publish_drops: "n < lastCount st \<Longrightarrow> publish w False snap n st = (st, Inr False)"
  by (simp add: publish_def)

text \<open>A cached board whose row count is not behind the log is served as it is.\<close>

lemma cached_board_kept:
  assumes "pg_ok w" "quiet reg d w" "\<not> frozen (sub w InFrozen)" "redis st keyCurrent = Some cached"
    and "CountValidSolves d \<le> sn_SolveCount cached"
    and "\<not> ob_fail (w [InRead 2, RGet])" "\<not> ob_fail (w [InRead 2, Unmarshal])"
    and "\<not> ob_fail (w [InRead 0, RGet])" "\<not> ob_fail (w [InRead 0, Unmarshal])"
  shows "Current w adm st = (st, Inr (cached\<lparr>sn_Frozen := False\<rparr>)) \<and> ReconcileIfBehind w st = (st, Inr ())"
proof -
  have db: "ob_db (w p) = d" for p using assms(2) by (simp add: quiet_def)
  have c: "\<not> ob_fail (w [CountSolves])" "\<not> ob_fail (w [InRepair, CountSolves])"
    using pg_ok_call [OF assms(1), of CountSolves] pg_ok_call [OF pg_ok_sub [OF assms(1)], of CountSolves InRepair]
    by (simp_all add: pg_call_def sub_def)
  have "ReconcileIfBehind w st = (st, Inr ())"
    using assms(4,5,8,9) c db by (simp add: ReconcileIfBehind_def svc_read_def sub_def)
  moreover have "readRepair (sub w InRepair) cached st = (st, None)"
    using assms(5) c db by (simp add: readRepair_def sub_def)
  then have "served_live w False adm True st = (st, Inr (cached\<lparr>sn_Frozen := False\<rparr>))"
    using assms(4,6,7) by (simp add: served_live_def svc_read_def sub_def)
  ultimately show ?thesis using assms(3) by (simp add: Current_def served_def)
qed

text \<open>A log that shrank without a forced recompute stays invisible. When the log holds fewer
  rows than the board in the cache was built from (a team was hidden, or its last visible member),
  the guarded recompute changes nothing, the periodic reconcile changes nothing, and a live read
  returns the cached board as it is.\<close>

theorem shrunk_log_not_served:
  assumes "pg_ok w" "quiet reg d w" "\<not> frozen (sub w InFrozen)" "CountValidSolves d < lastCount st"
    and "redis st keyCurrent = Some cached" "sn_SolveCount cached = lastCount st"
    and "\<not> ob_fail (w [InRead 2, RGet])" "\<not> ob_fail (w [InRead 2, Unmarshal])"
    and "\<not> ob_fail (w [InRead 0, RGet])" "\<not> ob_fail (w [InRead 0, Unmarshal])"
  shows "Recompute w st = (st, Inr ()) \<and> ReconcileIfBehind w st = (st, Inr ()) \<and>
    Current w adm st = (st, Inr (cached\<lparr>sn_Frozen := False\<rparr>))"
proof -
  obtain now where "run_compute (sub w InCompute) =
    Inr (\<lparr>sn_Frozen = False, sn_GeneratedAt = now, sn_Standings = board_of reg d,
          sn_SolveCount = CountValidSolves d\<rparr>, CountValidSolves d)"
    using run_compute_ok [of "sub w InCompute" reg d] assms(1,2) by auto
  then have "Recompute w st = (st, Inr ())"
    using assms(4) by (simp add: Recompute_def recompute_def publish_drops)
  then show ?thesis
    using cached_board_kept [OF assms(1,2,3,5) _ assms(7-10), of adm] assms(4,6) by simp
qed

theorem shrunk_log_not_served_witness:
  "Recompute (still_world defaultRegistry empty_db 5)
     (New\<lparr>lastCount := 1, redis := (\<lambda>_. Some (empty_board\<lparr>sn_SolveCount := 1\<rparr>))\<rparr>) =
   (New\<lparr>lastCount := 1, redis := (\<lambda>_. Some (empty_board\<lparr>sn_SolveCount := 1\<rparr>))\<rparr>, Inr ())"
  by (rule shrunk_log_not_served [where reg = defaultRegistry and d = empty_db
        and cached = "empty_board\<lparr>sn_SolveCount := 1\<rparr>", THEN conjunct1])
     (simp_all add: empty_board_def)

end
