(* ===== verification/Database_Instances.thy ===== *)
theory Database_Instances
  imports Database
begin

text \<open>
  The queries over the table \<^verbatim>\<open>instances\<close> (\<^verbatim>\<open>internal/db/gen/instances.sql.go\<close>), with the table's
  constraints: the set of states, the host-port range, the unique host port, one shared instance
  per challenge, one instance per challenge and team, the unique flag.
\<close>

definition instance_states :: "string list" where
  "instance_states = [''pending'', ''starting'', ''running'', ''unhealthy'', ''stopped'', ''error'', ''lost'']"

definition chk_instances_host_port_range :: "int option \<Rightarrow> bool" where
  "chk_instances_host_port_range p \<longleftrightarrow>
     (case p of None \<Rightarrow> True | Some n \<Rightarrow> 30000 \<le> n \<and> n \<le> 32767)"

definition CreateInstance ::
  "db \<Rightarrow> time \<Rightarrow> uuid \<Rightarrow> uuid \<Rightarrow> uuid option \<Rightarrow> string \<Rightarrow> int option \<Rightarrow> string option \<Rightarrow> time option \<Rightarrow>
   string option \<Rightarrow> sql_error + db \<times> Instance" where
  "CreateInstance d now i cid tid state port flag expires network =
     (let n = \<lparr>i_ID = i, i_ChallengeID = cid, i_State = state, i_ContainerID = None, i_HostPort = port,
               i_Error = None, i_StartedAt = None, i_LastHealthAt = None, i_CreatedAt = now,
               i_UpdatedAt = now, i_TeamID = tid, i_Flag = flag, i_ExpiresAt = expires,
               i_Network = network\<rparr>;
          used = (\<lambda>P. list_ex P (instances d))
      in if state \<notin> set instance_states then Inl (CheckViolation ''instances_state_check'')
         else if \<not> chk_instances_host_port_range port
           then Inl (CheckViolation ''chk_instances_host_port_range'')
         else if used (\<lambda>x. i_ID x = i) then Inl (UniqueViolation ''instances_pkey'')
         else if port \<noteq> None \<and> used (\<lambda>x. i_HostPort x = port)
           then Inl (UniqueViolation ''uq_instances_host_port'')
         else if tid = None \<and> used (\<lambda>x. i_ChallengeID x = cid \<and> i_TeamID x = None)
           then Inl (UniqueViolation ''uq_instances_shared'')
         else if tid \<noteq> None \<and> used (\<lambda>x. i_ChallengeID x = cid \<and> i_TeamID x = tid)
           then Inl (UniqueViolation ''uq_instances_per_team'')
         else if flag \<noteq> None \<and> used (\<lambda>x. i_Flag x = flag) then Inl (UniqueViolation ''uq_instances_flag'')
         else if \<not> list_ex (\<lambda>c. c_ID c = cid) (challenges d)
           then Inl (ForeignKeyViolation ''instances_challenge_id_fkey'')
         else if (case tid of None \<Rightarrow> False | Some t \<Rightarrow> \<not> list_ex (\<lambda>x. t_ID x = t) (teams d))
           then Inl (ForeignKeyViolation ''instances_team_id_fkey'')
         else Inr (d\<lparr>instances := instances d @ [n]\<rparr>, n))"

definition GetInstanceByID :: "db \<Rightarrow> uuid \<Rightarrow> Instance option" where
  "GetInstanceByID d i = List.find (\<lambda>n. i_ID n = i) (instances d)"

definition GetSharedInstance :: "db \<Rightarrow> uuid \<Rightarrow> Instance option" where
  "GetSharedInstance d cid = List.find (\<lambda>n. i_ChallengeID n = cid \<and> i_TeamID n = None) (instances d)"

definition GetTeamInstance :: "db \<Rightarrow> uuid \<Rightarrow> uuid \<Rightarrow> Instance option" where
  "GetTeamInstance d cid tid =
     List.find (\<lambda>n. i_ChallengeID n = cid \<and> i_TeamID n = Some tid) (instances d)"

definition update_instance :: "db \<Rightarrow> uuid \<Rightarrow> (Instance \<Rightarrow> Instance) \<Rightarrow> db" where
  "update_instance d i f = d\<lparr>instances := map (\<lambda>n. if i_ID n = i then f n else n) (instances d)\<rparr>"

text \<open>The \<^verbatim>\<open>SET\<close> clause: a parameter that is null keeps the column.\<close>

definition update_fields ::
  "time \<Rightarrow> string option \<Rightarrow> string option \<Rightarrow> bool \<Rightarrow> string option \<Rightarrow> time option \<Rightarrow> time option \<Rightarrow> Instance \<Rightarrow>
   Instance" where
  "update_fields now state container set_error err started health n =
     n\<lparr>i_State := coalesce state (i_State n),
       i_ContainerID := (case container of Some c \<Rightarrow> Some c | None \<Rightarrow> i_ContainerID n),
       i_Error := (if set_error then err else i_Error n),
       i_StartedAt := (case started of Some s \<Rightarrow> Some s | None \<Rightarrow> i_StartedAt n),
       i_LastHealthAt := (case health of Some s \<Rightarrow> Some s | None \<Rightarrow> i_LastHealthAt n),
       i_UpdatedAt := now\<rparr>"

definition UpdateInstance ::
  "db \<Rightarrow> time \<Rightarrow> uuid \<Rightarrow> string option \<Rightarrow> string option \<Rightarrow> bool \<Rightarrow> string option \<Rightarrow> time option \<Rightarrow>
   time option \<Rightarrow> sql_error + db \<times> Instance option" where
  "UpdateInstance d now i state container set_error err started health =
     (let f = update_fields now state container set_error err started health
      in if GetInstanceByID d i \<noteq> None \<and> (case state of None \<Rightarrow> False | Some s \<Rightarrow> s \<notin> set instance_states)
           then Inl (CheckViolation ''instances_state_check'')
         else Inr (update_instance d i f, map_option f (GetInstanceByID d i)))"

definition SetInstanceExpiry :: "db \<Rightarrow> time \<Rightarrow> uuid \<Rightarrow> time option \<Rightarrow> db \<times> Instance option" where
  "SetInstanceExpiry d now i expires =
     (let d' = update_instance d i (\<lambda>n. n\<lparr>i_ExpiresAt := expires, i_UpdatedAt := now\<rparr>)
      in (d', GetInstanceByID d' i))"

definition DeleteInstance :: "db \<Rightarrow> uuid \<Rightarrow> db" where
  "DeleteInstance d i = d\<lparr>instances := filter (\<lambda>n. i_ID n \<noteq> i) (instances d)\<rparr>"

definition ListInstances :: "db \<Rightarrow> Instance list" where
  "ListInstances d = sort_key i_CreatedAt (instances d)"

definition ListTeamInstances :: "db \<Rightarrow> uuid \<Rightarrow> Instance list" where
  "ListTeamInstances d tid = sort_key i_CreatedAt (filter (\<lambda>n. i_TeamID n = Some tid) (instances d))"

definition ListPerTeamInstances :: "db \<Rightarrow> Instance list" where
  "ListPerTeamInstances d = filter (\<lambda>n. i_TeamID n \<noteq> None) (instances d)"

definition ListExpiredInstances :: "db \<Rightarrow> time \<Rightarrow> Instance list" where
  "ListExpiredInstances d now =
     filter (\<lambda>n. (case i_ExpiresAt n of None \<Rightarrow> False | Some x \<Rightarrow> x < now) \<and>
       i_State n \<notin> {''stopped'', ''error'', ''lost''}) (instances d)"

definition FindInstanceByFlag :: "db \<Rightarrow> uuid \<Rightarrow> string \<Rightarrow> Instance option" where
  "FindInstanceByFlag d cid flag =
     List.find (\<lambda>n. i_ChallengeID n = cid \<and> i_Flag n = Some flag \<and> i_TeamID n \<noteq> None) (instances d)"

definition ListUsedPorts :: "db \<Rightarrow> int list" where
  "ListUsedPorts d = sort (List.map_filter i_HostPort (instances d))"

definition ListStaleInstances :: "db \<Rightarrow> time \<Rightarrow> Instance list" where
  "ListStaleInstances d cutoff =
     sort_key i_UpdatedAt
       (filter (\<lambda>n. i_State n \<in> {''pending'', ''error'', ''lost''} \<and> i_UpdatedAt n < cutoff) (instances d))"

definition CountTeamRunningInstances :: "db \<Rightarrow> uuid \<Rightarrow> int" where
  "CountTeamRunningInstances d tid =
     int (length (filter (\<lambda>n. i_TeamID n = Some tid \<and> i_State n = ''running'') (instances d)))"

definition CountInstancesByState :: "db \<Rightarrow> (string \<times> int) list" where
  "CountInstancesByState d =
     map (\<lambda>s. (s, int (length (filter (\<lambda>n. i_State n = s) (instances d)))))
       (remdups (map i_State (instances d)))"

definition CountRunningInstances :: "db \<Rightarrow> int" where
  "CountRunningInstances d = int (length (filter (\<lambda>n. i_State n = ''running'') (instances d)))"

subsection \<open>The table's invariant\<close>

text \<open>What the constraints of the table say of its rows.\<close>

definition instances_ok :: "db \<Rightarrow> bool" where
  "instances_ok d \<longleftrightarrow>
     distinct (map i_ID (instances d)) \<and>
     distinct (List.map_filter i_HostPort (instances d)) \<and>
     distinct (List.map_filter i_Flag (instances d)) \<and>
     distinct (map (\<lambda>n. (i_ChallengeID n, i_TeamID n)) (instances d)) \<and>
     list_all (\<lambda>n. i_State n \<in> set instance_states \<and>
       chk_instances_host_port_range (i_HostPort n)) (instances d)"

lemma instances_ok_instances [simp]:
  "instances_ok (d\<lparr>users := a\<rparr>) = instances_ok d"
  "instances_ok (d\<lparr>submissions := b\<rparr>) = instances_ok d"
  "instances_ok (d\<lparr>team_members := c\<rparr>) = instances_ok d"
  by (simp_all add: instances_ok_def)

lemma map_filter_append: "List.map_filter f (xs @ ys) = List.map_filter f xs @ List.map_filter f ys"
  by (simp add: List.map_filter_def)

lemma set_map_filter: "set (List.map_filter f xs) = {y. \<exists>x \<in> set xs. f x = Some y}"
  by (force simp: List.map_filter_def)

lemma map_filter_map_same:
  assumes "\<And>x. f (g x) = f x"
  shows "List.map_filter f (map g xs) = List.map_filter f xs"
  by (induction xs) (auto simp: List.map_filter_def assms)

lemma CreateInstance_Inr:
  assumes "CreateInstance d now i cid tid state port flag expires network = Inr (d', n)"
  shows "d' = d\<lparr>instances := instances d @ [n]\<rparr>" and "i_HostPort n = port" and "i_TeamID n = tid"
    and "i_ID n = i" and "i_State n = state" and "i_ChallengeID n = cid" and "i_Flag n = flag"
    and "i_ExpiresAt n = expires" and "i_Network n = network" and "i_ContainerID n = None"
  using assms by (auto simp: CreateInstance_def Let_def split: if_splits)

lemma map_filter_single: "List.map_filter f [x] = (case f x of None \<Rightarrow> [] | Some y \<Rightarrow> [y])"
  by (simp add: List.map_filter_def split: option.split)

lemma CreateInstance_fresh:
  assumes "CreateInstance d now i cid tid state port flag expires network = Inr (d', n)"
  shows "state \<in> set instance_states" "chk_instances_host_port_range port"
    and "x \<in> set (instances d) \<Longrightarrow> i_ID x \<noteq> i"
    and "x \<in> set (instances d) \<Longrightarrow> port \<noteq> None \<Longrightarrow> i_HostPort x \<noteq> port"
    and "x \<in> set (instances d) \<Longrightarrow> flag \<noteq> None \<Longrightarrow> i_Flag x \<noteq> flag"
    and "x \<in> set (instances d) \<Longrightarrow> i_ChallengeID x = cid \<Longrightarrow> i_TeamID x \<noteq> tid"
  using assms by (cases tid; auto simp: CreateInstance_def Let_def list_ex_iff split: if_splits)+

lemma CreateInstance_ok:
  assumes "instances_ok d"
    and "CreateInstance d now i cid tid state port flag expires network = Inr (d', n)"
  shows "instances_ok d'"
proof -
  note new = CreateInstance_Inr [OF assms(2)] and fresh = CreateInstance_fresh [OF assms(2)]
  have "distinct (List.map_filter i_HostPort (instances d @ [n]))"
    using assms(1) new(2) fresh(4)
    by (cases port) (auto simp: instances_ok_def map_filter_append map_filter_single set_map_filter)
  moreover have "distinct (List.map_filter i_Flag (instances d @ [n]))"
    using assms(1) new(7) fresh(5)
    by (cases flag) (auto simp: instances_ok_def map_filter_append map_filter_single set_map_filter)
  moreover have "distinct (map (\<lambda>n. (i_ChallengeID n, i_TeamID n)) (instances d @ [n]))"
    using assms(1) new(3,6) fresh(6) by (force simp: instances_ok_def)
  moreover have "distinct (map i_ID (instances d @ [n]))"
    using assms(1) new(4) fresh(3) by (force simp: instances_ok_def)
  ultimately show ?thesis
    using assms(1) new fresh(1,2) by (auto simp: instances_ok_def)
qed

lemma update_instance_ok:
  assumes "instances_ok d"
    and "\<And>n. i_ID (f n) = i_ID n" "\<And>n. i_HostPort (f n) = i_HostPort n"
    and "\<And>n. i_Flag (f n) = i_Flag n" "\<And>n. i_ChallengeID (f n) = i_ChallengeID n"
    and "\<And>n. i_TeamID (f n) = i_TeamID n"
    and "\<And>n. n \<in> set (instances d) \<Longrightarrow> i_ID n = i \<Longrightarrow> i_State (f n) \<in> set instance_states"
  shows "instances_ok (update_instance d i f)"
proof -
  let ?g = "\<lambda>n. if i_ID n = i then f n else n"
  have "List.map_filter i_HostPort (map ?g (instances d)) = List.map_filter i_HostPort (instances d)"
    "List.map_filter i_Flag (map ?g (instances d)) = List.map_filter i_Flag (instances d)"
    by (rule map_filter_map_same; simp add: assms)+
  moreover have "map i_ID (map ?g (instances d)) = map i_ID (instances d)"
    "map (\<lambda>n. (i_ChallengeID n, i_TeamID n)) (map ?g (instances d))
       = map (\<lambda>n. (i_ChallengeID n, i_TeamID n)) (instances d)"
    by (simp_all add: assms)
  moreover have "list_all (\<lambda>n. i_State n \<in> set instance_states \<and>
      chk_instances_host_port_range (i_HostPort n)) (map ?g (instances d))"
    using assms(1,3,7) by (auto simp: instances_ok_def list_all_iff)
  moreover have "instances (update_instance d i f) = map ?g (instances d)"
    by (simp add: update_instance_def)
  ultimately show ?thesis
    using assms(1) unfolding instances_ok_def by (simp only: simp_thms)
qed

lemma UpdateInstance_ok:
  assumes "instances_ok d"
    and "UpdateInstance d now i state container set_error err started health = Inr (d', r)"
  shows "instances_ok d'"
proof -
  have st: "state = Some s \<Longrightarrow> n \<in> set (instances d) \<Longrightarrow> i_ID n = i \<Longrightarrow> s \<in> set instance_states" for s n
    using assms(2) find_Some_iff_ex [of "\<lambda>n. i_ID n = i" "instances d"]
    by (auto simp: UpdateInstance_def Let_def GetInstanceByID_def list_ex_iff split: if_splits)
  have old: "n \<in> set (instances d) \<Longrightarrow> i_State n \<in> set instance_states" for n
    using assms(1) by (auto simp: instances_ok_def list_all_iff)
  show ?thesis
    using assms(2)
    by (auto simp: UpdateInstance_def update_fields_def Let_def coalesce_def split: if_splits
        intro!: update_instance_ok [OF assms(1)] dest: st old split: option.split)
qed

lemma SetInstanceExpiry_ok: "instances_ok d \<Longrightarrow> instances_ok (fst (SetInstanceExpiry d now i x))"
  unfolding SetInstanceExpiry_def Let_def fst_conv
  by (rule update_instance_ok) (auto simp: instances_ok_def list_all_iff)

lemma map_filter_filter_distinct:
  "distinct (List.map_filter f xs) \<Longrightarrow> distinct (List.map_filter f (filter P xs))"
  by (induction xs) (force simp: List.map_filter_def)+

lemma DeleteInstance_ok: "instances_ok d \<Longrightarrow> instances_ok (DeleteInstance d i)"
  by (auto simp: DeleteInstance_def instances_ok_def list_all_iff distinct_map_filter
      intro: map_filter_filter_distinct)

end
