(* ===== verification/Go_Strings.thy ===== *)
theory Go_Strings
  imports Prelude "HOL-Library.Word"
begin

text \<open>
  The functions of Go's \<^verbatim>\<open>strings\<close>, \<^verbatim>\<open>strconv\<close> and \<^verbatim>\<open>crypto/subtle\<close> packages that the source uses. A Go string is
  the list of its bytes. \<^verbatim>\<open>TrimSpace\<close> cuts the UTF-8 encodings of the code points \<^verbatim>\<open>unicode.IsSpace\<close> accepts;
  \<^verbatim>\<open>ToLower\<close> works byte by byte on ASCII text and goes through the Unicode tables, the parameter \<open>uni_lower\<close>, on
  other text.
\<close>

unbundle bit_operations_syntax

subsection \<open>Bytes\<close>

definition byte_of :: "char \<Rightarrow> 8 word" where
  "byte_of c = word_of_nat (of_char c)"

fun xor_acc :: "8 word \<Rightarrow> string \<Rightarrow> string \<Rightarrow> 8 word" where
  "xor_acc v (a # as) (b # bs) = xor_acc (v OR (byte_of a XOR byte_of b)) as bs"
| "xor_acc v _ _ = v"

text \<open>\<^verbatim>\<open>subtle.ConstantTimeCompare\<close>: unequal lengths differ; otherwise the bitwise differences of all
  bytes are accumulated and the sum is compared with 0.\<close>

definition ConstantTimeCompare :: "string \<Rightarrow> string \<Rightarrow> int" where
  "ConstantTimeCompare x y =
     (if length x \<noteq> length y then 0 else if xor_acc 0 x y = 0 then 1 else 0)"

subsection \<open>Case\<close>

definition ascii_lower :: "char \<Rightarrow> char" where
  "ascii_lower c = (let n = (of_char c :: nat) in if 65 \<le> n \<and> n \<le> 90 then char_of (n + 32) else c)"

definition is_ascii :: "string \<Rightarrow> bool" where
  "is_ascii s \<longleftrightarrow> list_all (\<lambda>c. (of_char c :: nat) < 128) s"

definition ToLower :: "(string \<Rightarrow> string) \<Rightarrow> string \<Rightarrow> string" where
  "ToLower uni_lower s = (if is_ascii s then map ascii_lower s else uni_lower s)"

subsection \<open>White space\<close>

text \<open>The encodings of the white space characters: the ASCII ones, U+0085, U+00A0, U+1680, U+2000 to U+200A,
  U+2028, U+2029, U+202F, U+205F and U+3000.\<close>

definition space_codes :: "string list" where
  "space_codes =
     [[CHR '' ''], [CHR 0x09], [CHR 0x0A], [CHR 0x0B], [CHR 0x0C], [CHR 0x0D],
      [CHR 0xC2, CHR 0x85], [CHR 0xC2, CHR 0xA0], [CHR 0xE1, CHR 0x9A, CHR 0x80],
      [CHR 0xE2, CHR 0x80, CHR 0x80], [CHR 0xE2, CHR 0x80, CHR 0x81], [CHR 0xE2, CHR 0x80, CHR 0x82],
      [CHR 0xE2, CHR 0x80, CHR 0x83], [CHR 0xE2, CHR 0x80, CHR 0x84], [CHR 0xE2, CHR 0x80, CHR 0x85],
      [CHR 0xE2, CHR 0x80, CHR 0x86], [CHR 0xE2, CHR 0x80, CHR 0x87], [CHR 0xE2, CHR 0x80, CHR 0x88],
      [CHR 0xE2, CHR 0x80, CHR 0x89], [CHR 0xE2, CHR 0x80, CHR 0x8A], [CHR 0xE2, CHR 0x80, CHR 0xA8],
      [CHR 0xE2, CHR 0x80, CHR 0xA9], [CHR 0xE2, CHR 0x80, CHR 0xAF], [CHR 0xE2, CHR 0x81, CHR 0x9F],
      [CHR 0xE3, CHR 0x80, CHR 0x80]]"

definition HasPrefix :: "string \<Rightarrow> string \<Rightarrow> bool" where
  "HasPrefix s p \<longleftrightarrow> take (length p) s = p"

text \<open>Cut from the front while one of the codes is there.\<close>

function cut_codes :: "string list \<Rightarrow> string \<Rightarrow> string" where
  "cut_codes codes s =
     (case List.find (\<lambda>p. p \<noteq> [] \<and> HasPrefix s p) codes of
        None \<Rightarrow> s
      | Some p \<Rightarrow> cut_codes codes (drop (length p) s))"
  by auto
termination
proof (relation "measure (length \<circ> snd)", goal_cases)
  case (2 codes s p)
  then show ?case by (cases s) (auto simp: find_Some_iff HasPrefix_def)
qed simp

declare cut_codes.simps [simp del]

definition TrimSpace :: "string \<Rightarrow> string" where
  "TrimSpace s = rev (cut_codes (map rev space_codes) (rev (cut_codes space_codes s)))"

subsection \<open>Searching and cutting\<close>

definition CutPrefix :: "string \<Rightarrow> string \<Rightarrow> string \<times> bool" where
  "CutPrefix s p = (if HasPrefix s p then (drop (length p) s, True) else (s, False))"

definition TrimSuffix :: "string \<Rightarrow> string \<Rightarrow> string" where
  "TrimSuffix s p =
     (if length p \<le> length s \<and> drop (length s - length p) s = p then take (length s - length p) s else s)"

definition ContainsAny :: "string \<Rightarrow> string \<Rightarrow> bool" where
  "ContainsAny s chars \<longleftrightarrow> list_ex (\<lambda>c. c \<in> set chars) s"

text \<open>\<^verbatim>\<open>strings.IndexByte\<close>, -1 when the byte does not occur.\<close>

definition IndexByte :: "string \<Rightarrow> char \<Rightarrow> int" where
  "IndexByte s c = (let i = length (takeWhile (\<lambda>x. x \<noteq> c) s) in if i < length s then int i else - 1)"

text \<open>\<^verbatim>\<open>strings.Split\<close> at a one-byte separator.\<close>

fun Split :: "string \<Rightarrow> char \<Rightarrow> string list" where
  "Split [] sep = [[]]"
| "Split (c # cs) sep =
     (if c = sep then [] # Split cs sep
      else case Split cs sep of [] \<Rightarrow> [[c]] | w # ws \<Rightarrow> (c # w) # ws)"

subsection \<open>Decimal numbers\<close>

definition is_digit :: "char \<Rightarrow> bool" where
  "is_digit c \<longleftrightarrow> c \<in> set ''0123456789''"

fun digits_value :: "string \<Rightarrow> int \<Rightarrow> int" where
  "digits_value [] n = n"
| "digits_value (c # cs) n = digits_value cs (10 * n + (int (of_char c) - 48))"

text \<open>\<^verbatim>\<open>strconv.Atoi\<close>: an optional sign and decimal digits, within 64 bits.\<close>

definition Atoi :: "string \<Rightarrow> int option" where
  "Atoi s =
     (let (neg, ds) = (case s of [] \<Rightarrow> (False, []) | c # cs \<Rightarrow>
            if c = CHR ''-'' then (True, cs) else if c = CHR ''+'' then (False, cs) else (False, s));
          v = (if neg then - digits_value ds 0 else digits_value ds 0)
      in if ds \<noteq> [] \<and> list_all is_digit ds \<and> - (2 ^ 63) \<le> v \<and> v < 2 ^ 63 then Some v else None)"

text \<open>The verb \<^verbatim>\<open>%d\<close> of a non-negative number.\<close>

fun itoa :: "nat \<Rightarrow> string" where
  "itoa n = (if n < 10 then [''0123456789'' ! n] else itoa (n div 10) @ [''0123456789'' ! (n mod 10)])"

declare itoa.simps [simp del]

subsection \<open>Facts\<close>

lemma byte_of_eq_iff: "byte_of a = byte_of b \<longleftrightarrow> a = b"
proof -
  have "unat (byte_of c) = of_char c" for c
    using nat_of_char_less_256 [of c] by (simp add: byte_of_def unsigned_of_nat take_bit_nat_eq_self)
  then show ?thesis by (metis char_of_char)
qed

lemma word_or_zero_iff: "v OR w = 0 \<longleftrightarrow> v = 0 \<and> w = (0 :: 8 word)"
  by (auto simp: bit_eq_iff bit_simps)

lemma word_xor_zero_iff: "v XOR w = 0 \<longleftrightarrow> v = (w :: 8 word)"
  by (auto simp: bit_eq_iff bit_simps)

lemma xor_acc_zero_iff:
  "length x = length y \<Longrightarrow> xor_acc v x y = 0 \<longleftrightarrow> v = 0 \<and> x = y"
  by (induction v x y rule: xor_acc.induct)
     (auto simp: word_or_zero_iff word_xor_zero_iff byte_of_eq_iff)

lemma ConstantTimeCompare_iff: "ConstantTimeCompare x y = 1 \<longleftrightarrow> x = y"
  by (auto simp: ConstantTimeCompare_def xor_acc_zero_iff)

lemma HasPrefix_append [simp]: "HasPrefix (p @ s) p"
  by (simp add: HasPrefix_def)

lemma HasPrefix_iff: "HasPrefix s p \<longleftrightarrow> (\<exists>t. s = p @ t)"
  by (metis HasPrefix_def append_eq_conv_conj append_take_drop_id)

lemma CutPrefix_append [simp]: "CutPrefix (p @ s) p = (s, True)"
  by (simp add: CutPrefix_def)

lemma length_cut_codes: "length (cut_codes codes s) \<le> length s"
proof (induction codes s rule: cut_codes.induct)
  case (1 codes s)
  show ?case
  proof (cases "List.find (\<lambda>p. p \<noteq> [] \<and> HasPrefix s p) codes")
    case None
    then show ?thesis by (simp add: cut_codes.simps)
  next
    case (Some p)
    then have "cut_codes codes s = cut_codes codes (drop (length p) s)" by (simp add: cut_codes.simps)
    with "1.IH"[OF Some] show ?thesis by simp
  qed
qed

lemma Split_append:
  "sep \<notin> set xs \<Longrightarrow> Split (xs @ sep # ys) sep = xs # Split ys sep"
  by (induction xs) auto

lemma Split_single: "sep \<notin> set xs \<Longrightarrow> Split xs sep = [xs]"
  by (induction xs) auto

lemma digits_value_append: "digits_value (xs @ ys) n = digits_value ys (digits_value xs n)"
  by (induction xs arbitrary: n) auto

lemma digit_nth:
  assumes "n < 10"
  shows "is_digit (''0123456789'' ! n)" "int (of_char (''0123456789'' ! n)) - 48 = int n"
  using assms by (auto simp: is_digit_def numeral_nat less_Suc_eq)

lemma itoa_digits: "list_all is_digit (itoa n) \<and> itoa n \<noteq> []"
  by (induction n rule: itoa.induct)
    (subst (1 2) itoa.simps, use digit_nth(1) in \<open>auto simp: list_all_iff\<close>)

lemma itoa_value: "digits_value (itoa n) 0 = int n"
proof (induction n rule: itoa.induct)
  case (1 n)
  show ?case
  proof (cases "n < 10")
    case True
    then show ?thesis using digit_nth(2)[OF True] by (simp add: itoa.simps)
  next
    case False
    have "digits_value (itoa n) 0 = 10 * int (n div 10) + int (n mod 10)"
      using "1.IH"[OF False] digit_nth(2)[of "n mod 10"] False
      by (subst itoa.simps) (simp add: digits_value_append)
    also have "\<dots> = int n" by presburger
    finally show ?thesis .
  qed
qed

end
