(* ===== verification/Submissions.thy ===== *)
theory Submissions
  imports Scoring Challenge_Types Database_Instances Events_Service Go_Strings
begin

text \<open>
  \<^verbatim>\<open>internal/submissions/service.go\<close>: the flag-submission path. \<^verbatim>\<open>Submit\<close> has three parts, as the code
  has: the checks before the transaction (with the verdict of a plugin checker), the transaction that
  holds the challenge's row lock, and the work after the commit (scoring record, domain event).

  What is outside the repository is a parameter: the plugin checker and scorer (fields of \<open>svc\<close>), the
  decoding of the stored type configuration, Unicode lower-casing, address parsing, fresh ids. A
  \<open>sub_call\<close> names a statement that may fail. The database sees the submissions of one challenge one
  after the other, because every transaction locks the challenge row first; a transaction is
  therefore one atomic step on one database state.
\<close>

subsection \<open>Comparison of flags\<close>

definition compareFlag :: "(string \<Rightarrow> string) \<Rightarrow> string \<Rightarrow> string \<Rightarrow> bool \<Rightarrow> bool" where
  "compareFlag uni_lower provided actual caseInsensitive =
     (let a = (if caseInsensitive then ToLower uni_lower provided else provided);
          b = (if caseInsensitive then ToLower uni_lower actual else actual)
      in ConstantTimeCompare a b = 1)"

subsection \<open>The service\<close>

type_synonym flag_checker = "string \<Rightarrow> (string \<rightharpoonup> string) \<Rightarrow> (string \<rightharpoonup> string) \<Rightarrow> bool option"
text \<open>The three outcomes of \<^verbatim>\<open>ChallengeTypes.Resolve\<close>.\<close>

datatype resolution = PluginType flag_checker | BuiltinType | Unregistered

type_synonym scorer = "string \<Rightarrow> ChallengeScoring \<Rightarrow> int \<Rightarrow> int \<times> string \<times> bool"

record svc =
  sv_checker :: "(string \<Rightarrow> resolution) option"
  sv_scorer :: "scorer option"
  sv_audit :: bool
  sv_bus :: bool
  sv_reg :: Registry
  sv_unmarshal :: "string \<Rightarrow> (string \<rightharpoonup> string)"
  sv_uni_lower :: "string \<Rightarrow> string"
  sv_parse_addr :: "string \<Rightarrow> string option"
  sv_uuid_string :: "uuid \<Rightarrow> string"

record Input =
  in_UserID :: uuid
  in_TeamID :: uuid
  in_Slug :: string
  in_Flag :: string
  in_IP :: "string option"
  in_TeamBanned :: bool
  in_BypassWindow :: bool

record Result =
  rs_Correct :: bool
  rs_Points :: "int option"
  rs_Pending :: bool

datatype sub_call =
    CallEvent | CallChallenge | CallEarlySolved | CallBegin | CallLock | CallSolved | CallAttempts
  | CallInstance | CallSharing | CallNewID | CallInsert | CallCommit | CallCountSolves | CallRecord

definition redactedFlag :: string where
  "redactedFlag = ''[redacted per-instance flag]''"

definition retryUnavailable :: app_error where
  "retryUnavailable = Unavailable ''this challenge's checker is temporarily unavailable'' (2 * second)"

definition already_solved :: app_error where
  "already_solved = Conflict ''your team has already solved this challenge''"

definition decodeTypeConfig :: "svc \<Rightarrow> string \<Rightarrow> (string \<rightharpoonup> string)" where
  "decodeTypeConfig sv raw = (if length raw > 0 then sv_unmarshal sv raw else Map.empty)"

definition parseIP :: "svc \<Rightarrow> string option \<Rightarrow> string option" where
  "parseIP sv ip = (case ip of None \<Rightarrow> None | Some s \<Rightarrow> if s = [] then None else sv_parse_addr sv s)"

definition scoreParams :: "Challenge \<Rightarrow> ChallengeScoring" where
  "scoreParams c = \<lparr>Initial = c_PointsInitial c,
     Minimum = (case c_PointsMin c of Some m \<Rightarrow> m | None \<Rightarrow> 0),
     Decay = (case c_Decay c of Some m \<Rightarrow> m | None \<Rightarrow> 0)\<rparr>"

definition currentPoints :: "Registry \<Rightarrow> Challenge \<Rightarrow> int \<Rightarrow> int" where
  "currentPoints reg c solves = Value reg (c_Scoring c) (scoreParams c) solves"

subsection \<open>Before the transaction\<close>

definition pluginVerdict ::
  "svc \<Rightarrow> (sub_call \<Rightarrow> bool) \<Rightarrow> db \<Rightarrow> Challenge \<Rightarrow> Input \<Rightarrow> bool option result" where
  "pluginVerdict sv fails d ch inp =
     (case sv_checker sv of
        None \<Rightarrow> Inr None
      | Some resolve \<Rightarrow>
          (case resolve (c_Type ch) of
             Unregistered \<Rightarrow> Inl retryUnavailable
           | BuiltinType \<Rightarrow> Inr None
           | PluginType check \<Rightarrow>
               if \<not> fails CallEarlySolved \<and> HasTeamSolved d (c_ID ch) (in_TeamID inp)
               then Inl already_solved
               else case check (in_Flag inp) (decodeTypeConfig sv (c_TypeConfig ch)) Map.empty of
                      None \<Rightarrow> Inl retryUnavailable
                    | Some verdict \<Rightarrow> Inr (Some verdict)))"

definition submit_pre ::
  "svc \<Rightarrow> (sub_call \<Rightarrow> bool) \<Rightarrow> time \<Rightarrow> db \<Rightarrow> db \<Rightarrow> db \<Rightarrow> Input \<Rightarrow> (Challenge \<times> bool option) result" where
  "submit_pre sv fails now dE dC dS inp =
     (if in_TeamBanned inp then Inl (Forbidden ''your team is banned'')
      else
        (case (if in_BypassWindow inp then Inr ()
               else case events_Get (fails CallEvent) dE of
                      Inl e \<Rightarrow> Inl e
                    | Inr e \<Rightarrow> if phase now e \<noteq> PhaseRunning
                               then Inl (Forbidden ''the event is not running'') else Inr ()) of
           Inl e \<Rightarrow> Inl e
         | Inr _ \<Rightarrow>
             if fails CallChallenge then Inl (Internal ''submissions: get challenge'')
             else case GetChallengeBySlug dC (in_Slug inp) of
                    None \<Rightarrow> Inl ErrNotFound
                  | Some ch \<Rightarrow>
                      if \<not> c_Visible ch \<and> \<not> in_BypassWindow inp then Inl ErrNotFound
                      else case pluginVerdict sv fails dS ch inp of
                             Inl e \<Rightarrow> Inl e
                           | Inr v \<Rightarrow> Inr (ch, v)))"

subsection \<open>The transaction\<close>

definition comparePerInstance ::
  "svc \<Rightarrow> (sub_call \<Rightarrow> bool) \<Rightarrow> db \<Rightarrow> uuid \<Rightarrow> Input \<Rightarrow> (bool \<times> uuid option) result" where
  "comparePerInstance sv fails d cid inp =
     (if fails CallInstance then Inl (Internal ''submissions: get team instance'')
      else case GetTeamInstance d cid (in_TeamID inp) of
             None \<Rightarrow> Inl (Forbidden ''start the challenge first'')
           | Some inst \<Rightarrow>
               let instFlag = (case i_Flag inst of Some f \<Rightarrow> f | None \<Rightarrow> [])
               in if compareFlag (sv_uni_lower sv) (in_Flag inp) instFlag False then Inr (True, None)
                  else if fails CallSharing then Inl (Internal ''submissions: sharing lookup'')
                  else case FindInstanceByFlag d cid (in_Flag inp) of
                         None \<Rightarrow> Inr (False, None)
                       | Some owner \<Rightarrow>
                           (case i_TeamID owner of
                              Some t \<Rightarrow> if t \<noteq> in_TeamID inp then Inr (False, Some t) else Inr (False, None)
                            | None \<Rightarrow> Inr (False, None)))"

text \<open>The outcome of the transaction: whether the flag was correct, the id of the row, the owner of a
  shared flag.\<close>

record outcome =
  oc_correct :: bool
  oc_solveID :: uuid
  oc_sharingOwner :: "uuid option"

definition submit_correct ::
  "svc \<Rightarrow> (sub_call \<Rightarrow> bool) \<Rightarrow> db \<Rightarrow> Challenge \<Rightarrow> Challenge \<Rightarrow> bool option \<Rightarrow> Input \<Rightarrow>
   (bool \<times> uuid option) result" where
  "submit_correct sv fails d ch locked verdict inp =
     (case verdict of
        Some v \<Rightarrow> Inr (v, None)
      | None \<Rightarrow>
          if c_FlagMode locked = ''per_instance'' then comparePerInstance sv fails d (c_ID ch) inp
          else Inr (compareFlag (sv_uni_lower sv) (in_Flag inp) (c_Flag locked)
                      (c_FlagCaseInsensitive locked), None))"

definition submit_insert ::
  "svc \<Rightarrow> (sub_call \<Rightarrow> bool) \<Rightarrow> time \<Rightarrow> uuid \<Rightarrow> Challenge \<Rightarrow> Challenge \<Rightarrow> Input \<Rightarrow> bool \<Rightarrow> uuid option \<Rightarrow>
   db \<Rightarrow> (db \<times> outcome) result" where
  "submit_insert sv fails now new_id ch locked inp correct sharingOwner d =
     (if fails CallNewID then Inl (Internal ''submissions: generating id'')
      else let provided = (if c_FlagMode locked = ''per_instance'' \<and> (correct \<or> sharingOwner \<noteq> None)
                           then redactedFlag else in_Flag inp)
           in if fails CallInsert then Inl (Internal ''submissions: insert'')
              else case CreateSubmission d now new_id (c_ID ch) (in_TeamID inp) (in_UserID inp)
                          provided correct (parseIP sv (in_IP inp)) of
                     Inl (UniqueViolation _) \<Rightarrow> Inl already_solved
                   | Inl _ \<Rightarrow> Inl (Internal ''submissions: insert'')
                   | Inr d' \<Rightarrow> Inr (d', \<lparr>oc_correct = correct,
                       oc_solveID = (if correct then new_id else uuid_nil),
                       oc_sharingOwner = sharingOwner\<rparr>))"

definition submit_tx ::
  "svc \<Rightarrow> (sub_call \<Rightarrow> bool) \<Rightarrow> time \<Rightarrow> uuid \<Rightarrow> Challenge \<Rightarrow> bool option \<Rightarrow> Input \<Rightarrow> db \<Rightarrow>
   (db \<times> outcome) result" where
  "submit_tx sv fails now new_id ch verdict inp d =
     (if fails CallLock then Inl (Internal ''submissions: lock challenge'')
      else case GetChallengeForUpdate d (c_ID ch) of
             None \<Rightarrow> if verdict \<noteq> None then Inl retryUnavailable
                     else Inl (Internal ''submissions: lock challenge'')
           | Some locked \<Rightarrow>
               if verdict \<noteq> None \<and> (c_Type locked \<noteq> c_Type ch \<or> c_UpdatedAt locked \<noteq> c_UpdatedAt ch)
                 then Inl retryUnavailable
               else if fails CallSolved then Inl (Internal ''submissions: solved check'')
               else if HasTeamSolved d (c_ID ch) (in_TeamID inp) then Inl already_solved
               else if fails CallAttempts then Inl (Internal ''submissions: count attempts'')
               else if (case c_MaxAttempts locked of
                          Some m \<Rightarrow> m \<le> CountTeamAttempts d (c_ID ch) (in_TeamID inp)
                        | None \<Rightarrow> False)
                 then Inl (Forbidden ''no attempts remaining for this challenge'')
               else case submit_correct sv fails d ch locked verdict inp of
                      Inl e \<Rightarrow> Inl e
                    | Inr (correct, sharingOwner) \<Rightarrow>
                        submit_insert sv fails now new_id ch locked inp correct sharingOwner d)"

subsection \<open>After the commit\<close>

text \<open>What the post-commit part does outside the database, in order.\<close>

datatype effect =
    FlagSharingSignal
  | AuditShared uuid uuid uuid uuid
  | ScoreRecordFailure
  | PublishEvent string uuid time "(string \<times> string) list"

definition SolvedData :: "string \<Rightarrow> string \<Rightarrow> string \<Rightarrow> string \<Rightarrow> (string \<times> string) list" where
  "SolvedData teamID userID challengeID challengeSlug =
     [(''team_id'', teamID), (''user_id'', userID), (''challenge_id'', challengeID),
      (''challenge_slug'', challengeSlug)]"

definition sharing_effects :: "svc \<Rightarrow> Challenge \<Rightarrow> Input \<Rightarrow> outcome \<Rightarrow> effect list" where
  "sharing_effects sv ch inp oc =
     (case oc_sharingOwner oc of
        None \<Rightarrow> []
      | Some owner \<Rightarrow> FlagSharingSignal #
          (if sv_audit sv then [AuditShared (in_UserID inp) (in_TeamID inp) (c_ID ch) owner] else []))"

definition score_call :: "scorer option \<Rightarrow> string \<Rightarrow> ChallengeScoring \<Rightarrow> int \<Rightarrow> int \<times> string \<times> bool" where
  "score_call sc mode params solves =
     (case sc of None \<Rightarrow> (0, ''pending'', False) | Some f \<Rightarrow> f mode params solves)"

text \<open>\<^verbatim>\<open>int32(value)\<close> of a Go \<^verbatim>\<open>int\<close>: wrap-around at 32 bits.\<close>

definition int32 :: "int \<Rightarrow> int" where
  "int32 v = sint (word_of_int v :: 32 word)"

definition recordPluginScore ::
  "svc \<Rightarrow> (sub_call \<Rightarrow> bool) \<Rightarrow> uuid \<Rightarrow> Challenge \<Rightarrow> int \<Rightarrow> db \<Rightarrow> db \<times> effect list \<times> int \<times> bool" where
  "recordPluginScore sv fails solveID ch solves d =
     (case score_call (sv_scorer sv) (c_Scoring ch) (scoreParams ch) solves of
        (val, by, hasValue) \<Rightarrow>
          let scoredValue = (if hasValue then Some (int32 val) else None)
          in if fails CallRecord then (d, [ScoreRecordFailure], val, \<not> hasValue)
             else (fst (RecordScore d solveID by scoredValue), [], val, \<not> hasValue))"

definition solved_event :: "svc \<Rightarrow> time \<Rightarrow> Challenge \<Rightarrow> Input \<Rightarrow> outcome \<Rightarrow> effect list" where
  "solved_event sv now ch inp oc =
     (if sv_bus sv
      then [PublishEvent ''challenge.solved'' (oc_solveID oc) now
              (SolvedData (sv_uuid_string sv (in_TeamID inp)) (sv_uuid_string sv (in_UserID inp))
                (sv_uuid_string sv (c_ID ch)) (c_Slug ch))]
      else [])"

definition submit_post ::
  "svc \<Rightarrow> (sub_call \<Rightarrow> bool) \<Rightarrow> time \<Rightarrow> Challenge \<Rightarrow> Input \<Rightarrow> outcome \<Rightarrow> db \<Rightarrow> db \<times> effect list \<times> Result result" where
  "submit_post sv fails now ch inp oc d =
     (let fx = sharing_effects sv ch inp oc;
          res = \<lparr>rs_Correct = oc_correct oc, rs_Points = None, rs_Pending = False\<rparr>
      in if \<not> oc_correct oc then (d, fx, Inr res)
         else if fails CallCountSolves then (d, fx, Inl (Internal ''submissions: count solves''))
         else let n = CountChallengeSolves d (c_ID ch)
              in if IsBuiltinMode (c_Scoring ch)
                 then (d, fx @ solved_event sv now ch inp oc,
                       Inr (res\<lparr>rs_Points := Some (currentPoints (sv_reg sv) ch n)\<rparr>))
                 else case recordPluginScore sv fails (oc_solveID oc) ch n d of
                        (d', fx', pts, pending) \<Rightarrow>
                          (d', fx @ fx' @ solved_event sv now ch inp oc,
                           Inr (res\<lparr>rs_Points := Some pts, rs_Pending := pending\<rparr>)))"

text \<open>The whole flow with nobody else at work: each part sees the database the one before left.\<close>

definition Submit ::
  "svc \<Rightarrow> (sub_call \<Rightarrow> bool) \<Rightarrow> bool \<Rightarrow> time \<Rightarrow> uuid \<Rightarrow> Input \<Rightarrow> db \<Rightarrow> db \<times> effect list \<times> Result result" where
  "Submit sv fails landed now new_id inp d =
     (case submit_pre sv fails now d d d inp of
        Inl e \<Rightarrow> (d, [], Inl e)
      | Inr (ch, verdict) \<Rightarrow>
          (case WithTx (fails CallBegin) (fails CallCommit) landed
                  (submit_tx sv fails now new_id ch verdict inp) d of
             (d', Inl e) \<Rightarrow> (d', [], Inl e)
           | (d', Inr oc) \<Rightarrow> submit_post sv fails now ch inp oc d'))"

subsection \<open>The repair worker\<close>

text \<open>\<^verbatim>\<open>internal/submissions/scorerepair.go\<close>. The state of a pass is the database, the cache of solve counts and
  the number of records filled; a call of the loop may fail per row.\<close>

datatype repair_call = RepCount uuid | RepRecord uuid

definition rowScoreParams :: "ListSolvesNeedingScoreRow \<Rightarrow> ChallengeScoring" where
  "rowScoreParams row = \<lparr>Initial = ns_PointsInitial row,
     Minimum = (case ns_PointsMin row of Some m \<Rightarrow> m | None \<Rightarrow> 0),
     Decay = (case ns_Decay row of Some m \<Rightarrow> m | None \<Rightarrow> 0)\<rparr>"

definition repair_row ::
  "scorer \<Rightarrow> (repair_call \<Rightarrow> bool) \<Rightarrow> ListSolvesNeedingScoreRow \<Rightarrow> db \<times> (uuid \<rightharpoonup> int) \<times> nat \<Rightarrow>
   db \<times> (uuid \<rightharpoonup> int) \<times> nat" where
  "repair_row sc fails row acc =
     (let (d, solveCounts, filled) = acc;
          cid = ns_ChallengeID row
      in if solveCounts cid = None \<and> fails (RepCount (ns_ID row)) then acc
         else let solves = (case solveCounts cid of Some n \<Rightarrow> n | None \<Rightarrow> CountChallengeSolves d cid);
                  solveCounts' = solveCounts(cid \<mapsto> solves);
                  (val, by, hasValue) = sc (ns_Scoring row) (rowScoreParams row) solves;
                  scoredValue = (if hasValue then Some (int32 val) else None)
              in if fails (RepRecord (ns_ID row)) then (d, solveCounts', filled)
                 else let (d', n) = RecordScore d (ns_ID row) by scoredValue
                      in if n = 0 then (d', solveCounts', filled)
                         else (d', solveCounts', if hasValue then filled + 1 else filled))"

definition repairBatch :: nat where
  "repairBatch = 200"

text \<open>The result holds the gauges (missing, pending) when the count succeeded, and the number of
  records filled.\<close>

definition RepairOnce ::
  "scorer option \<Rightarrow> bool \<Rightarrow> bool \<Rightarrow> (repair_call \<Rightarrow> bool) \<Rightarrow> db \<Rightarrow>
   db \<times> (int \<times> int) option \<times> nat result" where
  "RepairOnce sc gauge_fails list_fails fails d =
     (let gauges = (if gauge_fails then None else Some (CountUnscoredPluginSolves d))
      in case sc of
           None \<Rightarrow> (d, gauges, Inr 0)
         | Some f \<Rightarrow>
             if list_fails then (d, gauges, Inl (Internal ''submissions: list solves needing score''))
             else case fold (repair_row f fails) (ListSolvesNeedingScore d repairBatch) (d, Map.empty, 0) of
                    (d', _, filled) \<Rightarrow> (d', gauges, Inr filled))"

end
