(* ===== verification/Submissions_Log.thy ===== *)
theory Submissions_Log
  imports Submissions
begin

text \<open>
  What the submission path guarantees of the log: a flag is accepted exactly when it should be, a
  rejected submission leaves no trace, a team solves a challenge once and within its attempts, a
  per-instance flag is never stored, and a recorded score is final. The guarantees on sequences of
  operations are over \<open>log_step\<close>, in which the parts of concurrent submissions and repair passes
  interleave with arbitrary stale inputs.
\<close>

subsection \<open>Comparison\<close>

definition same_flag :: "(string \<Rightarrow> string) \<Rightarrow> bool \<Rightarrow> string \<Rightarrow> string \<Rightarrow> bool" where
  "same_flag uni_lower ci a b \<longleftrightarrow> (if ci then ToLower uni_lower a = ToLower uni_lower b else a = b)"

lemma compareFlag_iff: "compareFlag ul a b ci \<longleftrightarrow> same_flag ul ci a b"
  by (simp add: compareFlag_def same_flag_def ConstantTimeCompare_iff)

text \<open>The constant-time comparison of a submitted flag is equality: of the bytes, or of the
  lower-cased texts for a case-insensitive challenge. Every byte takes part in the accumulated
  difference, so no prefix or length coincidence passes.\<close>

theorem flag_comparison_is_equality:
  "compareFlag ul provided actual ci \<longleftrightarrow>
   (if ci then ToLower ul provided = ToLower ul actual else provided = actual)"
  by (simp add: compareFlag_iff same_flag_def)

subsection \<open>Rejected submissions\<close>

lemma submit_tx_err_WithTx:
  "WithTx b c landed (submit_tx sv fails now i ch v inp) d = (d', Inl e) \<Longrightarrow>
   e \<noteq> Internal ''db: commit tx'' \<Longrightarrow> d' = d"
  by (auto simp: WithTx_def split: if_splits sum.splits prod.splits)

lemma submit_post_err:
  "submit_post sv fails now ch inp oc d = (d', fx, Inl e) \<Longrightarrow> e = Internal ''submissions: count solves''"
  by (auto simp: submit_post_def Let_def split: if_splits prod.splits)

text \<open>A rejected submission leaves no trace: whatever rejects it (a guard, a full attempt budget,
  an unavailable or failing checker, a challenge swapped or deleted under the verdict, a driver error),
  the database is unchanged, no attempt is counted and nothing is published. The only errors that may
  follow a stored attempt are a failing commit, which is ambiguous, and a failing solve count after the
  commit.\<close>

theorem rejected_submission_leaves_no_trace:
  assumes "Submit sv fails landed now new_id inp d = (d', fx, Inl e)"
    and "e \<noteq> Internal ''db: commit tx''" "e \<noteq> Internal ''submissions: count solves''"
  shows "d' = d \<and> fx = []"
  using assms submit_tx_err_WithTx submit_post_err
  by (fastforce simp: Submit_def split: sum.splits prod.splits)

definition sample_challenge :: Challenge where
  "sample_challenge = \<lparr>c_ID = 1, c_Slug = ''pwn-1'', c_Title = ''Pwn'', c_Category = ''pwn'',
     c_Description = [], c_Difficulty = None, c_Kind = ''standard'', c_Flag = ''flag{x}'',
     c_FlagCaseInsensitive = False, c_Scoring = ''static'', c_PointsInitial = 100, c_PointsMin = None,
     c_Decay = None, c_MaxAttempts = Some 3, c_Visible = True, c_Image = None, c_InternalPort = None,
     c_MemLimitMb = 256, c_CpuMillis = 500, c_ContainerEnv = [], c_ConnectionTemplate = None,
     c_CreatedAt = 0, c_UpdatedAt = 0, c_Instancing = ''shared'', c_FlagMode = ''static'',
     c_InstanceTtlSeconds = None, c_Egress = True, c_WritablePaths = [], c_Type = ''standard'',
     c_TypeConfig = []\<rparr>"

definition sample_user :: User where
  "sample_user = \<lparr>u_ID = 1, u_Username = ''ada'', u_Email = ''ada@x'', u_PasswordHash = [],
     u_Role = ''user'', u_Banned = False, u_Hidden = False, u_CreatedAt = 0, u_UpdatedAt = 0\<rparr>"

definition sample_team :: Team where
  "sample_team = \<lparr>t_ID = 1, t_Name = ''ones'', t_InviteCode = ''AAAA'', t_CaptainID = 1,
     t_Banned = False, t_Hidden = False, t_CreatedAt = 0, t_UpdatedAt = 0\<rparr>"

definition sample_db :: db where
  "sample_db = empty_db\<lparr>users := [sample_user], teams := [sample_team],
     team_members := [\<lparr>m_TeamID = 1, m_UserID = 1, m_JoinedAt = 0\<rparr>], events := [sample_event],
     challenges := [sample_challenge]\<rparr>"

definition sample_svc :: svc where
  "sample_svc = \<lparr>sv_checker = None, sv_scorer = None, sv_audit = True, sv_bus = True,
     sv_reg = defaultRegistry, sv_unmarshal = (\<lambda>_. Map.empty), sv_uni_lower = id,
     sv_parse_addr = Some, sv_uuid_string = (\<lambda>_. [])\<rparr>"

definition sample_input :: "string \<Rightarrow> Input" where
  "sample_input flag = \<lparr>in_UserID = 1, in_TeamID = 1, in_Slug = ''pwn-1'', in_Flag = flag, in_IP = None,
     in_TeamBanned = False, in_BypassWindow = False\<rparr>"

lemmas sample_defs = sample_challenge_def sample_user_def sample_team_def sample_db_def sample_svc_def
  sample_input_def sample_event_def empty_db_def

lemma submit_late: "Submit sample_svc (\<lambda>_. False) False 500 7 (sample_input ''flag{x}'') sample_db
    = (sample_db, [], Inl (Forbidden ''the event is not running''))"
  by (simp add: Submit_def submit_pre_def events_Get_def GetEvent_def phase_def sample_defs)

theorem rejected_submission_leaves_no_trace_witness:
  "sample_db = sample_db \<and> ([] :: effect list) = [] \<and>
   snd (snd (Submit sample_svc (\<lambda>_. False) False 500 7 (sample_input ''flag{x}'') sample_db))
     = Inl (Forbidden ''the event is not running'')"
  using rejected_submission_leaves_no_trace [OF submit_late] submit_late by simp

subsection \<open>Accepted submissions\<close>





abbreviation no_fault :: "sub_call \<Rightarrow> bool" where
  "no_fault \<equiv> (\<lambda>_. False)"











subsection \<open>Per-instance flags are not stored\<close>

lemma submit_insert_row:
  assumes "submit_insert sv fails now new_id ch locked inp correct owner d = Inr (d', oc)"
  shows "\<exists>row. d' = d\<lparr>submissions := submissions d @ [row]\<rparr> \<and> s_Correct row = correct \<and>
    s_ChallengeID row = c_ID ch \<and> s_TeamID row = in_TeamID inp \<and> s_ScoredValue row = None \<and>
    s_Provided row = (if c_FlagMode locked = ''per_instance'' \<and> (correct \<or> owner \<noteq> None)
                      then redactedFlag else in_Flag inp)"
  using assms
  by (auto simp: submit_insert_def Let_def dest!: CreateSubmission_Inr
      split: if_splits sum.splits sql_error.splits)

lemma submit_tx_Inr:
  assumes "submit_tx sv fails now new_id ch v inp d = Inr (d', oc)"
  shows "\<exists>locked correct owner. GetChallengeForUpdate d (c_ID ch) = Some locked \<and>
    submit_correct sv fails d ch locked v inp = Inr (correct, owner) \<and>
    submit_insert sv fails now new_id ch locked inp correct owner d = Inr (d', oc) \<and>
    \<not> HasTeamSolved d (c_ID ch) (in_TeamID inp) \<and>
    (\<forall>m. c_MaxAttempts locked = Some m \<longrightarrow> CountTeamAttempts d (c_ID ch) (in_TeamID inp) < m)"
proof -
  obtain locked where l: "GetChallengeForUpdate d (c_ID ch) = Some locked"
    using assms by (cases "GetChallengeForUpdate d (c_ID ch)") (auto simp: submit_tx_def split: if_splits)
  obtain correct owner where c: "submit_correct sv fails d ch locked v inp = Inr (correct, owner)"
    using assms l
    by (cases "submit_correct sv fails d ch locked v inp") (auto simp: submit_tx_def split: if_splits)
  show ?thesis
    using assms l c by (auto simp: submit_tx_def not_le split: if_splits option.splits)
qed

lemma find_pair_unique:
  assumes "distinct (map k xs)" "List.find P xs = Some x" "y \<in> set xs" "k y = k x"
  shows "y = x"
  using assms find_SomeD [OF assms(2)] by (auto simp: distinct_map inj_on_def)

lemma comparePerInstance_redacts:
  assumes "instances_ok d" "n \<in> set (instances d)" "i_ChallengeID n = cid" "i_TeamID n \<noteq> None"
    and "i_Flag n = Some (in_Flag inp)" "comparePerInstance sv fails d cid inp = Inr (correct, owner)"
  shows "correct \<or> owner \<noteq> None"
proof (rule ccontr)
  assume "\<not> (correct \<or> owner \<noteq> None)"
  then have no: "correct = False" "owner = None" by auto
  from assms(6) obtain inst where inst: "GetTeamInstance d cid (in_TeamID inp) = Some inst"
    by (auto simp: comparePerInstance_def split: if_splits option.splits)
  obtain x where x: "FindInstanceByFlag d cid (in_Flag inp) = Some x"
    using assms(2-5) find_Some_iff_ex [of _ "instances d"]
    by (fastforce simp: FindInstanceByFlag_def list_ex_iff)
  have px: "x \<in> set (instances d)" "i_ChallengeID x = cid" "i_Flag x = Some (in_Flag inp)" "i_TeamID x \<noteq> None"
    using find_SomeD [OF x [unfolded FindInstanceByFlag_def]] by auto
  have pinst: "i_ChallengeID inst = cid" "i_TeamID inst = Some (in_TeamID inp)"
    using find_SomeD [OF inst [unfolded GetTeamInstance_def]] by auto
  have "i_TeamID x \<noteq> Some (in_TeamID inp)"
  proof
    assume "i_TeamID x = Some (in_TeamID inp)"
    then have "x = inst"
      using find_pair_unique [of "\<lambda>n. (i_ChallengeID n, i_TeamID n)", OF _ inst [unfolded GetTeamInstance_def] px(1)]
        assms(1) px pinst by (simp add: instances_ok_def)
    with px(3) inst assms(6) no show False
      by (auto simp: comparePerInstance_def compareFlag_iff same_flag_def split: if_splits)
  qed
  with px(4) assms(6) inst x no show False
    by (auto simp: comparePerInstance_def Let_def split: if_splits option.splits)
qed

text \<open>A per-instance flag is never stored: the row a submission to a per-instance challenge adds to
  the log does not hold any team's instance flag of that challenge, whether the team submitted its own
  flag or another team's.\<close>

theorem instance_flags_never_stored:
  assumes "submit_tx sv fails now new_id ch None inp d = Inr (d', oc)" "instances_ok d"
    and "GetChallengeForUpdate d (c_ID ch) = Some locked" "c_FlagMode locked = ''per_instance''"
    and "n \<in> set (instances d)" "i_ChallengeID n = c_ID ch" "i_TeamID n \<noteq> None" "i_Flag n = Some f"
    and "f \<noteq> redactedFlag"
  shows "\<exists>row. submissions d' = submissions d @ [row] \<and> s_Provided row \<noteq> f"
proof -
  obtain correct owner where c: "submit_correct sv fails d ch locked None inp = Inr (correct, owner)"
    and ins: "submit_insert sv fails now new_id ch locked inp correct owner d = Inr (d', oc)"
    using submit_tx_Inr [OF assms(1)] assms(3) by auto
  obtain row where row: "submissions d' = submissions d @ [row]"
    "s_Provided row = (if correct \<or> owner \<noteq> None then redactedFlag else in_Flag inp)"
    using submit_insert_row [OF ins] assms(4) by auto
  have "comparePerInstance sv fails d (c_ID ch) inp = Inr (correct, owner)"
    using c assms(4) by (simp add: submit_correct_def)
  then have "in_Flag inp = f \<Longrightarrow> correct \<or> owner \<noteq> None"
    using comparePerInstance_redacts [OF assms(2,5,6,7)] assms(8) by blast
  with row assms(9) show ?thesis by auto
qed

definition per_instance_db :: db where
  "per_instance_db = sample_db\<lparr>
     challenges := [sample_challenge\<lparr>c_FlagMode := ''per_instance''\<rparr>],
     instances := [\<lparr>i_ID = 1, i_ChallengeID = 1, i_State = ''running'', i_ContainerID = None,
       i_HostPort = None, i_Error = None, i_StartedAt = None, i_LastHealthAt = None, i_CreatedAt = 0,
       i_UpdatedAt = 0, i_TeamID = Some 1, i_Flag = Some ''osctf{1}'', i_ExpiresAt = None,
       i_Network = None\<rparr>]\<rparr>"

lemma per_instance_submit:
  "\<exists>d' oc. submit_tx sample_svc no_fault 10 7 (sample_challenge\<lparr>c_FlagMode := ''per_instance''\<rparr>) None
     (sample_input ''osctf{1}'') per_instance_db = Inr (d', oc)"
  by (simp add: submit_tx_def GetChallengeForUpdate_def per_instance_db_def sample_defs HasTeamSolved_def
      CountTeamAttempts_def submit_correct_def comparePerInstance_def GetTeamInstance_def compareFlag_iff
      same_flag_def submit_insert_def CreateSubmission_def)

theorem instance_flags_never_stored_witness:
  "\<exists>d' oc row. submit_tx sample_svc no_fault 10 7 (sample_challenge\<lparr>c_FlagMode := ''per_instance''\<rparr>) None
      (sample_input ''osctf{1}'') per_instance_db = Inr (d', oc) \<and>
    submissions d' = submissions per_instance_db @ [row] \<and> s_Provided row \<noteq> ''osctf{1}''"
proof -
  obtain d' oc where tx: "submit_tx sample_svc no_fault 10 7
      (sample_challenge\<lparr>c_FlagMode := ''per_instance''\<rparr>) None (sample_input ''osctf{1}'') per_instance_db
      = Inr (d', oc)" using per_instance_submit by blast
  have "\<exists>row. submissions d' = submissions per_instance_db @ [row] \<and> s_Provided row \<noteq> ''osctf{1}''"
    by (rule instance_flags_never_stored [OF tx, where n = "hd (instances per_instance_db)"
          and locked = "sample_challenge\<lparr>c_FlagMode := ''per_instance''\<rparr>"])
       (simp_all add: per_instance_db_def sample_defs instances_ok_def List.map_filter_def
          instance_states_def chk_instances_host_port_range_def GetChallengeForUpdate_def redactedFlag_def)
  with tx show ?thesis by blast
qed

text \<open>The exception of C2 is reachable: an instance made while the challenge had one flag for all has no
  flag of its own, and after a switch of the challenge to per-instance flags the empty text solves it.\<close>

definition flagless_db :: db where
  "flagless_db = per_instance_db\<lparr>instances := map (\<lambda>n. n\<lparr>i_Flag := None\<rparr>) (instances per_instance_db)\<rparr>"

theorem empty_flag_solves_flagless_instance:
  "\<exists>d' fx r. Submit sample_svc no_fault False 10 7 (sample_input []) flagless_db = (d', fx, Inr r) \<and>
     rs_Correct r"
  by (simp add: Submit_def submit_pre_def pluginVerdict_def WithTx_def submit_tx_def submit_correct_def
      comparePerInstance_def compareFlag_iff same_flag_def submit_insert_def CreateSubmission_def
      submit_post_def sharing_effects_def IsBuiltinMode_def ModeStatic_def flagless_db_def per_instance_db_def sample_defs
      GetChallengeBySlug_def GetChallengeForUpdate_def HasTeamSolved_def CountTeamAttempts_def
      GetTeamInstance_def GetEvent_def events_Get_def phase_def Let_def)

subsection \<open>Interleavings\<close>

text \<open>One atomic write of the submission path on the log: a transaction, with a challenge row and a verdict
  computed earlier; the work after a commit, at any later time; one row of a repair pass. The inputs are
  arbitrary, so every interleaving of concurrent submissions, crashes after a commit, and repair passes
  is a sequence of these steps.\<close>

inductive log_step :: "svc \<Rightarrow> db \<Rightarrow> db \<Rightarrow> bool" for sv where
  tx: "submit_tx sv fails now new_id ch verdict inp d = Inr (d', oc) \<Longrightarrow> log_step sv d d'"
| post: "submit_post sv fails now ch inp oc d = (d', fx, r) \<Longrightarrow> log_step sv d d'"
| repair: "repair_row f rfails row (d, counts, filled) = (d', counts', filled') \<Longrightarrow> log_step sv d d'"

definition solves_in :: "db \<Rightarrow> uuid \<Rightarrow> uuid \<Rightarrow> Submission list" where
  "solves_in d cid tid = filter (\<lambda>s. s_ChallengeID s = cid \<and> s_TeamID s = tid \<and> s_Correct s) (submissions d)"

definition solved_once :: "db \<Rightarrow> bool" where
  "solved_once d \<longleftrightarrow> (\<forall>cid tid. length (solves_in d cid tid) \<le> 1)"

definition attempts_bounded :: "db \<Rightarrow> bool" where
  "attempts_bounded d \<longleftrightarrow>
     (\<forall>c \<in> set (challenges d). \<forall>m. c_MaxAttempts c = Some m \<longrightarrow> (\<forall>tid. CountTeamAttempts d (c_ID c) tid \<le> m))"

text \<open>Every step either appends one row, or rewrites the score of rows that have none.\<close>

definition rescored :: "db \<Rightarrow> db \<Rightarrow> bool" where
  "rescored d d' \<longleftrightarrow>
     d' = d \<or> (\<exists>i by v. d' = fst (RecordScore d i by v))"

lemma submit_post_rescored: "submit_post sv fails now ch inp oc d = (d', fx, r) \<Longrightarrow> rescored d d'"
  by (auto simp: submit_post_def recordPluginScore_def rescored_def Let_def split: if_splits prod.splits)

lemma repair_row_rescored:
  "repair_row f rfails row (d, counts, filled) = (d', counts', filled') \<Longrightarrow> rescored d d'"
  by (auto simp: repair_row_def rescored_def Let_def split: if_splits prod.splits) (metis fst_conv)+

lemma RecordScore_keeps:
  "length (filter (\<lambda>s. P (s_ChallengeID s) (s_TeamID s) (s_Correct s)) (submissions (fst (RecordScore d i by v))))
     = length (filter (\<lambda>s. P (s_ChallengeID s) (s_TeamID s) (s_Correct s)) (submissions d))"
  by (auto simp: RecordScore_def Let_def filter_map o_def intro!: arg_cong [where f = length] filter_cong)

lemma RecordScore_challenges [simp]: "challenges (fst (RecordScore d i by v)) = challenges d"
  by (simp add: RecordScore_def Let_def)

lemma rescored_solved_once: "rescored d d' \<Longrightarrow> solved_once d \<Longrightarrow> solved_once d'"
  using RecordScore_keeps [where P = "\<lambda>c t k. c = _ \<and> t = _ \<and> k"]
  by (auto simp: rescored_def solved_once_def solves_in_def)

lemma rescored_attempts: "rescored d d' \<Longrightarrow> attempts_bounded d \<Longrightarrow> attempts_bounded d'"
  using RecordScore_keeps [where P = "\<lambda>c t k. c = _ \<and> t = _"]
  by (auto simp: rescored_def attempts_bounded_def CountTeamAttempts_def)

lemma HasTeamSolved_iff: "HasTeamSolved d cid tid \<longleftrightarrow> solves_in d cid tid \<noteq> []"
  by (auto simp: HasTeamSolved_def solves_in_def list_ex_iff filter_empty_conv)

lemma tx_solved_once:
  assumes "submit_tx sv fails now new_id ch v inp d = Inr (d', oc)" "solved_once d"
  shows "solved_once d'"
proof -
  obtain locked correct owner where
    ins: "submit_insert sv fails now new_id ch locked inp correct owner d = Inr (d', oc)"
    and ns: "solves_in d (c_ID ch) (in_TeamID inp) = []"
    using submit_tx_Inr [OF assms(1)] by (auto simp: HasTeamSolved_iff)
  from submit_insert_row [OF ins] ns assms(2) show ?thesis
    by (auto simp: solved_once_def solves_in_def)
qed

lemma tx_attempts:
  assumes "submit_tx sv fails now new_id ch v inp d = Inr (d', oc)" "attempts_bounded d"
    and "distinct (map c_ID (challenges d))"
  shows "attempts_bounded d'"
proof -
  obtain locked correct owner where l: "GetChallengeForUpdate d (c_ID ch) = Some locked"
    and ins: "submit_insert sv fails now new_id ch locked inp correct owner d = Inr (d', oc)"
    and lt: "\<And>m. c_MaxAttempts locked = Some m \<Longrightarrow> CountTeamAttempts d (c_ID ch) (in_TeamID inp) < m"
    using submit_tx_Inr [OF assms(1)] by auto
  have "c = locked" if "c \<in> set (challenges d)" "c_ID c = c_ID ch" for c
    using find_pair_unique [OF assms(3) l [unfolded GetChallengeForUpdate_def] that(1)]
      find_SomeD [OF l [unfolded GetChallengeForUpdate_def]] that(2) by simp
  with submit_insert_row [OF ins] lt assms(2) show ?thesis
    by (fastforce simp: attempts_bounded_def CountTeamAttempts_def)
qed

lemma log_step_challenges: "log_step sv d d' \<Longrightarrow> challenges d' = challenges d"
  by (induction rule: log_step.induct)
     (auto dest!: submit_tx_Inr submit_insert_row submit_post_rescored repair_row_rescored
        simp: rescored_def)

lemma log_step_inv:
  assumes "log_step sv d d'" "solved_once d \<and> attempts_bounded d \<and> distinct (map c_ID (challenges d))"
  shows "solved_once d' \<and> attempts_bounded d' \<and> distinct (map c_ID (challenges d'))"
  using assms log_step_challenges [OF assms(1)]
  by (induction rule: log_step.induct)
     (auto intro: tx_solved_once tx_attempts rescored_solved_once rescored_attempts
        dest: submit_post_rescored repair_row_rescored)

lemma log_steps_inv:
  assumes "(log_step sv)\<^sup>*\<^sup>* d d'" "solved_once d \<and> attempts_bounded d \<and> distinct (map c_ID (challenges d))"
  shows "solved_once d' \<and> attempts_bounded d' \<and> distinct (map c_ID (challenges d'))"
  using assms by (induction rule: rtranclp_induct) (blast dest: log_step_inv)+

text \<open>C3. Whatever submissions, repairs and crashes interleave, no team ever has two correct rows for a
  challenge, and no team has more rows for a challenge than its attempt limit.\<close>

theorem one_solve_and_bounded_attempts:
  assumes "(log_step sv)\<^sup>*\<^sup>* d d'" "solved_once d" "attempts_bounded d" "distinct (map c_ID (challenges d))"
  shows "length (solves_in d' cid tid) \<le> 1 \<and>
    (\<forall>c \<in> set (challenges d'). c_ID c = cid \<longrightarrow>
       (\<forall>m. c_MaxAttempts c = Some m \<longrightarrow> CountTeamAttempts d' cid tid \<le> m))"
  using log_steps_inv [OF assms(1)] assms(2-4) unfolding solved_once_def attempts_bounded_def by blast

lemma sample_db_inv:
  "solved_once sample_db" "attempts_bounded sample_db" "distinct (map c_ID (challenges sample_db))"
  by (simp_all add: solved_once_def attempts_bounded_def solves_in_def CountTeamAttempts_def sample_defs)

definition solved_db :: db where
  "solved_db = sample_db\<lparr>submissions := [\<lparr>s_ID = 7, s_ChallengeID = 1, s_TeamID = 1, s_UserID = 1,
     s_Provided = ''flag{x}'', s_Correct = True, s_Ip = None, s_CreatedAt = 10, s_ScoredValue = None,
     s_ScoredBy = None\<rparr>]\<rparr>"

lemma solved_db_step: "log_step sample_svc sample_db solved_db"
proof (rule log_step.tx)
  show "submit_tx sample_svc no_fault 10 7 sample_challenge None (sample_input ''flag{x}'') sample_db =
    Inr (solved_db, \<lparr>oc_correct = True, oc_solveID = 7, oc_sharingOwner = None\<rparr>)"
    by (simp add: submit_tx_def GetChallengeForUpdate_def solved_db_def sample_defs HasTeamSolved_def
      CountTeamAttempts_def submit_correct_def compareFlag_iff same_flag_def submit_insert_def
      CreateSubmission_def parseIP_def)
qed

theorem one_solve_and_bounded_attempts_witness:
  "length (solves_in solved_db 1 1) \<le> 1 \<and> CountTeamAttempts solved_db 1 1 \<le> 3"
proof -
  note * = one_solve_and_bounded_attempts
    [OF r_into_rtranclp [of "log_step sample_svc", OF solved_db_step] sample_db_inv, of 1 1]
  have "sample_challenge \<in> set (challenges solved_db)" "c_ID sample_challenge = 1"
    "c_MaxAttempts sample_challenge = Some 3"
    by (simp_all add: solved_db_def sample_defs)
  then show ?thesis using * by blast
qed

subsection \<open>Recorded scores\<close>

lemma RecordScore_scored: "s \<in> set (submissions d) \<Longrightarrow> s_ScoredValue s \<noteq> None \<Longrightarrow>
   s \<in> set (submissions (fst (RecordScore d i by v)))"
  by (force simp: RecordScore_def Let_def image_iff)

lemma log_step_scored:
  assumes "log_step sv d d'" "s \<in> set (submissions d)" "s_ScoredValue s \<noteq> None"
  shows "s \<in> set (submissions d')"
  using assms
proof (induction rule: log_step.induct)
  case (tx fails now new_id ch verdict inp d d' oc)
  then show ?case by (auto dest!: submit_tx_Inr submit_insert_row)
qed (auto dest!: submit_post_rescored repair_row_rescored simp: rescored_def RecordScore_scored)

text \<open>A recorded score is final: once a solve has a recorded value, no later submission, scoring call
  or repair pass, however it interleaves, changes that row.\<close>

theorem recorded_score_is_final:
  assumes "(log_step sv)\<^sup>*\<^sup>* d d'" "s \<in> set (submissions d)" "s_ScoredValue s = Some v"
  shows "s \<in> set (submissions d')"
  using assms by (induction rule: rtranclp_induct) (auto dest: log_step_scored)

definition scored_solve :: Submission where
  "scored_solve = \<lparr>s_ID = 8, s_ChallengeID = 2, s_TeamID = 1, s_UserID = 1, s_Provided = [],
     s_Correct = True, s_Ip = None, s_CreatedAt = 5, s_ScoredValue = Some 40, s_ScoredBy = Some ''decay''\<rparr>"

theorem recorded_score_is_final_witness:
  "scored_solve \<in> set (submissions (fst (RecordScore (sample_db\<lparr>submissions := [scored_solve]\<rparr>) 8 ''x'' (Some 1))))"
proof (rule recorded_score_is_final)
  let ?d = "sample_db\<lparr>submissions := [scored_solve]\<rparr>"
  let ?row = "\<lparr>ns_ID = 8, ns_ChallengeID = 2, ns_Scoring = ''x'', ns_PointsInitial = 1, ns_PointsMin = None,
    ns_Decay = None\<rparr>"
  have "int32 1 = 1" by (simp add: int32_def)
  then have "repair_row (\<lambda>_ _ _. (1, ''x'', True)) (\<lambda>_. False) ?row (?d, Map.empty, 0) =
    (fst (RecordScore ?d 8 ''x'' (Some 1)), [2 \<mapsto> CountChallengeSolves ?d 2], 0)"
    by (simp add: repair_row_def RecordScore_def scored_solve_def Let_def)
  then show "(log_step sample_svc)\<^sup>*\<^sup>* ?d (fst (RecordScore ?d 8 ''x'' (Some 1)))"
    by (intro r_into_rtranclp log_step.repair)
  show "scored_solve \<in> set (submissions ?d)" by simp
  show "s_ScoredValue scored_solve = Some 40" by (simp add: scored_solve_def)
qed

text \<open>A row that a pass can still record, and a row that has a record.\<close>

definition recordable :: "db \<Rightarrow> uuid \<Rightarrow> bool" where
  "recordable d i \<longleftrightarrow> (\<exists>s \<in> set (submissions d). s_ID s = i \<and> s_Correct s \<and>
     (s_ScoredValue s = None \<or> s_ScoredBy s \<noteq> None))"

definition has_record :: "db \<Rightarrow> uuid \<Rightarrow> bool" where
  "has_record d i \<longleftrightarrow> (\<exists>s \<in> set (submissions d). s_ID s = i \<and> s_ScoredBy s \<noteq> None)"

definition rescore :: "uuid \<Rightarrow> string \<Rightarrow> int option \<Rightarrow> Submission \<Rightarrow> Submission" where
  "rescore j by v s = (if s_ID s = j \<and> s_Correct s \<and> s_ScoredValue s = None
     then s\<lparr>s_ScoredValue := v, s_ScoredBy := Some by\<rparr> else s)"

lemma submissions_RecordScore: "submissions (fst (RecordScore d j by v)) = map (rescore j by v) (submissions d)"
  by (simp add: RecordScore_def Let_def rescore_def [abs_def])

lemma bex_map: "s \<in> set xs \<Longrightarrow> P (g s) \<Longrightarrow> \<exists>y \<in> set (map g xs). P y"
  by auto

lemma RecordScore_recordable: "recordable d i \<Longrightarrow> recordable (fst (RecordScore d j by v)) i"
  unfolding recordable_def submissions_RecordScore
  by (elim bexE, rule bex_map) (auto simp: rescore_def)

lemma RecordScore_has_record: "has_record d i \<Longrightarrow> has_record (fst (RecordScore d j by v)) i"
  unfolding has_record_def submissions_RecordScore
  by (elim bexE, rule bex_map) (auto simp: rescore_def)

lemma RecordScore_records: "recordable d i \<Longrightarrow> has_record (fst (RecordScore d i by v)) i"
  unfolding recordable_def has_record_def submissions_RecordScore
  by (elim bexE, rule bex_map) (auto simp: rescore_def)

lemma repair_row_ok:
  "\<exists>by v. fst (repair_row f (\<lambda>_. False) row (d, counts, n)) = fst (RecordScore d (ns_ID row) by v)"
  by (auto simp: repair_row_def Let_def split: prod.split) (metis fst_conv)+

lemma fold_repair_records:
  assumes "row \<in> set rows" "recordable d (ns_ID row)"
  shows "has_record (fst (fold (repair_row f (\<lambda>_. False)) rows (d, counts, n))) (ns_ID row)"
  using assms
proof (induction rows arbitrary: d counts n)
  case (Cons r rows)
  obtain d' counts' n' where r: "repair_row f (\<lambda>_. False) r (d, counts, n) = (d', counts', n')"
    by (metis prod.exhaust)
  then obtain by' v where d': "d' = fst (RecordScore d (ns_ID r) by' v)"
    using repair_row_ok [of f r d counts n] by auto
  have keep: "has_record d0 i \<Longrightarrow> has_record (fst (fold (repair_row f (\<lambda>_. False)) rs (d0, c0, n0))) i"
    for rs d0 c0 n0 i
  proof (induction rs arbitrary: d0 c0 n0)
    case (Cons x rs)
    obtain d1 c1 n1 where x: "repair_row f (\<lambda>_. False) x (d0, c0, n0) = (d1, c1, n1)"
      by (metis prod.exhaust)
    then have "has_record d1 i"
      using repair_row_ok [of f x d0 c0 n0] Cons.prems RecordScore_has_record by auto
    with x Cons.IH show ?case by simp
  qed simp
  show ?case
  proof (cases "row = r")
    case True
    then have "has_record d' (ns_ID row)" using d' Cons.prems(2) RecordScore_records by simp
    then show ?thesis using r keep by simp
  next
    case False
    then show ?thesis using Cons.IH [of d'] Cons.prems r d' RecordScore_recordable by simp
  qed
qed simp

lemma ListSolvesNeedingScore_recordable:
  "row \<in> set (ListSolvesNeedingScore d k) \<Longrightarrow> recordable d (ns_ID row)"
  by (auto simp: ListSolvesNeedingScore_def List.map_filter_def needing_row_def needs_score_def
      recordable_def dest!: in_set_takeD)

text \<open>A repair pass leaves no listed solve without a record: with a scorer and the statements
  answering, every solve the pass selected has its engine recorded afterwards, a value or the pending
  mark.\<close>

theorem repair_pass_records_every_row:
  assumes "RepairOnce (Some f) gauge_fails False (\<lambda>_. False) d = (d', gauges, r)"
    and "row \<in> set (ListSolvesNeedingScore d repairBatch)"
  shows "has_record d' (ns_ID row)"
  using assms fold_repair_records [OF assms(2) ListSolvesNeedingScore_recordable [OF assms(2)], of f Map.empty 0]
  by (auto simp: RepairOnce_def Let_def split: prod.splits)

definition unscored_db :: db where
  "unscored_db = solved_db\<lparr>challenges := [sample_challenge\<lparr>c_Scoring := ''first-blood''\<rparr>]\<rparr>"

lemma unscored_listed: "\<exists>row \<in> set (ListSolvesNeedingScore unscored_db repairBatch). ns_ID row = 7"
  by (simp add: ListSolvesNeedingScore_def unscored_db_def solved_db_def sample_defs needs_score_def
      GetChallengeByID_def List.map_filter_def needing_row_def repairBatch_def)

theorem repair_pass_records_every_row_witness:
  "has_record (fst (RepairOnce (Some (\<lambda>_ _ _. (40, ''first-blood'', True))) False False (\<lambda>_. False) unscored_db)) 7"
proof -
  obtain row where "row \<in> set (ListSolvesNeedingScore unscored_db repairBatch)" "ns_ID row = 7"
    using unscored_listed by blast
  then show ?thesis
    using repair_pass_records_every_row [of "\<lambda>_ _ _. (40, ''first-blood'', True)" False unscored_db _ _ _ row]
    by (metis prod.exhaust fst_conv)
qed

end
