(* ===== verification/Scoreboard_Concurrency.thy ===== *)
theory Scoreboard_Concurrency
  imports Scoreboard_Consistency Submissions_Log
begin

text \<open>
  Concurrent recomputes, repairs and solves. \<^verbatim>\<open>compute\<close> runs outside the service's mutex, so between
  its two queries and the guarded write other requests run. A system state holds the database, the
  service, and the recomputes in flight at each of those points; a step is one atomic action of one
  request: a submission committing, the part of a submission after its commit (which records a plugin's
  score), one row of a pass of the score repair, a compute reading the teams, a compute reading the
  solves, a guarded (or forced) write under the mutex, or a write after a cache miss, which has no guard.
  Teams, users, challenges and the event stay as they are.
\<close>

record sys =
  sy_db :: db
  sy_svc :: service
  sy_reading :: "db list"
  sy_ready :: "(bool \<times> Snapshot \<times> int) list"
  sy_missing :: nat
  sy_missed :: "Snapshot list"

definition boot :: "db \<Rightarrow> sys" where
  "boot d = \<lparr>sy_db = d, sy_svc = New, sy_reading = [], sy_ready = [], sy_missing = 0, sy_missed = []\<rparr>"

inductive sb_step :: "Registry \<Rightarrow> sys \<Rightarrow> sys \<Rightarrow> bool" for reg where
  solve: "CreateSubmission (sy_db s) now i cid tid uid provided correct ip = Inr d' \<Longrightarrow>
    sb_step reg s (s\<lparr>sy_db := d'\<rparr>)"
| after_commit: "submit_post sv fails now ch inp oc (sy_db s) = (d', fx, res) \<Longrightarrow>
    sb_step reg s (s\<lparr>sy_db := d'\<rparr>)"
| repair_pass: "repair_row f rfails row (sy_db s, counts, filled) = (d', counts', filled') \<Longrightarrow>
    sb_step reg s (s\<lparr>sy_db := d'\<rparr>)"
| read_teams: "sb_step reg s (s\<lparr>sy_reading := sy_db s # sy_reading s\<rparr>)"
| read_solves: "d0 \<in> set (sy_reading s) \<Longrightarrow> compute (\<lambda>_. False) reg d0 (sy_db s) now = Inr (snap, n) \<Longrightarrow>
    sb_step reg s (s\<lparr>sy_reading := remove1 d0 (sy_reading s),
      sy_ready := (force, snap\<lparr>sn_Frozen := fz\<rparr>, n) # sy_ready s\<rparr>)"
| locked_write: "(force, snap, n) \<in> set (sy_ready s) \<Longrightarrow>
    sb_step reg s (s\<lparr>sy_svc := fst (publish w force snap n (sy_svc s)),
      sy_ready := remove1 (force, snap, n) (sy_ready s)\<rparr>)"
| miss: "redis (sy_svc s) keyCurrent = None \<Longrightarrow> sb_step reg s (s\<lparr>sy_missing := sy_missing s + 1\<rparr>)"
| read_solves_miss: "0 < sy_missing s \<Longrightarrow> d0 \<in> set (sy_reading s) \<Longrightarrow>
    compute (\<lambda>_. False) reg d0 (sy_db s) now = Inr (snap, n) \<Longrightarrow>
    sb_step reg s (s\<lparr>sy_reading := remove1 d0 (sy_reading s), sy_missing := sy_missing s - 1,
      sy_missed := snap # sy_missed s\<rparr>)"
| miss_write: "snap \<in> set (sy_missed s) \<Longrightarrow>
    sb_step reg s (s\<lparr>sy_svc := fst (svc_write w keyCurrent snap (sy_svc s)),
      sy_missed := remove1 snap (sy_missed s)\<rparr>)"

subsection \<open>Boards that miss recorded scores\<close>

text \<open>Two lists of solves, row by row the same but for recorded values that the first still misses.\<close>

definition unrecorded :: "ListValidSolvesRow \<Rightarrow> ListValidSolvesRow \<Rightarrow> bool" where
  "unrecorded a b \<longleftrightarrow> a = b \<or> a = b\<lparr>vs_ScoredValue := None\<rparr>"

definition lagging :: "ListValidSolvesRow list \<Rightarrow> ListValidSolvesRow list \<Rightarrow> bool" where
  "lagging old new \<longleftrightarrow> list_all2 unrecorded old new"

lemma unrecorded_refl [simp]: "unrecorded a a"
  by (simp add: unrecorded_def)

lemma unrecorded_trans: "unrecorded a b \<Longrightarrow> unrecorded b c \<Longrightarrow> unrecorded a c"
  by (auto simp: unrecorded_def)

lemma lagging_refl [simp]: "lagging rows rows"
  by (simp add: lagging_def list.rel_refl)

lemma lagging_trans: "lagging xs ys \<Longrightarrow> lagging ys zs \<Longrightarrow> lagging xs zs"
  unfolding lagging_def using list_all2_trans [of unrecorded unrecorded unrecorded] unrecorded_trans by blast

lemma insort_rel:
  assumes "\<And>a b. R a b \<Longrightarrow> k a = k b"
  shows "R x y \<Longrightarrow> list_all2 R xs ys \<Longrightarrow> list_all2 R (insort_key k x xs) (insort_key k y ys)"
  by (induction xs arbitrary: ys) (auto simp: list_all2_Cons1, (metis assms)+)

lemma sort_rel:
  assumes "\<And>a b. R a b \<Longrightarrow> k a = k b" "list_all2 R xs ys"
  shows "list_all2 R (sort_key k xs) (sort_key k ys)"
  using assms(2) by (induction rule: list_all2_induct) (auto simp: insort_rel [OF assms(1)])

lemma valid_rescore:
  "rel_option unrecorded (valid_solve_row d s) (valid_solve_row d (rescore i by v s))"
  by (auto simp: valid_solve_row_def rescore_def unrecorded_def split: option.splits if_splits)

lemma map_filter_rel:
  assumes "\<And>x. x \<in> set xs \<Longrightarrow> rel_option R (f x) (g x)"
  shows "list_all2 R (List.map_filter f xs) (List.map_filter g xs)"
  using assms
proof (induction xs)
  case (Cons x xs)
  then show ?case using Cons.prems [of x]
    by (cases "f x"; cases "g x") (auto simp: List.map_filter_def)
qed (simp add: List.map_filter_def)

lemma RecordScore_lagging:
  "lagging (ListValidSolves d) (ListValidSolves (fst (RecordScore d i by v)))"
proof -
  have "fst (RecordScore d i by v) = d\<lparr>submissions := map (rescore i by v) (submissions d)\<rparr>"
    by (simp add: RecordScore_def Let_def rescore_def [abs_def])
  moreover have "valid_solve_row (d\<lparr>submissions := x\<rparr>) = valid_solve_row d" for x
    by (simp add: valid_solve_row_def fun_eq_iff)
  moreover have "List.map_filter g (map h xs) = List.map_filter (\<lambda>x. g (h x)) xs"
    for g :: "Submission \<Rightarrow> ListValidSolvesRow option" and h :: "Submission \<Rightarrow> Submission" and xs
    by (simp add: List.map_filter_def filter_map o_def)
  ultimately show ?thesis
    unfolding lagging_def ListValidSolves_def
    by (auto intro!: sort_rel map_filter_rel valid_rescore simp: unrecorded_def)
qed

lemma rescored_lagging: "rescored d d' \<Longrightarrow> lagging (ListValidSolves d) (ListValidSolves d')"
  using RecordScore_lagging by (auto simp: rescored_def)

lemma rescored_teams: "rescored d d' \<Longrightarrow> ListScoreboardTeams d' = ListScoreboardTeams d"
  by (auto simp: rescored_def RecordScore_def Let_def ListScoreboardTeams_def)

lemma lagging_length: "lagging xs ys \<Longrightarrow> length xs = length ys"
  by (simp add: lagging_def list_all2_lengthD)

lemma count_step_unrecorded: "unrecorded a b \<Longrightarrow> count_step a = count_step b"
  by (auto simp: unrecorded_def count_step_def row_params_def fun_eq_iff Let_def split: option.splits)

lemma agg_step_unrecorded:
  "unrecorded a b \<Longrightarrow> IsBuiltinMode (vs_Scoring b) \<or> vs_ScoredValue b = None \<Longrightarrow> agg_step val a = agg_step val b"
  by (auto simp: unrecorded_def agg_step_def agg_add_def row_points_def fun_eq_iff)

lemma fold_rel:
  assumes "list_all2 R xs ys" "\<And>a b. b \<in> set ys \<Longrightarrow> R a b \<Longrightarrow> f a = f b"
  shows "fold f xs acc = fold f ys acc"
  using assms by (induction arbitrary: acc rule: list_all2_induct) (simp_all, metis)

lemma standings_lagging:
  assumes "lagging old new" "\<forall>r \<in> set new. IsBuiltinMode (vs_Scoring r) \<or> vs_ScoredValue r = None"
  shows "standings reg ts old = standings reg ts new"
proof -
  have "fold count_step old acc = fold count_step new acc" for acc
    by (rule fold_rel [OF assms(1) [unfolded lagging_def]]) (rule count_step_unrecorded)
  moreover have "fold (agg_step val) old acc = fold (agg_step val) new acc" for val acc
    by (rule fold_rel [OF assms(1) [unfolded lagging_def]]) (use assms(2) agg_step_unrecorded in blast)
  ultimately show ?thesis by (simp add: standings_def)
qed

subsection \<open>Coherence survives every interleaving\<close>

text \<open>A board reflects at most the log; when the row counts agree it is the board of the log's solves,
  but for scores recorded since.\<close>

definition matches :: "Registry \<Rightarrow> db \<Rightarrow> Snapshot \<Rightarrow> bool" where
  "matches reg d snap \<longleftrightarrow>
     sn_SolveCount snap \<le> CountValidSolves d \<and>
     (sn_SolveCount snap = CountValidSolves d \<longrightarrow>
        (\<exists>rows. lagging rows (ListValidSolves d) \<and> sn_Standings snap = standings reg (ListScoreboardTeams d) rows))"

definition sys_ok :: "Registry \<Rightarrow> sys \<Rightarrow> bool" where
  "sys_ok reg s \<longleftrightarrow>
     (\<forall>d0 \<in> set (sy_reading s). ListScoreboardTeams d0 = ListScoreboardTeams (sy_db s)) \<and>
     (\<forall>(force, snap, n) \<in> set (sy_ready s). matches reg (sy_db s) snap \<and> n = sn_SolveCount snap) \<and>
     (\<forall>snap \<in> set (sy_missed s). matches reg (sy_db s) snap) \<and>
     (\<forall>snap. redis (sy_svc s) keyCurrent = Some snap \<longrightarrow> matches reg (sy_db s) snap)"

lemma CreateSubmission_log:
  assumes "CreateSubmission d now i cid tid uid provided correct ip = Inr d'"
  shows "ListScoreboardTeams d' = ListScoreboardTeams d"
    and "CountValidSolves d' > CountValidSolves d \<or> ListValidSolves d' = ListValidSolves d"
proof -
  let ?row = "\<lparr>s_ID = i, s_ChallengeID = cid, s_TeamID = tid, s_UserID = uid, s_Provided = provided,
    s_Correct = correct, s_Ip = ip, s_CreatedAt = now, s_ScoredValue = None, s_ScoredBy = None\<rparr>"
  have d': "d' = d\<lparr>submissions := submissions d @ [?row]\<rparr>"
    using CreateSubmission_Inr [OF assms] by blast
  then show "ListScoreboardTeams d' = ListScoreboardTeams d" by (simp add: ListScoreboardTeams_def)
  show "CountValidSolves d' > CountValidSolves d \<or> ListValidSolves d' = ListValidSolves d"
  proof (cases "valid_solve_row d ?row")
    case None
    then show ?thesis by (simp add: d' ListValidSolves_def List.map_filter_def)
  next
    case Some
    then show ?thesis by (simp add: d' CountValidSolves_eq ListValidSolves_def List.map_filter_def)
  qed
qed

lemma matches_solve:
  assumes "CreateSubmission d now i cid tid uid provided correct ip = Inr d'" "matches reg d snap"
  shows "matches reg d' snap"
  using CreateSubmission_log [OF assms(1)] assms(2)
  by (auto simp: matches_def CountValidSolves_eq)

lemma matches_rescored:
  assumes "rescored d d'" "matches reg d snap"
  shows "matches reg d' snap"
  using assms(2) rescored_teams [OF assms(1)] rescored_lagging [OF assms(1)]
    lagging_length [OF rescored_lagging [OF assms(1)]] lagging_trans
  unfolding matches_def CountValidSolves_eq by metis

lemma compute_matches:
  assumes "compute (\<lambda>_. False) reg d0 d now = Inr (snap, n)"
    and "ListScoreboardTeams d0 = ListScoreboardTeams d"
  shows "matches reg d snap \<and> n = sn_SolveCount snap"
  using assms by (auto simp: compute_def matches_def CountValidSolves_eq Let_def) (metis lagging_refl)

lemma matches_frozen [simp]: "matches reg d (snap\<lparr>sn_Frozen := fz\<rparr>) = matches reg d snap"
  by (simp add: matches_def)

lemma svc_write_current:
  "redis (fst (svc_write w keyCurrent snap st)) keyCurrent \<in> {redis st keyCurrent, Some snap}"
  by (simp add: svc_write_def)

lemma publish_current:
  "redis (fst (publish w force snap n st)) keyCurrent \<in> {redis st keyCurrent, Some snap}"
  using svc_write_current [of w snap st] by (auto simp: publish_def split: prod.split sum.split)

lemma in_set_remove1D: "x \<in> set (remove1 y xs) \<Longrightarrow> x \<in> set xs"
  by (meson set_remove1_subset subsetD)

lemma sys_ok_rescored: "rescored (sy_db s) d' \<Longrightarrow> sys_ok reg s \<Longrightarrow> sys_ok reg (s\<lparr>sy_db := d'\<rparr>)"
  using matches_rescored rescored_teams unfolding sys_ok_def by (simp split: prod.splits)

lemma sys_ok_step: "sb_step reg s s' \<Longrightarrow> sys_ok reg s \<Longrightarrow> sys_ok reg s'"
proof (induction rule: sb_step.induct)
  case (solve s now i cid tid uid provided correct ip d')
  then show ?case
    using matches_solve [OF solve(1)] CreateSubmission_log(1) [OF solve(1)]
    unfolding sys_ok_def by (simp split: prod.splits)
next
  case (read_solves d0 s now snap n force fz)
  then show ?case
    using compute_matches [OF read_solves(2)] by (auto simp: sys_ok_def dest: in_set_remove1D)
next
  case (locked_write force snap n s w)
  then show ?case
    using publish_current [of w force snap n "sy_svc s"] unfolding sys_ok_def
    by (auto dest!: in_set_remove1D split: prod.splits)
next
  case (read_solves_miss s d0 now snap n)
  then show ?case
    using compute_matches [OF read_solves_miss(3)] by (auto simp: sys_ok_def dest: in_set_remove1D)
next
  case (miss_write snap s w)
  then show ?case
    using svc_write_current [of w snap "sy_svc s"] unfolding sys_ok_def
    by (auto dest!: in_set_remove1D split: prod.splits)
next
  case after_commit
  then show ?case by (blast intro: sys_ok_rescored submit_post_rescored)
next
  case repair_pass
  then show ?case by (blast intro: sys_ok_rescored repair_row_rescored)
qed (auto simp: sys_ok_def)

lemma sys_ok_steps: "(sb_step reg)\<^sup>*\<^sup>* s s' \<Longrightarrow> sys_ok reg s \<Longrightarrow> sys_ok reg s'"
  by (induction rule: rtranclp_induct) (blast intro: sys_ok_step)+

lemma sys_ok_boot [simp]: "sys_ok reg (boot d)"
  by (simp add: sys_ok_def boot_def New_def)

lemma live_read_reachable:
  assumes "(sb_step reg)\<^sup>*\<^sup>* (boot d) s" "pg_ok w" "quiet reg (sy_db s) w" "\<not> frozen (sub w InFrozen)"
    and "redis (sy_svc s) keyCurrent \<noteq> None" "\<not> breakReadRepair (sy_svc s)"
  shows "\<exists>st' snap rows. served w adm True (sy_svc s) = (st', Inr snap) \<and>
    sn_SolveCount snap = CountValidSolves (sy_db s) \<and> lagging rows (ListValidSolves (sy_db s)) \<and>
    sn_Standings snap = standings reg (ListScoreboardTeams (sy_db s)) rows"
proof -
  obtain cached where c: "redis (sy_svc s) keyCurrent = Some cached" using assms(5) by blast
  have "sys_ok reg s" by (rule sys_ok_steps [OF assms(1) sys_ok_boot])
  with c have m: "matches reg (sy_db s) cached" unfolding sys_ok_def by blast
  then have le: "sn_SolveCount cached \<le> CountValidSolves (sy_db s)" by (simp add: matches_def)
  obtain st' snap where r: "served_live w False adm True (sy_svc s) = (st', Inr snap)"
    "sn_SolveCount snap = CountValidSolves (sy_db s)"
    "sn_Standings snap = board_of reg (sy_db s) \<or>
     sn_SolveCount cached = CountValidSolves (sy_db s) \<and> sn_Standings snap = sn_Standings cached"
    using served_live_choice [OF assms(2,3) _ assms(6) c le, of False adm] by auto
  have "served w adm True (sy_svc s) = served_live w False adm True (sy_svc s)"
    using assms(4) by (simp add: served_def)
  with r m show ?thesis
    unfolding matches_def board_of_def by (metis lagging_refl)
qed

text \<open>C4. Under concurrency a live read misses no solve: after any interleaving of committing
  submissions, score records after a commit, rows of the repair worker, recomputes, forced recomputes,
  read repairs and cache-miss writes, with any Redis write failing, a live read (Postgres answering and
  the database still while it runs) returns the standings of exactly the solves in the log. A score that
  a plugin's solve got after the board was computed may be missing from them, which the code does not
  repair; when no valid solve carries such a score, the standings are those of the log as it then is.\<close>

theorem concurrent_live_read:
  assumes "(sb_step reg)\<^sup>*\<^sup>* (boot d) s" "pg_ok w" "quiet reg (sy_db s) w" "\<not> frozen (sub w InFrozen)"
    and "redis (sy_svc s) keyCurrent \<noteq> None" "\<not> breakReadRepair (sy_svc s)"
  shows "\<exists>st' snap rows. Current w adm (sy_svc s) = (st', Inr snap) \<and>
    sn_SolveCount snap = CountValidSolves (sy_db s) \<and> lagging rows (ListValidSolves (sy_db s)) \<and>
    sn_Standings snap = standings reg (ListScoreboardTeams (sy_db s)) rows \<and>
    ((\<forall>r \<in> set (ListValidSolves (sy_db s)). IsBuiltinMode (vs_Scoring r) \<or> vs_ScoredValue r = None) \<longrightarrow>
       sn_Standings snap = board_of reg (sy_db s))"
proof -
  obtain st' snap rows where r: "served w adm True (sy_svc s) = (st', Inr snap)"
    "sn_SolveCount snap = CountValidSolves (sy_db s)" and l: "lagging rows (ListValidSolves (sy_db s))"
    "sn_Standings snap = standings reg (ListScoreboardTeams (sy_db s)) rows"
    using live_read_reachable [OF assms] by blast
  with standings_lagging [OF l(1), of reg "ListScoreboardTeams (sy_db s)"] show ?thesis
    unfolding Current_def board_of_def by (intro exI conjI impI) auto
qed

definition published :: sys where
  "published = (boot empty_db)\<lparr>sy_svc := New\<lparr>redis := (redis New)(keyCurrent := Some empty_board)\<rparr>\<rparr>"

lemma compute_empty: "compute (\<lambda>_. False) reg empty_db empty_db 0 = Inr (empty_board, 0)"
  using board_of_empty [of reg] CountValidSolves_eq [of empty_db]
  by (simp add: compute_def Let_def board_of_def empty_board_def)

lemma published_reachable: "(sb_step reg)\<^sup>*\<^sup>* (boot empty_db) published"
proof -
  let ?s1 = "(boot empty_db)\<lparr>sy_reading := [empty_db]\<rparr>"
  let ?s2 = "(boot empty_db)\<lparr>sy_ready := [(False, empty_board, 0)]\<rparr>"
  have 1: "sb_step reg (boot empty_db) ?s1"
    using sb_step.read_teams [of reg "boot empty_db"] by (simp add: boot_def)
  have 2: "sb_step reg ?s1 ?s2"
    using sb_step.read_solves [of empty_db ?s1 reg 0 empty_board 0 False False]
    by (simp add: compute_empty boot_def empty_board_def)
  have 3: "sb_step reg ?s2 published"
    using sb_step.locked_write [of False empty_board 0 ?s2 reg "still_world reg empty_db 0"]
    by (simp add: published_def boot_def publish_def svc_write_def New_def)
  show ?thesis
    by (rule rtranclp.rtrancl_into_rtrancl [of "sb_step reg", OF _ 3],
        rule rtranclp.rtrancl_into_rtrancl [of "sb_step reg", OF _ 2],
        rule r_into_rtranclp [of "sb_step reg", OF 1])
qed

theorem concurrent_live_read_witness:
  "\<exists>st' snap rows. Current (still_world defaultRegistry empty_db 5) False (sy_svc published) = (st', Inr snap) \<and>
    sn_SolveCount snap = CountValidSolves (sy_db published) \<and> lagging rows (ListValidSolves (sy_db published)) \<and>
    sn_Standings snap = standings defaultRegistry (ListScoreboardTeams (sy_db published)) rows \<and>
    ((\<forall>r \<in> set (ListValidSolves (sy_db published)). IsBuiltinMode (vs_Scoring r) \<or> vs_ScoredValue r = None) \<longrightarrow>
       sn_Standings snap = board_of defaultRegistry (sy_db published))"
  by (rule concurrent_live_read [OF published_reachable])
     (simp_all add: published_def boot_def New_def)

subsection \<open>The write guard\<close>

text \<open>The service once the board has been published: no forced write is in flight, no cache miss has
  happened, and the guard is the row count of the cached board.\<close>

definition guarded :: "sys \<Rightarrow> bool" where
  "guarded s \<longleftrightarrow>
     (\<forall>(force, snap, n) \<in> set (sy_ready s). \<not> force \<and> n = sn_SolveCount snap) \<and>
     sy_missing s = 0 \<and> sy_missed s = [] \<and>
     (\<exists>b. redis (sy_svc s) keyCurrent = Some b \<and> sn_SolveCount b = lastCount (sy_svc s))"

definition guarded_step :: "Registry \<Rightarrow> sys \<Rightarrow> sys \<Rightarrow> bool" where
  "guarded_step reg s s' \<longleftrightarrow> sb_step reg s s' \<and> (\<forall>p \<in> set (sy_ready s'). \<not> fst p)"

lemma publish_guarded:
  assumes "redis st keyCurrent = Some b" "sn_SolveCount b = lastCount st" "n = sn_SolveCount snap"
  shows "lastCount st \<le> lastCount (fst (publish w False snap n st)) \<and>
    (\<exists>b'. redis (fst (publish w False snap n st)) keyCurrent = Some b' \<and>
      sn_SolveCount b' = lastCount (fst (publish w False snap n st)))"
  using assms by (auto simp: publish_def svc_write_def)

lemma guarded_step:
  assumes "guarded_step reg s s'" "guarded s"
  shows "guarded s' \<and> lastCount (sy_svc s) \<le> lastCount (sy_svc s')"
proof -
  have nf: "\<forall>p \<in> set (sy_ready s'). \<not> fst p" and st: "sb_step reg s s'"
    using assms(1) by (auto simp: guarded_step_def)
  from st nf assms(2) show ?thesis
  proof (induction rule: sb_step.induct)
    case (read_solves d0 s now snap n force fz)
    have "n = sn_SolveCount snap" using read_solves(2) by (auto simp: compute_def Let_def)
    then show ?case using read_solves(3,4) by (auto simp: guarded_def)
  next
    case (locked_write force snap n s w)
    obtain b where b: "redis (sy_svc s) keyCurrent = Some b" "sn_SolveCount b = lastCount (sy_svc s)"
      using locked_write(3) by (auto simp: guarded_def)
    have "\<not> force" "n = sn_SolveCount snap" using locked_write(1,3) by (auto simp: guarded_def)
    then show ?case
      using locked_write(3) publish_guarded [OF b, of n snap w]
      by (auto simp: guarded_def dest: in_set_remove1D)
  qed (auto simp: guarded_def)
qed

lemma guarded_steps:
  assumes "(guarded_step reg)\<^sup>*\<^sup>* s s'" "guarded s"
  shows "guarded s' \<and> lastCount (sy_svc s) \<le> lastCount (sy_svc s')"
  using assms
proof (induction rule: rtranclp_induct)
  case (step y z)
  then show ?case using guarded_step [of reg y z] by auto
qed simp

text \<open>The write guard: from the first published board on, and as long as no forced recompute runs,
  no interleaving of solves, recomputes and repairs replaces the cached board by one built from fewer
  rows, however late a slow recompute writes.\<close>

theorem guarded_board_monotone:
  assumes "(guarded_step reg)\<^sup>*\<^sup>* s s'" "guarded s"
  shows "\<exists>b b'. redis (sy_svc s) keyCurrent = Some b \<and> redis (sy_svc s') keyCurrent = Some b' \<and>
    sn_SolveCount b \<le> sn_SolveCount b'"
  using guarded_steps [OF assms] assms(2) by (fastforce simp: guarded_def)

theorem guarded_board_monotone_witness:
  "\<exists>b b'. redis (sy_svc published) keyCurrent = Some b \<and>
    redis (sy_svc (published\<lparr>sy_reading := [empty_db]\<rparr>)) keyCurrent = Some b' \<and>
    sn_SolveCount b \<le> sn_SolveCount b'"
proof (rule guarded_board_monotone [where reg = defaultRegistry])
  have "sb_step defaultRegistry published (published\<lparr>sy_reading := [empty_db]\<rparr>)"
    using sb_step.read_teams [of defaultRegistry published] by (simp add: published_def boot_def)
  then show "(guarded_step defaultRegistry)\<^sup>*\<^sup>* published (published\<lparr>sy_reading := [empty_db]\<rparr>)"
    by (intro r_into_rtranclp) (simp add: guarded_step_def published_def boot_def)
  show "guarded published" by (simp add: guarded_def published_def boot_def New_def empty_board_def)
qed

end
