(* ===== verification/Teams.thy ===== *)
theory Teams
  imports Database
begin

text \<open>
  \<^verbatim>\<open>internal/teams\<close>: creation, membership, captain transfer, the self-heal of stranded captains and the
  admin toggles (\<^verbatim>\<open>service.go\<close>, \<^verbatim>\<open>admin.go\<close>, \<^verbatim>\<open>invite.go\<close>).

  The bodies of the three transactions are \<open>create_tx\<close>, \<open>join_tx\<close> and \<open>leave_tx\<close>: each locks the team row
  before it reads members, so the transactions on one team run one after the other. An operation takes
  the database state its first, unlocked read sees and the state its transaction runs on. The name and
  code the caller passes are arguments; random bytes and fresh ids are arguments too. \<open>cf\<close> is the case
  folding of \<^verbatim>\<open>citext\<close>.
\<close>

subsection \<open>Invite codes\<close>

definition crockford :: string where
  "crockford = ''0123456789ABCDEFGHJKMNPQRSTVWXYZ''"

definition inviteCodeLen :: nat where
  "inviteCodeLen = 12"

text \<open>\<open>None\<close> is a failing \<^verbatim>\<open>rand.Read\<close>; otherwise the bytes it delivered.\<close>

definition GenerateInviteCode :: "nat list option \<Rightarrow> string result" where
  "GenerateInviteCode rand =
     (case rand of
        None \<Rightarrow> Inl (Internal ''teams: generating invite code'')
      | Some buf \<Rightarrow> Inr (map (\<lambda>b. crockford ! (b mod length crockford)) buf))"

subsection \<open>The service\<close>

datatype team_call =
    TInvite | TBegin | TCommit | TCreate | TAdd | TLock | TCount | TUserTeam | TRemove | TList | TSubs
  | TDelete | TCaptain | TRename | TCode | TGet | TLoad | TRepair | TAdmin | TNewID

record TeamView =
  tv_Row :: Team
  tv_Members :: "TeamMember list"

definition validateName :: "string \<Rightarrow> app_error option" where
  "validateName name =
     (if length name < 3 \<or> 48 < length name
      then Some (Validation (Validation_Add [] ''name'' ''must be between 3 and 48 characters''))
      else None)"

definition mapConflict :: "sql_error \<Rightarrow> string \<Rightarrow> app_error" where
  "mapConflict e what =
     (case e of
        UniqueViolation c \<Rightarrow>
          if c = ''uq_team_members_user'' then Conflict ''you are already on a team''
          else if c = ''uq_teams_name'' then Conflict ''that team name is taken''
          else if c = ''uq_teams_invite_code'' then Conflict ''invite code collision, please retry''
          else Conflict (what @ '' already exists'')
      | _ \<Rightarrow> Internal (''teams: '' @ what))"

definition load :: "(team_call \<Rightarrow> bool) \<Rightarrow> db \<Rightarrow> Team \<Rightarrow> TeamView result" where
  "load fails d t =
     (if fails TLoad then Inl (Internal ''teams: listing members'')
      else Inr \<lparr>tv_Row = t, tv_Members = ListTeamMembers d (t_ID t)\<rparr>)"

definition create_tx ::
  "(string \<Rightarrow> string) \<Rightarrow> (team_call \<Rightarrow> bool) \<Rightarrow> time \<Rightarrow> uuid \<Rightarrow> string \<Rightarrow> uuid \<Rightarrow> string \<Rightarrow> db \<Rightarrow> (db \<times> Team) result" where
  "create_tx cf fails now new_id code uid name d =
     (if fails TCreate then Inl (Internal ''teams: team name'')
      else case CreateTeam cf d now new_id name code uid of
             Inl e \<Rightarrow> Inl (mapConflict e ''team name'')
           | Inr (d1, t) \<Rightarrow>
               if fails TAdd then Inl (Internal ''teams: team name'')
               else case AddTeamMember d1 now new_id uid of
                      Inl e \<Rightarrow> Inl (mapConflict e ''team name'')
                    | Inr d2 \<Rightarrow> Inr (d2, t))"

definition Create ::
  "(string \<Rightarrow> string) \<Rightarrow> (team_call \<Rightarrow> bool) \<Rightarrow> bool \<Rightarrow> time \<Rightarrow> uuid \<Rightarrow> nat list option \<Rightarrow> uuid \<Rightarrow> string \<Rightarrow> db \<Rightarrow>
   db \<times> TeamView result" where
  "Create cf fails landed now new_id rand uid name d =
     (case validateName name of
        Some e \<Rightarrow> (d, Inl e)
      | None \<Rightarrow>
          (case GenerateInviteCode rand of
             Inl e \<Rightarrow> (d, Inl e)
           | Inr code \<Rightarrow>
               if fails TNewID then (d, Inl (Internal ''teams: generating id''))
               else case WithTx (fails TBegin) (fails TCommit) landed
                           (create_tx cf fails now new_id code uid name) d of
                      (d', Inl (Internal _)) \<Rightarrow> (d', Inl (Internal ''teams: team name''))
                    | (d', Inl e) \<Rightarrow> (d', Inl e)
                    | (d', Inr t) \<Rightarrow> (d', load fails d' t)))"

definition join_tx ::
  "(team_call \<Rightarrow> bool) \<Rightarrow> int \<Rightarrow> time \<Rightarrow> uuid \<Rightarrow> uuid \<Rightarrow> db \<Rightarrow> (db \<times> unit) result" where
  "join_tx fails maxSize now tid uid d =
     (if fails TLock then Inl (Internal ''teams: locking team'')
      else case LockTeam d tid of
             None \<Rightarrow> Inl (NotFound ''no team with that invite code'')
           | Some locked \<Rightarrow>
               if t_Banned locked then Inl (Conflict ''that team is banned'')
               else if fails TCount then Inl (Internal ''teams: counting members'')
               else if CountTeamMembers d tid \<ge> maxSize then Inl (Conflict ''that team is full'')
               else if fails TAdd then Inl (Internal ''teams: membership'')
               else case AddTeamMember d now tid uid of
                      Inl e \<Rightarrow> Inl (mapConflict e ''membership'')
                    | Inr d' \<Rightarrow> Inr (d', ()))"

definition Join ::
  "(team_call \<Rightarrow> bool) \<Rightarrow> bool \<Rightarrow> int \<Rightarrow> time \<Rightarrow> uuid \<Rightarrow> string \<Rightarrow> db \<Rightarrow> db \<Rightarrow> db \<times> TeamView result" where
  "Join fails landed maxSize now uid code d0 d =
     (if fails TInvite then (d, Inl (Internal ''teams: looking up invite code''))
      else case GetTeamByInviteCode d0 code of
             None \<Rightarrow> (d, Inl (NotFound ''no team with that invite code''))
           | Some t \<Rightarrow>
               if t_Banned t then (d, Inl (Conflict ''that team is banned''))
               else case WithTx (fails TBegin) (fails TCommit) landed
                           (join_tx fails maxSize now (t_ID t) uid) d of
                      (d', Inl e) \<Rightarrow> (d', Inl e)
                    | (d', Inr _) \<Rightarrow> (d', load fails d' t))"

definition leave_tx ::
  "(team_call \<Rightarrow> bool) \<Rightarrow> time \<Rightarrow> uuid \<Rightarrow> uuid \<Rightarrow> db \<Rightarrow> (db \<times> unit) result" where
  "leave_tx fails now tid uid d =
     (if fails TLock then Inl (Internal ''teams: locking team'')
      else case LockTeam d tid of
             None \<Rightarrow> Inr (d, ())
           | Some locked \<Rightarrow>
               if fails TRemove then Inl (Internal ''remove member'')
               else let d1 = RemoveTeamMember d tid uid
                    in if fails TList then Inl (Internal ''list members'')
                       else case ListTeamMembers d1 tid of
                              [] \<Rightarrow>
                                if fails TSubs then Inl (Internal ''count submissions'')
                                else if CountTeamSubmissions d1 tid = 0
                                then if fails TDelete then Inl (Internal ''delete team'')
                                     else Inr (DeleteTeam d1 tid, ())
                                else Inr (d1, ())
                            | m # _ \<Rightarrow>
                                if t_CaptainID locked = uid
                                then if fails TCaptain then Inl (Internal ''update captain'')
                                     else Inr (UpdateTeamCaptain d1 now tid (m_UserID m), ())
                                else Inr (d1, ()))"

definition Leave ::
  "(team_call \<Rightarrow> bool) \<Rightarrow> bool \<Rightarrow> time \<Rightarrow> uuid \<Rightarrow> db \<Rightarrow> db \<Rightarrow> db \<times> unit result" where
  "Leave fails landed now uid d0 d =
     (if fails TUserTeam then (d, Inl (Internal ''teams: getting team''))
      else case GetUserTeam d0 uid of
             None \<Rightarrow> (d, Inl (NotFound ''you are not on a team''))
           | Some team \<Rightarrow>
               WithTx (fails TBegin) (fails TCommit) landed (leave_tx fails now (t_ID team) uid) d)"

definition RepairStrandedCaptains ::
  "(team_call \<Rightarrow> bool) \<Rightarrow> time \<Rightarrow> db \<Rightarrow> db \<times> (uuid \<times> uuid) list result" where
  "RepairStrandedCaptains fails now d =
     (if fails TRepair then (d, Inl (Internal ''teams: repairing stranded captains''))
      else case RepairStrandedCaptains_sql d now of (d', rows) \<Rightarrow> (d', Inr rows))"

definition Rename ::
  "(string \<Rightarrow> string) \<Rightarrow> (team_call \<Rightarrow> bool) \<Rightarrow> time \<Rightarrow> uuid \<Rightarrow> string \<Rightarrow> db \<Rightarrow> db \<times> TeamView result" where
  "Rename cf fails now tid name d =
     (case validateName name of
        Some e \<Rightarrow> (d, Inl e)
      | None \<Rightarrow>
          if fails TRename then (d, Inl (Internal ''teams: team name''))
          else case UpdateTeamName cf d now tid name of
                 Inl e \<Rightarrow> (d, Inl (mapConflict e ''team name''))
               | Inr (d', None) \<Rightarrow> (d', Inl ErrNotFound)
               | Inr (d', Some t) \<Rightarrow> (d', load fails d' t))"

definition RegenerateInviteCode ::
  "(team_call \<Rightarrow> bool) \<Rightarrow> time \<Rightarrow> nat list option \<Rightarrow> uuid \<Rightarrow> db \<Rightarrow> db \<times> string result" where
  "RegenerateInviteCode fails now rand tid d =
     (case GenerateInviteCode rand of
        Inl e \<Rightarrow> (d, Inl e)
      | Inr code \<Rightarrow>
          if fails TCode then (d, Inl (Internal ''teams: regenerating invite code''))
          else case UpdateTeamInviteCode d now tid code of
                 Inl _ \<Rightarrow> (d, Inl (Internal ''teams: regenerating invite code''))
               | Inr (d', None) \<Rightarrow> (d', Inl ErrNotFound)
               | Inr (d', Some _) \<Rightarrow> (d', Inr code))"

definition GetTeam :: "(team_call \<Rightarrow> bool) \<Rightarrow> db \<Rightarrow> uuid \<Rightarrow> TeamView result" where
  "GetTeam fails d tid =
     (if fails TGet then Inl (Internal ''teams: getting team'')
      else case GetTeamByID d tid of None \<Rightarrow> Inl ErrNotFound | Some t \<Rightarrow> load fails d t)"

definition RequireCaptain :: "(team_call \<Rightarrow> bool) \<Rightarrow> db \<Rightarrow> uuid \<Rightarrow> uuid \<Rightarrow> Team result" where
  "RequireCaptain fails d tid uid =
     (if fails TGet then Inl (Internal ''teams: getting team'')
      else case GetTeamByID d tid of
             None \<Rightarrow> Inl ErrNotFound
           | Some t \<Rightarrow> if t_CaptainID t \<noteq> uid then Inl (Forbidden ''only the captain can do that'') else Inr t)"

definition IsMember :: "(team_call \<Rightarrow> bool) \<Rightarrow> db \<Rightarrow> uuid \<Rightarrow> uuid \<Rightarrow> bool result" where
  "IsMember fails d tid uid =
     (if fails TUserTeam then Inl (Internal ''teams: membership check'')
      else case GetUserTeam d uid of None \<Rightarrow> Inr False | Some t \<Rightarrow> Inr (t_ID t = tid))"

definition AdminUpdate ::
  "(team_call \<Rightarrow> bool) \<Rightarrow> time \<Rightarrow> uuid \<Rightarrow> bool option \<Rightarrow> bool option \<Rightarrow> db \<Rightarrow> db \<times> Team result" where
  "AdminUpdate fails now tid banned hidden d =
     (if fails TAdmin then (d, Inl (Internal ''teams: admin update''))
      else case UpdateTeamAdminFields d now tid banned hidden of
             (d', None) \<Rightarrow> (d', Inl ErrNotFound)
           | (d', Some t) \<Rightarrow> (d', Inr t))"

end
