(* ===== verification/Teams_Invariant.thy ===== *)
theory Teams_Invariant
  imports Teams
begin

text \<open>
  Invariants of team membership over every sequence of committed team operations: a user is on at most
  one team, a team never exceeds the configured size, and the captain of a team with members is one of
  them. The last one has one exception in the code, joining a team that everybody left.
\<close>

definition members_of :: "db \<Rightarrow> uuid \<Rightarrow> TeamMember list" where
  "members_of d tid = filter (\<lambda>m. m_TeamID m = tid) (team_members d)"

definition teams_ok :: "int \<Rightarrow> db \<Rightarrow> bool" where
  "teams_ok maxSize d \<longleftrightarrow>
     distinct (map t_ID (teams d)) \<and> distinct (map m_UserID (team_members d)) \<and>
     (\<forall>m \<in> set (team_members d). m_TeamID m \<in> t_ID ` set (teams d) \<and> m_UserID m \<in> u_ID ` set (users d)) \<and>
     (\<forall>tid. int (length (members_of d tid)) \<le> maxSize)"

definition captained :: "db \<Rightarrow> bool" where
  "captained d \<longleftrightarrow>
     (\<forall>t \<in> set (teams d). members_of d (t_ID t) \<noteq> [] \<longrightarrow> is_member d (t_ID t) (t_CaptainID t))"

lemma is_member_iff: "is_member d tid uid \<longleftrightarrow> (\<exists>m \<in> set (members_of d tid). m_UserID m = uid)"
  by (auto simp: is_member_def members_of_def list_ex_iff)

lemma CountTeamMembers_eq: "CountTeamMembers d tid = int (length (members_of d tid))"
  by (simp add: CountTeamMembers_def members_of_def)

subsection \<open>The statements\<close>

lemma AddTeamMember_Inr:
  assumes "AddTeamMember d now tid uid = Inr d'"
  shows "d' = d\<lparr>team_members := team_members d @ [\<lparr>m_TeamID = tid, m_UserID = uid, m_JoinedAt = now\<rparr>]\<rparr>"
    and "\<forall>m \<in> set (team_members d). m_UserID m \<noteq> uid"
    and "tid \<in> t_ID ` set (teams d)" "uid \<in> u_ID ` set (users d)"
  using assms by (auto simp: AddTeamMember_def list_ex_iff split: if_splits)

lemma AddTeamMember_teams_ok:
  assumes "AddTeamMember d now tid uid = Inr d'" "teams_ok maxSize d"
    and "int (length (members_of d tid)) < maxSize"
  shows "teams_ok maxSize d'"
  using AddTeamMember_Inr [OF assms(1)] assms(2,3) by (auto simp: teams_ok_def members_of_def)

lemma CreateTeam_Inr:
  assumes "CreateTeam cf d now i name code captain = Inr (d', t)"
  shows "d' = d\<lparr>teams := teams d @ [t]\<rparr>" "t_ID t = i" "t_CaptainID t = captain"
    and "\<forall>x \<in> set (teams d). t_ID x \<noteq> i"
  using assms by (auto simp: CreateTeam_def Let_def list_ex_iff split: if_splits)

lemma update_team_simps [simp]:
  "team_members (update_team d i f) = team_members d" "users (update_team d i f) = users d"
  "members_of (update_team d i f) tid = members_of d tid" "is_member (update_team d i f) = is_member d"
  by (simp_all add: update_team_def members_of_def is_member_def fun_eq_iff)

lemma teams_update_team: "teams (update_team d i f) = map (\<lambda>t. if t_ID t = i then f t else t) (teams d)"
  by (simp add: update_team_def)

lemma update_team_teams_ok:
  assumes "teams_ok maxSize d" "\<And>t. t_ID (f t) = t_ID t"
  shows "teams_ok maxSize (update_team d i f)"
proof -
  have "map t_ID (teams (update_team d i f)) = map t_ID (teams d)"
    by (simp add: teams_update_team assms(2))
  moreover from this have "t_ID ` set (teams (update_team d i f)) = t_ID ` set (teams d)"
    by (metis set_map)
  ultimately show ?thesis using assms(1) by (simp add: teams_ok_def)
qed

lemma update_team_captained:
  assumes "captained d" "\<And>t. t_ID (f t) = t_ID t"
    and "\<And>t. t \<in> set (teams d) \<Longrightarrow> t_ID t = i \<Longrightarrow> members_of d i \<noteq> [] \<Longrightarrow> is_member d i (t_CaptainID (f t))"
  shows "captained (update_team d i f)"
  unfolding captained_def
proof (intro ballI impI)
  fix t assume "t \<in> set (teams (update_team d i f))" "members_of (update_team d i f) (t_ID t) \<noteq> []"
  then obtain t0 where "t0 \<in> set (teams d)" "t = (if t_ID t0 = i then f t0 else t0)"
    "members_of d (t_ID t) \<noteq> []"
    by (auto simp: teams_update_team)
  then show "is_member (update_team d i f) (t_ID t) (t_CaptainID t)"
    using assms by (auto simp: captained_def split: if_splits)
qed

subsection \<open>The transactions\<close>

lemma create_tx_Inr:
  assumes "create_tx cf fails now i code uid name d = Inr (d', t)"
  shows "d' = d\<lparr>teams := teams d @ [t],
      team_members := team_members d @ [\<lparr>m_TeamID = i, m_UserID = uid, m_JoinedAt = now\<rparr>]\<rparr>"
    and "t_ID t = i" "t_CaptainID t = uid" "\<forall>x \<in> set (teams d). t_ID x \<noteq> i"
    and "\<forall>m \<in> set (team_members d). m_UserID m \<noteq> uid" "uid \<in> u_ID ` set (users d)"
proof -
  from assms obtain d1 where c: "CreateTeam cf d now i name code uid = Inr (d1, t)"
    and a: "AddTeamMember d1 now i uid = Inr d'"
    by (auto simp: create_tx_def split: if_splits sum.splits prod.splits)
  note c' = CreateTeam_Inr [OF c] and a' = AddTeamMember_Inr [OF a]
  from c' a' show "d' = d\<lparr>teams := teams d @ [t],
      team_members := team_members d @ [\<lparr>m_TeamID = i, m_UserID = uid, m_JoinedAt = now\<rparr>]\<rparr>"
    "t_ID t = i" "t_CaptainID t = uid" "\<forall>x \<in> set (teams d). t_ID x \<noteq> i"
    "\<forall>m \<in> set (team_members d). m_UserID m \<noteq> uid" "uid \<in> u_ID ` set (users d)"
    by simp_all
qed

lemma no_members_fresh:
  assumes "teams_ok maxSize d" "\<forall>x \<in> set (teams d). t_ID x \<noteq> i"
  shows "members_of d i = []"
  using assms by (fastforce simp: teams_ok_def members_of_def filter_empty_conv)

lemma create_tx_teams_ok:
  assumes "create_tx cf fails now i code uid name d = Inr (d', t)" "teams_ok maxSize d" "1 \<le> maxSize"
  shows "teams_ok maxSize d'"
proof -
  note c = create_tx_Inr [OF assms(1)]
  have "members_of d i = []" using no_members_fresh assms(2) c(4) by blast
  then have "int (length (members_of d' tid)) \<le> maxSize" for tid
    using c(1) assms(2,3) by (auto simp: members_of_def teams_ok_def)
  moreover have "distinct (map t_ID (teams d'))" "distinct (map m_UserID (team_members d'))"
    using c assms(2) by (auto simp: teams_ok_def)
  ultimately show ?thesis
    using c assms(2) by (auto simp: teams_ok_def)
qed

lemma create_tx_captained:
  assumes "create_tx cf fails now i code uid name d = Inr (d', t)" "captained d"
  shows "captained d'"
  using create_tx_Inr [OF assms(1)] assms(2)
  by (auto simp: captained_def members_of_def is_member_def)

lemma join_tx_Inr:
  assumes "join_tx fails maxSize now tid uid d = Inr (d', u)"
  shows "AddTeamMember d now tid uid = Inr d'" "int (length (members_of d tid)) < maxSize"
    and "\<exists>t. LockTeam d tid = Some t \<and> \<not> t_Banned t"
  using assms
  by (auto simp: join_tx_def CountTeamMembers_eq not_le split: if_splits option.splits sum.splits)

lemma join_tx_captained:
  assumes "join_tx fails maxSize now tid uid d = Inr (d', u)" "captained d" "members_of d tid \<noteq> []"
  shows "captained d'"
  using AddTeamMember_Inr(1) [OF join_tx_Inr(1) [OF assms(1)]] assms(2,3)
  by (auto simp: captained_def members_of_def is_member_def)

lemma ListTeamMembers_eq:
  assumes "teams_ok maxSize d"
  shows "ListTeamMembers d tid = sort_key m_JoinedAt (members_of d tid)"
proof -
  have "list_ex (\<lambda>u. u_ID u = m_UserID m) (users d)" if "m \<in> set (team_members d)" for m
    using assms that by (fastforce simp: teams_ok_def list_ex_iff)
  then have "filter (\<lambda>m. m_TeamID m = tid \<and> list_ex (\<lambda>u. u_ID u = m_UserID m) (users d)) (team_members d)
      = members_of d tid"
    unfolding members_of_def by (intro filter_cong refl) blast
  then show ?thesis by (simp add: ListTeamMembers_def)
qed

lemma length_filter_filter_le: "length (filter P (filter Q xs)) \<le> length (filter P xs)"
  by (induction xs) auto

lemma RemoveTeamMember_teams_ok: "teams_ok maxSize d \<Longrightarrow> teams_ok maxSize (RemoveTeamMember d tid uid)"
proof -
  assume ok: "teams_ok maxSize d"
  have "length (members_of (RemoveTeamMember d tid uid) k) \<le> length (members_of d k)" for k
    using length_filter_filter_le [of _ _ "team_members d"]
    by (simp add: members_of_def RemoveTeamMember_def del: filter_filter)
  then have "int (length (members_of (RemoveTeamMember d tid uid) k)) \<le> maxSize" for k
    using ok unfolding teams_ok_def by (meson of_nat_le_iff order_trans)
  then show ?thesis
    using ok by (auto simp: teams_ok_def RemoveTeamMember_def distinct_map_filter)
qed

lemma DeleteTeam_teams_ok:
  assumes "teams_ok maxSize d"
  shows "teams_ok maxSize (DeleteTeam d tid)"
proof -
  have "length (members_of (DeleteTeam d tid) k) \<le> length (members_of d k)" for k
    using length_filter_filter_le [of _ _ "team_members d"]
    by (simp add: members_of_def DeleteTeam_def del: filter_filter)
  then have "int (length (members_of (DeleteTeam d tid) k)) \<le> maxSize" for k
    using assms unfolding teams_ok_def by (meson of_nat_le_iff order_trans)
  then show ?thesis
    using assms by (fastforce simp: teams_ok_def DeleteTeam_def distinct_map_filter)
qed

lemma is_member_Remove:
  "is_member (RemoveTeamMember d tid uid) k u \<longleftrightarrow> is_member d k u \<and> \<not> (k = tid \<and> u = uid)"
  by (auto simp: is_member_def RemoveTeamMember_def list_ex_iff)

lemma members_of_Remove_other: "k \<noteq> tid \<Longrightarrow> members_of (RemoveTeamMember d tid uid) k = members_of d k"
  by (auto simp: members_of_def RemoveTeamMember_def intro: filter_cong)

lemma members_of_Delete_other: "k \<noteq> tid \<Longrightarrow> members_of (DeleteTeam d tid) k = members_of d k"
  by (auto simp: members_of_def DeleteTeam_def intro: filter_cong)

lemma teams_Remove [simp]: "teams (RemoveTeamMember d tid uid) = teams d"
  by (simp add: RemoveTeamMember_def)

lemma LockTeam_unique:
  assumes "teams_ok maxSize d" "LockTeam d tid = Some locked" "t \<in> set (teams d)" "t_ID t = tid"
  shows "t = locked"
  using find_SomeD [OF assms(2) [unfolded LockTeam_def]] assms by (auto simp: teams_ok_def distinct_map inj_on_def)

text \<open>The branches of a leave that commits.\<close>

lemma leave_tx_cases:
  assumes "leave_tx fails now tid uid d = Inr (d', u)" "teams_ok maxSize d"
  obtains (gone) "LockTeam d tid = None" "d' = d"
  | (kept) locked where "LockTeam d tid = Some locked" "members_of (RemoveTeamMember d tid uid) tid = []"
      "CountTeamSubmissions d tid \<noteq> 0" "d' = RemoveTeamMember d tid uid"
  | (deleted) locked where "LockTeam d tid = Some locked" "members_of (RemoveTeamMember d tid uid) tid = []"
      "CountTeamSubmissions d tid = 0" "d' = DeleteTeam (RemoveTeamMember d tid uid) tid"
  | (promoted) locked m ms where "LockTeam d tid = Some locked" "t_CaptainID locked = uid"
      "sort_key m_JoinedAt (members_of (RemoveTeamMember d tid uid) tid) = m # ms"
      "d' = UpdateTeamCaptain (RemoveTeamMember d tid uid) now tid (m_UserID m)"
  | (left) locked where "LockTeam d tid = Some locked" "t_CaptainID locked \<noteq> uid"
      "members_of (RemoveTeamMember d tid uid) tid \<noteq> []" "d' = RemoveTeamMember d tid uid"
proof -
  note eq = ListTeamMembers_eq [OF RemoveTeamMember_teams_ok [OF assms(2)]]
  have subs: "CountTeamSubmissions (RemoveTeamMember d tid uid) tid = CountTeamSubmissions d tid"
    by (simp add: CountTeamSubmissions_def RemoveTeamMember_def)
  have nil: "sort_key m_JoinedAt xs = [] \<longleftrightarrow> xs = []" for xs :: "TeamMember list"
    by (metis length_0_conv length_sort)
  show ?thesis
  proof (cases "LockTeam d tid")
    case None
    with assms(1) show ?thesis by (intro gone) (auto simp: leave_tx_def split: if_splits)
  next
    case (Some locked)
    show ?thesis
    proof (cases "sort_key m_JoinedAt (members_of (RemoveTeamMember d tid uid) tid)")
      case Nil
      with assms(1) Some show ?thesis
        by (cases "CountTeamSubmissions d tid = 0")
           (auto simp: leave_tx_def Let_def eq subs nil split: if_splits intro: kept deleted)
    next
      case (Cons m ms)
      with assms(1) Some show ?thesis
        by (cases "t_CaptainID locked = uid")
           (auto simp: leave_tx_def Let_def eq split: if_splits intro: promoted left)
    qed
  qed
qed

lemma leave_tx_teams_ok:
  assumes "leave_tx fails now tid uid d = Inr (d', u)" "teams_ok maxSize d"
  shows "teams_ok maxSize d'"
  using assms
  by (cases rule: leave_tx_cases)
     (auto simp: UpdateTeamCaptain_def assms(2) intro!: RemoveTeamMember_teams_ok DeleteTeam_teams_ok update_team_teams_ok)

lemma captained_Remove:
  assumes "captained d" "\<And>t. t \<in> set (teams d) \<Longrightarrow> t_ID t = tid \<Longrightarrow>
      members_of (RemoveTeamMember d tid uid) tid \<noteq> [] \<Longrightarrow> t_CaptainID t \<noteq> uid"
  shows "captained (RemoveTeamMember d tid uid)"
  unfolding captained_def
proof (intro ballI impI)
  fix t assume t: "t \<in> set (teams (RemoveTeamMember d tid uid))" "members_of (RemoveTeamMember d tid uid) (t_ID t) \<noteq> []"
  then have "members_of d (t_ID t) \<noteq> []"
    by (cases "t_ID t = tid") (auto simp: members_of_Remove_other, auto simp: members_of_def RemoveTeamMember_def filter_empty_conv)
  then have "is_member d (t_ID t) (t_CaptainID t)" using assms(1) t(1) by (simp add: captained_def)
  with assms(2) t show "is_member (RemoveTeamMember d tid uid) (t_ID t) (t_CaptainID t)"
    by (auto simp: is_member_Remove)
qed

lemma leave_tx_captained:
  assumes "leave_tx fails now tid uid d = Inr (d', u)" "teams_ok maxSize d" "captained d"
  shows "captained d'"
  using assms(1,2)
proof (cases rule: leave_tx_cases)
  case gone
  then show ?thesis using assms(3) by simp
next
  case (kept locked)
  then show ?thesis using assms(3) by (auto intro: captained_Remove)
next
  case (deleted locked)
  have "members_of d' k = members_of d k" if "k \<noteq> tid" for k
    using that deleted(4) by (simp add: members_of_Delete_other members_of_Remove_other)
  then show ?thesis using assms(3) deleted(4) by (auto simp: captained_def is_member_iff DeleteTeam_def)
next
  case (promoted locked m ms)
  let ?d1 = "RemoveTeamMember d tid uid"
  have m: "m \<in> set (members_of ?d1 tid)" using promoted(3) by (metis list.set_intros(1) set_sort)
  show ?thesis
    unfolding promoted(4) UpdateTeamCaptain_def captained_def
  proof (intro ballI impI)
    let ?f = "\<lambda>t. t\<lparr>t_CaptainID := m_UserID m, t_UpdatedAt := now\<rparr>"
    fix t assume t: "t \<in> set (teams (update_team ?d1 tid ?f))" "members_of (update_team ?d1 tid ?f) (t_ID t) \<noteq> []"
    then obtain t0 where t0: "t0 \<in> set (teams d)" "t = (if t_ID t0 = tid then ?f t0 else t0)"
      by (auto simp: teams_update_team)
    show "is_member (update_team ?d1 tid ?f) (t_ID t) (t_CaptainID t)"
    proof (cases "t_ID t0 = tid")
      case True
      then show ?thesis using t0 m by (auto simp: is_member_iff)
    next
      case False
      then have "members_of d (t_ID t0) \<noteq> []" using t t0 by (simp add: members_of_Remove_other)
      then have "is_member d (t_ID t0) (t_CaptainID t0)" using assms(3) t0(1) by (simp add: captained_def)
      then show ?thesis using False t0 by (simp add: is_member_Remove)
    qed
  qed
next
  case (left locked)
  then show ?thesis
    using assms(3) LockTeam_unique [OF assms(2) left(1)] by (auto intro!: captained_Remove)
qed

subsection \<open>Sequences of operations\<close>

inductive team_step :: "(string \<Rightarrow> string) \<Rightarrow> int \<Rightarrow> db \<Rightarrow> db \<Rightarrow> bool" for cf maxSize where
  create: "create_tx cf fails now new_id code uid name d = Inr (d', t) \<Longrightarrow> team_step cf maxSize d d'"
| join: "join_tx fails maxSize now tid uid d = Inr (d', u) \<Longrightarrow> team_step cf maxSize d d'"
| leave: "leave_tx fails now tid uid d = Inr (d', u) \<Longrightarrow> team_step cf maxSize d d'"
| rename: "Rename cf fails now tid name d = (d', r) \<Longrightarrow> team_step cf maxSize d d'"
| regenerate: "RegenerateInviteCode fails now rand tid d = (d', c) \<Longrightarrow> team_step cf maxSize d d'"
| admin: "AdminUpdate fails now tid banned hidden d = (d', a) \<Longrightarrow> team_step cf maxSize d d'"
| repair: "RepairStrandedCaptains fails now d = (d', rows) \<Longrightarrow> team_step cf maxSize d d'"

text \<open>A database with other values in the teams' name, code, ban, visibility and time columns.\<close>

definition cosmetic :: "db \<Rightarrow> db \<Rightarrow> bool" where
  "cosmetic d d' \<longleftrightarrow> d' = d \<or>
     (\<exists>i f. d' = update_team d i f \<and> (\<forall>t. t_ID (f t) = t_ID t \<and> t_CaptainID (f t) = t_CaptainID t))"

lemma cosmetic_teams_ok: "cosmetic d d' \<Longrightarrow> teams_ok maxSize d \<Longrightarrow> teams_ok maxSize d'"
  by (auto simp: cosmetic_def intro: update_team_teams_ok)

lemma cosmetic_captained: "cosmetic d d' \<Longrightarrow> captained d \<Longrightarrow> captained d'"
  by (auto simp: cosmetic_def captained_def teams_update_team)

lemma cosmetic_refl [simp]: "cosmetic d d"
  by (simp add: cosmetic_def)

lemma cosmeticI:
  "(\<And>t. t_ID (f t) = t_ID t) \<Longrightarrow> (\<And>t. t_CaptainID (f t) = t_CaptainID t) \<Longrightarrow> cosmetic d (update_team d i f)"
  unfolding cosmetic_def by blast

lemma Rename_cosmetic: "Rename cf fails now tid name d = (d', r) \<Longrightarrow> cosmetic d d'"
  by (auto simp: Rename_def UpdateTeamName_def Let_def intro!: cosmeticI
      split: option.splits if_splits sum.splits prod.splits)

lemma Regenerate_cosmetic: "RegenerateInviteCode fails now rand tid d = (d', r) \<Longrightarrow> cosmetic d d'"
  by (auto simp: RegenerateInviteCode_def UpdateTeamInviteCode_def Let_def intro!: cosmeticI
      split: option.splits if_splits sum.splits prod.splits)

lemma AdminUpdate_cosmetic: "AdminUpdate fails now tid banned hidden d = (d', r) \<Longrightarrow> cosmetic d d'"
  by (auto simp: AdminUpdate_def UpdateTeamAdminFields_def Let_def intro!: cosmeticI
      split: option.splits if_splits prod.splits)

subsection \<open>The self-heal\<close>

definition heal :: "db \<Rightarrow> time \<Rightarrow> Team \<Rightarrow> Team" where
  "heal d now t = (case earliest_member d (t_ID t) of
     Some u \<Rightarrow> if stranded d t then t\<lparr>t_CaptainID := u, t_UpdatedAt := now\<rparr> else t
   | None \<Rightarrow> t)"

lemma Repair_db: "fst (RepairStrandedCaptains_sql d now) = d\<lparr>teams := map (heal d now) (teams d)\<rparr>"
  by (simp add: RepairStrandedCaptains_sql_def heal_def [abs_def])

lemma heal_ID [simp]: "t_ID (heal d now t) = t_ID t"
  by (simp add: heal_def split: option.split)

lemma earliest_member_member:
  "members_of d tid \<noteq> [] \<Longrightarrow> \<exists>u. earliest_member d tid = Some u \<and> is_member d tid u"
  "members_of d tid = [] \<Longrightarrow> earliest_member d tid = None"
proof -
  assume "members_of d tid \<noteq> []"
  then obtain m ms where m: "sort_key m_JoinedAt (members_of d tid) = m # ms"
    by (metis length_0_conv length_sort neq_Nil_conv)
  then have "m \<in> set (members_of d tid)" by (metis list.set_intros(1) set_sort)
  with m show "\<exists>u. earliest_member d tid = Some u \<and> is_member d tid u"
    by (auto simp: earliest_member_def members_of_def is_member_def list_ex_iff)
next
  assume "members_of d tid = []"
  then show "earliest_member d tid = None" by (simp add: earliest_member_def members_of_def)
qed

lemma heal_captain:
  assumes "members_of d (t_ID t) \<noteq> []"
  shows "is_member d (t_ID t) (t_CaptainID (heal d now t))"
  using earliest_member_member(1) [OF assms] by (auto simp: heal_def stranded_def split: option.split)

lemma Repair_captained: "captained (fst (RepairStrandedCaptains_sql d now))"
  using heal_captain [of d] unfolding Repair_db
  by (auto simp: captained_def members_of_def is_member_def)

lemma Repair_teams_ok: "teams_ok maxSize d \<Longrightarrow> teams_ok maxSize (fst (RepairStrandedCaptains_sql d now))"
  unfolding Repair_db by (simp add: teams_ok_def members_of_def image_image o_def)

lemma RepairStrandedCaptains_cases:
  "RepairStrandedCaptains fails now d = (d', rows) \<Longrightarrow> d' = d \<or> d' = fst (RepairStrandedCaptains_sql d now)"
  by (auto simp: RepairStrandedCaptains_def split: if_splits prod.splits)

lemma captained_heal_id:
  assumes "captained d" "t \<in> set (teams d)"
  shows "heal d now t = t"
proof (cases "members_of d (t_ID t) = []")
  case True
  then show ?thesis by (simp add: heal_def earliest_member_member(2))
next
  case False
  with assms have "\<not> stranded d t" by (simp add: captained_def stranded_def)
  then show ?thesis by (simp add: heal_def split: option.split)
qed

subsection \<open>Properties\<close>

lemma team_step_teams_ok: "team_step cf maxSize d d' \<Longrightarrow> teams_ok maxSize d \<Longrightarrow> 1 \<le> maxSize \<Longrightarrow> teams_ok maxSize d'"
proof (induction rule: team_step.induct)
  case (join fails now tid uid d d' u)
  then show ?case
    using AddTeamMember_teams_ok [OF join_tx_Inr(1) [OF join(1)] _ join_tx_Inr(2) [OF join(1)]] by blast
next
  case (repair fails now d d' rows)
  then show ?case using RepairStrandedCaptains_cases Repair_teams_ok by metis
qed (blast intro: create_tx_teams_ok leave_tx_teams_ok cosmetic_teams_ok
       dest: Rename_cosmetic Regenerate_cosmetic AdminUpdate_cosmetic)+

lemma team_steps_teams_ok:
  "(team_step cf maxSize)\<^sup>*\<^sup>* d d' \<Longrightarrow> teams_ok maxSize d \<Longrightarrow> 1 \<le> maxSize \<Longrightarrow> teams_ok maxSize d'"
  by (induction rule: rtranclp_induct) (blast intro: team_step_teams_ok)+

text \<open>C15. Whatever team operations commit, in whatever order, no team grows beyond the configured size, and no
  user is on two teams.\<close>

theorem team_size_and_membership:
  assumes "(team_step cf maxSize)\<^sup>*\<^sup>* d d'" "teams_ok maxSize d" "1 \<le> maxSize"
  shows "CountTeamMembers d' tid \<le> maxSize \<and> distinct (map m_UserID (team_members d'))"
  using team_steps_teams_ok [OF assms] by (simp add: teams_ok_def CountTeamMembers_eq)

definition plain_user :: "uuid \<Rightarrow> User" where
  "plain_user i = \<lparr>u_ID = i, u_Username = ''u'', u_Email = ''e'', u_PasswordHash = [], u_Role = ''user'',
     u_Banned = False, u_Hidden = False, u_CreatedAt = 0, u_UpdatedAt = 0\<rparr>"

definition plain_team :: "uuid \<Rightarrow> Team" where
  "plain_team captain = \<lparr>t_ID = 1, t_Name = ''ones'', t_InviteCode = ''AAAA'', t_CaptainID = captain,
     t_Banned = False, t_Hidden = False, t_CreatedAt = 0, t_UpdatedAt = 0\<rparr>"

definition one_member :: "uuid \<Rightarrow> time \<Rightarrow> TeamMember" where
  "one_member uid joined = \<lparr>m_TeamID = 1, m_UserID = uid, m_JoinedAt = joined\<rparr>"

definition pair_db :: "TeamMember list \<Rightarrow> db" where
  "pair_db ms = empty_db\<lparr>users := [plain_user 1, plain_user 2], teams := [plain_team 1], team_members := ms\<rparr>"

lemmas pair_defs = pair_db_def plain_user_def plain_team_def one_member_def empty_db_def

lemma pair_ok: "teams_ok 2 (pair_db [one_member 1 0])" "captained (pair_db [one_member 1 0])"
  by (simp_all add: teams_ok_def captained_def members_of_def is_member_def pair_defs)

lemma pair_join: "team_step cf 2 (pair_db [one_member 1 0]) (pair_db [one_member 1 0, one_member 2 5])"
  by (rule team_step.join [of "\<lambda>_. False" 2 5 1 2 _ _ "()"])
     (simp add: join_tx_def LockTeam_def CountTeamMembers_def AddTeamMember_def pair_defs)

theorem team_size_and_membership_witness:
  "CountTeamMembers (pair_db [one_member 1 0, one_member 2 5]) 1 \<le> 2 \<and>
   distinct (map m_UserID (team_members (pair_db [one_member 1 0, one_member 2 5])))"
  by (rule team_size_and_membership [OF r_into_rtranclp [of "team_step id 2", OF pair_join] pair_ok(1)]) simp

text \<open>A step that does not bring a first member into an empty team.\<close>

definition no_revival :: "db \<Rightarrow> db \<Rightarrow> bool" where
  "no_revival d d' \<longleftrightarrow> (\<forall>t \<in> set (teams d). members_of d (t_ID t) = [] \<longrightarrow> members_of d' (t_ID t) = [])"

lemma join_no_revival:
  assumes "join_tx fails maxSize now tid uid d = Inr (d', u)" "no_revival d d'"
  shows "members_of d tid \<noteq> []"
proof
  assume e: "members_of d tid = []"
  note a = AddTeamMember_Inr [OF join_tx_Inr(1) [OF assms(1)]]
  from a(3) e assms(2) have "members_of d' tid = []" by (auto simp: no_revival_def)
  with a(1) show False by (simp add: members_of_def)
qed

lemma team_step_captained:
  "team_step cf maxSize d d' \<Longrightarrow> teams_ok maxSize d \<Longrightarrow> no_revival d d' \<Longrightarrow> captained d \<Longrightarrow> captained d'"
proof (induction rule: team_step.induct)
  case (join fails now tid uid d d' u)
  then show ?case using join_tx_captained join_no_revival by blast
next
  case (repair fails now d d' rows)
  then show ?case using RepairStrandedCaptains_cases Repair_captained by metis
qed (blast intro: create_tx_captained leave_tx_captained cosmetic_captained
       dest: Rename_cosmetic Regenerate_cosmetic AdminUpdate_cosmetic)+

lemma team_steps_captained:
  assumes "(\<lambda>x y. team_step cf maxSize x y \<and> no_revival x y)\<^sup>*\<^sup>* d d'"
    and "teams_ok maxSize d" "captained d" "1 \<le> maxSize"
  shows "teams_ok maxSize d' \<and> captained d'"
  using assms
  by (induction rule: rtranclp_induct) (blast intro: team_step_teams_ok team_step_captained)+

text \<open>C37. The captain of a team with members is one of them, through every sequence of creations, joins,
  leaves (with transfer to the earliest joiner or deletion), renames, admin updates and repairs, as long
  as nobody joins a team that everybody has left.\<close>

theorem captain_is_member:
  assumes "(\<lambda>x y. team_step cf maxSize x y \<and> no_revival x y)\<^sup>*\<^sup>* d d'"
    and "teams_ok maxSize d" "captained d" "1 \<le> maxSize"
    and "t \<in> set (teams d')" "CountTeamMembers d' (t_ID t) > 0"
  shows "is_member d' (t_ID t) (t_CaptainID t)"
  using team_steps_captained [OF assms(1-4)] assms(5,6) by (simp add: captained_def CountTeamMembers_eq)

theorem captain_is_member_witness:
  "is_member (pair_db [one_member 1 0, one_member 2 5]) 1 1"
proof -
  let ?R = "\<lambda>x y. team_step id 2 x y \<and> no_revival x y"
  have "?R (pair_db [one_member 1 0]) (pair_db [one_member 1 0, one_member 2 5])"
    using pair_join by (simp add: no_revival_def members_of_def pair_defs)
  then have "?R\<^sup>*\<^sup>* (pair_db [one_member 1 0]) (pair_db [one_member 1 0, one_member 2 5])" by (rule r_into_rtranclp)
  from captain_is_member [OF this pair_ok, of "plain_team 1"] show ?thesis
    by (simp add: CountTeamMembers_def pair_defs)
qed

text \<open>Joining a team that everybody left strands it: the team keeps its old captain, who is not a
  member, and the one member cannot act as captain.\<close>

theorem join_empty_team_strands_captain:
  assumes "LockTeam d tid = Some t" "\<not> t_Banned t" "CountTeamMembers d tid = 0" "1 \<le> maxSize"
    and "\<not> list_ex (\<lambda>m. m_UserID m = uid) (team_members d)" "list_ex (\<lambda>u. u_ID u = uid) (users d)"
    and "uid \<noteq> t_CaptainID t"
  shows "\<exists>d'. join_tx (\<lambda>_. False) maxSize now tid uid d = Inr (d', ()) \<and> t \<in> set (teams d') \<and>
    is_member d' tid uid \<and> stranded d' t \<and>
    RequireCaptain (\<lambda>_. False) d' tid uid = Inl (Forbidden ''only the captain can do that'')"
proof -
  let ?d' = "d\<lparr>team_members := team_members d @ [\<lparr>m_TeamID = tid, m_UserID = uid, m_JoinedAt = now\<rparr>]\<rparr>"
  have t: "t \<in> set (teams d)" "t_ID t = tid" using find_SomeD assms(1) unfolding LockTeam_def by fast+
  have "list_ex (\<lambda>x. t_ID x = tid) (teams d)" using t by (auto simp: list_ex_iff)
  moreover have "\<not> list_ex (\<lambda>m. m_TeamID m = tid \<and> m_UserID m = uid) (team_members d)"
    using assms(5) by (auto simp: list_ex_iff)
  ultimately have "AddTeamMember d now tid uid = Inr ?d'"
    using assms(5,6) by (simp add: AddTeamMember_def)
  then have "join_tx (\<lambda>_. False) maxSize now tid uid d = Inr (?d', ())"
    using assms(1-4) by (simp add: join_tx_def)
  moreover have "stranded ?d' t"
    using assms(3,7) t(2) by (auto simp: stranded_def is_member_def CountTeamMembers_def list_ex_iff filter_empty_conv)
  moreover have "RequireCaptain (\<lambda>_. False) ?d' tid uid = Inl (Forbidden ''only the captain can do that'')"
    using assms(1,7) by (simp add: RequireCaptain_def GetTeamByID_def LockTeam_def)
  ultimately show ?thesis using t(1) by (auto simp: is_member_def)
qed

theorem join_empty_team_strands_captain_witness:
  "\<exists>d'. join_tx (\<lambda>_. False) 4 9 1 2 (pair_db []) = Inr (d', ()) \<and> plain_team 1 \<in> set (teams d') \<and>
    is_member d' 1 2 \<and> stranded d' (plain_team 1) \<and>
    RequireCaptain (\<lambda>_. False) d' 1 2 = Inl (Forbidden ''only the captain can do that'')"
  by (rule join_empty_team_strands_captain)
     (simp_all add: LockTeam_def CountTeamMembers_def pair_defs)

text \<open>The startup self-heal: after it every team with members has a member as captain, whatever the state
  before, and a second run changes nothing.\<close>

theorem repair_heals_and_is_idempotent:
  assumes "RepairStrandedCaptains_sql d now = (d', rows)"
  shows "captained d' \<and> RepairStrandedCaptains_sql d' now' = (d', [])"
proof -
  have c: "captained d'" using Repair_captained [of d now] assms by simp
  then have id: "t \<in> set (teams d') \<Longrightarrow> heal d' now' t = t" for t by (rule captained_heal_id)
  have "fst (RepairStrandedCaptains_sql d' now') = d'"
    unfolding Repair_db using id by (simp add: map_idI)
  moreover have "snd (RepairStrandedCaptains_sql d' now') = []"
  proof -
    have "(case earliest_member d' (t_ID t) of Some u \<Rightarrow> if stranded d' t then Some (t_ID t, u) else None
        | None \<Rightarrow> None) = None" if "t \<in> set (teams d')" for t
      using c that earliest_member_member [of d' "t_ID t"]
      by (cases "members_of d' (t_ID t) = []") (auto simp: captained_def stranded_def)
    then show ?thesis
      by (simp add: RepairStrandedCaptains_sql_def List.map_filter_def filter_empty_conv)
  qed
  ultimately show ?thesis using c by (metis prod.collapse)
qed

theorem repair_heals_and_is_idempotent_witness:
  "captained (fst (RepairStrandedCaptains_sql (pair_db [one_member 2 5]) 9)) \<and>
   RepairStrandedCaptains_sql (fst (RepairStrandedCaptains_sql (pair_db [one_member 2 5]) 9)) 10
     = (fst (RepairStrandedCaptains_sql (pair_db [one_member 2 5]) 9), [])"
  by (rule repair_heals_and_is_idempotent [where rows = "snd (RepairStrandedCaptains_sql (pair_db [one_member 2 5]) 9)"
        and now = 9 and d = "pair_db [one_member 2 5]"]) simp

subsection \<open>Leaving\<close>

text \<open>What a leave does, when its statements answer: the user is no longer a member; if others remain, the
  team stays, and a leaving captain hands over to the earliest joiner among them; if nobody remains, the
  team is deleted when it has no submissions and kept as history otherwise.\<close>

theorem leave_outcome:
  assumes "leave_tx (\<lambda>_. False) now tid uid d = Inr (d', ())" "teams_ok maxSize d" "LockTeam d tid = Some t"
  shows "\<not> is_member d' tid uid \<and>
    (if members_of (RemoveTeamMember d tid uid) tid = []
     then (if CountTeamSubmissions d tid = 0 then LockTeam d' tid = None else LockTeam d' tid = Some t)
     else (\<exists>t'. LockTeam d' tid = Some t' \<and>
       t_CaptainID t' = (if t_CaptainID t = uid
         then m_UserID (hd (sort_key m_JoinedAt (members_of (RemoveTeamMember d tid uid) tid)))
         else t_CaptainID t)))"
  using assms(1,2)
proof (cases rule: leave_tx_cases)
  case (promoted locked m ms)
  then have "members_of (RemoveTeamMember d tid uid) tid \<noteq> []" by (metis list.distinct(1) sort_key_simps(1))
  moreover have "t = locked" using promoted(1) assms(3) by simp
  moreover have "LockTeam d' tid = Some (t\<lparr>t_CaptainID := m_UserID m, t_UpdatedAt := now\<rparr>)"
    using assms(3) find_map_key [of t_ID "\<lambda>t. if t_ID t = tid then t\<lparr>t_CaptainID := m_UserID m, t_UpdatedAt := now\<rparr> else t"
        tid "teams d"] find_SomeD [OF assms(3) [unfolded LockTeam_def]]
    by (simp add: promoted(4) UpdateTeamCaptain_def LockTeam_def teams_update_team)
  ultimately show ?thesis
    using promoted by (simp add: UpdateTeamCaptain_def is_member_Remove)
next
  case (deleted locked)
  have "List.find (\<lambda>t. t_ID t = tid) (filter (\<lambda>t. t_ID t \<noteq> tid) ts) = None" for ts
    by (induction ts) auto
  then show ?thesis
    using deleted by (simp add: LockTeam_def DeleteTeam_def is_member_def list_ex_iff)
qed (use assms(3) in \<open>auto simp: is_member_Remove LockTeam_def\<close>)

theorem leave_outcome_witness:
  "\<exists>d'. leave_tx (\<lambda>_. False) 9 1 1 (pair_db [one_member 1 0, one_member 2 5]) = Inr (d', ()) \<and>
     \<not> is_member d' 1 1 \<and> (\<exists>t'. LockTeam d' 1 = Some t' \<and> t_CaptainID t' = 2)"
proof -
  let ?d = "pair_db [one_member 1 0, one_member 2 5]"
  have ok: "teams_ok 2 ?d" by (simp add: teams_ok_def members_of_def pair_defs)
  have l: "LockTeam ?d 1 = Some (plain_team 1)" by (simp add: LockTeam_def pair_defs)
  have m: "members_of (RemoveTeamMember ?d 1 1) 1 = [one_member 2 5]"
    by (simp add: members_of_def RemoveTeamMember_def pair_defs)
  have "ListTeamMembers (RemoveTeamMember ?d 1 1) 1 = [one_member 2 5]"
    using ListTeamMembers_eq [OF RemoveTeamMember_teams_ok [OF ok], of 1 1 1] m by simp
  then obtain d' where tx: "leave_tx (\<lambda>_. False) 9 1 1 ?d = Inr (d', ())"
    using l by (simp add: leave_tx_def Let_def plain_team_def)
  have "t_CaptainID (plain_team 1) = 1" "m_UserID (one_member 2 5) = 2"
    by (simp_all add: plain_team_def one_member_def)
  with leave_outcome [OF tx ok l, unfolded m] tx show ?thesis by auto
qed

subsection \<open>Invite codes\<close>

lemma length_filter_residue:
  assumes "k < m"
  shows "length (filter (\<lambda>b. b mod m = k) [0..<m * n]) = n"
proof (induction n)
  case (Suc n)
  have "[0..<m * Suc n] = [0..<m * n] @ map (\<lambda>i. i + m * n) [0..<m]"
    using upt_add_eq_append [of 0 "m * n" m] by (simp add: map_add_upt add.commute)
  moreover have "filter (\<lambda>i. i mod m = k) [0..<m] = filter (\<lambda>i. i = k) [0..<m]"
    by (rule filter_cong) auto
  moreover have "length (filter (\<lambda>i. i = k) [0..<m]) = 1"
    using assms filter_key_singleton [of id "[0..<m]" k] by simp
  ultimately show ?case using Suc.IH by (simp add: filter_map o_def)
qed simp

lemma crockford_distinct: "distinct crockford" "length crockford = 32"
  by (simp_all add: crockford_def)

text \<open>Invite codes are unbiased: reducing a random byte modulo the alphabet gives every one of the 32
  characters from exactly 8 of the 256 byte values, so no code is likelier than another; a code has one
  character of the alphabet for every byte.\<close>

theorem invite_code_unbiased:
  "GenerateInviteCode (Some buf) = Inr code \<Longrightarrow>
     length code = length buf \<and> set code \<subseteq> set crockford \<and>
     (\<forall>c \<in> set crockford. length (filter (\<lambda>b. GenerateInviteCode (Some [b]) = Inr [c]) [0..<256]) = 8)"
proof -
  assume "GenerateInviteCode (Some buf) = Inr code"
  then have code: "code = map (\<lambda>b. crockford ! (b mod length crockford)) buf"
    by (simp add: GenerateInviteCode_def)
  have pos: "0 < length crockford" by (simp add: crockford_def)
  have "crockford ! (b mod length crockford) \<in> set crockford" for b
    using pos by (intro nth_mem mod_less_divisor)
  then have "set code \<subseteq> set crockford" unfolding code by auto
  moreover have "\<forall>c \<in> set crockford. length (filter (\<lambda>b. crockford ! (b mod length crockford) = c) [0..<256]) = 8"
  proof
    fix c assume "c \<in> set crockford"
    then obtain k where k: "k < 32" "c = crockford ! k" using crockford_distinct(2) by (metis in_set_conv_nth)
    then have "(crockford ! (b mod 32) = c) = (b mod 32 = k)" for b
      using crockford_distinct by (simp add: nth_eq_iff_index_eq)
    then show "length (filter (\<lambda>b. crockford ! (b mod length crockford) = c) [0..<256]) = 8"
      using length_filter_residue [OF k(1), of 8] by (simp add: crockford_distinct(2))
  qed
  ultimately show ?thesis by (simp add: code GenerateInviteCode_def)
qed

theorem invite_code_unbiased_witness:
  "length ''01'' = length [0::nat, 33] \<and> set ''01'' \<subseteq> set crockford"
  using invite_code_unbiased [of "[0, 33]" "''01''"] by (simp add: GenerateInviteCode_def crockford_def)

end
