(* ===== verification/Team_Lock.thy ===== *)
theory Team_Lock
  imports Prelude
begin

text \<open>
  The scheduler's per-team lock (\<^verbatim>\<open>refTeamLock\<close>, \<^verbatim>\<open>lockTeam\<close>, \<^verbatim>\<open>tryLockTeam\<close> of
  \<^verbatim>\<open>internal/scheduler/scheduler.go\<close>): a map from teams to heap-allocated locks, each a one-slot channel
  with a reference count, evicted when the count falls to zero.

  A pointer to a \<^verbatim>\<open>teamLock\<close> is a number; \<open>refs\<close> and \<open>full\<close> are the fields of the structs it points to
  (\<open>full\<close>: a value is in the channel's buffer). A \<open>session\<close> is one goroutine between its \<^verbatim>\<open>refTeamLock\<close> and
  the end of its release, with the pointer it got; every critical section of \<^verbatim>\<open>teamGuard\<close> and every channel
  operation is one step. Context cancellation and the \<^verbatim>\<open>default\<close> branch of the try may strike at any time.
\<close>

datatype stage = Waiting | Holding | Draining

type_synonym session = "uuid \<times> nat \<times> stage"

record lock_state =
  teamMu :: "uuid \<Rightarrow> nat option"
  refs :: "nat \<Rightarrow> int"
  full :: "nat \<Rightarrow> bool"
  next_ptr :: nat
  sessions :: "session list"

definition no_locks :: lock_state where
  "no_locks = \<lparr>teamMu = (\<lambda>_. None), refs = (\<lambda>_. 0), full = (\<lambda>_. False), next_ptr = 0, sessions = []\<rparr>"

definition refTeamLock :: "uuid \<Rightarrow> lock_state \<Rightarrow> lock_state \<times> nat" where
  "refTeamLock team s =
     (let (s1, lk) = (case teamMu s team of
            Some lk \<Rightarrow> (s, lk)
          | None \<Rightarrow> (s\<lparr>teamMu := (teamMu s)(team := Some (next_ptr s)),
                       refs := (refs s)(next_ptr s := 0), full := (full s)(next_ptr s := False),
                       next_ptr := next_ptr s + 1\<rparr>, next_ptr s))
      in (s1\<lparr>refs := (refs s1)(lk := refs s1 lk + 1)\<rparr>, lk))"

text \<open>The release function that \<^verbatim>\<open>refTeamLock\<close> returns.\<close>

definition release :: "uuid \<Rightarrow> nat \<Rightarrow> lock_state \<Rightarrow> lock_state" where
  "release team lk s =
     (let s1 = s\<lparr>refs := (refs s)(lk := refs s lk - 1)\<rparr>
      in if refs s1 lk = 0 then s1\<lparr>teamMu := (teamMu s1)(team := None)\<rparr> else s1)"

inductive lock_step :: "lock_state \<Rightarrow> lock_state \<Rightarrow> bool" where
  enter: "refTeamLock team s = (s', lk) \<Longrightarrow>
    lock_step s (s'\<lparr>sessions := (team, lk, Waiting) # sessions s\<rparr>)"
| acquire: "sessions s = xs @ (team, lk, Waiting) # ys \<Longrightarrow> \<not> full s lk \<Longrightarrow>
    lock_step s (s\<lparr>full := (full s)(lk := True), sessions := xs @ (team, lk, Holding) # ys\<rparr>)"
| give_up: "sessions s = xs @ (team, lk, Waiting) # ys \<Longrightarrow>
    lock_step s ((release team lk s)\<lparr>sessions := xs @ ys\<rparr>)"
| unlock: "sessions s = xs @ (team, lk, Holding) # ys \<Longrightarrow>
    lock_step s (s\<lparr>full := (full s)(lk := False), sessions := xs @ (team, lk, Draining) # ys\<rparr>)"
| drop_ref: "sessions s = xs @ (team, lk, Draining) # ys \<Longrightarrow>
    lock_step s ((release team lk s)\<lparr>sessions := xs @ ys\<rparr>)"

subsection \<open>The invariant\<close>

definition uses_lock :: "lock_state \<Rightarrow> nat \<Rightarrow> nat" where
  "uses_lock s l = length (filter (\<lambda>(t, l', g). l' = l) (sessions s))"

definition holders :: "lock_state \<Rightarrow> nat \<Rightarrow> nat" where
  "holders s l = length (filter (\<lambda>(t, l', g). l' = l \<and> g = Holding) (sessions s))"

definition lock_inv :: "lock_state \<Rightarrow> bool" where
  "lock_inv s \<longleftrightarrow>
     (\<forall>(t, l, g) \<in> set (sessions s). teamMu s t = Some l) \<and>
     (\<forall>t l. teamMu s t = Some l \<longrightarrow>
        l < next_ptr s \<and> refs s l = int (uses_lock s l) \<and> 0 < uses_lock s l \<and>
        holders s l = (if full s l then 1 else 0)) \<and>
     (\<forall>t t' l. teamMu s t = Some l \<longrightarrow> teamMu s t' = Some l \<longrightarrow> t = t')"

lemma lock_inv_no_locks: "lock_inv no_locks"
  by (simp add: lock_inv_def no_locks_def)

lemma inv_session:
  assumes "lock_inv s" "sessions s = xs @ (t, l, g) # ys"
  shows "teamMu s t = Some l" "refs s l = int (uses_lock s l)" "holders s l = (if full s l then 1 else 0)"
    "l < next_ptr s"
  using assms by (auto simp: lock_inv_def)

lemma inv_other:
  assumes "lock_inv s" "teamMu s t = Some l" "teamMu s t' = Some l'"
  shows "l = l' \<longleftrightarrow> t = t'"
  using assms unfolding lock_inv_def by (metis option.inject)

lemma enter_inv:
  assumes "lock_inv s" "refTeamLock team s = (s', lk)"
  shows "lock_inv (s'\<lparr>sessions := (team, lk, Waiting) # sessions s\<rparr>)"
proof (cases "teamMu s team")
  case (Some l)
  have "uses_lock (s'\<lparr>sessions := (team, lk, Waiting) # sessions s\<rparr>) k = uses_lock s k + (if k = l then 1 else 0)"
    "holders (s'\<lparr>sessions := (team, lk, Waiting) # sessions s\<rparr>) k = holders s k" for k
    using assms(2) Some by (auto simp: uses_lock_def holders_def refTeamLock_def)
  then show ?thesis
    using assms Some by (auto simp: lock_inv_def refTeamLock_def)
next
  case None
  have fresh: "uses_lock s (next_ptr s) = 0" "holders s (next_ptr s) = 0"
    using assms(1) by (fastforce simp: lock_inv_def uses_lock_def holders_def filter_empty_conv)+
  let ?s = "s'\<lparr>sessions := (team, lk, Waiting) # sessions s\<rparr>"
  let ?n = "next_ptr s"
  have fields: "teamMu ?s = (teamMu s)(team := Some ?n)" "refs ?s = (refs s)(?n := 1)"
    "full ?s = (full s)(?n := False)" "next_ptr ?s = ?n + 1" "lk = ?n"
    using assms(2) None by (auto simp: refTeamLock_def Let_def)
  have u: "uses_lock ?s k = uses_lock s k + (if k = ?n then 1 else 0)" "holders ?s k = holders s k" for k
    by (simp_all add: uses_lock_def holders_def fields(5))
  have old: "l < ?n \<and> refs s l = int (uses_lock s l) \<and> 0 < uses_lock s l
      \<and> holders s l = (if full s l then 1 else 0)" if "teamMu s t = Some l" for t l
    using assms(1) that unfolding lock_inv_def by blast
  have old': "teamMu ?s t = Some l \<longleftrightarrow> (t = team \<and> l = ?n) \<or> (t \<noteq> team \<and> teamMu s t = Some l)" for t l
    unfolding fields(1) by auto
  have "teamMu ?s t = Some l" if "(t, l, g) \<in> set (sessions ?s)" for t l g
    using that assms(1) None fields(5) unfolding old' by (fastforce simp: lock_inv_def)
  moreover have "l < next_ptr ?s \<and> refs ?s l = int (uses_lock ?s l) \<and> 0 < uses_lock ?s l
      \<and> holders ?s l = (if full ?s l then 1 else 0)" if t: "teamMu ?s t = Some l" for t l
  proof (cases "t = team")
    case True
    then show ?thesis using t fresh unfolding old' fields(2-4) u by simp
  next
    case False
    with t have "teamMu s t = Some l" unfolding old' by simp
    from old [OF this] show ?thesis unfolding fields(2-4) u by simp
  qed
  moreover have "t = t'" if "teamMu ?s t = Some l" "teamMu ?s t' = Some l" for t t' l
    using that inv_other [OF assms(1), of t l t' l] old unfolding old' by blast
  ultimately show ?thesis unfolding lock_inv_def by blast
qed

lemma restage_inv:
  assumes "lock_inv s" "sessions s = xs @ (team, lk, g) # ys"
    and "b \<longleftrightarrow> g' = Holding" "g = Holding \<or> g' = Holding" "g \<noteq> g'" "g' = Holding \<longrightarrow> \<not> full s lk"
  shows "lock_inv (s\<lparr>full := (full s)(lk := b), sessions := xs @ (team, lk, g') # ys\<rparr>)"
proof -
  let ?s = "s\<lparr>full := (full s)(lk := b), sessions := xs @ (team, lk, g') # ys\<rparr>"
  have u: "uses_lock ?s k = uses_lock s k" for k by (simp add: uses_lock_def assms(2))
  have o: "holders ?s k = holders s k" if "k \<noteq> lk" for k
    using that by (simp add: holders_def assms(2))
  have "holders ?s lk = (if b then 1 else 0)"
    using inv_session(3) [OF assms(1,2)] assms(3-6)
    by (auto simp: holders_def assms(2) split: if_splits)
  then show ?thesis
    using assms(1,2) u o by (auto simp: lock_inv_def)
qed

lemma release_inv:
  assumes "lock_inv s" "sessions s = xs @ (team, lk, g) # ys" "g \<noteq> Holding"
  shows "lock_inv ((release team lk s)\<lparr>sessions := xs @ ys\<rparr>)"
proof -
  let ?s = "(release team lk s)\<lparr>sessions := xs @ ys\<rparr>"
  note tm = inv_session [OF assms(1,2)]
  have u: "uses_lock s k = uses_lock ?s k + (if k = lk then 1 else 0)" for k
    by (simp add: uses_lock_def assms(2))
  have h: "holders ?s k = holders s k" for k using assms(3) by (simp add: holders_def assms(2))
  have others: "teamMu s t = Some l \<Longrightarrow> t \<noteq> team \<Longrightarrow> l \<noteq> lk" for t l
    using inv_other [OF assms(1)] tm(1) by blast
  have fields: "refs ?s = (refs s)(lk := refs s lk - 1)" "full ?s = full s" "next_ptr ?s = next_ptr s"
    "teamMu ?s = (if refs s lk = 1 then (teamMu s)(team := None) else teamMu s)" "sessions ?s = xs @ ys"
    by (simp_all add: release_def Let_def)
  have one: "refs s lk = 1 \<longleftrightarrow> uses_lock ?s lk = 0" using tm(2) u [of lk] by simp
  have sub: "teamMu ?s t = Some l \<Longrightarrow> teamMu s t = Some l" for t l
    by (auto simp: fields(4) split: if_splits)
  have keep: "teamMu ?s t = Some l" if "(t, l, g') \<in> set (sessions ?s)" for t l g'
  proof -
    have s: "teamMu s t = Some l" using assms(1,2) that fields(5) by (fastforce simp: lock_inv_def)
    have "l \<noteq> lk" if "refs s lk = 1"
      using \<open>(t, l, g') \<in> set (sessions ?s)\<close> that one by (auto simp: uses_lock_def filter_empty_conv)
    with s tm(1) show ?thesis by (auto simp: fields(4))
  qed
  have entry: "l < next_ptr ?s \<and> refs ?s l = int (uses_lock ?s l) \<and> 0 < uses_lock ?s l
      \<and> holders ?s l = (if full ?s l then 1 else 0)" if t: "teamMu ?s t = Some l" for t l
  proof -
    have "l < next_ptr s \<and> refs s l = int (uses_lock s l) \<and> 0 < uses_lock s l
      \<and> holders s l = (if full s l then 1 else 0)"
      using assms(1) sub [OF t] unfolding lock_inv_def by blast
    moreover have "refs s lk \<noteq> 1" if "l = lk"
      using that t others [OF sub [OF t]] by (auto simp: fields(4) split: if_splits)
    ultimately show ?thesis using u [of l] h [of l] one by (auto simp: fields(1-3))
  qed
  have "t = t'" if "teamMu ?s t = Some l" "teamMu ?s t' = Some l" for t t' l
    using inv_other [OF assms(1) sub [OF that(1)] sub [OF that(2)]] by simp
  with keep entry show ?thesis unfolding lock_inv_def by blast
qed

lemma lock_step_inv: "lock_step s s' \<Longrightarrow> lock_inv s \<Longrightarrow> lock_inv s'"
  by (induction rule: lock_step.induct) (auto intro: enter_inv restage_inv release_inv)

lemma lock_steps_inv: "lock_step\<^sup>*\<^sup>* no_locks s \<Longrightarrow> lock_inv s"
  by (induction rule: rtranclp_induct) (auto intro: lock_step_inv lock_inv_no_locks)

subsection \<open>Properties\<close>

text \<open>C39. The team lock excludes: in every reachable state, whatever goroutines wait, give up or release in
  between, at most one session of a team holds the lock. In particular eviction never leaves two sessions of
  one team on different locks.\<close>

theorem team_lock_mutual_exclusion:
  assumes "lock_step\<^sup>*\<^sup>* no_locks s"
  shows "length (filter (\<lambda>(t, l, g). t = team \<and> g = Holding) (sessions s)) \<le> 1"
proof -
  have inv: "lock_inv s" by (rule lock_steps_inv [OF assms])
  show ?thesis
  proof (cases "teamMu s team")
    case None
    then have "filter (\<lambda>(t, l, g). t = team \<and> g = Holding) (sessions s) = []"
      using inv by (fastforce simp: lock_inv_def filter_empty_conv)
    then show ?thesis by simp
  next
    case (Some l)
    have "teamMu s t = Some k \<Longrightarrow> (k = l) = (t = team)" for t k
      using inv_other [OF inv Some] by blast
    then have "\<And>x. x \<in> set (sessions s) \<Longrightarrow> (case x of (t, k, g) \<Rightarrow> t = team \<and> g = Holding)
        = (case x of (t, k, g) \<Rightarrow> k = l \<and> g = Holding)"
      using inv unfolding lock_inv_def by fastforce
    then have "filter (\<lambda>(t, k, g). t = team \<and> g = Holding) (sessions s)
        = filter (\<lambda>(t, k, g). k = l \<and> g = Holding) (sessions s)"
      by (intro filter_cong refl)
    moreover have "holders s l \<le> 1" using inv Some by (simp add: lock_inv_def)
    ultimately show ?thesis by (simp add: holders_def)
  qed
qed

definition one_holder :: lock_state where
  "one_holder = \<lparr>teamMu = (\<lambda>_. None)(7 := Some 0), refs = (\<lambda>_. 0)(0 := 1), full = (\<lambda>_. False)(0 := True),
     next_ptr = 1, sessions = [(7, 0, Holding)]\<rparr>"

lemma one_holder_reachable: "lock_step\<^sup>*\<^sup>* no_locks one_holder"
proof -
  let ?s = "\<lparr>teamMu = (\<lambda>_. None)(7 := Some 0), refs = (\<lambda>_. 0)(0 := 1), full = (\<lambda>_. False)(0 := False),
     next_ptr = 1, sessions = [(7, 0, Waiting)]\<rparr>"
  have 1: "lock_step no_locks ?s"
    using lock_step.enter [of 7 no_locks, OF surjective_pairing]
    by (simp add: refTeamLock_def no_locks_def Let_def)
  have 2: "lock_step ?s one_holder"
    using lock_step.acquire [of ?s "[]" 7 0 "[]"] by (simp add: one_holder_def)
  show ?thesis
    by (rule rtranclp.rtrancl_into_rtrancl [of lock_step, OF r_into_rtranclp [of lock_step, OF 1] 2])
qed

theorem team_lock_mutual_exclusion_witness:
  "length (filter (\<lambda>(t, l, g). t = 7 \<and> g = Holding) (sessions one_holder)) \<le> 1"
  by (rule team_lock_mutual_exclusion [OF one_holder_reachable])

text \<open>The lock map does not grow: a team has an entry exactly as long as some session of that team is
  under way.\<close>

theorem team_lock_evicted:
  assumes "lock_step\<^sup>*\<^sup>* no_locks s"
  shows "teamMu s team = None \<longleftrightarrow> filter (\<lambda>(t, l, g). t = team) (sessions s) = []"
proof -
  have inv: "lock_inv s" by (rule lock_steps_inv [OF assms])
  show ?thesis
  proof
    assume "teamMu s team = None"
    then show "filter (\<lambda>(t, l, g). t = team) (sessions s) = []"
      using inv by (fastforce simp: lock_inv_def filter_empty_conv)
  next
    assume none: "filter (\<lambda>(t, l, g). t = team) (sessions s) = []"
    show "teamMu s team = None"
    proof (rule ccontr)
      assume "teamMu s team \<noteq> None"
      then obtain l where l: "teamMu s team = Some l" by blast
      with inv have "0 < uses_lock s l" by (simp add: lock_inv_def)
      then obtain t g where "(t, l, g) \<in> set (sessions s)"
        by (fastforce simp: uses_lock_def length_greater_0_conv filter_empty_conv)
      moreover with inv have "teamMu s t = Some l" by (fastforce simp: lock_inv_def)
      with inv_other [OF inv l] have "t = team" by blast
      ultimately show False using none by (fastforce simp: filter_empty_conv)
    qed
  qed
qed

theorem team_lock_evicted_witness: "teamMu one_holder 8 = None"
  using team_lock_evicted [OF one_holder_reachable, of 8] by (simp add: one_holder_def)

end
