(* ===== verification/Reconcile.thy ===== *)
theory Reconcile
  imports Prelude
begin

text \<open>
  The reconcile decision (\<^verbatim>\<open>internal/runtime/reconcile.go\<close>): a pure function from what the Docker daemon
  shows and what the database believes to the list of actions to apply.

  Ids are the strings of the views. The maps \<^verbatim>\<open>byInstance\<close>, \<^verbatim>\<open>rowByID\<close> and \<^verbatim>\<open>protectedTeams\<close> are built by the
  source's loops, so a later entry replaces an earlier one with the same key. \<^verbatim>\<open>now.Sub\<close> saturates at 292
  years, which no comparison here can tell from the exact difference.
\<close>

subsection \<open>Views and actions\<close>

abbreviation (input) StatePending :: string where "StatePending \<equiv> ''pending''"
abbreviation (input) StateStarting :: string where "StateStarting \<equiv> ''starting''"
abbreviation (input) StateRunning :: string where "StateRunning \<equiv> ''running''"
abbreviation (input) StateUnhealthy :: string where "StateUnhealthy \<equiv> ''unhealthy''"
abbreviation (input) StateStopped :: string where "StateStopped \<equiv> ''stopped''"
abbreviation (input) StateError :: string where "StateError \<equiv> ''error''"
abbreviation (input) StateLost :: string where "StateLost \<equiv> ''lost''"

definition deployTimeout :: duration where
  "deployTimeout = 120 * second"

definition reconcileGrace :: duration where
  "reconcileGrace = deployTimeout + 30 * second"

record ContainerView =
  cv_ContainerID :: string
  cv_InstanceID :: string
  cv_Running :: bool

record InstanceRow =
  ir_InstanceID :: string
  ir_TeamID :: string
  ir_State :: string
  ir_ContainerID :: string
  ir_UpdatedAt :: time

record NetworkView =
  nv_NetworkID :: string
  nv_Name :: string
  nv_TeamID :: string
  nv_TeamNetwork :: bool
  nv_Attached :: int

datatype ActionKind =
  ActionMarkLost | ActionRemoveContainer | ActionRemoveNetwork | ActionFlagUnadopted | ActionFlagUnadoptedNetwork

record ReconcileStats =
  SkippedGrace :: int
  FutureRows :: int

record Action =
  a_Kind :: ActionKind
  a_InstanceID :: string
  a_ContainerID :: string
  a_NetworkID :: string
  a_Reason :: string

fun metricLabel :: "ActionKind \<Rightarrow> string" where
  "metricLabel ActionMarkLost = ''mark_lost''"
| "metricLabel ActionRemoveContainer = ''remove_container''"
| "metricLabel ActionRemoveNetwork = ''remove_network''"
| "metricLabel ActionFlagUnadopted = ''flag_unadopted''"
| "metricLabel ActionFlagUnadoptedNetwork = ''flag_unadopted_network''"

definition mark_lost_action :: "string \<Rightarrow> Action" where
  "mark_lost_action i = \<lparr>a_Kind = ActionMarkLost, a_InstanceID = i, a_ContainerID = [], a_NetworkID = [],
     a_Reason = ''container vanished''\<rparr>"

definition container_action :: "ActionKind \<Rightarrow> string \<Rightarrow> string \<Rightarrow> Action" where
  "container_action k c reason =
     \<lparr>a_Kind = k, a_InstanceID = [], a_ContainerID = c, a_NetworkID = [], a_Reason = reason\<rparr>"

definition network_action :: "ActionKind \<Rightarrow> string \<Rightarrow> string \<Rightarrow> Action" where
  "network_action k n reason =
     \<lparr>a_Kind = k, a_InstanceID = [], a_ContainerID = [], a_NetworkID = n, a_Reason = reason\<rparr>"

subsection \<open>The decision\<close>

definition byInstance :: "ContainerView list \<Rightarrow> string \<Rightarrow> ContainerView option" where
  "byInstance observed =
     fold (\<lambda>c m. if cv_InstanceID c \<noteq> [] then m(cv_InstanceID c := Some c) else m) observed (\<lambda>_. None)"

definition rowByID :: "InstanceRow list \<Rightarrow> string \<Rightarrow> InstanceRow option" where
  "rowByID rows = fold (\<lambda>r m. m(ir_InstanceID r := Some r)) rows (\<lambda>_. None)"

definition protectedTeams :: "time \<Rightarrow> InstanceRow list \<Rightarrow> string \<Rightarrow> bool" where
  "protectedTeams now rows =
     fold (\<lambda>r m. if ir_TeamID r \<noteq> [] \<and>
                   (ir_State r = StatePending \<or> now - ir_UpdatedAt r < reconcileGrace)
                 then m(ir_TeamID r := True) else m) rows (\<lambda>_. False)"

definition row_stats :: "time \<Rightarrow> InstanceRow \<Rightarrow> ReconcileStats \<Rightarrow> ReconcileStats" where
  "row_stats now r st =
     (let age = now - ir_UpdatedAt r;
          st = (if age < 0 then st\<lparr>FutureRows := FutureRows st + 1\<rparr> else st)
      in if age < reconcileGrace then st\<lparr>SkippedGrace := SkippedGrace st + 1\<rparr> else st)"

definition row_actions :: "time \<Rightarrow> (string \<Rightarrow> ContainerView option) \<Rightarrow> InstanceRow \<Rightarrow> Action list" where
  "row_actions now by r =
     (if now - ir_UpdatedAt r < reconcileGrace then []
      else if by (ir_InstanceID r) \<noteq> None then []
      else if ir_State r = StateRunning \<or> ir_State r = StateStarting \<or> ir_State r = StateUnhealthy
        then [mark_lost_action (ir_InstanceID r)]
      else [])"

definition container_actions :: "time \<Rightarrow> (string \<Rightarrow> InstanceRow option) \<Rightarrow> ContainerView \<Rightarrow> Action list" where
  "container_actions now byid c =
     (if cv_InstanceID c = []
      then [container_action ActionFlagUnadopted (cv_ContainerID c)
              ''managed container with missing/unparseable instance_id label'']
      else case byid (cv_InstanceID c) of
             None \<Rightarrow> [container_action ActionRemoveContainer (cv_ContainerID c)
                       (''orphan container (no row) for instance '' @ cv_InstanceID c)]
           | Some r \<Rightarrow>
               if now - ir_UpdatedAt r < reconcileGrace \<or> ir_ContainerID r = [] then []
               else if ir_ContainerID r \<noteq> cv_ContainerID c
                 then [container_action ActionRemoveContainer (cv_ContainerID c)
                         (''stale container superseded for instance '' @ cv_InstanceID c)]
               else [])"

definition network_actions :: "(string \<Rightarrow> bool) \<Rightarrow> NetworkView \<Rightarrow> Action list" where
  "network_actions protected n =
     (if \<not> nv_TeamNetwork n \<or> nv_Attached n \<noteq> 0 then []
      else if nv_TeamID n = []
        then [network_action ActionFlagUnadoptedNetwork (nv_NetworkID n)
                (''team network with no resolvable team_id '' @ nv_Name n)]
      else if \<not> protected (nv_TeamID n)
        then [network_action ActionRemoveNetwork (nv_NetworkID n) (''empty team network '' @ nv_Name n)]
      else [])"

definition Reconcile ::
  "ContainerView list \<Rightarrow> InstanceRow list \<Rightarrow> NetworkView list \<Rightarrow> time \<Rightarrow> Action list \<times> ReconcileStats" where
  "Reconcile observed rows networks now =
     (concat (map (row_actions now (byInstance observed)) rows) @
      concat (map (container_actions now (rowByID rows)) observed) @
      concat (map (network_actions (protectedTeams now rows)) networks),
      fold (row_stats now) rows \<lparr>SkippedGrace = 0, FutureRows = 0\<rparr>)"

subsection \<open>What the maps hold\<close>

lemma byInstance_None: "byInstance observed i = None \<longleftrightarrow> (\<forall>c \<in> set observed. cv_InstanceID c = i \<longrightarrow> i = [])"
proof -
  have "fold (\<lambda>c m. if cv_InstanceID c \<noteq> [] then m(cv_InstanceID c := Some c) else m) observed m i = None \<longleftrightarrow>
    m i = None \<and> (\<forall>c \<in> set observed. cv_InstanceID c = i \<longrightarrow> i = [])" for m
    by (induction observed arbitrary: m) auto
  then show ?thesis by (simp add: byInstance_def)
qed

lemma rowByID_None: "rowByID rows i = None \<longleftrightarrow> i \<notin> ir_InstanceID ` set rows"
proof -
  have "fold (\<lambda>r m. m(ir_InstanceID r := Some r)) rows m i = None \<longleftrightarrow>
    m i = None \<and> i \<notin> ir_InstanceID ` set rows" for m
    by (induction rows arbitrary: m) auto
  then show ?thesis by (simp add: rowByID_def)
qed

lemma rowByID_Some: "rowByID rows i = Some r \<Longrightarrow> r \<in> set rows \<and> ir_InstanceID r = i"
proof -
  have "fold (\<lambda>r m. m(ir_InstanceID r := Some r)) rows m i = Some r \<Longrightarrow>
    m i = Some r \<or> r \<in> set rows \<and> ir_InstanceID r = i" for m
    by (induction rows arbitrary: m) (fastforce split: if_splits)+
  then show "rowByID rows i = Some r \<Longrightarrow> ?thesis" unfolding rowByID_def by fastforce
qed

lemma rowByID_distinct:
  assumes "distinct (map ir_InstanceID rows)" "r \<in> set rows"
  shows "rowByID rows (ir_InstanceID r) = Some r"
proof -
  obtain r' where "rowByID rows (ir_InstanceID r) = Some r'"
    using assms(2) rowByID_None [of rows "ir_InstanceID r"] by fastforce
  moreover from rowByID_Some [OF this] have "r' = r"
    using assms by (auto simp: distinct_map inj_on_def)
  ultimately show ?thesis by simp
qed

lemma protectedTeams_iff:
  "protectedTeams now rows t \<longleftrightarrow>
   (\<exists>r \<in> set rows. ir_TeamID r = t \<and> t \<noteq> [] \<and> (ir_State r = StatePending \<or> now - ir_UpdatedAt r < reconcileGrace))"
proof -
  let ?P = "\<lambda>r. ir_State r = StatePending \<or> now - ir_UpdatedAt r < reconcileGrace"
  have "fold (\<lambda>r m. if ir_TeamID r \<noteq> [] \<and> ?P r then m(ir_TeamID r := True) else m) rows m t \<longleftrightarrow>
    m t \<or> (\<exists>r \<in> set rows. ir_TeamID r = t \<and> t \<noteq> [] \<and> ?P r)" for m
    by (induction rows arbitrary: m) auto
  then show ?thesis by (simp add: protectedTeams_def)
qed

subsection \<open>Properties\<close>

text \<open>The ids that the actions of one kind name.\<close>

definition targets :: "ActionKind \<Rightarrow> (Action \<Rightarrow> string) \<Rightarrow> Action list \<Rightarrow> string set" where
  "targets k f actions = f ` set (filter (\<lambda>a. a_Kind a = k) actions)"

lemma targets_append [simp]: "targets k f (xs @ ys) = targets k f xs \<union> targets k f ys"
  by (auto simp: targets_def)

lemma targets_concat_map: "targets k f (concat (map g xs)) = (\<Union>x \<in> set xs. targets k f (g x))"
  by (auto simp: targets_def)

lemma UN_if_single: "(\<Union>x \<in> set xs. if P x then {f x} else {}) = f ` set (filter P xs)"
  by (induction xs) auto

lemma byInstance_image: "byInstance observed i = None \<longleftrightarrow> i \<notin> cv_InstanceID ` set observed - {[]}"
  unfolding byInstance_None by auto

lemma protectedTeams_image:
  "protectedTeams now rows t \<longleftrightarrow> t \<noteq> [] \<and>
   t \<in> ir_TeamID ` set (filter (\<lambda>r. ir_State r = StatePending \<or> now - ir_UpdatedAt r < reconcileGrace) rows)"
  unfolding protectedTeams_iff by auto

lemma targets_if: "targets k f (if b then xs else ys) = (if b then targets k f xs else targets k f ys)"
  by simp

lemma targets_single: "targets k f [] = {}" "targets k f [a] = (if a_Kind a = k then {f a} else {})"
  by (simp_all add: targets_def)

lemma action_fields [simp]:
  "a_Kind (mark_lost_action i) = ActionMarkLost" "a_InstanceID (mark_lost_action i) = i"
  "a_Kind (container_action k c r) = k" "a_ContainerID (container_action k c r) = c"
  "a_Kind (network_action k c r) = k" "a_NetworkID (network_action k c r) = c"
  by (simp_all add: mark_lost_action_def container_action_def network_action_def)

lemma targets_row:
  "targets ActionMarkLost a_InstanceID (row_actions now by r) =
     (if reconcileGrace \<le> now - ir_UpdatedAt r \<and> by (ir_InstanceID r) = None \<and>
         ir_State r \<in> {StateRunning, StateStarting, StateUnhealthy}
      then {ir_InstanceID r} else {})"
  "k \<noteq> ActionMarkLost \<Longrightarrow> targets k f (row_actions now by r) = {}"
  by (auto simp: row_actions_def targets_if targets_single)

lemma targets_container:
  "targets ActionMarkLost f (container_actions now byid c) = {}"
  "targets ActionRemoveNetwork f (container_actions now byid c) = {}"
  "targets ActionRemoveContainer a_ContainerID (container_actions now byid c) =
     (if cv_InstanceID c \<noteq> [] \<and>
         (case byid (cv_InstanceID c) of
            None \<Rightarrow> True
          | Some r \<Rightarrow> reconcileGrace \<le> now - ir_UpdatedAt r \<and> ir_ContainerID r \<notin> {[], cv_ContainerID c})
      then {cv_ContainerID c} else {})"
  by (cases "byid (cv_InstanceID c)"; simp add: container_actions_def targets_single)+

lemma targets_network:
  "targets ActionMarkLost f (network_actions p n) = {}"
  "targets ActionRemoveContainer f (network_actions p n) = {}"
  "targets ActionRemoveNetwork a_NetworkID (network_actions p n) =
     (if nv_TeamNetwork n \<and> nv_Attached n = 0 \<and> nv_TeamID n \<noteq> [] \<and> \<not> p (nv_TeamID n)
      then {nv_NetworkID n} else {})"
  by (simp_all add: network_actions_def targets_single)

lemmas targets_Reconcile = Reconcile_def fst_conv targets_append targets_concat_map UN_if_single

lemma marked_lost:
  "targets ActionMarkLost a_InstanceID (fst (Reconcile observed rows networks now)) =
     ir_InstanceID ` set (filter (\<lambda>r. reconcileGrace \<le> now - ir_UpdatedAt r \<and>
       ir_InstanceID r \<notin> cv_InstanceID ` set observed - {[]} \<and>
       ir_State r \<in> {StateRunning, StateStarting, StateUnhealthy}) rows)"
  unfolding targets_Reconcile targets_row targets_container targets_network byInstance_image by simp

lemma removed_containers:
  "targets ActionRemoveContainer a_ContainerID (fst (Reconcile observed rows networks now)) =
     cv_ContainerID ` set (filter (\<lambda>c. cv_InstanceID c \<noteq> [] \<and>
        (case rowByID rows (cv_InstanceID c) of
           None \<Rightarrow> True
         | Some r \<Rightarrow> reconcileGrace \<le> now - ir_UpdatedAt r \<and> ir_ContainerID r \<notin> {[], cv_ContainerID c})) observed)"
  unfolding targets_Reconcile targets_container targets_network by (simp add: targets_row)

lemma removed_networks:
  "targets ActionRemoveNetwork a_NetworkID (fst (Reconcile observed rows networks now)) =
     nv_NetworkID ` set (filter (\<lambda>n. nv_TeamNetwork n \<and> nv_Attached n = 0 \<and> nv_TeamID n \<noteq> [] \<and>
        \<not> protectedTeams now rows (nv_TeamID n)) networks)"
  unfolding targets_Reconcile targets_container targets_network by (simp add: targets_row)

lemma rowByID_case:
  assumes "distinct (map ir_InstanceID rows)"
  shows "(case rowByID rows i of None \<Rightarrow> True | Some r \<Rightarrow> P r) \<longleftrightarrow>
    i \<notin> ir_InstanceID ` set rows \<or> i \<in> ir_InstanceID ` set (filter P rows)"
proof (cases "rowByID rows i")
  case None
  then show ?thesis using rowByID_None [of rows i] by simp
next
  case (Some r)
  from rowByID_Some [OF Some] have r: "r \<in> set rows" "ir_InstanceID r = i" by simp_all
  have uniq: "r' = r" if "r' \<in> set rows" "ir_InstanceID r' = i" for r'
    using assms r that unfolding distinct_map inj_on_def by blast
  have "P r \<longleftrightarrow> i \<in> ir_InstanceID ` set (filter P rows)"
    using r uniq unfolding set_filter image_iff by blast
  moreover have "i \<in> ir_InstanceID ` set rows" using r by blast
  ultimately show ?thesis using Some by simp
qed

text \<open>C16. Exactly what a pass does. It marks lost the rows past the grace period in state running,
  starting or unhealthy for which the daemon shows no container. It removes a labelled container when no
  row has its instance id, or when the row is past the grace period and committed to another container. It
  removes an empty labelled team bridge when the team has neither a pending nor a fresh row. Pending rows,
  fresh rows, rows with no committed container, and unlabelled resources are never touched.\<close>

theorem reconcile_exact:
  assumes "distinct (map ir_InstanceID rows)"
  shows "targets ActionMarkLost a_InstanceID (fst (Reconcile observed rows networks now)) =
      ir_InstanceID ` set (filter (\<lambda>r. reconcileGrace \<le> now - ir_UpdatedAt r \<and>
        ir_InstanceID r \<notin> cv_InstanceID ` set observed - {[]} \<and>
        ir_State r \<in> {StateRunning, StateStarting, StateUnhealthy}) rows) \<and>
    targets ActionRemoveContainer a_ContainerID (fst (Reconcile observed rows networks now)) =
      cv_ContainerID ` set (filter (\<lambda>c. cv_InstanceID c \<noteq> [] \<and>
        (cv_InstanceID c \<notin> ir_InstanceID ` set rows \<or>
         cv_InstanceID c \<in> ir_InstanceID ` set (filter (\<lambda>r. reconcileGrace \<le> now - ir_UpdatedAt r \<and>
           ir_ContainerID r \<notin> {[], cv_ContainerID c}) rows))) observed) \<and>
    targets ActionRemoveNetwork a_NetworkID (fst (Reconcile observed rows networks now)) =
      nv_NetworkID ` set (filter (\<lambda>n. nv_TeamNetwork n \<and> nv_Attached n = 0 \<and> nv_TeamID n \<noteq> [] \<and>
        nv_TeamID n \<notin> ir_TeamID ` set (filter (\<lambda>r. ir_State r = StatePending \<or>
          now - ir_UpdatedAt r < reconcileGrace) rows)) networks)"
  unfolding marked_lost removed_containers removed_networks rowByID_case [OF assms] protectedTeams_image
  by (intro conjI refl arg_cong [of _ _ "\<lambda>xs. nv_NetworkID ` set xs"] filter_cong) auto

definition sample_rows :: "InstanceRow list" where
  "sample_rows =
    [\<lparr>ir_InstanceID = ''i1'', ir_TeamID = ''t1'', ir_State = ''running'', ir_ContainerID = ''c1'', ir_UpdatedAt = 0\<rparr>,
     \<lparr>ir_InstanceID = ''i2'', ir_TeamID = ''t2'', ir_State = ''pending'', ir_ContainerID = [], ir_UpdatedAt = 0\<rparr>]"

definition sample_observed :: "ContainerView list" where
  "sample_observed = [\<lparr>cv_ContainerID = ''c9'', cv_InstanceID = ''i9'', cv_Running = True\<rparr>,
     \<lparr>cv_ContainerID = ''c2'', cv_InstanceID = ''i2'', cv_Running = True\<rparr>]"

definition sample_networks :: "NetworkView list" where
  "sample_networks =
    [\<lparr>nv_NetworkID = ''n1'', nv_Name = ''a'', nv_TeamID = ''t1'', nv_TeamNetwork = True, nv_Attached = 0\<rparr>,
     \<lparr>nv_NetworkID = ''n2'', nv_Name = ''b'', nv_TeamID = ''t2'', nv_TeamNetwork = True, nv_Attached = 0\<rparr>]"

theorem reconcile_exact_witness:
  "''i1'' \<in> targets ActionMarkLost a_InstanceID
     (fst (Reconcile sample_observed sample_rows sample_networks (200 * second))) \<and>
   ''c9'' \<in> targets ActionRemoveContainer a_ContainerID
     (fst (Reconcile sample_observed sample_rows sample_networks (200 * second))) \<and>
   ''n2'' \<notin> targets ActionRemoveNetwork a_NetworkID
     (fst (Reconcile sample_observed sample_rows sample_networks (200 * second)))"
proof -
  have d: "distinct (map ir_InstanceID sample_rows)" by (simp add: sample_rows_def)
  note * = reconcile_exact [OF d, of sample_observed sample_networks "200 * second"]
  show ?thesis unfolding conjunct1 [OF *] conjunct1 [OF conjunct2 [OF *]] conjunct2 [OF conjunct2 [OF *]]
    by (auto simp: sample_rows_def sample_observed_def sample_networks_def reconcileGrace_def deployTimeout_def
        second_def)
qed

text \<open>The views of one pass.\<close>

type_synonym views = "ContainerView list \<times> InstanceRow list \<times> NetworkView list"

end
