(* ===== verification/Runtime.thy ===== *)
theory Runtime
  imports Database_Instances Reconcile
begin

text \<open>
  The interface between the instance manager and the container runtimes (\<^verbatim>\<open>internal/runtime/runtime.go\<close>):
  the desired spec, the observed instance, and the operations of \<^verbatim>\<open>ChallengeRuntime\<close>.

  The operations run outside transactions, next to every other writer of the database. \<open>world\<close> collects what
  they do not control, per statement: \<open>interf\<close> is what other sessions did to the database just before the
  statement, \<open>stmt_fails\<close> whether it returns a driver error (and then has no effect), \<open>db_now\<close> the server's
  \<^verbatim>\<open>now()\<close>, \<open>clock\<close> the process's clock.

  The locale \<open>challenge_runtime\<close> states what the manager and the scheduler rely on: an operation writes only the
  row of the instance it is called for, and never the columns that say who owns it. The Docker and the fake
  runtime are its two interpretations.
\<close>

subsection \<open>Types\<close>

record InstanceSpec =
  sp_InstanceID :: uuid
  sp_ChallengeID :: uuid
  sp_Slug :: string
  sp_Image :: string
  sp_InternalPort :: int
  sp_HostPort :: int
  sp_MemLimitMB :: int
  sp_CPUMillis :: int
  sp_Env :: "string \<Rightarrow> string option"
  sp_TeamID :: "uuid option"
  sp_NetworkName :: string
  sp_NoEgress :: bool
  sp_ReadonlyRootfs :: bool
  sp_Tmpfs :: "string list"

record RInstance =
  n_ID :: uuid
  n_ChallengeID :: uuid
  n_TeamID :: "uuid option"
  n_State :: string
  n_ContainerID :: string
  n_HostPort :: int
  n_Network :: string
  n_StartedAt :: "time option"
  n_LastHealthAt :: "time option"
  n_ExpiresAt :: "time option"
  n_Err :: string

fun IsUnavailable :: "app_error \<Rightarrow> bool" where
  "IsUnavailable (RuntimeUnavailable _) = True"
| "IsUnavailable _ = False"

definition rowToInstance :: "Instance \<Rightarrow> RInstance" where
  "rowToInstance row =
     \<lparr>n_ID = i_ID row, n_ChallengeID = i_ChallengeID row, n_TeamID = i_TeamID row, n_State = i_State row,
      n_ContainerID = coalesce (i_ContainerID row) [], n_HostPort = coalesce (i_HostPort row) 0,
      n_Network = coalesce (i_Network row) [], n_StartedAt = i_StartedAt row,
      n_LastHealthAt = i_LastHealthAt row, n_ExpiresAt = i_ExpiresAt row, n_Err = coalesce (i_Error row) []\<rparr>"

definition derefPortRow :: "Instance \<Rightarrow> int" where
  "derefPortRow row = coalesce (i_HostPort row) 0"

subsection \<open>Statements outside a transaction\<close>

datatype inst_call =
    QGetChallenge nat | QGetEvent | QGetInstance nat | QUpdate nat | QUsedPorts | QCreate int | QRefetch
  | QCount | QDelete | QSetExpiry | QList | QClock | QRow uuid inst_call

record world =
  stmt_fails :: "inst_call \<Rightarrow> bool"
  interf :: "inst_call \<Rightarrow> db \<Rightarrow> db"
  db_now :: "inst_call \<Rightarrow> time"
  clock :: "inst_call \<Rightarrow> time"

text \<open>The world of the statements made on behalf of one row of a sweep.\<close>

definition at_row :: "uuid \<Rightarrow> world \<Rightarrow> world" where
  "at_row i w = \<lparr>stmt_fails = (\<lambda>c. stmt_fails w (QRow i c)), interf = (\<lambda>c. interf w (QRow i c)),
     db_now = (\<lambda>c. db_now w (QRow i c)), clock = (\<lambda>c. clock w (QRow i c))\<rparr>"

definition get_row :: "world \<Rightarrow> inst_call \<Rightarrow> db \<Rightarrow> uuid \<Rightarrow> db \<times> Instance result" where
  "get_row w c d i =
     (let d = interf w c d
      in if stmt_fails w c then (d, Inl (Internal ''runtime: get instance''))
         else case GetInstanceByID d i of
                None \<Rightarrow> (d, Inl (Internal ''runtime: get instance''))
              | Some n \<Rightarrow> (d, Inr n))"

definition update_row ::
  "world \<Rightarrow> inst_call \<Rightarrow> db \<Rightarrow> uuid \<Rightarrow> string option \<Rightarrow> string option \<Rightarrow> bool \<Rightarrow> string option \<Rightarrow> time option \<Rightarrow>
   time option \<Rightarrow> db \<times> Instance result" where
  "update_row w c d i state container set_error err started health =
     (let d = interf w c d
      in if stmt_fails w c then (d, Inl (Internal ''update instance''))
         else case UpdateInstance d (db_now w c) i state container set_error err started health of
                Inl _ \<Rightarrow> (d, Inl (Internal ''update instance''))
              | Inr (d', None) \<Rightarrow> (d', Inl (Internal ''update instance''))
              | Inr (d', Some n) \<Rightarrow> (d', Inr n))"

subsection \<open>The interface\<close>

text \<open>\<open>'s\<close> is the state a runtime keeps outside the database.\<close>

record 's runtime =
  rt_Deploy :: "world \<Rightarrow> 's \<Rightarrow> db \<Rightarrow> InstanceSpec \<Rightarrow> 's \<times> db \<times> RInstance result"
  rt_Stop :: "world \<Rightarrow> 's \<Rightarrow> db \<Rightarrow> uuid \<Rightarrow> 's \<times> db \<times> unit result"
  rt_Destroy :: "'s \<Rightarrow> uuid \<Rightarrow> 's \<times> unit result"
  rt_Status :: "world \<Rightarrow> 's \<Rightarrow> db \<Rightarrow> uuid \<Rightarrow> 's \<times> db \<times> RInstance result"

text \<open>The columns that no runtime operation writes.\<close>

definition owner :: "Instance \<Rightarrow> uuid \<times> uuid \<times> int option \<times> time \<times> uuid option \<times> string option \<times> time option \<times> string option" where
  "owner n = (i_ID n, i_ChallengeID n, i_HostPort n, i_CreatedAt n, i_TeamID n, i_Flag n, i_ExpiresAt n, i_Network n)"

definition keeps_owner :: "(Instance \<Rightarrow> Instance) \<Rightarrow> bool" where
  "keeps_owner f \<longleftrightarrow> (\<forall>n. owner (f n) = owner n \<and> (i_State n \<in> set instance_states \<longrightarrow> i_State (f n) \<in> set instance_states))"

text \<open>What a runtime operation on row \<open>i\<close> may do to the database, with the other sessions' writes in between.\<close>

inductive row_steps :: "world \<Rightarrow> uuid \<Rightarrow> db \<Rightarrow> db \<Rightarrow> bool" for w i where
  stay: "row_steps w i d d"
| interfere: "row_steps w i d d' \<Longrightarrow> row_steps w i d (interf w c d')"
| own_row: "row_steps w i d d' \<Longrightarrow> keeps_owner f \<Longrightarrow> row_steps w i d (update_instance d' i f)"

locale challenge_runtime =
  fixes rt :: "'s runtime"
  assumes deploy_steps: "rt_Deploy rt w s d spec = (s', d', r) \<Longrightarrow> row_steps w (sp_InstanceID spec) d d'"
    and stop_steps: "rt_Stop rt w s d i = (s', d', r1) \<Longrightarrow> row_steps w i d d'"
    and status_steps: "rt_Status rt w s d i = (s', d', r) \<Longrightarrow> row_steps w i d d'"
    and deploy_row: "rt_Deploy rt w s d spec = (s', d', Inr inst) \<Longrightarrow>
      (\<exists>n. GetInstanceByID d' (sp_InstanceID spec) = Some n \<and> inst = rowToInstance n)"

subsection \<open>Facts on rows\<close>

lemma row_steps_trans: "row_steps w i d2 d3 \<Longrightarrow> row_steps w i d1 d2 \<Longrightarrow> row_steps w i d1 d3"
  by (induction rule: row_steps.induct) (auto intro: row_steps.intros)

lemma keeps_owner_fields:
  assumes "keeps_owner f"
  shows "i_ID (f n) = i_ID n" "i_HostPort (f n) = i_HostPort n" "i_Flag (f n) = i_Flag n"
    "i_ChallengeID (f n) = i_ChallengeID n" "i_TeamID (f n) = i_TeamID n" "i_ExpiresAt (f n) = i_ExpiresAt n"
    "i_Network (f n) = i_Network n"
    "i_State n \<in> set instance_states \<Longrightarrow> i_State (f n) \<in> set instance_states"
  using assms unfolding keeps_owner_def owner_def prod.inject by blast+

lemma find_key_update:
  assumes "\<And>n. k (f n) = k n"
  shows "List.find (\<lambda>n. k n = i) (map (\<lambda>n. if k n = i then f n else n) xs) = map_option f (List.find (\<lambda>n. k n = i) xs)"
  by (induction xs) (auto simp: assms)

lemma GetInstanceByID_update:
  assumes "keeps_owner f"
  shows "GetInstanceByID (update_instance d i f) i = map_option f (GetInstanceByID d i)"
  unfolding GetInstanceByID_def update_instance_def
  by (simp add: find_key_update [of i_ID f] keeps_owner_fields(1) [OF assms])

lemma GetInstanceByID_Some: "GetInstanceByID d i = Some n \<Longrightarrow> n \<in> set (instances d) \<and> i_ID n = i"
  by (metis (mono_tags, lifting) GetInstanceByID_def find_Some_iff nth_mem)

lemma get_row_steps: "get_row w c d i = (d', r) \<Longrightarrow> row_steps w i d d'"
  by (auto simp: get_row_def Let_def split: if_splits option.splits intro: row_steps.intros)

lemma get_row_Inr: "get_row w c d i = (d', Inr n) \<Longrightarrow> GetInstanceByID d' i = Some n"
  by (auto simp: get_row_def Let_def split: if_splits option.splits)

lemma UpdateInstance_cases:
  assumes "UpdateInstance d now i state container set_error err started health = Inr (d', r)"
    and "\<And>s. state = Some s \<Longrightarrow> s \<in> set instance_states"
  obtains f where "keeps_owner f" "d' = update_instance d i f" "r = map_option f (GetInstanceByID d i)"
    "\<And>n. i_UpdatedAt (f n) = now" "\<And>n. i_State (f n) = coalesce state (i_State n)"
proof (rule that [of "update_fields now state container set_error err started health"])
  show "keeps_owner (update_fields now state container set_error err started health)"
    using assms(2) by (auto simp: keeps_owner_def owner_def update_fields_def coalesce_def split: option.splits)
qed (use assms(1) in \<open>auto simp: UpdateInstance_def update_fields_def Let_def split: if_splits\<close>)

lemma update_row_spec:
  assumes "update_row w c d i state container set_error err started health = (d', r)"
    and "\<And>s. state = Some s \<Longrightarrow> s \<in> set instance_states"
  shows "row_steps w i d d'" and "r = Inr n \<Longrightarrow> GetInstanceByID d' i = Some n"
proof -
  have e: "row_steps w i d (interf w c d)" by (intro row_steps.intros)
  have u: "row_steps w i d d'' \<and> (m = Some n \<longrightarrow> GetInstanceByID d'' i = Some n)"
    if "UpdateInstance (interf w c d) (db_now w c) i state container set_error err started health = Inr (d'', m)" for d'' m
    using that assms(2)
  proof (rule UpdateInstance_cases)
    fix f assume "keeps_owner f" "d'' = update_instance (interf w c d) i f"
      "m = map_option f (GetInstanceByID (interf w c d) i)"
    then show ?thesis using e by (auto simp: GetInstanceByID_update intro: row_steps.own_row)
  qed
  show "row_steps w i d d'"
    using assms(1) e u
    by (auto simp: update_row_def Let_def split: if_splits sum.splits option.splits prod.splits)
  show "r = Inr n \<Longrightarrow> GetInstanceByID d' i = Some n"
    using assms(1) u
    by (auto simp: update_row_def Let_def split: if_splits sum.splits option.splits prod.splits)
qed

text \<open>The induction principle the clients use: what survives interference and writes to row \<open>i\<close>.\<close>

lemma row_steps_invariant:
  assumes "row_steps w i d d'" "P d"
    and "\<And>c x. P x \<Longrightarrow> P (interf w c x)"
    and "\<And>f x. P x \<Longrightarrow> keeps_owner f \<Longrightarrow> P (update_instance x i f)"
  shows "P d'"
  using assms by (induction rule: row_steps.induct) auto

lemma update_instance_keeps_ok:
  assumes "instances_ok d" "keeps_owner f"
  shows "instances_ok (update_instance d i f)"
  using assms(1)
  by (rule update_instance_ok)
     (use assms in \<open>auto simp: keeps_owner_fields [OF assms(2)] instances_ok_def list_all_iff\<close>)

lemma row_steps_ok:
  assumes "row_steps w i d d'" "instances_ok d" "\<And>c x. instances_ok x \<Longrightarrow> instances_ok (interf w c x)"
  shows "instances_ok d'"
  using assms(1,2) by (rule row_steps_invariant) (auto intro: assms(3) update_instance_keeps_ok)

end
