(* ===== verification/Docker.thy ===== *)
theory Docker
  imports Runtime Go_Strings
begin

text \<open>
  The Docker runtime (\<^verbatim>\<open>internal/runtime/docker.go\<close>): deploy, stop, destroy, status, and the reconcile pass
  around the pure decision.

  The daemon is not part of the program: \<open>docker\<close> is the parameter that answers its API calls. Every call is
  recorded, and an answer may depend on the whole record, so no assumption is made on what the daemon does
  between two calls. An answer is a value or one of the three kinds of error that the code tells apart.
  \<open>str\<close> and \<open>parse\<close> are \<^verbatim>\<open>UUID.String\<close> and \<^verbatim>\<open>uuid.Parse\<close> of \<^verbatim>\<open>google/uuid\<close>.
\<close>

subsection \<open>The daemon's API\<close>

datatype 'a answer = Ok 'a | NotFoundErr string | ConnErr string | OtherErr string

fun answer_err :: "'a answer \<Rightarrow> string option" where
  "answer_err (Ok _) = None"
| "answer_err (NotFoundErr m) = Some m"
| "answer_err (ConnErr m) = Some m"
| "answer_err (OtherErr m) = Some m"

fun is_conn :: "'a answer \<Rightarrow> bool" where
  "is_conn (ConnErr _) = True"
| "is_conn _ = False"

type_synonym labels = "string \<Rightarrow> string option"

text \<open>Indexing a Go map of labels: a missing key reads as the empty text.\<close>

definition label :: "labels \<Rightarrow> string \<Rightarrow> string" where
  "label m k = coalesce (m k) []"

record net_info =
  ni_ID :: string
  ni_Name :: string
  ni_Labels :: labels

record net_full =
  nf_Internal :: bool
  nf_Containers :: int

record container_info =
  ci_ID :: string
  ci_Image :: string
  ci_Created :: int
  ci_State :: string
  ci_Labels :: labels

record inspect_state =
  is_Running :: bool
  is_Health :: "string option"

record create_cfg =
  cc_Name :: string
  cc_Image :: string
  cc_Env :: "string \<Rightarrow> string option"
  cc_InternalPort :: int
  cc_HostIP :: string
  cc_HostPort :: int
  cc_Labels :: labels
  cc_RestartPolicy :: "string \<times> int"
  cc_Memory :: int
  cc_MemorySwap :: int
  cc_NanoCPUs :: int
  cc_PidsLimit :: int
  cc_SecurityOpt :: "string list"
  cc_CapDrop :: "string list"
  cc_ReadonlyRootfs :: bool
  cc_Tmpfs :: "string \<Rightarrow> string option"
  cc_Network :: string

datatype cmd =
    CContainerList "string \<times> string" | CContainerInspect string | CContainerCreate create_cfg
  | CContainerStart string | CContainerStop string | CContainerRemove string
  | CNetworkList "string \<times> string" | CNetworkInspect string | CNetworkRemove string
  | CNetworkCreate string labels labels | CImageInspect string | CImagePull string

type_synonym trace = "cmd list"

record docker =
  ContainerList :: "trace \<Rightarrow> string \<times> string \<Rightarrow> container_info list answer"
  ContainerInspect :: "trace \<Rightarrow> string \<Rightarrow> inspect_state answer"
  ContainerCreate :: "trace \<Rightarrow> create_cfg \<Rightarrow> string answer"
  ContainerStart :: "trace \<Rightarrow> string \<Rightarrow> unit answer"
  ContainerStop :: "trace \<Rightarrow> string \<Rightarrow> unit answer"
  NetworkList :: "trace \<Rightarrow> string \<times> string \<Rightarrow> net_info list answer"
  NetworkInspect :: "trace \<Rightarrow> string \<Rightarrow> net_full answer"
  NetworkRemove :: "trace \<Rightarrow> string \<Rightarrow> unit answer"
  NetworkCreate :: "trace \<Rightarrow> string \<Rightarrow> labels \<Rightarrow> labels \<Rightarrow> unit answer"
  ImageInspect :: "trace \<Rightarrow> string \<Rightarrow> unit answer"
  ImagePull :: "trace \<Rightarrow> string \<Rightarrow> unit answer"

subsection \<open>Constants\<close>

definition challengeNetwork :: string where "challengeNetwork = ''osctf-challenges''"
definition teamNetPrefix :: string where "teamNetPrefix = ''osctf-team-''"
definition managedLabel :: string where "managedLabel = ''osctf.managed''"
definition instanceIDLabel :: string where "instanceIDLabel = ''osctf.instance_id''"
definition challengeIDLabel :: string where "challengeIDLabel = ''osctf.challenge_id''"
definition teamNetworkLabel :: string where "teamNetworkLabel = ''osctf.team_network''"
definition teamIDLabel :: string where "teamIDLabel = ''osctf.team_id''"
definition pidsLimit :: int where "pidsLimit = 256"
definition tmpfsSize :: string where "tmpfsSize = ''64m''"
definition masqueradeOpt :: string where "masqueradeOpt = ''com.docker.network.bridge.enable_ip_masquerade''"

definition tail8 :: "string \<Rightarrow> string" where
  "tail8 s = drop (length s - 8) s"

subsection \<open>Helpers\<close>

definition isIdleInternalNetwork :: "docker \<Rightarrow> trace \<Rightarrow> string \<Rightarrow> trace \<times> bool" where
  "isIdleInternalNetwork dk tr i =
     (CNetworkInspect i # tr,
      case NetworkInspect dk tr i of Ok full \<Rightarrow> nf_Internal full \<and> nf_Containers full = 0 | _ \<Rightarrow> False)"

definition network_labels :: "(uuid \<Rightarrow> string) \<Rightarrow> string \<Rightarrow> uuid option \<Rightarrow> labels" where
  "network_labels str name teamID =
     (let l = Map.empty(managedLabel \<mapsto> ''true'')
      in if HasPrefix name teamNetPrefix
         then let l = l(teamNetworkLabel \<mapsto> ''true'')
              in case teamID of None \<Rightarrow> l | Some t \<Rightarrow> l(teamIDLabel \<mapsto> str t)
         else l)"

definition create_network ::
  "docker \<Rightarrow> (uuid \<Rightarrow> string) \<Rightarrow> trace \<Rightarrow> string \<Rightarrow> bool \<Rightarrow> uuid option \<Rightarrow> trace \<times> string option" where
  "create_network dk str tr name noEgress teamID =
     (let opts = (if noEgress then Map.empty(masqueradeOpt \<mapsto> ''false'') else Map.empty);
          l = network_labels str name teamID
      in (CNetworkCreate name opts l # tr, answer_err (NetworkCreate dk tr name opts l)))"

definition ensureNamedNetwork ::
  "docker \<Rightarrow> (uuid \<Rightarrow> string) \<Rightarrow> trace \<Rightarrow> string \<Rightarrow> bool \<Rightarrow> uuid option \<Rightarrow> trace \<times> string option" where
  "ensureNamedNetwork dk str tr name noEgress teamID =
     (let ans = NetworkList dk tr (''name'', name);
          tr = CNetworkList (''name'', name) # tr
      in case ans of
           Ok nets \<Rightarrow>
             (case List.find (\<lambda>n. ni_Name n = name) nets of
                None \<Rightarrow> create_network dk str tr name noEgress teamID
              | Some n \<Rightarrow>
                  if \<not> noEgress then (tr, None)
                  else case isIdleInternalNetwork dk tr (ni_ID n) of
                         (tr, False) \<Rightarrow> (tr, None)
                       | (tr, True) \<Rightarrow>
                           (case answer_err (NetworkRemove dk tr (ni_ID n)) of
                              Some _ \<Rightarrow> (CNetworkRemove (ni_ID n) # tr, None)
                            | None \<Rightarrow> create_network dk str (CNetworkRemove (ni_ID n) # tr) name noEgress teamID))
         | e \<Rightarrow> (tr, answer_err e))"

definition tmpfsMounts :: "string list \<Rightarrow> string \<Rightarrow> string option" where
  "tmpfsMounts ts = fold (\<lambda>t m. m(t \<mapsto> ''rw,noexec,nosuid,size='' @ tmpfsSize)) ts Map.empty"

definition ensureImage :: "docker \<Rightarrow> trace \<Rightarrow> string \<Rightarrow> trace \<times> app_error option" where
  "ensureImage dk tr ref =
     (case ImageInspect dk tr ref of
        Ok _ \<Rightarrow> (CImageInspect ref # tr, None)
      | _ \<Rightarrow>
          let tr = CImageInspect ref # tr
          in (CImagePull ref # tr,
              case ImagePull dk tr ref of
                Ok _ \<Rightarrow> None
              | ConnErr m \<Rightarrow> Some (RuntimeUnavailable m)
              | NotFoundErr m \<Rightarrow> Some (Internal m)
              | OtherErr m \<Rightarrow> Some (Internal m)))"

definition health :: "docker \<Rightarrow> trace \<Rightarrow> string \<Rightarrow> trace \<times> string" where
  "health dk tr containerID =
     (CContainerInspect containerID # tr,
      case ContainerInspect dk tr containerID of
        Ok insp \<Rightarrow>
          if \<not> is_Running insp then StateStopped
          else (case is_Health insp of
                  Some st \<Rightarrow> if st = ''healthy'' then StateRunning else StateUnhealthy
                | None \<Rightarrow> StateRunning)
      | _ \<Rightarrow> StateError)"

definition removeByLabel :: "docker \<Rightarrow> (uuid \<Rightarrow> string) \<Rightarrow> trace \<Rightarrow> uuid \<Rightarrow> trace" where
  "removeByLabel dk str tr i =
     (let f = (''label'', ''osctf.instance_id='' @ str i);
          tr' = CContainerList f # tr
      in case ContainerList dk tr f of
           Ok l \<Rightarrow> fold (\<lambda>c tr. CContainerRemove (ci_ID c) # tr) l tr'
         | _ \<Rightarrow> tr')"

definition markError :: "world \<Rightarrow> db \<Rightarrow> uuid \<Rightarrow> string \<Rightarrow> db" where
  "markError w d i msg = fst (update_row w (QUpdate 9) d i (Some StateError) None True (Some msg) None None)"

subsection \<open>The operations\<close>

definition create_config :: "(uuid \<Rightarrow> string) \<Rightarrow> string \<Rightarrow> InstanceSpec \<Rightarrow> create_cfg" where
  "create_config str netName spec =
     \<lparr>cc_Name = ''osctf-chal-'' @ sp_Slug spec @
        (if sp_TeamID spec \<noteq> None then ''-'' @ tail8 (str (sp_InstanceID spec)) else []),
      cc_Image = sp_Image spec, cc_Env = sp_Env spec, cc_InternalPort = sp_InternalPort spec,
      cc_HostIP = ''0.0.0.0'', cc_HostPort = sp_HostPort spec,
      cc_Labels = Map.empty(managedLabel \<mapsto> ''true'', challengeIDLabel \<mapsto> str (sp_ChallengeID spec),
                            instanceIDLabel \<mapsto> str (sp_InstanceID spec)),
      cc_RestartPolicy = (''on-failure'', 3),
      cc_Memory = sp_MemLimitMB spec * 1024 * 1024, cc_MemorySwap = sp_MemLimitMB spec * 1024 * 1024,
      cc_NanoCPUs = sp_CPUMillis spec * 1000000, cc_PidsLimit = pidsLimit,
      cc_SecurityOpt = [''no-new-privileges:true''], cc_CapDrop = [''ALL''],
      cc_ReadonlyRootfs = sp_ReadonlyRootfs spec, cc_Tmpfs = tmpfsMounts (sp_Tmpfs spec),
      cc_Network = netName\<rparr>"

text \<open>The deferred function of \<^verbatim>\<open>Deploy\<close>: an error that is not a runtime-unavailable one is written to the row.\<close>

definition deploy_failed :: "world \<Rightarrow> db \<Rightarrow> uuid \<Rightarrow> app_error \<Rightarrow> db \<times> RInstance result" where
  "deploy_failed w d i e =
     (case e of
        Internal msg \<Rightarrow> (markError w d i msg, Inl e)
      | _ \<Rightarrow> (d, Inl e))"

text \<open>From \<^verbatim>\<open>ContainerStart\<close> on: the container id is recorded, the container inspected, its health recorded.\<close>

definition record_container ::
  "docker \<Rightarrow> world \<Rightarrow> trace \<Rightarrow> db \<Rightarrow> uuid \<Rightarrow> string \<Rightarrow> trace \<times> db \<times> RInstance result" where
  "record_container dk w tr d i created =
     (let now = clock w (QUpdate 0)
      in case update_row w (QUpdate 0) d i (Some StateStarting) (Some created) True None (Some now) None of
           (d, Inl _) \<Rightarrow> (tr, deploy_failed w d i (Internal ''recording container''))
         | (d, Inr _) \<Rightarrow>
             let (tr, state) = health dk tr created;
                 healthAt = clock w (QUpdate 2)
             in case update_row w (QUpdate 2) d i (Some state) None False None None (Some healthAt) of
                  (d, Inl _) \<Rightarrow> (tr, deploy_failed w d i (Internal ''recording health''))
                | (d, Inr row) \<Rightarrow> (tr, d, Inr (rowToInstance row)))"

definition start_container ::
  "docker \<Rightarrow> (uuid \<Rightarrow> string) \<Rightarrow> world \<Rightarrow> trace \<Rightarrow> db \<Rightarrow> string \<Rightarrow> InstanceSpec \<Rightarrow> trace \<times> db \<times> RInstance result" where
  "start_container dk str w tr d netName spec =
     (let cfg = create_config str netName spec; i = sp_InstanceID spec;
          ans = ContainerCreate dk tr cfg; tr = CContainerCreate cfg # tr
      in case ans of
           Ok created \<Rightarrow>
             (case answer_err (ContainerStart dk tr created) of
                Some m \<Rightarrow> (CContainerStart created # tr, deploy_failed w d i (Internal (''starting container: '' @ m)))
              | None \<Rightarrow> record_container dk w (CContainerStart created # tr) d i created)
         | e \<Rightarrow> (tr, deploy_failed w d i (Internal (''creating container: '' @ coalesce (answer_err e) []))))"

definition docker_Deploy ::
  "docker \<Rightarrow> (uuid \<Rightarrow> string) \<Rightarrow> world \<Rightarrow> trace \<Rightarrow> db \<Rightarrow> InstanceSpec \<Rightarrow> trace \<times> db \<times> RInstance result" where
  "docker_Deploy dk str w tr d spec =
     (let netName = (if sp_NetworkName spec = [] then challengeNetwork else sp_NetworkName spec);
          i = sp_InstanceID spec
      in case ensureNamedNetwork dk str tr netName (sp_NoEgress spec) (sp_TeamID spec) of
           (tr, Some m) \<Rightarrow> (tr, deploy_failed w d i (RuntimeUnavailable m))
         | (tr, None) \<Rightarrow>
             (case ensureImage dk tr (sp_Image spec) of
                (tr, Some (Internal m)) \<Rightarrow>
                  (tr, deploy_failed w d i (Internal (''pulling image '' @ sp_Image spec @ '': '' @ m)))
              | (tr, Some e) \<Rightarrow> (tr, deploy_failed w d i e)
              | (tr, None) \<Rightarrow> start_container dk str w (removeByLabel dk str tr i) d netName spec))"

definition docker_Stop :: "docker \<Rightarrow> world \<Rightarrow> trace \<Rightarrow> db \<Rightarrow> uuid \<Rightarrow> trace \<times> db \<times> unit result" where
  "docker_Stop dk w tr d i =
     (case get_row w (QGetInstance 0) d i of
        (d, Inl e) \<Rightarrow> (tr, d, Inl e)
      | (d, Inr row) \<Rightarrow>
          let (tr, down) = (case i_ContainerID row of
                 None \<Rightarrow> (tr, None)
               | Some c \<Rightarrow> (CContainerStop c # tr,
                            case ContainerStop dk tr c of ConnErr m \<Rightarrow> Some m | _ \<Rightarrow> None))
          in case down of
               Some m \<Rightarrow> (tr, d, Inl (RuntimeUnavailable m))
             | None \<Rightarrow>
                 (case update_row w (QUpdate 0) d i (Some StateStopped) None False None None None of
                    (d, Inl e) \<Rightarrow> (tr, d, Inl e)
                  | (d, Inr _) \<Rightarrow> (tr, d, Inr ())))"

definition docker_Destroy :: "docker \<Rightarrow> (uuid \<Rightarrow> string) \<Rightarrow> trace \<Rightarrow> uuid \<Rightarrow> trace \<times> unit result" where
  "docker_Destroy dk str tr i = (removeByLabel dk str tr i, Inr ())"

text \<open>When the write of \<^verbatim>\<open>lost\<close> fails, \<^verbatim>\<open>Status\<close> returns the zero row and no error.\<close>

definition zero_instance :: RInstance where
  "zero_instance = \<lparr>n_ID = uuid_nil, n_ChallengeID = uuid_nil, n_TeamID = None, n_State = [], n_ContainerID = [],
     n_HostPort = 0, n_Network = [], n_StartedAt = None, n_LastHealthAt = None, n_ExpiresAt = None, n_Err = []\<rparr>"

definition docker_Status :: "docker \<Rightarrow> world \<Rightarrow> trace \<Rightarrow> db \<Rightarrow> uuid \<Rightarrow> trace \<times> db \<times> RInstance result" where
  "docker_Status dk w tr d i =
     (case get_row w (QGetInstance 0) d i of
        (d, Inl e) \<Rightarrow> (tr, d, Inl e)
      | (d, Inr row) \<Rightarrow>
          (case i_ContainerID row of
             None \<Rightarrow> (tr, d, Inr (rowToInstance row))
           | Some c \<Rightarrow>
               let tr1 = CContainerInspect c # tr
               in case ContainerInspect dk tr c of
                    NotFoundErr _ \<Rightarrow>
                      (case update_row w (QUpdate 0) d i (Some StateLost) None False None None None of
                         (d, Inl _) \<Rightarrow> (tr1, d, Inr zero_instance)
                       | (d, Inr row) \<Rightarrow> (tr1, d, Inr (rowToInstance row)))
                  | ConnErr m \<Rightarrow> (tr1, d, Inl (RuntimeUnavailable m))
                  | OtherErr m \<Rightarrow> (tr1, d, Inl (Internal (''inspecting container: '' @ m)))
                  | Ok insp \<Rightarrow>
                      let (tr2, state) = (if is_Running insp then health dk tr1 c else (tr1, StateStopped));
                          healthAt = clock w (QUpdate 2)
                      in case update_row w (QUpdate 2) d i (Some state) None False None None (Some healthAt) of
                           (d, Inl e) \<Rightarrow> (tr2, d, Inl e)
                         | (d, Inr row) \<Rightarrow> (tr2, d, Inr (rowToInstance row))))"

definition docker_runtime :: "docker \<Rightarrow> (uuid \<Rightarrow> string) \<Rightarrow> trace runtime" where
  "docker_runtime dk str = \<lparr>rt_Deploy = docker_Deploy dk str, rt_Stop = docker_Stop dk,
     rt_Destroy = docker_Destroy dk str, rt_Status = docker_Status dk\<rparr>"

subsection \<open>It keeps the contract\<close>

lemma health_state: "health dk tr c = (tr', st) \<Longrightarrow> st \<in> set instance_states"
  by (auto simp: health_def instance_states_def split: answer.splits option.splits if_splits)

lemma states_in [simp]:
  "StateError \<in> set instance_states" "StateStarting \<in> set instance_states" "StateStopped \<in> set instance_states"
  "StateLost \<in> set instance_states" "StateRunning \<in> set instance_states" "StatePending \<in> set instance_states"
  by (simp_all add: instance_states_def)

lemma deploy_failed_spec:
  assumes "deploy_failed w d i e = (d', r)"
  shows "row_steps w i d d'" and "r = Inl e"
proof -
  have "row_steps w i d (markError w d i m)" for m
    unfolding markError_def
    by (cases "update_row w (QUpdate 9) d i (Some StateError) None True (Some m) None None")
       (auto dest!: update_row_spec(1))
  then show "row_steps w i d d'" "r = Inl e"
    using assms by (auto simp: deploy_failed_def split: app_error.splits intro: row_steps.stay)
qed

lemma record_container_spec:
  assumes "record_container dk w tr d i c = (tr', d', r)"
  shows "row_steps w i d d'" and "r = Inr inst \<Longrightarrow> \<exists>n. GetInstanceByID d' i = Some n \<and> inst = rowToInstance n"
proof -
  obtain d1 r1 where 1: "update_row w (QUpdate 0) d i (Some StateStarting) (Some c) True None
      (Some (clock w (QUpdate 0))) None = (d1, r1)" by fastforce
  have s1: "row_steps w i d d1" by (rule update_row_spec(1) [OF 1]) auto
  obtain tr2 st where h: "health dk tr c = (tr2, st)" by fastforce
  obtain d2 r2 where 2: "update_row w (QUpdate 2) d1 i (Some st) None False None None
      (Some (clock w (QUpdate 2))) = (d2, r2)" by fastforce
  have s2: "row_steps w i d1 d2" and g2: "\<And>n. r2 = Inr n \<Longrightarrow> GetInstanceByID d2 i = Some n"
    using update_row_spec [OF 2] health_state [OF h] by auto
  show "row_steps w i d d'"
    using assms s1 s2
    by (auto simp: record_container_def 1 2 h split: sum.splits
        dest!: deploy_failed_spec(1) intro: row_steps_trans)
  show "r = Inr inst \<Longrightarrow> \<exists>n. GetInstanceByID d' i = Some n \<and> inst = rowToInstance n"
    using assms g2 by (auto simp: record_container_def 1 2 h split: sum.splits dest!: deploy_failed_spec(2))
qed

lemma docker_Deploy_spec:
  assumes "docker_Deploy dk str w tr d spec = (tr', d', r)"
  shows "row_steps w (sp_InstanceID spec) d d'"
    and "r = Inr inst \<Longrightarrow> \<exists>n. GetInstanceByID d' (sp_InstanceID spec) = Some n \<and> inst = rowToInstance n"
  using assms
  by (auto simp: docker_Deploy_def start_container_def Let_def
      split: prod.splits option.splits app_error.splits answer.splits
      dest: deploy_failed_spec record_container_spec)

lemma docker_Stop_steps: "docker_Stop dk w tr d i = (tr', d', r) \<Longrightarrow> row_steps w i d d'"
  by (auto simp: docker_Stop_def split: prod.splits sum.splits option.splits
      dest!: update_row_spec(1) get_row_steps intro: row_steps_trans)

lemma docker_Status_steps: "docker_Status dk w tr d i = (tr', d', r) \<Longrightarrow> row_steps w i d d'"
  by (auto simp: docker_Status_def Let_def
      split: prod.splits sum.splits option.splits answer.splits if_splits
      dest!: update_row_spec(1) get_row_steps health_state intro: row_steps_trans)

interpretation docker: challenge_runtime "docker_runtime dk str" for dk str
  by unfold_locales
     (auto simp: docker_runtime_def dest: docker_Deploy_spec docker_Stop_steps docker_Status_steps)

end
