(* ===== verification/Manager.thy ===== *)
theory Manager
  imports Docker
begin

text \<open>
  The instance manager (\<^verbatim>\<open>internal/runtime/manager.go\<close>): the isolation gate, port allocation, the shared and
  the per-team path over any \<^verbatim>\<open>ChallengeRuntime\<close>.

  \<open>lib\<close> holds the code of other packages the manager calls on values: \<^verbatim>\<open>UUID.String\<close> and the JSON decoding of
  the two \<^verbatim>\<open>jsonb\<close> columns. Fresh ids are the argument \<open>newid\<close>, per port tried.
\<close>

subsection \<open>State\<close>

datatype isolationVerdict = isolationUnknown | isolationEnforced | isolationUnenforced

record Manager =
  publicHost :: string
  portStart :: int
  portEnd :: int
  gateArmed :: bool
  allowUnisolated :: bool
  isolation :: isolationVerdict

record lib =
  uuid_String :: "uuid \<Rightarrow> string"
  json_map :: "string \<Rightarrow> string \<Rightarrow> string option"
  json_list :: "string \<Rightarrow> string list"

record DeployReq =
  dr_ChallengeID :: uuid
  dr_TeamID :: uuid
  dr_Flag :: string
  dr_ExpiresAt :: "time option"

definition NewManager :: "string \<Rightarrow> int \<Rightarrow> int \<Rightarrow> Manager" where
  "NewManager host start stop = \<lparr>publicHost = host, portStart = start, portEnd = stop, gateArmed = False,
     allowUnisolated = False, isolation = isolationUnknown\<rparr>"

definition ConfigureIsolationGate :: "Manager \<Rightarrow> bool \<Rightarrow> Manager" where
  "ConfigureIsolationGate m allow = m\<lparr>gateArmed := True, allowUnisolated := allow\<rparr>"

definition RecordIsolationVerdict :: "Manager \<Rightarrow> bool \<Rightarrow> Manager" where
  "RecordIsolationVerdict m isolated =
     m\<lparr>isolation := (if isolated then isolationEnforced else isolationUnenforced)\<rparr>"

definition isolationGate :: "Manager \<Rightarrow> app_error option" where
  "isolationGate m =
     (if \<not> gateArmed m then None
      else if isolation m = isolationEnforced then None
      else if allowUnisolated m then None
      else Some (Unavailable ''container challenges are disabled on this deployment'' 0))"

subsection \<open>Pure helpers\<close>

definition teamNetworkName :: "(uuid \<Rightarrow> string) \<Rightarrow> uuid \<Rightarrow> bool \<Rightarrow> string" where
  "teamNetworkName str team internal = ''osctf-team-'' @ tail8 (str team) @ (if internal then ''-int'' else [])"

definition sharedNetworkName :: "bool \<Rightarrow> string" where
  "sharedNetworkName internal = (if internal then challengeNetwork @ ''-int'' else challengeNetwork)"

definition decodeEnv :: "lib \<Rightarrow> string \<Rightarrow> string \<Rightarrow> string \<Rightarrow> string option" where
  "decodeEnv l raw flag = [''FLAG'' \<mapsto> flag] ++ (if length raw > 0 then json_map l raw else Map.empty)"

definition decodeWritablePaths :: "lib \<Rightarrow> string \<Rightarrow> string list" where
  "decodeWritablePaths l raw = (if length raw = 0 then [] else json_list l raw)"

definition buildSpec :: "lib \<Rightarrow> Challenge \<Rightarrow> Instance \<Rightarrow> string \<Rightarrow> InstanceSpec" where
  "buildSpec l ch row flag =
     \<lparr>sp_InstanceID = i_ID row, sp_ChallengeID = c_ID ch, sp_Slug = c_Slug ch,
      sp_Image = coalesce (c_Image ch) [], sp_InternalPort = coalesce (c_InternalPort ch) 0,
      sp_HostPort = derefPortRow row, sp_MemLimitMB = c_MemLimitMb ch, sp_CPUMillis = c_CpuMillis ch,
      sp_Env = decodeEnv l (c_ContainerEnv ch) flag, sp_TeamID = i_TeamID row,
      sp_NetworkName = coalesce (i_Network row) [], sp_NoEgress = (\<not> c_Egress ch),
      sp_ReadonlyRootfs = True, sp_Tmpfs = [''/tmp''] @ decodeWritablePaths l (c_WritablePaths ch)\<rparr>"

subsection \<open>Rows and ports\<close>

definition getContainerChallenge :: "world \<Rightarrow> db \<Rightarrow> uuid \<Rightarrow> db \<times> Challenge result" where
  "getContainerChallenge w d cid =
     (let d = interf w (QGetChallenge 2) d
      in if stmt_fails w (QGetChallenge 2) then (d, Inl (Internal ''runtime: get challenge''))
         else case GetChallengeByID d cid of
                None \<Rightarrow> (d, Inl ErrNotFound)
              | Some ch \<Rightarrow>
                  if c_Kind ch \<noteq> ''container'' \<or> c_Image ch = None \<or> c_InternalPort ch = None
                  then (d, Inl (Forbidden ''this challenge is not a container challenge''))
                  else (d, Inr ch))"

definition refetch :: "world \<Rightarrow> db \<Rightarrow> uuid \<Rightarrow> uuid option \<Rightarrow> db \<times> Instance result" where
  "refetch w d cid tid =
     (let d = interf w QRefetch d
      in if stmt_fails w QRefetch then (d, Inl (Internal ''get instance''))
         else case (case tid of None \<Rightarrow> GetSharedInstance d cid | Some t \<Rightarrow> GetTeamInstance d cid t) of
                None \<Rightarrow> (d, Inl (Internal ''no rows in result set''))
              | Some n \<Rightarrow> (d, Inr n))"

fun try_ports ::
  "world \<Rightarrow> (int \<Rightarrow> uuid option) \<Rightarrow> uuid \<Rightarrow> uuid option \<Rightarrow> string option \<Rightarrow> time option \<Rightarrow> string option \<Rightarrow>
   (int \<Rightarrow> bool) \<Rightarrow> int list \<Rightarrow> db \<Rightarrow> db \<times> Instance result" where
  "try_ports w newid cid tid flag expires net used [] d =
     (d, Inl (Conflict ''no free challenge ports in range''))"
| "try_ports w newid cid tid flag expires net used (port # ports) d =
     (if used port then try_ports w newid cid tid flag expires net used ports d
      else case newid port of
             None \<Rightarrow> (d, Inl (Internal ''runtime: generating id''))
           | Some i \<Rightarrow>
               let d = interf w (QCreate port) d
               in if stmt_fails w (QCreate port) then (d, Inl (Internal ''runtime: creating instance row''))
                  else case CreateInstance d (db_now w (QCreate port)) i cid tid StatePending (Some port) flag
                              expires net of
                         Inr (d, row) \<Rightarrow> (d, Inr row)
                       | Inl (UniqueViolation c) \<Rightarrow>
                           if c = ''uq_instances_shared'' \<or> c = ''uq_instances_per_team'' then refetch w d cid tid
                           else try_ports w newid cid tid flag expires net used ports d
                       | Inl _ \<Rightarrow> (d, Inl (Internal ''runtime: creating instance row'')))"

definition allocateRow ::
  "Manager \<Rightarrow> world \<Rightarrow> (int \<Rightarrow> uuid option) \<Rightarrow> db \<Rightarrow> uuid \<Rightarrow> uuid option \<Rightarrow> string option \<Rightarrow> time option \<Rightarrow>
   string option \<Rightarrow> db \<times> Instance result" where
  "allocateRow m w newid d cid tid flag expires net =
     (let d = interf w QUsedPorts d
      in if stmt_fails w QUsedPorts then (d, Inl (Internal ''runtime: listing ports''))
         else try_ports w newid cid tid flag expires net (\<lambda>p. p \<in> set (ListUsedPorts d))
                [portStart m..portEnd m] d)"

definition ensureSharedRow ::
  "Manager \<Rightarrow> world \<Rightarrow> (int \<Rightarrow> uuid option) \<Rightarrow> db \<Rightarrow> Challenge \<Rightarrow> db \<times> Instance result" where
  "ensureSharedRow m w newid d ch =
     (let d = interf w (QGetInstance 3) d
      in if stmt_fails w (QGetInstance 3) then (d, Inl (Internal ''runtime: get instance''))
         else case GetSharedInstance d (c_ID ch) of
                Some row \<Rightarrow> (d, Inr row)
              | None \<Rightarrow> allocateRow m w newid d (c_ID ch) None None None (Some (sharedNetworkName (\<not> c_Egress ch))))"

definition ensureTeamRow ::
  "Manager \<Rightarrow> lib \<Rightarrow> world \<Rightarrow> (int \<Rightarrow> uuid option) \<Rightarrow> db \<Rightarrow> Challenge \<Rightarrow> DeployReq \<Rightarrow> db \<times> Instance result" where
  "ensureTeamRow m l w newid d ch req =
     (let d = interf w (QGetInstance 3) d
      in if stmt_fails w (QGetInstance 3) then (d, Inl (Internal ''runtime: get team instance''))
         else case GetTeamInstance d (c_ID ch) (dr_TeamID req) of
                Some row \<Rightarrow> (d, Inr row)
              | None \<Rightarrow>
                  let net = teamNetworkName (uuid_String l) (dr_TeamID req) (\<not> c_Egress ch);
                      flagPtr = (if dr_Flag req \<noteq> [] \<and> c_FlagMode ch = ''per_instance''
                                 then Some (dr_Flag req) else None)
                  in allocateRow m w newid d (c_ID ch) (Some (dr_TeamID req)) flagPtr (dr_ExpiresAt req) (Some net))"

subsection \<open>The operations\<close>

definition DestroyInstance :: "'s runtime \<Rightarrow> world \<Rightarrow> 's \<Rightarrow> db \<Rightarrow> uuid \<Rightarrow> 's \<times> db \<times> unit result" where
  "DestroyInstance rt w s d i =
     (case rt_Destroy rt s i of
        (s, Inl e) \<Rightarrow> (s, d, Inl e)
      | (s, Inr _) \<Rightarrow>
          let d = interf w QDelete d
          in if stmt_fails w QDelete then (s, d, Inl (Internal ''runtime: delete instance row''))
             else (s, DeleteInstance d i, Inr ()))"

definition manager_Deploy ::
  "'s runtime \<Rightarrow> Manager \<Rightarrow> lib \<Rightarrow> world \<Rightarrow> (int \<Rightarrow> uuid option) \<Rightarrow> 's \<Rightarrow> db \<Rightarrow> uuid \<Rightarrow> 's \<times> db \<times> RInstance result" where
  "manager_Deploy rt m l w newid s d cid =
     (case getContainerChallenge w d cid of
        (d, Inl e) \<Rightarrow> (s, d, Inl e)
      | (d, Inr ch) \<Rightarrow>
          (case ensureSharedRow m w newid d ch of
             (d, Inl e) \<Rightarrow> (s, d, Inl e)
           | (d, Inr row) \<Rightarrow>
               if i_State row = StateRunning then (s, d, Inr (rowToInstance row))
               else rt_Deploy rt w s d (buildSpec l ch row (c_Flag ch))))"

definition shared_row :: "world \<Rightarrow> inst_call \<Rightarrow> db \<Rightarrow> uuid \<Rightarrow> db \<times> Instance option result" where
  "shared_row w c d cid =
     (let d = interf w c d
      in if stmt_fails w c then (d, Inl (Internal ''runtime: get instance''))
         else (d, Inr (GetSharedInstance d cid)))"

definition refresh :: "'s runtime \<Rightarrow> world \<Rightarrow> 's \<Rightarrow> db \<Rightarrow> Instance \<Rightarrow> 's \<times> db \<times> (RInstance \<times> bool) result" where
  "refresh rt w s d row =
     (case rt_Status rt w s d (i_ID row) of
        (s, d, Inl e) \<Rightarrow> if IsUnavailable e then (s, d, Inr (rowToInstance row, True)) else (s, d, Inl e)
      | (s, d, Inr inst) \<Rightarrow>
          (s, d, Inr (inst\<lparr>n_TeamID := i_TeamID row, n_ExpiresAt := i_ExpiresAt row,
                         n_Network := coalesce (i_Network row) (n_Network inst)\<rparr>, True)))"

definition manager_Get :: "'s runtime \<Rightarrow> world \<Rightarrow> 's \<Rightarrow> db \<Rightarrow> uuid \<Rightarrow> 's \<times> db \<times> (RInstance \<times> bool) result" where
  "manager_Get rt w s d cid =
     (case shared_row w (QGetInstance 4) d cid of
        (d, Inl e) \<Rightarrow> (s, d, Inl e)
      | (d, Inr None) \<Rightarrow> (s, d, Inr (zero_instance, False))
      | (d, Inr (Some row)) \<Rightarrow> refresh rt w s d row)"

definition Restart ::
  "'s runtime \<Rightarrow> Manager \<Rightarrow> lib \<Rightarrow> world \<Rightarrow> (int \<Rightarrow> uuid option) \<Rightarrow> 's \<Rightarrow> db \<Rightarrow> uuid \<Rightarrow> 's \<times> db \<times> RInstance result" where
  "Restart rt m l w newid s d cid =
     (case shared_row w (QGetInstance 4) d cid of
        (d, Inl e) \<Rightarrow> (s, d, Inl e)
      | (d, Inr None) \<Rightarrow> (s, d, Inl ErrNotFound)
      | (d, Inr (Some row)) \<Rightarrow>
          (case rt_Stop rt w s d (i_ID row) of
             (s, d, Inl e) \<Rightarrow> (s, d, Inl e)
           | (s, d, Inr _) \<Rightarrow> manager_Deploy rt m l w newid s d cid))"

definition manager_Destroy :: "'s runtime \<Rightarrow> world \<Rightarrow> 's \<Rightarrow> db \<Rightarrow> uuid \<Rightarrow> 's \<times> db \<times> unit result" where
  "manager_Destroy rt w s d cid =
     (case shared_row w (QGetInstance 4) d cid of
        (d, Inl e) \<Rightarrow> (s, d, Inl e)
      | (d, Inr None) \<Rightarrow> (s, d, Inl ErrNotFound)
      | (d, Inr (Some row)) \<Rightarrow> DestroyInstance rt w s d (i_ID row))"

definition DestroyForChallenge :: "'s runtime \<Rightarrow> world \<Rightarrow> 's \<Rightarrow> db \<Rightarrow> uuid \<Rightarrow> 's \<times> db \<times> unit result" where
  "DestroyForChallenge rt w s d cid =
     (case shared_row w (QGetInstance 5) d cid of
        (d, Inl e) \<Rightarrow> (s, d, Inl e)
      | (d, Inr None) \<Rightarrow> (s, d, Inr ())
      | (d, Inr (Some _)) \<Rightarrow> manager_Destroy rt w s d cid)"

definition DeployForTeam ::
  "'s runtime \<Rightarrow> Manager \<Rightarrow> lib \<Rightarrow> world \<Rightarrow> (int \<Rightarrow> uuid option) \<Rightarrow> 's \<Rightarrow> db \<Rightarrow> DeployReq \<Rightarrow> 's \<times> db \<times> RInstance result" where
  "DeployForTeam rt m l w newid s d req =
     (case isolationGate m of
        Some e \<Rightarrow> (s, d, Inl e)
      | None \<Rightarrow>
          (case getContainerChallenge w d (dr_ChallengeID req) of
             (d, Inl e) \<Rightarrow> (s, d, Inl e)
           | (d, Inr ch) \<Rightarrow>
               (case ensureTeamRow m l w newid d ch req of
                  (d, Inl e) \<Rightarrow> (s, d, Inl e)
                | (d, Inr row) \<Rightarrow>
                    if i_State row = StateRunning then (s, d, Inr (rowToInstance row))
                    else rt_Deploy rt w s d (buildSpec l ch row (coalesce (i_Flag row) (c_Flag ch))))))"

definition manager_GetTeamInstance :: "world \<Rightarrow> db \<Rightarrow> uuid \<Rightarrow> uuid \<Rightarrow> db \<times> RInstance option result" where
  "manager_GetTeamInstance w d cid tid =
     (let d = interf w (QGetInstance 6) d
      in if stmt_fails w (QGetInstance 6) then (d, Inl (Internal ''runtime: get team instance''))
         else (d, Inr (map_option rowToInstance (GetTeamInstance d cid tid))))"

definition manager_ListTeamInstances :: "world \<Rightarrow> db \<Rightarrow> uuid \<Rightarrow> db \<times> RInstance list result" where
  "manager_ListTeamInstances w d tid =
     (let d = interf w QList d
      in if stmt_fails w QList then (d, Inl (Internal ''runtime: list team instances''))
         else (d, Inr (map rowToInstance (ListTeamInstances d tid))))"

definition ListAll :: "world \<Rightarrow> db \<Rightarrow> db \<times> RInstance list result" where
  "ListAll w d =
     (let d = interf w QList d
      in if stmt_fails w QList then (d, Inl (Internal ''runtime: list instances''))
         else (d, Inr (map rowToInstance (ListInstances d))))"

definition CountTeamRunning :: "world \<Rightarrow> db \<Rightarrow> uuid \<Rightarrow> db \<times> int result" where
  "CountTeamRunning w d tid =
     (let d = interf w QCount d
      in if stmt_fails w QCount then (d, Inl (Internal ''runtime: count team running''))
         else (d, Inr (CountTeamRunningInstances d tid)))"

definition ListStale :: "world \<Rightarrow> db \<Rightarrow> duration \<Rightarrow> db \<times> RInstance list result" where
  "ListStale w d olderThan =
     (let d = interf w QList d
      in if stmt_fails w QList then (d, Inl (Internal ''runtime: listing stale instances''))
         else (d, Inr (map rowToInstance (ListStaleInstances d (clock w QList - olderThan)))))"

end
