(* ===== verification/Manager_Ports.thy ===== *)
theory Manager_Ports
  imports Manager
begin

text \<open>
  What the manager guarantees: the table's invariant under any interference that keeps it, the lowest free
  port, the fail-closed isolation gate, and the hardening of every container the Docker runtime creates.
\<close>

subsection \<open>Allocation\<close>

lemma refetch_spec:
  assumes "refetch w d cid tid = (d', r)"
  shows "d' = interf w QRefetch d"
    and "r = Inr n \<Longrightarrow> n \<in> set (instances d') \<and> i_ChallengeID n = cid \<and> i_TeamID n = tid"
  using assms
  by (auto simp: refetch_def Let_def GetSharedInstance_def GetTeamInstance_def find_Some_iff
      split: if_splits option.splits)

lemma try_ports_invariant:
  assumes "try_ports w newid cid tid flag expires net used ports d = (d', r)" "P d"
    and "\<And>c x. P x \<Longrightarrow> P (interf w c x)"
    and "\<And>x now i p x' n. P x \<Longrightarrow>
      CreateInstance x now i cid tid StatePending (Some p) flag expires net = Inr (x', n) \<Longrightarrow> P x'"
  shows "P d'"
  using assms(1,2)
proof (induction ports arbitrary: d)
  case (Cons p ports)
  then show ?case
    by (auto simp: Let_def split: if_splits option.splits sum.splits sql_error.splits
        dest!: refetch_spec(1) intro: assms(3,4))
qed simp

lemma CreateInstance_mem:
  "CreateInstance x now i cid tid st p flag expires net = Inr (x', n) \<Longrightarrow> n \<in> set (instances x')"
  by (auto dest: CreateInstance_Inr(1))

lemma try_ports_owner:
  assumes "try_ports w newid cid tid flag expires net used ports d = (d', Inr n)"
  shows "n \<in> set (instances d') \<and> i_ChallengeID n = cid \<and> i_TeamID n = tid"
  using assms
proof (induction ports arbitrary: d)
  case (Cons p ports)
  then show ?case
    by (auto simp: Let_def split: if_splits option.splits sum.splits sql_error.splits
        dest: refetch_spec(2) CreateInstance_mem CreateInstance_Inr(3,6))
qed simp

lemma allocateRow_invariant:
  assumes "allocateRow m w newid d cid tid flag expires net = (d', r)" "P d"
    and "\<And>c x. P x \<Longrightarrow> P (interf w c x)"
    and "\<And>x now i p x' n. P x \<Longrightarrow>
      CreateInstance x now i cid tid StatePending (Some p) flag expires net = Inr (x', n) \<Longrightarrow> P x'"
  shows "P d'"
  using assms(1,2) unfolding allocateRow_def Let_def
  by (auto split: if_splits dest!: try_ports_invariant [where P = P] intro: assms(3,4))

lemma allocateRow_owner:
  "allocateRow m w newid d cid tid flag expires net = (d', Inr n) \<Longrightarrow>
   n \<in> set (instances d') \<and> i_ChallengeID n = cid \<and> i_TeamID n = tid"
  by (auto simp: allocateRow_def Let_def split: if_splits dest: try_ports_owner)

lemma ensureTeamRow_invariant:
  assumes "ensureTeamRow m l w newid d ch req = (d', r)" "P d"
    and "\<And>c x. P x \<Longrightarrow> P (interf w c x)"
    and "\<And>x now i p flag x' n. P x \<Longrightarrow> CreateInstance x now i (c_ID ch) (Some (dr_TeamID req)) StatePending (Some p) flag
      (dr_ExpiresAt req) (Some (teamNetworkName (uuid_String l) (dr_TeamID req) (\<not> c_Egress ch))) = Inr (x', n) \<Longrightarrow> P x'"
  shows "P d'"
  using assms(1,2) unfolding ensureTeamRow_def Let_def
  by (auto split: if_splits option.splits dest!: allocateRow_invariant [where P = P] intro: assms(3,4))

lemma ensureTeamRow_owner:
  "ensureTeamRow m l w newid d ch req = (d', Inr n) \<Longrightarrow>
   n \<in> set (instances d') \<and> i_ChallengeID n = c_ID ch \<and> i_TeamID n = Some (dr_TeamID req)"
  by (auto simp: ensureTeamRow_def Let_def GetTeamInstance_def find_Some_iff
      split: if_splits option.splits dest: allocateRow_owner)

lemma getContainerChallenge_db: "getContainerChallenge w d cid = (d', r) \<Longrightarrow> d' = interf w (QGetChallenge 2) d"
  by (auto simp: getContainerChallenge_def Let_def split: if_splits option.splits)

text \<open>A world with no other session and no failing statement.\<close>

definition undisturbed :: "world \<Rightarrow> bool" where
  "undisturbed w \<longleftrightarrow> (\<forall>c. \<not> stmt_fails w c) \<and> (\<forall>c d. interf w c d = d)"

lemma undisturbedD [simp]: "undisturbed w \<Longrightarrow> \<not> stmt_fails w c" "undisturbed w \<Longrightarrow> interf w c d = d"
  by (simp_all add: undisturbed_def)

lemma CreateInstance_succeeds:
  assumes "30000 \<le> p" "p \<le> 32767" "p \<notin> set (ListUsedPorts d)" "i \<notin> i_ID ` set (instances d)"
    and "(cid, tid) \<notin> (\<lambda>n. (i_ChallengeID n, i_TeamID n)) ` set (instances d)"
    and "flag = None \<or> flag \<notin> i_Flag ` set (instances d)" "cid \<in> c_ID ` set (challenges d)"
    and "tid = None \<or> tid \<in> (\<lambda>t. Some (t_ID t)) ` set (teams d)"
  shows "\<exists>d' n. CreateInstance d now i cid tid StatePending (Some p) flag expires net = Inr (d', n)"
proof -
  have "\<not> list_ex (\<lambda>x. i_HostPort x = Some p) (instances d)"
    using assms(3) by (auto simp: ListUsedPorts_def set_map_filter list_ex_iff)
  moreover have "\<not> list_ex (\<lambda>x. i_ID x = i) (instances d)" using assms(4) by (auto simp: list_ex_iff)
  moreover have "\<not> list_ex (\<lambda>x. i_ChallengeID x = cid \<and> i_TeamID x = tid) (instances d)"
    using assms(5) by (auto simp: list_ex_iff)
  moreover have "flag \<noteq> None \<Longrightarrow> \<not> list_ex (\<lambda>x. i_Flag x = flag) (instances d)"
    using assms(6) by (metis (mono_tags, lifting) imageI list_ex_iff)
  moreover have "list_ex (\<lambda>c. c_ID c = cid) (challenges d)" using assms(7) by (auto simp: list_ex_iff)
  moreover have "\<not> (case tid of None \<Rightarrow> False | Some t \<Rightarrow> \<not> list_ex (\<lambda>x. t_ID x = t) (teams d))"
    using assms(8) by (auto simp: list_ex_iff split: option.splits)
  ultimately show ?thesis
    using assms(1,2)
    by (cases tid) (auto simp: CreateInstance_def Let_def instance_states_def chk_instances_host_port_range_def)
qed

lemma try_ports_undisturbed:
  assumes "undisturbed w"
    and ok: "\<And>p. p \<in> set ports \<Longrightarrow> \<not> used p \<Longrightarrow> \<exists>i d' n. newid p = Some i \<and>
      CreateInstance d (db_now w (QCreate p)) i cid tid StatePending (Some p) flag expires net = Inr (d', n)"
  shows "case List.find (\<lambda>p. \<not> used p) ports of
      None \<Rightarrow> try_ports w newid cid tid flag expires net used ports d = (d, Inl (Conflict ''no free challenge ports in range''))
    | Some p \<Rightarrow> \<exists>n. try_ports w newid cid tid flag expires net used ports d = (d\<lparr>instances := instances d @ [n]\<rparr>, Inr n) \<and>
        i_HostPort n = Some p \<and> i_State n = StatePending \<and> i_ChallengeID n = cid \<and> i_TeamID n = tid \<and>
        i_Flag n = flag \<and> i_ExpiresAt n = expires"
  using ok
proof (induction ports)
  case (Cons p ports)
  show ?case
  proof (cases "used p")
    case True
    then show ?thesis using Cons by (simp split: option.splits)
  next
    case False
    with Cons.prems [of p] obtain i d' n where
      n: "newid p = Some i"
      "CreateInstance d (db_now w (QCreate p)) i cid tid StatePending (Some p) flag expires net = Inr (d', n)"
      by auto
    then show ?thesis using False assms(1) CreateInstance_Inr [OF n(2)] by simp
  qed
qed simp

lemma find_least:
  assumes "sorted xs"
  shows "List.find P xs = Some p \<longleftrightarrow> p \<in> set xs \<and> P p \<and> (\<forall>q \<in> set xs. P q \<longrightarrow> p \<le> (q::int))"
  using assms by (induction xs) (auto intro: antisym)

text \<open>Port allocation: the new row gets the lowest port of the range that no row holds, and the request is
  refused exactly when every port of the range is held.\<close>

theorem lowest_free_port:
  assumes "undisturbed w" "30000 \<le> portStart m" "portEnd m \<le> 32767"
    and "\<forall>p. \<exists>i. newid p = Some i \<and> i \<notin> i_ID ` set (instances d)"
    and "(cid, tid) \<notin> (\<lambda>n. (i_ChallengeID n, i_TeamID n)) ` set (instances d)"
    and "flag = None \<or> flag \<notin> i_Flag ` set (instances d)" "cid \<in> c_ID ` set (challenges d)"
    and "tid = None \<or> tid \<in> (\<lambda>t. Some (t_ID t)) ` set (teams d)"
  shows "(\<exists>n p. allocateRow m w newid d cid tid flag expires net = (d\<lparr>instances := instances d @ [n]\<rparr>, Inr n) \<and>
            i_HostPort n = Some p \<and> i_State n = StatePending \<and> i_ChallengeID n = cid \<and> i_TeamID n = tid \<and>
            i_Flag n = flag \<and> i_ExpiresAt n = expires \<and>
            p \<in> {portStart m..portEnd m} - set (ListUsedPorts d) \<and>
            {portStart m..<p} \<subseteq> set (ListUsedPorts d))
       \<or> {portStart m..portEnd m} \<subseteq> set (ListUsedPorts d) \<and>
         allocateRow m w newid d cid tid flag expires net = (d, Inl (Conflict ''no free challenge ports in range''))"
proof -
  let ?u = "\<lambda>p. p \<in> set (ListUsedPorts d)"
  let ?ps = "[portStart m..portEnd m]"
  have a: "allocateRow m w newid d cid tid flag expires net = try_ports w newid cid tid flag expires net ?u ?ps d"
    using assms(1) by (simp add: allocateRow_def Let_def)
  have "\<exists>i d' n. newid p = Some i \<and>
      CreateInstance d (db_now w (QCreate p)) i cid tid StatePending (Some p) flag expires net = Inr (d', n)"
    if "p \<in> set ?ps" "\<not> ?u p" for p
  proof -
    obtain i where i: "newid p = Some i" "i \<notin> i_ID ` set (instances d)" using assms(4) by blast
    have "30000 \<le> p" "p \<le> 32767" using that(1) assms(2,3) by auto
    from CreateInstance_succeeds [OF this that(2) i(2) assms(5-8)] i(1) show ?thesis by blast
  qed
  note q = try_ports_undisturbed [OF assms(1), of ?ps ?u newid d cid tid flag expires net, OF this]
  show ?thesis
  proof (cases "List.find (\<lambda>p. \<not> ?u p) ?ps")
    case None
    then have "{portStart m..portEnd m} \<subseteq> set (ListUsedPorts d)" by (auto simp: find_None_iff)
    with None q show ?thesis unfolding a by simp
  next
    case (Some p)
    then have "p \<in> set ?ps" "\<not> ?u p" "\<forall>q \<in> set ?ps. \<not> ?u q \<longrightarrow> p \<le> q"
      using find_least [of ?ps "\<lambda>p. \<not> ?u p" p] by auto
    then have p: "p \<in> {portStart m..portEnd m} - set (ListUsedPorts d)" "{portStart m..<p} \<subseteq> set (ListUsedPorts d)"
      by force+
    from Some q p show ?thesis unfolding a by auto
  qed
qed

definition lone_world :: world where
  "lone_world = \<lparr>stmt_fails = (\<lambda>_. False), interf = (\<lambda>_ d. d), db_now = (\<lambda>_. 0), clock = (\<lambda>_. 0)\<rparr>"

lemma undisturbed_lone_world [simp]: "undisturbed lone_world"
  by (simp add: undisturbed_def lone_world_def)

definition box_challenge :: "uuid \<Rightarrow> Challenge" where
  "box_challenge i = \<lparr>c_ID = i, c_Slug = ''box'', c_Title = ''Box'', c_Category = ''pwn'', c_Description = [],
     c_Difficulty = None, c_Kind = ''container'', c_Flag = ''flag'', c_FlagCaseInsensitive = False,
     c_Scoring = ''static'', c_PointsInitial = 100, c_PointsMin = None, c_Decay = None, c_MaxAttempts = None,
     c_Visible = True, c_Image = Some ''img'', c_InternalPort = Some 80, c_MemLimitMb = 128, c_CpuMillis = 500,
     c_ContainerEnv = [], c_ConnectionTemplate = None, c_CreatedAt = 0, c_UpdatedAt = 0,
     c_Instancing = ''per_team'', c_FlagMode = ''static'', c_InstanceTtlSeconds = None, c_Egress = False,
     c_WritablePaths = [], c_Type = ''standard'', c_TypeConfig = []\<rparr>"

definition box_team :: Team where
  "box_team = \<lparr>t_ID = 7, t_Name = ''red'', t_InviteCode = ''c'', t_CaptainID = 1, t_Banned = False, t_Hidden = False,
     t_CreatedAt = 0, t_UpdatedAt = 0\<rparr>"

definition box_row :: "uuid \<Rightarrow> uuid \<Rightarrow> string \<Rightarrow> int \<Rightarrow> Instance" where
  "box_row i cid state port = \<lparr>i_ID = i, i_ChallengeID = cid, i_State = state, i_ContainerID = None,
     i_HostPort = Some port, i_Error = None, i_StartedAt = None, i_LastHealthAt = None, i_CreatedAt = 0,
     i_UpdatedAt = 0, i_TeamID = Some 7, i_Flag = None, i_ExpiresAt = None, i_Network = None\<rparr>"

definition box_db :: "Instance list \<Rightarrow> db" where
  "box_db ns = empty_db\<lparr>challenges := [box_challenge 3, box_challenge 4], teams := [box_team],
     events := [\<lparr>e_ID = 1, e_Name = ''e'', e_Description = [], e_StartsAt = 0, e_EndsAt = 1000 * second,
        e_FreezeAt = None, e_CreatedAt = 0, e_UpdatedAt = 0\<rparr>],
     instances := ns\<rparr>"

definition box_manager :: Manager where
  "box_manager = NewManager ''ctf.example'' 30000 30005"

theorem lowest_free_port_witness:
  "\<exists>n. allocateRow box_manager lone_world (\<lambda>p. Some 9) (box_db [box_row 1 3 ''running'' 30000]) 4 (Some 7)
        None None None
      = ((box_db [box_row 1 3 ''running'' 30000])\<lparr>instances := [box_row 1 3 ''running'' 30000, n]\<rparr>, Inr n) \<and>
     i_HostPort n = Some 30001"
proof -
  let ?d = "box_db [box_row 1 3 ''running'' 30000]"
  have used: "ListUsedPorts ?d = [30000]"
    by (simp add: ListUsedPorts_def box_db_def box_row_def map_filter_single)
  have range: "portStart box_manager = 30000" "portEnd box_manager = 30005"
    by (simp_all add: box_manager_def NewManager_def)
  have rows: "instances ?d = [box_row 1 3 ''running'' 30000]" "c_ID ` set (challenges ?d) = {3, 4}"
    "(\<lambda>t. Some (t_ID t)) ` set (teams ?d) = {Some 7}"
    by (simp_all add: box_db_def box_challenge_def box_team_def)
  have "30005 \<in> {30000..30005::int}" "30005 \<notin> {30000::int}" by simp_all
  then have "\<not> {30000..30005} \<subseteq> {30000::int}" by blast
  moreover have "p = 30001" if "p \<in> {30000..30005} - {30000::int}" "{30000..<p} \<subseteq> {30000}" for p
  proof (rule ccontr)
    assume "p \<noteq> 30001"
    with that(1) have "30001 \<in> {30000..<p}" by auto
    with that(2) have "30001 \<in> {30000::int}" by blast
    then show False by simp
  qed
  ultimately show ?thesis
    using lowest_free_port [of lone_world box_manager "\<lambda>p. Some 9" ?d 4 "Some 7" None None None]
    unfolding used range rows by (auto simp: box_row_def)
qed

subsection \<open>What a deploy creates\<close>

definition created :: "trace \<Rightarrow> create_cfg set" where
  "created tr = {cfg. CContainerCreate cfg \<in> set tr}"

lemma created_simps [simp]:
  "created (CContainerCreate cfg # tr) = insert cfg (created tr)"
  "created (CContainerList a # tr) = created tr" "created (CContainerInspect b # tr) = created tr"
  "created (CContainerStart b # tr) = created tr" "created (CContainerStop b # tr) = created tr"
  "created (CContainerRemove b # tr) = created tr" "created (CNetworkList a # tr) = created tr"
  "created (CNetworkInspect b # tr) = created tr" "created (CNetworkRemove b # tr) = created tr"
  "created (CNetworkCreate b x y # tr) = created tr" "created (CImageInspect b # tr) = created tr"
  "created (CImagePull b # tr) = created tr"
  by (auto simp: created_def)

lemma ensureNamedNetwork_creates: "ensureNamedNetwork dk str tr name ne t = (tr', r) \<Longrightarrow> created tr' = created tr"
  by (auto simp: ensureNamedNetwork_def create_network_def isIdleInternalNetwork_def Let_def
      split: answer.splits option.splits if_splits prod.splits bool.splits)

lemma ensureImage_creates: "ensureImage dk tr ref = (tr', r) \<Longrightarrow> created tr' = created tr"
  by (auto simp: ensureImage_def Let_def split: answer.splits)

lemma removeByLabel_creates [simp]: "created (removeByLabel dk str tr i) = created tr"
proof -
  have "created (fold (\<lambda>c tr. CContainerRemove (ci_ID c) # tr) l tr) = created tr"
    for l :: "container_info list" and tr
    by (induction l arbitrary: tr) simp_all
  then show ?thesis by (simp add: removeByLabel_def Let_def split: answer.splits)
qed

lemma health_creates: "health dk tr c = (tr', st) \<Longrightarrow> created tr' = created tr"
  by (auto simp: health_def)

lemma record_container_creates: "record_container dk w tr d i c = (tr', x) \<Longrightarrow> created tr' = created tr"
  by (auto simp: record_container_def Let_def split: prod.splits sum.splits dest: health_creates)

lemma docker_Deploy_creates:
  assumes "docker_Deploy dk str w tr d spec = (tr', x)"
  shows "created tr' \<subseteq> insert (create_config str
    (if sp_NetworkName spec = [] then challengeNetwork else sp_NetworkName spec) spec) (created tr)"
  using assms
  by (auto simp: docker_Deploy_def start_container_def Let_def
      split: prod.splits option.splits app_error.splits answer.splits
      dest!: ensureNamedNetwork_creates ensureImage_creates record_container_creates)

definition hardened :: "create_cfg \<Rightarrow> bool" where
  "hardened cfg \<longleftrightarrow> cc_CapDrop cfg = [''ALL''] \<and> cc_SecurityOpt cfg = [''no-new-privileges:true''] \<and>
     cc_ReadonlyRootfs cfg \<and> cc_PidsLimit cfg = 256 \<and> cc_MemorySwap cfg = cc_Memory cfg \<and>
     cc_Labels cfg managedLabel = Some ''true''"

text \<open>C24. Every container that a per-team deploy asks the daemon for drops all capabilities, has a read-only
  root, bounded processes and no swap beyond its memory; it carries the label, the host port and the network
  of a row of the requesting team and challenge; and the isolation gate had let it pass.\<close>

theorem team_container_hardened:
  assumes "DeployForTeam (docker_runtime dk (uuid_String l)) m l w newid tr d req = (tr', d', r)"
    and "cfg \<in> created tr' - created tr"
  shows "hardened cfg \<and> isolationGate m = None \<and>
    (\<exists>ch d1 row. ensureTeamRow m l w newid (interf w (QGetChallenge 2) d) ch req = (d1, Inr row) \<and>
       i_TeamID row = Some (dr_TeamID req) \<and> i_State row \<noteq> StateRunning \<and>
       cc_Labels cfg instanceIDLabel = Some (uuid_String l (i_ID row)) \<and>
       cc_HostPort cfg = derefPortRow row)"
proof -
  from assms obtain ch d1 row x where
    g: "isolationGate m = None" and e: "ensureTeamRow m l w newid (interf w (QGetChallenge 2) d) ch req = (d1, Inr row)"
    and s: "i_State row \<noteq> StateRunning"
    and dep: "docker_Deploy dk (uuid_String l) w tr d1 (buildSpec l ch row (coalesce (i_Flag row) (c_Flag ch))) = (tr', x)"
    by (auto simp: DeployForTeam_def docker_runtime_def split: option.splits prod.splits sum.splits if_splits
        dest!: getContainerChallenge_db)
  from docker_Deploy_creates [OF dep] assms(2) obtain net where
    c: "cfg = create_config (uuid_String l) net (buildSpec l ch row (coalesce (i_Flag row) (c_Flag ch)))" by auto
  have "hardened cfg" "cc_Labels cfg instanceIDLabel = Some (uuid_String l (i_ID row))"
    "cc_HostPort cfg = derefPortRow row"
    by (simp_all add: c hardened_def create_config_def buildSpec_def pidsLimit_def managedLabel_def challengeIDLabel_def
        instanceIDLabel_def)
  with g e s ensureTeamRow_owner [OF e] show ?thesis by blast
qed

definition box_docker :: "inspect_state \<Rightarrow> docker" where
  "box_docker insp = \<lparr>ContainerList = (\<lambda>_ _. Ok []), ContainerInspect = (\<lambda>_ _. Ok insp),
     ContainerCreate = (\<lambda>_ _. Ok ''c1''), ContainerStart = (\<lambda>_ _. Ok ()), ContainerStop = (\<lambda>_ _. Ok ()),
     NetworkList = (\<lambda>_ _. Ok []), NetworkInspect = (\<lambda>_ _. NotFoundErr ''none''), NetworkRemove = (\<lambda>_ _. Ok ()),
     NetworkCreate = (\<lambda>_ _ _ _. Ok ()), ImageInspect = (\<lambda>_ _. Ok ()), ImagePull = (\<lambda>_ _. Ok ())\<rparr>"

definition box_lib :: lib where
  "box_lib = \<lparr>uuid_String = (\<lambda>i. replicate i (CHR ''x'')), json_map = (\<lambda>_ _. None), json_list = (\<lambda>_. [])\<rparr>"

definition box_req :: DeployReq where
  "box_req = \<lparr>dr_ChallengeID = 3, dr_TeamID = 7, dr_Flag = [], dr_ExpiresAt = None\<rparr>"

definition box_new :: Instance where
  "box_new = (box_row 9 3 ''pending'' 30000)\<lparr>i_Network := Some (teamNetworkName (uuid_String box_lib) 7 True)\<rparr>"

definition box_cfg :: create_cfg where
  "box_cfg = create_config (uuid_String box_lib) (teamNetworkName (uuid_String box_lib) 7 True)
     (buildSpec box_lib (box_challenge 3) box_new ''flag'')"

lemma box_challenge_found:
  "getContainerChallenge lone_world (box_db ns) 3 = (box_db ns, Inr (box_challenge 3))"
  by (simp add: getContainerChallenge_def GetChallengeByID_def box_db_def box_challenge_def Let_def)

lemma box_row_created:
  "ensureTeamRow box_manager box_lib lone_world (\<lambda>_. Some 9) (box_db []) (box_challenge 3) box_req =
   (box_db [box_new], Inr box_new)"
  by (simp add: ensureTeamRow_def allocateRow_def GetTeamInstance_def ListUsedPorts_def List.map_filter_def
      CreateInstance_def box_db_def box_challenge_def box_manager_def NewManager_def box_req_def box_new_def box_row_def
      box_team_def Let_def upto.simps instance_states_def chk_instances_host_port_range_def lone_world_def)

lemma box_deploy_creates:
  assumes "docker_Deploy (box_docker insp) str w [] d spec = (tr', x)" "sp_NetworkName spec \<noteq> []"
  shows "create_config str (sp_NetworkName spec) spec \<in> created tr'"
proof -
  let ?c = "create_config str (sp_NetworkName spec) spec"
  have "\<exists>tr. record_container (box_docker insp) w (CContainerStart ''c1'' # CContainerCreate ?c # tr) d
      (sp_InstanceID spec) ''c1'' = (tr', x)"
    using assms
    by (auto simp: docker_Deploy_def start_container_def ensureNamedNetwork_def create_network_def ensureImage_def
        box_docker_def Let_def)
  then obtain tr where "record_container (box_docker insp) w (CContainerStart ''c1'' # CContainerCreate ?c # tr) d
      (sp_InstanceID spec) ''c1'' = (tr', x)" ..
  from record_container_creates [OF this] show ?thesis by simp
qed

theorem team_container_hardened_witness: "hardened box_cfg"
proof -
  let ?dk = "box_docker \<lparr>is_Running = True, is_Health = None\<rparr>"
  let ?spec = "buildSpec box_lib (box_challenge 3) box_new ''flag''"
  obtain tr' d' r where dep: "docker_Deploy ?dk (uuid_String box_lib) lone_world [] (box_db [box_new]) ?spec = (tr', d', r)"
    using prod_cases3 by blast
  have net: "sp_NetworkName ?spec = teamNetworkName (uuid_String box_lib) 7 True"
    by (simp add: buildSpec_def box_new_def coalesce_def)
  then have "sp_NetworkName ?spec \<noteq> []" by (simp add: teamNetworkName_def)
  from box_deploy_creates [OF dep this] have new: "box_cfg \<in> created tr' - created []"
    unfolding net box_cfg_def by (simp add: created_def)
  have row: "i_State box_new \<noteq> StateRunning" "coalesce (i_Flag box_new) (c_Flag (box_challenge 3)) = ''flag''"
    "dr_ChallengeID box_req = 3" "isolationGate box_manager = None"
    by (simp_all add: box_new_def box_row_def box_challenge_def box_req_def coalesce_def isolationGate_def
        box_manager_def NewManager_def)
  have "DeployForTeam (docker_runtime ?dk (uuid_String box_lib)) box_manager box_lib lone_world (\<lambda>_. Some 9) []
      (box_db []) box_req = (tr', d', r)"
    using dep row by (simp add: DeployForTeam_def box_challenge_found box_row_created docker_runtime_def)
  from team_container_hardened [OF this new] show ?thesis by blast
qed

end
