(* ===== verification/Scheduler.thy ===== *)
theory Scheduler
  imports Manager_Ports Events_Service
begin

text \<open>
  The scheduler (\<^verbatim>\<open>internal/scheduler/scheduler.go\<close>): start, stop and extend a team's instance, and the sweeps
  that expire, reap and clean up.

  Whether the team lock was obtained is an argument of each operation (\<open>Team_Lock\<close> shows what holding it means).
  What other sessions write between two statements is the interference of the \<open>world\<close>: for an operation under
  the lock of its team, that is everybody but the scheduler on that team. The metrics, the audit log and the
  tickers around the sweeps have no effect on the state modelled here.
\<close>

record Config =
  sc_TTL :: duration
  sc_Extend :: duration
  sc_MaxTTL :: duration
  sc_Quota :: int
  sc_ReapAfter :: duration

definition requireRunning :: "world \<Rightarrow> db \<Rightarrow> db \<times> app_error option" where
  "requireRunning w d =
     (let d = interf w QGetEvent d
      in case events_Get (stmt_fails w QGetEvent) d of
           Inl e \<Rightarrow> (d, Some e)
         | Inr e \<Rightarrow>
             if phase (clock w QGetEvent) e \<noteq> PhaseRunning
             then (d, Some (Conflict ''instances are available while the event is running''))
             else (d, None))"

definition ttlFor :: "Config \<Rightarrow> time \<Rightarrow> Challenge \<Rightarrow> time option" where
  "ttlFor cfg now ch =
     (let ttl = (case c_InstanceTtlSeconds ch of Some n \<Rightarrow> n * second | None \<Rightarrow> sc_TTL cfg)
      in if ttl \<le> 0 then None else Some (now + ttl))"

text \<open>The part of \<^verbatim>\<open>Start\<close> after the checks: quota, flag, deploy. \<open>newflag\<close> is what the flag generator returns.\<close>

definition start_deploy ::
  "'s runtime \<Rightarrow> Manager \<Rightarrow> lib \<Rightarrow> Config \<Rightarrow> world \<Rightarrow> (int \<Rightarrow> uuid option) \<Rightarrow> string result \<Rightarrow> 's \<Rightarrow> db \<Rightarrow> uuid \<Rightarrow>
   Challenge \<Rightarrow> uuid \<Rightarrow> 's \<times> db \<times> (RInstance \<times> bool) result" where
  "start_deploy rt m l cfg w newid newflag s d team ch cid =
     (case CountTeamRunning w d team of
        (d, Inl e) \<Rightarrow> (s, d, Inl e)
      | (d, Inr n) \<Rightarrow>
          if n \<ge> sc_Quota cfg then (s, d, Inl (Conflict ''your team is at its instance limit''))
          else case (if c_FlagMode ch = ''per_instance'' then newflag else Inr (c_Flag ch)) of
                 Inl e \<Rightarrow> (s, d, Inl e)
               | Inr flag \<Rightarrow>
                   (case DeployForTeam rt m l w newid s d
                           \<lparr>dr_ChallengeID = cid, dr_TeamID = team, dr_Flag = flag,
                            dr_ExpiresAt = ttlFor cfg (clock w QCount) ch\<rparr> of
                      (s, d, Inl e) \<Rightarrow> (s, d, Inl e)
                    | (s, d, Inr inst) \<Rightarrow> (s, d, Inr (inst, True))))"

definition Start ::
  "'s runtime \<Rightarrow> Manager \<Rightarrow> lib \<Rightarrow> Config \<Rightarrow> world \<Rightarrow> (int \<Rightarrow> uuid option) \<Rightarrow> string result \<Rightarrow> bool \<Rightarrow> 's \<Rightarrow> db \<Rightarrow>
   uuid \<Rightarrow> uuid \<Rightarrow> 's \<times> db \<times> (RInstance \<times> bool) result" where
  "Start rt m l cfg w newid newflag locked s d team cid =
     (if \<not> locked then (s, d, Inl CtxErr)
      else let d = interf w (QGetChallenge 0) d
           in if stmt_fails w (QGetChallenge 0) then (s, d, Inl (Internal ''get challenge''))
              else case GetChallengeByID d cid of
                     None \<Rightarrow> (s, d, Inl ErrNotFound)
                   | Some ch \<Rightarrow>
                       if \<not> c_Visible ch then (s, d, Inl ErrNotFound)
                       else if c_Kind ch \<noteq> ''container'' \<or> c_Instancing ch \<noteq> ''per_team''
                         then (s, d, Inl (Conflict ''this challenge does not have per-team instances''))
                       else (case requireRunning w d of
                               (d, Some e) \<Rightarrow> (s, d, Inl e)
                             | (d, None) \<Rightarrow>
                                 (case manager_GetTeamInstance w d cid team of
                                    (d, Inl e) \<Rightarrow> (s, d, Inl e)
                                  | (d, Inr existing) \<Rightarrow>
                                      (case existing of
                                         Some inst \<Rightarrow>
                                           if n_State inst = StateRunning then (s, d, Inr (inst, False))
                                           else start_deploy rt m l cfg w newid newflag s d team ch cid
                                       | None \<Rightarrow> start_deploy rt m l cfg w newid newflag s d team ch cid))))"

definition sched_Stop :: "'s runtime \<Rightarrow> world \<Rightarrow> bool \<Rightarrow> 's \<Rightarrow> db \<Rightarrow> uuid \<Rightarrow> uuid \<Rightarrow> 's \<times> db \<times> unit result" where
  "sched_Stop rt w locked s d team cid =
     (if \<not> locked then (s, d, Inl CtxErr)
      else case manager_GetTeamInstance w d cid team of
             (d, Inl e) \<Rightarrow> (s, d, Inl e)
           | (d, Inr None) \<Rightarrow> (s, d, Inl ErrNotFound)
           | (d, Inr (Some inst)) \<Rightarrow> DestroyInstance rt w s d (n_ID inst))"

definition extend_target :: "Config \<Rightarrow> time \<Rightarrow> time option \<Rightarrow> time \<Rightarrow> time option" where
  "extend_target cfg now started expires =
     (let maxLifetime = (case started of Some s \<Rightarrow> s + sc_MaxTTL cfg | None \<Rightarrow> now + sc_MaxTTL cfg)
      in if \<not> expires < maxLifetime then None
         else let nxt = expires + sc_Extend cfg
              in Some (if maxLifetime < nxt then maxLifetime else nxt))"

definition Extend :: "Config \<Rightarrow> world \<Rightarrow> bool \<Rightarrow> db \<Rightarrow> uuid \<Rightarrow> uuid \<Rightarrow> db \<times> RInstance result" where
  "Extend cfg w locked d team cid =
     (if \<not> locked then (d, Inl CtxErr)
      else case manager_GetTeamInstance w d cid team of
             (d, Inl e) \<Rightarrow> (d, Inl e)
           | (d, Inr None) \<Rightarrow> (d, Inl ErrNotFound)
           | (d, Inr (Some inst)) \<Rightarrow>
               (case requireRunning w d of
                  (d, Some e) \<Rightarrow> (d, Inl e)
                | (d, None) \<Rightarrow>
                    (case n_ExpiresAt inst of
                       None \<Rightarrow> (d, Inr inst)
                     | Some expires \<Rightarrow>
                         (case extend_target cfg (clock w QSetExpiry) (n_StartedAt inst) expires of
                            None \<Rightarrow> (d, Inl (Conflict ''this instance has reached its maximum lifetime''))
                          | Some nxt \<Rightarrow>
                              let d = interf w QSetExpiry d
                              in if stmt_fails w QSetExpiry then (d, Inl (Internal ''set instance expiry''))
                                 else case SetInstanceExpiry d (db_now w QSetExpiry) (n_ID inst) (Some nxt) of
                                        (d, None) \<Rightarrow> (d, Inl (Internal ''no rows in result set''))
                                      | (d, Some row) \<Rightarrow> (d, Inr (inst\<lparr>n_ExpiresAt := i_ExpiresAt row\<rparr>))))))"

subsection \<open>The sweeps\<close>

text \<open>The result pair is \<^verbatim>\<open>(destroyed, skippedBusy)\<close>.\<close>

definition destroyLocked ::
  "'s runtime \<Rightarrow> world \<Rightarrow> bool \<Rightarrow> (Instance \<Rightarrow> bool) \<Rightarrow> 's \<Rightarrow> db \<Rightarrow> uuid option \<Rightarrow> uuid \<Rightarrow> 's \<times> db \<times> bool \<times> bool" where
  "destroyLocked rt w locked eligible s d teamID i =
     (if teamID \<noteq> None \<and> \<not> locked then (s, d, False, True)
      else case get_row w (QGetInstance 0) d i of
             (d, Inl _) \<Rightarrow> (s, d, False, False)
           | (d, Inr cur) \<Rightarrow>
               if \<not> eligible cur then (s, d, False, False)
               else case DestroyInstance rt w s d i of
                      (s, d, Inl _) \<Rightarrow> (s, d, False, False)
                    | (s, d, Inr _) \<Rightarrow> (s, d, True, False))"

text \<open>The loop of a sweep over the rows it listed; the ids it destroyed come last.\<close>

fun sweep ::
  "'s runtime \<Rightarrow> world \<Rightarrow> (uuid \<Rightarrow> bool) \<Rightarrow> (Instance \<Rightarrow> bool) \<Rightarrow> (uuid option \<times> uuid) list \<Rightarrow> 's \<Rightarrow> db \<Rightarrow>
   's \<times> db \<times> uuid list" where
  "sweep rt w locked eligible [] s d = (s, d, [])"
| "sweep rt w locked eligible ((team, i) # rows) s d =
     (case destroyLocked rt (at_row i w) (locked i) eligible s d team i of
        (s, d, destroyed, _) \<Rightarrow>
          (case sweep rt w locked eligible rows s d of
             (s, d, ids) \<Rightarrow> (s, d, if destroyed then i # ids else ids)))"

definition rotate_from :: "'a list \<Rightarrow> nat \<Rightarrow> 'a list" where
  "rotate_from items offset =
     (if length items = 0 then items
      else let start = offset mod length items in drop start items @ take start items)"

definition expired :: "time \<Rightarrow> Instance \<Rightarrow> bool" where
  "expired now cur \<longleftrightarrow> (case i_ExpiresAt cur of None \<Rightarrow> False | Some x \<Rightarrow> x < now)"

definition ExpireOnce ::
  "'s runtime \<Rightarrow> world \<Rightarrow> (uuid \<Rightarrow> bool) \<Rightarrow> nat \<Rightarrow> 's \<Rightarrow> db \<Rightarrow> nat \<times> 's \<times> db \<times> uuid list result" where
  "ExpireOnce rt w locked offset s d =
     (let now = clock w QList; d = interf w QList d
      in if stmt_fails w QList then (offset, s, d, Inl (Internal ''list expired instances''))
         else let rows = ListExpiredInstances d now; offset = (offset + 1) mod 2 ^ 64
              in case sweep rt w locked (expired now)
                        (map (\<lambda>r. (i_TeamID r, i_ID r)) (rotate_from rows offset)) s d of
                   (s, d, ids) \<Rightarrow> (offset, s, d, Inr ids))"

definition CleanupEnded ::
  "'s runtime \<Rightarrow> world \<Rightarrow> (uuid \<Rightarrow> bool) \<Rightarrow> 's \<Rightarrow> db \<Rightarrow> 's \<times> db \<times> int result" where
  "CleanupEnded rt w locked s d =
     (let d = interf w QGetEvent d
      in case events_Get (stmt_fails w QGetEvent) d of
           Inl e \<Rightarrow> (s, d, Inl e)
         | Inr e \<Rightarrow>
             if phase (clock w QGetEvent) e \<noteq> PhaseEnded then (s, d, Inr 0)
             else let d = interf w QList d
                  in if stmt_fails w QList then (s, d, Inl (Internal ''list per-team instances''))
                     else case sweep rt w locked (\<lambda>_. True)
                                 (map (\<lambda>r. (i_TeamID r, i_ID r)) (ListPerTeamInstances d)) s d of
                            (s, d, _) \<Rightarrow>
                              let d = interf w QRefetch d
                              in if stmt_fails w QRefetch then (s, d, Inl (Internal ''list per-team instances''))
                                 else (s, d, Inr (int (length (ListPerTeamInstances d)))))"

definition reapable :: "Instance \<Rightarrow> bool" where
  "reapable cur \<longleftrightarrow> i_State cur = StatePending \<or> i_State cur = StateError \<or> i_State cur = StateLost"

definition ReapStaleOnce ::
  "'s runtime \<Rightarrow> Config \<Rightarrow> world \<Rightarrow> (uuid \<Rightarrow> bool) \<Rightarrow> 's \<Rightarrow> db \<Rightarrow> 's \<times> db \<times> int result" where
  "ReapStaleOnce rt cfg w locked s d =
     (if sc_ReapAfter cfg \<le> 0 then (s, d, Inr 0)
      else case ListStale w d (sc_ReapAfter cfg) of
             (d, Inl e) \<Rightarrow> (s, d, Inl e)
           | (d, Inr rows) \<Rightarrow>
               (case sweep rt w locked reapable (map (\<lambda>r. (n_TeamID r, n_ID r)) rows) s d of
                  (s, d, ids) \<Rightarrow> (s, d, Inr (int (length ids)))))"

end
