(* ===== verification/Scheduler_Quota.thy ===== *)
theory Scheduler_Quota
  imports Scheduler
begin

text \<open>
  The quota of running instances. The proof works against the runtime interface: a deploy writes one row, so it
  adds at most one running instance. It rests on what the team lock gives: nobody else makes an instance of the
  team running in between. The second theorem shows that the health refresh of the reconcile pass, which does
  not take the lock, can.
\<close>

subsection \<open>Counting running instances\<close>

definition running_but :: "uuid \<Rightarrow> uuid \<Rightarrow> db \<Rightarrow> int" where
  "running_but t i d =
     int (length (filter (\<lambda>n. i_TeamID n = Some t \<and> i_State n = StateRunning \<and> i_ID n \<noteq> i) (instances d)))"

text \<open>Other sessions keep the table's constraints and make no instance of team \<open>t\<close> running.\<close>

definition no_promotion :: "world \<Rightarrow> uuid \<Rightarrow> bool" where
  "no_promotion w t \<longleftrightarrow> (\<forall>c d. instances_ok d \<longrightarrow> instances_ok (interf w c d) \<and>
     CountTeamRunningInstances (interf w c d) t \<le> CountTeamRunningInstances d t \<and>
     (\<forall>i. running_but t i (interf w c d) \<le> running_but t i d))"

lemma no_promotionD:
  assumes "no_promotion w t" "instances_ok d"
  shows "instances_ok (interf w c d)" "CountTeamRunningInstances (interf w c d) t \<le> CountTeamRunningInstances d t"
    "running_but t i (interf w c d) \<le> running_but t i d"
  using assms unfolding no_promotion_def by blast+

lemma running_but_le: "running_but t i d \<le> CountTeamRunningInstances d t"
proof -
  have "length (filter (\<lambda>n. P n \<and> i_ID n \<noteq> i) xs) \<le> length (filter P xs)" for P :: "Instance \<Rightarrow> bool" and xs
    by (induction xs) auto
  from this [of "\<lambda>n. i_TeamID n = Some t \<and> i_State n = StateRunning"] show ?thesis
    by (simp add: running_but_def CountTeamRunningInstances_def conj_assoc)
qed

lemma running_le_but:
  assumes "instances_ok d"
  shows "CountTeamRunningInstances d t \<le> running_but t i d + 1"
proof -
  have "distinct (map k xs) \<Longrightarrow> length (filter P xs) \<le> length (filter (\<lambda>n. P n \<and> k n \<noteq> i) xs) + 1"
    for P :: "Instance \<Rightarrow> bool" and k :: "Instance \<Rightarrow> uuid" and xs
  proof (induction xs)
    case (Cons x xs)
    show ?case
    proof (cases "k x = i")
      case True
      with Cons.prems have "filter (\<lambda>n. P n \<and> k n \<noteq> i) xs = filter P xs" by (intro filter_cong) (force simp: image_iff)+
      with True show ?thesis by simp
    next
      case False
      with Cons show ?thesis by auto
    qed
  qed simp
  from this [of i_ID "instances d" "\<lambda>n. i_TeamID n = Some t \<and> i_State n = StateRunning"] assms show ?thesis
    by (simp add: running_but_def CountTeamRunningInstances_def instances_ok_def conj_assoc)
qed

lemma running_but_update:
  assumes "keeps_owner f"
  shows "running_but t i (update_instance d i f) = running_but t i d"
proof -
  have "length (filter P (map (\<lambda>n. if i_ID n = i then f n else n) xs)) = length (filter P xs)"
    if "\<And>n. i_ID n = i \<Longrightarrow> \<not> P n \<and> \<not> P (f n)" for P xs
    using that by (induction xs) auto
  from this [of "\<lambda>n. i_TeamID n = Some t \<and> i_State n = StateRunning \<and> i_ID n \<noteq> i" "instances d"] show ?thesis
    by (simp add: running_but_def update_instance_def keeps_owner_fields(1) [OF assms])
qed

lemma running_create:
  assumes "CreateInstance d now i cid tid StatePending p flag x net = Inr (d', n)"
  shows "CountTeamRunningInstances d' t = CountTeamRunningInstances d t"
  using CreateInstance_Inr(1,5) [OF assms] by (simp add: CountTeamRunningInstances_def)

lemma team_row_running:
  assumes "ensureTeamRow m l w newid d ch req = (d', r)" "instances_ok d" "no_promotion w t"
    and "CountTeamRunningInstances d t \<le> k"
  shows "instances_ok d' \<and> CountTeamRunningInstances d' t \<le> k"
  using assms(1)
proof (rule ensureTeamRow_invariant)
  fix c x assume "instances_ok x \<and> CountTeamRunningInstances x t \<le> k"
  then show "instances_ok (interf w c x) \<and> CountTeamRunningInstances (interf w c x) t \<le> k"
    using no_promotionD(1,2) [OF assms(3), of x c] by linarith
qed (use assms CreateInstance_ok running_create in auto)

subsection \<open>Against the interface\<close>

context challenge_runtime
begin

lemma deploy_running:
  assumes "rt_Deploy rt w s d spec = (s', d', r)" "instances_ok d" "no_promotion w t"
    and "CountTeamRunningInstances d t \<le> k"
  shows "CountTeamRunningInstances d' t \<le> k + 1"
proof -
  let ?i = "sp_InstanceID spec"
  let ?P = "\<lambda>x. instances_ok x \<and> running_but t ?i x \<le> k"
  have "?P d'"
    using deploy_steps [OF assms(1)]
  proof (rule row_steps_invariant)
    show "?P d" using assms(2,4) running_but_le [of t ?i d] by simp
    fix c x assume "?P x"
    then show "?P (interf w c x)" using no_promotionD(1,3) [OF assms(3), of x] by (meson order_trans)
  next
    fix f x assume "?P x" "keeps_owner f"
    then show "?P (update_instance x ?i f)" by (simp add: update_instance_keeps_ok running_but_update)
  qed
  then show ?thesis using running_le_but [of d' t ?i] by linarith
qed

lemma DeployForTeam_running:
  assumes "DeployForTeam rt m l w newid s d req = (s', d', r)" "instances_ok d" "no_promotion w t"
    and k: "CountTeamRunningInstances d t \<le> k"
  shows "CountTeamRunningInstances d' t \<le> k + 1"
proof -
  let ?d0 = "interf w (QGetChallenge 2) d"
  have d0: "instances_ok ?d0" "CountTeamRunningInstances ?d0 t \<le> k"
    using no_promotionD(1,2) [OF assms(3,2), of "QGetChallenge 2"] k by simp_all
  from assms(1) consider "d' = d" | "d' = ?d0"
    | ch d1 e where "ensureTeamRow m l w newid ?d0 ch req = (d1, e)" "d' = d1"
    | ch d1 e spec where "ensureTeamRow m l w newid ?d0 ch req = (d1, e)" "rt_Deploy rt w s d1 spec = (s', d', r)"
    by (auto simp: DeployForTeam_def split: option.splits prod.splits sum.splits if_splits
        dest!: getContainerChallenge_db)
  then show ?thesis
  proof cases
    case 3
    then show ?thesis using team_row_running [OF 3(1) d0(1) assms(3) d0(2)] by simp
  next
    case 4
    from team_row_running [OF 4(1) d0(1) assms(3) d0(2)] deploy_running [OF 4(2) _ assms(3)] show ?thesis by blast
  qed (use k d0 in auto)
qed

lemma start_deploy_quota:
  assumes "start_deploy rt m l cfg w newid nf s d t ch cid = (s', d', r)" "instances_ok d" "no_promotion w t"
  shows "CountTeamRunningInstances d' t \<le> max (CountTeamRunningInstances d t) (sc_Quota cfg)"
proof -
  let ?d0 = "interf w QCount d"
  note d0 = no_promotionD(1,2) [OF assms(3,2), of QCount]
  from assms(1) consider "d' = ?d0"
    | req r' where "CountTeamRunningInstances ?d0 t < sc_Quota cfg" "DeployForTeam rt m l w newid s ?d0 req = (s', d', r')"
    by (auto simp: start_deploy_def CountTeamRunning_def Let_def split: if_splits sum.splits prod.splits)
  then show ?thesis
  proof cases
    case 2
    from DeployForTeam_running [OF 2(2) d0(1) assms(3) order_refl] 2(1) show ?thesis by linarith
  qed (use d0 in simp)
qed

lemma Start_quota:
  assumes "instances_ok d" "no_promotion w t"
    and "Start rt m l cfg w newid nf locked s d t cid = (s', d', r)"
  shows "CountTeamRunningInstances d' t \<le> max (CountTeamRunningInstances d t) (sc_Quota cfg)"
proof -
  let ?P = "\<lambda>x. instances_ok x \<and> CountTeamRunningInstances x t \<le> CountTeamRunningInstances d t"
  have step: "?P (interf w c x)" if "?P x" for c x
    using that no_promotionD(1,2) [OF assms(2), of x c] by linarith
  let ?d1 = "interf w (QGetChallenge 0) d"
  let ?d2 = "interf w QGetEvent ?d1"
  let ?d3 = "interf w (QGetInstance 6) ?d2"
  have p: "?P ?d1" "?P ?d2" "?P ?d3" using step assms(1) by blast+
  from assms(3) consider "d' = d" | "d' = ?d1" | "d' = ?d2" | "d' = ?d3"
    | ch where "start_deploy rt m l cfg w newid nf s ?d3 t ch cid = (s', d', r)"
    by (auto simp: Start_def requireRunning_def manager_GetTeamInstance_def Let_def
        split: if_splits option.splits prod.splits sum.splits)
  then show ?thesis
  proof cases
    case 5
    from start_deploy_quota [OF this _ assms(2)] p(3) show ?thesis by linarith
  qed (use p in auto)
qed

end

subsection \<open>The property\<close>

text \<open>C11. The quota: starting an instance never leaves a team with more running instances than the quota (or than
  it had), whatever the Docker daemon answers, whichever statement fails and whatever other teams do in
  between, as long as nobody else makes an instance of that team running.\<close>

theorem start_respects_quota:
  assumes "instances_ok d" "no_promotion w team"
    and "Start (docker_runtime dk str) m l cfg w newid newflag locked tr d team cid = (tr', d', r)"
  shows "CountTeamRunningInstances d' team \<le> max (CountTeamRunningInstances d team) (sc_Quota cfg)"
  using assms by (rule docker.Start_quota)

definition box_config :: Config where
  "box_config = \<lparr>sc_TTL = 3600 * second, sc_Extend = 1800 * second, sc_MaxTTL = 7200 * second, sc_Quota = 1,
     sc_ReapAfter = 600 * second\<rparr>"

definition box_start :: "inspect_state \<Rightarrow> uuid \<Rightarrow> trace \<times> db \<Rightarrow> uuid \<Rightarrow> trace \<times> db \<times> (RInstance \<times> bool) result" where
  "box_start insp i = (\<lambda>(tr, d) cid. Start (docker_runtime (box_docker insp) (uuid_String box_lib)) box_manager box_lib box_config
     lone_world (\<lambda>_. Some i) (Inl CtxErr) True tr d 7 cid)"

lemma no_promotion_lone [simp]: "no_promotion lone_world t"
  by (simp add: no_promotion_def lone_world_def)

theorem start_respects_quota_witness:
  "CountTeamRunningInstances (fst (snd (box_start \<lparr>is_Running = True, is_Health = None\<rparr> 9 ([], box_db []) 3))) 7 \<le> 1"
proof -
  obtain tr' d' r where s: "box_start \<lparr>is_Running = True, is_Health = None\<rparr> 9 ([], box_db []) 3 = (tr', d', r)"
    using prod_cases3 by blast
  have ok: "instances_ok (box_db [])" by (simp add: instances_ok_def box_db_def List.map_filter_def)
  have "CountTeamRunningInstances d' 7 \<le> max (CountTeamRunningInstances (box_db []) 7) (sc_Quota box_config)"
    using start_respects_quota [OF ok no_promotion_lone s [unfolded box_start_def prod.case]] .
  moreover have "CountTeamRunningInstances (box_db []) 7 = 0" "sc_Quota box_config = 1"
    by (simp_all add: CountTeamRunningInstances_def box_db_def box_config_def)
  ultimately show ?thesis unfolding s fst_conv snd_conv by simp
qed

text \<open>The quota counts only instances in state running, and an instance whose container has a health check
  is not running when its deploy returns. With a quota of one, a team starts two such instances; when the
  reconcile pass then refreshes their health, both are running.\<close>

theorem quota_misses_starting_instances:
  "let unhealthy = \<lparr>is_Running = True, is_Health = Some ''starting''\<rparr>;
       healthy = docker_runtime (box_docker \<lparr>is_Running = True, is_Health = Some ''healthy''\<rparr>) (uuid_String box_lib);
       (tr1, d1, r1) = box_start unhealthy 9 ([], box_db []) 3;
       (tr2, d2, r2) = box_start unhealthy 10 (tr1, d1) 4;
       (tr3, d3, r3) = rt_Status healthy lone_world tr2 d2 9;
       (tr4, d4, r4) = rt_Status healthy lone_world tr3 d3 10
   in sc_Quota box_config = 1 \<and> \<not> isl r1 \<and> \<not> isl r2 \<and> CountTeamRunningInstances d4 7 = 2"
  by code_simp

end
