(* ===== verification/Scheduler_Sweeps.thy ===== *)
theory Scheduler_Sweeps
  imports Scheduler_Quota
begin

text \<open>
  What the sweeps destroy, and what \<^verbatim>\<open>Extend\<close> and a restart do to an instance's expiry.

  The safety statements hold under any interference; the exact ones describe a pass with no other session, no
  failing statement and every team lock free.
\<close>

subsection \<open>Sweeps re-check under the lock\<close>

definition none_eligible :: "(Instance \<Rightarrow> bool) \<Rightarrow> uuid \<Rightarrow> db \<Rightarrow> bool" where
  "none_eligible eligible j d \<longleftrightarrow> list_all (\<lambda>n. i_ID n = j \<longrightarrow> \<not> eligible n) (instances d)"

definition present :: "uuid \<Rightarrow> db \<Rightarrow> bool" where
  "present j d \<longleftrightarrow> j \<in> i_ID ` set (instances d)"

lemma get_row_db: "get_row w c d i = (d', r) \<Longrightarrow> d' = interf w c d"
  by (auto simp: get_row_def Let_def split: if_splits option.splits)

lemma present_Delete: "present j (DeleteInstance d i) \<longleftrightarrow> present j d \<and> i \<noteq> j"
  by (auto simp: present_def DeleteInstance_def)

lemma DestroyInstance_present:
  assumes "DestroyInstance rt w s d i = (s', d', r)" "present j d" "i \<noteq> j"
    and "\<And>c x. present j x \<Longrightarrow> present j (interf w c x)"
  shows "present j d'"
  using assms by (auto simp: DestroyInstance_def Let_def present_Delete split: prod.splits sum.splits if_splits)

lemma destroyLocked_spares:
  assumes "destroyLocked rt w locked eligible s d team i = (s', d', destroyed, busy)"
    and stays: "\<And>c x. present j x \<Longrightarrow> present j (interf w c x)"
    and recheck: "i = j \<Longrightarrow> none_eligible eligible j (interf w (QGetInstance 0) d)"
  shows "i = j \<Longrightarrow> \<not> destroyed" and "present j d \<Longrightarrow> present j d'"
proof -
  obtain d1 r1 where g: "get_row w (QGetInstance 0) d i = (d1, r1)" by fastforce
  have d1: "d1 = interf w (QGetInstance 0) d" by (rule get_row_db [OF g])
  have keep: "\<not> eligible cur" if "i = j" "r1 = Inr cur" for cur
    using recheck [OF that(1)] GetInstanceByID_Some [OF get_row_Inr [OF g [unfolded that(2)]]] that(1) d1
    by (auto simp: none_eligible_def list_all_iff)
  have dest: "present j d'" if "present j d1" "i \<noteq> j" "DestroyInstance rt w s d1 i = (s', d', r)" for r
    by (rule DestroyInstance_present [OF that(3,1,2)]) (rule stays)
  show "\<not> destroyed" if "i = j"
    using assms(1) keep [OF that] unfolding destroyLocked_def g
    by (cases r1) (auto split: if_splits prod.splits sum.splits)
  show "present j d'" if "present j d"
  proof -
    have p: "present j d1" using stays that by (simp add: d1)
    show ?thesis
    proof (cases "team \<noteq> None \<and> \<not> locked \<or> isl r1 \<or> \<not> eligible (projr r1)")
      case True
      then show ?thesis using assms(1) that p by (cases r1) (auto simp: destroyLocked_def g split: if_splits)
    next
      case False
      then obtain cur where "r1 = Inr cur" "eligible cur" by (cases r1) auto
      moreover with keep have "i \<noteq> j" by blast
      ultimately show ?thesis
        using assms(1) False dest [OF p] by (auto simp: destroyLocked_def g split: prod.splits sum.splits)
    qed
  qed
qed

lemma at_row_interf [simp]: "interf (at_row i w) c = interf w (QRow i c)"
  by (simp add: at_row_def)

lemma sweep_spares:
  assumes "sweep rt w locked eligible rows s d = (s', d', ids)"
    and stays: "\<And>c x. present j x \<Longrightarrow> present j (interf w c x)"
    and recheck: "\<And>x. none_eligible eligible j (interf w (QRow j (QGetInstance 0)) x)"
  shows "j \<notin> set ids \<and> (present j d \<longrightarrow> present j d')"
  using assms(1)
proof (induction rows arbitrary: s d s' d' ids)
  case (Cons row rows)
  obtain team i where row: "row = (team, i)" by (cases row)
  obtain s1 d1 destroyed busy where
    1: "destroyLocked rt (at_row i w) (locked i) eligible s d team i = (s1, d1, destroyed, busy)"
    using prod_cases4 by blast
  obtain s2 d2 ids2 where 2: "sweep rt w locked eligible rows s1 d1 = (s2, d2, ids2)" using prod_cases3 by blast
  have "i = j \<Longrightarrow> \<not> destroyed" "present j d \<Longrightarrow> present j d1"
    using destroyLocked_spares [OF 1, of j] stays recheck by auto
  then show ?case using Cons.IH [OF 2] Cons.prems by (auto simp: row 1 2 split: if_splits)
qed simp

text \<open>The expiry sweep re-checks: an instance whose row is not past its expiry when the sweep re-reads it
  under the team lock, say because an extension landed after the rows were listed, is not destroyed, and it
  is still there afterwards unless another session removed it.\<close>

theorem expire_rechecks:
  assumes "ExpireOnce rt w locked offset s d = (offset', s', d', Inr ids)"
    and "\<forall>x. none_eligible (expired (clock w QList)) j (interf w (QRow j (QGetInstance 0)) x)"
    and "\<forall>c x. present j x \<longrightarrow> present j (interf w c x)"
  shows "j \<notin> set ids \<and> (present j d \<longrightarrow> present j d')"
proof -
  let ?rows = "map (\<lambda>r. (i_TeamID r, i_ID r)) (rotate_from (ListExpiredInstances (interf w QList d) (clock w QList)) offset')"
  have "sweep rt w locked (expired (clock w QList)) ?rows s (interf w QList d) = (s', d', ids)"
    using assms(1) by (auto simp: ExpireOnce_def Let_def split: if_splits prod.splits)
  from sweep_spares [OF this, of j] assms(2,3) show ?thesis by blast
qed

subsection \<open>What an undisturbed pass destroys\<close>

text \<open>A runtime whose destroy does not fail, like the Docker one, which ignores the daemon's errors.\<close>

locale reliable_runtime = challenge_runtime +
  assumes destroy_ok: "rt_Destroy rt s i = (s', r) \<Longrightarrow> r = Inr ()"
begin

lemma DestroyInstance_done:
  assumes "undisturbed w"
  shows "\<exists>s'. DestroyInstance rt w s d i = (s', DeleteInstance d i, Inr ())"
proof -
  obtain s' r where r: "rt_Destroy rt s i = (s', r)" by fastforce
  with destroy_ok [OF r] assms show ?thesis by (simp add: DestroyInstance_def Let_def)
qed

lemma undisturbed_at_row: "undisturbed w \<Longrightarrow> undisturbed (at_row i w)"
  unfolding undisturbed_def at_row_def by simp

lemma GetInstanceByID_Delete: "k \<noteq> i \<Longrightarrow> GetInstanceByID (DeleteInstance d i) k = GetInstanceByID d k"
proof -
  have "k \<noteq> i \<Longrightarrow> List.find (\<lambda>n. i_ID n = k) (filter (\<lambda>n. i_ID n \<noteq> i) xs) = List.find (\<lambda>n. i_ID n = k) xs" for xs
    by (induction xs) auto
  then show "k \<noteq> i \<Longrightarrow> ?thesis" by (simp add: GetInstanceByID_def DeleteInstance_def)
qed

lemma sweep_exact:
  assumes "undisturbed w" "\<And>i. locked i" "distinct (map snd rows)"
    and "\<And>team i. (team, i) \<in> set rows \<Longrightarrow> \<exists>n. GetInstanceByID d i = Some n \<and> eligible n"
  shows "\<exists>s'. sweep rt w locked eligible rows s d =
    (s', d\<lparr>instances := filter (\<lambda>n. i_ID n \<notin> snd ` set rows) (instances d)\<rparr>, map snd rows)"
  using assms(3,4)
proof (induction rows arbitrary: s d)
  case (Cons row rows)
  obtain team i where row: "row = (team, i)" by (cases row)
  from Cons.prems(2) [of team i] obtain n where n: "GetInstanceByID d i = Some n" "eligible n" by (auto simp: row)
  from DestroyInstance_done [OF undisturbed_at_row [OF assms(1)]] obtain s1 where
    s1: "DestroyInstance rt (at_row i w) s d i = (s1, DeleteInstance d i, Inr ())" by blast
  have g: "get_row (at_row i w) (QGetInstance 0) d i = (d, Inr n)"
    using n(1) assms(1) by (simp add: get_row_def Let_def at_row_def)
  have 1: "destroyLocked rt (at_row i w) (locked i) eligible s d team i = (s1, DeleteInstance d i, True, False)"
    using assms(2) n(2) by (simp add: destroyLocked_def g s1)
  have rest: "\<exists>m. GetInstanceByID (DeleteInstance d i) k = Some m \<and> eligible m" if "(t, k) \<in> set rows" for t k
  proof -
    have "k \<noteq> i" using that Cons.prems(1) by (force simp: row)
    with Cons.prems(2) [of t k] that show ?thesis by (simp add: GetInstanceByID_Delete)
  qed
  have "\<exists>s2. sweep rt w locked eligible rows s1 (DeleteInstance d i) =
      (s2, (DeleteInstance d i)\<lparr>instances := filter (\<lambda>n. i_ID n \<notin> snd ` set rows) (instances (DeleteInstance d i))\<rparr>,
       map snd rows)"
    by (rule Cons.IH) (use Cons.prems(1) rest in \<open>auto simp: row\<close>)
  then obtain s2 where
    2: "sweep rt w locked eligible rows s1 (DeleteInstance d i) =
      (s2, (DeleteInstance d i)\<lparr>instances := filter (\<lambda>n. i_ID n \<notin> snd ` set rows) (instances (DeleteInstance d i))\<rparr>,
       map snd rows)" ..
  show ?case by (simp add: row 1 2) (simp add: DeleteInstance_def conj_commute)
qed simp

lemma listed_rows:
  assumes "instances_ok d" "set ns \<subseteq> set (instances d)" "distinct (map i_ID ns)" "\<And>n. n \<in> set ns \<Longrightarrow> eligible n"
    and "undisturbed w" "\<And>i. locked i"
  shows "\<exists>s'. sweep rt w locked eligible (map (\<lambda>r. (i_TeamID r, i_ID r)) ns) s d =
    (s', d\<lparr>instances := filter (\<lambda>n. n \<notin> set ns) (instances d)\<rparr>, map i_ID ns)"
proof -
  have ids: "distinct (map i_ID (instances d))" using assms(1) by (simp add: instances_ok_def)
  have "\<exists>n. GetInstanceByID d i = Some n \<and> eligible n" if i: "(team, i) \<in> set (map (\<lambda>r. (i_TeamID r, i_ID r)) ns)" for team i
  proof -
    from i obtain n where n: "n \<in> set ns" "i = i_ID n" by auto
    then show ?thesis
      using find_key [OF ids, of n] assms(2,4) by (auto simp: GetInstanceByID_def)
  qed
  moreover have "filter (\<lambda>n. i_ID n \<notin> i_ID ` set ns) (instances d) = filter (\<lambda>n. n \<notin> set ns) (instances d)"
    using ids assms(2) by (intro filter_cong refl) (auto simp: distinct_map inj_on_def)
  ultimately show ?thesis
    using sweep_exact [of w locked "map (\<lambda>r. (i_TeamID r, i_ID r)) ns" d eligible s] assms(3,5,6)
    by (simp add: o_def image_image)
qed

end

interpretation docker: reliable_runtime "docker_runtime dk str" for dk str
  by unfold_locales (simp add: docker_runtime_def docker_Destroy_def)

lemma set_rotate_from [simp]: "set (rotate_from xs k) = set xs"
  by (auto simp: rotate_from_def Let_def dest: in_set_takeD in_set_dropD) (metis Un_iff append_take_drop_id set_append)

lemma distinct_rotate_from: "distinct (map f (rotate_from xs k)) \<longleftrightarrow> distinct (map f xs)"
proof -
  have "mset (rotate_from xs k) = mset xs"
    unfolding rotate_from_def Let_def by (simp flip: mset_append) (metis append_take_drop_id mset_append union_commute)
  then have "mset (map f (rotate_from xs k)) = mset (map f xs)" by (metis mset_map)
  then show ?thesis by (rule mset_eq_imp_distinct_iff)
qed

lemma distinct_map_filter_id: "instances_ok d \<Longrightarrow> distinct (map i_ID (filter P (instances d)))"
  by (simp add: instances_ok_def distinct_map_filter)

text \<open>An undisturbed expiry pass destroys exactly the instances past their expiry that are not stopped, failed
  or lost, and leaves every other row as it was.\<close>

theorem expire_exact:
  assumes "instances_ok d" "undisturbed w" "\<forall>i. locked i"
  shows "\<exists>tr' offset' ids. ExpireOnce (docker_runtime dk str) w locked offset tr d =
      (offset', tr', d\<lparr>instances := filter (\<lambda>n. \<not> (expired (clock w QList) n \<and>
         i_State n \<notin> {StateStopped, StateError, StateLost})) (instances d)\<rparr>, Inr ids) \<and>
    set ids = i_ID ` set (ListExpiredInstances d (clock w QList))"
proof -
  let ?now = "clock w QList" and ?o = "(offset + 1) mod 2 ^ 64"
  let ?ns = "rotate_from (ListExpiredInstances d ?now) ?o"
  have l: "set ?ns = {n \<in> set (instances d). expired ?now n \<and> i_State n \<notin> {StateStopped, StateError, StateLost}}"
    by (auto simp: ListExpiredInstances_def expired_def)
  have "distinct (map i_ID ?ns)"
    using assms(1) by (simp add: distinct_rotate_from ListExpiredInstances_def distinct_map_filter_id)
  moreover have "set ?ns \<subseteq> set (instances d)" "\<And>n. n \<in> set ?ns \<Longrightarrow> expired ?now n" unfolding l by blast+
  ultimately obtain tr' where
    s: "sweep (docker_runtime dk str) w locked (expired ?now) (map (\<lambda>r. (i_TeamID r, i_ID r)) ?ns) tr d =
      (tr', d\<lparr>instances := filter (\<lambda>n. n \<notin> set ?ns) (instances d)\<rparr>, map i_ID ?ns)"
    using docker.listed_rows [OF assms(1) _ _ _ assms(2)] assms(3) by blast
  have "filter (\<lambda>n. n \<notin> set ?ns) (instances d) = filter (\<lambda>n. \<not> (expired ?now n \<and>
         i_State n \<notin> {StateStopped, StateError, StateLost})) (instances d)"
    unfolding l by (intro filter_cong refl) auto
  with s assms(2) show ?thesis by (simp add: ExpireOnce_def Let_def)
qed

text \<open>The clean-up at event end is a no-op in any other phase; in the ended phase an undisturbed pass removes
  every per-team instance, reports none remaining, and keeps the shared ones.\<close>

theorem cleanup_only_when_ended:
  assumes "instances_ok d" "undisturbed w" "\<forall>i. locked i" "GetEvent d = Some e"
  shows "\<exists>tr'. CleanupEnded (docker_runtime dk str) w locked tr d =
    (if phase (clock w QGetEvent) e = PhaseEnded
     then (tr', d\<lparr>instances := filter (\<lambda>n. i_TeamID n = None) (instances d)\<rparr>, Inr 0)
     else (tr, d, Inr 0))"
proof -
  let ?ns = "ListPerTeamInstances d"
  have "distinct (map i_ID ?ns)" "set ?ns \<subseteq> set (instances d)"
    using assms(1) by (auto simp: ListPerTeamInstances_def distinct_map_filter_id)
  then obtain tr' where
    s: "sweep (docker_runtime dk str) w locked (\<lambda>_. True) (map (\<lambda>r. (i_TeamID r, i_ID r)) ?ns) tr d =
      (tr', d\<lparr>instances := filter (\<lambda>n. n \<notin> set ?ns) (instances d)\<rparr>, map i_ID ?ns)"
    using docker.listed_rows [OF assms(1) _ _ _ assms(2), of ?ns "\<lambda>_. True"] assms(3) by blast
  have f: "filter (\<lambda>n. n \<notin> set ?ns) (instances d) = filter (\<lambda>n. i_TeamID n = None) (instances d)"
    by (intro filter_cong refl) (auto simp: ListPerTeamInstances_def)
  have none: "ListPerTeamInstances (d\<lparr>instances := filter (\<lambda>n. i_TeamID n = None) (instances d)\<rparr>) = []"
    by (auto simp: ListPerTeamInstances_def filter_empty_conv)
  show ?thesis
    using assms(2,4) by (intro exI [of _ tr']) (simp add: CleanupEnded_def Let_def events_Get_def s [unfolded f] none)
qed

definition old_row :: Instance where
  "old_row = (box_row 5 3 ''running'' 30000)\<lparr>i_ExpiresAt := Some 50\<rparr>"

definition late_world :: world where
  "late_world = lone_world\<lparr>clock := (\<lambda>_. 2000 * second)\<rparr>"

lemma undisturbed_late [simp]: "undisturbed late_world"
  by (simp add: undisturbed_def late_world_def lone_world_def)

lemma old_row_ok: "instances_ok (box_db [old_row])"
  by (simp add: instances_ok_def box_db_def old_row_def box_row_def List.map_filter_def instance_states_def
      chk_instances_host_port_range_def)

theorem expire_exact_witness:
  "\<exists>tr' offset' ids. ExpireOnce (docker_runtime (box_docker \<lparr>is_Running = True, is_Health = None\<rparr>) (uuid_String box_lib))
     late_world (\<lambda>_. True) 0 [] (box_db [old_row]) = (offset', tr', box_db [], Inr ids) \<and> set ids = {5}"
proof -
  have "expired (clock late_world QList) old_row" "i_State old_row = ''running''"
    "ListExpiredInstances (box_db [old_row]) (clock late_world QList) = [old_row]" "i_ID old_row = 5"
    by (simp_all add: expired_def old_row_def box_row_def late_world_def second_def ListExpiredInstances_def box_db_def)
  then show ?thesis
    using expire_exact [OF old_row_ok undisturbed_late, of "\<lambda>_. True"
        "box_docker \<lparr>is_Running = True, is_Health = None\<rparr>" "uuid_String box_lib" 0 "[]"]
    by (simp add: box_db_def)
qed

theorem cleanup_only_when_ended_witness:
  "\<exists>tr'. CleanupEnded (docker_runtime (box_docker \<lparr>is_Running = True, is_Health = None\<rparr>) (uuid_String box_lib))
     late_world (\<lambda>_. True) [] (box_db [old_row]) = (tr', box_db [], Inr 0)"
proof -
  obtain e where e: "GetEvent (box_db [old_row]) = Some e" "e_StartsAt e = 0" "e_EndsAt e = 1000 * second"
    by (simp add: GetEvent_def box_db_def)
  have "phase (clock late_world QGetEvent) e = PhaseEnded"
    by (simp add: phase_def e late_world_def second_def)
  then show ?thesis
    using cleanup_only_when_ended [OF old_row_ok undisturbed_late _ e(1), of "\<lambda>_. True"
        "box_docker \<lparr>is_Running = True, is_Health = None\<rparr>" "uuid_String box_lib" "[]"]
    by (simp add: box_db_def old_row_def box_row_def)
qed

text \<open>A session that extends instance 5 after the sweep has listed it and before the sweep re-reads it.\<close>

definition extending_world :: world where
  "extending_world = late_world\<lparr>interf := (\<lambda>c d. if c = QRow 5 (QGetInstance 0)
     then update_instance d 5 (\<lambda>n. n\<lparr>i_ExpiresAt := Some (3000 * second)\<rparr>) else d)\<rparr>"

lemma present_update:
  assumes "\<And>n. i_ID (f n) = i_ID n"
  shows "present j (update_instance d i f) \<longleftrightarrow> present j d"
proof -
  have "map i_ID (instances (update_instance d i f)) = map i_ID (instances d)"
    by (simp add: update_instance_def assms)
  from arg_cong [OF this, of set] show ?thesis by (simp add: present_def)
qed

lemma ExpireOnce_lists:
  assumes "\<not> stmt_fails w QList"
  shows "\<exists>o' s' d' ids. ExpireOnce rt w locked offset s d = (o', s', d', Inr ids)"
proof -
  obtain o' s' d' r where e: "ExpireOnce rt w locked offset s d = (o', s', d', r)" using prod_cases4 by blast
  with assms have "\<not> isl r" by (auto simp: ExpireOnce_def Let_def split: prod.splits)
  with e show ?thesis by (cases r) auto
qed

lemma extending_rechecked:
  "none_eligible (expired (clock extending_world QList)) 5 (interf extending_world (QRow 5 (QGetInstance 0)) x)"
  by (auto simp: none_eligible_def list_all_iff extending_world_def late_world_def update_instance_def expired_def second_def)

lemma extending_present: "present 5 x \<Longrightarrow> present 5 (interf extending_world c x)"
  by (simp add: extending_world_def present_update)

theorem expire_rechecks_witness:
  "5 \<in> i_ID ` set (ListExpiredInstances (box_db [old_row]) (clock extending_world QList)) \<and>
   present 5 (fst (snd (snd (ExpireOnce (docker_runtime (box_docker \<lparr>is_Running = True, is_Health = None\<rparr>)
     (uuid_String box_lib)) extending_world (\<lambda>_. True) 0 [] (box_db [old_row])))))"
proof -
  let ?r = "ExpireOnce (docker_runtime (box_docker \<lparr>is_Running = True, is_Health = None\<rparr>)
     (uuid_String box_lib)) extending_world (\<lambda>_. True) 0 [] (box_db [old_row])"
  have listed: "5 \<in> i_ID ` set (ListExpiredInstances (box_db [old_row]) (clock extending_world QList))"
    by (simp add: old_row_def box_row_def extending_world_def late_world_def second_def ListExpiredInstances_def box_db_def)
  have "\<not> stmt_fails extending_world QList" by (simp add: extending_world_def late_world_def lone_world_def)
  from ExpireOnce_lists [OF this] obtain o' s' d' ids where r: "?r = (o', s', d', Inr ids)" by metis
  have "present 5 (box_db [old_row])" by (simp add: present_def box_db_def old_row_def box_row_def)
  then have "present 5 d'" using expire_rechecks [OF r, of 5] extending_rechecked extending_present by blast
  with listed show ?thesis unfolding r by simp
qed

subsection \<open>Expiry\<close>

lemma extend_target_Some:
  assumes "extend_target cfg now started e = Some x" "0 < sc_Extend cfg"
  shows "e < x" "x \<le> e + sc_Extend cfg" "started = Some st \<Longrightarrow> x \<le> st + sc_MaxTTL cfg"
  using assms by (auto simp: extend_target_def Let_def split: if_splits option.splits)

text \<open>A successful extension of an instance with an expiry moves it strictly forward, by at most the configured
  step and never past the start of the instance plus the maximum lifetime; the row holds what is returned,
  and no other column of any row but its update time changes.\<close>

theorem extend_bounded:
  assumes "Extend cfg w True d team cid = (d', Inr inst)" "0 < sc_Extend cfg"
    and "GetTeamInstance (interf w (QGetInstance 6) d) cid team = Some row" "i_ExpiresAt row = Some e"
  shows "\<exists>x. n_ExpiresAt inst = Some x \<and> e < x \<and> x \<le> e + sc_Extend cfg \<and>
    (\<forall>st. i_StartedAt row = Some st \<longrightarrow> x \<le> st + sc_MaxTTL cfg) \<and>
    d' = update_instance (interf w QSetExpiry (interf w QGetEvent (interf w (QGetInstance 6) d))) (i_ID row)
      (\<lambda>n. n\<lparr>i_ExpiresAt := Some x, i_UpdatedAt := db_now w QSetExpiry\<rparr>)"
proof -
  let ?d2 = "interf w QSetExpiry (interf w QGetEvent (interf w (QGetInstance 6) d))"
  obtain x n where x: "extend_target cfg (clock w QSetExpiry) (i_StartedAt row) e = Some x"
    and s: "SetInstanceExpiry ?d2 (db_now w QSetExpiry) (i_ID row) (Some x) = (d', Some n)"
    and i: "n_ExpiresAt inst = i_ExpiresAt n"
    using assms(1,3,4)
    by (auto simp: Extend_def manager_GetTeamInstance_def requireRunning_def Let_def rowToInstance_def
        split: if_splits option.splits prod.splits sum.splits)
  have d': "d' = update_instance ?d2 (i_ID row) (\<lambda>n. n\<lparr>i_ExpiresAt := Some x, i_UpdatedAt := db_now w QSetExpiry\<rparr>)"
    and n: "GetInstanceByID d' (i_ID row) = Some n"
    using s by (auto simp: SetInstanceExpiry_def Let_def)
  have "i_ExpiresAt n = Some x"
    using GetInstanceByID_Some [OF n] unfolding d' by (auto simp: update_instance_def split: if_splits)
  with i d' extend_target_Some [OF x assms(2)] show ?thesis by auto
qed

definition fresh_row :: Instance where
  "fresh_row = (box_row 5 3 ''running'' 30000)\<lparr>i_StartedAt := Some 0, i_ExpiresAt := Some (3600 * second)\<rparr>"

theorem extend_bounded_witness:
  "snd (Extend box_config lone_world True (box_db [fresh_row]) 7 3) =
     Inr ((rowToInstance fresh_row)\<lparr>n_ExpiresAt := Some (5400 * second)\<rparr>) \<and> 5400 * second \<le> 0 + 7200 * second"
proof -
  have e: "\<exists>d'. Extend box_config lone_world True (box_db [fresh_row]) 7 3 =
      (d', Inr ((rowToInstance fresh_row)\<lparr>n_ExpiresAt := Some (5400 * second)\<rparr>))"
    by (simp add: Extend_def manager_GetTeamInstance_def GetTeamInstance_def requireRunning_def events_Get_def
        GetEvent_def phase_def Let_def lone_world_def box_db_def fresh_row_def box_row_def rowToInstance_def
        extend_target_def box_config_def SetInstanceExpiry_def update_instance_def GetInstanceByID_def second_def)
  then obtain d' where e: "Extend box_config lone_world True (box_db [fresh_row]) 7 3 =
      (d', Inr ((rowToInstance fresh_row)\<lparr>n_ExpiresAt := Some (5400 * second)\<rparr>))" ..
  have "0 < sc_Extend box_config"
    "GetTeamInstance (interf lone_world (QGetInstance 6) (box_db [fresh_row])) 3 7 = Some fresh_row"
    "i_ExpiresAt fresh_row = Some (3600 * second)" "i_StartedAt fresh_row = Some 0" "sc_MaxTTL box_config = 7200 * second"
    by (simp_all add: box_config_def second_def lone_world_def GetTeamInstance_def box_db_def fresh_row_def box_row_def)
  with extend_bounded [OF e this(1,2,3)] show ?thesis by (auto simp: e)
qed

context challenge_runtime
begin

lemma deploy_keeps_expiry:
  assumes "undisturbed w" "rt_Deploy rt w s d spec = (s', d', Inr inst)"
    and "\<forall>n \<in> set (instances d). i_ID n = sp_InstanceID spec \<longrightarrow> i_ExpiresAt n = x"
  shows "n_ExpiresAt inst = x"
proof -
  let ?P = "\<lambda>y :: db. \<forall>n \<in> set (instances y). i_ID n = sp_InstanceID spec \<longrightarrow> i_ExpiresAt n = x"
  have "?P d'"
    using deploy_steps [OF assms(2)] assms(3)
  proof (rule row_steps_invariant)
    fix f y assume "?P y" "keeps_owner f"
    then show "?P (update_instance y (sp_InstanceID spec) f)"
      by (auto simp: update_instance_def keeps_owner_fields(1,6))
  qed (use assms(1) in simp)
  moreover obtain n where "GetInstanceByID d' (sp_InstanceID spec) = Some n" "inst = rowToInstance n"
    using deploy_row [OF assms(2)] by blast
  ultimately show ?thesis using GetInstanceByID_Some by (auto simp: rowToInstance_def)
qed

lemma restart_expiry:
  assumes "undisturbed w" "instances_ok d" "GetTeamInstance d cid team = Some row"
    and "start_deploy rt m l cfg w newid nf s d team ch cid = (s', d', Inr (inst, b))"
  shows "n_ExpiresAt inst = i_ExpiresAt row"
proof -
  from assms(1,4) obtain flag where "DeployForTeam rt m l w newid s d \<lparr>dr_ChallengeID = cid, dr_TeamID = team,
      dr_Flag = flag, dr_ExpiresAt = ttlFor cfg (clock w QCount) ch\<rparr> = (s', d', Inr inst)"
    by (auto simp: start_deploy_def CountTeamRunning_def Let_def split: if_splits sum.splits prod.splits)
  then consider "inst = rowToInstance row"
    | ch' fl where "rt_Deploy rt w s d (buildSpec l ch' row fl) = (s', d', Inr inst)"
    using assms(1,3)
    by (auto simp: DeployForTeam_def getContainerChallenge_def ensureTeamRow_def Let_def GetChallengeByID_def
        split: option.splits if_splits dest!: find_SomeD)
  then show ?thesis
  proof cases
    case 2
    have row: "row \<in> set (instances d)" using assms(3) by (auto simp: GetTeamInstance_def dest: find_SomeD)
    have "\<forall>n \<in> set (instances d). i_ID n = i_ID row \<longrightarrow> i_ExpiresAt n = i_ExpiresAt row"
      using assms(2) row by (auto simp: instances_ok_def distinct_map inj_on_def)
    with deploy_keeps_expiry [OF assms(1) 2] show ?thesis by (simp add: buildSpec_def)
  qed (simp add: rowToInstance_def)
qed

end

text \<open>Restarting keeps the old expiry: when the team already has a row for the challenge (stopped, failed or
  lost), a start redeploys that row and the lifetime that was computed for the new run is dropped. The
  instance returned expires when the first run would have, which may be in the past.\<close>

theorem restart_keeps_old_expiry:
  assumes "undisturbed w" "instances_ok d" "GetTeamInstance d cid team = Some row"
    and "Start (docker_runtime dk str) m l cfg w newid newflag True tr d team cid = (tr', d', Inr (inst, b))"
  shows "n_ExpiresAt inst = i_ExpiresAt row"
proof -
  from assms(1,3,4) consider "inst = rowToInstance row"
    | ch where "start_deploy (docker_runtime dk str) m l cfg w newid newflag tr d team ch cid = (tr', d', Inr (inst, b))"
    by (auto simp: Start_def requireRunning_def manager_GetTeamInstance_def Let_def
        split: if_splits option.splits prod.splits sum.splits)
  then show ?thesis
    by cases (simp add: rowToInstance_def, rule docker.restart_expiry [OF assms(1-3)])
qed

definition lost_row :: Instance where
  "lost_row = (box_row 5 3 ''lost'' 30000)\<lparr>i_ExpiresAt := Some (- 50)\<rparr>"

theorem restart_keeps_old_expiry_witness:
  "\<exists>tr' d' inst. box_start \<lparr>is_Running = True, is_Health = None\<rparr> 9 ([], box_db [lost_row]) 3 = (tr', d', Inr (inst, True)) \<and>
     n_ExpiresAt inst = Some (- 50)"
proof -
  let ?r = "box_start \<lparr>is_Running = True, is_Health = None\<rparr> 9 ([], box_db [lost_row]) 3"
  have "case snd (snd ?r) of Inr (inst, b) \<Rightarrow> b | _ \<Rightarrow> False" by code_simp
  then obtain tr' d' inst where r: "?r = (tr', d', Inr (inst, True))"
    by (cases ?r) (auto split: sum.splits)
  have "instances_ok (box_db [lost_row])" "GetTeamInstance (box_db [lost_row]) 3 7 = Some lost_row"
    by (simp_all add: instances_ok_def box_db_def lost_row_def box_row_def List.map_filter_def instance_states_def
        chk_instances_host_port_range_def GetTeamInstance_def)
  from restart_keeps_old_expiry [OF undisturbed_lone_world this r [unfolded box_start_def prod.case]] r show ?thesis
    by (auto simp: lost_row_def)
qed

end
