(* ===== verification/Docker_Reconcile.thy ===== *)
theory Docker_Reconcile
  imports Scheduler_Sweeps
begin

text \<open>
  The reconcile pass of the Docker runtime around the pure decision (\<^verbatim>\<open>gatherReconcile\<close>, \<^verbatim>\<open>executeAction\<close>,
  \<^verbatim>\<open>refreshHealth\<close>, \<^verbatim>\<open>Reconcile\<close> of \<^verbatim>\<open>internal/runtime/docker.go\<close>) and the two listings of resources it could not
  resolve. \<open>str\<close> and \<open>parse\<close> are \<^verbatim>\<open>UUID.String\<close> and \<^verbatim>\<open>uuid.Parse\<close>; what is assumed of them is \<open>uuid_codec\<close>.
\<close>

definition uuid_codec :: "(uuid \<Rightarrow> string) \<Rightarrow> (string \<Rightarrow> uuid option) \<Rightarrow> bool" where
  "uuid_codec str parse \<longleftrightarrow> (\<forall>i. parse (str i) = Some i) \<and> parse [] = None"

definition managedFilter :: "string \<times> string" where
  "managedFilter = (''label'', managedLabel @ ''=true'')"

definition derefStrRow :: "string option \<Rightarrow> string" where
  "derefStrRow s = coalesce s []"

definition is_team_net :: "net_info \<Rightarrow> bool" where
  "is_team_net n \<longleftrightarrow> HasPrefix (ni_Name n) teamNetPrefix \<or> label (ni_Labels n) teamNetworkLabel = ''true''"

subsection \<open>Listings for the fleet view\<close>

record UnadoptedContainer =
  uc_ContainerID :: string
  uc_Image :: string
  uc_CreatedAt :: time

record UnadoptedNetwork =
  un_NetworkID :: string
  un_Name :: string

definition resolvable :: "(string \<Rightarrow> uuid option) \<Rightarrow> string \<Rightarrow> bool" where
  "resolvable parse i \<longleftrightarrow> i \<noteq> [] \<and> parse i \<noteq> None"

definition ListUnadopted :: "docker \<Rightarrow> (string \<Rightarrow> uuid option) \<Rightarrow> trace \<Rightarrow> trace \<times> UnadoptedContainer list result" where
  "ListUnadopted dk parse tr =
     (CContainerList managedFilter # tr,
      case ContainerList dk tr managedFilter of
        Ok cs \<Rightarrow> Inr (map (\<lambda>c. \<lparr>uc_ContainerID = ci_ID c, uc_Image = ci_Image c, uc_CreatedAt = ci_Created c * second\<rparr>)
                  (filter (\<lambda>c. \<not> resolvable parse (label (ci_Labels c) instanceIDLabel)) cs))
      | ConnErr _ \<Rightarrow> Inr []
      | _ \<Rightarrow> Inl (Internal ''runtime: listing containers''))"

definition ListUnadoptedNetworks :: "docker \<Rightarrow> (string \<Rightarrow> uuid option) \<Rightarrow> trace \<Rightarrow> trace \<times> UnadoptedNetwork list result" where
  "ListUnadoptedNetworks dk parse tr =
     (CNetworkList managedFilter # tr,
      case NetworkList dk tr managedFilter of
        Ok ns \<Rightarrow> Inr (map (\<lambda>n. \<lparr>un_NetworkID = ni_ID n, un_Name = ni_Name n\<rparr>)
                  (filter (\<lambda>n. is_team_net n \<and> \<not> resolvable parse (label (ni_Labels n) teamIDLabel)) ns))
      | ConnErr _ \<Rightarrow> Inr []
      | _ \<Rightarrow> Inl (Internal ''runtime: listing networks''))"

subsection \<open>Gather\<close>

definition container_view :: "container_info \<Rightarrow> ContainerView" where
  "container_view c = \<lparr>cv_ContainerID = ci_ID c, cv_InstanceID = label (ci_Labels c) instanceIDLabel,
     cv_Running = (ci_State c = ''running'')\<rparr>"

definition row_view :: "(uuid \<Rightarrow> string) \<Rightarrow> Instance \<Rightarrow> InstanceRow" where
  "row_view str r = \<lparr>ir_InstanceID = str (i_ID r), ir_TeamID = (case i_TeamID r of None \<Rightarrow> [] | Some t \<Rightarrow> str t),
     ir_State = i_State r, ir_ContainerID = derefStrRow (i_ContainerID r), ir_UpdatedAt = i_UpdatedAt r\<rparr>"

fun gather_nets :: "docker \<Rightarrow> trace \<Rightarrow> net_info list \<Rightarrow> trace \<times> NetworkView list" where
  "gather_nets dk tr [] = (tr, [])"
| "gather_nets dk tr (n # ns) =
     (if \<not> is_team_net n then gather_nets dk tr ns
      else case gather_nets dk (CNetworkInspect (ni_ID n) # tr) ns of
             (tr', out) \<Rightarrow>
               (tr', case NetworkInspect dk tr (ni_ID n) of
                       Ok full \<Rightarrow> \<lparr>nv_NetworkID = ni_ID n, nv_Name = ni_Name n,
                                   nv_TeamID = label (ni_Labels n) teamIDLabel, nv_TeamNetwork = True,
                                   nv_Attached = nf_Containers full\<rparr> # out
                     | _ \<Rightarrow> out))"

definition gatherTeamNetworks :: "docker \<Rightarrow> trace \<Rightarrow> trace \<times> NetworkView list" where
  "gatherTeamNetworks dk tr =
     (case NetworkList dk tr managedFilter of
        Ok ns \<Rightarrow> gather_nets dk (CNetworkList managedFilter # tr) ns
      | _ \<Rightarrow> (CNetworkList managedFilter # tr, []))"

text \<open>\<open>Inr None\<close> is \<^verbatim>\<open>ok = false\<close>: the daemon is unreachable and the pass is skipped.\<close>

definition gatherReconcile ::
  "docker \<Rightarrow> (uuid \<Rightarrow> string) \<Rightarrow> world \<Rightarrow> trace \<Rightarrow> db \<Rightarrow> trace \<times> db \<times> (views \<times> time) option result" where
  "gatherReconcile dk str w tr d =
     (let tr1 = CContainerList managedFilter # tr
      in case ContainerList dk tr managedFilter of
           ConnErr _ \<Rightarrow> (tr1, d, Inr None)
         | NotFoundErr _ \<Rightarrow> (tr1, d, Inl (Internal ''runtime: listing containers''))
         | OtherErr _ \<Rightarrow> (tr1, d, Inl (Internal ''runtime: listing containers''))
         | Ok cs \<Rightarrow>
             let d = interf w QList d
             in if stmt_fails w QList then (tr1, d, Inl (Internal ''runtime: listing instances''))
                else let rows = ListInstances d; (tr2, networks) = gatherTeamNetworks dk tr1; d = interf w QClock d
                     in if stmt_fails w QClock then (tr2, d, Inl (Internal ''runtime: reading db clock''))
                        else (tr2, d, Inr (Some ((map container_view cs, map (row_view str) rows, networks), db_now w QClock))))"

subsection \<open>Execute\<close>

definition executeAction :: "(string \<Rightarrow> uuid option) \<Rightarrow> world \<Rightarrow> Action \<Rightarrow> trace \<times> db \<Rightarrow> trace \<times> db" where
  "executeAction parse w a = (\<lambda>(tr, d).
     case a_Kind a of
       ActionMarkLost \<Rightarrow>
         (case parse (a_InstanceID a) of
            None \<Rightarrow> (tr, d)
          | Some i \<Rightarrow> (tr, fst (update_row (at_row i w) (QUpdate 5) d i (Some StateLost) None False None None None)))
     | ActionRemoveContainer \<Rightarrow> (CContainerRemove (a_ContainerID a) # tr, d)
     | ActionRemoveNetwork \<Rightarrow> (CNetworkRemove (a_NetworkID a) # tr, d)
     | ActionFlagUnadopted \<Rightarrow> (tr, d)
     | ActionFlagUnadoptedNetwork \<Rightarrow> (tr, d))"

definition refresh_row ::
  "docker \<Rightarrow> (string \<Rightarrow> uuid option) \<Rightarrow> world \<Rightarrow> (string \<Rightarrow> bool) \<Rightarrow> InstanceRow \<Rightarrow> trace \<times> db \<Rightarrow> trace \<times> db" where
  "refresh_row dk parse w due r = (\<lambda>(tr, d).
     if \<not> due (ir_InstanceID r) then (tr, d)
     else case parse (ir_InstanceID r) of
            None \<Rightarrow> (tr, d)
          | Some i \<Rightarrow> (case docker_Status dk (at_row i w) tr d i of (tr, d, _) \<Rightarrow> (tr, d)))"

definition refreshHealth ::
  "docker \<Rightarrow> (string \<Rightarrow> uuid option) \<Rightarrow> world \<Rightarrow> ContainerView list \<Rightarrow> InstanceRow list \<Rightarrow> string set \<Rightarrow> trace \<times> db \<Rightarrow>
   trace \<times> db" where
  "refreshHealth dk parse w observed rows touched =
     fold (refresh_row dk parse w (\<lambda>i. i \<in> cv_InstanceID ` set observed - {[]} \<and> i \<notin> touched)) rows"

definition docker_Reconcile ::
  "docker \<Rightarrow> (uuid \<Rightarrow> string) \<Rightarrow> (string \<Rightarrow> uuid option) \<Rightarrow> world \<Rightarrow> trace \<Rightarrow> db \<Rightarrow> trace \<times> db \<times> unit result" where
  "docker_Reconcile dk str parse w tr d =
     (case gatherReconcile dk str w tr d of
        (tr, d, Inl e) \<Rightarrow> (tr, d, Inl e)
      | (tr, d, Inr None) \<Rightarrow> (tr, d, Inr ())
      | (tr, d, Inr (Some ((observed, rows, networks), now))) \<Rightarrow>
          let actions = fst (Reconcile observed rows networks now);
              touched = a_InstanceID ` set (filter (\<lambda>a. a_Kind a = ActionMarkLost) actions);
              (tr, d) = fold (executeAction parse w) actions (tr, d);
              (tr, d) = refreshHealth dk parse w observed rows touched (tr, d)
          in (tr, d, Inr ()))"

subsection \<open>A pass writes states, never rows or owners\<close>

text \<open>Composition of the writes of a pass: each is one to one row, under the interference of the pass.\<close>

definition keeps_rows :: "db \<Rightarrow> db \<Rightarrow> bool" where
  "keeps_rows d d' \<longleftrightarrow> map owner (instances d') = map owner (instances d) \<and> (instances_ok d \<longrightarrow> instances_ok d')"

lemma keeps_rows_refl: "keeps_rows d d"
  by (simp add: keeps_rows_def)

lemma keeps_rows_trans: "keeps_rows d1 d2 \<Longrightarrow> keeps_rows d2 d3 \<Longrightarrow> keeps_rows d1 d3"
  by (simp add: keeps_rows_def)

lemma keeps_rows_update: "keeps_owner f \<Longrightarrow> keeps_rows d (update_instance d i f)"
  by (auto simp: keeps_rows_def update_instance_keeps_ok) (auto simp: update_instance_def keeps_owner_def)

lemma keeps_rows_steps:
  assumes "row_steps w i d d'" "\<And>c x. keeps_rows x (interf w c x)"
  shows "keeps_rows d d'"
  using assms(1) keeps_rows_refl
proof (rule row_steps_invariant)
  show "keeps_rows d x \<Longrightarrow> keeps_rows d (interf w c x)" for c x by (rule keeps_rows_trans [OF _ assms(2)])
  show "keeps_rows d x \<Longrightarrow> keeps_owner f \<Longrightarrow> keeps_rows d (update_instance x i f)" for f x
    by (rule keeps_rows_trans [OF _ keeps_rows_update])
qed

lemma executeAction_keeps:
  assumes "executeAction parse w a (tr, d) = (tr', d')" "\<And>c x. keeps_rows x (interf w c x)"
  shows "keeps_rows d d'"
proof -
  have "keeps_rows d (fst (update_row (at_row i w) (QUpdate 5) d i (Some StateLost) None False None None None))" for i
  proof -
    obtain d1 r where u: "update_row (at_row i w) (QUpdate 5) d i (Some StateLost) None False None None None = (d1, r)"
      by fastforce
    have "row_steps (at_row i w) i d d1" by (rule update_row_spec(1) [OF u]) auto
    then have "keeps_rows d d1" by (rule keeps_rows_steps) (simp add: assms(2))
    with u show ?thesis by simp
  qed
  then show ?thesis
    using assms(1) by (auto simp: executeAction_def keeps_rows_refl split: ActionKind.splits option.splits)
qed

lemma refresh_row_keeps:
  assumes "refresh_row dk parse w due r (tr, d) = (tr', d')" "\<And>c x. keeps_rows x (interf w c x)"
  shows "keeps_rows d d'"
proof -
  have "keeps_rows d d1" if "docker_Status dk (at_row i w) tr d i = (tr1, d1, x)" for i tr1 d1 x
    by (rule keeps_rows_steps [OF docker_Status_steps [OF that]]) (simp add: assms(2))
  then show ?thesis
    using assms(1) by (auto simp: refresh_row_def keeps_rows_refl split: if_splits option.splits prod.splits)
qed

lemma fold_keeps:
  assumes "\<And>a tr d tr' d'. f a (tr, d) = (tr', d') \<Longrightarrow> keeps_rows d d'" "fold f as (tr, d) = (tr', d')"
  shows "keeps_rows d d'"
  using assms(2)
proof (induction as arbitrary: tr d)
  case (Cons a as)
  obtain tr1 d1 where 1: "f a (tr, d) = (tr1, d1)" by fastforce
  from Cons.IH [of tr1 d1] Cons.prems 1 have "keeps_rows d1 d'" by simp
  with assms(1) [OF 1] show ?case by (rule keeps_rows_trans)
qed (simp add: keeps_rows_refl)

lemma gather_db:
  assumes "gatherReconcile dk str w tr d = (tr', d', r)" "\<And>c x. keeps_rows x (interf w c x)"
  shows "keeps_rows d d'"
proof -
  have "keeps_rows d (interf w QClock (interf w QList d))"
    by (rule keeps_rows_trans [OF assms(2) assms(2)])
  then show ?thesis
    using assms by (auto simp: gatherReconcile_def Let_def keeps_rows_refl split: answer.splits if_splits prod.splits)
qed

text \<open>A reconcile pass neither creates nor deletes an instance row and never writes its owner, port, flag,
  expiry or network, whatever the daemon answers; with the table's constraints it starts from, it ends with
  them. (Deleting rows is the reaper's work.)\<close>

theorem reconcile_pass_keeps_rows:
  assumes "docker_Reconcile dk str parse w tr d = (tr', d', r)" "instances_ok d"
    and "\<forall>c x. keeps_rows x (interf w c x)"
  shows "map owner (instances d') = map owner (instances d) \<and> instances_ok d'"
proof -
  note keep = assms(3) [THEN spec, THEN spec]
  obtain tr1 d1 r1 where g: "gatherReconcile dk str w tr d = (tr1, d1, r1)" using prod_cases3 by blast
  have "keeps_rows d1 d'"
  proof (cases "\<exists>observed rows networks now. r1 = Inr (Some ((observed, rows, networks), now))")
    case True
    then obtain observed rows networks now where r1: "r1 = Inr (Some ((observed, rows, networks), now))" by blast
    let ?as = "fst (Reconcile observed rows networks now)"
    obtain tr2 d2 where e: "fold (executeAction parse w) ?as (tr1, d1) = (tr2, d2)" by fastforce
    have "keeps_rows d1 d2" by (rule fold_keeps [OF executeAction_keeps [OF _ keep] e])
    moreover have "\<exists>due. fold (refresh_row dk parse w due) rows (tr2, d2) = (tr', d')"
      using assms(1) by (auto simp: docker_Reconcile_def g r1 e refreshHealth_def Let_def split: prod.splits)
    then have "keeps_rows d2 d'" by (elim exE) (rule fold_keeps [OF refresh_row_keeps [OF _ keep]])
    ultimately show ?thesis by (rule keeps_rows_trans)
  next
    case False
    then have "d' = d1" using assms(1) by (auto simp: docker_Reconcile_def g split: sum.splits option.splits)
    then show ?thesis by (simp add: keeps_rows_refl)
  qed
  then have "keeps_rows d d'" by (rule keeps_rows_trans [OF gather_db [OF g keep]])
  with assms(2) show ?thesis by (simp add: keeps_rows_def)
qed

theorem reconcile_pass_keeps_rows_witness:
  "map owner (instances (fst (snd (docker_Reconcile (box_docker \<lparr>is_Running = True, is_Health = None\<rparr>)
     (uuid_String box_lib) (\<lambda>s. Some (length s)) lone_world [] (box_db [old_row]))))) = map owner [old_row]"
proof -
  let ?r = "docker_Reconcile (box_docker \<lparr>is_Running = True, is_Health = None\<rparr>)
     (uuid_String box_lib) (\<lambda>s. Some (length s)) lone_world [] (box_db [old_row])"
  obtain tr' d' r where r: "?r = (tr', d', r)" using prod_cases3 by blast
  have "\<forall>c x. keeps_rows x (interf lone_world c x)" by (simp add: lone_world_def keeps_rows_refl)
  from reconcile_pass_keeps_rows [OF r old_row_ok this] show ?thesis
    unfolding r by (simp add: box_db_def)
qed

subsection \<open>Unparseable labels\<close>

lemma executeAction_monotone: "set tr \<subseteq> set (fst (executeAction parse w a (tr, d)))"
  by (auto simp: executeAction_def split: ActionKind.splits option.splits)

lemma execute_monotone: "set tr \<subseteq> set (fst (fold (executeAction parse w) as (tr, d)))"
proof (induction as arbitrary: tr d)
  case (Cons a as)
  obtain tr1 d1 where 1: "executeAction parse w a (tr, d) = (tr1, d1)" by fastforce
  from Cons.IH [of tr1 d1] executeAction_monotone [of tr parse w a d] show ?case by (auto simp: 1)
qed simp

lemma execute_removes:
  assumes "a \<in> set as" "a_Kind a = ActionRemoveContainer"
  shows "CContainerRemove (a_ContainerID a) \<in> set (fst (fold (executeAction parse w) as (tr, d)))"
  using assms(1)
proof (induction as arbitrary: tr d)
  case (Cons b as)
  obtain tr1 d1 where 1: "executeAction parse w b (tr, d) = (tr1, d1)" by fastforce
  show ?case
  proof (cases "a = b")
    case True
    then have "CContainerRemove (a_ContainerID a) \<in> set tr1" using 1 assms(2) by (auto simp: executeAction_def)
    then show ?thesis using execute_monotone [of tr1 parse w as d1] by (auto simp: 1)
  next
    case False
    with Cons show ?thesis by (simp add: 1)
  qed
qed simp

lemma Status_monotone: "docker_Status dk w tr d i = (tr', d', r) \<Longrightarrow> set tr \<subseteq> set tr'"
  by (auto simp: docker_Status_def health_def Let_def
      split: prod.splits sum.splits option.splits answer.splits if_splits)

lemma refresh_row_monotone: "set tr \<subseteq> set (fst (refresh_row dk parse w due r (tr, d)))"
  by (auto simp: refresh_row_def split: option.splits prod.splits dest: Status_monotone)

lemma refresh_monotone: "set tr \<subseteq> set (fst (fold (refresh_row dk parse w due) rows (tr, d)))"
proof (induction rows arbitrary: tr d)
  case (Cons r rows)
  obtain tr1 d1 where 1: "refresh_row dk parse w due r (tr, d) = (tr1, d1)" by fastforce
  from Cons.IH [of tr1 d1] refresh_row_monotone [of tr dk parse w due r d] show ?case by (auto simp: 1)
qed simp

text \<open>A managed container whose instance label is present but is not a UUID is listed as unadopted, the class
  that is documented as never removed, and yet the next pass removes it: the label reaches the decision
  unparsed and matches no row.\<close>

theorem unparseable_label_removed:
  assumes "uuid_codec str parse" "undisturbed w" "ContainerList dk tr managedFilter = Ok cs" "c \<in> set cs"
    and "label (ci_Labels c) instanceIDLabel \<noteq> []" "parse (label (ci_Labels c) instanceIDLabel) = None"
  shows "ci_ID c \<in> uc_ContainerID ` set (projr (snd (ListUnadopted dk parse tr))) \<and>
    CContainerRemove (ci_ID c) \<in> set (fst (docker_Reconcile dk str parse w tr d))"
proof
  show "ci_ID c \<in> uc_ContainerID ` set (projr (snd (ListUnadopted dk parse tr)))"
    using assms(3-6) by (force simp: ListUnadopted_def resolvable_def)
  let ?rows = "map (row_view str) (ListInstances d)" and ?obs = "map container_view cs"
  obtain tr1 networks where n: "gatherTeamNetworks dk (CContainerList managedFilter # tr) = (tr1, networks)" by fastforce
  let ?as = "fst (Reconcile ?obs ?rows networks (db_now w QClock))"
  have g: "gatherReconcile dk str w tr d = (tr1, d, Inr (Some ((?obs, ?rows, networks), db_now w QClock)))"
    using assms(2,3) n by (simp add: gatherReconcile_def Let_def)
  have ne: "str i \<noteq> label (ci_Labels c) instanceIDLabel" for i
    using assms(1,6) unfolding uuid_codec_def by (metis option.distinct(1))
  then have "rowByID ?rows (label (ci_Labels c) instanceIDLabel) = None"
    by (auto simp: rowByID_None row_view_def ne [symmetric])
  then have "ci_ID c \<in> targets ActionRemoveContainer a_ContainerID ?as"
    unfolding removed_containers using assms(4,5) by (force simp: container_view_def)
  then obtain a where "a \<in> set ?as" "a_Kind a = ActionRemoveContainer" "a_ContainerID a = ci_ID c"
    by (auto simp: targets_def)
  then have "CContainerRemove (ci_ID c) \<in> set (fst (fold (executeAction parse w) ?as (tr1, d)))"
    using execute_removes by metis
  moreover obtain tr2 d2 where e: "fold (executeAction parse w) ?as (tr1, d) = (tr2, d2)" by fastforce
  ultimately have "CContainerRemove (ci_ID c) \<in> set tr2" by simp
  moreover obtain due where "fst (docker_Reconcile dk str parse w tr d) = fst (fold (refresh_row dk parse w due) ?rows (tr2, d2))"
  proof
    show "fst (docker_Reconcile dk str parse w tr d) = fst (fold (refresh_row dk parse w
        (\<lambda>i. i \<in> cv_InstanceID ` set ?obs - {[]} \<and> i \<notin> a_InstanceID ` set (filter (\<lambda>a. a_Kind a = ActionMarkLost) ?as)))
        ?rows (tr2, d2))"
      unfolding docker_Reconcile_def g refreshHealth_def Let_def prod.case sum.case option.case e
      by (simp only: case_prod_beta fst_conv)
  qed
  ultimately show "CContainerRemove (ci_ID c) \<in> set (fst (docker_Reconcile dk str parse w tr d))"
    using refresh_monotone [of tr2 dk parse w due ?rows d2] by auto
qed

definition odd_container :: container_info where
  "odd_container = \<lparr>ci_ID = ''c7'', ci_Image = ''img'', ci_Created = 0, ci_State = ''running'',
     ci_Labels = Map.empty(managedLabel \<mapsto> ''true'', instanceIDLabel \<mapsto> ''not-a-uuid'')\<rparr>"

definition odd_docker :: docker where
  "odd_docker = (box_docker \<lparr>is_Running = True, is_Health = None\<rparr>)\<lparr>ContainerList := (\<lambda>_ _. Ok [odd_container])\<rparr>"

definition x_parse :: "string \<Rightarrow> uuid option" where
  "x_parse s = (if s \<noteq> [] \<and> list_all (\<lambda>c. c = CHR ''x'') s then Some (length s - 1) else None)"

theorem unparseable_label_removed_witness:
  "CContainerRemove ''c7'' \<in> set (fst (docker_Reconcile odd_docker (\<lambda>i. replicate (Suc i) (CHR ''x'')) x_parse
     lone_world [] (box_db [])))"
proof -
  have "uuid_codec (\<lambda>i. replicate (Suc i) (CHR ''x'')) x_parse"
    by (auto simp: uuid_codec_def x_parse_def list_all_iff)
  moreover have "ContainerList odd_docker [] managedFilter = Ok [odd_container]" by (simp add: odd_docker_def)
  ultimately show ?thesis
    using unparseable_label_removed [of "\<lambda>i. replicate (Suc i) (CHR ''x'')" x_parse lone_world odd_docker "[]"
        "[odd_container]" odd_container "box_db []"]
    by (simp add: odd_container_def label_def coalesce_def instanceIDLabel_def managedLabel_def x_parse_def)
qed

end
