(* ===== verification/Fake_Runtime.thy ===== *)
theory Fake_Runtime
  imports Docker_Reconcile
begin

text \<open>
  The fake runtime (\<^verbatim>\<open>internal/runtime/fake.go\<close>) that the services' tests run against: containers are a map inside
  the process. It is the second interpretation of \<open>challenge_runtime\<close>, so what the manager and the scheduler
  guarantee against the interface they guarantee against it too.

  \<open>FailReconcileActionFor\<close> and \<open>BeforeDeploy\<close> are test hooks: the first is a parameter of the pass, the second has
  no effect on the state. The iteration order of the map is that of the association list.
\<close>

record fakeContainer =
  fc_id :: string
  fc_running :: bool

record FakeRuntime =
  fk_FailDeploy :: bool
  fk_Unavailable :: bool
  fk_DeployFault :: "app_error option"
  fk_deployed :: "InstanceSpec list"
  fk_destroyed :: "uuid list"
  fk_containers :: "(uuid \<times> fakeContainer) list"
  fk_lastReconcileActions :: int

definition NewFakeRuntime :: FakeRuntime where
  "NewFakeRuntime = \<lparr>fk_FailDeploy = False, fk_Unavailable = False, fk_DeployFault = None, fk_deployed = [],
     fk_destroyed = [], fk_containers = [], fk_lastReconcileActions = 0\<rparr>"

definition drop_container :: "uuid \<Rightarrow> (uuid \<times> fakeContainer) list \<Rightarrow> (uuid \<times> fakeContainer) list" where
  "drop_container i cs = filter (\<lambda>(k, c). k \<noteq> i) cs"

definition put_container :: "uuid \<Rightarrow> fakeContainer \<Rightarrow> (uuid \<times> fakeContainer) list \<Rightarrow> (uuid \<times> fakeContainer) list" where
  "put_container i c cs = drop_container i cs @ [(i, c)]"

definition VanishContainer :: "FakeRuntime \<Rightarrow> uuid \<Rightarrow> FakeRuntime" where
  "VanishContainer f i = f\<lparr>fk_containers := drop_container i (fk_containers f)\<rparr>"

definition ExitContainer :: "FakeRuntime \<Rightarrow> uuid \<Rightarrow> FakeRuntime" where
  "ExitContainer f i = f\<lparr>fk_containers := map (\<lambda>(k, c). if k = i then (k, c\<lparr>fc_running := False\<rparr>) else (k, c)) (fk_containers f)\<rparr>"

definition InjectContainer :: "FakeRuntime \<Rightarrow> uuid \<Rightarrow> string \<Rightarrow> FakeRuntime" where
  "InjectContainer f i c = f\<lparr>fk_containers := put_container i \<lparr>fc_id = c, fc_running = True\<rparr> (fk_containers f)\<rparr>"

definition fake_Deploy ::
  "(uuid \<Rightarrow> string) \<Rightarrow> world \<Rightarrow> FakeRuntime \<Rightarrow> db \<Rightarrow> InstanceSpec \<Rightarrow> FakeRuntime \<times> db \<times> RInstance result" where
  "fake_Deploy str w f d spec =
     (if fk_Unavailable f then (f, d, Inl (RuntimeUnavailable ''fake unavailable''))
      else let f = f\<lparr>fk_deployed := fk_deployed f @ [spec]\<rparr>; i = sp_InstanceID spec
           in case fk_DeployFault f of
                Some e \<Rightarrow> (f, d, Inl e)
              | None \<Rightarrow>
                  if fk_FailDeploy f
                  then (case update_row w (QUpdate 0) d i (Some StateError) None True (Some ''fake deploy failure'') None None of
                          (d, Inl e) \<Rightarrow> (f, d, Inl e)
                        | (d, Inr row) \<Rightarrow> (f, d, Inr (rowToInstance row)))
                  else let cid = ''fake-'' @ str i; now = clock w (QUpdate 0)
                       in case update_row w (QUpdate 0) d i (Some StateRunning) (Some cid) False None (Some now) (Some now) of
                            (d, Inl e) \<Rightarrow> (f, d, Inl e)
                          | (d, Inr row) \<Rightarrow>
                              (f\<lparr>fk_containers := put_container i \<lparr>fc_id = cid, fc_running = True\<rparr> (fk_containers f)\<rparr>,
                               d, Inr (rowToInstance row)))"

definition fake_Stop :: "world \<Rightarrow> FakeRuntime \<Rightarrow> db \<Rightarrow> uuid \<Rightarrow> FakeRuntime \<times> db \<times> unit result" where
  "fake_Stop w f d i =
     (if fk_Unavailable f then (f, d, Inl (RuntimeUnavailable ''fake unavailable''))
      else case update_row w (QUpdate 0) d i (Some StateStopped) None False None None None of
             (d, Inl e) \<Rightarrow> (f, d, Inl e)
           | (d, Inr _) \<Rightarrow> (f, d, Inr ()))"

definition fake_Destroy :: "FakeRuntime \<Rightarrow> uuid \<Rightarrow> FakeRuntime \<times> unit result" where
  "fake_Destroy f i =
     (if fk_Unavailable f then (f, Inl (RuntimeUnavailable ''fake unavailable''))
      else (f\<lparr>fk_destroyed := fk_destroyed f @ [i], fk_containers := drop_container i (fk_containers f)\<rparr>, Inr ()))"

definition fake_Status :: "world \<Rightarrow> FakeRuntime \<Rightarrow> db \<Rightarrow> uuid \<Rightarrow> FakeRuntime \<times> db \<times> RInstance result" where
  "fake_Status w f d i =
     (case get_row w (QGetInstance 0) d i of
        (d, Inl e) \<Rightarrow> (f, d, Inl e)
      | (d, Inr row) \<Rightarrow> (f, d, Inr (rowToInstance row)))"

definition fake_runtime :: "(uuid \<Rightarrow> string) \<Rightarrow> FakeRuntime runtime" where
  "fake_runtime str = \<lparr>rt_Deploy = fake_Deploy str, rt_Stop = fake_Stop, rt_Destroy = fake_Destroy, rt_Status = fake_Status\<rparr>"

interpretation fake: challenge_runtime "fake_runtime str" for str
proof unfold_locales
  fix w s d spec s' d' r
  assume "rt_Deploy (fake_runtime str) w s d spec = (s', d', r)"
  then show "row_steps w (sp_InstanceID spec) d d'"
    by (auto simp: fake_runtime_def fake_Deploy_def Let_def split: if_splits option.splits prod.splits sum.splits
        dest!: update_row_spec(1) intro: row_steps.stay)
next
  fix w s d i s' d' r1
  assume "rt_Stop (fake_runtime str) w s d i = (s', d', r1)"
  then show "row_steps w i d d'"
    by (auto simp: fake_runtime_def fake_Stop_def split: if_splits prod.splits sum.splits
        dest!: update_row_spec(1) intro: row_steps.stay)
next
  fix w s d i s' d' r
  assume "rt_Status (fake_runtime str) w s d i = (s', d', r)"
  then show "row_steps w i d d'"
    by (auto simp: fake_runtime_def fake_Status_def split: prod.splits sum.splits dest!: get_row_steps)
next
  fix w s d spec s' d' inst
  assume "rt_Deploy (fake_runtime str) w s d spec = (s', d', Inr inst)"
  then show "\<exists>n. GetInstanceByID d' (sp_InstanceID spec) = Some n \<and> inst = rowToInstance n"
    by (auto simp: fake_runtime_def fake_Deploy_def Let_def split: if_splits option.splits prod.splits sum.splits
        dest: update_row_spec(2))
qed

subsection \<open>Its reconcile pass\<close>

definition fake_execute ::
  "(string \<Rightarrow> uuid option) \<Rightarrow> world \<Rightarrow> (Action \<Rightarrow> bool) \<Rightarrow> Action \<Rightarrow> FakeRuntime \<times> db \<Rightarrow> FakeRuntime \<times> db" where
  "fake_execute parse w skip a = (\<lambda>(f, d).
     if skip a then (f, d)
     else case a_Kind a of
            ActionMarkLost \<Rightarrow>
              (case parse (a_InstanceID a) of
                 None \<Rightarrow> (f, d)
               | Some i \<Rightarrow> (f, fst (update_row (at_row i w) (QUpdate 5) d i (Some StateLost) None False None None None)))
          | ActionRemoveContainer \<Rightarrow>
              (f\<lparr>fk_containers := filter (\<lambda>(k, c). fc_id c \<noteq> a_ContainerID a) (fk_containers f)\<rparr>, d)
          | _ \<Rightarrow> (f, d))"

definition fake_views :: "(uuid \<Rightarrow> string) \<Rightarrow> FakeRuntime \<Rightarrow> ContainerView list" where
  "fake_views str f = map (\<lambda>(i, c). \<lparr>cv_ContainerID = fc_id c, cv_InstanceID = str i, cv_Running = fc_running c\<rparr>) (fk_containers f)"

definition fake_Reconcile ::
  "(uuid \<Rightarrow> string) \<Rightarrow> (string \<Rightarrow> uuid option) \<Rightarrow> world \<Rightarrow> (Action \<Rightarrow> bool) \<Rightarrow> FakeRuntime \<Rightarrow> db \<Rightarrow>
   FakeRuntime \<times> db \<times> unit result" where
  "fake_Reconcile str parse w skip f d =
     (if fk_Unavailable f then (f, d, Inr ())
      else let d = interf w QList d
           in if stmt_fails w QList then (f, d, Inl (Internal ''fake: list instances''))
              else let rows = map (row_view str) (ListInstances d); d = interf w QClock d
                   in if stmt_fails w QClock then (f, d, Inl (Internal ''fake: db clock''))
                      else let actions = fst (Reconcile (fake_views str f) rows [] (db_now w QClock));
                               (f, d) = fold (fake_execute parse w skip) actions
                                          (f\<lparr>fk_lastReconcileActions := int (length actions)\<rparr>, d)
                           in (f, d, Inr ()))"

text \<open>The decision is the same function in both runtimes: with the containers of the fake shown by the daemon and
  no team network, the Docker pass decides the same actions.\<close>

lemma same_decision:
  assumes "undisturbed w" "ContainerList dk tr managedFilter = Ok cs" "map container_view cs = fake_views str f"
    and "gatherReconcile dk str w tr d = (tr', d', Inr (Some ((observed, rows, []), now)))" "\<not> fk_Unavailable f"
  shows "fst (fake_Reconcile str parse w (\<lambda>_. True) f d) =
      f\<lparr>fk_lastReconcileActions := int (length (fst (Reconcile observed rows [] now)))\<rparr>"
proof -
  have id: "fold (fake_execute parse w (\<lambda>_. True)) as x = x" for as x
    by (induction as arbitrary: x) (auto simp: fake_execute_def split: prod.splits)
  have "observed = fake_views str f" "rows = map (row_view str) (ListInstances d)" "now = db_now w QClock"
    using assms by (auto simp: gatherReconcile_def Let_def split: prod.splits)
  then show ?thesis using assms(1,5) by (simp add: fake_Reconcile_def id Let_def)
qed

end
