(* ===== verification/Event_Bus.thy ===== *)
theory Event_Bus
  imports Prelude
begin

text \<open>
  The domain-event bus of \<^verbatim>\<open>internal/events/bus.go\<close>: \<^verbatim>\<open>Publish\<close> on the write path, one bounded queue and one
  delivery goroutine per subscriber, and the teardown of a subscriber.

  The bus is a shared-memory program, so the model is a step function over atomic actions that any number of
  goroutines interleave. A \<^verbatim>\<open>*subscriber\<close> is an index into \<open>heap\<close>. \<^verbatim>\<open>Publish\<close> loads the subscriber slice
  (\<open>Publish_load\<close>) and then sends to its members one by one (\<open>Publish_send\<close>); \<^verbatim>\<open>Subscribe\<close> and the copy-on-write of
  \<^verbatim>\<open>remove\<close> are one action each, as \<^verbatim>\<open>writeMu\<close> makes them; the rest of \<^verbatim>\<open>remove\<close> and the loop of \<^verbatim>\<open>run\<close> are one
  action per channel or context operation. The handler is the subscriber's own code: whether it returns an error is
  part of the action. \<open>dropped\<close> is the counter \<^verbatim>\<open>metrics.PluginEventsDropped\<close>, as the multiset of the label triples
  it was incremented with.

  The fields of \<open>subscriber\<close> from \<open>offered\<close> on are history variables: they record what happened to each event that a
  publisher brought to the subscriber and no operation reads them.
\<close>

record bus_event =
  ev_Name :: string
  ev_ID :: string
  ev_OccurredAt :: time
  ev_Data :: "(string \<times> string) list"

text \<open>Where the goroutine of \<^verbatim>\<open>run\<close> is: in the select, holding an event it has received and not yet checked the
  context for, inside the handler, or returned.\<close>

datatype worker = Selecting | Received bus_event | Handling bus_event | Exited

text \<open>How far \<^verbatim>\<open>remove\<close> has come: not called, subscriber out of the slice, context cancelled (in \<^verbatim>\<open>wg.Wait\<close>), in the
  drain loop, returned.\<close>

datatype removal = Linked | Unlinked | Cancelled | Draining_queue | Removed

record subscriber =
  sub_name :: string
  wants :: "string \<Rightarrow> bool"
  chan_cap :: nat
  chan :: "bus_event list"
  ctx_done :: bool
  worker :: worker
  removal :: removal
  offered :: "bus_event list"
  accepted :: "bus_event list"
  refused :: "bus_event list"
  handed :: "bus_event list"
  delivered :: "bus_event list"
  failed :: "bus_event list"
  aborted :: "bus_event list"
  discarded :: "bus_event list"

record bus =
  subs :: "nat list"
  queueCap :: nat
  heap :: "subscriber list"
  publishers :: "(bus_event \<times> nat list) list"
  dropped :: "(string \<times> string \<times> string) multiset"

definition defaultQueueCap :: nat where
  "defaultQueueCap = 64"

definition NewBus :: bus where
  "NewBus = \<lparr>subs = [], queueCap = defaultQueueCap, heap = [], publishers = [], dropped = {#}\<rparr>"

definition WithQueueCap :: "int \<Rightarrow> bus \<Rightarrow> bus" where
  "WithQueueCap n b = (if n > 0 then b\<lparr>queueCap := nat n\<rparr> else b)"

definition drop_label :: "string \<Rightarrow> string \<Rightarrow> bus_event \<Rightarrow> string \<times> string \<times> string" where
  "drop_label name reason e = (name, ev_Name e, reason)"

definition count_drop :: "subscriber \<Rightarrow> string \<Rightarrow> bus_event \<Rightarrow> bus \<Rightarrow> bus" where
  "count_drop s reason e b = b\<lparr>dropped := add_mset (drop_label (sub_name s) reason e) (dropped b)\<rparr>"

definition put_sub :: "nat \<Rightarrow> subscriber \<Rightarrow> bus \<Rightarrow> bus" where
  "put_sub i s b = b\<lparr>heap := (heap b)[i := s]\<rparr>"

subsection \<open>Publish\<close>

text \<open>\<^verbatim>\<open>range *b.subs.Load()\<close>: the slice is read once; it is immutable.\<close>

definition Publish_load :: "bus_event \<Rightarrow> bus \<Rightarrow> bus" where
  "Publish_load e b = b\<lparr>publishers := publishers b @ [(e, subs b)]\<rparr>"

text \<open>One iteration of the loop of \<^verbatim>\<open>Publish\<close>, for the subscriber at the head of what is left of the slice.\<close>

definition Publish_send :: "nat \<Rightarrow> bus \<Rightarrow> bus option" where
  "Publish_send k b =
     (if k < length (publishers b) then
        case publishers b ! k of
          (e, []) \<Rightarrow> None
        | (e, i # rest) \<Rightarrow>
            let b1 = b\<lparr>publishers := (publishers b)[k := (e, rest)]\<rparr>; s = heap b ! i
            in if \<not> wants s (ev_Name e) then Some b1
               else if length (chan s) < chan_cap s
               then Some (put_sub i (s\<lparr>chan := chan s @ [e], offered := offered s @ [e], accepted := accepted s @ [e]\<rparr>) b1)
               else Some (count_drop s ''backpressure'' e
                            (put_sub i (s\<lparr>offered := offered s @ [e], refused := refused s @ [e]\<rparr>) b1))
      else None)"

subsection \<open>Subscribe and remove\<close>

definition new_subscriber :: "string \<Rightarrow> (string \<Rightarrow> bool) \<Rightarrow> nat \<Rightarrow> subscriber" where
  "new_subscriber name w n =
     \<lparr>sub_name = name, wants = w, chan_cap = n, chan = [], ctx_done = False, worker = Selecting, removal = Linked,
      offered = [], accepted = [], refused = [], handed = [], delivered = [], failed = [], aborted = [], discarded = []\<rparr>"

definition Subscribe :: "string \<Rightarrow> (string \<Rightarrow> bool) \<Rightarrow> bus \<Rightarrow> bus" where
  "Subscribe name w b =
     b\<lparr>heap := heap b @ [new_subscriber name w (queueCap b)], subs := subs b @ [length (heap b)]\<rparr>"

text \<open>The returned cancel function runs \<^verbatim>\<open>remove\<close> once (\<^verbatim>\<open>sync.Once\<close>): its first action needs \<open>Linked\<close>.\<close>

definition remove_unlink :: "nat \<Rightarrow> bus \<Rightarrow> bus option" where
  "remove_unlink i b =
     (if i < length (heap b) \<and> removal (heap b ! i) = Linked
      then Some (put_sub i ((heap b ! i)\<lparr>removal := Unlinked\<rparr>) (b\<lparr>subs := filter (\<lambda>x. x \<noteq> i) (subs b)\<rparr>))
      else None)"

definition remove_cancel :: "nat \<Rightarrow> bus \<Rightarrow> bus option" where
  "remove_cancel i b =
     (if i < length (heap b) \<and> removal (heap b ! i) = Unlinked
      then Some (put_sub i ((heap b ! i)\<lparr>removal := Cancelled, ctx_done := True\<rparr>) b) else None)"

definition remove_wait :: "nat \<Rightarrow> bus \<Rightarrow> bus option" where
  "remove_wait i b =
     (if i < length (heap b) \<and> removal (heap b ! i) = Cancelled \<and> worker (heap b ! i) = Exited
      then Some (put_sub i ((heap b ! i)\<lparr>removal := Draining_queue\<rparr>) b) else None)"

definition remove_drain :: "nat \<Rightarrow> bus \<Rightarrow> bus option" where
  "remove_drain i b =
     (let s = heap b ! i in
      if i < length (heap b) \<and> removal s = Draining_queue
      then case chan s of
             [] \<Rightarrow> Some (put_sub i (s\<lparr>removal := Removed\<rparr>) b)
           | e # q \<Rightarrow> Some (count_drop s ''shutdown'' e (put_sub i (s\<lparr>chan := q, discarded := discarded s @ [e]\<rparr>) b))
      else None)"

subsection \<open>The delivery goroutine\<close>

definition run_done :: "nat \<Rightarrow> bus \<Rightarrow> bus option" where
  "run_done i b =
     (let s = heap b ! i in
      if i < length (heap b) \<and> worker s = Selecting \<and> ctx_done s
      then Some (put_sub i (s\<lparr>worker := Exited\<rparr>) b) else None)"

definition run_receive :: "nat \<Rightarrow> bus \<Rightarrow> bus option" where
  "run_receive i b =
     (let s = heap b ! i in
      if i < length (heap b) \<and> worker s = Selecting
      then case chan s of [] \<Rightarrow> None | e # q \<Rightarrow> Some (put_sub i (s\<lparr>chan := q, worker := Received e\<rparr>) b)
      else None)"

definition run_check :: "nat \<Rightarrow> bus \<Rightarrow> bus option" where
  "run_check i b =
     (let s = heap b ! i in
      if i < length (heap b)
      then case worker s of
             Received e \<Rightarrow>
               if ctx_done s
               then Some (count_drop s ''shutdown'' e (put_sub i (s\<lparr>worker := Exited, discarded := discarded s @ [e]\<rparr>) b))
               else Some (put_sub i (s\<lparr>worker := Handling e, handed := handed s @ [e]\<rparr>) b)
           | _ \<Rightarrow> None
      else None)"

text \<open>The handler returns, with an error or not; the error is counted unless the context is cancelled by then.\<close>

definition run_return :: "nat \<Rightarrow> bool \<Rightarrow> bus \<Rightarrow> bus option" where
  "run_return i err b =
     (let s = heap b ! i in
      if i < length (heap b)
      then case worker s of
             Handling e \<Rightarrow>
               if err \<and> \<not> ctx_done s
               then Some (count_drop s ''delivery'' e (put_sub i (s\<lparr>worker := Selecting, failed := failed s @ [e]\<rparr>) b))
               else if err then Some (put_sub i (s\<lparr>worker := Selecting, aborted := aborted s @ [e]\<rparr>) b)
               else Some (put_sub i (s\<lparr>worker := Selecting, delivered := delivered s @ [e]\<rparr>) b)
           | _ \<Rightarrow> None
      else None)"

subsection \<open>Runs\<close>

datatype bus_action =
    DoWithQueueCap int
  | DoPublish bus_event
  | DoSend nat
  | DoSubscribe string "string \<Rightarrow> bool"
  | DoUnlink nat
  | DoCancel nat
  | DoWait nat
  | DoDrain nat
  | RunDone nat
  | RunReceive nat
  | RunCheck nat
  | RunReturn nat bool

fun bus_act :: "bus_action \<Rightarrow> bus \<Rightarrow> bus option" where
  "bus_act (DoWithQueueCap n) b = Some (WithQueueCap n b)"
| "bus_act (DoPublish e) b = Some (Publish_load e b)"
| "bus_act (DoSend k) b = Publish_send k b"
| "bus_act (DoSubscribe name w) b = Some (Subscribe name w b)"
| "bus_act (DoUnlink i) b = remove_unlink i b"
| "bus_act (DoCancel i) b = remove_cancel i b"
| "bus_act (DoWait i) b = remove_wait i b"
| "bus_act (DoDrain i) b = remove_drain i b"
| "bus_act (RunDone i) b = run_done i b"
| "bus_act (RunReceive i) b = run_receive i b"
| "bus_act (RunCheck i) b = run_check i b"
| "bus_act (RunReturn i err) b = run_return i err b"

fun bus_acts :: "bus_action list \<Rightarrow> bus \<Rightarrow> bus option" where
  "bus_acts [] b = Some b"
| "bus_acts (a # as) b = (case bus_act a b of None \<Rightarrow> None | Some b' \<Rightarrow> bus_acts as b')"

inductive bus_reachable :: "bus \<Rightarrow> bool" where
  start: "bus_reachable NewBus"
| act: "bus_reachable b \<Longrightarrow> bus_act a b = Some b' \<Longrightarrow> bus_reachable b'"


subsection \<open>The part of one subscriber\<close>

text \<open>The effect of an action on the one subscriber it touches, with the increments of the counter.\<close>

inductive sub_step :: "subscriber \<Rightarrow> subscriber \<Rightarrow> (string \<times> string \<times> string) multiset \<Rightarrow> bool" where
  accept: "length (chan s) < chan_cap s \<Longrightarrow>
    sub_step s (s\<lparr>chan := chan s @ [e], offered := offered s @ [e], accepted := accepted s @ [e]\<rparr>) {#}"
| refuse: "\<not> length (chan s) < chan_cap s \<Longrightarrow>
    sub_step s (s\<lparr>offered := offered s @ [e], refused := refused s @ [e]\<rparr>) {#drop_label (sub_name s) ''backpressure'' e#}"
| unlink: "removal s = Linked \<Longrightarrow> sub_step s (s\<lparr>removal := Unlinked\<rparr>) {#}"
| cancel: "removal s = Unlinked \<Longrightarrow> sub_step s (s\<lparr>removal := Cancelled, ctx_done := True\<rparr>) {#}"
| wait: "removal s = Cancelled \<Longrightarrow> worker s = Exited \<Longrightarrow> sub_step s (s\<lparr>removal := Draining_queue\<rparr>) {#}"
| drain: "removal s = Draining_queue \<Longrightarrow> chan s = e # q \<Longrightarrow>
    sub_step s (s\<lparr>chan := q, discarded := discarded s @ [e]\<rparr>) {#drop_label (sub_name s) ''shutdown'' e#}"
| drained: "removal s = Draining_queue \<Longrightarrow> chan s = [] \<Longrightarrow> sub_step s (s\<lparr>removal := Removed\<rparr>) {#}"
| exit: "worker s = Selecting \<Longrightarrow> ctx_done s \<Longrightarrow> sub_step s (s\<lparr>worker := Exited\<rparr>) {#}"
| receive: "worker s = Selecting \<Longrightarrow> chan s = e # q \<Longrightarrow> sub_step s (s\<lparr>chan := q, worker := Received e\<rparr>) {#}"
| late: "worker s = Received e \<Longrightarrow> ctx_done s \<Longrightarrow>
    sub_step s (s\<lparr>worker := Exited, discarded := discarded s @ [e]\<rparr>) {#drop_label (sub_name s) ''shutdown'' e#}"
| hand: "worker s = Received e \<Longrightarrow> \<not> ctx_done s \<Longrightarrow>
    sub_step s (s\<lparr>worker := Handling e, handed := handed s @ [e]\<rparr>) {#}"
| fail: "worker s = Handling e \<Longrightarrow> \<not> ctx_done s \<Longrightarrow>
    sub_step s (s\<lparr>worker := Selecting, failed := failed s @ [e]\<rparr>) {#drop_label (sub_name s) ''delivery'' e#}"
| abort: "worker s = Handling e \<Longrightarrow> ctx_done s \<Longrightarrow>
    sub_step s (s\<lparr>worker := Selecting, aborted := aborted s @ [e]\<rparr>) {#}"
| deliver: "worker s = Handling e \<Longrightarrow> sub_step s (s\<lparr>worker := Selecting, delivered := delivered s @ [e]\<rparr>) {#}"

definition bus_refs_ok :: "bus \<Rightarrow> bool" where
  "bus_refs_ok b \<longleftrightarrow> (\<forall>i \<in> set (subs b). i < length (heap b)) \<and>
     (\<forall>p \<in> set (publishers b). \<forall>i \<in> set (snd p). i < length (heap b))"

lemma sub_step_at:
  assumes "i < length (heap b)" "sub_step (heap b ! i) s' d" "heap b' = (heap b)[i := s']" "dropped b' = dropped b + d"
  shows "\<exists>i s' d. i < length (heap b) \<and> sub_step (heap b ! i) s' d \<and> heap b' = (heap b)[i := s'] \<and>
    dropped b' = dropped b + d"
  using assms by blast

lemma Publish_send_sub_step:
  assumes ok: "bus_refs_ok b" and run: "Publish_send k b = Some b'"
  shows "heap b' = heap b \<and> dropped b' = dropped b \<or>
    (\<exists>i s' d. i < length (heap b) \<and> sub_step (heap b ! i) s' d \<and> heap b' = (heap b)[i := s'] \<and>
       dropped b' = dropped b + d)"
proof -
  from run obtain e i rest where k: "k < length (publishers b)" "publishers b ! k = (e, i # rest)"
    by (auto simp: Publish_send_def split: if_splits prod.splits list.splits)
  then have i: "i < length (heap b)"
    using ok nth_mem [OF k(1)] by (auto simp: bus_refs_ok_def)
  consider "\<not> wants (heap b ! i) (ev_Name e)"
    | "wants (heap b ! i) (ev_Name e)" "length (chan (heap b ! i)) < chan_cap (heap b ! i)"
    | "wants (heap b ! i) (ev_Name e)" "\<not> length (chan (heap b ! i)) < chan_cap (heap b ! i)" by blast
  then show ?thesis
  proof cases
    case 1
    then show ?thesis using run k by (auto simp: Publish_send_def Let_def)
  next
    case 2
    show ?thesis
      by (rule disjI2, rule sub_step_at [OF i accept [OF 2(2), of e]])
        (use run k 2 in \<open>auto simp: Publish_send_def Let_def put_sub_def\<close>)
  next
    case 3
    show ?thesis
      by (rule disjI2, rule sub_step_at [OF i refuse [OF 3(2), of e]])
        (use run k 3 in \<open>auto simp: Publish_send_def Let_def put_sub_def count_drop_def\<close>)
  qed
qed

lemmas bus_op_defs = remove_unlink_def remove_cancel_def remove_wait_def remove_drain_def
  run_done_def run_receive_def run_check_def run_return_def put_sub_def count_drop_def Let_def

definition local_action :: "bus_action \<Rightarrow> bool" where
  "local_action a \<longleftrightarrow> (case a of DoWithQueueCap _ \<Rightarrow> False | DoPublish _ \<Rightarrow> False | DoSend _ \<Rightarrow> False
     | DoSubscribe _ _ \<Rightarrow> False | _ \<Rightarrow> True)"

lemma local_action_sub_step:
  assumes "bus_act a b = Some b'" "local_action a"
  shows "\<exists>i s' d. i < length (heap b) \<and> sub_step (heap b ! i) s' d \<and> heap b' = (heap b)[i := s'] \<and>
    dropped b' = dropped b + d"
  using assms
  by (cases a) (auto simp: local_action_def bus_op_defs split: if_splits list.splits worker.splits;
    fastforce intro: sub_step.intros)+

text \<open>Every action touches at most one subscriber, by a step of it.\<close>

lemma bus_act_cases:
  assumes "bus_refs_ok b" "bus_act a b = Some b'"
  obtains (unchanged) "heap b' = heap b" "dropped b' = dropped b"
  | (fresh) name w n where "heap b' = heap b @ [new_subscriber name w n]" "dropped b' = dropped b"
  | (step) i s' d where "i < length (heap b)" "sub_step (heap b ! i) s' d" "heap b' = (heap b)[i := s']"
      "dropped b' = dropped b + d"
proof (cases a)
  case (DoWithQueueCap n)
  then show ?thesis using that(1) assms by (auto simp: WithQueueCap_def split: if_splits)
next
  case (DoPublish e)
  then show ?thesis using that(1) assms by (auto simp: Publish_load_def)
next
  case (DoSend k)
  then have "Publish_send k b = Some b'" using assms by simp
  from Publish_send_sub_step [OF assms(1) this] show ?thesis using that(1,3) by blast
next
  case (DoSubscribe name w)
  then show ?thesis using that(2) assms by (auto simp: Subscribe_def)
qed (use that(3) local_action_sub_step [OF assms(2)] in \<open>force simp: local_action_def\<close>)+


lemma put_sub_simps [simp]:
  "subs (put_sub i s b) = subs b" "publishers (put_sub i s b) = publishers b"
  "heap (put_sub i s b) = (heap b)[i := s]"
  by (simp_all add: put_sub_def)

lemma count_drop_simps [simp]:
  "subs (count_drop s r e b) = subs b" "publishers (count_drop s r e b) = publishers b"
  "heap (count_drop s r e b) = heap b"
  by (simp_all add: count_drop_def)

lemma Publish_send_refs:
  assumes ok: "bus_refs_ok b" and run: "Publish_send k b = Some b'"
  shows "bus_refs_ok b'"
proof -
  from run obtain e i rest where k: "k < length (publishers b)" "publishers b ! k = (e, i # rest)"
    and b': "subs b' = subs b" "publishers b' = (publishers b)[k := (e, rest)]" "length (heap b') = length (heap b)"
    by (auto simp: Publish_send_def Let_def split: if_splits prod.splits list.splits)
  have "set (publishers b') \<subseteq> insert (e, rest) (set (publishers b))"
    by (simp add: b' set_update_subset_insert)
  moreover have "(e, i # rest) \<in> set (publishers b)" using k nth_mem by metis
  then have "\<forall>j \<in> set rest. j < length (heap b)" using ok unfolding bus_refs_ok_def by fastforce
  ultimately show ?thesis using ok b'(1,3) unfolding bus_refs_ok_def by fastforce
qed

lemma bus_act_refs:
  assumes ok: "bus_refs_ok b" and run: "bus_act a b = Some b'"
  shows "bus_refs_ok b'"
proof (cases a)
  case (DoSend k)
  then show ?thesis using Publish_send_refs [OF ok] run by simp
next
  case (DoSubscribe name w)
  then have "heap b' = heap b @ [new_subscriber name w (queueCap b)]" "subs b' = subs b @ [length (heap b)]"
    "publishers b' = publishers b"
    using run by (auto simp: Subscribe_def)
  then show ?thesis using ok by (fastforce simp: bus_refs_ok_def)
next
  case (DoPublish e)
  then show ?thesis using ok run by (auto simp: bus_refs_ok_def Publish_load_def)
next
  case (DoWithQueueCap n)
  then show ?thesis using ok run by (auto simp: bus_refs_ok_def WithQueueCap_def split: if_splits)
qed (use ok run in \<open>auto simp: bus_refs_ok_def bus_op_defs split: if_splits list.splits worker.splits\<close>)

lemma reachable_refs: "bus_reachable b \<Longrightarrow> bus_refs_ok b"
  proof (induction rule: bus_reachable.induct)
  case start
  then show ?case by (simp add: bus_refs_ok_def NewBus_def)
qed (rule bus_act_refs)

subsection \<open>Where every event is\<close>

fun in_receive :: "worker \<Rightarrow> bus_event list" where
  "in_receive (Received e) = [e]"
| "in_receive _ = []"

fun in_handler :: "worker \<Rightarrow> bus_event list" where
  "in_handler (Handling e) = [e]"
| "in_handler _ = []"

text \<open>The queue is bounded and first-in first-out; an event that was handed to the handler came back delivered, failed
  or aborted; only a teardown aborts, and at most one event.\<close>

definition sub_ok :: "subscriber \<Rightarrow> bool" where
  "sub_ok s \<longleftrightarrow>
     length (chan s) \<le> chan_cap s \<and>
     accepted s = handed s @ discarded s @ in_receive (worker s) @ chan s \<and>
     (discarded s \<noteq> [] \<longrightarrow> worker s = Exited) \<and>
     mset (handed s) = mset (delivered s) + mset (failed s) + mset (aborted s) + mset (in_handler (worker s)) \<and>
     (aborted s \<noteq> [] \<longrightarrow> ctx_done s \<and> length (aborted s) = 1 \<and> in_handler (worker s) = []) \<and>
     (worker s = Exited \<longrightarrow> ctx_done s) \<and>
     (removal s \<in> {Draining_queue, Removed} \<longrightarrow> worker s = Exited) \<and>
     (ctx_done s \<longleftrightarrow> removal s \<in> {Cancelled, Draining_queue, Removed})"

definition stream_ok :: "subscriber \<Rightarrow> bool" where
  "stream_ok s \<longleftrightarrow> subseq (accepted s) (offered s) \<and> mset (offered s) = mset (accepted s) + mset (refused s)"

lemma sub_step_stream_ok: "sub_step s s' d \<Longrightarrow> stream_ok s \<Longrightarrow> stream_ok s'"
  by (induction rule: sub_step.induct) (auto simp: stream_ok_def list_emb_append_mono subseq_append_later)

lemma sub_step_ok: "sub_step s s' d \<Longrightarrow> sub_ok s \<Longrightarrow> sub_ok s'"
  by (induction rule: sub_step.induct) (simp_all add: sub_ok_def, blast+)

lemma new_subscriber_ok: "sub_ok (new_subscriber name w n) \<and> stream_ok (new_subscriber name w n)"
  by (simp add: new_subscriber_def sub_ok_def stream_ok_def)

text \<open>What the counter says of a subscriber.\<close>

definition drops_of :: "subscriber \<Rightarrow> (string \<times> string \<times> string) multiset" where
  "drops_of s = image_mset (drop_label (sub_name s) ''backpressure'') (mset (refused s)) +
     image_mset (drop_label (sub_name s) ''delivery'') (mset (failed s)) +
     image_mset (drop_label (sub_name s) ''shutdown'') (mset (discarded s))"

lemma sub_step_drops: "sub_step s s' d \<Longrightarrow> drops_of s' = drops_of s + d"
  by (induction rule: sub_step.induct) (simp_all add: drops_of_def)

lemma sum_list_update_add:
  fixes f :: "'a \<Rightarrow> 'b multiset"
  assumes "i < length xs" "f x = f (xs ! i) + d"
  shows "sum_list (map f (xs[i := x])) = sum_list (map f xs) + d"
  using assms
proof (induction xs arbitrary: i)
  case (Cons y ys)
  then show ?case by (cases i) (auto simp: ac_simps)
qed simp

lemma reachable_ok: "bus_reachable b \<Longrightarrow>
  (\<forall>s \<in> set (heap b). sub_ok s \<and> stream_ok s) \<and> dropped b = sum_list (map drops_of (heap b))"
proof (induction rule: bus_reachable.induct)
  case start
  then show ?case by (simp add: NewBus_def)
next
  case (act b a b')
  from reachable_refs [OF act(1)] act(2) show ?case
  proof (cases rule: bus_act_cases)
    case unchanged
    then show ?thesis using act by simp
  next
    case (fresh name w n)
    then show ?thesis using act by (auto simp: new_subscriber_ok) (simp add: drops_of_def new_subscriber_def)
  next
    case (step i s' d)
    have "set (heap b') \<subseteq> insert s' (set (heap b))" by (simp add: step(3) set_update_subset_insert)
    moreover have "sub_ok s' \<and> stream_ok s'"
      using sub_step_ok [OF step(2)] sub_step_stream_ok [OF step(2)] act(3) step(1) by simp
    ultimately show ?thesis
      using act(3) step sum_list_update_add [OF step(1) sub_step_drops [OF step(2)]] by auto
  qed
qed


lemma bus_acts_reachable: "bus_acts as b = Some b' \<Longrightarrow> bus_reachable b \<Longrightarrow> bus_reachable b'"
  by (induction as arbitrary: b) (auto split: option.splits intro: bus_reachable.act)

subsection \<open>What the bus promises\<close>

definition sample_bus_event :: "string \<Rightarrow> bus_event" where
  "sample_bus_event x = \<lparr>ev_Name = ''challenge.solved'', ev_ID = x, ev_OccurredAt = 0, ev_Data = []\<rparr>"

text \<open>A queue of one event; the second of three events finds it full.\<close>

definition holey_run :: "bus_action list" where
  "holey_run =
     [DoWithQueueCap 1, DoSubscribe ''webhook'' (\<lambda>_. True),
      DoPublish (sample_bus_event ''1''), DoSend 0, DoPublish (sample_bus_event ''2''), DoSend 1,
      RunReceive 0, RunCheck 0, RunReturn 0 False,
      DoPublish (sample_bus_event ''3''), DoSend 2, RunReceive 0, RunCheck 0, RunReturn 0 False]"

text \<open>The subscriber is removed while its handler runs, and the handler gives up because its context is cancelled.\<close>

definition teardown_run :: "bus_action list" where
  "teardown_run =
     [DoWithQueueCap 1, DoSubscribe ''webhook'' (\<lambda>_. True), DoPublish (sample_bus_event ''1''), DoSend 0,
      RunReceive 0, RunCheck 0, DoUnlink 0, DoCancel 0, RunReturn 0 True, RunDone 0, DoWait 0, DoDrain 0]"

text \<open>C36. Every event that a publisher brings to a subscriber is accounted for, in every state of any interleaving
  of publishers, subscribers and teardowns. The handler sees events in the order in which they were offered; the queue
  never exceeds its capacity; an offered event is delivered, or counted as dropped (refused on a full queue, failed in
  the handler, discarded at teardown), or still queued or in flight, or it is the one event whose handler failed while
  the subscriber was being torn down; and the drop counter is exactly the sum of the counted ones.\<close>

theorem bus_accounting:
  assumes "bus_reachable b" "i < length (heap b)" "s = heap b ! i"
  shows "subseq (handed s) (offered s) \<and> length (chan s) \<le> chan_cap s \<and>
    mset (offered s) = mset (delivered s) + mset (refused s) + mset (failed s) + mset (discarded s) + mset (aborted s) +
      mset (in_receive (worker s)) + mset (in_handler (worker s)) + mset (chan s) \<and>
    dropped b = sum_list (map drops_of (heap b)) \<and>
    length (aborted s) \<le> 1 \<and> (aborted s \<noteq> [] \<longrightarrow> ctx_done s)"
proof -
  have ok: "sub_ok s" "stream_ok s" "dropped b = sum_list (map drops_of (heap b))"
    using reachable_ok [OF assms(1)] assms(2,3) by auto
  have acc: "accepted s = handed s @ discarded s @ in_receive (worker s) @ chan s" using ok(1) by (simp add: sub_ok_def)
  have "subseq (handed s) (accepted s)" by (simp add: acc subseq_append_later)
  then have "subseq (handed s) (offered s)"
    using ok(2) subseq_order.order_trans by (auto simp: stream_ok_def)
  moreover have "mset (offered s) = mset (delivered s) + mset (refused s) + mset (failed s) + mset (discarded s) +
      mset (aborted s) + mset (in_receive (worker s)) + mset (in_handler (worker s)) + mset (chan s)"
    using ok(1,2) acc by (simp add: sub_ok_def stream_ok_def ac_simps)
  ultimately show ?thesis using ok(1,3) by (auto simp: sub_ok_def)
qed

lemma holey_bus: "\<exists>b. bus_acts holey_run NewBus = Some b \<and> length (heap b) = 1 \<and>
    length (offered (heap b ! 0)) = 3"
  by (rule ex_Some_case) code_simp

theorem bus_accounting_witness:
  "\<exists>b. bus_acts holey_run NewBus = Some b \<and> subseq (handed (heap b ! 0)) (offered (heap b ! 0)) \<and>
     dropped b = sum_list (map drops_of (heap b)) \<and> length (offered (heap b ! 0)) = 3"
proof -
  obtain b where b: "bus_acts holey_run NewBus = Some b" "length (heap b) = 1" "length (offered (heap b ! 0)) = 3"
    using holey_bus by blast
  show ?thesis
    using bus_accounting [OF bus_acts_reachable [OF b(1) bus_reachable.start] _ refl, of 0] b by auto
qed

text \<open>\<^verbatim>\<open>Publish\<close> never blocks: from any state of the bus, with any queue full and any subscriber in the middle of
  its teardown, a publisher reaches the end of its loop by its own steps alone, one per subscriber of the slice it
  loaded.\<close>

theorem publish_never_blocks:
  assumes "k < length (publishers b)" "publishers b ! k = (e, rest)"
  shows "\<exists>b'. bus_acts (replicate (length rest) (DoSend k)) b = Some b' \<and> publishers b' ! k = (e, [])"
  using assms
proof (induction rest arbitrary: b)
  case (Cons i rest)
  have "\<exists>b1. Publish_send k b = Some b1 \<and> publishers b1 = (publishers b)[k := (e, rest)]"
    using Cons.prems by (simp add: Publish_send_def Let_def)
  then obtain b1 where b1: "Publish_send k b = Some b1" "publishers b1 = (publishers b)[k := (e, rest)]"
    by blast
  have "\<exists>b'. bus_acts (replicate (length rest) (DoSend k)) b1 = Some b' \<and> publishers b' ! k = (e, [])"
    using b1 Cons.prems by (intro Cons.IH) auto
  then show ?case using b1 by simp
qed simp

text \<open>Dropping the newest event does leave holes: with the queue full for one event and free again for the next,
  the subscriber is delivered the first and the third of three events.\<close>

theorem delivery_has_holes:
  "\<exists>b. bus_acts holey_run NewBus = Some b \<and> map ev_ID (delivered (heap b ! 0)) = [''1'', ''3''] \<and>
     map ev_ID (offered (heap b ! 0)) = [''1'', ''2'', ''3'']"
  by (rule ex_Some_case) code_simp

text \<open>An event can vanish: the handler that is interrupted by the removal of its subscriber leaves its event neither
  delivered nor queued nor counted.\<close>

theorem teardown_event_uncounted:
  "\<exists>b. bus_acts teardown_run NewBus = Some b \<and> removal (heap b ! 0) = Removed \<and> size (dropped b) = 0 \<and>
     map ev_ID (accepted (heap b ! 0)) = [''1''] \<and> map ev_ID (delivered (heap b ! 0)) = [] \<and> map ev_ID (chan (heap b ! 0)) = []"
  by (rule ex_Some_case) code_simp

end
