(* ===== verification/Ws_Limits.thy ===== *)
theory Ws_Limits
  imports Prelude
begin

text \<open>
  Admission control of the WebSocket endpoint (\<^verbatim>\<open>internal/ws/limits.go\<close>): connection caps, the handshake rate
  limit and the exemption owed after a disconnect that the server chose. Every method runs under \<^verbatim>\<open>a.mu\<close>, so each is
  one step. The Go maps are option-valued functions; reading an absent key gives the zero value (\<open>count_at\<close>, \<open>hits_of\<close>).
  The key comes from the resolver (user id or client address), which the caller passes in.
\<close>

record Limits =
  MaxConns :: int
  MaxConnsPerKey :: int
  HandshakeBurst :: int
  HandshakeWindow :: duration

definition DefaultLimits :: Limits where
  "DefaultLimits = \<lparr>MaxConns = 20000, MaxConnsPerKey = 256, HandshakeBurst = 600, HandshakeWindow = 60 * second\<rparr>"

record admissions =
  limits :: Limits
  total :: int
  perKey :: "string \<Rightarrow> int option"
  hsHits :: "string \<Rightarrow> time list option"
  forgive :: "string \<Rightarrow> int option"

definition newAdmissions :: "Limits \<Rightarrow> admissions" where
  "newAdmissions l = \<lparr>limits = l, total = 0, perKey = Map.empty, hsHits = Map.empty, forgive = Map.empty\<rparr>"

definition count_at :: "(string \<Rightarrow> int option) \<Rightarrow> string \<Rightarrow> int" where
  "count_at m k = (case m k of None \<Rightarrow> 0 | Some n \<Rightarrow> n)"

definition hits_of :: "admissions \<Rightarrow> string \<Rightarrow> time list" where
  "hits_of a k = (case hsHits a k of None \<Rightarrow> [] | Some ts \<Rightarrow> ts)"

text \<open>\<^verbatim>\<open>m[k]--; if m[k] == 0 { delete(m, k) }\<close>.\<close>

definition decr :: "(string \<Rightarrow> int option) \<Rightarrow> string \<Rightarrow> (string \<Rightarrow> int option)" where
  "decr m k = (if count_at m k - 1 = 0 then m(k := None) else m(k \<mapsto> count_at m k - 1))"

definition forgiveHandshake :: "string \<Rightarrow> admissions \<Rightarrow> admissions" where
  "forgiveHandshake key a =
     (if count_at (forgive a) key < 4 then a\<lparr>forgive := (forgive a)(key \<mapsto> count_at (forgive a) key + 1)\<rparr> else a)"

text \<open>The two parts of \<^verbatim>\<open>admit\<close>: the handshake rate (\<open>Inl\<close> when it denies) and the caps.\<close>

definition admit_handshake :: "time \<Rightarrow> string \<Rightarrow> admissions \<Rightarrow> admissions + admissions" where
  "admit_handshake now key a =
     (let forgiven = count_at (forgive a) key > 0;
          a1 = (if forgiven then a\<lparr>forgive := decr (forgive a) key\<rparr> else a)
      in if \<not> forgiven \<and> HandshakeBurst (limits a) > 0
         then let hits = filter (\<lambda>t. now - t < HandshakeWindow (limits a)) (hits_of a1 key)
              in if int (length hits) \<ge> HandshakeBurst (limits a)
                 then Inl (a1\<lparr>hsHits := (hsHits a1)(key \<mapsto> hits)\<rparr>)
                 else Inr (a1\<lparr>hsHits := (hsHits a1)(key \<mapsto> hits @ [now])\<rparr>)
         else Inr a1)"

definition admit :: "time \<Rightarrow> string \<Rightarrow> admissions \<Rightarrow> admissions \<times> string \<times> bool" where
  "admit now key a =
     (case admit_handshake now key a of
        Inl a1 \<Rightarrow> (a1, ''handshake_rate'', False)
      | Inr a1 \<Rightarrow>
          if MaxConns (limits a1) > 0 \<and> total a1 \<ge> MaxConns (limits a1) then (a1, ''global'', False)
          else if MaxConnsPerKey (limits a1) > 0 \<and> count_at (perKey a1) key \<ge> MaxConnsPerKey (limits a1)
          then (a1, ''per_key'', False)
          else (a1\<lparr>total := total a1 + 1, perKey := (perKey a1)(key \<mapsto> count_at (perKey a1) key + 1)\<rparr>, '''', True))"

definition ws_release :: "string \<Rightarrow> admissions \<Rightarrow> admissions" where
  "ws_release key a =
     (let a1 = (if total a > 0 then a\<lparr>total := total a - 1\<rparr> else a)
      in if count_at (perKey a1) key > 0 then a1\<lparr>perKey := decr (perKey a1) key\<rparr> else a1)"

definition retryAfterSeconds :: "admissions \<Rightarrow> string \<Rightarrow> int" where
  "retryAfterSeconds a limit =
     (if limit = ''handshake_rate'' \<and> HandshakeWindow (limits a) > 0 then HandshakeWindow (limits a) div second else 5)"

subsection \<open>The counters\<close>

lemma count_at_simps [simp]:
  "count_at (m(k \<mapsto> n)) j = (if j = k then n else count_at m j)"
  "count_at (m(k := None)) j = (if j = k then 0 else count_at m j)"
  "count_at Map.empty j = 0"
  by (auto simp: count_at_def)

lemma count_at_decr [simp]: "count_at (decr m k) j = (if j = k then count_at m k - 1 else count_at m j)"
  by (auto simp: decr_def)

lemma admit_handshake_frame:
  "admit_handshake now key a \<in> {Inl a1, Inr a1} \<Longrightarrow> limits a1 = limits a \<and> total a1 = total a \<and> perKey a1 = perKey a"
  by (auto simp: admit_handshake_def Let_def split: if_splits)

text \<open>What a run of \<^verbatim>\<open>admit\<close> does to the counters: a refusal reserves nothing, an admission reserves one slot below
  both caps.\<close>

lemma admit_refused:
  assumes "admit now key a = (a', why, False)"
  shows "limits a' = limits a \<and> total a' = total a \<and> perKey a' = perKey a"
  using assms admit_handshake_frame [of now key a] by (auto simp: admit_def split: sum.splits if_splits)

lemma admit_granted:
  assumes "admit now key a = (a', why, True)"
  shows "limits a' = limits a" "total a' = total a + 1" "perKey a' = (perKey a)(key \<mapsto> count_at (perKey a) key + 1)"
    "MaxConns (limits a) > 0 \<Longrightarrow> total a < MaxConns (limits a)"
    "MaxConnsPerKey (limits a) > 0 \<Longrightarrow> count_at (perKey a) key < MaxConnsPerKey (limits a)"
  using assms admit_handshake_frame [of now key a] by (auto simp: admit_def split: sum.splits if_splits)

text \<open>A reconnect that is owed an exemption is refused by a cap only.\<close>

lemma forgiven_not_rate_limited:
  "count_at (forgive a) key > 0 \<Longrightarrow> fst (snd (admit now key a)) \<noteq> ''handshake_rate''"
  by (auto simp: admit_def admit_handshake_def)

lemma ws_release_counters:
  "total a > 0 \<Longrightarrow> count_at (perKey a) key > 0 \<Longrightarrow>
   limits (ws_release key a) = limits a \<and> total (ws_release key a) = total a - 1 \<and>
   perKey (ws_release key a) = decr (perKey a) key"
  by (simp add: ws_release_def)

lemma forgiveHandshake_frame [simp]:
  "limits (forgiveHandshake key a) = limits a" "total (forgiveHandshake key a) = total a"
  "perKey (forgiveHandshake key a) = perKey a"
  by (simp_all add: forgiveHandshake_def)

end
