(* ===== verification/Ws_Hub.thy ===== *)
theory Ws_Hub
  imports Ws_Limits
begin

text \<open>
  The WebSocket hub (\<^verbatim>\<open>internal/ws/hub.go\<close>, \<^verbatim>\<open>handler.go\<close>, \<^verbatim>\<open>frames.go\<close>): the ordered queue of a client, the hub's
  event loop with its throttle, the two broadcast entry points, and the life of a connection from the handshake to the
  deferred release of its slot.

  A frame is kept as the \<^verbatim>\<open>message\<close> that is marshalled, not as its bytes; the board is a value of any type.
  \<open>conns\<close> holds one entry per admitted handshake: the \<^verbatim>\<open>client\<close> struct, whether the client is a key of
  \<^verbatim>\<open>h.clients\<close> (\<open>registered\<close>), and how far its handler has come (\<open>stage\<close>). The local variables of \<^verbatim>\<open>Run\<close> are fields of
  \<open>hub\<close>; a \<^verbatim>\<open>nil\<close> pending board is \<open>None\<close>, and \<open>timer\<close> is the time for which the timer is armed. Every action is one
  iteration of a select loop or one critical section; any number of goroutines may interleave them.

  \<open>synced\<close>, \<open>since\<close>, \<open>drained\<close> and \<open>written\<close> are history variables: the frames enqueued up to the last drain and after
  it, the frames that the write pump took without an overflow, and those it wrote to the connection.
\<close>

datatype 'b payload = HelloData bool | BoardData 'b | PhaseData string

record 'b message =
  msg_Type :: string
  msg_Data :: "'b payload"

definition FrameHello :: string where "FrameHello = ''hello''"
definition FrameScoreboard :: string where "FrameScoreboard = ''scoreboard''"
definition FrameEventPhase :: string where "FrameEventPhase = ''event.phase''"

definition encode :: "string \<Rightarrow> 'b payload \<Rightarrow> 'b message" where
  "encode typ data = \<lparr>msg_Type = typ, msg_Data = data\<rparr>"

definition broadcastMinGap :: duration where
  "broadcastMinGap = second"

definition clientQueueCap :: nat where
  "clientQueueCap = 64"

datatype stage = Upgrading | Registering | Pumping | Unregistering | Returned

record 'b client =
  cl_key :: string
  queue :: "'b message list"
  tailSnap :: bool
  overflow :: bool
  wake :: bool
  registered :: bool
  stage :: stage
  synced :: "'b message list"
  since :: "'b message list"
  drained :: "'b message list"
  written :: "'b message list"

definition newClient :: "string \<Rightarrow> 'b client" where
  "newClient key =
     \<lparr>cl_key = key, queue = [], tailSnap = False, overflow = False, wake = False, registered = False,
      stage = Upgrading, synced = [], since = [], drained = [], written = []\<rparr>"

subsection \<open>The client's queue\<close>

text \<open>\<^verbatim>\<open>wake\<close> has a one-place buffer; a signal on a full buffer is dropped.\<close>

definition signal :: "'b client \<Rightarrow> 'b client" where
  "signal c = c\<lparr>wake := True\<rparr>"

definition enqueue :: "'b message \<Rightarrow> bool \<Rightarrow> 'b client \<Rightarrow> 'b client" where
  "enqueue msg isSnapshot c =
     signal ((if isSnapshot \<and> tailSnap c \<and> length (queue c) > 0
              then c\<lparr>queue := (queue c)[length (queue c) - 1 := msg]\<rparr>
              else if length (queue c) \<ge> clientQueueCap then c\<lparr>overflow := True\<rparr>
              else c\<lparr>queue := queue c @ [msg], tailSnap := isSnapshot\<rparr>)
             \<lparr>since := since c @ [msg]\<rparr>)"

definition drain :: "'b client \<Rightarrow> 'b client \<times> 'b message list \<times> bool" where
  "drain c = (c\<lparr>queue := [], tailSnap := False\<rparr>, queue c, overflow c)"

subsection \<open>The hub\<close>

record 'b outbound =
  ob_data :: "'b message"
  isScoreboard :: bool
  ob_frozen :: bool

record 'b hub =
  conns :: "'b client list"
  incoming :: "'b outbound list"
  hub_done :: bool
  lastScoreboard :: "'b message option"
  lastFrozen :: bool
  lastSend :: time
  pending :: "'b message option"
  timer :: "time option"
  ws_admit :: admissions
  broadcastsDropped :: "string list"

definition NewHub :: "Limits \<Rightarrow> 'b hub" where
  "NewHub l =
     \<lparr>conns = [], incoming = [], hub_done = False, lastScoreboard = None, lastFrozen = False,
      lastSend = zero_time, pending = None, timer = None, ws_admit = newAdmissions l, broadcastsDropped = []\<rparr>"

definition fanout :: "'b message \<Rightarrow> bool \<Rightarrow> 'b hub \<Rightarrow> 'b hub" where
  "fanout msg isSnapshot h =
     h\<lparr>conns := map (\<lambda>c. if registered c then enqueue msg isSnapshot c else c) (conns h)\<rparr>"

definition flush :: "time \<Rightarrow> 'b hub \<Rightarrow> 'b hub" where
  "flush now h =
     (case pending h of
        None \<Rightarrow> h
      | Some m \<Rightarrow> (fanout m True h)\<lparr>pending := None, lastSend := now\<rparr>)"

text \<open>The cases of the select in \<^verbatim>\<open>Run\<close>.\<close>

definition run_register :: "nat \<Rightarrow> 'b hub \<Rightarrow> 'b hub" where
  "run_register i h =
     (let c1 = enqueue (encode FrameHello (HelloData (lastFrozen h))) False ((conns h ! i)\<lparr>registered := True\<rparr>);
          c2 = (case lastScoreboard h of None \<Rightarrow> c1 | Some m \<Rightarrow> enqueue m True c1)
      in h\<lparr>conns := (conns h)[i := c2]\<rparr>)"

definition run_unregister :: "nat \<Rightarrow> 'b hub \<Rightarrow> 'b hub" where
  "run_unregister i h = h\<lparr>conns := (conns h)[i := (conns h ! i)\<lparr>registered := False\<rparr>]\<rparr>"

definition run_incoming :: "time \<Rightarrow> 'b hub \<Rightarrow> 'b hub option" where
  "run_incoming now h =
     (case incoming h of
        [] \<Rightarrow> None
      | msg # rest \<Rightarrow>
          let h1 = h\<lparr>incoming := rest\<rparr>
          in if isScoreboard msg
             then let h2 = h1\<lparr>lastScoreboard := Some (ob_data msg), lastFrozen := ob_frozen msg, pending := Some (ob_data msg)\<rparr>;
                      since_last = now - lastSend h2
                  in if since_last \<ge> broadcastMinGap then Some (flush now h2)
                     else Some (h2\<lparr>timer := Some (now + (broadcastMinGap - since_last))\<rparr>)
             else Some (fanout (ob_data msg) False (flush now h1)))"

definition run_timer :: "time \<Rightarrow> 'b hub \<Rightarrow> 'b hub option" where
  "run_timer now h =
     (case timer h of
        None \<Rightarrow> None
      | Some t \<Rightarrow> if t \<le> now then Some (flush now (h\<lparr>timer := None\<rparr>)) else None)"

definition incomingCap :: nat where
  "incomingCap = 16"

definition BroadcastScoreboard :: "'b \<Rightarrow> bool \<Rightarrow> 'b hub \<Rightarrow> 'b hub" where
  "BroadcastScoreboard snap frozen h =
     (if length (incoming h) < incomingCap
      then h\<lparr>incoming := incoming h @
              [\<lparr>ob_data = encode FrameScoreboard (BoardData snap), isScoreboard = True, ob_frozen = frozen\<rparr>]\<rparr>
      else h\<lparr>broadcastsDropped := broadcastsDropped h @ [''scoreboard'']\<rparr>)"

definition BroadcastPhase :: "string \<Rightarrow> 'b hub \<Rightarrow> 'b hub" where
  "BroadcastPhase ph h =
     (if length (incoming h) < incomingCap
      then h\<lparr>incoming := incoming h @
              [\<lparr>ob_data = encode FrameEventPhase (PhaseData ph), isScoreboard = False, ob_frozen = False\<rparr>]\<rparr>
      else h\<lparr>broadcastsDropped := broadcastsDropped h @ [''phase'']\<rparr>)"

subsection \<open>A connection\<close>

definition at_conn :: "nat \<Rightarrow> stage \<Rightarrow> 'b hub \<Rightarrow> bool" where
  "at_conn i st h \<longleftrightarrow> i < length (conns h) \<and> stage (conns h ! i) = st"

definition put_conn :: "nat \<Rightarrow> 'b client \<Rightarrow> 'b hub \<Rightarrow> 'b hub" where
  "put_conn i c h = h\<lparr>conns := (conns h)[i := c]\<rparr>"

text \<open>The handler returns, by any path: the deferred \<^verbatim>\<open>release\<close> frees the slot, once.\<close>

definition handler_return :: "nat \<Rightarrow> 'b hub \<Rightarrow> 'b hub" where
  "handler_return i h =
     (put_conn i ((conns h ! i)\<lparr>stage := Returned\<rparr>) h)\<lparr>ws_admit := ws_release (cl_key (conns h ! i)) (ws_admit h)\<rparr>"

definition handler_request :: "time \<Rightarrow> string \<Rightarrow> 'b hub \<Rightarrow> 'b hub" where
  "handler_request now key h =
     (case admit now key (ws_admit h) of
        (a, why, ok) \<Rightarrow> if ok then h\<lparr>ws_admit := a, conns := conns h @ [newClient key]\<rparr> else h\<lparr>ws_admit := a\<rparr>)"

definition handler_accept :: "nat \<Rightarrow> bool \<Rightarrow> 'b hub \<Rightarrow> 'b hub option" where
  "handler_accept i ok h =
     (if at_conn i Upgrading h
      then Some (if ok then put_conn i ((conns h ! i)\<lparr>stage := Registering\<rparr>) h else handler_return i h)
      else None)"

definition handler_register :: "nat \<Rightarrow> 'b hub \<Rightarrow> 'b hub option" where
  "handler_register i h =
     (if at_conn i Registering h
      then if hub_done h then Some (handler_return i h)
           else let h1 = run_register i h in Some (put_conn i ((conns h1 ! i)\<lparr>stage := Pumping\<rparr>) h1)
      else None)"

text \<open>One wake-up of \<^verbatim>\<open>writePump\<close>: \<open>n\<close> of the drained frames are written before a write fails.\<close>

definition writePump_wake :: "nat \<Rightarrow> nat \<Rightarrow> 'b hub \<Rightarrow> 'b hub option" where
  "writePump_wake i n h =
     (if at_conn i Pumping h \<and> wake (conns h ! i)
      then case drain ((conns h ! i)\<lparr>wake := False\<rparr>) of
             (c, frames, ovf) \<Rightarrow>
               if ovf
               then Some ((put_conn i (c\<lparr>stage := Unregistering\<rparr>) h)
                            \<lparr>ws_admit := forgiveHandshake (cl_key c) (ws_admit h)\<rparr>)
               else Some (put_conn i
                      (c\<lparr>synced := synced c @ since c, since := [], drained := drained c @ frames,
                         written := written c @ take n frames,
                         stage := (if n < length frames then Unregistering else Pumping)\<rparr>) h)
      else None)"

text \<open>The pump ends: the request context is done (which the read pump brings about) or a ping failed.\<close>

definition writePump_end :: "nat \<Rightarrow> 'b hub \<Rightarrow> 'b hub option" where
  "writePump_end i h =
     (if at_conn i Pumping h then Some (put_conn i ((conns h ! i)\<lparr>stage := Unregistering\<rparr>) h) else None)"

definition handler_unregister :: "nat \<Rightarrow> 'b hub \<Rightarrow> 'b hub option" where
  "handler_unregister i h =
     (if at_conn i Unregistering h
      then Some (handler_return i (if hub_done h then h else run_unregister i h))
      else None)"

text \<open>A panic unwinds the handler from any stage.\<close>

definition handler_panic :: "nat \<Rightarrow> 'b hub \<Rightarrow> 'b hub option" where
  "handler_panic i h =
     (if i < length (conns h) \<and> stage (conns h ! i) \<noteq> Returned then Some (handler_return i h) else None)"

datatype 'b ws_action =
    Request time string
  | Accept nat bool
  | Register nat
  | Wake nat nat
  | PumpEnd nat
  | Unregister nat
  | Panic nat
  | SendBoard 'b bool
  | SendPhase string
  | Incoming time
  | Timer time
  | Shutdown

fun ws_act :: "'b ws_action \<Rightarrow> 'b hub \<Rightarrow> 'b hub option" where
  "ws_act (Request now key) h = Some (handler_request now key h)"
| "ws_act (Accept i ok) h = handler_accept i ok h"
| "ws_act (Register i) h = handler_register i h"
| "ws_act (Wake i n) h = writePump_wake i n h"
| "ws_act (PumpEnd i) h = writePump_end i h"
| "ws_act (Unregister i) h = handler_unregister i h"
| "ws_act (Panic i) h = handler_panic i h"
| "ws_act (SendBoard b f) h = Some (BroadcastScoreboard b f h)"
| "ws_act (SendPhase p) h = Some (BroadcastPhase p h)"
| "ws_act (Incoming now) h = (if hub_done h then None else run_incoming now h)"
| "ws_act (Timer now) h = (if hub_done h then None else run_timer now h)"
| "ws_act Shutdown h = (if hub_done h then None else Some (h\<lparr>hub_done := True\<rparr>))"

fun ws_acts :: "'b ws_action list \<Rightarrow> 'b hub \<Rightarrow> 'b hub option" where
  "ws_acts [] h = Some h"
| "ws_acts (a # as) h = (case ws_act a h of None \<Rightarrow> None | Some h' \<Rightarrow> ws_acts as h')"

inductive ws_reachable :: "Limits \<Rightarrow> 'b hub \<Rightarrow> bool" for l where
  start: "ws_reachable l (NewHub l)"
| act: "ws_reachable l h \<Longrightarrow> ws_act a h = Some h' \<Longrightarrow> ws_reachable l h'"


subsection \<open>Coalescing\<close>

definition is_board :: "'b message \<Rightarrow> bool" where
  "is_board m \<longleftrightarrow> msg_Type m = FrameScoreboard"

text \<open>The reference that a delivered stream is compared with: of boards that follow each other directly only the last
  one counts, everything else stays where it is.\<close>

fun settle :: "'b message list \<Rightarrow> 'b message list" where
  "settle [] = []"
| "settle [x] = [x]"
| "settle (x # y # zs) = (if is_board x \<and> is_board y then settle (y # zs) else x # settle (y # zs))"

definition faithful :: "'b message list \<Rightarrow> 'b message list \<Rightarrow> bool" where
  "faithful ins outs \<longleftrightarrow> subseq outs ins \<and> settle outs = settle ins"

definition last_board :: "'b message list \<Rightarrow> 'b message option" where
  "last_board xs = List.find is_board (rev xs)"

lemma settle_Cons: "settle (x # xs) =
  (case settle xs of [] \<Rightarrow> [x] | y # ys \<Rightarrow> if is_board x \<and> is_board y then y # ys else x # y # ys)"
proof (induction xs arbitrary: x)
  case (Cons y ys)
  show ?case
  proof (cases "settle ys")
    case Nil
    then show ?thesis using Cons.IH [of y] by simp
  next
    case (Cons z zs)
    then show ?thesis using Cons.IH [of y] by (auto split: list.splits)
  qed
qed simp

lemma settle_append_left: "settle xs = settle us \<Longrightarrow> settle (ys @ xs) = settle (ys @ us)"
  by (induction ys) (simp_all add: settle_Cons)

lemma settle_snoc_board: "is_board m \<Longrightarrow> is_board b \<Longrightarrow> settle (xs @ [b, m]) = settle (xs @ [m])"
  by (intro settle_append_left) simp


lemma settle_eq_Nil_iff [simp]: "settle xs = [] \<longleftrightarrow> xs = []"
  by (cases xs) (auto simp: settle_Cons split: list.splits)

lemma settle_settle_append: "settle (settle xs @ ys) = settle (xs @ ys)"
proof (induction xs)
  case (Cons x xs)
  have "settle (x # xs @ ys) = settle (x # settle xs @ ys)"
    using settle_append_left [of "xs @ ys" "settle xs @ ys" "[x]"] Cons.IH by simp
  then show ?case by (cases "settle xs") (auto simp: settle_Cons [of x xs])
qed simp

lemma settle_append_right: "settle xs = settle us \<Longrightarrow> settle (xs @ ys) = settle (us @ ys)"
  by (metis settle_settle_append)

lemma faithful_append: "faithful xs us \<Longrightarrow> faithful ys vs \<Longrightarrow> faithful (xs @ ys) (us @ vs)"
  unfolding faithful_def by (metis list_emb_append_mono settle_append_left settle_append_right)

lemma faithful_Nil [simp]: "faithful [] []"
  by (simp add: faithful_def)

lemma faithful_snoc: "faithful xs us \<Longrightarrow> faithful (xs @ [m]) (us @ [m])"
  by (rule faithful_append) (simp_all add: faithful_def)

lemma faithful_coalesce:
  assumes "faithful xs (us @ [b])" "is_board b" "is_board m"
  shows "faithful (xs @ [m]) (us @ [m])"
proof -
  have "subseq us (us @ [b])" by (simp add: subseq_append_later)
  then have "subseq us xs" using assms(1) subseq_order.order_trans by (auto simp: faithful_def)
  then have "subseq (us @ [m]) (xs @ [m])" by (simp add: list_emb_append_mono)
  moreover have "settle (xs @ [m]) = settle (us @ [b, m])"
    using assms(1) settle_append_right [of xs "us @ [b]" "[m]"] by (simp add: faithful_def)
  ultimately show ?thesis using settle_snoc_board [OF assms(3,2), of us] by (simp add: faithful_def)
qed

lemma last_board_simps [simp]:
  "last_board [] = None" "last_board (xs @ [m]) = (if is_board m then Some m else last_board xs)"
  by (simp_all add: last_board_def)

lemma last_board_snoc2: "last_board (xs @ ys @ [m]) = (if is_board m then Some m else last_board (xs @ ys))"
  by (metis append_assoc last_board_simps(2))

lemma last_board_append: "last_board (xs @ ys) = (case last_board ys of None \<Rightarrow> last_board xs | Some m \<Rightarrow> Some m)"
  by (induction ys rule: rev_induct) (simp_all add: last_board_snoc2)

lemma last_board_settle: "last_board (settle xs) = last_board xs"
proof (induction xs rule: settle.induct)
  case (3 x y zs)
  have "last_board (x # w) = last_board w" if "is_board y" "w = y # zs" for w
    using that last_board_append [of "[x]" w] by (cases "last_board w") (auto simp: last_board_def find_None_iff)
  then show ?case
    using 3 last_board_append [of "[x]" "settle (y # zs)"] last_board_append [of "[x]" "y # zs"] by auto
qed simp_all

lemma faithful_last_board: "faithful ins outs \<Longrightarrow> last_board outs = last_board ins"
  unfolding faithful_def by (metis last_board_settle)

subsection \<open>The invariant of a client\<close>

definition queue_ok :: "'b client \<Rightarrow> bool" where
  "queue_ok c \<longleftrightarrow> length (queue c) \<le> clientQueueCap \<and> (tailSnap c \<and> queue c \<noteq> [] \<longrightarrow> is_board (last (queue c)))"

definition delivery_ok :: "'b client \<Rightarrow> bool" where
  "delivery_ok c \<longleftrightarrow> faithful (synced c) (drained c) \<and> (\<not> overflow c \<longrightarrow> faithful (since c) (queue c)) \<and>
     prefix (written c) (drained c) \<and>
     (stage c \<in> {Upgrading, Registering, Pumping} \<longrightarrow> written c = drained c)"

definition greeted :: "'b client \<Rightarrow> bool" where
  "greeted c \<longleftrightarrow> (registered c \<longrightarrow> synced c @ since c \<noteq> []) \<and>
     (synced c @ since c \<noteq> [] \<longrightarrow> msg_Type (hd (synced c @ since c)) = FrameHello) \<and>
     (stage c \<in> {Upgrading, Registering} \<longrightarrow> \<not> registered c \<and> synced c @ since c = [])"

lemma enqueue_simps [simp]:
  "cl_key (enqueue m s c) = cl_key c" "registered (enqueue m s c) = registered c" "stage (enqueue m s c) = stage c"
  "synced (enqueue m s c) = synced c" "since (enqueue m s c) = since c @ [m]"
  "drained (enqueue m s c) = drained c" "written (enqueue m s c) = written c"
  by (simp_all add: enqueue_def signal_def)

lemma enqueue_queue_ok: "queue_ok c \<Longrightarrow> s = is_board m \<Longrightarrow> queue_ok (enqueue m s c)"
  by (auto simp: queue_ok_def enqueue_def signal_def last_list_update)

lemma enqueue_delivery_ok:
  assumes "queue_ok c" "delivery_ok c" "s = is_board m"
  shows "delivery_ok (enqueue m s c)"
proof (cases "s \<and> tailSnap c \<and> queue c \<noteq> []")
  case True
  then have b: "is_board (last (queue c))" "is_board m" using assms by (auto simp: queue_ok_def)
  have "faithful (since c @ [m]) (butlast (queue c) @ [m])" if "\<not> overflow c"
    using faithful_coalesce [OF _ b, of "since c" "butlast (queue c)"] True that assms(2) by (simp add: delivery_ok_def)
  then show ?thesis using True assms(2) by (simp add: delivery_ok_def enqueue_def signal_def list_update_last)
next
  case False
  then show ?thesis using assms(2) by (auto simp: delivery_ok_def enqueue_def signal_def faithful_snoc)
qed

lemma enqueue_greeted:
  "greeted c \<Longrightarrow> registered c \<Longrightarrow> greeted (enqueue m s c)"
  by (auto simp: greeted_def hd_append)

definition client_ok :: "'b client \<Rightarrow> bool" where
  "client_ok c \<longleftrightarrow> queue_ok c \<and> delivery_ok c \<and> greeted c"

lemma enqueue_client_ok:
  "client_ok c \<Longrightarrow> registered c \<Longrightarrow> s = is_board m \<Longrightarrow> client_ok (enqueue m s c)"
  by (simp add: client_ok_def enqueue_queue_ok enqueue_delivery_ok enqueue_greeted)

lemma newClient_ok [simp]: "client_ok (newClient key)"
  by (simp add: client_ok_def newClient_def queue_ok_def delivery_ok_def greeted_def)


subsection \<open>The invariant of the hub\<close>

definition board_current :: "'b hub \<Rightarrow> 'b client \<Rightarrow> bool" where
  "board_current h c \<longleftrightarrow> (registered c \<longrightarrow> last_board (synced c @ since c) = lastScoreboard h)"

definition throttle_ok :: "'b hub \<Rightarrow> bool" where
  "throttle_ok h \<longleftrightarrow> (\<forall>m. pending h = Some m \<longrightarrow> lastScoreboard h = Some m \<and> timer h = Some (lastSend h + broadcastMinGap))"

definition frames_ok :: "'b hub \<Rightarrow> bool" where
  "frames_ok h \<longleftrightarrow> (\<forall>x \<in> set (incoming h). isScoreboard x = is_board (ob_data x)) \<and>
     (\<forall>m. lastScoreboard h = Some m \<longrightarrow> is_board m)"

definition hub_ok :: "'b hub \<Rightarrow> bool" where
  "hub_ok h \<longleftrightarrow> throttle_ok h \<and> frames_ok h \<and> (\<forall>c \<in> set (conns h). client_ok c) \<and>
     (pending h = None \<longrightarrow> (\<forall>c \<in> set (conns h). board_current h c))"

text \<open>Changing one connection in a way that keeps its own invariant keeps the hub's.\<close>

lemma put_conn_simps [simp]:
  "conns (put_conn i c h) = (conns h)[i := c]" "incoming (put_conn i c h) = incoming h"
  "hub_done (put_conn i c h) = hub_done h" "lastScoreboard (put_conn i c h) = lastScoreboard h"
  "lastSend (put_conn i c h) = lastSend h" "pending (put_conn i c h) = pending h" "timer (put_conn i c h) = timer h"
  "ws_admit (put_conn i c h) = ws_admit h"
  by (simp_all add: put_conn_def)

lemma board_current_cong: "lastScoreboard h' = lastScoreboard h \<Longrightarrow> board_current h' = board_current h"
  by (simp add: board_current_def fun_eq_iff)

lemma put_conn_ok:
  assumes "hub_ok h" "client_ok c" "pending h = None \<longrightarrow> board_current h c"
  shows "hub_ok (put_conn i c h)"
proof -
  have "\<forall>c \<in> set (conns (put_conn i c h)). client_ok c"
    using all_in_update [of "conns h" client_ok c i] assms(1,2) by (simp add: hub_ok_def)
  moreover have "\<forall>x \<in> set (conns (put_conn i c h)). board_current (put_conn i c h) x" if "pending h = None"
  proof -
    have "\<forall>x \<in> set ((conns h)[i := c]). board_current h x"
      using all_in_update [of "conns h" "board_current h" c i] assms(1,3) that by (simp add: hub_ok_def)
    then show ?thesis by (simp add: board_current_def)
  qed
  ultimately show ?thesis using assms(1) unfolding hub_ok_def throttle_ok_def frames_ok_def put_conn_simps by blast
qed

lemma hub_ok_admit [simp]: "hub_ok (h\<lparr>ws_admit := a\<rparr>) = hub_ok h"
  by (simp add: hub_ok_def throttle_ok_def frames_ok_def board_current_def)

lemma hub_ok_nth:
  "hub_ok h \<Longrightarrow> i < length (conns h) \<Longrightarrow> client_ok (conns h ! i) \<and> (pending h = None \<longrightarrow> board_current h (conns h ! i))"
  by (simp add: hub_ok_def)

lemma stage_ok:
  "client_ok c \<Longrightarrow> st \<in> {Unregistering, Returned} \<Longrightarrow> client_ok (c\<lparr>stage := st\<rparr>)"
  "client_ok c \<Longrightarrow> stage c = Upgrading \<Longrightarrow> client_ok (c\<lparr>stage := Registering\<rparr>)"
  by (auto simp: client_ok_def queue_ok_def delivery_ok_def greeted_def)

lemma board_current_stage [simp]: "board_current h (c\<lparr>stage := st\<rparr>) = board_current h c"
  by (simp add: board_current_def)

lemma handler_return_ok: "hub_ok h \<Longrightarrow> i < length (conns h) \<Longrightarrow> hub_ok (handler_return i h)"
  using hub_ok_nth [of h i] by (simp add: handler_return_def put_conn_ok stage_ok)

lemma fanout_ok:
  assumes "\<forall>c \<in> set (conns h). client_ok c" "s = is_board m"
  shows "\<forall>c \<in> set (conns (fanout m s h)). client_ok c"
  using assms by (auto simp: fanout_def enqueue_client_ok)

lemma fanout_board_current:
  "is_board m \<Longrightarrow> lastScoreboard h = Some m \<Longrightarrow> \<forall>c \<in> set (conns (fanout m True h)). board_current h c"
  by (auto simp: fanout_def board_current_def last_board_snoc2)

lemma fanout_phase_current:
  "\<not> is_board m \<Longrightarrow> \<forall>c \<in> set (conns h). board_current h c \<Longrightarrow>
   \<forall>c \<in> set (conns (fanout m False h)). board_current h c"
  by (auto simp: fanout_def board_current_def last_board_snoc2)

lemma fanout_simps [simp]:
  "incoming (fanout m s h) = incoming h" "hub_done (fanout m s h) = hub_done h"
  "lastScoreboard (fanout m s h) = lastScoreboard h" "lastFrozen (fanout m s h) = lastFrozen h"
  "lastSend (fanout m s h) = lastSend h" "pending (fanout m s h) = pending h" "timer (fanout m s h) = timer h"
  "ws_admit (fanout m s h) = ws_admit h"
  by (simp_all add: fanout_def)

text \<open>A flush needs nothing of the timer: it empties what was pending.\<close>

lemma flush_ok:
  assumes "frames_ok h" "\<forall>c \<in> set (conns h). client_ok c"
    and "\<And>m. pending h = Some m \<Longrightarrow> lastScoreboard h = Some m"
    and "pending h = None \<Longrightarrow> \<forall>c \<in> set (conns h). board_current h c"
  shows "hub_ok (flush now h)" "pending (flush now h) = None" "incoming (flush now h) = incoming h"
proof -
  show "hub_ok (flush now h)"
  proof (cases "pending h")
    case None
    then show ?thesis using assms by (simp add: flush_def hub_ok_def throttle_ok_def)
  next
    case (Some m)
    then have m: "lastScoreboard h = Some m" "is_board m" using assms(1,3) by (auto simp: frames_ok_def)
    then show ?thesis
      using Some assms(1) fanout_ok [OF assms(2), of True m] fanout_board_current [OF m(2,1)]
      by (simp add: flush_def hub_ok_def throttle_ok_def frames_ok_def board_current_def)
  qed
qed (simp_all add: flush_def split: option.split)


lemma run_incoming_ok:
  assumes ok: "hub_ok h" and run: "run_incoming now h = Some h'"
  shows "hub_ok h'"
proof -
  from run obtain x rest where x: "incoming h = x # rest" by (auto simp: run_incoming_def split: list.splits)
  define h1 where "h1 = h\<lparr>incoming := rest\<rparr>"
  have bd: "isScoreboard x = is_board (ob_data x)" using ok x by (simp add: hub_ok_def frames_ok_def)
  have h1: "frames_ok h1" "\<forall>c \<in> set (conns h1). client_ok c"
    using ok x by (auto simp: hub_ok_def frames_ok_def h1_def)
  show ?thesis
  proof (cases "isScoreboard x")
    case True
    define h2 where "h2 = h1\<lparr>lastScoreboard := Some (ob_data x), lastFrozen := ob_frozen x, pending := Some (ob_data x)\<rparr>"
    have h2: "frames_ok h2" "\<forall>c \<in> set (conns h2). client_ok c" "pending h2 = Some (ob_data x)"
      "lastScoreboard h2 = Some (ob_data x)"
      using h1 bd True by (auto simp: frames_ok_def h2_def)
    have "h' = flush now h2 \<or> h' = h2\<lparr>timer := Some (lastSend h2 + broadcastMinGap)\<rparr>"
      using run True by (auto simp: run_incoming_def x Let_def h1_def [symmetric] h2_def [symmetric] split: if_splits)
    moreover have "hub_ok (flush now h2)" using flush_ok(1) [OF h2(1,2)] h2(3,4) by simp
    moreover have "hub_ok (h2\<lparr>timer := Some (lastSend h2 + broadcastMinGap)\<rparr>)"
      using h2 by (simp add: hub_ok_def throttle_ok_def frames_ok_def)
    ultimately show ?thesis by blast
  next
    case False
    have cur: "\<forall>c \<in> set (conns h1). board_current h1 c" if "pending h1 = None"
      using ok that by (simp add: hub_ok_def h1_def board_current_def)
    have last: "pending h1 = Some m \<Longrightarrow> lastScoreboard h1 = Some m" for m
      using ok by (simp add: hub_ok_def throttle_ok_def h1_def)
    have f: "hub_ok (flush now h1)" "pending (flush now h1) = None"
      by (rule flush_ok(1,2) [OF h1], erule last, erule cur)+
    have h': "h' = fanout (ob_data x) False (flush now h1)"
      using run False by (simp add: run_incoming_def x h1_def)
    have nb: "\<not> is_board (ob_data x)" using False bd by simp
    have "\<forall>c \<in> set (conns (flush now h1)). board_current (flush now h1) c" using f by (simp add: hub_ok_def)
    from fanout_phase_current [OF nb this] have "\<forall>c \<in> set (conns h'). board_current h' c"
      by (simp add: h' board_current_def)
    moreover have "\<forall>c \<in> set (conns h'). client_ok c"
      using f(1) nb unfolding h' by (intro fanout_ok) (simp_all add: hub_ok_def)
    ultimately show ?thesis
      using f unfolding hub_ok_def throttle_ok_def frames_ok_def h' fanout_simps by blast
  qed
qed

lemma run_timer_ok:
  assumes "hub_ok h" "run_timer now h = Some h'"
  shows "hub_ok h'"
proof -
  have h': "h' = flush now (h\<lparr>timer := None\<rparr>)"
    using assms(2) by (auto simp: run_timer_def split: option.splits if_splits)
  show ?thesis
    unfolding h'
  proof (rule flush_ok(1))
    show "\<forall>c \<in> set (conns (h\<lparr>timer := None\<rparr>)). board_current (h\<lparr>timer := None\<rparr>) c"
      if "pending (h\<lparr>timer := None\<rparr>) = None"
      using assms(1) that by (simp add: hub_ok_def board_current_def)
  qed (use assms(1) in \<open>simp_all add: hub_ok_def throttle_ok_def frames_ok_def\<close>)
qed

lemma run_register_conn_ok:
  fixes h :: "'b hub"
  assumes ok: "hub_ok h" and i: "i < length (conns h)" "stage (conns h ! i) = Registering"
  shows "client_ok ((conns (run_register i h) ! i)\<lparr>stage := Pumping\<rparr>)"
    "board_current h (conns (run_register i h) ! i)"
proof -
  let ?hello = "encode FrameHello (HelloData (lastFrozen h)) :: 'b message"
  let ?c = "(conns h ! i)\<lparr>registered := True, stage := Pumping\<rparr>"
  have fresh: "synced (conns h ! i) = []" "since (conns h ! i) = []" and c: "queue_ok ?c" "delivery_ok ?c"
    using hub_ok_nth [OF ok i(1)] i(2) by (auto simp: client_ok_def greeted_def queue_ok_def delivery_ok_def)
  have hello: "\<not> is_board ?hello" "msg_Type ?hello = FrameHello"
    by (simp_all add: is_board_def encode_def FrameHello_def FrameScoreboard_def)
  define c1 where "c1 = enqueue ?hello False ?c"
  have c1: "client_ok c1" "registered c1"
    using enqueue_queue_ok [OF c(1), of False ?hello] enqueue_delivery_ok [OF c, of False ?hello] hello fresh
    by (simp_all add: c1_def client_ok_def greeted_def)
  have swap: "(enqueue m s x)\<lparr>stage := st\<rparr> = enqueue m s (x\<lparr>stage := st\<rparr>)" for m s st and x :: "'b client"
    by (simp add: enqueue_def signal_def)
  have "(conns (run_register i h) ! i)\<lparr>stage := Pumping\<rparr> =
      (case lastScoreboard h of None \<Rightarrow> c1 | Some m \<Rightarrow> enqueue m True c1)"
    using i by (simp add: run_register_def Let_def c1_def swap split: option.split)
  moreover have "client_ok (case lastScoreboard h of None \<Rightarrow> c1 | Some m \<Rightarrow> enqueue m True c1)"
    using c1 ok by (auto simp: enqueue_client_ok hub_ok_def frames_ok_def split: option.split)
  ultimately show "client_ok ((conns (run_register i h) ! i)\<lparr>stage := Pumping\<rparr>)" by simp
  show "board_current h (conns (run_register i h) ! i)"
    using i fresh hello ok last_board_snoc2 [of "[]" "[?hello]"]
    by (auto simp: run_register_def Let_def board_current_def hub_ok_def frames_ok_def last_board_def split: option.split)
qed

lemma run_register_put:
  "i < length (conns h) \<Longrightarrow> put_conn i c (run_register i h) = put_conn i c h"
  by (simp add: run_register_def put_conn_def Let_def)


lemma wake_client_ok:
  assumes ok: "client_ok c" and st: "stage c = Pumping" and d: "drain (c\<lparr>wake := False\<rparr>) = (c1, frames, ovf)"
  shows "ovf \<Longrightarrow> client_ok (c1\<lparr>stage := Unregistering\<rparr>)"
    "\<not> ovf \<Longrightarrow> client_ok (c1\<lparr>synced := synced c1 @ since c1, since := [], drained := drained c1 @ frames,
       written := written c1 @ take n frames, stage := (if n < length frames then Unregistering else Pumping)\<rparr>)"
proof -
  have c1: "c1 = c\<lparr>wake := False, queue := [], tailSnap := False\<rparr>" "frames = queue c" "ovf = overflow c"
    using d by (auto simp: drain_def)
  show "ovf \<Longrightarrow> client_ok (c1\<lparr>stage := Unregistering\<rparr>)"
    using ok st by (simp add: c1 client_ok_def queue_ok_def delivery_ok_def greeted_def)
  assume "\<not> ovf"
  then have f: "faithful (since c) (queue c)" "faithful (synced c) (drained c)" "written c = drained c"
    using ok st by (simp_all add: c1 client_ok_def delivery_ok_def)
  show "client_ok (c1\<lparr>synced := synced c1 @ since c1, since := [], drained := drained c1 @ frames,
       written := written c1 @ take n frames, stage := (if n < length frames then Unregistering else Pumping)\<rparr>)"
    using ok st faithful_append [OF f(2,1)] f(3)
    by (simp add: c1 client_ok_def queue_ok_def delivery_ok_def greeted_def take_is_prefix)
qed


lemma ws_act_ok:
  assumes ok: "hub_ok h" and run: "ws_act a h = Some h'"
  shows "hub_ok h'"
proof (cases a)
  case (Request now key)
  obtain a1 why b where a1: "admit now key (ws_admit h) = (a1, why, b)" by (metis prod.exhaust)
  have "hub_ok (h\<lparr>ws_admit := a1, conns := conns h @ [newClient key]\<rparr>)"
    using ok by (auto simp: hub_ok_def throttle_ok_def frames_ok_def board_current_def) (simp add: newClient_def)+
  then show ?thesis using ok run Request a1 by (auto simp: handler_request_def)
next
  case (Accept i b)
  then have i: "i < length (conns h)" "stage (conns h ! i) = Upgrading"
    and h': "h' = (if b then put_conn i ((conns h ! i)\<lparr>stage := Registering\<rparr>) h else handler_return i h)"
    using run by (auto simp: handler_accept_def at_conn_def split: if_splits)
  have "client_ok ((conns h ! i)\<lparr>stage := Registering\<rparr>)" using hub_ok_nth [OF ok i(1)] i(2) stage_ok(2) by blast
  then have "hub_ok (put_conn i ((conns h ! i)\<lparr>stage := Registering\<rparr>) h)"
    using hub_ok_nth [OF ok i(1)] by (intro put_conn_ok [OF ok]) simp_all
  then show ?thesis using handler_return_ok [OF ok i(1)] h' by simp
next
  case (Register i)
  then have i: "i < length (conns h)" "stage (conns h ! i) = Registering"
    and h': "h' = (if hub_done h then handler_return i h
       else put_conn i ((conns (run_register i h) ! i)\<lparr>stage := Pumping\<rparr>) h)"
    using run by (auto simp: handler_register_def at_conn_def Let_def run_register_put split: if_splits)
  then show ?thesis
    using handler_return_ok [OF ok i(1)] put_conn_ok [OF ok] run_register_conn_ok [OF ok i] by simp
next
  case (Wake i n)
  then have i: "i < length (conns h)" "stage (conns h ! i) = Pumping"
    using run by (auto simp: writePump_wake_def at_conn_def split: if_splits)
  obtain c1 frames ovf where d: "drain ((conns h ! i)\<lparr>wake := False\<rparr>) = (c1, frames, ovf)" by (metis prod.exhaust)
  have c1: "registered c1 = registered (conns h ! i)" "synced c1 = synced (conns h ! i)" "since c1 = since (conns h ! i)"
    using d by (auto simp: drain_def)
  have "client_ok (conns h ! i)" and cur: "pending h = None \<longrightarrow> board_current h (conns h ! i)"
    using hub_ok_nth [OF ok i(1)] by simp_all
  note w = wake_client_ok [OF this(1) i(2) d]
  show ?thesis
  proof (cases ovf)
    case True
    have "hub_ok (put_conn i (c1\<lparr>stage := Unregistering\<rparr>) h)"
      using cur c1 by (intro put_conn_ok [OF ok w(1) [OF True]]) (simp add: board_current_def)
    then show ?thesis using run Wake i True d by (auto simp: writePump_wake_def at_conn_def split: if_splits)
  next
    case False
    have "hub_ok (put_conn i (c1\<lparr>synced := synced c1 @ since c1, since := [], drained := drained c1 @ frames,
       written := written c1 @ take n frames, stage := (if n < length frames then Unregistering else Pumping)\<rparr>) h)"
      using cur c1 by (intro put_conn_ok [OF ok w(2) [OF False]]) (simp add: board_current_def)
    then show ?thesis using run Wake i False d by (auto simp: writePump_wake_def at_conn_def split: if_splits)
  qed
next
  case (PumpEnd i)
  then have i: "i < length (conns h)" and h': "h' = put_conn i ((conns h ! i)\<lparr>stage := Unregistering\<rparr>) h"
    using run by (auto simp: writePump_end_def at_conn_def split: if_splits)
  have "client_ok ((conns h ! i)\<lparr>stage := Unregistering\<rparr>)" using hub_ok_nth [OF ok i] by (simp add: stage_ok(1))
  then show ?thesis using hub_ok_nth [OF ok i] unfolding h' by (intro put_conn_ok [OF ok]) simp_all
next
  case (Unregister i)
  then have i: "i < length (conns h)" "stage (conns h ! i) = Unregistering"
    and h': "h' = handler_return i (if hub_done h then h else run_unregister i h)"
    using run by (auto simp: handler_unregister_def at_conn_def split: if_splits)
  have "client_ok ((conns h ! i)\<lparr>registered := False\<rparr>)"
    using hub_ok_nth [OF ok i(1)] i(2) by (simp add: client_ok_def queue_ok_def delivery_ok_def greeted_def)
  then have "hub_ok (put_conn i ((conns h ! i)\<lparr>registered := False\<rparr>) h)"
    by (intro put_conn_ok [OF ok]) (simp_all add: board_current_def)
  then have "hub_ok (run_unregister i h)" by (simp add: run_unregister_def put_conn_def)
  then show ?thesis using h' ok i by (simp add: handler_return_ok run_unregister_def)
next
  case (Panic i)
  then show ?thesis using run handler_return_ok [OF ok] by (auto simp: handler_panic_def split: if_splits)
next
  case (SendBoard b f)
  then show ?thesis
    using ok run by (auto simp: BroadcastScoreboard_def hub_ok_def throttle_ok_def frames_ok_def board_current_def
        is_board_def encode_def split: if_splits)
next
  case (SendPhase p)
  then show ?thesis
    using ok run by (auto simp: BroadcastPhase_def hub_ok_def throttle_ok_def frames_ok_def board_current_def
        is_board_def encode_def FrameScoreboard_def FrameEventPhase_def split: if_splits)
next
  case (Incoming now)
  then show ?thesis using run_incoming_ok [OF ok] run by (simp split: if_splits)
next
  case (Timer now)
  then show ?thesis using run_timer_ok [OF ok] run by (simp split: if_splits)
next
  case Shutdown
  then show ?thesis
    using ok run by (auto simp: hub_ok_def throttle_ok_def frames_ok_def board_current_def split: if_splits)
qed

lemma ws_reachable_ok: "ws_reachable l h \<Longrightarrow> hub_ok h"
proof (induction rule: ws_reachable.induct)
  case start
  then show ?case by (simp add: hub_ok_def throttle_ok_def frames_ok_def NewHub_def)
qed (rule ws_act_ok)

lemma ws_acts_reachable: "ws_acts as h = Some h' \<Longrightarrow> ws_reachable l h \<Longrightarrow> ws_reachable l h'"
  by (induction as arbitrary: h) (auto split: option.splits intro: ws_reachable.act)


subsection \<open>What the hub promises\<close>

lemma hd_settle:
  "xs \<noteq> [] \<Longrightarrow> is_board (hd (settle xs)) = is_board (hd xs) \<and> (\<not> is_board (hd xs) \<longrightarrow> hd (settle xs) = hd xs)"
  by (induction xs rule: settle.induct) auto

definition hub_limits :: Limits where
  "hub_limits = \<lparr>MaxConns = 2, MaxConnsPerKey = 1, HandshakeBurst = 2, HandshakeWindow = 60 * second\<rparr>"

text \<open>Two clients; the second falls behind by a phase frame and two boards.\<close>

definition hub_run :: "string ws_action list" where
  "hub_run =
     [Request 0 ''u:1'', Accept 0 True, Register 0, SendBoard ''A'' False, Incoming 0, Wake 0 9,
      Request 0 ''u:2'', Accept 1 True, Register 1, SendPhase ''running'', Incoming 0,
      SendBoard ''B'' False, SendBoard ''C'' True, Incoming (5 * second), Incoming (5 * second), Wake 0 9,
      Timer (6 * second), Wake 0 9]"

text \<open>C20. What a connection receives is the stream of frames that the hub sent it, up to superseded boards: for every
  client in every reachable state, the frames written are a prefix of the frames taken from the queue, these are a
  subsequence of the frames enqueued, and the two agree once runs of consecutive boards are cut down to their last
  board. So no greeting or phase frame is lost or reordered, no board is moved across one, and the board shown before
  each is the latest. As long as the queue has not overflowed the same holds with the queued frames included. The
  first frame written is the greeting, and the queue is bounded.\<close>

theorem ws_stream_faithful:
  assumes "ws_reachable l h" "c \<in> set (conns h)"
  shows "prefix (written c) (drained c) \<and>
    subseq (drained c) (synced c) \<and> settle (drained c) = settle (synced c) \<and>
    (\<not> overflow c \<longrightarrow> subseq (drained c @ queue c) (synced c @ since c) \<and>
       settle (drained c @ queue c) = settle (synced c @ since c)) \<and>
    (written c \<noteq> [] \<longrightarrow> msg_Type (hd (written c)) = FrameHello) \<and> length (queue c) \<le> clientQueueCap"
proof -
  have c: "queue_ok c" "delivery_ok c" "greeted c"
    using ws_reachable_ok [OF assms(1)] assms(2) by (auto simp: hub_ok_def client_ok_def)
  have "msg_Type (hd (written c)) = FrameHello" if w: "written c \<noteq> []"
  proof -
    obtain zs where "drained c = written c @ zs" using c(2) unfolding delivery_ok_def prefix_def by blast
    then have p: "drained c \<noteq> []" "hd (drained c) = hd (written c)" using w by simp_all
    have e: "settle (drained c) = settle (synced c)" using c(2) by (simp add: delivery_ok_def faithful_def)
    then have s: "synced c \<noteq> []" using p(1) by (metis settle_eq_Nil_iff)
    then have "msg_Type (hd (synced c)) = FrameHello" using c(3) by (simp add: greeted_def)
    moreover from this have "\<not> is_board (hd (synced c))"
      by (simp add: is_board_def FrameHello_def FrameScoreboard_def)
    ultimately show ?thesis using hd_settle [OF s] hd_settle [OF p(1)] e p(2) by metis
  qed
  then show ?thesis
    using c(1,2) faithful_append [of "synced c" "drained c" "since c" "queue c"]
    unfolding queue_ok_def delivery_ok_def faithful_def by blast
qed

text \<open>Clients converge on the latest board: whenever no board is waiting for the throttle, the last board among the
  frames delivered to or queued for a registered client that has not overflowed is the last board the hub took in.\<close>

theorem ws_converges:
  assumes "ws_reachable l h" "c \<in> set (conns h)" "registered c" "\<not> overflow c" "pending h = None"
  shows "last_board (drained c @ queue c) = lastScoreboard h"
proof -
  have ok: "hub_ok h" using ws_reachable_ok [OF assms(1)] .
  then have d: "delivery_ok c" and b: "board_current h c" using assms(2,5) by (auto simp: hub_ok_def client_ok_def)
  have "faithful (synced c @ since c) (drained c @ queue c)"
    using d assms(4) by (simp add: delivery_ok_def faithful_append)
  from faithful_last_board [OF this] show ?thesis using b assms(3) by (simp add: board_current_def)
qed

lemma flush_lastSend: "lastSend (flush now h) = (if pending h = None then lastSend h else now)"
  by (simp add: flush_def split: option.split)

text \<open>The throttle: a board that waits has the timer armed for the end of the gap after the last board sent, so it
  waits no longer than the gap, and an iteration that sends a board without a phase frame to make way for does so at
  least the gap after the last one.\<close>

theorem ws_throttled:
  assumes "ws_reachable l h"
  shows "(pending h \<noteq> None \<longrightarrow> timer h = Some (lastSend h + broadcastMinGap)) \<and>
    (ws_act (Timer now) h = Some h' \<longrightarrow> pending h' = None \<and>
       (lastSend h' \<noteq> lastSend h \<longrightarrow> now \<ge> lastSend h + broadcastMinGap)) \<and>
    (ws_act (Incoming now) h = Some h' \<longrightarrow> isScoreboard (hd (incoming h)) \<longrightarrow> lastSend h' \<noteq> lastSend h \<longrightarrow>
       now \<ge> lastSend h + broadcastMinGap)"
proof (intro conjI impI)
  have ok: "hub_ok h" using ws_reachable_ok [OF assms] .
  then show t: "timer h = Some (lastSend h + broadcastMinGap)" if "pending h \<noteq> None"
    using that by (auto simp: hub_ok_def throttle_ok_def)
  { assume a: "ws_act (Timer now) h = Some h'"
    then have f: "h' = flush now (h\<lparr>timer := None\<rparr>)" "\<exists>t. timer h = Some t \<and> t \<le> now"
      by (auto simp: run_timer_def split: option.splits if_splits)
    then show "pending h' = None" by (simp add: flush_def split: option.split)
    show "now \<ge> lastSend h + broadcastMinGap" if "lastSend h' \<noteq> lastSend h"
      using that f t by (auto simp: flush_lastSend split: if_splits) }
  show "now \<ge> lastSend h + broadcastMinGap"
    if "ws_act (Incoming now) h = Some h'" "isScoreboard (hd (incoming h))" "lastSend h' \<noteq> lastSend h"
    using that by (auto simp: run_incoming_def Let_def split: if_splits list.splits)
qed


subsection \<open>Slots\<close>

definition profile :: "'b hub \<Rightarrow> (bool \<times> string) list" where
  "profile h = map (\<lambda>c. (stage c \<noteq> Returned, cl_key c)) (conns h)"

definition live_of :: "(bool \<times> string) list \<Rightarrow> string \<Rightarrow> int" where
  "live_of p key = int (length (filter (\<lambda>x. x = (True, key)) p))"

definition live_total :: "(bool \<times> string) list \<Rightarrow> int" where
  "live_total p = int (length (filter fst p))"

definition slots_ok :: "Limits \<Rightarrow> (bool \<times> string) list \<Rightarrow> admissions \<Rightarrow> bool" where
  "slots_ok l p a \<longleftrightarrow> limits a = l \<and> total a = live_total p \<and> (\<forall>key. count_at (perKey a) key = live_of p key) \<and>
     (MaxConns l > 0 \<longrightarrow> live_total p \<le> MaxConns l) \<and>
     (MaxConnsPerKey l > 0 \<longrightarrow> (\<forall>key. live_of p key \<le> MaxConnsPerKey l))"

lemma profile_put_conn:
  "i < length (conns h) \<Longrightarrow> profile (put_conn i c h) = (profile h)[i := (stage c \<noteq> Returned, cl_key c)]"
  by (simp add: profile_def map_update)

lemma profile_put_same [simp]:
  assumes "i < length (conns h)" "stage (conns h ! i) \<noteq> Returned" "stage c \<noteq> Returned" "cl_key c = cl_key (conns h ! i)"
  shows "profile (put_conn i c h) = profile h"
proof -
  have "profile h ! i = (True, cl_key c)" using assms by (simp add: profile_def)
  then show ?thesis using assms list_update_id [of "profile h" i] by (simp add: profile_put_conn)
qed

lemma profile_flush [simp]:
  "profile (fanout m s h) = profile h" "profile (flush now h) = profile h" "ws_admit (flush now h) = ws_admit h"
  by (auto simp: profile_def fanout_def flush_def split: option.split)

lemma profile_frame [simp]:
  "profile (h\<lparr>ws_admit := a\<rparr>) = profile h" "profile (h\<lparr>incoming := q\<rparr>) = profile h"
  "profile (h\<lparr>lastScoreboard := m\<rparr>) = profile h" "profile (h\<lparr>lastFrozen := b\<rparr>) = profile h"
  "profile (h\<lparr>pending := m\<rparr>) = profile h" "profile (h\<lparr>timer := t\<rparr>) = profile h"
  "profile (h\<lparr>hub_done := b\<rparr>) = profile h" "profile (h\<lparr>broadcastsDropped := ds\<rparr>) = profile h"
  by (simp_all add: profile_def)

lemma slots_ok_return:
  assumes ok: "slots_ok l (profile h) (ws_admit h)" and i: "i < length (conns h)" "stage (conns h ! i) \<noteq> Returned"
  shows "slots_ok l (profile (handler_return i h)) (ws_admit (handler_return i h))"
proof -
  let ?k = "cl_key (conns h ! i)"
  let ?p = "profile h"
  have at_i: "i < length ?p" "?p ! i = (True, ?k)" using i by (simp_all add: profile_def)
  then have mem: "(True, ?k) \<in> set ?p" by (metis nth_mem)
  then have pos: "live_total ?p > 0" "live_of ?p ?k > 0"
    using filter_empty_conv [of fst ?p] filter_empty_conv [of "\<lambda>x. x = (True, ?k)" ?p]
    by (auto simp: live_total_def live_of_def simp del: filter_empty_conv)
  have p': "profile (handler_return i h) = ?p[i := (False, ?k)]"
    using profile_put_conn [OF i(1), of "(conns h ! i)\<lparr>stage := Returned\<rparr>"]
    by (simp add: handler_return_def profile_def)
  have "live_total (?p[i := (False, ?k)]) = live_total ?p - 1"
    "\<And>key. live_of (?p[i := (False, ?k)]) key = live_of ?p key - (if key = ?k then 1 else 0)"
    using length_filter_update [OF at_i(1)] at_i(2) by (auto simp: live_total_def live_of_def)
  moreover have "limits (ws_release ?k (ws_admit h)) = l \<and> total (ws_release ?k (ws_admit h)) = live_total ?p - 1 \<and>
      perKey (ws_release ?k (ws_admit h)) = decr (perKey (ws_admit h)) ?k"
    using ok pos ws_release_counters [of "ws_admit h" ?k] by (simp add: slots_ok_def)
  moreover have "MaxConnsPerKey l > 0 \<Longrightarrow> live_of ?p ?k \<le> MaxConnsPerKey l" using ok by (simp add: slots_ok_def)
  then have "MaxConnsPerKey l > 0 \<Longrightarrow> live_of ?p ?k - 1 \<le> MaxConnsPerKey l" by linarith
  ultimately show ?thesis using ok unfolding p' by (auto simp: slots_ok_def handler_return_def)
qed

lemma slots_ok_request:
  assumes ok: "slots_ok l (profile h) (ws_admit h)"
  shows "slots_ok l (profile (handler_request now key h)) (ws_admit (handler_request now key h))"
proof -
  obtain a why b where a: "admit now key (ws_admit h) = (a, why, b)" by (metis prod.exhaust)
  show ?thesis
  proof (cases b)
    case True
    have "admit now key (ws_admit h) = (a, why, True)" using a True by simp
    note g = admit_granted [OF this]
    have "profile (handler_request now key h) = profile h @ [(True, key)]"
      using a True by (simp add: handler_request_def profile_def newClient_def)
    then show ?thesis
      using ok g a True by (auto simp: slots_ok_def handler_request_def live_total_def live_of_def)
  next
    case False
    then show ?thesis
      using ok admit_refused [of now key "ws_admit h" a why] a
      by (simp add: handler_request_def slots_ok_def profile_def)
  qed
qed


lemma ws_act_slots:
  assumes ok: "slots_ok l (profile h) (ws_admit h)" and run: "ws_act a h = Some h'"
  shows "slots_ok l (profile h') (ws_admit h')"
proof (cases a)
  case (Request now key)
  then show ?thesis using slots_ok_request [OF ok] run by auto
next
  case (Accept i b)
  then show ?thesis
    using slots_ok_return [OF ok] ok run
    by (auto simp: handler_accept_def at_conn_def split: if_splits)
next
  case (Register i)
  have "cl_key (conns (run_register i h) ! i) = cl_key (conns h ! i)" if "i < length (conns h)"
    using that by (simp add: run_register_def Let_def split: option.split)
  then show ?thesis
    using slots_ok_return [OF ok] ok run Register
    by (auto simp: handler_register_def at_conn_def Let_def run_register_put split: if_splits)
next
  case (Wake i n)
  have "slots_ok l (profile h) (forgiveHandshake k (ws_admit h))" for k using ok by (simp add: slots_ok_def)
  then show ?thesis
    using ok run Wake by (auto simp: writePump_wake_def at_conn_def drain_def split: if_splits)
next
  case (PumpEnd i)
  then show ?thesis
    using ok run by (auto simp: writePump_end_def at_conn_def split: if_splits)
next
  case (Unregister i)
  then have i: "i < length (conns h)" "stage (conns h ! i) = Unregistering"
    and h': "h' = handler_return i (if hub_done h then h else run_unregister i h)"
    using run by (auto simp: handler_unregister_def at_conn_def split: if_splits)
  have "run_unregister i h = put_conn i ((conns h ! i)\<lparr>registered := False\<rparr>) h"
    by (simp add: run_unregister_def put_conn_def)
  then have "slots_ok l (profile (run_unregister i h)) (ws_admit (run_unregister i h))"
    using ok i by simp
  from slots_ok_return [OF this, of i] slots_ok_return [OF ok, of i] show ?thesis
    using i h' by (simp add: run_unregister_def)
next
  case (Panic i)
  then show ?thesis using slots_ok_return [OF ok] run by (auto simp: handler_panic_def split: if_splits)
next
  case (Incoming now)
  then show ?thesis
    using ok run by (auto simp: run_incoming_def Let_def split: if_splits list.splits)
next
  case (Timer now)
  then show ?thesis
    using ok run by (auto simp: run_timer_def split: if_splits option.splits)
qed (use ok run in \<open>auto simp: BroadcastScoreboard_def BroadcastPhase_def split: if_splits\<close>)

text \<open>No slot leaks and no cap is exceeded: in every reachable state the admission counters are exactly the numbers of
  handlers that have not returned, in total and per key, whatever path each connection took (refused upgrade, hub gone,
  write failure, overflow, clean close, panic), and both configured caps hold.\<close>

theorem ws_slots_exact:
  assumes "ws_reachable l h"
  shows "total (ws_admit h) = int (length (filter (\<lambda>c. stage c \<noteq> Returned) (conns h))) \<and>
    (\<forall>key. count_at (perKey (ws_admit h)) key =
       int (length (filter (\<lambda>c. stage c \<noteq> Returned \<and> cl_key c = key) (conns h)))) \<and>
    (MaxConns l > 0 \<longrightarrow> total (ws_admit h) \<le> MaxConns l) \<and>
    (MaxConnsPerKey l > 0 \<longrightarrow> (\<forall>key. count_at (perKey (ws_admit h)) key \<le> MaxConnsPerKey l))"
proof -
  have ok: "slots_ok l (profile h) (ws_admit h)"
    using assms
  proof (induction rule: ws_reachable.induct)
    case start
    then show ?case by (simp add: slots_ok_def profile_def NewHub_def newAdmissions_def live_total_def live_of_def)
  qed (rule ws_act_slots)
  have "live_total (profile h) = int (length (filter (\<lambda>c. stage c \<noteq> Returned) (conns h)))"
    "live_of (profile h) key = int (length (filter (\<lambda>c. stage c \<noteq> Returned \<and> cl_key c = key) (conns h)))" for key
    by (simp_all add: live_total_def live_of_def profile_def filter_map o_def)
  then show ?thesis using ok by (auto simp: slots_ok_def)
qed

subsection \<open>A run\<close>

lemma hub_run_runs: "\<exists>h. ws_acts hub_run (NewHub hub_limits) = Some h \<and> length (conns h) = 2 \<and>
    length (written (conns h ! 0)) = 5 \<and> length (queue (conns h ! 1)) = 4 \<and> registered (conns h ! 1) \<and>
    \<not> overflow (conns h ! 1) \<and> pending h = None \<and> stage (conns h ! 0) = Pumping"
  by (rule ex_Some_case) code_simp


theorem ws_stream_faithful_witness:
  "\<exists>h. ws_acts hub_run (NewHub hub_limits) = Some h \<and> length (queue (conns h ! 1)) = 4 \<and>
     settle (drained (conns h ! 1) @ queue (conns h ! 1)) = settle (synced (conns h ! 1) @ since (conns h ! 1)) \<and>
     msg_Type (hd (written (conns h ! 0))) = FrameHello"
proof -
  obtain h where h: "ws_acts hub_run (NewHub hub_limits) = Some h" "length (conns h) = 2"
      "length (written (conns h ! 0)) = 5" "length (queue (conns h ! 1)) = 4" "\<not> overflow (conns h ! 1)"
    using hub_run_runs by blast
  have r: "ws_reachable hub_limits h" by (rule ws_acts_reachable [OF h(1) ws_reachable.start])
  have "conns h ! 0 \<in> set (conns h)" "conns h ! 1 \<in> set (conns h)" using h(2) by simp_all
  from ws_stream_faithful [OF r this(1)] ws_stream_faithful [OF r this(2)] show ?thesis using h by auto
qed

theorem ws_converges_witness:
  "\<exists>h. ws_acts hub_run (NewHub hub_limits) = Some h \<and>
     last_board (drained (conns h ! 1) @ queue (conns h ! 1)) = lastScoreboard h"
proof -
  obtain h where h: "ws_acts hub_run (NewHub hub_limits) = Some h" "length (conns h) = 2"
      "registered (conns h ! 1)" "\<not> overflow (conns h ! 1)" "pending h = None"
    using hub_run_runs by blast
  have "ws_reachable hub_limits h" by (rule ws_acts_reachable [OF h(1) ws_reachable.start])
  from ws_converges [OF this _ h(3,4,5)] show ?thesis using h by auto
qed

theorem ws_throttled_witness:
  "\<exists>h. ws_acts (take 15 hub_run) (NewHub hub_limits) = Some h \<and> timer h = Some (lastSend h + broadcastMinGap)"
proof -
  have "\<exists>h. ws_acts (take 15 hub_run) (NewHub hub_limits) = Some h \<and> pending h \<noteq> None"
    by (rule ex_Some_case) code_simp
  then obtain h where h: "ws_acts (take 15 hub_run) (NewHub hub_limits) = Some h" "pending h \<noteq> None" by blast
  have "ws_reachable hub_limits h" by (rule ws_acts_reachable [OF h(1) ws_reachable.start])
  from ws_throttled [OF this] show ?thesis using h by auto
qed

theorem ws_slots_exact_witness:
  "\<exists>h. ws_acts hub_run (NewHub hub_limits) = Some h \<and> length (conns h) = 2 \<and>
     total (ws_admit h) = int (length (filter (\<lambda>c. stage c \<noteq> Returned) (conns h)))"
proof -
  obtain h where h: "ws_acts hub_run (NewHub hub_limits) = Some h" "length (conns h) = 2"
    using hub_run_runs by blast
  have "ws_reachable hub_limits h" by (rule ws_acts_reachable [OF h(1) ws_reachable.start])
  from ws_slots_exact [OF this] show ?thesis using h by auto
qed

end
