(* ===== verification/Plugin_State.thy ===== *)
theory Plugin_State
  imports Float64 Go_Strings
begin

text \<open>
  The plugin state machine (\<^verbatim>\<open>internal/plugin/state.go\<close>), the identity check against the manifest
  (\<^verbatim>\<open>identity.go\<close>) and the restart backoff (\<^verbatim>\<open>backoffDelay\<close> of \<^verbatim>\<open>supervisor.go\<close>). An \<^verbatim>\<open>Info\<close> answer is the plugin
  process's: no such method on the client (\<open>NoInfoClient\<close>), an error, or a response. \<^verbatim>\<open>time.Duration\<close> arithmetic in
  the backoff is 64-bit, with the wrap-around written out.
\<close>

subsection \<open>States\<close>

datatype plugin_state = Discovered | Launching | Ready | Unhealthy | Restarting | Failed | Draining | Stopped

fun legalTransitions :: "plugin_state \<Rightarrow> plugin_state list" where
  "legalTransitions Discovered = [Launching, Failed]"
| "legalTransitions Launching = [Ready, Restarting, Failed]"
| "legalTransitions Ready = [Unhealthy, Draining]"
| "legalTransitions Unhealthy = [Ready, Restarting, Draining]"
| "legalTransitions Restarting = [Launching, Failed]"
| "legalTransitions Failed = [Launching]"
| "legalTransitions Draining = [Stopped]"
| "legalTransitions Stopped = []"

text \<open>\<^verbatim>\<open>machine.to\<close>: \<open>None\<close> is the error, which leaves the state unchanged.\<close>

definition machine_to :: "plugin_state \<Rightarrow> plugin_state \<Rightarrow> plugin_state option" where
  "machine_to st next = (if next \<in> set (legalTransitions st) then Some next else None)"

definition servesNew :: "plugin_state \<Rightarrow> bool" where
  "servesNew st \<longleftrightarrow> st = Ready"

subsection \<open>Identity\<close>

record info_response =
  ir_type :: int
  ir_name :: string
  ir_abi :: string

datatype info_answer = NoInfoClient | InfoError | InfoResponse info_response

text \<open>\<^verbatim>\<open>pluginTypeName\<close> on the wire enum (\<^verbatim>\<open>PLUGIN_TYPE_AUTH\<close> is 1, then scoring, notification and challenge type).\<close>

definition pluginTypeName :: "int \<Rightarrow> string" where
  "pluginTypeName t =
     (if t = 2 then ''scoring'' else if t = 3 then ''notification''
      else if t = 4 then ''challenge_type'' else if t = 1 then ''auth'' else '''')"

definition abiMajorOf :: "string \<Rightarrow> int" where
  "abiMajorOf abi = (case Atoi (TrimSpace (takeWhile (\<lambda>c. c \<noteq> CHR ''.'') abi)) of None \<Rightarrow> - 1 | Some n \<Rightarrow> n)"

text \<open>Why an identity check failed; \<open>Consistent\<close> is the empty reason.\<close>

datatype identity_reason = Consistent | NoInfo | WrongType string | WrongName string | WrongABI int

definition ABIMajor :: int where
  "ABIMajor = 1"

definition verifyIdentity :: "string \<Rightarrow> string \<Rightarrow> info_answer \<Rightarrow> identity_reason" where
  "verifyIdentity expectType name answer =
     (if expectType = '''' then Consistent
      else case answer of
        NoInfoClient \<Rightarrow> Consistent
      | InfoError \<Rightarrow> NoInfo
      | InfoResponse r \<Rightarrow>
          if pluginTypeName (ir_type r) \<noteq> expectType then WrongType (pluginTypeName (ir_type r))
          else if ir_name r \<noteq> name then WrongName (ir_name r)
          else if abiMajorOf (ir_abi r) \<noteq> ABIMajor then WrongABI (abiMajorOf (ir_abi r))
          else Consistent)"

lemma verifyIdentity_Consistent_iff:
  assumes "expectType \<noteq> ''''"
  shows "verifyIdentity expectType name answer = Consistent \<longleftrightarrow>
    answer = NoInfoClient \<or>
    (\<exists>r. answer = InfoResponse r \<and> pluginTypeName (ir_type r) = expectType \<and> ir_name r = name \<and>
         abiMajorOf (ir_abi r) = ABIMajor)"
  using assms by (auto simp: verifyIdentity_def split: info_answer.split)

subsection \<open>Backoff\<close>

text \<open>\<^verbatim>\<open>for i := 1; i < attempt && d < max; i++ { d *= 2 }\<close>, with \<open>n\<close> the rounds left.\<close>

fun backoff_loop :: "duration \<Rightarrow> nat \<Rightarrow> duration \<Rightarrow> duration" where
  "backoff_loop hi 0 d = d"
| "backoff_loop hi (Suc n) d = (if d < hi then backoff_loop hi n (int64 (d * 2)) else d)"

definition backoff_cap :: "duration \<Rightarrow> duration \<Rightarrow> int \<Rightarrow> duration" where
  "backoff_cap base hi attempt =
     (let d = backoff_loop hi (nat (attempt - 1)) base in if d > hi then hi else d)"

text \<open>\<open>rnd n\<close> is what \<^verbatim>\<open>rand.Int63n(n)\<close> returns.\<close>

definition backoffDelay :: "(int \<Rightarrow> int) \<Rightarrow> duration \<Rightarrow> duration \<Rightarrow> int \<Rightarrow> duration" where
  "backoffDelay rnd base hi attempt =
     (let d = backoff_cap base hi attempt in if d \<le> 0 then 0 else rnd (int64 (d + 1)))"

lemma backoff_loop_value:
  assumes "0 < d" "hi < 2 ^ 62"
  shows "min hi (backoff_loop hi n d) = min hi (d * 2 ^ n)"
  using assms(1)
proof (induction n arbitrary: d)
  case (Suc n)
  show ?case
  proof (cases "d < hi")
    case True
    then have "int64 (d * 2) = d * 2" using assms(2) Suc.prems by (intro int64_id) auto
    then show ?thesis using True Suc.IH [of "d * 2"] Suc.prems by (simp add: mult.assoc)
  next
    case False
    have "(1 :: int) \<le> 2 ^ Suc n" by (rule one_le_power) simp
    then have "d * 1 \<le> d * 2 ^ Suc n" using Suc.prems by (intro mult_left_mono) simp_all
    then show ?thesis using False by simp
  qed
qed simp

text \<open>The delay before a relaunch is the exponential \<open>base * 2 ^ (attempt - 1)\<close>, capped, with full jitter: never
  negative, never above the cap nor above the exponential, for every attempt number. The cap must stay below
  \<open>2 ^ 62\<close> nanoseconds for the doubling not to wrap.\<close>

theorem backoff_bounds:
  assumes "\<And>n. 0 < n \<Longrightarrow> 0 \<le> rnd n \<and> rnd n < n" "0 < base" "0 < hi" "hi < 2 ^ 62" "1 \<le> attempt"
  shows "0 \<le> backoffDelay rnd base hi attempt \<and>
    backoffDelay rnd base hi attempt \<le> min hi (base * 2 ^ nat (attempt - 1)) \<and>
    backoff_cap base hi attempt = min hi (base * 2 ^ nat (attempt - 1))"
proof -
  have cap: "backoff_cap base hi attempt = min hi (base * 2 ^ nat (attempt - 1))"
    using backoff_loop_value [OF assms(2,4), of "nat (attempt - 1)"]
    by (simp add: backoff_cap_def Let_def min_def split: if_splits)
  then have "0 < backoff_cap base hi attempt" "backoff_cap base hi attempt < 2 ^ 62"
    using assms(2-4) by auto
  then have "int64 (backoff_cap base hi attempt + 1) = backoff_cap base hi attempt + 1"
    by (intro int64_id) auto
  then show ?thesis
    using assms(1) [of "backoff_cap base hi attempt + 1"] cap \<open>0 < backoff_cap base hi attempt\<close>
    by (auto simp: backoffDelay_def Let_def)
qed

theorem backoff_bounds_witness:
  "backoffDelay (\<lambda>n. n - 1) (200 * 1000000) (30 * second) 5 \<le> min (30 * second) (200 * 1000000 * 2 ^ nat (5 - 1))"
  using backoff_bounds [of "\<lambda>n. n - 1" "200 * 1000000" "30 * second" 5] by (simp add: second_def)

end
