(* ===== verification/Plugin_Supervisor.thy ===== *)
theory Plugin_Supervisor
  imports Plugin_State
begin

text \<open>
  The supervisor of one plugin (\<^verbatim>\<open>internal/plugin/supervisor.go\<close>, with \<^verbatim>\<open>registerReady\<close> and \<^verbatim>\<open>revert\<close> of
  \<^verbatim>\<open>registry.go\<close>, \<^verbatim>\<open>quarantineIdentity\<close> of \<^verbatim>\<open>identity.go\<close> and the gate of \<^verbatim>\<open>Loader.dispatch\<close>).

  The actor is the only writer of its plugin, so the model is its control state (\<open>pc\<close>) together with the plugin's
  \<^verbatim>\<open>managed\<close> entry and the supervisor's own fields. One step runs from one blocking call to the next: a launch, the
  \<^verbatim>\<open>Info\<close> call, the registrar, the select of \<^verbatim>\<open>serve\<close>, a drain, a backoff sleep, the park. What the environment
  answers (the launched process, a crash, the clock, the jitter, the registrar's error) is part of the step, and the
  context may be cancelled between any two steps.

  A launched process is a \<open>conn\<close>, numbered by its launch; \<open>spawned\<close> and \<open>killed\<close> are history variables, the processes
  started and those that \<^verbatim>\<open>kill\<close> was called on. \<open>illegal\<close> counts the rejected state transitions that the code logs.
\<close>

record conn =
  c_id :: nat
  c_pid :: int
  c_info :: info_answer
  c_pidfile :: bool

record superConfig =
  maxAttempts :: int
  baseBackoff :: duration
  maxBackoff :: duration
  healthStable :: duration
  drainTimeout :: duration

text \<open>The defaults that \<^verbatim>\<open>newSupervisor\<close> fills in.\<close>

definition superConfig_defaults :: "superConfig \<Rightarrow> superConfig" where
  "superConfig_defaults c =
     \<lparr>maxAttempts = (if maxAttempts c \<le> 0 then 5 else maxAttempts c),
      baseBackoff = (if baseBackoff c \<le> 0 then 200 * 1000000 else baseBackoff c),
      maxBackoff = (if maxBackoff c \<le> 0 then 30 * second else maxBackoff c),
      healthStable = (if healthStable c \<le> 0 then 60 * second else healthStable c),
      drainTimeout = (if drainTimeout c \<le> 0 then 30 * second else drainTimeout c)\<rparr>"

datatype pc =
    AtLaunch
  | AtLaunching
  | AtVerify conn
  | AtRegister conn
  | AtServe conn
  | AtReloading conn
  | AtDrainOld conn conn
  | AtTeardown conn
  | AtBackoff duration
  | AtPark
  | Returned_run

record supervisor =
  pc :: pc
  m_state :: plugin_state
  m_cur :: "conn option"
  m_registered :: bool
  m_reason :: identity_reason
  load_failed :: bool
  attempts :: int
  readySince :: time
  curPID :: int
  launches :: nat
  ctx_cancelled :: bool
  illegal :: nat
  pidfile :: bool
  spawned :: "nat list"
  killed :: "nat list"

definition newSupervisor :: supervisor where
  "newSupervisor =
     \<lparr>pc = AtLaunch, m_state = Discovered, m_cur = None, m_registered = False, m_reason = Consistent,
      load_failed = False, attempts = 0, readySince = zero_time, curPID = 0, launches = 0, ctx_cancelled = False,
      illegal = 0, pidfile = False, spawned = [], killed = []\<rparr>"

subsection \<open>Writes to the shared entry\<close>

definition transition :: "plugin_state \<Rightarrow> supervisor \<Rightarrow> supervisor" where
  "transition next s =
     (case machine_to (m_state s) next of
        None \<Rightarrow> s\<lparr>illegal := illegal s + 1\<rparr>
      | Some st \<Rightarrow> s\<lparr>m_state := st\<rparr>)"

definition kill :: "conn \<Rightarrow> supervisor \<Rightarrow> supervisor" where
  "kill c s = s\<lparr>killed := killed s @ [c_id c]\<rparr>"

definition becomeReady :: "time \<Rightarrow> conn \<Rightarrow> supervisor \<Rightarrow> supervisor" where
  "becomeReady now c s = (transition Ready s)\<lparr>m_cur := Some c, readySince := now, curPID := c_pid c\<rparr>"

definition swapTo :: "time \<Rightarrow> conn \<Rightarrow> supervisor \<Rightarrow> supervisor" where
  "swapTo now c s = s\<lparr>m_cur := Some c, readySince := now, curPID := c_pid c\<rparr>"

definition markUnhealthy :: "supervisor \<Rightarrow> supervisor" where
  "markUnhealthy s = (transition Unhealthy s)\<lparr>m_cur := None\<rparr>"

definition quarantine :: "supervisor \<Rightarrow> supervisor" where
  "quarantine s =
     (let s1 = (if m_state s = Unhealthy then s\<lparr>m_state := Restarting\<rparr> else s)
      in (transition Failed s1)\<lparr>m_cur := None\<rparr>)"

definition revert :: "supervisor \<Rightarrow> supervisor" where
  "revert s = s\<lparr>m_registered := False\<rparr>"

text \<open>\<^verbatim>\<open>registerReady\<close>: once; \<open>ok\<close> is whether the registrar accepted the provider.\<close>

definition registerReady :: "bool \<Rightarrow> supervisor \<Rightarrow> supervisor" where
  "registerReady ok s = (if m_registered s then s else s\<lparr>m_registered := ok\<rparr>)"

text \<open>The gate of \<^verbatim>\<open>dispatch\<close>: the connection that a call is routed to.\<close>

definition dispatch_gate :: "supervisor \<Rightarrow> conn option" where
  "dispatch_gate s = (if servesNew (m_state s) then m_cur s else None)"

subsection \<open>The restart policy\<close>

definition run_return :: "supervisor \<Rightarrow> supervisor" where
  "run_return s = (revert s)\<lparr>pc := Returned_run\<rparr>"

definition backoffOrQuarantine :: "superConfig \<Rightarrow> (int \<Rightarrow> int) \<Rightarrow> bool \<Rightarrow> supervisor \<Rightarrow> supervisor" where
  "backoffOrQuarantine cfg rnd atCap s =
     (let s1 = s\<lparr>attempts := attempts s + 1\<rparr>
      in if atCap then (quarantine (revert s1))\<lparr>pc := AtPark\<rparr>
         else (transition Restarting s1)
                \<lparr>pc := AtBackoff (backoffDelay rnd (baseBackoff cfg) (maxBackoff cfg) (attempts s1))\<rparr>)"

definition afterCrash :: "superConfig \<Rightarrow> (int \<Rightarrow> int) \<Rightarrow> time \<Rightarrow> conn \<Rightarrow> supervisor \<Rightarrow> supervisor" where
  "afterCrash cfg rnd now dead s =
     (let s1 = markUnhealthy (kill dead s);
          s2 = (if now - readySince s1 \<ge> healthStable cfg then s1\<lparr>attempts := 0\<rparr> else s1);
          s3 = s2\<lparr>readySince := zero_time, curPID := 0\<rparr>
      in backoffOrQuarantine cfg rnd (attempts s3 + 1 \<ge> maxAttempts cfg) s3)"

definition quarantineIdentity :: "identity_reason \<Rightarrow> supervisor \<Rightarrow> supervisor" where
  "quarantineIdentity reason s =
     (quarantine (revert (s\<lparr>m_reason := reason, load_failed := True\<rparr>)))\<lparr>pc := AtPark\<rparr>"

subsection \<open>Steps\<close>

text \<open>What a launch returns: an error, or the process with its pid, its answer to \<^verbatim>\<open>Info\<close> and whether a pidfile was
  written.\<close>

type_synonym launched = "(int \<times> info_answer \<times> bool) option"

definition spawn :: "nat \<Rightarrow> int \<times> info_answer \<times> bool \<Rightarrow> conn" where
  "spawn n p = (case p of (pid, info, pf) \<Rightarrow> \<lparr>c_id = n, c_pid = pid, c_info = info, c_pidfile = pf\<rparr>)"

definition spawned_as :: "conn \<Rightarrow> supervisor \<Rightarrow> supervisor" where
  "spawned_as c s = s\<lparr>spawned := spawned s @ [c_id c], pidfile := pidfile s \<or> c_pidfile c\<rparr>"

definition launch_begin :: "supervisor \<Rightarrow> supervisor option" where
  "launch_begin s =
     (if pc s = AtLaunch then Some ((transition Launching s)\<lparr>launches := launches s + 1, pc := AtLaunching\<rparr>) else None)"

definition launch_end :: "superConfig \<Rightarrow> (int \<Rightarrow> int) \<Rightarrow> launched \<Rightarrow> supervisor \<Rightarrow> supervisor option" where
  "launch_end cfg rnd res s =
     (if pc s = AtLaunching
      then case res of
             Some p \<Rightarrow>
               let c = spawn (launches s) p; s1 = spawned_as c s
               in Some (if ctx_cancelled s then run_return (kill c s1) else s1\<lparr>pc := AtVerify c\<rparr>)
           | None \<Rightarrow>
               Some (if ctx_cancelled s then run_return s
                     else backoffOrQuarantine cfg rnd (attempts s + 1 \<ge> maxAttempts cfg) s)
      else None)"

definition verify :: "string \<Rightarrow> string \<Rightarrow> time \<Rightarrow> supervisor \<Rightarrow> supervisor option" where
  "verify expectType name now s =
     (case pc s of
        AtVerify c \<Rightarrow>
          (case verifyIdentity expectType name (c_info c) of
             Consistent \<Rightarrow> Some ((becomeReady now c s)\<lparr>pc := AtRegister c\<rparr>)
           | reason \<Rightarrow> Some (quarantineIdentity reason (kill c s)))
      | _ \<Rightarrow> None)"

definition register :: "bool \<Rightarrow> supervisor \<Rightarrow> supervisor option" where
  "register ok s = (case pc s of AtRegister c \<Rightarrow> Some ((registerReady ok s)\<lparr>pc := AtServe c\<rparr>) | _ \<Rightarrow> None)"

text \<open>The first half of \<^verbatim>\<open>teardown\<close>, up to its drain.\<close>

definition teardown_begin :: "conn \<Rightarrow> supervisor \<Rightarrow> supervisor" where
  "teardown_begin c s = (transition Draining (revert s))\<lparr>pc := AtTeardown c\<rparr>"

text \<open>The cases of the select in \<^verbatim>\<open>serve\<close>. The exit channel is closed when the watcher returns: when the process has
  exited, and also when its context, a child of the supervisor's, is cancelled.\<close>

definition serve_stop :: "supervisor \<Rightarrow> supervisor option" where
  "serve_stop s =
     (case pc s of AtServe c \<Rightarrow> if ctx_cancelled s then Some (teardown_begin c s) else None | _ \<Rightarrow> None)"

definition serve_exited :: "superConfig \<Rightarrow> (int \<Rightarrow> int) \<Rightarrow> bool \<Rightarrow> time \<Rightarrow> supervisor \<Rightarrow> supervisor option" where
  "serve_exited cfg rnd process_gone now s =
     (case pc s of
        AtServe c \<Rightarrow> if process_gone \<or> ctx_cancelled s then Some (afterCrash cfg rnd now c s) else None
      | _ \<Rightarrow> None)"

definition reload_begin :: "supervisor \<Rightarrow> supervisor option" where
  "reload_begin s =
     (case pc s of AtServe c \<Rightarrow> Some (s\<lparr>launches := launches s + 1, pc := AtReloading c\<rparr>) | _ \<Rightarrow> None)"

definition reload_end :: "launched \<Rightarrow> time \<Rightarrow> supervisor \<Rightarrow> supervisor option" where
  "reload_end res now s =
     (case pc s of
        AtReloading cur \<Rightarrow>
          (case res of
             Some p \<Rightarrow>
               let c = spawn (launches s) p; s1 = spawned_as c s
               in Some (if ctx_cancelled s then teardown_begin cur (kill c s1)
                        else (swapTo now c s1)\<lparr>pc := AtDrainOld cur c\<rparr>)
           | None \<Rightarrow> Some (if ctx_cancelled s then teardown_begin cur s else s\<lparr>pc := AtServe cur\<rparr>))
      | _ \<Rightarrow> None)"

text \<open>\<^verbatim>\<open>drainAndKill\<close> of the swapped-out instance, and the second half of \<^verbatim>\<open>teardown\<close>.\<close>

definition drain_old :: "supervisor \<Rightarrow> supervisor option" where
  "drain_old s = (case pc s of AtDrainOld old c \<Rightarrow> Some ((kill old s)\<lparr>pc := AtServe c\<rparr>) | _ \<Rightarrow> None)"

definition teardown_end :: "supervisor \<Rightarrow> supervisor option" where
  "teardown_end s =
     (case pc s of
        AtTeardown c \<Rightarrow>
          Some (run_return ((transition Stopped (kill c s))
            \<lparr>m_cur := None, curPID := 0, pidfile := (if c_pidfile c then False else pidfile s)\<rparr>))
      | _ \<Rightarrow> None)"

text \<open>\<^verbatim>\<open>realSleep\<close> returns at once for a delay that is not positive; otherwise the timer or the cancellation ends it.\<close>

definition wake_up :: "bool \<Rightarrow> supervisor \<Rightarrow> supervisor option" where
  "wake_up fired s =
     (case pc s of
        AtBackoff d \<Rightarrow>
          if fired \<or> d \<le> 0 then Some (s\<lparr>pc := AtLaunch\<rparr>)
          else if ctx_cancelled s then Some (run_return s) else None
      | _ \<Rightarrow> None)"

definition parkUntilReload :: "bool \<Rightarrow> supervisor \<Rightarrow> supervisor option" where
  "parkUntilReload reload s =
     (case pc s of
        AtPark \<Rightarrow>
          if reload then Some (s\<lparr>attempts := 0, pc := AtLaunch\<rparr>)
          else if ctx_cancelled s then Some (run_return s) else None
      | _ \<Rightarrow> None)"

datatype sup_event =
    Cancel
  | LaunchBegin
  | LaunchEnd launched
  | Verify time
  | RegisterReady bool
  | ServeStop
  | ServeExited bool time
  | ReloadBegin
  | ReloadEnd launched time
  | DrainOld
  | TeardownEnd
  | WakeUp bool
  | Park bool

text \<open>The manifest's type and name, the policy and the jitter are the parameters of a supervisor.\<close>

fun sup_step ::
  "string \<Rightarrow> string \<Rightarrow> superConfig \<Rightarrow> (int \<Rightarrow> int) \<Rightarrow> sup_event \<Rightarrow> supervisor \<Rightarrow> supervisor option" where
  "sup_step ty nm cfg rnd Cancel s = Some (s\<lparr>ctx_cancelled := True\<rparr>)"
| "sup_step ty nm cfg rnd LaunchBegin s = launch_begin s"
| "sup_step ty nm cfg rnd (LaunchEnd res) s = launch_end cfg rnd res s"
| "sup_step ty nm cfg rnd (Verify now) s = verify ty nm now s"
| "sup_step ty nm cfg rnd (RegisterReady ok) s = register ok s"
| "sup_step ty nm cfg rnd ServeStop s = serve_stop s"
| "sup_step ty nm cfg rnd (ServeExited gone now) s = serve_exited cfg rnd gone now s"
| "sup_step ty nm cfg rnd ReloadBegin s = reload_begin s"
| "sup_step ty nm cfg rnd (ReloadEnd res now) s = reload_end res now s"
| "sup_step ty nm cfg rnd DrainOld s = drain_old s"
| "sup_step ty nm cfg rnd TeardownEnd s = teardown_end s"
| "sup_step ty nm cfg rnd (WakeUp fired) s = wake_up fired s"
| "sup_step ty nm cfg rnd (Park reload) s = parkUntilReload reload s"

fun sup_runs ::
  "string \<Rightarrow> string \<Rightarrow> superConfig \<Rightarrow> (int \<Rightarrow> int) \<Rightarrow> sup_event list \<Rightarrow> supervisor \<Rightarrow> supervisor option" where
  "sup_runs ty nm cfg rnd [] s = Some s"
| "sup_runs ty nm cfg rnd (e # es) s =
     (case sup_step ty nm cfg rnd e s of None \<Rightarrow> None | Some s' \<Rightarrow> sup_runs ty nm cfg rnd es s')"

inductive sup_reachable :: "string \<Rightarrow> string \<Rightarrow> superConfig \<Rightarrow> (int \<Rightarrow> int) \<Rightarrow> supervisor \<Rightarrow> bool"
  for ty nm cfg rnd where
  start: "sup_reachable ty nm cfg rnd newSupervisor"
| step: "sup_reachable ty nm cfg rnd s \<Longrightarrow> sup_step ty nm cfg rnd e s = Some s' \<Longrightarrow> sup_reachable ty nm cfg rnd s'"


subsection \<open>The invariant\<close>

fun held :: "pc \<Rightarrow> conn list" where
  "held (AtVerify c) = [c]"
| "held (AtRegister c) = [c]"
| "held (AtServe c) = [c]"
| "held (AtReloading c) = [c]"
| "held (AtTeardown c) = [c]"
| "held (AtDrainOld old c) = [old, c]"
| "held _ = []"

text \<open>The lifecycle state and the published connection at every point of the actor.\<close>

fun pc_ok :: "pc \<Rightarrow> plugin_state \<Rightarrow> conn option \<Rightarrow> bool" where
  "pc_ok AtLaunch st cur \<longleftrightarrow> st \<in> {Discovered, Restarting, Failed} \<and> cur = None"
| "pc_ok AtLaunching st cur \<longleftrightarrow> st = Launching \<and> cur = None"
| "pc_ok (AtVerify c) st cur \<longleftrightarrow> st = Launching \<and> cur = None"
| "pc_ok (AtRegister c) st cur \<longleftrightarrow> st = Ready \<and> cur = Some c"
| "pc_ok (AtServe c) st cur \<longleftrightarrow> st = Ready \<and> cur = Some c"
| "pc_ok (AtReloading c) st cur \<longleftrightarrow> st = Ready \<and> cur = Some c"
| "pc_ok (AtDrainOld old c) st cur \<longleftrightarrow> st = Ready \<and> cur = Some c"
| "pc_ok (AtTeardown c) st cur \<longleftrightarrow> st = Draining \<and> cur = Some c"
| "pc_ok (AtBackoff d) st cur \<longleftrightarrow> st = Restarting \<and> cur = None"
| "pc_ok AtPark st cur \<longleftrightarrow> st = Failed \<and> cur = None"
| "pc_ok Returned_run st cur \<longleftrightarrow> st \<in> {Launching, Restarting, Failed, Stopped} \<and> cur = None"

definition state_ok :: "supervisor \<Rightarrow> bool" where
  "state_ok s \<longleftrightarrow> illegal s = 0 \<and> pc_ok (pc s) (m_state s) (m_cur s) \<and>
     (m_registered s \<longrightarrow> m_state s \<in> {Ready, Unhealthy, Restarting, Launching} \<and> pc s \<noteq> Returned_run)"

definition procs_ok :: "supervisor \<Rightarrow> bool" where
  "procs_ok s \<longleftrightarrow> mset (spawned s) = mset (killed s) + mset (map c_id (held (pc s))) \<and>
     distinct (spawned s) \<and> (\<forall>i \<in> set (spawned s). i \<le> launches s) \<and>
     ((pc s = AtLaunching \<or> (\<exists>c. pc s = AtReloading c)) \<longrightarrow> launches s \<notin> set (spawned s))"

definition attempts_ok :: "superConfig \<Rightarrow> supervisor \<Rightarrow> bool" where
  "attempts_ok cfg s \<longleftrightarrow> 0 \<le> attempts s \<and> attempts s \<le> maxAttempts cfg \<and>
     (pc s \<notin> {AtPark, Returned_run} \<longrightarrow> attempts s < maxAttempts cfg)"

lemmas sup_ops = transition_def machine_to_def kill_def becomeReady_def swapTo_def markUnhealthy_def quarantine_def
  revert_def registerReady_def run_return_def backoffOrQuarantine_def afterCrash_def quarantineIdentity_def
  spawn_def spawned_as_def teardown_begin_def Let_def

lemmas sup_steps = launch_begin_def launch_end_def verify_def register_def serve_stop_def serve_exited_def
  reload_begin_def reload_end_def drain_old_def teardown_end_def wake_up_def parkUntilReload_def

lemma state_ok_step:
  assumes "state_ok s" "sup_step ty nm cfg rnd e s = Some s'"
  shows "state_ok s'"
  using assms
  by (cases e; cases "pc s")
    (auto simp: state_ok_def sup_steps sup_ops split: if_splits option.splits identity_reason.splits)

lemma attempts_ok_step:
  assumes "attempts_ok cfg s" "0 < maxAttempts cfg" "sup_step ty nm cfg rnd e s = Some s'"
  shows "attempts_ok cfg s'"
  using assms
  by (cases e; cases "pc s")
    (auto simp: attempts_ok_def sup_steps sup_ops split: if_splits option.splits identity_reason.splits)

lemma proc_frame [simp]:
  "spawned (transition st s) = spawned s" "killed (transition st s) = killed s" "launches (transition st s) = launches s"
  "spawned (becomeReady now c s) = spawned s" "killed (becomeReady now c s) = killed s"
  "launches (becomeReady now c s) = launches s"
  "spawned (swapTo now c s) = spawned s" "killed (swapTo now c s) = killed s" "launches (swapTo now c s) = launches s"
  "spawned (markUnhealthy s) = spawned s" "killed (markUnhealthy s) = killed s" "launches (markUnhealthy s) = launches s"
  "spawned (quarantine s) = spawned s" "killed (quarantine s) = killed s" "launches (quarantine s) = launches s"
  "spawned (revert s) = spawned s" "killed (revert s) = killed s" "launches (revert s) = launches s"
  "spawned (registerReady ok s) = spawned s" "killed (registerReady ok s) = killed s"
  "launches (registerReady ok s) = launches s"
  by (simp_all add: transition_def becomeReady_def swapTo_def markUnhealthy_def quarantine_def revert_def
      registerReady_def Let_def split: option.split)

definition procs :: "supervisor \<Rightarrow> nat list \<times> nat list \<times> nat" where
  "procs s = (spawned s, killed s, launches s)"

lemma procs_backoff [simp]:
  "procs (backoffOrQuarantine cfg rnd b s) = procs s" "held (pc (backoffOrQuarantine cfg rnd b s)) = []"
  "pc (backoffOrQuarantine cfg rnd b s) \<noteq> AtLaunching" "pc (backoffOrQuarantine cfg rnd b s) \<noteq> AtReloading c"
  by (auto simp: backoffOrQuarantine_def procs_def Let_def)

lemma procs_ok_cong:
  assumes "procs_ok s" "procs s' = procs s" "held (pc s') = held (pc s)"
    "pc s' \<notin> insert AtLaunching (range AtReloading)"
  shows "procs_ok s'"
  using assms by (auto simp: procs_ok_def procs_def)

text \<open>One of the held processes is killed.\<close>

lemma procs_ok_kill:
  assumes "procs_ok s" "procs s' = (spawned s, killed s @ [c_id c], launches s)" "mset (held (pc s)) = add_mset c (mset (held (pc s')))"
    "pc s' \<notin> insert AtLaunching (range AtReloading)"
  shows "procs_ok s'"
  using assms by (auto simp: procs_ok_def procs_def mset_map)

text \<open>A launch returned a process.\<close>

lemma procs_ok_spawn:
  assumes "procs_ok s" "pc s = AtLaunching \<or> (\<exists>c. pc s = AtReloading c)" "c_id c = launches s"
    "procs s' = (spawned s @ [c_id c], killed s @ map c_id ks, launches s)"
    "mset ks + mset (held (pc s')) = add_mset c (mset (held (pc s)))"
    "pc s' \<notin> insert AtLaunching (range AtReloading)"
  shows "procs_ok s'"
proof -
  have "image_mset c_id (mset ks) + image_mset c_id (mset (held (pc s'))) = add_mset (c_id c) (image_mset c_id (mset (held (pc s))))"
    using arg_cong [OF assms(5), of "image_mset c_id"] by simp
  then show ?thesis using assms by (auto simp: procs_ok_def procs_def mset_map ac_simps)
qed

lemma procs_ok_launch_end:
  assumes ok: "procs_ok s" and run: "launch_end cfg rnd res s = Some s'"
  shows "procs_ok s'"
proof -
  have p: "pc s = AtLaunching" using run by (simp add: launch_end_def split: if_splits)
  show ?thesis
  proof (cases res)
    case None
    then show ?thesis
      using run p by (intro procs_ok_cong [OF ok]) (auto simp: launch_end_def run_return_def procs_def backoffOrQuarantine_def Let_def split: if_splits)
  next
    case (Some q)
    show ?thesis
      by (rule procs_ok_spawn [OF ok, of "spawn (launches s) q" _ "if ctx_cancelled s then [spawn (launches s) q] else []"])
        (use run p Some in \<open>auto simp: launch_end_def run_return_def kill_def spawned_as_def spawn_def procs_def Let_def
          split: if_splits prod.splits\<close>)
  qed
qed

lemma procs_ok_reload_end:
  assumes ok: "procs_ok s" and run: "reload_end res now s = Some s'"
  shows "procs_ok s'"
proof -
  obtain cur where p: "pc s = AtReloading cur" using run by (auto simp: reload_end_def split: pc.splits)
  show ?thesis
  proof (cases res)
    case None
    then show ?thesis
      using run p by (intro procs_ok_cong [OF ok]) (auto simp: reload_end_def teardown_begin_def procs_def split: if_splits)
  next
    case (Some q)
    show ?thesis
      by (rule procs_ok_spawn [OF ok, of "spawn (launches s) q" _ "if ctx_cancelled s then [spawn (launches s) q] else []"])
        (use run p Some in \<open>auto simp: reload_end_def teardown_begin_def kill_def spawned_as_def spawn_def procs_def Let_def
          split: if_splits prod.splits\<close>)
  qed
qed

lemma fresh_launch: "procs_ok s \<Longrightarrow> Suc (launches s) \<notin> set (spawned s) \<and> (\<forall>i \<in> set (spawned s). i \<le> Suc (launches s))"
  by (auto simp: procs_ok_def)

lemma procs_ok_step:
  assumes ok: "procs_ok s" and run: "sup_step ty nm cfg rnd e s = Some s'"
  shows "procs_ok s'"
proof (cases e)
  case Cancel
  then show ?thesis using ok run by (auto simp: procs_ok_def)
next
  case LaunchBegin
  then show ?thesis
    using ok run fresh_launch [OF ok] by (auto simp: launch_begin_def procs_ok_def split: if_splits)
next
  case (LaunchEnd res)
  then show ?thesis using procs_ok_launch_end [OF ok] run by simp
next
  case (Verify now)
  then obtain c where p: "pc s = AtVerify c" using run by (auto simp: verify_def split: pc.splits)
  show ?thesis
  proof (cases "verifyIdentity ty nm (c_info c) = Consistent")
    case True
    then show ?thesis
      using run Verify p by (intro procs_ok_cong [OF ok]) (auto simp: verify_def procs_def)
  next
    case False
    then have "s' = quarantineIdentity (verifyIdentity ty nm (c_info c)) (kill c s)"
      using run Verify p by (auto simp: verify_def split: identity_reason.splits)
    then show ?thesis
      using p by (intro procs_ok_kill [OF ok, of _ c]) (auto simp: quarantineIdentity_def kill_def procs_def)
  qed
next
  case (RegisterReady b)
  then show ?thesis
    using run by (intro procs_ok_cong [OF ok]) (auto simp: register_def procs_def split: pc.splits)
next
  case ServeStop
  then show ?thesis
    using run by (intro procs_ok_cong [OF ok])
      (auto simp: serve_stop_def teardown_begin_def procs_def split: pc.splits if_splits)
next
  case (ServeExited gone now)
  then obtain c where p: "pc s = AtServe c" "s' = afterCrash cfg rnd now c s"
    using run by (auto simp: serve_exited_def split: pc.splits if_splits)
  have "procs s' = (spawned s, killed s @ [c_id c], launches s)" "held (pc s') = []"
    "pc s' \<notin> insert AtLaunching (range AtReloading)"
    unfolding p(2) afterCrash_def Let_def procs_backoff by (auto simp: procs_def kill_def)
  then show ?thesis using p(1) by (intro procs_ok_kill [OF ok]) auto
next
  case ReloadBegin
  then show ?thesis
    using ok run fresh_launch [OF ok] by (auto simp: reload_begin_def procs_ok_def split: pc.splits)
next
  case (ReloadEnd res now)
  then show ?thesis using procs_ok_reload_end [OF ok] run by simp
next
  case DrainOld
  then obtain old c where p: "pc s = AtDrainOld old c" "s' = (kill old s)\<lparr>pc := AtServe c\<rparr>"
    using run by (auto simp: drain_old_def split: pc.splits)
  then show ?thesis by (intro procs_ok_kill [OF ok, of _ old]) (auto simp: kill_def procs_def)
next
  case TeardownEnd
  then obtain c where p: "pc s = AtTeardown c" using run by (auto simp: teardown_end_def split: pc.splits)
  then show ?thesis
    using run TeardownEnd by (intro procs_ok_kill [OF ok, of _ c])
      (auto simp: teardown_end_def run_return_def kill_def procs_def)
next
  case (WakeUp fired)
  then show ?thesis
    using run by (intro procs_ok_cong [OF ok])
      (auto simp: wake_up_def run_return_def procs_def split: pc.splits if_splits)
next
  case (Park reload)
  then show ?thesis
    using run by (intro procs_ok_cong [OF ok])
      (auto simp: parkUntilReload_def run_return_def procs_def split: pc.splits if_splits)
qed

lemma sup_reachable_ok:
  assumes "0 < maxAttempts cfg"
  shows "sup_reachable ty nm cfg rnd s \<Longrightarrow> state_ok s \<and> attempts_ok cfg s \<and> procs_ok s"
proof (induction rule: sup_reachable.induct)
  case start
  then show ?case using assms by (simp add: newSupervisor_def state_ok_def attempts_ok_def procs_ok_def)
next
  case (step s e s')
  then show ?case using state_ok_step attempts_ok_step [OF _ assms] procs_ok_step by blast
qed

lemma sup_runs_reachable:
  "sup_runs ty nm cfg rnd es s = Some s' \<Longrightarrow> sup_reachable ty nm cfg rnd s \<Longrightarrow> sup_reachable ty nm cfg rnd s'"
  by (induction es arbitrary: s) (auto split: option.splits intro: sup_reachable.step)


subsection \<open>What the supervisor promises\<close>

text \<open>C17. The safety of one plugin's lifecycle, in every state the actor can reach whatever its process, its operator and
  the clock do: no illegal state transition is ever attempted; a call is routed only to a process that was launched and
  not killed; a connection is published only while the plugin is ready or draining; the provider is in its registry only
  while the plugin is ready or recovering; at most two processes are alive; and when the actor has returned the provider
  is gone, nothing is published and every process it launched was killed.\<close>

theorem supervisor_safe:
  assumes "sup_reachable ty nm cfg rnd s" "0 < maxAttempts cfg"
  shows "illegal s = 0 \<and>
    (dispatch_gate s = Some c \<longrightarrow> c_id c \<in> set (spawned s) \<and> c_id c \<notin> set (killed s)) \<and>
    (m_cur s \<noteq> None \<longrightarrow> m_state s \<in> {Ready, Draining}) \<and>
    (m_registered s \<longrightarrow> m_state s \<notin> {Discovered, Failed, Draining, Stopped}) \<and>
    length (spawned s) \<le> length (killed s) + 2 \<and>
    (pc s = Returned_run \<longrightarrow> \<not> m_registered s \<and> m_cur s = None \<and> mset (killed s) = mset (spawned s))"
proof -
  have ok: "state_ok s" "procs_ok s" using sup_reachable_ok [OF assms(2,1)] by simp_all
  have cur: "m_cur s = Some c \<Longrightarrow> c \<in> set (held (pc s))"
    and st: "m_cur s \<noteq> None \<longrightarrow> m_state s \<in> {Ready, Draining}"
    using ok(1) by (cases "pc s"; auto simp: state_ok_def)+
  have m: "mset (spawned s) = mset (killed s) + image_mset c_id (mset (held (pc s)))" and d: "distinct (spawned s)"
    using ok(2) by (simp_all add: procs_ok_def mset_map)
  have e: "mset (spawned s) = mset (killed s @ map c_id (held (pc s)))" using m by simp
  have "distinct (killed s @ map c_id (held (pc s)))" using d mset_eq_imp_distinct_iff [OF e] by simp
  moreover have "set (spawned s) = set (killed s @ map c_id (held (pc s)))" by (rule mset_eq_setD [OF e])
  ultimately have "c_id c \<in> set (spawned s) \<and> c_id c \<notin> set (killed s)" if "m_cur s = Some c"
    using cur [OF that] by auto
  moreover have "length (held (pc s)) \<le> 2" by (cases "pc s") simp_all
  moreover have "length (spawned s) = length (killed s) + length (held (pc s))"
    using arg_cong [OF m, of size] by simp
  ultimately show ?thesis
    using ok st m by (auto simp: state_ok_def dispatch_gate_def split: if_splits)
qed

text \<open>One round of a crash loop: a launch that fails, or a process that serves from \<open>t1\<close> and dies at \<open>t2\<close>.\<close>

datatype round = LaunchFails | Serves "int \<times> info_answer \<times> bool" time bool time

fun round_events :: "round \<Rightarrow> sup_event list" where
  "round_events LaunchFails = [LaunchBegin, LaunchEnd None]"
| "round_events (Serves p t1 ok t2) = [LaunchBegin, LaunchEnd (Some p), Verify t1, RegisterReady ok, ServeExited True t2]"

text \<open>The process passes the identity check and dies before it has been up for the stability window.\<close>

fun short_round :: "string \<Rightarrow> string \<Rightarrow> superConfig \<Rightarrow> round \<Rightarrow> bool" where
  "short_round ty nm cfg LaunchFails = True"
| "short_round ty nm cfg (Serves p t1 ok t2) \<longleftrightarrow>
     verifyIdentity ty nm (fst (snd p)) = Consistent \<and> t2 - t1 < healthStable cfg"

fun loop_events :: "round list \<Rightarrow> sup_event list" where
  "loop_events [] = []"
| "loop_events [r] = round_events r"
| "loop_events (r # rs) = round_events r @ WakeUp True # loop_events rs"

lemma sup_runs_append:
  "sup_runs ty nm cfg rnd (es @ fs) s =
     (case sup_runs ty nm cfg rnd es s of None \<Rightarrow> None | Some s' \<Rightarrow> sup_runs ty nm cfg rnd fs s')"
  by (induction es arbitrary: s) (auto split: option.split)

definition may_launch :: "int \<Rightarrow> nat \<Rightarrow> supervisor \<Rightarrow> bool" where
  "may_launch k n s \<longleftrightarrow> pc s = AtLaunch \<and> m_state s \<in> {Discovered, Restarting, Failed} \<and> \<not> ctx_cancelled s \<and>
     attempts s = k \<and> launches s = n"

definition failed_round :: "superConfig \<Rightarrow> int \<Rightarrow> nat \<Rightarrow> supervisor \<Rightarrow> bool" where
  "failed_round cfg k n s \<longleftrightarrow> attempts s = k + 1 \<and> launches s = Suc n \<and> \<not> ctx_cancelled s \<and>
    (if k + 1 \<ge> maxAttempts cfg then pc s = AtPark \<and> m_state s = Failed \<and> \<not> m_registered s \<and> m_cur s = None
     else (\<exists>d. pc s = AtBackoff d) \<and> m_state s = Restarting)"

lemma backoffOrQuarantine_failed_round:
  assumes "m_state s \<in> {Launching, Unhealthy}" "attempts s = k" "launches s = Suc n" "\<not> ctx_cancelled s"
  shows "failed_round cfg k n (backoffOrQuarantine cfg rnd (k + 1 \<ge> maxAttempts cfg) s)"
  using assms by (auto simp: failed_round_def backoffOrQuarantine_def quarantine_def transition_def machine_to_def revert_def Let_def)

lemma afterCrash_failed_round:
  assumes "m_state s = Ready" "attempts s = k" "launches s = Suc n" "\<not> ctx_cancelled s" "now - readySince s < healthStable cfg"
  shows "failed_round cfg k n (afterCrash cfg rnd now c s)"
proof -
  define s3 where "s3 = (markUnhealthy (kill c s))\<lparr>readySince := zero_time, curPID := 0\<rparr>"
  have s3: "m_state s3 = Unhealthy" "attempts s3 = k" "launches s3 = Suc n" "\<not> ctx_cancelled s3"
    using assms by (simp_all add: s3_def markUnhealthy_def kill_def transition_def machine_to_def)
  have "readySince (markUnhealthy (kill c s)) = readySince s"
    using assms(1) by (simp add: markUnhealthy_def kill_def transition_def machine_to_def)
  then have "afterCrash cfg rnd now c s = backoffOrQuarantine cfg rnd (k + 1 \<ge> maxAttempts cfg) s3"
    using assms(5) s3(2) by (simp add: afterCrash_def Let_def s3_def)
  then show ?thesis using backoffOrQuarantine_failed_round [of s3 k n cfg rnd] s3 by simp
qed

lemma short_round_fails:
  assumes "may_launch k n s" "short_round ty nm cfg r"
  shows "\<exists>s'. sup_runs ty nm cfg rnd (round_events r) s = Some s' \<and> failed_round cfg k n s'"
proof -
  define s1 where "s1 = s\<lparr>m_state := Launching, launches := Suc n, pc := AtLaunching\<rparr>"
  have 1: "launch_begin s = Some s1"
    using assms(1) by (auto simp: launch_begin_def may_launch_def transition_def machine_to_def s1_def)
  have s1: "pc s1 = AtLaunching" "m_state s1 = Launching" "attempts s1 = k" "launches s1 = Suc n" "\<not> ctx_cancelled s1"
    using assms(1) by (simp_all add: s1_def may_launch_def)
  show ?thesis
  proof (cases r)
    case LaunchFails
    then show ?thesis
      using 1 s1 backoffOrQuarantine_failed_round [of s1 k n cfg rnd] by (simp add: launch_end_def)
  next
    case (Serves p t1 ok t2)
    define c where "c = spawn (Suc n) p"
    have info: "c_info c = fst (snd p)" by (simp add: c_def spawn_def split: prod.split)
    define s2 where "s2 = (spawned_as c s1)\<lparr>pc := AtVerify c\<rparr>"
    define s4 where "s4 = (registerReady ok ((becomeReady t1 c s2)\<lparr>pc := AtRegister c\<rparr>))\<lparr>pc := AtServe c\<rparr>"
    have 2: "launch_end cfg rnd (Some p) s1 = Some s2"
      using s1 by (simp add: launch_end_def c_def s2_def Let_def)
    have 3: "verify ty nm t1 s2 = Some ((becomeReady t1 c s2)\<lparr>pc := AtRegister c\<rparr>)"
      using assms(2) Serves info by (simp add: verify_def s2_def)
    have 4: "register ok ((becomeReady t1 c s2)\<lparr>pc := AtRegister c\<rparr>) = Some s4" by (simp add: register_def s4_def)
    have 5: "serve_exited cfg rnd True t2 s4 = Some (afterCrash cfg rnd t2 c s4)" by (simp add: serve_exited_def s4_def)
    have "m_state s4 = Ready" "attempts s4 = k" "launches s4 = Suc n" "\<not> ctx_cancelled s4" "readySince s4 = t1"
      using s1 by (simp_all add: s4_def s2_def registerReady_def becomeReady_def transition_def machine_to_def spawned_as_def)
    then show ?thesis
      using 1 2 3 4 5 Serves assms(2) afterCrash_failed_round [of s4 k n t2 cfg rnd c] by simp
  qed
qed

text \<open>C40. A crash loop ends in quarantine, after exactly the configured number of launches: whatever mixture of failed
  launches and of processes that come up and die within the stability window, the plugin is parked in \<open>failed\<close> with its
  provider removed and nothing published.\<close>

theorem crash_loop_quarantines:
  assumes "0 < maxAttempts cfg" "list_all (short_round ty nm cfg) rs" "length rs = nat (maxAttempts cfg)"
  shows "\<exists>s. sup_runs ty nm cfg rnd (loop_events rs) newSupervisor = Some s \<and> pc s = AtPark \<and> m_state s = Failed \<and>
    launches s = length rs \<and> \<not> m_registered s \<and> dispatch_gate s = None"
proof -
  have "\<exists>s'. sup_runs ty nm cfg rnd (loop_events rs) s = Some s' \<and> pc s' = AtPark \<and> m_state s' = Failed \<and>
      launches s' = n + length rs \<and> \<not> m_registered s' \<and> m_cur s' = None"
    if "may_launch k n s" "rs \<noteq> []" "k + int (length rs) = maxAttempts cfg" "list_all (short_round ty nm cfg) rs"
    for k n s and rs :: "round list"
    using that
  proof (induction rs arbitrary: k n s rule: loop_events.induct)
    case (2 r)
    then show ?case using short_round_fails [OF 2(1), of ty nm cfg r rnd] by (auto simp: failed_round_def)
  next
    case (3 r r2 rs)
    obtain s1 where s1: "sup_runs ty nm cfg rnd (round_events r) s = Some s1" "attempts s1 = k + 1" "launches s1 = Suc n"
        "\<not> ctx_cancelled s1" "\<exists>d. pc s1 = AtBackoff d" "m_state s1 = Restarting"
      using short_round_fails [OF 3(2), of ty nm cfg r rnd] 3(4,5) by (auto simp: failed_round_def)
    then have "may_launch (k + 1) (Suc n) (s1\<lparr>pc := AtLaunch\<rparr>)" by (simp add: may_launch_def)
    from 3(1) [OF this] 3(4,5) s1 show ?case by (auto simp: sup_runs_append wake_up_def)
  qed simp
  from this [of 0 0 newSupervisor rs] show ?thesis
    using assms by (force simp: may_launch_def newSupervisor_def dispatch_gate_def)
qed

text \<open>A quarantine never clears itself: from the park only an operator's reload leads anywhere but out, and the
  attempt counter starts again from zero there.\<close>

theorem quarantine_sticks:
  assumes "pc s = AtPark" "m_state s = Failed" "sup_step ty nm cfg rnd e s = Some s'"
  shows "(e = Park True \<and> pc s' = AtLaunch \<and> attempts s' = 0) \<or>
    (m_state s' = Failed \<and> launches s' = launches s \<and> pc s' \<in> {AtPark, Returned_run})"
  using assms by (cases e) (auto simp: sup_steps sup_ops split: if_splits)


subsection \<open>Runs\<close>

definition sup_cfg :: superConfig where
  "sup_cfg = superConfig_defaults
     \<lparr>maxAttempts = 2, baseBackoff = 0, maxBackoff = 0, healthStable = 0, drainTimeout = 0\<rparr>"

definition scoring_process :: "int \<times> info_answer \<times> bool" where
  "scoring_process = (41, InfoResponse \<lparr>ir_type = 2, ir_name = ''decay'', ir_abi = ''1.2''\<rparr>, True)"

text \<open>A binary of another type, put in place of the first.\<close>

definition auth_process :: "int \<times> info_answer \<times> bool" where
  "auth_process = (42, InfoResponse \<lparr>ir_type = 1, ir_name = ''decay'', ir_abi = ''1.2''\<rparr>, True)"

abbreviation sup_demo :: "sup_event list \<Rightarrow> supervisor option" where
  "sup_demo es \<equiv> sup_runs ''scoring'' ''decay'' sup_cfg (\<lambda>n. n - 1) es newSupervisor"

definition boot_events :: "sup_event list" where
  "boot_events = [LaunchBegin, LaunchEnd (Some scoring_process), Verify 0, RegisterReady True]"

theorem supervisor_safe_witness:
  "\<exists>s. sup_demo boot_events = Some s \<and> dispatch_gate s = Some (spawn 1 scoring_process) \<and>
     c_id (spawn 1 scoring_process) \<notin> set (killed s)"
proof -
  have "\<exists>s. sup_demo boot_events = Some s \<and> dispatch_gate s = Some (spawn 1 scoring_process)"
    by (rule ex_Some_case) code_simp
  then obtain s where s: "sup_demo boot_events = Some s" "dispatch_gate s = Some (spawn 1 scoring_process)" by blast
  have "sup_reachable ''scoring'' ''decay'' sup_cfg (\<lambda>n. n - 1) s"
    by (rule sup_runs_reachable [OF s(1) sup_reachable.start])
  moreover have "0 < maxAttempts sup_cfg" by (simp add: sup_cfg_def superConfig_defaults_def)
  ultimately show ?thesis using supervisor_safe [of "''scoring''" "''decay''" sup_cfg _ s] s by blast
qed

theorem crash_loop_quarantines_witness:
  "\<exists>s. sup_demo (loop_events [LaunchFails, Serves scoring_process 5 True 7]) = Some s \<and> m_state s = Failed \<and> launches s = 2"
proof -
  have "0 < maxAttempts sup_cfg" "length [LaunchFails, Serves scoring_process 5 True 7] = nat (maxAttempts sup_cfg)"
    by (simp_all add: sup_cfg_def superConfig_defaults_def)
  moreover have "list_all (short_round ''scoring'' ''decay'' sup_cfg) [LaunchFails, Serves scoring_process 5 True 7]"
    by code_simp
  ultimately show ?thesis
    using crash_loop_quarantines [of sup_cfg "''scoring''" "''decay''" "[LaunchFails, Serves scoring_process 5 True 7]"] by force
qed

definition parked :: supervisor where
  "parked = newSupervisor\<lparr>pc := AtPark, m_state := Failed\<rparr>"

theorem quarantine_sticks_witness:
  "m_state (parked\<lparr>ctx_cancelled := True\<rparr>) = Failed"
proof -
  have "pc parked = AtPark" "m_state parked = Failed"
    "sup_step ''scoring'' ''decay'' sup_cfg (\<lambda>n. n - 1) Cancel parked = Some (parked\<lparr>ctx_cancelled := True\<rparr>)"
    by (simp_all add: parked_def)
  from quarantine_sticks [OF this] show ?thesis by simp
qed

text \<open>A hot reload does not check the identity of the new binary: a process that reports another plugin type than
  the manifest's is swapped in and served, although the same process would be quarantined on a relaunch.\<close>

theorem reload_skips_identity:
  "\<exists>s c. sup_demo (boot_events @ [ReloadBegin, ReloadEnd (Some auth_process) 9, DrainOld]) = Some s \<and>
     dispatch_gate s = Some c \<and> verifyIdentity ''scoring'' ''decay'' (c_info c) = WrongType ''auth''"
proof -
  have "\<exists>s. sup_demo (boot_events @ [ReloadBegin, ReloadEnd (Some auth_process) 9, DrainOld]) = Some s \<and>
      dispatch_gate s = Some (spawn 2 auth_process) \<and>
      verifyIdentity ''scoring'' ''decay'' (c_info (spawn 2 auth_process)) = WrongType ''auth''"
    by (rule ex_Some_case) code_simp
  then show ?thesis by blast
qed

text \<open>A clean stop can be taken for a crash: the watcher's context is a child of the supervisor's, so a cancellation
  also closes the exit channel, and when the select takes that case the live process is killed without a drain, the
  plugin ends in \<open>restarting\<close> instead of \<open>stopped\<close> and its pidfile stays.\<close>

theorem stop_taken_for_crash:
  "\<exists>s. sup_demo (boot_events @ [Cancel, ServeExited False 9, WakeUp False]) = Some s \<and>
     pc s = Returned_run \<and> m_state s = Restarting \<and> pidfile s \<and> attempts s = 1"
  by (rule ex_Some_case) code_simp

text \<open>The reason of an identity quarantine outlives it: after the operator replaced the binary and reloaded, the
  plugin serves and is still shown with the reason and the load-failed gauge.\<close>

theorem recovered_keeps_reason:
  "\<exists>s. sup_demo ([LaunchBegin, LaunchEnd (Some auth_process), Verify 0, Park True] @ boot_events) = Some s \<and>
     m_state s = Ready \<and> m_reason s = WrongType ''auth'' \<and> load_failed s"
  by (rule ex_Some_case) code_simp

end
