(* ===== verification/Encodings.thy ===== *)
theory Encodings
  imports Go_Strings
begin

text \<open>
  The binary-to-text encodings of \<^verbatim>\<open>encoding/hex\<close>, \<^verbatim>\<open>encoding/base32\<close> and \<^verbatim>\<open>encoding/base64\<close> that tokens, sessions,
  flags and password hashes are written in: the bits of the bytes, most significant first, in groups of \<open>k\<close>, the
  last group filled with zeros, each group a character of the alphabet. No padding characters are written (the
  source uses the unpadded variants). The decoder ignores line breaks, refuses other foreign characters and a
  length no encoding has, and drops the bits that fill the last group. Decoding an encoding gives the bytes back,
  so encoding is injective.
\<close>

subsection \<open>Bits\<close>

fun val_bits :: "nat \<Rightarrow> nat \<Rightarrow> bool list" where
  "val_bits 0 n = []"
| "val_bits (Suc k) n = val_bits k (n div 2) @ [odd n]"

definition bits_val :: "bool list \<Rightarrow> nat" where
  "bits_val bs = foldl (\<lambda>n b. 2 * n + of_bool b) 0 bs"

fun chunks :: "nat \<Rightarrow> 'a list \<Rightarrow> 'a list list" where
  "chunks 0 xs = []"
| "chunks (Suc k) [] = []"
| "chunks (Suc k) (x # xs) = (x # take k xs) # chunks (Suc k) (drop k xs)"

definition byte_bits :: "string \<Rightarrow> bool list" where
  "byte_bits s = concat (map (\<lambda>c. val_bits 8 (of_char c)) s)"

definition fill :: "nat \<Rightarrow> bool list \<Rightarrow> bool list" where
  "fill k bs = bs @ replicate (k - length bs) False"

subsection \<open>The encodings\<close>

definition encode_with :: "nat \<Rightarrow> string \<Rightarrow> string \<Rightarrow> string" where
  "encode_with k alphabet s = map (\<lambda>g. alphabet ! bits_val (fill k g)) (chunks k (byte_bits s))"

definition index_of :: "string \<Rightarrow> char \<Rightarrow> nat" where
  "index_of alphabet c = length (takeWhile (\<lambda>x. x \<noteq> c) alphabet)"

definition decode_with :: "nat \<Rightarrow> string \<Rightarrow> string \<Rightarrow> string option" where
  "decode_with k alphabet s =
     (let t = filter (\<lambda>c. c \<noteq> CHR 0x0A \<and> c \<noteq> CHR 0x0D) s;
          bits = concat (map (\<lambda>c. val_bits k (index_of alphabet c)) t);
          n = length bits div 8
      in if list_all (\<lambda>c. c \<in> set alphabet) t \<and> length bits mod 8 < k
         then Some (map (\<lambda>g. char_of (bits_val g)) (chunks 8 (take (8 * n) bits))) else None)"

definition upper_letters :: string where "upper_letters = ''ABCDEFGHIJKLMNOPQRSTUVWXYZ''"
definition lower_letters :: string where "lower_letters = ''abcdefghijklmnopqrstuvwxyz''"

definition hex_alphabet :: string where "hex_alphabet = ''0123456789abcdef''"
definition base32_alphabet :: string where "base32_alphabet = upper_letters @ ''234567''"
definition base64_alphabet :: string where "base64_alphabet = upper_letters @ lower_letters @ ''0123456789+/''"
definition base64url_alphabet :: string where
  "base64url_alphabet = upper_letters @ lower_letters @ ''0123456789-_''"

definition hex_EncodeToString :: "string \<Rightarrow> string" where
  "hex_EncodeToString = encode_with 4 hex_alphabet"
definition base32_EncodeToString :: "string \<Rightarrow> string" where
  "base32_EncodeToString = encode_with 5 base32_alphabet"
definition base64_EncodeToString :: "string \<Rightarrow> string" where
  "base64_EncodeToString = encode_with 6 base64_alphabet"
definition base64url_EncodeToString :: "string \<Rightarrow> string" where
  "base64url_EncodeToString = encode_with 6 base64url_alphabet"
definition base64_DecodeString :: "string \<Rightarrow> string option" where
  "base64_DecodeString = decode_with 6 base64_alphabet"

subsection \<open>Facts\<close>

lemma length_val_bits [simp]: "length (val_bits k n) = k"
  by (induction k arbitrary: n) auto

lemma bits_val_Nil [simp]: "bits_val [] = 0"
  by (simp add: bits_val_def)

lemma bits_val_snoc [simp]: "bits_val (bs @ [b]) = 2 * bits_val bs + of_bool b"
  by (simp add: bits_val_def)

lemma bits_val_val_bits: "n < 2 ^ k \<Longrightarrow> bits_val (val_bits k n) = n"
proof (induction k arbitrary: n)
  case (Suc k)
  then have "n div 2 < 2 ^ k" by (simp add: less_mult_imp_div_less mult.commute)
  with Suc.IH show ?case by (simp add: mod_2_eq_odd [symmetric])
qed simp

lemma val_bits_bits_val: "val_bits (length bs) (bits_val bs) = bs"
  by (induction bs rule: rev_induct) auto

lemma bits_val_less: "bits_val bs < 2 ^ length bs"
  by (induction bs rule: rev_induct) auto

lemma length_byte_bits [simp]: "length (byte_bits s) = 8 * length s"
  by (induction s) (auto simp: byte_bits_def)

lemma length_fill [simp]: "length g \<le> k \<Longrightarrow> length (fill k g) = k"
  by (simp add: fill_def)

lemma chunks_unfold:
  "0 < k \<Longrightarrow> chunks k xs = (if xs = [] then [] else take k xs # chunks k (drop k xs))"
  by (cases k; cases xs) auto

lemma chunks_concat:
  assumes "0 < k" "list_all (\<lambda>g. length g = k) gs"
  shows "chunks k (concat gs) = gs"
  using assms(2)
proof (induction gs)
  case Nil
  with \<open>0 < k\<close> show ?case by (simp add: chunks_unfold)
next
  case (Cons g gs)
  with \<open>0 < k\<close> have "g @ concat gs \<noteq> []" by auto
  with Cons \<open>0 < k\<close> show ?case by (subst chunks_unfold) auto
qed

lemma chunks_fill:
  assumes "0 < k"
  shows "\<exists>m < k. concat (map (fill k) (chunks k xs)) = xs @ replicate m False"
proof (induction "length xs" arbitrary: xs rule: less_induct)
  case less
  show ?case
  proof (cases "length xs < k")
    case True
    show ?thesis
    proof (cases "xs = []")
      case False
      with True assms have "chunks k xs = [xs]" by (simp add: chunks_unfold)
      with False True show ?thesis by (auto simp: fill_def intro!: exI [of _ "k - length xs"])
    qed (use assms in \<open>auto simp: chunks_unfold\<close>)
  next
    case False
    with assms have "length (drop k xs) < length xs" "xs \<noteq> []" by auto
    with less.hyps obtain m where "m < k"
      "concat (map (fill k) (chunks k (drop k xs))) = drop k xs @ replicate m False" by blast
    with assms False \<open>xs \<noteq> []\<close> show ?thesis
      by (subst chunks_unfold) (auto simp: fill_def append_assoc [symmetric] simp del: append_assoc)
  qed
qed

lemma chunks_lengths: "0 < k \<Longrightarrow> g \<in> set (chunks k xs) \<Longrightarrow> length g \<le> k"
  by (induction k xs rule: chunks.induct) auto

lemma index_of_nth: "distinct al \<Longrightarrow> i < length al \<Longrightarrow> index_of al (al ! i) = i"
  unfolding index_of_def
  by (subst takeWhile_eq_take_P_nth [of i]) (auto simp: nth_eq_iff_index_eq)

text \<open>An alphabet fits when it has \<open>2 ^ k\<close> different characters and no line break.\<close>

definition alphabet_ok :: "nat \<Rightarrow> string \<Rightarrow> bool" where
  "alphabet_ok k al \<longleftrightarrow> distinct al \<and> length al = 2 ^ k \<and> CHR 0x0A \<notin> set al \<and> CHR 0x0D \<notin> set al"

lemma alphabets_ok:
  "alphabet_ok 4 hex_alphabet" "alphabet_ok 5 base32_alphabet" "alphabet_ok 6 base64_alphabet"
  "alphabet_ok 6 base64url_alphabet"
  by code_simp+

lemma encode_chars:
  assumes "alphabet_ok k al" "0 < k"
  shows "set (encode_with k al s) \<subseteq> set al"
proof -
  have "bits_val (fill k g) < length al" if "g \<in> set (chunks k (byte_bits s))" for g
    using bits_val_less [of "fill k g"] chunks_lengths [OF assms(2) that] assms(1)
    by (simp add: alphabet_ok_def)
  then show ?thesis by (auto simp: encode_with_def)
qed

lemma length_encode_with:
  assumes "0 < k"
  shows "k * length (encode_with k al s) < 8 * length s + k \<and> 8 * length s \<le> k * length (encode_with k al s)"
proof -
  obtain m where "m < k" "concat (map (fill k) (chunks k (byte_bits s))) = byte_bits s @ replicate m False"
    using chunks_fill [OF assms] by blast
  then have "length (concat (map (fill k) (chunks k (byte_bits s)))) = 8 * length s + m" by simp
  moreover have "length (concat (map (fill k) gs)) = k * length gs" if "\<forall>g \<in> set gs. length g \<le> k" for gs
    using that by (induction gs) auto
  ultimately have "k * length (chunks k (byte_bits s)) = 8 * length s + m"
    using chunks_lengths [OF assms] by metis
  with \<open>m < k\<close> show ?thesis by (simp add: encode_with_def)
qed

lemma decode_encode:
  assumes ok: "alphabet_ok k al" and k: "0 < k" "k \<le> 8"
  shows "decode_with k al (encode_with k al s) = Some s"
proof -
  let ?e = "encode_with k al s" and ?g = "chunks k (byte_bits s)"
  have keep: "filter (\<lambda>c. c \<noteq> CHR 0x0A \<and> c \<noteq> CHR 0x0D) ?e = ?e"
    using encode_chars [OF ok k(1), of s] ok by (auto simp: alphabet_ok_def filter_id_conv)
  have "val_bits k (index_of al (al ! bits_val (fill k g))) = fill k g" if "g \<in> set ?g" for g
    using bits_val_less [of "fill k g"] chunks_lengths [OF k(1) that] ok val_bits_bits_val [of "fill k g"]
    by (simp add: alphabet_ok_def index_of_nth)
  then have bits: "concat (map (\<lambda>c. val_bits k (index_of al c)) ?e) = concat (map (fill k) ?g)"
    by (simp add: encode_with_def comp_def cong: map_cong)
  obtain m where m: "m < k" "concat (map (fill k) ?g) = byte_bits s @ replicate m False"
    using chunks_fill [OF k(1)] by blast
  have "chunks 8 (byte_bits s) = map (\<lambda>c. val_bits 8 (of_char c)) s"
    unfolding byte_bits_def by (rule chunks_concat) (auto simp: list_all_iff)
  moreover have "map (\<lambda>c. char_of (bits_val (val_bits 8 (of_char c)))) s = s"
    using nat_of_char_less_256 by (intro map_idI) (simp add: bits_val_val_bits)
  ultimately have bytes: "map (\<lambda>g. char_of (bits_val g)) (chunks 8 (byte_bits s)) = s" by (simp add: comp_def)
  have "(8 * length s + m) div 8 = length s" "(8 * length s + m) mod 8 < k" using m(1) k by auto
  with bytes show ?thesis
    using encode_chars [OF ok k(1), of s]
    by (simp add: decode_with_def keep bits m(2) list_all_iff subset_iff)
qed

lemma base64_roundtrip: "base64_DecodeString (base64_EncodeToString s) = Some s"
  unfolding base64_DecodeString_def base64_EncodeToString_def by (rule decode_encode) (simp_all add: alphabets_ok)

lemma encode_with_inj:
  assumes "alphabet_ok k al" "0 < k" "k \<le> 8" "encode_with k al s = encode_with k al t"
  shows "s = t"
  using decode_encode [OF assms(1-3)] assms(4) by (metis option.inject)

lemma encoders_inj:
  "hex_EncodeToString s = hex_EncodeToString t \<longleftrightarrow> s = t"
  "base32_EncodeToString s = base32_EncodeToString t \<longleftrightarrow> s = t"
  "base64url_EncodeToString s = base64url_EncodeToString t \<longleftrightarrow> s = t"
  unfolding hex_EncodeToString_def base32_EncodeToString_def base64url_EncodeToString_def
  using alphabets_ok by (auto dest: encode_with_inj)

end
