(* ===== verification/Flags.thy ===== *)
theory Flags
  imports Encodings
begin

text \<open>
  \<^verbatim>\<open>internal/flags/flags.go\<close>: per-instance flags, the prefix and 39 lower-case Crockford base32 characters of 24
  random bytes. What \<^verbatim>\<open>rand.Read\<close> delivers is a parameter, \<open>None\<close> when it fails.
\<close>

definition flag_alphabet :: string where
  "flag_alphabet = ''0123456789ABCDEFGHJKMNPQRSTVWXYZ''"

record Generator =
  gn_prefix :: string

definition NewGenerator :: "string \<Rightarrow> Generator" where
  "NewGenerator pre = \<lparr>gn_prefix = (if pre = [] then ''osctf'' else pre)\<rparr>"

text \<open>The encoding is ASCII, so \<^verbatim>\<open>strings.ToLower\<close> does not reach the Unicode tables; \<open>uni_lower\<close> is what they
  would do.\<close>

definition Generator_New :: "(string \<Rightarrow> string) \<Rightarrow> Generator \<Rightarrow> string option \<Rightarrow> string result" where
  "Generator_New uni_lower g rand =
     (case rand of
        None \<Rightarrow> Inl (Internal ''flags: reading entropy'')
      | Some b \<Rightarrow> Inr (gn_prefix g @ ''{'' @ ToLower uni_lower (encode_with 5 flag_alphabet b) @ ''}''))"

lemma flag_alphabet_ok: "alphabet_ok 5 flag_alphabet"
  by code_simp

lemma flag_alphabet_lower:
  "inj_on ascii_lower (set flag_alphabet)" "list_all (\<lambda>c. (of_char c :: nat) < 128) flag_alphabet"
proof -
  have "distinct (map ascii_lower flag_alphabet)" by code_simp
  then show "inj_on ascii_lower (set flag_alphabet)" by (simp add: distinct_map)
  show "list_all (\<lambda>c. (of_char c :: nat) < 128) flag_alphabet" by code_simp
qed

lemma flag_lower: "ToLower ul (encode_with 5 flag_alphabet b) = map ascii_lower (encode_with 5 flag_alphabet b)"
  using encode_chars [OF flag_alphabet_ok, of b] flag_alphabet_lower(2)
  by (auto simp: ToLower_def is_ascii_def list_all_iff)

lemma flag_body_inj:
  assumes "map ascii_lower (encode_with 5 flag_alphabet a) = map ascii_lower (encode_with 5 flag_alphabet b)"
  shows "a = b"
proof -
  have "encode_with 5 flag_alphabet a = encode_with 5 flag_alphabet b"
    using assms encode_chars [OF flag_alphabet_ok] flag_alphabet_lower(1)
    by (metis inj_on_mapI map_inj_on inj_on_subset le_supI zero_less_numeral)
  from encode_with_inj [OF flag_alphabet_ok _ _ this] show ?thesis by simp
qed

text \<open>Two per-instance flags that a generator mints are equal only when the 192 random bits they were minted
  from are equal: lower-casing and encoding lose nothing, whatever the configured prefix. Every flag is the
  prefix, an opening brace, 39 characters and a closing brace, and a failing entropy source gives an error.\<close>

theorem flag_keeps_entropy:
  assumes "length a = 24" "length b = 24"
    and "Generator_New ul g (Some a) = Inr f" "Generator_New ul g (Some b) = Inr h"
  shows "(f = h \<longleftrightarrow> a = b) \<and> length f = length (gn_prefix g) + 41 \<and>
    Generator_New ul g None = Inl (Internal ''flags: reading entropy'')"
proof -
  have "length (encode_with 5 flag_alphabet a) = 39"
    using length_encode_with [of 5 flag_alphabet a] assms(1) by simp
  with assms show ?thesis by (auto simp: Generator_New_def flag_lower dest: flag_body_inj)
qed

theorem flag_keeps_entropy_witness:
  "Generator_New id (NewGenerator []) (Some (replicate 24 CHR ''a'')) \<noteq>
   Generator_New id (NewGenerator []) (Some (replicate 23 CHR ''a'' @ ''b''))"
proof -
  let ?a = "replicate 24 CHR ''a''" and ?b = "replicate 23 CHR ''a'' @ ''b''"
  obtain f h where *: "Generator_New id (NewGenerator []) (Some ?a) = Inr f"
    "Generator_New id (NewGenerator []) (Some ?b) = Inr h" by (simp add: Generator_New_def)
  moreover have "?a \<noteq> ?b" by code_simp
  ultimately show ?thesis using flag_keeps_entropy [OF _ _ *] by simp
qed

end
