(* ===== verification/Accounts.thy ===== *)
theory Accounts
  imports Database Go_Strings
begin

text \<open>
  The tables of accounts: \<^verbatim>\<open>users\<close> (declared in \<^verbatim>\<open>Database\<close>), \<^verbatim>\<open>auth_identities\<close> and \<^verbatim>\<open>api_tokens\<close>, with the queries sqlc
  generated for them under \<^verbatim>\<open>internal/db/gen\<close>. The store \<open>adb\<close> extends the relational store with the two tables.
  Conventions are those of \<^verbatim>\<open>Database\<close>: \<open>cf\<close> is the folding of \<^verbatim>\<open>citext\<close> columns, \<open>now\<close> the statement's time.
  \<open>ilike\<close> is Postgres's \<^verbatim>\<open>ILIKE\<close> of a column with a pattern.

  \<open>accounts_ok\<close> collects the constraints of the migrations; every write preserves it.
\<close>

subsection \<open>Rows\<close>

record AuthIdentity =
  ai_Provider :: string
  ai_Subject :: string
  ai_UserID :: uuid
  ai_CreatedAt :: time

record ApiToken =
  at_ID :: uuid
  at_UserID :: uuid
  at_Name :: string
  at_TokenHash :: string
  at_Prefix :: string
  at_Scopes :: "string list"
  at_LastUsedAt :: "time option"
  at_ExpiresAt :: "time option"
  at_CreatedAt :: time

record adb = db +
  auth_identities :: "AuthIdentity list"
  api_tokens :: "ApiToken list"

definition empty_adb :: adb where
  "empty_adb = db.extend empty_db \<lparr>auth_identities = [], api_tokens = []\<rparr>"

text \<open>\<^verbatim>\<open>char_length\<close> of a UTF-8 text: the bytes that do not continue a character.\<close>

definition char_length :: "string \<Rightarrow> nat" where
  "char_length s = length (filter (\<lambda>c. (of_char c :: nat) div 64 \<noteq> 2) s)"

subsection \<open>Users\<close>

definition CountUsers :: "adb \<Rightarrow> int" where
  "CountUsers s = int (length (users s))"

definition GetUserByID :: "adb \<Rightarrow> uuid \<Rightarrow> User option" where
  "GetUserByID s i = List.find (\<lambda>u. u_ID u = i) (users s)"

definition GetUserByEmail :: "(string \<Rightarrow> string) \<Rightarrow> adb \<Rightarrow> string \<Rightarrow> User option" where
  "GetUserByEmail cf s email = List.find (\<lambda>u. cf (u_Email u) = cf email) (users s)"

definition GetUserByUsername :: "(string \<Rightarrow> string) \<Rightarrow> adb \<Rightarrow> string \<Rightarrow> User option" where
  "GetUserByUsername cf s name = List.find (\<lambda>u. cf (u_Username u) = cf name) (users s)"

definition role_ok :: "string \<Rightarrow> bool" where
  "role_ok r \<longleftrightarrow> r \<in> set [''user'', ''admin'']"

definition username_len_ok :: "string \<Rightarrow> bool" where
  "username_len_ok n \<longleftrightarrow> 3 \<le> char_length n \<and> char_length n \<le> 32"

definition CreateUser ::
  "(string \<Rightarrow> string) \<Rightarrow> adb \<Rightarrow> time \<Rightarrow> uuid \<Rightarrow> string \<Rightarrow> string \<Rightarrow> string \<Rightarrow> string \<Rightarrow> bool \<Rightarrow> sql_error + adb \<times> User" where
  "CreateUser cf s now i name email hash role hidden =
     (let u = \<lparr>u_ID = i, u_Username = name, u_Email = email, u_PasswordHash = hash, u_Role = role,
               u_Banned = False, u_Hidden = hidden, u_CreatedAt = now, u_UpdatedAt = now\<rparr>
      in if \<not> role_ok role then Inl (CheckViolation ''users_role_check'')
         else if \<not> username_len_ok name then Inl (CheckViolation ''chk_users_username_len'')
         else if list_ex (\<lambda>x. u_ID x = i) (users s) then Inl (UniqueViolation ''users_pkey'')
         else if list_ex (\<lambda>x. cf (u_Username x) = cf name) (users s) then Inl (UniqueViolation ''uq_users_username'')
         else if list_ex (\<lambda>x. cf (u_Email x) = cf email) (users s) then Inl (UniqueViolation ''uq_users_email'')
         else Inr (s\<lparr>users := users s @ [u]\<rparr>, u))"

definition update_user :: "adb \<Rightarrow> uuid \<Rightarrow> (User \<Rightarrow> User) \<Rightarrow> adb" where
  "update_user s i f = s\<lparr>users := map (\<lambda>u. if u_ID u = i then f u else u) (users s)\<rparr>"

text \<open>\<open>None\<close> in the result is \<^verbatim>\<open>pgx.ErrNoRows\<close>.\<close>

definition UpdateUserAdminFields ::
  "adb \<Rightarrow> time \<Rightarrow> uuid \<Rightarrow> bool option \<Rightarrow> bool option \<Rightarrow> string option \<Rightarrow> sql_error + adb \<times> User option" where
  "UpdateUserAdminFields s now i banned hidden role =
     (let f = (\<lambda>u. u\<lparr>u_Banned := coalesce banned (u_Banned u), u_Hidden := coalesce hidden (u_Hidden u),
                     u_Role := coalesce role (u_Role u), u_UpdatedAt := now\<rparr>)
      in if \<not> list_all (\<lambda>u. u_ID u = i \<longrightarrow> role_ok (u_Role (f u))) (users s)
         then Inl (CheckViolation ''users_role_check'')
         else Inr (update_user s i f, map_option f (GetUserByID s i)))"

definition UpdateUserPassword :: "adb \<Rightarrow> time \<Rightarrow> uuid \<Rightarrow> string \<Rightarrow> adb" where
  "UpdateUserPassword s now i hash = update_user s i (\<lambda>u. u\<lparr>u_PasswordHash := hash, u_UpdatedAt := now\<rparr>)"

definition admin_filter ::
  "(string \<Rightarrow> string \<Rightarrow> bool) \<Rightarrow> string option \<Rightarrow> bool option \<Rightarrow> bool option \<Rightarrow> string option \<Rightarrow> User \<Rightarrow> bool" where
  "admin_filter ilike q banned hidden role u \<longleftrightarrow>
     (case q of None \<Rightarrow> True | Some p \<Rightarrow> ilike (u_Username u) (''%'' @ p @ ''%'') \<or> ilike (u_Email u) (''%'' @ p @ ''%'')) \<and>
     (case banned of None \<Rightarrow> True | Some b \<Rightarrow> u_Banned u = b) \<and>
     (case hidden of None \<Rightarrow> True | Some b \<Rightarrow> u_Hidden u = b) \<and>
     (case role of None \<Rightarrow> True | Some r \<Rightarrow> u_Role u = r)"

definition CountUsersAdmin ::
  "(string \<Rightarrow> string \<Rightarrow> bool) \<Rightarrow> adb \<Rightarrow> string option \<Rightarrow> bool option \<Rightarrow> bool option \<Rightarrow> string option \<Rightarrow> int" where
  "CountUsersAdmin ilike s q banned hidden role =
     int (length (filter (admin_filter ilike q banned hidden role) (users s)))"

record ListUsersAdminRow =
  lu_User :: User
  lu_TeamID :: "uuid option"
  lu_TeamName :: "string option"

text \<open>A user is on at most one team, so the outer joins keep one row per user.\<close>

definition user_row :: "adb \<Rightarrow> User \<Rightarrow> ListUsersAdminRow list" where
  "user_row s u =
     (case filter (\<lambda>m. m_UserID m = u_ID u) (team_members s) of
        [] \<Rightarrow> [\<lparr>lu_User = u, lu_TeamID = None, lu_TeamName = None\<rparr>]
      | ms \<Rightarrow> map (\<lambda>m. case List.find (\<lambda>t. t_ID t = m_TeamID m) (teams s) of
                         None \<Rightarrow> \<lparr>lu_User = u, lu_TeamID = None, lu_TeamName = None\<rparr>
                       | Some t \<Rightarrow> \<lparr>lu_User = u, lu_TeamID = Some (t_ID t), lu_TeamName = Some (t_Name t)\<rparr>) ms)"

definition ListUsersAdmin ::
  "(string \<Rightarrow> string \<Rightarrow> bool) \<Rightarrow> adb \<Rightarrow> int \<Rightarrow> int \<Rightarrow> string option \<Rightarrow> bool option \<Rightarrow> bool option \<Rightarrow> string option \<Rightarrow>
   ListUsersAdminRow list" where
  "ListUsersAdmin ilike s limit offset q banned hidden role =
     take (nat limit) (drop (nat offset)
       (concat (map (user_row s) (sort_key (\<lambda>u. - u_CreatedAt u)
         (filter (admin_filter ilike q banned hidden role) (users s))))))"

subsection \<open>External identities\<close>

definition GetAuthIdentity :: "adb \<Rightarrow> string \<Rightarrow> string \<Rightarrow> AuthIdentity option" where
  "GetAuthIdentity s provider subject =
     List.find (\<lambda>a. ai_Provider a = provider \<and> ai_Subject a = subject) (auth_identities s)"

definition CreateAuthIdentity ::
  "adb \<Rightarrow> time \<Rightarrow> string \<Rightarrow> string \<Rightarrow> uuid \<Rightarrow> sql_error + adb \<times> AuthIdentity" where
  "CreateAuthIdentity s now provider subject uid =
     (let a = \<lparr>ai_Provider = provider, ai_Subject = subject, ai_UserID = uid, ai_CreatedAt = now\<rparr>
      in if list_ex (\<lambda>x. ai_Provider x = provider \<and> ai_Subject x = subject) (auth_identities s)
         then Inl (UniqueViolation ''auth_identities_pkey'')
         else if \<not> list_ex (\<lambda>u. u_ID u = uid) (users s) then Inl (ForeignKeyViolation ''auth_identities_user_id_fkey'')
         else Inr (s\<lparr>auth_identities := auth_identities s @ [a]\<rparr>, a))"

subsection \<open>API tokens\<close>

definition CreateAPIToken ::
  "adb \<Rightarrow> time \<Rightarrow> uuid \<Rightarrow> uuid \<Rightarrow> string \<Rightarrow> string \<Rightarrow> string \<Rightarrow> string list \<Rightarrow> time option \<Rightarrow> sql_error + adb \<times> ApiToken" where
  "CreateAPIToken s now i uid name hash pre scopes expires =
     (let t = \<lparr>at_ID = i, at_UserID = uid, at_Name = name, at_TokenHash = hash, at_Prefix = pre,
               at_Scopes = scopes, at_LastUsedAt = None, at_ExpiresAt = expires, at_CreatedAt = now\<rparr>
      in if list_ex (\<lambda>x. at_ID x = i) (api_tokens s) then Inl (UniqueViolation ''api_tokens_pkey'')
         else if list_ex (\<lambda>x. at_TokenHash x = hash) (api_tokens s) then Inl (UniqueViolation ''uq_api_tokens_hash'')
         else if \<not> list_ex (\<lambda>u. u_ID u = uid) (users s) then Inl (ForeignKeyViolation ''api_tokens_user_id_fkey'')
         else Inr (s\<lparr>api_tokens := api_tokens s @ [t]\<rparr>, t))"

definition GetAPITokensByPrefix :: "adb \<Rightarrow> string \<Rightarrow> ApiToken list" where
  "GetAPITokensByPrefix s pre = filter (\<lambda>t. at_Prefix t = pre) (api_tokens s)"

definition GetAPIToken :: "adb \<Rightarrow> uuid \<Rightarrow> ApiToken option" where
  "GetAPIToken s i = List.find (\<lambda>t. at_ID t = i) (api_tokens s)"

definition ListAPITokensByUser :: "adb \<Rightarrow> uuid \<Rightarrow> ApiToken list" where
  "ListAPITokensByUser s uid = sort_key (\<lambda>t. - at_CreatedAt t) (filter (\<lambda>t. at_UserID t = uid) (api_tokens s))"

definition ListAllAPITokens :: "adb \<Rightarrow> int \<Rightarrow> int \<Rightarrow> (ApiToken \<times> uuid \<times> string) list" where
  "ListAllAPITokens s limit offset =
     take (nat limit) (drop (nat offset)
       (concat (map (\<lambda>t. map (\<lambda>u. (t, u_ID u, u_Username u)) (filter (\<lambda>u. u_ID u = at_UserID t) (users s)))
         (sort_key (\<lambda>t. - at_CreatedAt t) (api_tokens s)))))"

definition CountAllAPITokens :: "adb \<Rightarrow> int" where
  "CountAllAPITokens s = int (length (api_tokens s))"

text \<open>The deletes return the number of rows affected.\<close>

definition delete_tokens :: "adb \<Rightarrow> (ApiToken \<Rightarrow> bool) \<Rightarrow> adb \<times> int" where
  "delete_tokens s P =
     (s\<lparr>api_tokens := filter (\<lambda>t. \<not> P t) (api_tokens s)\<rparr>, int (length (filter P (api_tokens s))))"

definition DeleteAPIToken :: "adb \<Rightarrow> uuid \<Rightarrow> uuid \<Rightarrow> adb \<times> int" where
  "DeleteAPIToken s i uid = delete_tokens s (\<lambda>t. at_ID t = i \<and> at_UserID t = uid)"

definition DeleteAPITokenByID :: "adb \<Rightarrow> uuid \<Rightarrow> adb \<times> int" where
  "DeleteAPITokenByID s i = delete_tokens s (\<lambda>t. at_ID t = i)"

definition DeleteAPITokensForUser :: "adb \<Rightarrow> uuid \<Rightarrow> adb" where
  "DeleteAPITokensForUser s uid = fst (delete_tokens s (\<lambda>t. at_UserID t = uid))"

definition TouchAPIToken :: "adb \<Rightarrow> time \<Rightarrow> uuid \<Rightarrow> adb" where
  "TouchAPIToken s now i =
     s\<lparr>api_tokens := map (\<lambda>t. if at_ID t = i \<and>
           (case at_LastUsedAt t of None \<Rightarrow> True | Some l \<Rightarrow> l < now - 60 * second)
         then t\<lparr>at_LastUsedAt := Some now\<rparr> else t) (api_tokens s)\<rparr>"

end
