(* ===== verification/Accounts_Invariant.thy ===== *)
theory Accounts_Invariant
  imports Accounts
begin

text \<open>
  The constraints of the account tables as an invariant of every sequence of writes, and the contract of a table
  with a unique key, stated once as the locale \<open>keyed_table\<close> and interpreted for users by id, users by e-mail,
  external identities and tokens.
\<close>

subsection \<open>Tables with a unique key\<close>

locale keyed_table =
  fixes rows :: "'s \<Rightarrow> 'r list"
    and key :: "'r \<Rightarrow> 'k"
    and look :: "'s \<Rightarrow> 'k \<Rightarrow> 'r option"
    and ins :: "'s \<Rightarrow> 'r \<Rightarrow> 's \<Rightarrow> bool"
  assumes look_hit: "look s k = Some r \<Longrightarrow> r \<in> set (rows s) \<and> key r = k"
    and look_miss: "look s k = None \<Longrightarrow> r \<in> set (rows s) \<Longrightarrow> key r \<noteq> k"
    and ins_new: "ins s r s' \<Longrightarrow> key r \<notin> key ` set (rows s) \<and> rows s' = rows s @ [r]"
begin

definition keyed :: "'s \<Rightarrow> bool" where
  "keyed s \<longleftrightarrow> distinct (map key (rows s))"

lemma keyed_same: "keyed s \<Longrightarrow> r \<in> set (rows s) \<Longrightarrow> r' \<in> set (rows s) \<Longrightarrow> key r = key r' \<Longrightarrow> r = r'"
  unfolding keyed_def by (auto simp: distinct_map dest: inj_onD)

lemma look_iff: "keyed s \<Longrightarrow> look s k = Some r \<longleftrightarrow> r \<in> set (rows s) \<and> key r = k"
  using look_hit look_miss keyed_same by (cases "look s k") fastforce+

lemma look_rows: "keyed s \<Longrightarrow> rows s' = rows s \<Longrightarrow> look s' k = look s k"
  using look_iff [of s k] look_iff [of s' k] by (metis keyed_def not_Some_eq)

lemma ins_keyed: "ins s r s' \<Longrightarrow> keyed s \<Longrightarrow> keyed s'"
  using ins_new unfolding keyed_def by fastforce

lemma look_ins:
  assumes "ins s r s'" "keyed s"
  shows "look s' k = (if k = key r then Some r else look s k)"
proof -
  have "keyed s'" using assms ins_keyed by blast
  then have "look s' k = Some x \<longleftrightarrow> (if k = key r then Some r else look s k) = Some x" for x
    using ins_new [OF assms(1)] look_iff [OF assms(2)] look_iff [of s'] by (auto simp: image_iff)
  then show ?thesis by (metis not_Some_eq)
qed

lemma ins_once: "ins s r s' \<Longrightarrow> key r' = key r \<Longrightarrow> rows s'' = rows s' @ rs \<Longrightarrow> \<not> ins s'' r' t"
  using ins_new by fastforce

end

interpretation users_by_id: keyed_table users u_ID GetUserByID
  "\<lambda>s u s'. \<exists>cf now i name email hash role hidden. CreateUser cf s now i name email hash role hidden = Inr (s', u)"
  by unfold_locales
    (auto simp: GetUserByID_def CreateUser_def Let_def find_Some_iff find_None_iff list_ex_iff split: if_splits)

text \<open>\<^verbatim>\<open>WHERE email = $1\<close> compares folded values.\<close>

definition by_email :: "(string \<Rightarrow> string) \<Rightarrow> adb \<Rightarrow> string \<Rightarrow> User option" where
  "by_email cf s k = List.find (\<lambda>u. cf (u_Email u) = k) (users s)"

lemma GetUserByEmail_eq: "GetUserByEmail cf s email = by_email cf s (cf email)"
  by (simp add: GetUserByEmail_def by_email_def)

interpretation users_by_email: keyed_table users "cf \<circ> u_Email" "by_email cf"
  "\<lambda>s u s'. \<exists>now i name email hash role hidden. CreateUser cf s now i name email hash role hidden = Inr (s', u)"
  for cf
  by unfold_locales
    (auto simp: by_email_def CreateUser_def Let_def find_Some_iff find_None_iff list_ex_iff split: if_splits)

definition ident_key :: "AuthIdentity \<Rightarrow> string \<times> string" where
  "ident_key a = (ai_Provider a, ai_Subject a)"

interpretation identities: keyed_table auth_identities ident_key "\<lambda>s k. GetAuthIdentity s (fst k) (snd k)"
  "\<lambda>s a s'. \<exists>now provider subject uid. CreateAuthIdentity s now provider subject uid = Inr (s', a)"
  by unfold_locales
    (auto simp: ident_key_def GetAuthIdentity_def CreateAuthIdentity_def Let_def find_Some_iff find_None_iff
      list_ex_iff split: if_splits)

interpretation tokens: keyed_table api_tokens at_ID GetAPIToken
  "\<lambda>s t s'. \<exists>now i uid name hash pre scopes expires. CreateAPIToken s now i uid name hash pre scopes expires = Inr (s', t)"
  by unfold_locales
    (auto simp: GetAPIToken_def CreateAPIToken_def Let_def find_Some_iff find_None_iff list_ex_iff split: if_splits)

subsection \<open>The constraints\<close>

definition user_ok :: "User \<Rightarrow> bool" where
  "user_ok u \<longleftrightarrow> role_ok (u_Role u) \<and> username_len_ok (u_Username u)"

definition accounts_ok :: "(string \<Rightarrow> string) \<Rightarrow> adb \<Rightarrow> bool" where
  "accounts_ok cf s \<longleftrightarrow>
     users_by_id.keyed s \<and> distinct (map (cf \<circ> u_Username) (users s)) \<and> users_by_email.keyed cf s \<and>
     (\<forall>u \<in> set (users s). user_ok u) \<and>
     identities.keyed s \<and> (\<forall>a \<in> set (auth_identities s). ai_UserID a \<in> u_ID ` set (users s)) \<and>
     tokens.keyed s \<and> distinct (map at_TokenHash (api_tokens s)) \<and>
     (\<forall>t \<in> set (api_tokens s). at_UserID t \<in> u_ID ` set (users s))"

lemmas keyed_defs = users_by_id.keyed_def users_by_email.keyed_def identities.keyed_def tokens.keyed_def

text \<open>The writes of the three tables, as any session may issue them.\<close>

inductive account_write :: "(string \<Rightarrow> string) \<Rightarrow> adb \<Rightarrow> adb \<Rightarrow> bool" for cf where
  create_user: "CreateUser cf s now i name email hash role hidden = Inr (s', u) \<Longrightarrow> account_write cf s s'"
| admin_fields: "UpdateUserAdminFields s now i banned hidden role = Inr (s', r) \<Longrightarrow> account_write cf s s'"
| set_password: "account_write cf s (UpdateUserPassword s now i hash)"
| create_identity: "CreateAuthIdentity s now provider subject uid = Inr (s', a) \<Longrightarrow> account_write cf s s'"
| create_token: "CreateAPIToken s now i uid name hash pre scopes expires = Inr (s', t) \<Longrightarrow> account_write cf s s'"
| delete_token: "account_write cf s (fst (DeleteAPIToken s i uid))"
| delete_token_by_id: "account_write cf s (fst (DeleteAPITokenByID s i))"
| delete_tokens_for: "account_write cf s (DeleteAPITokensForUser s uid)"
| touch_token: "account_write cf s (TouchAPIToken s now i)"

inductive_cases account_writeE: "account_write cf s s'"

lemma accounts_ok_users:
  assumes "accounts_ok cf s" "map u_ID us = map u_ID (users s)"
    "map (cf \<circ> u_Username) us = map (cf \<circ> u_Username) (users s)"
    "map (cf \<circ> u_Email) us = map (cf \<circ> u_Email) (users s)" "\<forall>u \<in> set us. user_ok u"
  shows "accounts_ok cf (s\<lparr>users := us\<rparr>)"
proof -
  have "u_ID ` set us = u_ID ` set (users s)" using assms(2) by (metis set_map)
  with assms show ?thesis unfolding accounts_ok_def keyed_defs by simp
qed

lemma accounts_ok_update_user:
  assumes "accounts_ok cf s"
    and "\<And>u. u_ID (f u) = u_ID u \<and> u_Username (f u) = u_Username u \<and> u_Email (f u) = u_Email u"
    and "\<And>u. u \<in> set (users s) \<Longrightarrow> u_ID u = i \<Longrightarrow> user_ok (f u)"
  shows "accounts_ok cf (update_user s i f)"
  unfolding update_user_def
  by (rule accounts_ok_users [OF assms(1)]) (use assms in \<open>auto simp: accounts_ok_def\<close>)

lemma distinct_subseq: "subseq xs ys \<Longrightarrow> distinct ys \<Longrightarrow> distinct xs"
  by (induction rule: list_emb.induct) (auto dest: list_emb_set)

lemma accounts_ok_tokens:
  assumes "accounts_ok cf s" "subseq (map at_ID ts) (map at_ID (api_tokens s))"
    "subseq (map at_TokenHash ts) (map at_TokenHash (api_tokens s))" "at_UserID ` set ts \<subseteq> at_UserID ` set (api_tokens s)"
  shows "accounts_ok cf (s\<lparr>api_tokens := ts\<rparr>)"
  using assms unfolding accounts_ok_def keyed_defs by (auto dest: distinct_subseq)

lemma accounts_ok_filter: "accounts_ok cf s \<Longrightarrow> accounts_ok cf (s\<lparr>api_tokens := filter P (api_tokens s)\<rparr>)"
  by (rule accounts_ok_tokens) (auto intro: subseq_map)

lemma accounts_ok_map_tokens:
  assumes "accounts_ok cf s"
    and "\<And>t. at_ID (g t) = at_ID t \<and> at_TokenHash (g t) = at_TokenHash t \<and> at_UserID (g t) = at_UserID t"
  shows "accounts_ok cf (s\<lparr>api_tokens := map g (api_tokens s)\<rparr>)"
  by (rule accounts_ok_tokens [OF assms(1)]) (simp_all add: assms(2) comp_def image_image)

lemma account_write_ok:
  assumes "account_write cf s s'" "accounts_ok cf s"
  shows "accounts_ok cf s'"
  using assms
proof cases
  case (create_user now i name email hash role hidden u)
  with assms(2) show ?thesis
    unfolding accounts_ok_def keyed_defs CreateUser_def
    by (auto simp: Let_def list_ex_iff user_ok_def split: if_splits) blast+
next
  case (admin_fields now i banned hidden role r)
  then have "s' = update_user s i (\<lambda>u. u\<lparr>u_Banned := coalesce banned (u_Banned u), u_Hidden := coalesce hidden (u_Hidden u),
       u_Role := coalesce role (u_Role u), u_UpdatedAt := now\<rparr>)"
    and role: "list_all (\<lambda>u. u_ID u = i \<longrightarrow> role_ok (coalesce role (u_Role u))) (users s)"
    by (auto simp: UpdateUserAdminFields_def Let_def split: if_splits)
  moreover have "\<And>u. u \<in> set (users s) \<Longrightarrow> user_ok u" using assms(2) by (simp add: accounts_ok_def)
  ultimately show ?thesis
    by (auto intro!: accounts_ok_update_user [OF assms(2)] simp: user_ok_def list_all_iff)
next
  case (set_password now i hash)
  have "\<And>u. u \<in> set (users s) \<Longrightarrow> user_ok u" using assms(2) by (simp add: accounts_ok_def)
  then show ?thesis unfolding set_password UpdateUserPassword_def
    by (intro accounts_ok_update_user [OF assms(2)]) (auto simp: user_ok_def)
next
  case (create_identity now provider subject uid a)
  with assms(2) show ?thesis
    unfolding accounts_ok_def keyed_defs CreateAuthIdentity_def
    by (auto simp: Let_def list_ex_iff ident_key_def split: if_splits)
next
  case (create_token now i uid name hash pre scopes expires t)
  with assms(2) show ?thesis
    unfolding accounts_ok_def keyed_defs CreateAPIToken_def
    by (auto simp: Let_def list_ex_iff split: if_splits)
next
  case (touch_token now i)
  show ?thesis unfolding touch_token TouchAPIToken_def
    by (rule accounts_ok_map_tokens [OF assms(2)]) simp
qed (use assms(2) in \<open>simp_all add: DeleteAPIToken_def DeleteAPITokenByID_def DeleteAPITokensForUser_def delete_tokens_def
      accounts_ok_filter\<close>)

lemma account_writes_ok: "(account_write cf)\<^sup>*\<^sup>* s s' \<Longrightarrow> accounts_ok cf s \<Longrightarrow> accounts_ok cf s'"
  by (induction rule: rtranclp_induct) (auto intro: account_write_ok)

definition ada_store :: adb where
  "ada_store = (case CreateUser id empty_adb 0 1 ''ada'' ''ada@x.org'' ''!'' ''user'' False of Inr (s, u) \<Rightarrow> s | _ \<Rightarrow> empty_adb)"

lemma ada_store_write: "account_write id empty_adb ada_store"
proof -
  have "CreateUser id empty_adb 0 1 ''ada'' ''ada@x.org'' ''!'' ''user'' False = Inr (ada_store, hd (users ada_store))"
    by code_simp
  then show ?thesis by (rule account_write.create_user)
qed

lemma empty_adb_ok: "accounts_ok cf empty_adb"
  unfolding accounts_ok_def keyed_defs by (simp add: empty_adb_def empty_db_def db.defs)

lemma ada_store_ok: "accounts_ok id ada_store"
  using account_write_ok [OF ada_store_write empty_adb_ok] .

end
