(* ===== verification/Auth_External.thy ===== *)
theory Auth_External
  imports Accounts_Invariant Encodings
begin

text \<open>
  The return path of auth plugins, \<^verbatim>\<open>internal/auth/external.go\<close>: what an asserted identity is allowed to mean.

  Each statement of \<^verbatim>\<open>Resolve\<close> is named by an \<open>ext_call\<close>. Before a statement runs, other sessions may have changed
  the store (\<open>xe_interf\<close>); the statement may fail (\<open>xe_fails\<close>) and then has no effect. \<^verbatim>\<open>uuid.NewV7\<close>, the folding of
  \<^verbatim>\<open>citext\<close>, Unicode lower-casing and \<^verbatim>\<open>mail.ParseAddress\<close> (whether it accepts) are parameters. A rejection
  (\<open>Rejected\<close>) is what \<^verbatim>\<open>ErrExternalRejected\<close> matches; \<open>Failed\<close> is any other error.
\<close>

subsection \<open>Policy and identity\<close>

datatype ProvisionPolicy = ProvisionOpen | ProvisionInviteOnly | ProvisionOff

fun policy_name :: "ProvisionPolicy \<Rightarrow> string" where
  "policy_name ProvisionOpen = ''open''"
| "policy_name ProvisionInviteOnly = ''invite-only''"
| "policy_name ProvisionOff = ''off''"

definition ParseProvisionPolicy :: "(string \<Rightarrow> string) \<Rightarrow> string \<Rightarrow> ProvisionPolicy option" where
  "ParseProvisionPolicy uni_lower s =
     List.find (\<lambda>p. ToLower uni_lower (TrimSpace s) = policy_name p) [ProvisionOpen, ProvisionInviteOnly, ProvisionOff]"

record ExternalIdentity =
  ei_Subject :: string
  ei_Email :: string
  ei_Username :: string
  ei_EmailVerified :: bool
  ei_Claims :: "(string \<times> string) list"

datatype ext_error = Rejected string | Failed string

definition reservedClaimKeys :: "string list" where
  "reservedClaimKeys =
     [''admin'', ''is_admin'', ''isadmin'', ''role'', ''roles'', ''user_id'', ''userid'', ''uid'', ''scope'', ''scopes'',
      ''banned'', ''hidden'']"

definition maxSubjectLen :: nat where "maxSubjectLen = 255"
definition roleParticipant :: string where "roleParticipant = ''user''"
definition noPasswordHash :: string where "noPasswordHash = ''!''"
definition usernameMinLen :: nat where "usernameMinLen = 3"
definition usernameMaxLen :: nat where "usernameMaxLen = 32"
definition provisionAttempts :: nat where "provisionAttempts = 8"

datatype ext_call = XIdentity | XUser | XEmail | XBind | XCreate nat | XRecheck nat

record ext_env =
  xe_fails :: "ext_call \<Rightarrow> bool"
  xe_interf :: "ext_call \<Rightarrow> adb \<Rightarrow> adb"
  xe_now :: "ext_call \<Rightarrow> time"
  xe_newid :: "nat \<Rightarrow> uuid option"
  xe_cf :: "string \<Rightarrow> string"
  xe_uni_lower :: "string \<Rightarrow> string"
  xe_parse_addr :: "string \<Rightarrow> bool"

subsection \<open>Usernames\<close>

text \<open>The character class of \<^verbatim>\<open>usernameRe\<close>.\<close>

definition username_char :: "char \<Rightarrow> bool" where
  "username_char c \<longleftrightarrow> c \<in> set upper_letters \<or> c \<in> set lower_letters \<or> is_digit c \<or> c \<in> set ''_.-''"

definition usernameRe :: "string \<Rightarrow> bool" where
  "usernameRe s \<longleftrightarrow> s \<noteq> [] \<and> list_all username_char s"

definition sanitizeUsername :: "string \<Rightarrow> string" where
  "sanitizeUsername s =
     (let name = take usernameMaxLen (filter username_char (TrimSpace s))
      in if length name < usernameMinLen \<or> \<not> usernameRe name then [] else name)"

definition candidateUsername :: "string \<Rightarrow> nat \<Rightarrow> string" where
  "candidateUsername base attempt =
     (if attempt = 0 then base
      else let suffix = ''-'' @ itoa (attempt + 1)
           in (if length base + length suffix > usernameMaxLen then take (usernameMaxLen - length suffix) base
               else base) @ suffix)"

subsection \<open>Resolving\<close>

fun isUniqueViolation :: "sql_error \<Rightarrow> bool" where
  "isUniqueViolation (UniqueViolation _) = True"
| "isUniqueViolation _ = False"

definition bind_identity :: "ext_env \<Rightarrow> adb \<Rightarrow> string \<Rightarrow> string \<Rightarrow> uuid \<Rightarrow> adb \<times> ext_error option" where
  "bind_identity x s provider subject uid =
     (let s = xe_interf x XBind s
      in if xe_fails x XBind then (s, Some (Failed ''auth: binding external identity''))
         else case CreateAuthIdentity s (xe_now x XBind) provider subject uid of
                Inr (s', _) \<Rightarrow> (s', None)
              | Inl e \<Rightarrow> (s, if isUniqueViolation e then None
                             else Some (Failed ''auth: binding external identity'')))"

definition bind_as :: "ext_env \<Rightarrow> adb \<Rightarrow> string \<Rightarrow> string \<Rightarrow> User \<Rightarrow> adb \<times> (ext_error + User)" where
  "bind_as x s provider subject u =
     (case bind_identity x s provider subject (u_ID u) of
        (s', Some e) \<Rightarrow> (s', Inl e)
      | (s', None) \<Rightarrow> (s', Inr u))"

text \<open>An account that the verified e-mail matches.\<close>

definition match_account :: "ext_env \<Rightarrow> adb \<Rightarrow> string \<Rightarrow> string \<Rightarrow> User \<Rightarrow> adb \<times> (ext_error + User)" where
  "match_account x s provider subject u =
     (if u_Banned u then (s, Inl (Rejected ''matched account is banned'')) else bind_as x s provider subject u)"

fun provision_loop ::
  "ext_env \<Rightarrow> string \<Rightarrow> string \<Rightarrow> string \<Rightarrow> string \<Rightarrow> adb \<Rightarrow> nat list \<Rightarrow> adb \<times> (ext_error + User)" where
  "provision_loop x provider subject email base s [] = (s, Inl (Rejected ''could not derive an unused username''))"
| "provision_loop x provider subject email base s (n # ns) =
     (case xe_newid x n of
        None \<Rightarrow> (s, Inl (Failed ''auth: generating user id''))
      | Some i \<Rightarrow>
          let s = xe_interf x (XCreate n) s
          in if xe_fails x (XCreate n) then (s, Inl (Failed ''auth: provisioning user''))
             else case CreateUser (xe_cf x) s (xe_now x (XCreate n)) i (candidateUsername base n) email
                         noPasswordHash roleParticipant False of
                    Inr (s', u) \<Rightarrow> bind_as x s' provider subject u
                  | Inl e \<Rightarrow>
                      if \<not> isUniqueViolation e then (s, Inl (Failed ''auth: provisioning user''))
                      else let s = xe_interf x (XRecheck n) s
                           in if xe_fails x (XRecheck n)
                              then (s, Inl (Failed ''auth: re-checking email after conflict''))
                              else case GetUserByEmail (xe_cf x) s email of
                                     Some u \<Rightarrow> match_account x s provider subject u
                                   | None \<Rightarrow> provision_loop x provider subject email base s ns)"

definition username_base :: "string \<Rightarrow> string \<Rightarrow> string" where
  "username_base email suggested =
     (let b = sanitizeUsername suggested;
          b = (if b = [] then (let i = IndexByte email CHR ''@''
                               in if i > 0 then sanitizeUsername (take (nat i) email) else b) else b)
      in if b = [] then ''user'' else b)"

definition provision :: "ext_env \<Rightarrow> adb \<Rightarrow> string \<Rightarrow> string \<Rightarrow> string \<Rightarrow> string \<Rightarrow> adb \<times> (ext_error + User)" where
  "provision x s provider subject email suggested =
     provision_loop x provider subject email (username_base email suggested) s [0..<provisionAttempts]"

definition claim_key :: "ext_env \<Rightarrow> string \<Rightarrow> string" where
  "claim_key x k = ToLower (xe_uni_lower x) (TrimSpace k)"

text \<open>The checks that need no store; \<open>Inr\<close> is the trimmed subject.\<close>

definition screen_identity :: "ext_env \<Rightarrow> string \<Rightarrow> ExternalIdentity \<Rightarrow> ext_error + string" where
  "screen_identity x provider idn =
     (let subject = TrimSpace (ei_Subject idn)
      in if TrimSpace provider = [] then Inl (Rejected ''empty provider name'')
         else if subject = [] then Inl (Rejected ''identity carries no subject'')
         else if length subject > maxSubjectLen then Inl (Rejected ''subject exceeds the maximum length'')
         else case List.find (\<lambda>c. claim_key x (fst c) \<in> set reservedClaimKeys) (ei_Claims idn) of
                Some c \<Rightarrow> Inl (Rejected (''claims carry the reserved key '' @ claim_key x (fst c)))
              | None \<Rightarrow> Inr subject)"

text \<open>The checks on the e-mail of an identity without a binding.\<close>

definition screen_email :: "ext_env \<Rightarrow> ProvisionPolicy \<Rightarrow> ExternalIdentity \<Rightarrow> ext_error + string" where
  "screen_email x policy idn =
     (let email = ToLower (xe_uni_lower x) (TrimSpace (ei_Email idn))
      in if policy = ProvisionOff then Inl (Rejected ''identity is not bound and provisioning is off'')
         else if email = [] then Inl (Rejected ''identity is not bound and carries no email'')
         else if \<not> ei_EmailVerified idn
           then Inl (Rejected ''identity is not bound and its email is not provider-verified'')
         else if \<not> xe_parse_addr x email \<or> ContainsAny email '' <>''
           then Inl (Rejected ''identity is not bound and its email is malformed'')
         else Inr email)"

definition resolve_unbound ::
  "ext_env \<Rightarrow> ProvisionPolicy \<Rightarrow> adb \<Rightarrow> string \<Rightarrow> string \<Rightarrow> ExternalIdentity \<Rightarrow> adb \<times> (ext_error + User)" where
  "resolve_unbound x policy s provider subject idn =
     (case screen_email x policy idn of
        Inl e \<Rightarrow> (s, Inl e)
      | Inr email \<Rightarrow>
          let s = xe_interf x XEmail s
          in if xe_fails x XEmail then (s, Inl (Failed ''auth: looking up user by email''))
             else case GetUserByEmail (xe_cf x) s email of
                    Some u \<Rightarrow> match_account x s provider subject u
                  | None \<Rightarrow>
                      if policy \<noteq> ProvisionOpen
                      then (s, Inl (Rejected (''no account for this verified email and policy is '' @ policy_name policy)))
                      else provision x s provider subject email (ei_Username idn))"

definition Resolve ::
  "ext_env \<Rightarrow> ProvisionPolicy \<Rightarrow> adb \<Rightarrow> string \<Rightarrow> ExternalIdentity \<Rightarrow> adb \<times> (ext_error + User)" where
  "Resolve x policy s provider idn =
     (case screen_identity x provider idn of
        Inl e \<Rightarrow> (s, Inl e)
      | Inr subject \<Rightarrow>
          let s = xe_interf x XIdentity s
          in if xe_fails x XIdentity then (s, Inl (Failed ''auth: looking up external identity''))
             else case GetAuthIdentity s provider subject of
                    Some ai \<Rightarrow>
                      let s = xe_interf x XUser s
                      in if xe_fails x XUser then (s, Inl (Failed ''auth: loading bound user''))
                         else (case GetUserByID s (ai_UserID ai) of
                                 None \<Rightarrow> (s, Inl (Failed ''auth: loading bound user''))
                               | Some u \<Rightarrow> if u_Banned u then (s, Inl (Rejected ''bound account is banned''))
                                           else (s, Inr u))
                  | None \<Rightarrow> resolve_unbound x policy s provider subject idn)"

end
