(* ===== verification/Auth_External_Safety.thy ===== *)
theory Auth_External_Safety
  imports Auth_External
begin

text \<open>
  What the return path guarantees: a login yields an unbanned account that is bound to the identity or whose
  e-mail the provider verified, nothing it writes gives authority, a rejection writes nothing, and a binding once
  made decides every later login of the identity.
\<close>

subsection \<open>Usernames\<close>

definition username_legal :: "string \<Rightarrow> bool" where
  "username_legal n \<longleftrightarrow> usernameMinLen \<le> length n \<and> length n \<le> usernameMaxLen \<and> list_all username_char n"

lemma sanitizeUsername_legal: "sanitizeUsername s \<noteq> [] \<Longrightarrow> username_legal (sanitizeUsername s)"
  by (auto simp: sanitizeUsername_def Let_def username_legal_def usernameRe_def)

lemma username_base_legal: "username_legal (username_base email suggested)"
proof -
  have "username_legal ''user''" by code_simp
  then show ?thesis using sanitizeUsername_legal by (auto simp: username_base_def Let_def)
qed

lemma candidate_legal:
  assumes "username_legal base" "n < provisionAttempts"
  shows "username_legal (candidateUsername base n)"
proof (cases "n = 0")
  case False
  have "list_all (\<lambda>n. length (itoa (n + 1)) = 1) [1..<8]" by code_simp
  then have "length (itoa (n + 1)) = 1" using assms(2) False
    by (auto simp: list_all_iff provisionAttempts_def)
  moreover have "username_char CHR ''-''" by code_simp
  moreover have "list_all username_char (itoa (n + 1))"
    using itoa_digits [of "n + 1"] by (auto simp: list_all_iff username_char_def)
  ultimately show ?thesis using assms(1) False
    by (auto simp: candidateUsername_def username_legal_def usernameMinLen_def usernameMaxLen_def list_all_iff
        Let_def dest: in_set_takeD)
qed (use assms in \<open>simp add: candidateUsername_def\<close>)

text \<open>What a provisioned row is.\<close>

definition provisioned :: "string \<Rightarrow> User \<Rightarrow> bool" where
  "provisioned email u \<longleftrightarrow> u_Role u = ''user'' \<and> \<not> u_Banned u \<and> \<not> u_Hidden u \<and> u_PasswordHash u = ''!'' \<and>
     u_Email u = email \<and> username_legal (u_Username u)"

lemma CreateUser_provisioned:
  assumes "CreateUser cf s now i (candidateUsername base n) email noPasswordHash roleParticipant False = Inr (s', u)"
    and "username_legal base" "n < provisionAttempts"
  shows "s' = s\<lparr>users := users s @ [u]\<rparr> \<and> provisioned email u"
  using assms candidate_legal [OF assms(2,3)]
  by (auto simp: CreateUser_def Let_def provisioned_def noPasswordHash_def roleParticipant_def split: if_splits)

subsection \<open>Binding\<close>

lemma find_append_new: "P r \<Longrightarrow> \<forall>x \<in> set xs. \<not> P x \<Longrightarrow> List.find P (xs @ [r]) = Some r"
  by (induction xs) auto

lemma find_append_hit: "List.find P xs = Some r \<Longrightarrow> List.find P (xs @ ys) = Some r"
  by (induction xs) (auto split: if_splits)

lemma CreateAuthIdentity_cases:
  "(case CreateAuthIdentity s now provider subject uid of
      Inr (s', a) \<Rightarrow> s' = s\<lparr>auth_identities := auth_identities s @ [a]\<rparr> \<and> GetAuthIdentity s provider subject = None \<and>
        GetAuthIdentity s' provider subject = Some a \<and> ident_key a = (provider, subject) \<and> ai_UserID a = uid
    | Inl e \<Rightarrow> isUniqueViolation e \<longrightarrow> GetAuthIdentity s provider subject \<noteq> None)"
  by (auto simp: CreateAuthIdentity_def GetAuthIdentity_def Let_def find_None_iff list_ex_iff ident_key_def
      intro!: find_append_new)

lemma bind_identity_cases:
  assumes "bind_identity x s provider subject uid = (s', e)"
  shows "users s' = users (xe_interf x XBind s) \<and>
    (s' = xe_interf x XBind s \<or>
     (e = None \<and> (\<exists>a. CreateAuthIdentity (xe_interf x XBind s) (xe_now x XBind) provider subject uid = Inr (s', a)))) \<and>
    (e = None \<longrightarrow> GetAuthIdentity s' provider subject \<noteq> None) \<and> (\<forall>r. e \<noteq> Some (Rejected r))"
  using assms CreateAuthIdentity_cases [where s = "xe_interf x XBind s" and now = "xe_now x XBind" and
      provider = provider and subject = subject and uid = uid]
  by (cases "CreateAuthIdentity (xe_interf x XBind s) (xe_now x XBind) provider subject uid")
    (auto simp: bind_identity_def Let_def split: if_splits prod.splits)

lemma bind_as_cases:
  assumes "bind_as x s provider subject u = (s', r)"
  shows "\<exists>e. bind_identity x s provider subject (u_ID u) = (s', e) \<and>
    r = (case e of None \<Rightarrow> Inr u | Some e \<Rightarrow> Inl e)"
  using assms by (auto simp: bind_as_def split: prod.splits option.splits)

lemma match_account_Inr:
  assumes "match_account x s provider subject u = (s', Inr v)"
  shows "v = u \<and> \<not> u_Banned u \<and> GetAuthIdentity s' provider subject \<noteq> None"
  using assms bind_as_cases bind_identity_cases
  by (fastforce simp: match_account_def split: if_splits option.splits)

lemma GetUserByEmail_hit: "GetUserByEmail cf s email = Some u \<Longrightarrow> cf (u_Email u) = cf email \<and> u \<in> set (users s)"
  by (auto simp: GetUserByEmail_def find_Some_iff)

lemma provision_loop_Inr:
  assumes "provision_loop x provider subject email base s ns = (s', Inr u)"
    and "username_legal base" "set ns \<subseteq> {..<provisionAttempts}"
  shows "\<not> u_Banned u \<and> xe_cf x (u_Email u) = xe_cf x email \<and> GetAuthIdentity s' provider subject \<noteq> None"
  using assms
proof (induction x provider subject email base s ns rule: provision_loop.induct)
  case (2 x provider subject email base s n ns)
  let ?s = "xe_interf x (XCreate n) s"
  from "2.prems"(1) obtain i where i: "xe_newid x n = Some i" by (auto split: option.splits)
  have f: "\<not> xe_fails x (XCreate n)" using "2.prems"(1) i by (auto simp: Let_def split: if_splits)
  show ?case
  proof (cases "CreateUser (xe_cf x) ?s (xe_now x (XCreate n)) i (candidateUsername base n) email noPasswordHash roleParticipant False")
    case (Inr p)
    obtain t v where p: "p = (t, v)" by (cases p)
    have "provisioned email v" using CreateUser_provisioned [OF Inr [unfolded p]] "2.prems" by auto
    moreover have "bind_as x t provider subject v = (s', Inr u)" using "2.prems"(1) i f Inr p by (simp add: Let_def)
    ultimately show ?thesis using bind_as_cases bind_identity_cases
      by (fastforce simp: provisioned_def split: option.splits)
  next
    case (Inl e)
    let ?t = "xe_interf x (XRecheck n) ?s"
    have r: "isUniqueViolation e" "\<not> xe_fails x (XRecheck n)"
      using "2.prems"(1) i f Inl by (auto simp: Let_def split: if_splits)
    show ?thesis
    proof (cases "GetUserByEmail (xe_cf x) ?t email")
      case None
      with "2.prems" i f Inl r show ?thesis by (intro "2.IH"[OF i refl f Inl _ refl r(2) None]) (auto simp: Let_def)
    next
      case (Some v)
      then have "match_account x ?t provider subject v = (s', Inr u)" using "2.prems"(1) i f Inl r by (simp add: Let_def)
      from match_account_Inr [OF this] GetUserByEmail_hit [OF Some] show ?thesis by simp
    qed
  qed
qed simp

subsection \<open>Soundness\<close>

lemma screen_identity_Inr:
  "screen_identity x provider idn = Inr subject \<longleftrightarrow>
     TrimSpace provider \<noteq> [] \<and> subject = TrimSpace (ei_Subject idn) \<and> subject \<noteq> [] \<and> length subject \<le> 255 \<and>
     (\<forall>(k, v) \<in> set (ei_Claims idn). claim_key x k \<notin> set reservedClaimKeys)"
  by (auto simp: screen_identity_def Let_def maxSubjectLen_def find_None_iff find_Some_iff case_prod_unfold
      split: option.splits)

lemma screen_email_Inr:
  "screen_email x policy idn = Inr email \<longleftrightarrow>
     policy \<noteq> ProvisionOff \<and> email = ToLower (xe_uni_lower x) (TrimSpace (ei_Email idn)) \<and> email \<noteq> [] \<and>
     ei_EmailVerified idn \<and> xe_parse_addr x email \<and> \<not> ContainsAny email '' <>''"
  by (auto simp: screen_email_def Let_def)

lemma resolve_unbound_Inr:
  assumes "resolve_unbound x policy s provider subject idn = (s', Inr u)"
  shows "\<exists>email. screen_email x policy idn = Inr email \<and> \<not> u_Banned u \<and> xe_cf x (u_Email u) = xe_cf x email \<and>
    GetAuthIdentity s' provider subject \<noteq> None"
proof -
  from assms obtain email where e: "screen_email x policy idn = Inr email"
    by (auto simp: resolve_unbound_def split: sum.splits)
  let ?s = "xe_interf x XEmail s"
  show ?thesis
  proof (cases "GetUserByEmail (xe_cf x) ?s email")
    case None
    then have "provision x ?s provider subject email (ei_Username idn) = (s', Inr u)"
      using assms e by (auto simp: resolve_unbound_def Let_def split: if_splits)
    then have "provision_loop x provider subject email (username_base email (ei_Username idn)) ?s
        [0..<provisionAttempts] = (s', Inr u)" by (simp add: provision_def)
    from provision_loop_Inr [OF this username_base_legal] e show ?thesis by (auto simp: subset_iff)
  next
    case (Some v)
    then have "match_account x ?s provider subject v = (s', Inr u)"
      using assms e by (auto simp: resolve_unbound_def Let_def split: if_splits)
    with e show ?thesis using match_account_Inr GetUserByEmail_hit [OF Some] by blast
  qed
qed

lemma Resolve_Inr:
  assumes "Resolve x policy s provider idn = (s', Inr u)"
  shows "\<exists>subject. screen_identity x provider idn = Inr subject \<and>
    (let s1 = xe_interf x XIdentity s in
     (\<exists>ai. GetAuthIdentity s1 provider subject = Some ai \<and> s' = xe_interf x XUser s1 \<and>
        GetUserByID s' (ai_UserID ai) = Some u \<and> \<not> u_Banned u) \<or>
     GetAuthIdentity s1 provider subject = None \<and> resolve_unbound x policy s1 provider subject idn = (s', Inr u))"
  using assms by (auto simp: Resolve_def Let_def split: sum.splits if_splits option.splits)

text \<open>C5. An external login that succeeds, whatever other sessions do between its statements, returns an account
  that is not banned, for an identity with a subject of 1 to 255 bytes and no claim of authority. The account is
  the one the core had bound to the identity, or else the policy is not \<^verbatim>\<open>off\<close>, the provider says it verified the
  e-mail, the account has this e-mail, and the identity is bound when the login returns.\<close>

theorem external_login_sound:
  assumes "Resolve x policy s provider idn = (s', Inr u)"
  shows "let subject = TrimSpace (ei_Subject idn); email = ToLower (xe_uni_lower x) (TrimSpace (ei_Email idn)) in
    \<not> u_Banned u \<and> subject \<noteq> [] \<and> length subject \<le> 255 \<and>
    list_all (\<lambda>(k, v). claim_key x k \<notin> set reservedClaimKeys) (ei_Claims idn) \<and>
    ((\<exists>ai. GetAuthIdentity (xe_interf x XIdentity s) provider subject = Some ai \<and> ai_UserID ai = u_ID u) \<or>
     policy \<noteq> ProvisionOff \<and> ei_EmailVerified idn \<and> email \<noteq> [] \<and> xe_parse_addr x email \<and>
     xe_cf x (u_Email u) = xe_cf x email \<and> GetAuthIdentity s' provider subject \<noteq> None)"
proof -
  from Resolve_Inr [OF assms] obtain subject where c: "screen_identity x provider idn = Inr subject"
    and "(\<exists>ai. GetAuthIdentity (xe_interf x XIdentity s) provider subject = Some ai \<and> u_ID u = ai_UserID ai \<and> \<not> u_Banned u) \<or>
      resolve_unbound x policy (xe_interf x XIdentity s) provider subject idn = (s', Inr u)"
    using users_by_id.look_hit by (fastforce simp: Let_def)
  with c show ?thesis using resolve_unbound_Inr
    by (fastforce simp: screen_identity_Inr screen_email_Inr Let_def list_all_iff)
qed

subsection \<open>What a login writes\<close>

definition quiet_ext :: "ext_env \<Rightarrow> bool" where
  "quiet_ext x \<longleftrightarrow> (\<forall>c s. xe_interf x c s = s)"

text \<open>The rows a login added: new users, new bindings.\<close>

definition added :: "adb \<Rightarrow> adb \<Rightarrow> User list \<Rightarrow> AuthIdentity list \<Rightarrow> bool" where
  "added s s' us as \<longleftrightarrow> s' = s\<lparr>users := users s @ us, auth_identities := auth_identities s @ as\<rparr>"

lemma added_none [simp]: "added s s [] []"
  by (simp add: added_def)

text \<open>The outcome of a login: what it wrote against what it answered.\<close>

definition login_effect ::
  "string \<Rightarrow> string \<Rightarrow> adb \<Rightarrow> adb \<Rightarrow> ext_error + User \<Rightarrow> User list \<Rightarrow> bool" where
  "login_effect provider subject s s' r us \<longleftrightarrow>
     (\<exists>as. added s s' us as \<and> length us \<le> 1 \<and> length as \<le> 1 \<and>
       (\<forall>a \<in> set as. ident_key a = (provider, subject) \<and> (\<exists>u. r = Inr u \<and> ai_UserID a = u_ID u)) \<and>
       (\<forall>v \<in> set us. \<forall>u. r = Inr u \<longrightarrow> u = v) \<and>
       (\<forall>e. r = Inl (Rejected e) \<longrightarrow> us = [] \<and> as = []))"

lemma login_effect_same: "login_effect provider subject s s r []"
  unfolding login_effect_def by (rule exI [of _ "[]"]) simp

lemma bind_as_effect:
  assumes "quiet_ext x" "bind_as x s provider subject u = (s', r)"
  shows "\<exists>as. added s s' [] as \<and> length as \<le> 1 \<and> (r = Inr u \<or> as = [] \<and> (\<exists>e. r = Inl (Failed e))) \<and>
    (\<forall>a \<in> set as. ident_key a = (provider, subject) \<and> ai_UserID a = u_ID u)"
proof -
  from bind_as_cases [OF assms(2)] obtain e where e: "bind_identity x s provider subject (u_ID u) = (s', e)"
    and r: "r = (case e of None \<Rightarrow> Inr u | Some e \<Rightarrow> Inl e)" by blast
  have q: "xe_interf x XBind s = s" using assms(1) by (simp add: quiet_ext_def)
  from bind_identity_cases [OF e] q consider "s' = s"
    | a where "e = None" "CreateAuthIdentity s (xe_now x XBind) provider subject (u_ID u) = Inr (s', a)" by auto
  then show ?thesis
  proof cases
    case 1
    have "\<forall>m. e \<noteq> Some (Rejected m)" using bind_identity_cases [OF e] by blast
    then have "r = Inr u \<or> (\<exists>e. r = Inl (Failed e))" using r by (cases e; cases "the e") auto
    with 1 show ?thesis by (intro exI [of _ "[]"]) auto
  next
    case 2
    with CreateAuthIdentity_cases [where s = s and now = "xe_now x XBind" and provider = provider
        and subject = subject and uid = "u_ID u"] r
    show ?thesis by (intro exI [of _ "[a]"]) (auto simp: added_def)
  qed
qed

lemma match_account_effect:
  assumes "quiet_ext x" "match_account x s provider subject u = (s', r)"
  shows "login_effect provider subject s s' r []"
  using assms bind_as_effect [OF assms(1)]
  by (fastforce simp: match_account_def login_effect_def split: if_splits)

lemma provision_loop_effect:
  assumes "provision_loop x provider subject email base s ns = (s', r)" "quiet_ext x"
    and "username_legal base" "set ns \<subseteq> {..<provisionAttempts}"
  shows "\<exists>us. login_effect provider subject s s' r us \<and> (\<forall>u \<in> set us. provisioned email u)"
  using assms
proof (induction x provider subject email base s ns rule: provision_loop.induct)
  case (1 x provider subject email base s)
  then show ?case using login_effect_same by fastforce
next
  case (2 x provider subject email base s n ns)
  note same = exI [of _ "[]"]
  have q: "xe_interf x c t = t" for c t using "2.prems"(2) by (simp add: quiet_ext_def)
  show ?case
  proof (cases "xe_newid x n")
    case None
    with "2.prems"(1) show ?thesis by (intro same) (auto intro: login_effect_same)
  next
    case (Some i)
    note i = this
    show ?thesis
    proof (cases "xe_fails x (XCreate n)")
      case True
      with i "2.prems"(1) q show ?thesis by (intro same) (auto simp: Let_def intro: login_effect_same)
    next
      case f: False
      show ?thesis
      proof (cases "CreateUser (xe_cf x) s (xe_now x (XCreate n)) i (candidateUsername base n) email noPasswordHash roleParticipant False")
        case (Inr p)
        obtain t v where p: "p = (t, v)" by (cases p)
        have v: "t = s\<lparr>users := users s @ [v]\<rparr> \<and> provisioned email v"
          using CreateUser_provisioned [OF Inr [unfolded p]] "2.prems" by auto
        have "bind_as x t provider subject v = (s', r)" using "2.prems"(1) i f Inr p q by (simp add: Let_def)
        from bind_as_effect [OF "2.prems"(2) this] obtain as where "added t s' [] as" "length as \<le> 1"
          "r = Inr v \<or> as = [] \<and> (\<exists>e. r = Inl (Failed e))"
          "\<forall>a \<in> set as. ident_key a = (provider, subject) \<and> ai_UserID a = u_ID v" by blast
        with v have "login_effect provider subject s s' r [v]"
          unfolding login_effect_def by (intro exI [of _ as]) (auto simp: added_def)
        with v show ?thesis by (intro exI [of _ "[v]"]) simp
      next
        case (Inl e)
        show ?thesis
        proof (cases "isUniqueViolation e \<and> \<not> xe_fails x (XRecheck n)")
          case False
          with i f Inl "2.prems"(1) q show ?thesis
            by (intro same) (auto simp: Let_def intro: login_effect_same split: if_splits)
        next
          case r: True
          show ?thesis
          proof (cases "GetUserByEmail (xe_cf x) s email")
            case None
            have "provision_loop x provider subject email base s ns = (s', r)"
              using "2.prems"(1) i f Inl r None q by (simp add: Let_def)
            then show ?thesis using "2.IH"[OF i refl] "2.prems" f Inl r None q by (auto simp: Let_def)
          next
            case (Some v)
            then have "match_account x s provider subject v = (s', r)" using "2.prems"(1) i f Inl r q by (simp add: Let_def)
            from match_account_effect [OF "2.prems"(2) this] show ?thesis by (intro same) simp
          qed
        qed
      qed
    qed
  qed
qed

lemma resolve_unbound_effect:
  assumes "quiet_ext x" "resolve_unbound x policy s provider subject idn = (s', r)"
  shows "\<exists>us. login_effect provider subject s s' r us \<and>
    (us \<noteq> [] \<longrightarrow> policy = ProvisionOpen \<and> ei_EmailVerified idn) \<and>
    (\<forall>u \<in> set us. provisioned (ToLower (xe_uni_lower x) (TrimSpace (ei_Email idn))) u)"
proof -
  have q: "xe_interf x c t = t" for c t using assms(1) by (simp add: quiet_ext_def)
  note same = exI [of _ "[]"]
  show ?thesis
  proof (cases "screen_email x policy idn")
    case (Inl e)
    with assms(2) show ?thesis by (intro same) (auto simp: resolve_unbound_def intro: login_effect_same)
  next
    case (Inr email)
    show ?thesis
    proof (cases "xe_fails x XEmail \<or> policy \<noteq> ProvisionOpen \<or> GetUserByEmail (xe_cf x) s email \<noteq> None")
      case True
      with assms Inr q show ?thesis
        by (intro same) (auto simp: resolve_unbound_def Let_def intro: login_effect_same match_account_effect
            split: if_splits option.splits)
    next
      case False
      then have "provision_loop x provider subject email (username_base email (ei_Username idn)) s
          [0..<provisionAttempts] = (s', r)"
        using assms(2) Inr q by (auto simp: resolve_unbound_def provision_def Let_def)
      from provision_loop_effect [OF this assms(1) username_base_legal] False Inr show ?thesis
        by (auto simp: screen_email_Inr subset_iff)
    qed
  qed
qed

lemma Resolve_effect:
  assumes "quiet_ext x" "Resolve x policy s provider idn = (s', r)"
  shows "\<exists>us. login_effect provider (TrimSpace (ei_Subject idn)) s s' r us \<and>
    (us \<noteq> [] \<longrightarrow> policy = ProvisionOpen \<and> ei_EmailVerified idn) \<and>
    (\<forall>u \<in> set us. provisioned (ToLower (xe_uni_lower x) (TrimSpace (ei_Email idn))) u)"
proof -
  have q: "xe_interf x c t = t" for c t using assms(1) by (simp add: quiet_ext_def)
  show ?thesis
  proof (cases "\<exists>subject. screen_identity x provider idn = Inr subject \<and> \<not> xe_fails x XIdentity \<and>
      GetAuthIdentity s provider subject = None")
    case True
    then obtain subject where c: "screen_identity x provider idn = Inr subject" "\<not> xe_fails x XIdentity"
      "GetAuthIdentity s provider subject = None" by blast
    then have "resolve_unbound x policy s provider subject idn = (s', r)"
      using assms(2) q by (simp add: Resolve_def Let_def)
    from resolve_unbound_effect [OF assms(1) this] c(1) show ?thesis by (auto simp: screen_identity_Inr)
  next
    case False
    then have "s' = s" using assms(2) q
      by (auto simp: Resolve_def Let_def split: sum.splits if_splits option.splits)
    then show ?thesis using login_effect_same by (intro exI [of _ "[]"]) auto
  qed
qed

text \<open>C25. What an external login writes, with no other session in between: at most one user row and one binding.
  A user row is written only under the policy \<^verbatim>\<open>open\<close> for a verified e-mail; its role is \<^verbatim>\<open>user\<close>, it has this
  e-mail, the password hash that never verifies and a username of 3 to 32 legal characters, whatever the identity
  suggested. The binding is of this identity to the account that the login returns. A rejected login writes
  nothing.\<close>

theorem external_login_writes:
  assumes "quiet_ext x" "Resolve x policy s provider idn = (s', r)"
  shows "\<exists>us as. s' = s\<lparr>users := users s @ us, auth_identities := auth_identities s @ as\<rparr> \<and>
    length us \<le> 1 \<and> length as \<le> 1 \<and> (us \<noteq> [] \<longrightarrow> policy = ProvisionOpen \<and> ei_EmailVerified idn) \<and>
    list_all (\<lambda>u. u_Role u = ''user'' \<and> u_PasswordHash u = ''!'' \<and> username_legal (u_Username u) \<and>
      u_Email u = ToLower (xe_uni_lower x) (TrimSpace (ei_Email idn))) us \<and>
    list_all (\<lambda>a. ai_Provider a = provider \<and> ai_Subject a = TrimSpace (ei_Subject idn) \<and>
      (\<exists>u. r = Inr u \<and> ai_UserID a = u_ID u)) as \<and>
    (\<forall>e. r = Inl (Rejected e) \<longrightarrow> s' = s)"
proof -
  from Resolve_effect [OF assms] obtain us as where "added s s' us as" "length us \<le> 1" "length as \<le> 1"
    "us \<noteq> [] \<longrightarrow> policy = ProvisionOpen \<and> ei_EmailVerified idn"
    "\<forall>u \<in> set us. provisioned (ToLower (xe_uni_lower x) (TrimSpace (ei_Email idn))) u"
    "\<forall>a \<in> set as. ident_key a = (provider, TrimSpace (ei_Subject idn)) \<and> (\<exists>u. r = Inr u \<and> ai_UserID a = u_ID u)"
    "\<forall>e. r = Inl (Rejected e) \<longrightarrow> us = [] \<and> as = []"
    by (auto simp: login_effect_def)
  then show ?thesis
    by (intro exI [of _ us] exI [of _ as]) (auto simp: added_def provisioned_def ident_key_def list_all_iff)
qed

subsection \<open>A binding decides the later logins\<close>

lemma update_user_ids: "(\<And>u. u_ID (f u) = u_ID u) \<Longrightarrow> u_ID ` set (users (update_user s i f)) = u_ID ` set (users s)"
proof -
  assume "\<And>u. u_ID (f u) = u_ID u"
  then have "map u_ID (users (update_user s i f)) = map u_ID (users s)" by (simp add: update_user_def)
  then show ?thesis by (metis set_map)
qed

lemma account_write_users:
  assumes "account_write cf s s'"
  shows "u_ID ` set (users s) \<subseteq> u_ID ` set (users s')"
  using assms
  by cases (auto simp: CreateUser_def UpdateUserAdminFields_def UpdateUserPassword_def update_user_ids Let_def
      CreateAuthIdentity_def CreateAPIToken_def DeleteAPIToken_def DeleteAPITokenByID_def DeleteAPITokensForUser_def
      delete_tokens_def TouchAPIToken_def split: if_splits)

lemma account_write_identities:
  assumes "account_write cf s s'"
  shows "\<exists>as. auth_identities s' = auth_identities s @ as"
  using assms
  by cases (auto simp: CreateUser_def UpdateUserAdminFields_def UpdateUserPassword_def update_user_def Let_def
      CreateAuthIdentity_def CreateAPIToken_def DeleteAPIToken_def DeleteAPITokenByID_def DeleteAPITokensForUser_def
      delete_tokens_def TouchAPIToken_def split: if_splits)

lemma account_writes_keep_binding:
  assumes "(account_write cf)\<^sup>*\<^sup>* s s'" "GetAuthIdentity s provider subject = Some ai"
  shows "GetAuthIdentity s' provider subject = Some ai"
  using assms
proof (induction rule: rtranclp_induct)
  case (step t t')
  then obtain as where "auth_identities t' = auth_identities t @ as" using account_write_identities by blast
  with step show ?case by (auto simp: GetAuthIdentity_def find_append_hit)
qed

lemma account_writes_keep_user:
  assumes "(account_write cf)\<^sup>*\<^sup>* s s'" "i \<in> u_ID ` set (users s)"
  shows "i \<in> u_ID ` set (users s')"
  using assms by (induction rule: rtranclp_induct) (auto dest: account_write_users)

lemma bind_as_writes: "bind_as x s provider subject u = (s', r) \<Longrightarrow> quiet_ext x \<Longrightarrow> (account_write cf)\<^sup>*\<^sup>* s s'"
proof -
  assume b: "bind_as x s provider subject u = (s', r)" and "quiet_ext x"
  then have q: "xe_interf x XBind s = s" by (simp add: quiet_ext_def)
  from bind_as_cases [OF b] obtain e where "bind_identity x s provider subject (u_ID u) = (s', e)" by blast
  from bind_identity_cases [OF this] q have "s' = s \<or> account_write cf s s'"
    using account_write.create_identity by auto
  then show ?thesis by auto
qed

lemma provision_loop_writes:
  "provision_loop x provider subject email base s ns = (s', r) \<Longrightarrow> quiet_ext x \<Longrightarrow>
   (account_write (xe_cf x))\<^sup>*\<^sup>* s s'"
proof (induction x provider subject email base s ns rule: provision_loop.induct)
  case (2 x provider subject email base s n ns)
  have q: "xe_interf x c t = t" for c t using "2.prems"(2) by (simp add: quiet_ext_def)
  show ?case
  proof (cases "xe_newid x n")
    case i: (Some i)
    show ?thesis
    proof (cases "CreateUser (xe_cf x) s (xe_now x (XCreate n)) i (candidateUsername base n) email noPasswordHash roleParticipant False")
      case (Inr p)
      then have "account_write (xe_cf x) s (fst p)" by (cases p) (auto intro: account_write.create_user)
      moreover have "s' = s \<or> bind_as x (fst p) provider subject (snd p) = (s', r)"
        using "2.prems"(1) i Inr q by (auto simp: Let_def case_prod_unfold split: if_splits)
      ultimately show ?thesis using bind_as_writes [OF _ "2.prems"(2)]
        by (metis converse_rtranclp_into_rtranclp rtranclp.rtrancl_refl)
    next
      case (Inl e)
      show ?thesis
      proof (cases "s' = s")
        case False
        then have f: "\<not> xe_fails x (XCreate n)" "isUniqueViolation e" "\<not> xe_fails x (XRecheck n)"
          using "2.prems"(1) i Inl q by (auto simp: Let_def split: if_splits)
        show ?thesis
        proof (cases "GetUserByEmail (xe_cf x) s email")
          case None
          then show ?thesis using "2.IH"[OF i refl] "2.prems" i f Inl q by (auto simp: Let_def)
        next
          case (Some v)
          then have "bind_as x s provider subject v = (s', r)"
            using "2.prems"(1) i f Inl q False by (auto simp: Let_def match_account_def split: if_splits)
          then show ?thesis using bind_as_writes "2.prems"(2) by blast
        qed
      qed simp
    qed
  qed (use "2.prems" in auto)
qed simp

lemma Resolve_writes:
  assumes "Resolve x policy s provider idn = (s', r)" "quiet_ext x"
  shows "(account_write (xe_cf x))\<^sup>*\<^sup>* s s'"
  using assms
  by (auto simp: Resolve_def resolve_unbound_def match_account_def provision_def quiet_ext_def Let_def
      intro: bind_as_writes provision_loop_writes split: sum.splits if_splits option.splits)

lemma Resolve_binds:
  assumes "quiet_ext x" "Resolve x policy s provider idn = (s', Inr u)"
  shows "\<exists>ai. GetAuthIdentity s' provider (TrimSpace (ei_Subject idn)) = Some ai \<and> ai_UserID ai = u_ID u"
proof -
  have q: "xe_interf x c t = t" for c t using assms(1) by (simp add: quiet_ext_def)
  let ?g = "\<lambda>t. GetAuthIdentity t provider (TrimSpace (ei_Subject idn))"
  from Resolve_Inr [OF assms(2)] q consider ai where "?g s = Some ai" "s' = s" "GetUserByID s (ai_UserID ai) = Some u"
    | "?g s = None" "resolve_unbound x policy s provider (TrimSpace (ei_Subject idn)) idn = (s', Inr u)"
    by (auto simp: Let_def screen_identity_Inr)
  then show ?thesis
  proof cases
    case 1
    then show ?thesis using users_by_id.look_hit by fastforce
  next
    case 2
    from Resolve_effect [OF assms] obtain us as where "added s s' us as"
      "\<forall>a \<in> set as. ai_UserID a = u_ID u" by (auto simp: login_effect_def)
    moreover from resolve_unbound_Inr [OF 2(2)] obtain ai where "?g s' = Some ai" by auto
    ultimately show ?thesis using identities.look_hit [of s' "(provider, TrimSpace (ei_Subject idn))" ai]
        identities.look_miss [of s "(provider, TrimSpace (ei_Subject idn))" ai] 2(1)
      by (auto simp: added_def)
  qed
qed

text \<open>Once an identity has logged in, every later login of it reaches the same account or is refused: whatever
  was written in between, whatever the policy is by then and whatever e-mail, verification or username the
  provider asserts by then, the answer is the account row as it is now, or a rejection when it is banned, and
  nothing is written.\<close>

theorem login_again:
  assumes "quiet_ext x" "accounts_ok (xe_cf x) s" "Resolve x policy s provider idn = (s', Inr u)"
    and "(account_write (xe_cf x))\<^sup>*\<^sup>* s' t"
    and "quiet_ext y" "\<And>c. \<not> xe_fails y c" "ei_Subject later = ei_Subject idn"
    and "screen_identity y provider later = Inr subject"
  shows "\<exists>v. GetUserByID t (u_ID u) = Some v \<and>
    Resolve y policy' t provider later =
      (t, if u_Banned v then Inl (Rejected ''bound account is banned'') else Inr v)"
proof -
  from Resolve_binds [OF assms(1,3)] obtain ai where "GetAuthIdentity s' provider (TrimSpace (ei_Subject idn)) = Some ai"
    and ai: "ai_UserID ai = u_ID u" by blast
  then have g: "GetAuthIdentity t provider (TrimSpace (ei_Subject idn)) = Some ai"
    using account_writes_keep_binding [OF assms(4)] by blast
  have ok: "accounts_ok (xe_cf x) t"
    using Resolve_writes [OF assms(3,1)] assms(4,2)
    by (metis (no_types) account_writes_ok)
  have "ai \<in> set (auth_identities t)"
    using g identities.look_hit [of t "(provider, TrimSpace (ei_Subject idn))" ai] by simp
  with ok have "ai_UserID ai \<in> u_ID ` set (users t)" by (simp add: accounts_ok_def)
  then have "u_ID u \<in> u_ID ` set (users t)" using ai by simp
  then obtain v where v: "GetUserByID t (u_ID u) = Some v" using users_by_id.look_miss [of t "u_ID u"]
    by (metis image_iff not_Some_eq)
  have "subject = TrimSpace (ei_Subject idn)" using assms(7,8) by (simp add: screen_identity_Inr)
  with g ai v assms(5,6,8) show ?thesis by (simp add: Resolve_def quiet_ext_def)
qed

subsection \<open>Examples\<close>

definition calm_ext :: ext_env where
  "calm_ext = \<lparr>xe_fails = (\<lambda>c. False), xe_interf = (\<lambda>c s. s), xe_now = (\<lambda>c. 7), xe_newid = (\<lambda>n. Some (100 + n)),
     xe_cf = id, xe_uni_lower = id, xe_parse_addr = (\<lambda>a. True)\<rparr>"

definition eve_identity :: ExternalIdentity where
  "eve_identity = \<lparr>ei_Subject = ''sub-1'', ei_Email = '' Eve@X.org'', ei_Username = ''ada'', ei_EmailVerified = True,
     ei_Claims = [(''locale'', ''fr'')]\<rparr>"

lemma quiet_calm: "quiet_ext calm_ext"
  by (simp add: quiet_ext_def calm_ext_def)

text \<open>The suggested username is taken by \<open>ada\<close>, so the second candidate is used.\<close>

definition eve_store :: adb where
  "eve_store = fst (Resolve calm_ext ProvisionOpen ada_store ''oidc'' eve_identity)"

definition eve :: User where
  "eve = \<lparr>u_ID = 101, u_Username = ''ada-2'', u_Email = ''eve@x.org'', u_PasswordHash = ''!'', u_Role = ''user'',
     u_Banned = False, u_Hidden = False, u_CreatedAt = 7, u_UpdatedAt = 7\<rparr>"

lemma eve_login: "Resolve calm_ext ProvisionOpen ada_store ''oidc'' eve_identity = (eve_store, Inr eve)"
  by code_simp

theorem external_login_sound_witness:
  "\<not> u_Banned eve \<and> GetAuthIdentity eve_store ''oidc'' ''sub-1'' \<noteq> None"
proof -
  have "GetAuthIdentity ada_store ''oidc'' ''sub-1'' = None" "TrimSpace (ei_Subject eve_identity) = ''sub-1''"
    "xe_interf calm_ext XIdentity ada_store = ada_store" by code_simp+
  with external_login_sound [OF eve_login] show ?thesis by (simp add: Let_def)
qed

theorem external_login_writes_witness:
  "users eve_store = users ada_store @ [eve] \<and> u_Role eve = ''user'' \<and> username_legal (u_Username eve) \<and>
   api_tokens eve_store = api_tokens ada_store"
proof -
  from external_login_writes [OF quiet_calm eve_login] obtain us as where
    s: "eve_store = ada_store\<lparr>users := users ada_store @ us, auth_identities := auth_identities ada_store @ as\<rparr>"
    and us: "list_all (\<lambda>u. u_Role u = ''user'' \<and> u_PasswordHash u = ''!'' \<and> username_legal (u_Username u) \<and>
      u_Email u = ToLower (xe_uni_lower calm_ext) (TrimSpace (ei_Email eve_identity))) us" by blast
  have "users eve_store = users ada_store @ us" by (subst s) simp
  moreover have "users eve_store = users ada_store @ [eve]" by code_simp
  ultimately have "us = [eve]" by (metis same_append_eq)
  with us have "u_Role eve = ''user'' \<and> username_legal (u_Username eve)" by simp
  moreover have "api_tokens eve_store = api_tokens ada_store" by (subst s) simp
  ultimately show ?thesis using \<open>users eve_store = users ada_store @ [eve]\<close> by blast
qed

text \<open>The same subject later, under the policy \<^verbatim>\<open>off\<close>, with no e-mail at all and an admin's username.\<close>

definition eve_later :: ExternalIdentity where
  "eve_later = eve_identity\<lparr>ei_Email := [], ei_EmailVerified := False, ei_Username := ''root''\<rparr>"

theorem login_again_witness:
  "Resolve calm_ext ProvisionOff eve_store ''oidc'' eve_later = (eve_store, Inr eve)"
proof -
  note ok = ada_store_ok
  have c: "xe_cf calm_ext = id" "\<And>c. \<not> xe_fails calm_ext c" "ei_Subject eve_later = ei_Subject eve_identity"
    by (simp_all add: calm_ext_def eve_later_def)
  have sc: "screen_identity calm_ext ''oidc'' eve_later = Inr ''sub-1''" by code_simp
  have v: "GetUserByID eve_store (u_ID eve) = Some eve" "\<not> u_Banned eve" by code_simp+
  show ?thesis
    using login_again [OF quiet_calm _ eve_login rtranclp.rtrancl_refl quiet_calm c(2,3) sc, of ProvisionOff] ok v c(1)
    by simp
qed

subsection \<open>Two logins of one identity at once\<close>

text \<open>Two accounts, and two logins of one subject for which the provider asserts different verified addresses. The
  second runs to its end just before the first one's binding.\<close>

definition pair_store :: adb where
  "pair_store = (case CreateUser id ada_store 3 2 ''eve'' ''eve@x.org'' ''!'' ''user'' False of Inr (s, u) \<Rightarrow> s | _ \<Rightarrow> ada_store)"

definition other_address :: ExternalIdentity where
  "other_address = eve_identity\<lparr>ei_Email := ''ada@x.org''\<rparr>"

definition racing_ext :: ext_env where
  "racing_ext = calm_ext\<lparr>xe_interf := (\<lambda>c s. if c = XBind
     then fst (Resolve calm_ext ProvisionInviteOnly s ''oidc'' other_address) else s)\<rparr>"

text \<open>\<^verbatim>\<open>bind\<close> takes a unique violation for success, on the ground that the binding written by the concurrent
  login is the one it would have written. It need not be: here the login returns account 2 while the identity is
  bound to account 1, so its next login reaches the other account.\<close>

theorem bind_race_other_account:
  "(let (s', r) = Resolve racing_ext ProvisionInviteOnly pair_store ''oidc'' eve_identity in
     (case r of Inr u \<Rightarrow> u_ID u = 2 | _ \<Rightarrow> False) \<and>
     map_option ai_UserID (GetAuthIdentity s' ''oidc'' ''sub-1'') = Some 1 \<and>
     (case snd (Resolve calm_ext ProvisionInviteOnly s' ''oidc'' eve_identity) of Inr u \<Rightarrow> u_ID u = 1 | _ \<Rightarrow> False))"
  by code_simp

end
