(* ===== verification/Auth_Password.thy ===== *)
theory Auth_Password
  imports Auth_External
begin

text \<open>
  Passwords and the built-in login provider: \<^verbatim>\<open>internal/auth/password.go\<close>, \<^verbatim>\<open>provider.go\<close>, \<^verbatim>\<open>commonpw.go\<close>.

  The argon2id derivation is a parameter: password, salt, iterations, memory and threads, length of the key to the
  key, or \<open>None\<close> where the library panics. What the concurrency gate answers to one request is a parameter too
  (\<open>gate_answer\<close>); \<^verbatim>\<open>Hash_Gate\<close> has the gate itself. The bytes of \<^verbatim>\<open>crypto/rand\<close> are given, \<open>None\<close> for an error.
\<close>

type_synonym argon2 = "string \<Rightarrow> string \<Rightarrow> nat \<Rightarrow> nat \<Rightarrow> nat \<Rightarrow> nat \<Rightarrow> string option"

datatype gate_answer = GateOpen | GateCancelled | GateTimeout

datatype pw_error = ErrInvalidHash | PwErr app_error | PwPanic

definition argonMemoryKiB :: nat where "argonMemoryKiB = 64 * 1024"
definition argonIterations :: nat where "argonIterations = 3"
definition argonThreads :: nat where "argonThreads = 4"
definition argonSaltLen :: nat where "argonSaltLen = 16"
definition argonKeyLen :: nat where "argonKeyLen = 32"

text \<open>\<^verbatim>\<open>argon2.Version\<close>, 0x13.\<close>

definition argon2_Version :: nat where "argon2_Version = 19"

definition acquireHash :: "duration \<Rightarrow> gate_answer \<Rightarrow> pw_error option" where
  "acquireHash hashWait g =
     (case g of
        GateOpen \<Rightarrow> None
      | GateCancelled \<Rightarrow> Some (PwErr CtxErr)
      | GateTimeout \<Rightarrow> Some (PwErr (Unavailable ''the server is busy verifying passwords; retry shortly'' hashWait)))"

definition deriveKey ::
  "argon2 \<Rightarrow> duration \<Rightarrow> gate_answer \<Rightarrow> string \<Rightarrow> string \<Rightarrow> nat \<Rightarrow> nat \<Rightarrow> nat \<Rightarrow> nat \<Rightarrow> pw_error + string" where
  "deriveKey argon wait g password salt iters mem threads keyLen =
     (case acquireHash wait g of
        Some e \<Rightarrow> Inl e
      | None \<Rightarrow> (case argon password salt iters mem threads keyLen of None \<Rightarrow> Inl PwPanic | Some k \<Rightarrow> Inr k))"

text \<open>The PHC string \<^verbatim>\<open>$argon2id$v=%d$m=%d,t=%d,p=%d$%s$%s\<close>.\<close>

definition phc_string :: "nat \<Rightarrow> nat \<Rightarrow> nat \<Rightarrow> string \<Rightarrow> string \<Rightarrow> string" where
  "phc_string m t p salt key =
     ''$argon2id$v='' @ itoa argon2_Version @ ''$m='' @ itoa m @ '',t='' @ itoa t @ '',p='' @ itoa p @
     ''$'' @ base64_EncodeToString salt @ ''$'' @ base64_EncodeToString key"

definition HashPassword ::
  "argon2 \<Rightarrow> duration \<Rightarrow> string option \<Rightarrow> gate_answer \<Rightarrow> string \<Rightarrow> pw_error + string" where
  "HashPassword argon wait rand g password =
     (case rand of
        None \<Rightarrow> Inl (PwErr (Internal ''auth: generating salt''))
      | Some salt \<Rightarrow>
          (case deriveKey argon wait g password salt argonIterations argonMemoryKiB argonThreads argonKeyLen of
             Inl e \<Rightarrow> Inl e
           | Inr key \<Rightarrow> Inr (phc_string argonMemoryKiB argonIterations argonThreads salt key)))"

subsection \<open>Parsing\<close>

text \<open>\<^verbatim>\<open>fmt.Sscanf\<close> on the formats of \<^verbatim>\<open>parsePHC\<close>: literal characters match themselves; \<^verbatim>\<open>%d\<close> skips white space (a
  line break is an error), then reads decimal digits into an unsigned integer of the given width. What follows
  the last verb is ignored.\<close>

definition scan_lit :: "string \<Rightarrow> string \<Rightarrow> string option" where
  "scan_lit lit s = (if HasPrefix s lit then Some (drop (length lit) s) else None)"

definition scan_uint :: "nat \<Rightarrow> string \<Rightarrow> (nat \<times> string) option" where
  "scan_uint bits s =
     (let s = cut_codes (filter (\<lambda>c. c \<noteq> [CHR 0x0A]) space_codes) s;
          ds = takeWhile is_digit s;
          n = nat (digits_value ds 0)
      in if ds \<noteq> [] \<and> n < 2 ^ bits then Some (n, drop (length ds) s) else None)"

text \<open>The version is read into an \<^verbatim>\<open>int\<close>: a sign is accepted.\<close>

definition scan_int :: "string \<Rightarrow> int option" where
  "scan_int s =
     (let s = cut_codes (filter (\<lambda>c. c \<noteq> [CHR 0x0A]) space_codes) s;
          (neg, t) = (case s of c # cs \<Rightarrow> if c = CHR ''-'' then (True, cs) else if c = CHR ''+'' then (False, cs) else (False, s)
                      | [] \<Rightarrow> (False, []));
          ds = takeWhile is_digit t;
          v = (if neg then - digits_value ds 0 else digits_value ds 0)
      in if ds \<noteq> [] \<and> - (2 ^ 63) \<le> v \<and> v < 2 ^ 63 then Some v else None)"

record phcParams =
  ph_memoryKiB :: nat
  ph_iterations :: nat
  ph_threads :: nat
  ph_salt :: string
  ph_hash :: string

definition scan_params :: "string \<Rightarrow> (nat \<times> nat \<times> nat) option" where
  "scan_params s =
     Option.bind (scan_lit ''m='' s) (\<lambda>s.
     Option.bind (scan_uint 32 s) (\<lambda>(m, s).
     Option.bind (scan_lit '',t='' s) (\<lambda>s.
     Option.bind (scan_uint 32 s) (\<lambda>(t, s).
     Option.bind (scan_lit '',p='' s) (\<lambda>s.
     Option.bind (scan_uint 8 s) (\<lambda>(p, s). Some (m, t, p)))))))"

text \<open>\<open>None\<close> is \<^verbatim>\<open>ErrInvalidHash\<close>.\<close>

definition parsePHC :: "string \<Rightarrow> phcParams option" where
  "parsePHC encoded =
     (let parts = Split encoded CHR ''$''
      in if length parts \<noteq> 6 \<or> parts ! 1 \<noteq> ''argon2id'' then None
         else if Option.bind (scan_lit ''v='' (parts ! 2)) scan_int \<noteq> Some (int argon2_Version) then None
         else case scan_params (parts ! 3) of
                None \<Rightarrow> None
              | Some (m, t, p) \<Rightarrow>
                  (case base64_DecodeString (parts ! 4) of
                     None \<Rightarrow> None
                   | Some salt \<Rightarrow>
                       (case base64_DecodeString (parts ! 5) of
                          None \<Rightarrow> None
                        | Some key \<Rightarrow> Some \<lparr>ph_memoryKiB = m, ph_iterations = t, ph_threads = p, ph_salt = salt,
                                            ph_hash = key\<rparr>)))"

definition VerifyPassword ::
  "argon2 \<Rightarrow> duration \<Rightarrow> gate_answer \<Rightarrow> string \<Rightarrow> string \<Rightarrow> pw_error + bool" where
  "VerifyPassword argon wait g password encoded =
     (case parsePHC encoded of
        None \<Rightarrow> Inl ErrInvalidHash
      | Some p \<Rightarrow>
          (case deriveKey argon wait g password (ph_salt p) (ph_iterations p) (ph_memoryKiB p) (ph_threads p)
                  (length (ph_hash p)) of
             Inl e \<Rightarrow> Inl e
           | Inr key \<Rightarrow> Inr (ConstantTimeCompare key (ph_hash p) = 1)))"

definition NeedsRehash :: "string \<Rightarrow> bool" where
  "NeedsRehash encoded =
     (case parsePHC encoded of
        None \<Rightarrow> True
      | Some p \<Rightarrow> ph_memoryKiB p \<noteq> argonMemoryKiB \<or> ph_iterations p \<noteq> argonIterations \<or> ph_threads p \<noteq> argonThreads)"

text \<open>\<^verbatim>\<open>dummyHash\<close> is computed before the gate is configured; a failure stops the process.\<close>

definition dummyHash :: "argon2 \<Rightarrow> string option \<Rightarrow> string option" where
  "dummyHash argon rand =
     (case HashPassword argon 0 rand GateOpen ''osctf-dummy-timing-uniformity'' of Inl _ \<Rightarrow> None | Inr h \<Rightarrow> Some h)"

definition BurnHash :: "argon2 \<Rightarrow> duration \<Rightarrow> string \<Rightarrow> gate_answer \<Rightarrow> string \<Rightarrow> pw_error option" where
  "BurnHash argon wait dummy g password =
     (case VerifyPassword argon wait g password dummy of Inl e \<Rightarrow> Some e | Inr _ \<Rightarrow> None)"

definition pw_unavailable :: "pw_error \<Rightarrow> bool" where
  "pw_unavailable e \<longleftrightarrow> (case e of PwErr a \<Rightarrow> errors_Is a ErrUnavailable | _ \<Rightarrow> False)"

subsection \<open>Common passwords\<close>

definition commonPasswords :: "string list" where
  "commonPasswords =
    [''password'', ''password1'', ''password123'', ''12345678'', ''123456789'', ''1234567890'',
     ''qwertyuiop'', ''qwerty123'', ''iloveyou'', ''sunshine'', ''princess'', ''football'', ''baseball'',
     ''welcome1'', ''abc12345'', ''monkey123'', ''letmein1'', ''shadow123'', ''superman'', ''michael1'',
     ''computer'', ''jennifer'', ''trustno1'', ''jordan23'', ''harley123'', ''hunter123'', ''ranger123'',
     ''buster123'', ''thomas123'', ''robert123'', ''soccer123'', ''batman123'', ''test1234'', ''pass1234'',
     ''killer123'', ''hockey123'', ''george123'', ''charlie1'', ''andrew123'', ''michelle'', ''jessica1'',
     ''pepper123'', ''daniel123'', ''access123'', ''123123123'', ''654321123'', ''maggie123'',
     ''starwars'', ''silver123'', ''william1'', ''dallas123'', ''yankees1'', ''123456789a'', ''987654321'',
     ''heather1'', ''hammer123'', ''summer123'', ''corvette'', ''taylor123'', ''austin123'', ''1234qwer'',
     ''q1w2e3r4'', ''qwer1234'', ''asdfghjkl'', ''zxcvbnm123'', ''asdf1234'', ''dragon123'', ''master123'',
     ''mustang1'', ''matrix123'', ''freedom1'', ''whatever1'', ''nicole123'', ''junior123'', ''anthony1'',
     ''friends1'', ''orange123'', ''camaro123'', ''secret123'', ''merlin123'', ''phoenix1'', ''mickey123'',
     ''bailey123'', ''knight123'', ''iceman123'', ''tigers123'', ''purple123'', ''united123'',
     ''aaaaaaaa'', ''11111111'', ''internet'', ''victoria'', ''melissa1'', ''marina123'', ''gateway1'',
     ''chelsea1'', ''diamond1'', ''scooter1'', ''richard1'', ''fuckyou1'', ''midnight'', ''blahblah'',
     ''spider123'', ''little123'', ''biteme123'', ''1qaz2wsx'', ''1q2w3e4r'', ''qazwsx123'', ''admin123'',
     ''administrator'', ''changeme'', ''letmein123'', ''welcome123'']"

definition IsCommonPassword :: "string \<Rightarrow> bool" where
  "IsCommonPassword pw \<longleftrightarrow> map ascii_lower pw \<in> set commonPasswords"

subsection \<open>The gate's size\<close>

definition perHashBytes :: nat where "perHashBytes = argonMemoryKiB * 1024"

definition hashConcurrencyFor :: "nat \<Rightarrow> nat" where
  "hashConcurrencyFor memBytes =
     (if memBytes = 0 then 0
      else let k = memBytes div 4 div perHashBytes in if k < 2 then 2 else if k > 64 then 64 else k)"

definition clampInt :: "int \<Rightarrow> int \<Rightarrow> int \<Rightarrow> int" where
  "clampInt v lo hi = (if v < lo then lo else if v > hi then hi else v)"

text \<open>\<open>mem\<close> is what the host reports, 0 when nothing is readable; \<open>procs\<close> is \<^verbatim>\<open>GOMAXPROCS\<close>.\<close>

definition DefaultHashConcurrency :: "nat \<Rightarrow> int \<Rightarrow> int" where
  "DefaultHashConcurrency mem procs =
     (let k = int (hashConcurrencyFor mem) in if k > 0 then k else clampInt procs 2 64)"

subsection \<open>The e-mail and password provider\<close>

datatype cred_error = ErrInvalidCredentials | CredErr app_error | CredPanic

record cred_env =
  ce_cf :: "string \<Rightarrow> string"
  ce_argon :: argon2
  ce_wait :: duration
  ce_dummy :: string
  ce_lookup_fails :: bool
  ce_gate :: gate_answer
  ce_rehash :: bool
  ce_rehash_gate :: gate_answer
  ce_rehash_rand :: "string option"
  ce_rehash_fails :: bool
  ce_interf :: "adb \<Rightarrow> adb"
  ce_now :: time

text \<open>The callback of the provider, \<^verbatim>\<open>users.RehashPassword\<close> with its error logged. The store may change while
  the password is hashed (\<open>ce_interf\<close>).\<close>

definition rehash_login :: "cred_env \<Rightarrow> adb \<Rightarrow> User \<Rightarrow> string \<Rightarrow> adb" where
  "rehash_login c s u password =
     (if ce_rehash c \<and> NeedsRehash (u_PasswordHash u)
      then (case HashPassword (ce_argon c) (ce_wait c) (ce_rehash_rand c) (ce_rehash_gate c) password of
              Inl _ \<Rightarrow> s
            | Inr h \<Rightarrow> if ce_rehash_fails c then ce_interf c s else UpdateUserPassword (ce_interf c s) (ce_now c) (u_ID u) h)
      else s)"

definition Authenticate_password :: "cred_env \<Rightarrow> adb \<Rightarrow> string \<Rightarrow> string \<Rightarrow> adb \<times> (cred_error + uuid)" where
  "Authenticate_password c s email password =
     (if ce_lookup_fails c then (s, Inl (CredErr (Internal ''auth: looking up user'')))
      else case GetUserByEmail (ce_cf c) s email of
             None \<Rightarrow>
               (case BurnHash (ce_argon c) (ce_wait c) (ce_dummy c) (ce_gate c) password of
                  Some (PwErr a) \<Rightarrow> (s, Inl (if errors_Is a ErrUnavailable then CredErr a else ErrInvalidCredentials))
                | Some PwPanic \<Rightarrow> (s, Inl CredPanic)
                | _ \<Rightarrow> (s, Inl ErrInvalidCredentials))
           | Some u \<Rightarrow>
               (case VerifyPassword (ce_argon c) (ce_wait c) (ce_gate c) password (u_PasswordHash u) of
                  Inl (PwErr a) \<Rightarrow> (s, Inl (if errors_Is a ErrUnavailable then CredErr a else ErrInvalidCredentials))
                | Inl PwPanic \<Rightarrow> (s, Inl CredPanic)
                | Inl ErrInvalidHash \<Rightarrow> (s, Inl ErrInvalidCredentials)
                | Inr ok \<Rightarrow>
                    if \<not> ok then (s, Inl ErrInvalidCredentials)
                    else if u_Banned u then (s, Inl ErrInvalidCredentials)
                    else (rehash_login c s u password, Inr (u_ID u))))"

end
