(* ===== verification/Auth_Password_Safety.thy ===== *)
theory Auth_Password_Safety
  imports Auth_Password
begin

text \<open>
  PHC strings read back what was written, so a stored hash verifies the password it was made from and no password
  with another key; the login provider does not tell an unknown e-mail from a wrong password or a ban; an account
  without a password has no password login, and where its handling differs.
\<close>

subsection \<open>Scanning\<close>

lemma cut_codes_id:
  assumes "\<forall>p \<in> set codes. p \<noteq> [] \<longrightarrow> \<not> HasPrefix s p"
  shows "cut_codes codes s = s"
proof -
  have "List.find (\<lambda>p. p \<noteq> [] \<and> HasPrefix s p) codes = None" using assms by (auto simp: find_None_iff)
  then show ?thesis by (subst cut_codes.simps) simp
qed

lemma digit_not_space:
  assumes "is_digit c"
  shows "cut_codes (filter (\<lambda>c. c \<noteq> [CHR 0x0A]) space_codes) (c # cs) = c # cs"
proof -
  have "\<forall>p \<in> set space_codes. \<not> is_digit (hd p) \<and> p \<noteq> []" by code_simp
  then show ?thesis using assms
    by (intro cut_codes_id) (auto simp: HasPrefix_def neq_Nil_conv take_Suc)
qed

lemma itoa_cons: "\<exists>c cs. itoa n = c # cs \<and> is_digit c"
  using itoa_digits [of n] by (cases "itoa n") auto

lemma takeWhile_itoa:
  assumes "rest = [] \<or> \<not> is_digit (hd rest)"
  shows "takeWhile is_digit (itoa n @ rest) = itoa n"
  using itoa_digits [of n] assms by (cases rest) (auto simp: list_all_iff takeWhile_append)

lemma scan_uint_itoa:
  assumes "n < 2 ^ bits" "rest = [] \<or> \<not> is_digit (hd rest)"
  shows "scan_uint bits (itoa n @ rest) = Some (n, rest)"
proof -
  obtain c cs where "itoa n = c # cs" "is_digit c" using itoa_cons by blast
  then have "cut_codes (filter (\<lambda>c. c \<noteq> [CHR 0x0A]) space_codes) (itoa n @ rest) = itoa n @ rest"
    using digit_not_space by simp
  then show ?thesis using assms(1) itoa_digits [of n]
    by (simp add: scan_uint_def takeWhile_itoa [OF assms(2)] itoa_value)
qed

lemma scan_lit_append [simp]: "scan_lit p (p @ s) = Some s"
  by (simp add: scan_lit_def)

lemma scan_params_itoa:
  assumes "m < 2 ^ 32" "t < 2 ^ 32" "p < 2 ^ 8"
  shows "scan_params (''m='' @ itoa m @ '',t='' @ itoa t @ '',p='' @ itoa p) = Some (m, t, p)"
proof -
  have c: "\<not> is_digit CHR '',''" by code_simp
  have "scan_uint 32 (itoa m @ '',t='' @ itoa t @ '',p='' @ itoa p) = Some (m, '',t='' @ itoa t @ '',p='' @ itoa p)"
    using assms(1) c by (intro scan_uint_itoa) simp_all
  moreover have "scan_uint 32 (itoa t @ '',p='' @ itoa p) = Some (t, '',p='' @ itoa p)"
    using assms(2) c by (intro scan_uint_itoa) simp_all
  moreover have "scan_uint 8 (itoa p) = Some (p, [])"
    using scan_uint_itoa [of p 8 "[]"] assms(3) by simp
  ultimately show ?thesis by (simp only: scan_params_def scan_lit_append Option.bind_lunit bind.bind_lunit case_prod_conv)
qed

lemma no_dollar:
  "CHR ''$'' \<notin> set (itoa n)" "CHR ''$'' \<notin> set (base64_EncodeToString s)"
proof -
  have "\<not> is_digit CHR ''$''" by code_simp
  then show "CHR ''$'' \<notin> set (itoa n)" using itoa_digits [of n] by (auto simp: list_all_iff)
  have "CHR ''$'' \<notin> set base64_alphabet" by code_simp
  then show "CHR ''$'' \<notin> set (base64_EncodeToString s)"
    using encode_chars [OF alphabets_ok(3), of s] by (auto simp: base64_EncodeToString_def)
qed

lemma parse_phc:
  assumes "m < 2 ^ 32" "t < 2 ^ 32" "p < 2 ^ 8"
  shows "parsePHC (phc_string m t p salt key) =
    Some \<lparr>ph_memoryKiB = m, ph_iterations = t, ph_threads = p, ph_salt = salt, ph_hash = key\<rparr>"
proof -
  let ?v = "''v='' @ itoa argon2_Version" and ?p = "''m='' @ itoa m @ '',t='' @ itoa t @ '',p='' @ itoa p"
  have d: "CHR ''$'' \<notin> set ?v" "CHR ''$'' \<notin> set ?p" "CHR ''$'' \<notin> set ''argon2id''" using no_dollar(1) by auto
  have eq: "phc_string m t p salt key = [] @ CHR ''$'' # ''argon2id'' @ CHR ''$'' # ?v @ CHR ''$'' # ?p @ CHR ''$'' #
      base64_EncodeToString salt @ CHR ''$'' # base64_EncodeToString key"
    by (simp add: phc_string_def)
  have e: "CHR ''$'' \<notin> set []" by simp
  have s: "Split (phc_string m t p salt key) CHR ''$'' =
      [[], ''argon2id'', ?v, ?p, base64_EncodeToString salt, base64_EncodeToString key]"
    unfolding eq Split_append [OF e] Split_append [OF d(3)] Split_append [OF d(1)] Split_append [OF d(2)]
      Split_append [OF no_dollar(2)] Split_single [OF no_dollar(2)] ..
  have "Option.bind (scan_lit ''v='' ?v) scan_int = Some (int argon2_Version)" by code_simp
  then show ?thesis
    using scan_params_itoa [OF assms] unfolding parsePHC_def s by (simp add: base64_roundtrip)
qed

subsection \<open>Hashing and verifying\<close>

lemma argon_bounds: "argonMemoryKiB < 2 ^ 32" "argonIterations < 2 ^ 32" "argonThreads < 2 ^ 8"
  by (simp_all add: argonMemoryKiB_def argonIterations_def argonThreads_def)

lemmas parse_hash = parse_phc [OF argon_bounds]

text \<open>C31. Hashing and verifying agree. A hash that \<^verbatim>\<open>HashPassword\<close> made, with whatever salt, is parsed back to its
  parameters, salt and key, does not need a rehash, and \<^verbatim>\<open>VerifyPassword\<close> accepts a password for it exactly when
  argon2 derives the same key from that password and the salt; in particular it accepts the password it was made
  from. The hypothesis on the parameter is that argon2 returns a key of the requested length.\<close>

theorem hash_verify_roundtrip:
  assumes "HashPassword argon w (Some salt) g pw = Inr h"
    and "\<And>k q. argon q salt argonIterations argonMemoryKiB argonThreads argonKeyLen = Some k \<Longrightarrow> length k = argonKeyLen"
    and "argon pw' salt argonIterations argonMemoryKiB argonThreads argonKeyLen = Some key'"
  shows "NeedsRehash h = False \<and> VerifyPassword argon w' GateOpen pw h = Inr True \<and>
    VerifyPassword argon w' GateOpen pw' h =
      Inr (argon pw salt argonIterations argonMemoryKiB argonThreads argonKeyLen = Some key')"
proof -
  obtain key where k: "argon pw salt argonIterations argonMemoryKiB argonThreads argonKeyLen = Some key"
    "h = phc_string argonMemoryKiB argonIterations argonThreads salt key"
    using assms(1) by (auto simp: HashPassword_def deriveKey_def acquireHash_def split: option.splits gate_answer.splits)
  moreover have "length key = argonKeyLen" using assms(2) k(1) .
  ultimately show ?thesis using assms(3)
    by (auto simp: NeedsRehash_def VerifyPassword_def parse_hash deriveKey_def acquireHash_def
        ConstantTimeCompare_iff)
qed

text \<open>A stand-in for argon2: the password, cut and filled to the length.\<close>

definition toy_argon :: argon2 where
  "toy_argon password salt t m p n = Some (take n (password @ salt @ replicate n CHR ''.''))"

theorem hash_verify_roundtrip_witness:
  "\<exists>h. HashPassword toy_argon 0 (Some ''0123456789abcdef'') GateOpen ''tr0ub4dor'' = Inr h \<and>
     VerifyPassword toy_argon 5 GateOpen ''tr0ub4dor'' h = Inr True \<and>
     VerifyPassword toy_argon 5 GateOpen ''Tr0ub4dor'' h = Inr False"
proof -
  obtain h where h: "HashPassword toy_argon 0 (Some ''0123456789abcdef'') GateOpen ''tr0ub4dor'' = Inr h"
    by (simp add: HashPassword_def deriveKey_def acquireHash_def toy_argon_def)
  have len: "\<And>k q. toy_argon q ''0123456789abcdef'' argonIterations argonMemoryKiB argonThreads argonKeyLen = Some k \<Longrightarrow>
      length k = argonKeyLen" by (auto simp: toy_argon_def)
  obtain k where k: "toy_argon ''Tr0ub4dor'' ''0123456789abcdef'' argonIterations argonMemoryKiB argonThreads argonKeyLen = Some k"
    by (simp add: toy_argon_def)
  have "toy_argon ''tr0ub4dor'' ''0123456789abcdef'' argonIterations argonMemoryKiB argonThreads argonKeyLen \<noteq> Some k"
    using k by (auto simp: toy_argon_def argonKeyLen_def)
  then show ?thesis using hash_verify_roundtrip [OF h len k] h by auto
qed

subsection \<open>The login provider\<close>

text \<open>What the argon2 package documents: \<^verbatim>\<open>IDKey\<close> panics for fewer than one pass or thread; otherwise it returns a key of
  the requested length (an empty key is never asked for).\<close>

definition argon2_contract :: "argon2 \<Rightarrow> bool" where
  "argon2_contract argon \<longleftrightarrow>
     (\<forall>pw salt t m th n. 1 \<le> t \<longrightarrow> 1 \<le> th \<longrightarrow> 1 \<le> n \<longrightarrow> (\<exists>k. argon pw salt t m th n = Some k \<and> length k = n))"

lemma dummy_parses:
  assumes "dummyHash argon rand = Some h" "argon2_contract argon"
  shows "\<exists>q. parsePHC h = Some q \<and> 1 \<le> ph_iterations q \<and> 1 \<le> ph_threads q \<and> ph_hash q \<noteq> []"
proof -
  obtain salt where "HashPassword argon 0 (Some salt) GateOpen ''osctf-dummy-timing-uniformity'' = Inr h"
    using assms(1) by (auto simp: dummyHash_def HashPassword_def split: option.splits sum.splits)
  then obtain key where k: "argon ''osctf-dummy-timing-uniformity'' salt argonIterations argonMemoryKiB argonThreads argonKeyLen = Some key"
    "h = phc_string argonMemoryKiB argonIterations argonThreads salt key"
    by (auto simp: HashPassword_def deriveKey_def acquireHash_def split: option.splits)
  moreover have "1 \<le> argonIterations" "1 \<le> argonThreads" "1 \<le> argonKeyLen"
    by (simp_all add: argonIterations_def argonThreads_def argonKeyLen_def)
  moreover have "length key = argonKeyLen" using assms(2) k(1) calculation(3-5) unfolding argon2_contract_def by (metis option.inject)
  ultimately show ?thesis by (auto simp: parse_hash)
qed

text \<open>C26. Login answers are uniform between accounts with a password and addresses without an account: a wrong password,
  and a right one when the account is banned, are answered exactly as an e-mail that no account has, for every answer of
  the hashing gate (401, or 503 when the gate sheds the request), and nothing is written. The account's stored hash is a
  PHC string that parses, with at least one pass and thread and a non-empty key, as \<^verbatim>\<open>HashPassword\<close> writes them; argon2
  keeps its documented contract. An account whose stored hash does not parse, as an external login creates it, is told
  apart (\<open>sso_account_status_oracle\<close> below).\<close>

theorem login_outcome_uniform:
  assumes "GetUserByEmail (ce_cf c) s email = Some u" "parsePHC (u_PasswordHash u) = Some p"
    and "1 \<le> ph_iterations p" "1 \<le> ph_threads p" "ph_hash p \<noteq> []"
    and "GetUserByEmail (ce_cf c) s unknown = None" "dummyHash (ce_argon c) rand = Some (ce_dummy c)"
    and "argon2_contract (ce_argon c)"
    and "u_Banned u \<or> ce_argon c password (ph_salt p) (ph_iterations p) (ph_memoryKiB p) (ph_threads p)
           (length (ph_hash p)) \<noteq> Some (ph_hash p)"
  shows "Authenticate_password c s email password = Authenticate_password c s unknown password \<and>
    fst (Authenticate_password c s email password) = s \<and>
    snd (Authenticate_password c s email password) =
      Inl (if ce_lookup_fails c then CredErr (Internal ''auth: looking up user'')
           else if ce_gate c = GateTimeout
           then CredErr (Unavailable ''the server is busy verifying passwords; retry shortly'' (ce_wait c))
           else ErrInvalidCredentials)"
proof -
  have ok: "\<exists>k. ce_argon c password (ph_salt r) (ph_iterations r) (ph_memoryKiB r) (ph_threads r) (length (ph_hash r)) = Some k"
    if "1 \<le> ph_iterations r" "1 \<le> ph_threads r" "ph_hash r \<noteq> []" for r
    using assms(8) that unfolding argon2_contract_def by (metis One_nat_def Suc_leI length_greater_0_conv)
  obtain k where k: "ce_argon c password (ph_salt p) (ph_iterations p) (ph_memoryKiB p) (ph_threads p)
      (length (ph_hash p)) = Some k" using ok [OF assms(3-5)] by blast
  obtain q where q: "parsePHC (ce_dummy c) = Some q" "1 \<le> ph_iterations q" "1 \<le> ph_threads q" "ph_hash q \<noteq> []"
    using dummy_parses [OF assms(7,8)] by blast
  obtain k' where k': "ce_argon c password (ph_salt q) (ph_iterations q) (ph_memoryKiB q) (ph_threads q)
      (length (ph_hash q)) = Some k'" using ok [OF q(2-4)] by blast
  have "Authenticate_password c s unknown password = (s, Inl (if ce_lookup_fails c
      then CredErr (Internal ''auth: looking up user'') else if ce_gate c = GateTimeout
      then CredErr (Unavailable ''the server is busy verifying passwords; retry shortly'' (ce_wait c))
      else ErrInvalidCredentials))"
    using assms(6) q(1) k' by (cases "ce_gate c")
      (auto simp: Authenticate_password_def BurnHash_def VerifyPassword_def deriveKey_def acquireHash_def errors_Is_def)
  moreover have "Authenticate_password c s email password = (s, Inl (if ce_lookup_fails c
      then CredErr (Internal ''auth: looking up user'') else if ce_gate c = GateTimeout
      then CredErr (Unavailable ''the server is busy verifying passwords; retry shortly'' (ce_wait c))
      else ErrInvalidCredentials))"
    using assms(1,2,9) k by (cases "ce_gate c")
      (auto simp: Authenticate_password_def VerifyPassword_def deriveKey_def acquireHash_def errors_Is_def
        ConstantTimeCompare_iff)
  ultimately show ?thesis by simp
qed

definition hashed :: "string \<Rightarrow> string" where
  "hashed pw = (case HashPassword toy_argon 0 (Some ''0123456789abcdef'') GateOpen pw of Inr h \<Rightarrow> h | Inl _ \<Rightarrow> [])"

definition cred_box :: "gate_answer \<Rightarrow> cred_env" where
  "cred_box g = \<lparr>ce_cf = id, ce_argon = toy_argon, ce_wait = 5, ce_dummy = hashed ''osctf-dummy-timing-uniformity'', ce_lookup_fails = False,
     ce_gate = g, ce_rehash = True, ce_rehash_gate = GateOpen, ce_rehash_rand = Some [], ce_rehash_fails = False,
     ce_interf = id, ce_now = 9\<rparr>"

text \<open>Account 1 has a password; account 2 came through an external login and has none.\<close>

definition ada_user :: User where
  "ada_user = \<lparr>u_ID = 1, u_Username = ''ada'', u_Email = ''ada@x.org'', u_PasswordHash = hashed ''tr0ub4dor'',
     u_Role = ''user'', u_Banned = False, u_Hidden = False, u_CreatedAt = 0, u_UpdatedAt = 8\<rparr>"

definition eve_user :: User where
  "eve_user = \<lparr>u_ID = 2, u_Username = ''eve'', u_Email = ''eve@x.org'', u_PasswordHash = noPasswordHash,
     u_Role = ''user'', u_Banned = False, u_Hidden = False, u_CreatedAt = 7, u_UpdatedAt = 7\<rparr>"

definition login_store :: adb where
  "login_store = empty_adb\<lparr>users := [ada_user, eve_user]\<rparr>"

lemma login_store_lookups:
  "GetUserByEmail id login_store ''ada@x.org'' = Some ada_user"
  "GetUserByEmail id login_store ''eve@x.org'' = Some eve_user"
  "GetUserByEmail id login_store ''nobody@x.org'' = None"
  by (simp_all add: GetUserByEmail_def login_store_def ada_user_def eve_user_def)

lemma parse_hashed:
  "parsePHC (hashed pw) = Some \<lparr>ph_memoryKiB = argonMemoryKiB, ph_iterations = argonIterations, ph_threads = argonThreads,
     ph_salt = ''0123456789abcdef'', ph_hash = take 32 (pw @ ''0123456789abcdef'' @ replicate 32 CHR ''.'')\<rparr>"
  by (simp add: hashed_def HashPassword_def deriveKey_def acquireHash_def toy_argon_def parse_hash argonKeyLen_def)

theorem login_outcome_uniform_witness:
  "Authenticate_password (cred_box GateTimeout) login_store ''ada@x.org'' ''guess''
   = Authenticate_password (cred_box GateTimeout) login_store ''nobody@x.org'' ''guess'' \<and>
   snd (Authenticate_password (cred_box GateOpen) login_store ''ada@x.org'' ''guess'') = Inl ErrInvalidCredentials"
proof -
  have c: "ce_cf (cred_box g) = id" "ce_dummy (cred_box g) = hashed ''osctf-dummy-timing-uniformity''" "ce_argon (cred_box g) = toy_argon"
    "ce_gate (cred_box g) = g" "ce_lookup_fails (cred_box g) = False" for g
    by (simp_all add: cred_box_def)
  have h: "u_PasswordHash ada_user = hashed ''tr0ub4dor''" by (simp add: ada_user_def)
  obtain p where p: "parsePHC (hashed ''tr0ub4dor'') = Some p" "1 \<le> ph_iterations p" "1 \<le> ph_threads p" "ph_hash p \<noteq> []"
    and w: "toy_argon ''guess'' (ph_salt p) (ph_iterations p) (ph_memoryKiB p) (ph_threads p) (length (ph_hash p)) \<noteq> Some (ph_hash p)"
    by (simp add: parse_hashed toy_argon_def argonIterations_def argonThreads_def)
  have d: "dummyHash toy_argon (Some ''0123456789abcdef'') = Some (hashed ''osctf-dummy-timing-uniformity'')"
    by (simp add: dummyHash_def hashed_def HashPassword_def deriveKey_def acquireHash_def toy_argon_def)
  have t: "argon2_contract toy_argon" by (auto simp: argon2_contract_def toy_argon_def min_def)
  note uniform = login_outcome_uniform [of "cred_box g" login_store "''ada@x.org''" ada_user p "''nobody@x.org''" _ "''guess''" for g,
      unfolded c h, OF login_store_lookups(1) p login_store_lookups(3) d t disjI2 [OF w]]
  show ?thesis
    using conjunct1 [OF uniform [of GateTimeout]] conjunct2 [OF conjunct2 [OF uniform [of GateOpen]]]
    by (simp only: gate_answer.distinct if_False simp_thms)
qed

subsection \<open>Accounts without a password\<close>

lemma noPasswordHash_invalid: "parsePHC noPasswordHash = None"
  by code_simp

text \<open>An account that an external login provisioned cannot be logged into with a password: whatever the password
  and whatever the gate answers, the provider refuses with the ordinary error and writes nothing.\<close>

theorem no_password_no_login:
  assumes "GetUserByEmail (ce_cf c) s email = Some u" "u_PasswordHash u = noPasswordHash"
  shows "Authenticate_password c s email password =
    (s, Inl (if ce_lookup_fails c then CredErr (Internal ''auth: looking up user'') else ErrInvalidCredentials))"
  using assms noPasswordHash_invalid by (simp add: Authenticate_password_def VerifyPassword_def)

theorem no_password_no_login_witness:
  "Authenticate_password (cred_box GateOpen) login_store ''eve@x.org'' ''!'' = (login_store, Inl ErrInvalidCredentials)"
proof -
  have "ce_cf (cred_box GateOpen) = id" "u_PasswordHash eve_user = noPasswordHash"
    by (simp_all add: cred_box_def eve_user_def)
  then show ?thesis using no_password_no_login [of "cred_box GateOpen" login_store "''eve@x.org''" eve_user] login_store_lookups(2)
    by (simp add: cred_box_def)
qed

text \<open>Under load the answers do differ for such accounts. \<^verbatim>\<open>BurnHash\<close> is there so that overload is no oracle for
  known e-mails: known and unknown addresses alike get the 503 of the gate. A hash that does not parse is refused
  before the gate, so with the gate shedding, an account without a password is answered 401 where every other
  address, known or not, is answered 503.\<close>

theorem sso_account_status_oracle:
  "snd (Authenticate_password (cred_box GateTimeout) login_store ''eve@x.org'' ''guess'') = Inl ErrInvalidCredentials \<and>
   snd (Authenticate_password (cred_box GateTimeout) login_store ''nobody@x.org'' ''guess'') =
     Inl (CredErr (Unavailable ''the server is busy verifying passwords; retry shortly'' 5)) \<and>
   snd (Authenticate_password (cred_box GateTimeout) login_store ''ada@x.org'' ''guess'') =
     Inl (CredErr (Unavailable ''the server is busy verifying passwords; retry shortly'' 5))"
proof -
  have "u_PasswordHash eve_user = noPasswordHash" "u_PasswordHash ada_user = hashed ''tr0ub4dor''"
    by (simp_all add: eve_user_def ada_user_def)
  then show ?thesis
    by (simp add: Authenticate_password_def cred_box_def login_store_lookups VerifyPassword_def BurnHash_def
        noPasswordHash_invalid parse_hashed deriveKey_def acquireHash_def errors_Is_def)
qed

end
