(* ===== verification/Hash_Gate.thy ===== *)
theory Hash_Gate
  imports Auth_Password
begin

text \<open>
  The concurrency gate of \<^verbatim>\<open>internal/auth/password.go\<close>: \<^verbatim>\<open>acquireHash\<close>, \<^verbatim>\<open>enterHash\<close>, \<^verbatim>\<open>exitHash\<close> and the deferred
  release, as atomic actions of the requests that interleave in any order. \<open>g_Held\<close> is the number of values in
  the channel \<^verbatim>\<open>hashSem\<close> of capacity \<open>n\<close>; \<open>g_InFlight\<close> and \<open>g_Peak\<close> are the two atomic counters. \<open>g_Top\<close> is
  history: the greatest number of derivations that were ever in flight.
\<close>

text \<open>Where a request is: in the select, past it, after \<^verbatim>\<open>hashInFlight.Add(1)\<close> returned \<open>k\<close>, after \<^verbatim>\<open>hashPeak.Load()\<close>
  returned \<open>p\<close>, deriving, after \<^verbatim>\<open>exitHash\<close>, returned, shed.\<close>

datatype hreq = Selecting | Past | Raising nat | Comparing nat nat | Deriving | Left | Finished | Shed

record gate =
  g_Reqs :: "hreq list"
  g_Held :: nat
  g_InFlight :: nat
  g_Peak :: nat
  g_Top :: nat

definition fresh_gate :: gate where
  "fresh_gate = \<lparr>g_Reqs = [], g_Held = 0, g_InFlight = 0, g_Peak = 0, g_Top = 0\<rparr>"

definition put_req :: "nat \<Rightarrow> hreq \<Rightarrow> gate \<Rightarrow> gate" where
  "put_req i r g = g\<lparr>g_Reqs := (g_Reqs g)[i := r]\<rparr>"

abbreviation at_req :: "gate \<Rightarrow> nat \<Rightarrow> hreq \<Rightarrow> bool" where
  "at_req g i r \<equiv> i < length (g_Reqs g) \<and> g_Reqs g ! i = r"

inductive gate_step :: "nat \<Rightarrow> gate \<Rightarrow> gate \<Rightarrow> bool" for n where
  arrive: "gate_step n g (g\<lparr>g_Reqs := g_Reqs g @ [Selecting]\<rparr>)"
| acquire: "at_req g i Selecting \<Longrightarrow> g_Held g < n \<Longrightarrow> gate_step n g (put_req i Past (g\<lparr>g_Held := g_Held g + 1\<rparr>))"
| shed: "at_req g i Selecting \<Longrightarrow> gate_step n g (put_req i Shed g)"
| add: "at_req g i Past \<Longrightarrow> k = g_InFlight g + 1 \<Longrightarrow>
    gate_step n g (put_req i (Raising k) (g\<lparr>g_InFlight := k, g_Top := max k (g_Top g)\<rparr>))"
| load: "at_req g i (Raising k) \<Longrightarrow> gate_step n g (put_req i (Comparing k (g_Peak g)) g)"
| no_raise: "at_req g i (Comparing k p) \<Longrightarrow> k \<le> p \<Longrightarrow> gate_step n g (put_req i Deriving g)"
| swap: "at_req g i (Comparing k p) \<Longrightarrow> k > p \<Longrightarrow> g_Peak g = p \<Longrightarrow>
    gate_step n g (put_req i Deriving (g\<lparr>g_Peak := k\<rparr>))"
| swap_fails: "at_req g i (Comparing k p) \<Longrightarrow> k > p \<Longrightarrow> g_Peak g \<noteq> p \<Longrightarrow> gate_step n g (put_req i (Raising k) g)"
| exit_hash: "at_req g i Deriving \<Longrightarrow> gate_step n g (put_req i Left (g\<lparr>g_InFlight := g_InFlight g - 1\<rparr>))"
| release: "at_req g i Left \<Longrightarrow> gate_step n g (put_req i Finished (g\<lparr>g_Held := g_Held g - 1\<rparr>))"

fun holds :: "hreq \<Rightarrow> bool" where
  "holds Selecting = False" | "holds Finished = False" | "holds Shed = False" | "holds _ = True"

fun entered :: "hreq \<Rightarrow> bool" where
  "entered (Raising _) = True" | "entered (Comparing _ _) = True" | "entered Deriving = True" | "entered _ = False"

text \<open>The watermark a request has still to enter.\<close>

fun raising :: "hreq \<Rightarrow> nat option" where
  "raising (Raising k) = Some k" | "raising (Comparing k _) = Some k" | "raising _ = None"

definition watermark_ok :: "gate \<Rightarrow> hreq \<Rightarrow> bool" where
  "watermark_ok g r \<longleftrightarrow> (\<forall>k. raising r = Some k \<longrightarrow> k \<le> g_Top g) \<and> (\<forall>k p. r = Comparing k p \<longrightarrow> p \<le> g_Peak g)"

definition gate_ok :: "nat \<Rightarrow> gate \<Rightarrow> bool" where
  "gate_ok n g \<longleftrightarrow>
     g_Held g = length (filter holds (g_Reqs g)) \<and> g_Held g \<le> n \<and>
     g_InFlight g = length (filter entered (g_Reqs g)) \<and>
     g_Top g \<le> n \<and> g_Peak g \<le> g_Top g \<and> (\<forall>r \<in> set (g_Reqs g). watermark_ok g r) \<and>
     (g_Peak g = g_Top g \<or> Some (g_Top g) \<in> raising ` set (g_Reqs g))"

lemma entered_le_holds: "length (filter entered rs) \<le> length (filter holds rs)"
  by (induction rs) (auto elim: entered.elims)

lemma filter_put:
  "i < length rs \<Longrightarrow> rs ! i = a \<Longrightarrow>
   length (filter P (rs[i := b])) + of_bool (P a) = length (filter P rs) + of_bool (P b)"
  by (induction rs arbitrary: i) (auto simp: nth_Cons' split: nat.splits)

lemma raising_put:
  assumes "i < length rs" "rs ! i = a" "Some t \<in> raising ` set rs" "raising a = Some t \<Longrightarrow> raising b = Some t"
  shows "Some t \<in> raising ` set (rs[i := b])"
proof -
  from assms(3) obtain j where j: "j < length rs" "raising (rs ! j) = Some t" by (auto simp: in_set_conv_nth)
  show ?thesis
  proof (cases "j = i")
    case True
    with j assms have "raising b = Some t" by simp
    then show ?thesis using assms(1) by (metis image_eqI set_update_memI)
  next
    case False
    with j have "rs[i := b] ! j = rs ! j" "j < length (rs[i := b])" by simp_all
    then show ?thesis using j(2) by (metis image_eqI nth_mem)
  qed
qed

lemma watermark_mono:
  "watermark_ok g r \<Longrightarrow> g_Top g \<le> g_Top g' \<Longrightarrow> g_Peak g \<le> g_Peak g' \<Longrightarrow> watermark_ok g' r"
  by (fastforce simp: watermark_ok_def)

lemma watermarks_put:
  assumes "\<forall>r \<in> set (g_Reqs g). watermark_ok g r" "g_Top g \<le> g_Top g'" "g_Peak g \<le> g_Peak g'" "watermark_ok g' b"
  shows "\<forall>r \<in> set ((g_Reqs g)[i := b]). watermark_ok g' r"
  using assms watermark_mono set_update_subset_insert by (metis (no_types, lifting) insertE subsetD)

text \<open>One change of a request with the counters that go with it.\<close>

lemma gate_ok_put:
  assumes ok: "gate_ok n g" and i: "at_req g i a" and g': "g_Reqs g' = (g_Reqs g)[i := b]"
    and h: "g_Held g' + of_bool (holds a) = g_Held g + of_bool (holds b)" "g_Held g' \<le> n"
    and f: "g_InFlight g' + of_bool (entered a) = g_InFlight g + of_bool (entered b)"
    and t: "g_Top g \<le> g_Top g'" "g_Top g' \<le> n" and p: "g_Peak g \<le> g_Peak g'" "g_Peak g' \<le> g_Top g'"
    and b: "watermark_ok g' b"
    and r: "g_Peak g' = g_Top g' \<or> raising b = Some (g_Top g') \<or>
      (g_Top g' = g_Top g \<and> (g_Peak g = g_Top g \<longrightarrow> g_Peak g' = g_Top g') \<and> raising a \<noteq> Some (g_Top g'))"
  shows "gate_ok n g'"
proof -
  have "length (filter holds ((g_Reqs g)[i := b])) = g_Held g'"
    using filter_put [of i "g_Reqs g" a holds b] i ok h by (simp add: gate_ok_def)
  moreover have "length (filter entered ((g_Reqs g)[i := b])) = g_InFlight g'"
    using filter_put [of i "g_Reqs g" a entered b] i ok f by (simp add: gate_ok_def)
  moreover have "\<forall>r \<in> set ((g_Reqs g)[i := b]). watermark_ok g' r"
    using ok b t p by (intro watermarks_put) (auto simp: gate_ok_def)
  moreover have "g_Peak g' = g_Top g' \<or> Some (g_Top g') \<in> raising ` set ((g_Reqs g)[i := b])"
    using r
  proof (elim disjE conjE)
    assume "raising b = Some (g_Top g')"
    then show ?thesis using i by (metis image_eqI set_update_memI)
  next
    assume "g_Top g' = g_Top g" "g_Peak g = g_Top g \<longrightarrow> g_Peak g' = g_Top g'" "raising a \<noteq> Some (g_Top g')"
    then show ?thesis using ok i raising_put [of i "g_Reqs g" a "g_Top g'" b] by (auto simp: gate_ok_def)
  qed simp
  ultimately show ?thesis using g' h(2) t(2) p(2) by (simp add: gate_ok_def)
qed

lemma at_req_in: "at_req g i a \<Longrightarrow> a \<in> set (g_Reqs g)"
  by auto

lemma held_pos: "gate_ok n g \<Longrightarrow> at_req g i a \<Longrightarrow> holds a \<Longrightarrow> 0 < g_Held g"
  by (auto simp: gate_ok_def filter_empty_conv)

lemma inflight_pos: "gate_ok n g \<Longrightarrow> at_req g i a \<Longrightarrow> entered a \<Longrightarrow> 0 < g_InFlight g"
  by (auto simp: gate_ok_def filter_empty_conv)

text \<open>A request past the channel that has not entered leaves room for one more in flight.\<close>

lemma room_for_one:
  assumes "gate_ok n g" "at_req g i Past"
  shows "g_InFlight g + 1 \<le> n"
proof -
  have "length (filter holds ((g_Reqs g)[i := Finished])) + 1 = length (filter holds (g_Reqs g))"
    "length (filter entered ((g_Reqs g)[i := Finished])) = length (filter entered (g_Reqs g))"
    using filter_put [of i "g_Reqs g" Past holds Finished] filter_put [of i "g_Reqs g" Past entered Finished] assms(2)
    by simp_all
  then show ?thesis using entered_le_holds [of "(g_Reqs g)[i := Finished]"] assms(1) by (simp add: gate_ok_def)
qed

lemma gate_step_ok:
  assumes "gate_step n g g'" "gate_ok n g"
  shows "gate_ok n g'"
  using assms
proof cases
  case arrive
  with assms(2) show ?thesis by (auto simp: gate_ok_def watermark_ok_def)
next
  case (acquire i)
  with assms(2) show ?thesis
    by (intro gate_ok_put [OF assms(2) acquire(2), where b = Past])
      (auto simp: gate_ok_def watermark_ok_def put_req_def)
next
  case (shed i)
  with assms(2) show ?thesis
    by (intro gate_ok_put [OF assms(2) shed(2), where b = Shed]) (auto simp: gate_ok_def watermark_ok_def put_req_def)
next
  case (add i k)
  with assms(2) room_for_one [OF assms(2) add(2)] show ?thesis
    by (intro gate_ok_put [OF assms(2) add(2), where b = "Raising k"])
      (auto simp: gate_ok_def watermark_ok_def put_req_def)
next
  case (load i k)
  have "watermark_ok g (Raising k)" using assms(2) at_req_in [OF load(2)] unfolding gate_ok_def by blast
  with load assms(2) show ?thesis
    by (intro gate_ok_put [OF assms(2) load(2), where b = "Comparing k (g_Peak g)"])
      (auto simp: gate_ok_def watermark_ok_def put_req_def)
next
  case (no_raise i k p)
  have "watermark_ok g (Comparing k p)" using assms(2) at_req_in [OF no_raise(2)] unfolding gate_ok_def by blast
  with no_raise assms(2) show ?thesis
    by (intro gate_ok_put [OF assms(2) no_raise(2), where b = Deriving])
      (auto simp: gate_ok_def watermark_ok_def put_req_def)
next
  case (swap i k p)
  have "watermark_ok g (Comparing k p)" using assms(2) at_req_in [OF swap(2)] unfolding gate_ok_def by blast
  with swap assms(2) show ?thesis
    by (intro gate_ok_put [OF assms(2) swap(2), where b = Deriving])
      (auto simp: gate_ok_def watermark_ok_def put_req_def)
next
  case (swap_fails i k p)
  have "watermark_ok g (Comparing k p)" using assms(2) at_req_in [OF swap_fails(2)] unfolding gate_ok_def by blast
  with swap_fails assms(2) show ?thesis
    by (intro gate_ok_put [OF assms(2) swap_fails(2), where b = "Raising k"])
      (auto simp: gate_ok_def watermark_ok_def put_req_def)
next
  case (exit_hash i)
  with assms(2) inflight_pos [OF assms(2) exit_hash(2)] show ?thesis
    by (intro gate_ok_put [OF assms(2) exit_hash(2), where b = Left])
      (auto simp: gate_ok_def watermark_ok_def put_req_def)
next
  case (release i)
  with assms(2) held_pos [OF assms(2) release(2)] show ?thesis
    by (intro gate_ok_put [OF assms(2) release(2), where b = Finished])
      (auto simp: gate_ok_def watermark_ok_def put_req_def)
qed

lemma gate_reachable_ok: "(gate_step n)\<^sup>*\<^sup>* fresh_gate g \<Longrightarrow> gate_ok n g"
proof (induction rule: rtranclp_induct)
  case base
  show ?case by (simp add: gate_ok_def fresh_gate_def)
qed (rule gate_step_ok)

text \<open>The hashing gate: however requests arrive, wait, are shed and interleave, at most \<open>n\<close> derivations are in
  flight, so their memory is at most \<open>n\<close> times 64 MiB; when every request has returned or was shed no slot is
  held; and the high-water mark that the compare-and-swap loop maintains is never above the true maximum and
  equals it as soon as no request is inside the loop.\<close>

theorem hash_gate_exact:
  assumes "(gate_step n)\<^sup>*\<^sup>* fresh_gate g"
  shows "g_InFlight g \<le> n \<and> g_InFlight g * perHashBytes \<le> n * (64 * 1024 * 1024) \<and>
    (list_all (\<lambda>r. r \<in> set [Selecting, Finished, Shed]) (g_Reqs g) \<longrightarrow> g_Held g = 0 \<and> g_InFlight g = 0) \<and>
    g_Peak g \<le> g_Top g \<and> (list_all (\<lambda>r. raising r = None) (g_Reqs g) \<longrightarrow> g_Peak g = g_Top g)"
proof -
  have ok: "gate_ok n g" using gate_reachable_ok [OF assms] .
  then have "g_InFlight g \<le> n" using entered_le_holds [of "g_Reqs g"] by (simp add: gate_ok_def)
  moreover from this have "g_InFlight g * perHashBytes \<le> n * (64 * 1024 * 1024)"
    by (simp add: perHashBytes_def argonMemoryKiB_def)
  moreover have "g_Held g = 0 \<and> g_InFlight g = 0" if "list_all (\<lambda>r. r \<in> set [Selecting, Finished, Shed]) (g_Reqs g)"
    using that ok by (auto simp: gate_ok_def list_all_iff filter_empty_conv)
  moreover have "g_Peak g \<le> g_Top g" using ok by (simp add: gate_ok_def)
  moreover have "g_Peak g = g_Top g" if "list_all (\<lambda>r. raising r = None) (g_Reqs g)"
    using that ok by (fastforce simp: gate_ok_def list_all_iff)
  ultimately show ?thesis by blast
qed

text \<open>Two requests and a gate of one: the second is shed, the first leaves.\<close>

theorem hash_gate_exact_witness:
  "\<exists>g. (gate_step 1)\<^sup>*\<^sup>* fresh_gate g \<and> g_Reqs g = [Deriving, Shed] \<and> g_InFlight g = 1 \<and> g_Peak g = 1"
proof -
  note step = gate_step.intros
  define g1 where "g1 = fresh_gate\<lparr>g_Reqs := [Selecting]\<rparr>"
  define g2 where "g2 = g1\<lparr>g_Reqs := [Selecting, Selecting]\<rparr>"
  define g3 where "g3 = put_req 0 Past (g2\<lparr>g_Held := 1\<rparr>)"
  define g4 where "g4 = put_req 1 Shed g3"
  define g5 where "g5 = put_req 0 (Raising 1) (g4\<lparr>g_InFlight := 1, g_Top := 1\<rparr>)"
  define g6 where "g6 = put_req 0 (Comparing 1 0) g5"
  define g7 where "g7 = put_req 0 Deriving (g6\<lparr>g_Peak := 1\<rparr>)"
  note defs = g1_def g2_def g3_def g4_def g5_def g6_def g7_def fresh_gate_def put_req_def
  have "gate_step 1 fresh_gate g1" using step(1) [where n = 1 and g = fresh_gate] by (simp add: defs)
  moreover have "gate_step 1 g1 g2" using step(1) [where n = 1 and g = g1] by (simp add: defs)
  moreover have "gate_step 1 g2 g3" using step(2) [where g = g2 and i = 0 and n = 1] by (simp add: defs)
  moreover have "gate_step 1 g3 g4" using step(3) [where g = g3 and i = 1 and n = 1] by (simp add: defs)
  moreover have "gate_step 1 g4 g5" using step(4) [where g = g4 and i = 0 and k = 1 and n = 1] by (simp add: defs)
  moreover have "gate_step 1 g5 g6" using step(5) [where g = g5 and i = 0 and k = 1 and n = 1] by (simp add: defs)
  moreover have "gate_step 1 g6 g7" using step(7) [where g = g6 and i = 0 and k = 1 and p = 0 and n = 1] by (simp add: defs)
  ultimately have run: "(gate_step 1)\<^sup>*\<^sup>* fresh_gate g7" by (meson converse_rtranclp_into_rtranclp rtranclp.rtrancl_refl)
  moreover have "g_Reqs g7 = [Deriving, Shed]" "g_InFlight g7 = 1" by (simp_all add: defs)
  moreover from hash_gate_exact [OF run] this have "g_Peak g7 = g_Top g7" by simp
  moreover have "g_Top g7 = 1" by (simp add: defs)
  ultimately show ?thesis by auto
qed

end
