(* ===== verification/Sessions.thy ===== *)
theory Sessions
  imports Encodings
begin

text \<open>
  Sessions and in-flight external logins in Redis: \<^verbatim>\<open>internal/auth/session.go\<close> and \<^verbatim>\<open>loginstate.go\<close>.

  The store is the clock \<open>rd_Now\<close> and three families of keys, each value with the time it expires: \<^verbatim>\<open>sess:{token}\<close>
  hashes, \<^verbatim>\<open>sess:user:{id}\<close> sets, \<^verbatim>\<open>login:state:{token}\<close> values. A key whose time has come is absent. A single command and
  a \<^verbatim>\<open>TxPipeline\<close> are atomic. Between two of them other clients act and time passes (\<open>sn_interf\<close>); a command may fail
  (\<open>sn_fails\<close>) without effect, a pipeline also with it (\<open>sn_landed\<close>). Tokens are 32 bytes of \<^verbatim>\<open>crypto/rand\<close>. User ids
  are stored as such; \<^verbatim>\<open>created_at\<close> is stored in whole seconds.
\<close>

record sess_hash =
  sh_UserID :: uuid
  sh_Role :: string
  sh_CreatedAt :: time
  sh_IP :: string
  sh_UA :: string

record Session =
  ss_Token :: string
  ss_UserID :: uuid
  ss_Role :: string
  ss_CreatedAt :: time
  ss_IP :: string
  ss_UA :: string

record LoginState =
  ls_Provider :: string
  ls_ProviderState :: string

record redis =
  rd_Now :: time
  rd_Sess :: "string \<rightharpoonup> sess_hash \<times> time"
  rd_Index :: "uuid \<rightharpoonup> string list \<times> time"
  rd_States :: "string \<rightharpoonup> LoginState \<times> time"

definition empty_redis :: "time \<Rightarrow> redis" where
  "empty_redis now = \<lparr>rd_Now = now, rd_Sess = Map.empty, rd_Index = Map.empty, rd_States = Map.empty\<rparr>"

text \<open>A key that has not expired.\<close>

definition live :: "time \<Rightarrow> ('k \<rightharpoonup> 'v \<times> time) \<Rightarrow> 'k \<Rightarrow> ('v \<times> time) option" where
  "live now m k = (case m k of Some (v, e) \<Rightarrow> if now < e then Some (v, e) else None | None \<Rightarrow> None)"

abbreviation live_session :: "redis \<Rightarrow> string \<Rightarrow> (sess_hash \<times> time) option" where
  "live_session r \<equiv> live (rd_Now r) (rd_Sess r)"

definition members :: "redis \<Rightarrow> uuid \<Rightarrow> string list" where
  "members r uid = (case live (rd_Now r) (rd_Index r) uid of Some (ts, e) \<Rightarrow> ts | None \<Rightarrow> [])"

definition tick :: "duration \<Rightarrow> redis \<Rightarrow> redis" where
  "tick d r = r\<lparr>rd_Now := rd_Now r + d\<rparr>"

subsection \<open>Pipelines\<close>

text \<open>The client library sends the duration of an \<^verbatim>\<open>EXPIRE\<close> in whole seconds: a fraction is cut off, and a positive
  duration below a second becomes one second. A key whose duration is zero or negative is gone.\<close>

definition expire_in :: "duration \<Rightarrow> duration" where
  "expire_in d = (if 0 < d \<and> d < second then second else d div second * second)"

lemma expire_in_pos: "0 < d \<Longrightarrow> 0 < expire_in d"
  by (simp add: expire_in_def second_def pos_imp_zdiv_pos_iff)

lemma expire_in_mono: "0 < d \<Longrightarrow> d \<le> d' \<Longrightarrow> expire_in d \<le> expire_in d'"
  by (auto simp: expire_in_def second_def zdiv_mono1 pos_imp_zdiv_pos_iff intro: order_trans)

lemma expire_in_double: "0 < d \<Longrightarrow> expire_in d \<le> expire_in (d * 2)"
  by (rule expire_in_mono) simp_all

lemma expire_in_whole: "0 < n \<Longrightarrow> expire_in (n * second) = n * second"
  by (simp add: expire_in_def second_def)

text \<open>\<^verbatim>\<open>SADD\<close> and \<^verbatim>\<open>EXPIRE\<close> on the user's set.\<close>

definition index_add :: "redis \<Rightarrow> uuid \<Rightarrow> string \<Rightarrow> duration \<Rightarrow> redis" where
  "index_add r uid token ttl =
     r\<lparr>rd_Index := (rd_Index r)(uid \<mapsto> (List.insert token (members r uid), rd_Now r + expire_in ttl))\<rparr>"

text \<open>\<^verbatim>\<open>SREM\<close>: the set keeps its expiry and is gone when it is empty.\<close>

definition index_remove :: "redis \<Rightarrow> uuid \<Rightarrow> string \<Rightarrow> redis" where
  "index_remove r uid token =
     (case live (rd_Now r) (rd_Index r) uid of
        None \<Rightarrow> r
      | Some (ts, e) \<Rightarrow>
          (let ts' = filter (\<lambda>t. t \<noteq> token) ts
           in r\<lparr>rd_Index := (rd_Index r)(uid := if ts' = [] then None else Some (ts', e))\<rparr>))"

definition tx_create :: "redis \<Rightarrow> duration \<Rightarrow> string \<Rightarrow> sess_hash \<Rightarrow> redis" where
  "tx_create r ttl token h =
     index_add (r\<lparr>rd_Sess := (rd_Sess r)(token \<mapsto> (h, rd_Now r + expire_in ttl))\<rparr>) (sh_UserID h) token (ttl * 2)"

definition tx_refresh :: "redis \<Rightarrow> duration \<Rightarrow> string \<Rightarrow> uuid \<Rightarrow> redis" where
  "tx_refresh r ttl token uid =
     index_add
       (case live_session r token of
          None \<Rightarrow> r
        | Some (h, e) \<Rightarrow> r\<lparr>rd_Sess := (rd_Sess r)(token \<mapsto> (h, rd_Now r + expire_in ttl))\<rparr>) uid token (ttl * 2)"

definition tx_delete :: "redis \<Rightarrow> uuid \<Rightarrow> string \<Rightarrow> redis" where
  "tx_delete r uid token = index_remove (r\<lparr>rd_Sess := (rd_Sess r)(token := None)\<rparr>) uid token"

definition tx_purge :: "redis \<Rightarrow> uuid \<Rightarrow> string list \<Rightarrow> redis" where
  "tx_purge r uid tokens = fold (\<lambda>t r. tx_delete r uid t) tokens r"

subsection \<open>The session store\<close>

datatype sess_error = ErrNoSession | SessErr string

datatype sess_call = SCreate | SRead | STtl | SRefresh | SDelete | SMembers | SPurge | SStore | SConsume

record sess_env =
  sn_ttl :: duration
  sn_fails :: "sess_call \<Rightarrow> bool"
  sn_landed :: "sess_call \<Rightarrow> bool"
  sn_interf :: "sess_call \<Rightarrow> redis \<Rightarrow> redis"

text \<open>A pipeline: \<open>False\<close> reports an error, after which it may have run all the same.\<close>

definition exec_tx :: "sess_env \<Rightarrow> sess_call \<Rightarrow> (redis \<Rightarrow> redis) \<Rightarrow> redis \<Rightarrow> redis \<times> bool" where
  "exec_tx e c f r =
     (let r = sn_interf e c r
      in if sn_fails e c then (if sn_landed e c then f r else r, False) else (f r, True))"

definition session_of :: "string \<Rightarrow> sess_hash \<Rightarrow> Session" where
  "session_of token h = \<lparr>ss_Token = token, ss_UserID = sh_UserID h, ss_Role = sh_Role h,
     ss_CreatedAt = sh_CreatedAt h, ss_IP = sh_IP h, ss_UA = sh_UA h\<rparr>"

definition SessionStore_Create ::
  "sess_env \<Rightarrow> string option \<Rightarrow> time \<Rightarrow> redis \<Rightarrow> uuid \<Rightarrow> string \<Rightarrow> string \<Rightarrow> string \<Rightarrow> redis \<times> (sess_error + Session)" where
  "SessionStore_Create e rand now r uid role ip ua =
     (case rand of
        None \<Rightarrow> (r, Inl (SessErr ''auth: generating session token''))
      | Some raw \<Rightarrow>
          (let token = base64url_EncodeToString raw;
               h = \<lparr>sh_UserID = uid, sh_Role = role, sh_CreatedAt = now - now mod second, sh_IP = ip, sh_UA = ua\<rparr>;
               (r', ok) = exec_tx e SCreate (\<lambda>r. tx_create r (sn_ttl e) token h) r
           in if ok then (r', Inr ((session_of token h)\<lparr>ss_CreatedAt := now\<rparr>))
              else (r', Inl (SessErr ''auth: storing session''))))"

text \<open>\<^verbatim>\<open>TTL\<close> answers in whole seconds, rounded; a key without one answers a negative number.\<close>

definition ttl_answer :: "redis \<Rightarrow> string \<Rightarrow> duration" where
  "ttl_answer r token =
     (case live_session r token of
        None \<Rightarrow> - 2
      | Some (h, e) \<Rightarrow> ((e - rd_Now r) div 1000000 + 500) div 1000 * second)"

definition SessionStore_Get :: "sess_env \<Rightarrow> redis \<Rightarrow> string \<Rightarrow> redis \<times> (sess_error + Session)" where
  "SessionStore_Get e r token =
     (if token = [] then (r, Inl ErrNoSession)
      else let r = sn_interf e SRead r
      in if sn_fails e SRead then (r, Inl (SessErr ''auth: reading session''))
         else case live_session r token of
                None \<Rightarrow> (r, Inl ErrNoSession)
              | Some (h, _) \<Rightarrow>
                  (let r = sn_interf e STtl r;
                       ttl = ttl_answer r token;
                       r = (if \<not> sn_fails e STtl \<and> ttl > 0 \<and> ttl < sn_ttl e div 2
                            then fst (exec_tx e SRefresh (\<lambda>r. tx_refresh r (sn_ttl e) token (sh_UserID h)) r) else r)
                   in (r, Inr (session_of token h))))"

definition SessionStore_Delete :: "sess_env \<Rightarrow> redis \<Rightarrow> string \<Rightarrow> redis \<times> sess_error option" where
  "SessionStore_Delete e r token =
     (case SessionStore_Get e r token of
        (r, Inl ErrNoSession) \<Rightarrow> (r, None)
      | (r, Inl err) \<Rightarrow> (r, Some err)
      | (r, Inr sess) \<Rightarrow>
          (case exec_tx e SDelete (\<lambda>r. tx_delete r (ss_UserID sess) token) r of
             (r, ok) \<Rightarrow> (r, if ok then None else Some (SessErr ''exec''))))"

definition DeleteAllForUser :: "sess_env \<Rightarrow> redis \<Rightarrow> uuid \<Rightarrow> string \<Rightarrow> redis \<times> sess_error option" where
  "DeleteAllForUser e r uid keepToken =
     (let r = sn_interf e SMembers r
      in if sn_fails e SMembers then (r, Some (SessErr ''auth: listing user sessions''))
         else let tokens = filter (\<lambda>t. t \<noteq> keepToken) (members r uid)
              in case exec_tx e SPurge (\<lambda>r. tx_purge r uid tokens) r of
                   (r, ok) \<Rightarrow> (r, if ok then None else Some (SessErr ''exec'')))"

subsection \<open>Login states\<close>

datatype state_error = ErrNoLoginState | StateErr string

definition LoginStateTTL :: duration where "LoginStateTTL = 600 * second"

definition Mint :: "string option \<Rightarrow> state_error + string" where
  "Mint rand = (case rand of None \<Rightarrow> Inl (StateErr ''auth: generating login state'')
                | Some raw \<Rightarrow> Inr (base64url_EncodeToString raw))"

definition Store :: "sess_env \<Rightarrow> redis \<Rightarrow> string \<Rightarrow> string \<Rightarrow> string \<Rightarrow> redis \<times> state_error option" where
  "Store e r token provider providerState =
     (let st = \<lparr>ls_Provider = provider, ls_ProviderState = providerState\<rparr>;
          (r', ok) = exec_tx e SStore (\<lambda>r. r\<lparr>rd_States := (rd_States r)(token \<mapsto> (st, rd_Now r + sn_ttl e))\<rparr>) r
      in (r', if ok then None else Some (StateErr ''auth: storing login state'')))"

text \<open>\<^verbatim>\<open>GETDEL\<close> reads and deletes in one command.\<close>

definition Consume :: "sess_env \<Rightarrow> redis \<Rightarrow> string \<Rightarrow> redis \<times> (state_error + LoginState)" where
  "Consume e r token =
     (if token = [] then (r, Inl ErrNoLoginState)
      else let r = sn_interf e SConsume r;
               got = live (rd_Now r) (rd_States r) token;
               r' = r\<lparr>rd_States := (rd_States r)(token := None)\<rparr>
           in if sn_fails e SConsume
              then (if sn_landed e SConsume then r' else r, Inl (StateErr ''auth: reading login state''))
              else case got of
                     None \<Rightarrow> (r', Inl ErrNoLoginState)
                   | Some (st, _) \<Rightarrow> (r', Inr st))"

subsection \<open>The index covers the sessions\<close>

text \<open>\<open>own\<close> gives the user of every token that was or will be minted: tokens are not minted twice. Every live session
  is in its user's set, and the set outlives it.\<close>

definition sess_ok :: "duration \<Rightarrow> (string \<Rightarrow> uuid) \<Rightarrow> redis \<Rightarrow> bool" where
  "sess_ok ttl own r \<longleftrightarrow>
     (\<forall>token h e. live_session r token = Some (h, e) \<longrightarrow>
        sh_UserID h = own token \<and> e \<le> rd_Now r + expire_in ttl \<and>
        (\<exists>ts e'. live (rd_Now r) (rd_Index r) (own token) = Some (ts, e') \<and> token \<in> set ts \<and> e \<le> e'))"

lemma live_Some: "live now m k = Some (v, e) \<longleftrightarrow> m k = Some (v, e) \<and> now < e"
  by (auto simp: live_def split: option.splits if_splits)

lemma live_upd [simp]: "live now (m(k := x)) k' = (if k' = k then (case x of Some (v, e) \<Rightarrow> if now < e then x else None | None \<Rightarrow> None) else live now m k')"
  by (auto simp: live_def split: option.splits prod.splits)

lemma sess_okD:
  assumes "sess_ok ttl own r" "live_session r token = Some (h, e)"
  shows "sh_UserID h = own token \<and> e \<le> rd_Now r + expire_in ttl \<and> token \<in> set (members r (own token)) \<and>
    (\<exists>ts e'. live (rd_Now r) (rd_Index r) (own token) = Some (ts, e') \<and> token \<in> set ts \<and> e \<le> e')"
proof -
  from assms obtain ts e' where "live (rd_Now r) (rd_Index r) (own token) = Some (ts, e')" "token \<in> set ts" "e \<le> e'"
    and "sh_UserID h = own token \<and> e \<le> rd_Now r + expire_in ttl" unfolding sess_ok_def by blast
  then show ?thesis by (auto simp: members_def)
qed

text \<open>A change that makes no session live and keeps the set entries of those that stay.\<close>

lemma sess_ok_keep:
  assumes ok: "sess_ok ttl own r" and now: "rd_Now r \<le> rd_Now r'"
    and keep: "\<And>t g e ts e'. live_session r' t = Some (g, e) \<Longrightarrow>
      live_session r t = Some (g, e) \<and>
      (live (rd_Now r) (rd_Index r) (own t) = Some (ts, e') \<longrightarrow> t \<in> set ts \<longrightarrow> e \<le> e' \<longrightarrow>
        (\<exists>ts2 e2. live (rd_Now r') (rd_Index r') (own t) = Some (ts2, e2) \<and> t \<in> set ts2 \<and> e \<le> e2))"
  shows "sess_ok ttl own r'"
  unfolding sess_ok_def
proof (intro allI impI)
  fix t g e assume l: "live_session r' t = Some (g, e)"
  then have "live_session r t = Some (g, e)" using keep by blast
  from sess_okD [OF ok this] obtain ts e' where "sh_UserID g = own t" "e \<le> rd_Now r + expire_in ttl"
    "live (rd_Now r) (rd_Index r) (own t) = Some (ts, e')" "t \<in> set ts" "e \<le> e'" by blast
  with keep [OF l] now show "sh_UserID g = own t \<and> e \<le> rd_Now r' + expire_in ttl \<and>
    (\<exists>ts e'. live (rd_Now r') (rd_Index r') (own t) = Some (ts, e') \<and> t \<in> set ts \<and> e \<le> e')" by fastforce
qed

lemma sess_ok_tick: "sess_ok ttl own r \<Longrightarrow> 0 \<le> d \<Longrightarrow> sess_ok ttl own (tick d r)"
  by (rule sess_ok_keep) (auto simp: tick_def live_Some)

text \<open>Writing a session with the set that goes with it.\<close>

lemma sess_ok_put:
  assumes ok: "sess_ok ttl own r" and ttl: "0 < ttl" and own: "sh_UserID h = own token"
  shows "sess_ok ttl own (index_add (r\<lparr>rd_Sess := (rd_Sess r)(token \<mapsto> (h, rd_Now r + expire_in ttl))\<rparr>) (own token) token (ttl * 2))"
  unfolding sess_ok_def
proof (intro allI impI)
  let ?r = "index_add (r\<lparr>rd_Sess := (rd_Sess r)(token \<mapsto> (h, rd_Now r + expire_in ttl))\<rparr>) (own token) token (ttl * 2)"
  fix t g e assume l: "live_session ?r t = Some (g, e)"
  show "sh_UserID g = own t \<and> e \<le> rd_Now ?r + expire_in ttl \<and>
    (\<exists>ts e'. live (rd_Now ?r) (rd_Index ?r) (own t) = Some (ts, e') \<and> t \<in> set ts \<and> e \<le> e')"
  proof (cases "t = token")
    case True
    with l expire_in_pos [OF ttl] expire_in_double [OF ttl] own show ?thesis by (auto simp: index_add_def)
  next
    case False
    with l have "live_session r t = Some (g, e)" by (simp add: index_add_def)
    from sess_okD [OF ok this] expire_in_pos [OF ttl] expire_in_double [OF ttl] False show ?thesis by (auto simp: index_add_def members_def)
  qed
qed

lemma sess_ok_create:
  "sess_ok ttl own r \<Longrightarrow> 0 < ttl \<Longrightarrow> sh_UserID h = own token \<Longrightarrow> sess_ok ttl own (tx_create r ttl token h)"
  using sess_ok_put by (simp add: tx_create_def)

lemma sess_ok_index_add:
  assumes "sess_ok ttl own r" "0 < ttl"
  shows "sess_ok ttl own (index_add r uid token (ttl * 2))"
proof (rule sess_ok_keep [OF assms(1)])
  fix t g e ts e' assume "live_session (index_add r uid token (ttl * 2)) t = Some (g, e)"
  then have l: "live_session r t = Some (g, e)" by (simp add: index_add_def)
  from sess_okD [OF assms(1) l] expire_in_pos [OF assms(2)] expire_in_double [OF assms(2)] l show "live_session r t = Some (g, e) \<and>
      (live (rd_Now r) (rd_Index r) (own t) = Some (ts, e') \<longrightarrow> t \<in> set ts \<longrightarrow> e \<le> e' \<longrightarrow>
        (\<exists>ts2 e2. live (rd_Now (index_add r uid token (ttl * 2))) (rd_Index (index_add r uid token (ttl * 2))) (own t) = Some (ts2, e2) \<and>
          t \<in> set ts2 \<and> e \<le> e2))" by (auto simp: index_add_def)
qed (simp add: index_add_def)

lemma sess_ok_refresh:
  assumes "sess_ok ttl own r" "0 < ttl"
  shows "sess_ok ttl own (tx_refresh r ttl token (own token))"
proof (cases "live_session r token")
  case None
  with assms sess_ok_index_add show ?thesis by (simp add: tx_refresh_def)
next
  case (Some p)
  obtain h e where "p = (h, e)" by (cases p)
  with Some sess_okD [OF assms(1)] sess_ok_put [OF assms] show ?thesis by (auto simp: tx_refresh_def)
qed

lemma tx_delete_fields [simp]:
  "rd_Sess (tx_delete r uid token) = (rd_Sess r)(token := None)"
  "rd_Now (tx_delete r uid token) = rd_Now r" "rd_States (tx_delete r uid token) = rd_States r"
  by (auto simp: tx_delete_def index_remove_def Let_def split: option.splits prod.splits)

lemma tx_delete_index:
  assumes "live (rd_Now r) (rd_Index r) u = Some (ts, e)" "t \<in> set ts" "t \<noteq> token"
  shows "\<exists>ts'. live (rd_Now r) (rd_Index (tx_delete r uid token)) u = Some (ts', e) \<and> t \<in> set ts'"
  using assms by (auto simp: tx_delete_def index_remove_def Let_def live_Some filter_empty_conv split: option.splits prod.splits)

lemma sess_ok_delete: "sess_ok ttl own r \<Longrightarrow> sess_ok ttl own (tx_delete r uid token)"
proof (rule sess_ok_keep)
  fix t g e ts e' assume "live_session (tx_delete r uid token) t = Some (g, e)"
  then have "t \<noteq> token" "live_session r t = Some (g, e)" by (auto split: if_splits)
  then show "live_session r t = Some (g, e) \<and>
      (live (rd_Now r) (rd_Index r) (own t) = Some (ts, e') \<longrightarrow> t \<in> set ts \<longrightarrow> e \<le> e' \<longrightarrow>
        (\<exists>ts2 e2. live (rd_Now (tx_delete r uid token)) (rd_Index (tx_delete r uid token)) (own t) = Some (ts2, e2) \<and>
          t \<in> set ts2 \<and> e \<le> e2))"
    using tx_delete_index [of r "own t" ts e' t token uid] by auto
qed simp_all

lemma sess_ok_purge: "sess_ok ttl own r \<Longrightarrow> sess_ok ttl own (tx_purge r uid tokens)"
  unfolding tx_purge_def by (induction tokens arbitrary: r) (simp_all add: sess_ok_delete)

end
