(* ===== verification/Users_Service.thy ===== *)
theory Users_Service
  imports Auth_Password Sessions
begin

text \<open>
  User accounts: \<^verbatim>\<open>internal/users/service.go\<close> and \<^verbatim>\<open>admin.go\<close>, and the handlers that open a session
  (\<^verbatim>\<open>internal/handlers/auth.go\<close>, the end of \<^verbatim>\<open>CompleteProviderLogin\<close> in \<^verbatim>\<open>auth_providers.go\<close>).

  The state is the account store and Redis. A \<open>user_call\<close> names a statement that may fail (\<open>ue_fails\<close>) and before
  which other sessions act (\<open>ue_interf\<close>). The hashing gate, argon2, random bytes, fresh ids, address parsing and
  the rate limiter's answers are parameters. A panic of argon2 is the error \<open>panicked\<close>, which the recovery
  middleware answers with 500. What is written to cookies and to the response is not modelled, except the error.
\<close>

type_synonym acct = "adb \<times> redis"

datatype user_call = UGet | UCreate | UTeam | UPassword | UAdminFields | ULogin | UFresh | UList | UCount | UGuard

record user_env =
  ue_fails :: "user_call \<Rightarrow> bool"
  ue_interf :: "user_call \<Rightarrow> acct \<Rightarrow> acct"
  ue_sess :: sess_env
  ue_cf :: "string \<Rightarrow> string"
  ue_uni_lower :: "string \<Rightarrow> string"
  ue_parse_addr :: "string \<Rightarrow> bool"
  ue_argon :: argon2
  ue_wait :: duration
  ue_verify_gate :: gate_answer
  ue_hash_gate :: gate_answer
  ue_salt :: "string option"
  ue_newid :: "uuid option"
  ue_now :: time
  ue_open :: bool

definition panicked :: app_error where "panicked = Internal ''panic''"

text \<open>How a hashing error leaves the service.\<close>

definition hash_error :: "pw_error \<Rightarrow> app_error" where
  "hash_error e = (case e of
       PwErr a \<Rightarrow> if errors_Is a ErrUnavailable then a else Internal ''users: hashing password''
     | PwPanic \<Rightarrow> panicked
     | ErrInvalidHash \<Rightarrow> Internal ''users: hashing password'')"

definition check_password :: "string \<Rightarrow> string \<Rightarrow> fields \<Rightarrow> fields" where
  "check_password field pw v =
     (if length pw < 8 \<or> length pw > 128 then Validation_Add v field ''must be between 8 and 128 characters''
      else if IsCommonPassword pw then Validation_Add v field ''is too common; pick something less guessable'' else v)"

subsection \<open>Registration and reads\<close>

record RegisterInput =
  ri_Username :: string
  ri_Email :: string
  ri_Password :: string

definition validate_register :: "user_env \<Rightarrow> RegisterInput \<Rightarrow> fields" where
  "validate_register e i =
     (let v = (if length (ri_Username i) < 3 \<or> length (ri_Username i) > 32
               then Validation_Add [] ''username'' ''must be between 3 and 32 characters''
               else if \<not> usernameRe (ri_Username i)
               then Validation_Add [] ''username'' ''may only contain letters, digits, and _ . -'' else []);
          v = add_if (\<not> ue_parse_addr e (ri_Email i) \<or> ContainsAny (ri_Email i) '' <>'') ''email''
                ''must be a valid email address'' v
      in check_password ''password'' (ri_Password i) v)"

definition Users_Register :: "user_env \<Rightarrow> acct \<Rightarrow> RegisterInput \<Rightarrow> acct \<times> User result" where
  "Users_Register e w i =
     (if \<not> ue_open e then (w, Inl (Forbidden ''registration is closed''))
      else case OrNil (validate_register e i) of
             Some err \<Rightarrow> (w, Inl err)
           | None \<Rightarrow>
               (case HashPassword (ue_argon e) (ue_wait e) (ue_salt e) (ue_hash_gate e) (ri_Password i) of
                  Inl h \<Rightarrow> (w, Inl (hash_error h))
                | Inr hash \<Rightarrow>
                    (case ue_newid e of
                       None \<Rightarrow> (w, Inl (Internal ''users: generating id''))
                     | Some uid \<Rightarrow>
                         let (s, r) = ue_interf e UCreate w
                         in if ue_fails e UCreate then ((s, r), Inl (Internal ''users: creating user''))
                            else case CreateUser (ue_cf e) s (ue_now e) uid (ri_Username i)
                                        (ToLower (ue_uni_lower e) (ri_Email i)) hash ''user'' False of
                                   Inl q \<Rightarrow> ((s, r), Inl (if isUniqueViolation q
                                       then Conflict ''username or email is already taken''
                                       else Internal ''users: creating user''))
                                 | Inr (s', u) \<Rightarrow> ((s', r), Inr u))))"

definition Users_Get :: "user_env \<Rightarrow> user_call \<Rightarrow> acct \<Rightarrow> uuid \<Rightarrow> acct \<times> User result" where
  "Users_Get e c w uid =
     (let (s, r) = ue_interf e c w
      in if ue_fails e c then ((s, r), Inl (Internal ''users: getting user''))
         else case GetUserByID s uid of
                None \<Rightarrow> ((s, r), Inl ErrNotFound)
              | Some u \<Rightarrow> ((s, r), Inr u))"

record TeamRef =
  tr_ID :: uuid
  tr_Name :: string
  tr_Role :: string

definition TeamOf :: "user_env \<Rightarrow> acct \<Rightarrow> uuid \<Rightarrow> acct \<times> TeamRef option result" where
  "TeamOf e w uid =
     (let (s, r) = ue_interf e UTeam w
      in if ue_fails e UTeam then ((s, r), Inl (Internal ''users: getting team''))
         else case GetUserTeam (db.truncate s) uid of
                None \<Rightarrow> ((s, r), Inr None)
              | Some t \<Rightarrow> ((s, r), Inr (Some \<lparr>tr_ID = t_ID t, tr_Name = t_Name t,
                    tr_Role = (if t_CaptainID t = uid then ''captain'' else ''member'')\<rparr>)))"

subsection \<open>Password changes\<close>

definition revoke_sessions :: "user_env \<Rightarrow> acct \<Rightarrow> uuid \<Rightarrow> string \<Rightarrow> string \<Rightarrow> acct \<times> app_error option" where
  "revoke_sessions e w uid keep what =
     (case DeleteAllForUser (ue_sess e) (snd w) uid keep of
        (r, None) \<Rightarrow> ((fst w, r), None)
      | (r, Some _) \<Rightarrow> ((fst w, r), Some (Internal what)))"

text \<open>The steps after the new password was validated: hash, store, revoke.\<close>

definition set_password ::
  "user_env \<Rightarrow> acct \<Rightarrow> uuid \<Rightarrow> string \<Rightarrow> string \<Rightarrow> string \<Rightarrow> string \<Rightarrow> acct \<times> app_error option" where
  "set_password e w uid newPassword keep updating revoking =
     (case HashPassword (ue_argon e) (ue_wait e) (ue_salt e) (ue_hash_gate e) newPassword of
        Inl h \<Rightarrow> (w, Some (hash_error h))
      | Inr hash \<Rightarrow>
          let (s, r) = ue_interf e UPassword w
          in if ue_fails e UPassword then ((s, r), Some (Internal updating))
             else revoke_sessions e (UpdateUserPassword s (ue_now e) uid hash, r) uid keep revoking)"

definition ChangePassword ::
  "user_env \<Rightarrow> acct \<Rightarrow> uuid \<Rightarrow> string \<Rightarrow> string \<Rightarrow> string \<Rightarrow> acct \<times> app_error option" where
  "ChangePassword e w uid current newPassword keepSessionToken =
     (case Users_Get e UGet w uid of
        (w, Inl err) \<Rightarrow> (w, Some err)
      | (w, Inr u) \<Rightarrow>
          (let wrong = Some (Forbidden ''current password is incorrect'');
               proceed = (case OrNil (check_password ''new_password'' newPassword []) of
                   Some err \<Rightarrow> (w, Some err)
                 | None \<Rightarrow> set_password e w uid newPassword keepSessionToken ''users: updating password''
                            ''users: revoking sessions'')
           in case VerifyPassword (ue_argon e) (ue_wait e) (ue_verify_gate e) current (u_PasswordHash u) of
                Inl (PwErr a) \<Rightarrow> (w, if errors_Is a ErrUnavailable then Some a else wrong)
              | Inl PwPanic \<Rightarrow> (w, Some panicked)
              | Inl ErrInvalidHash \<Rightarrow> (w, wrong)
              | Inr ok \<Rightarrow> if \<not> ok then (w, wrong) else proceed))"

definition RehashPassword :: "user_env \<Rightarrow> acct \<Rightarrow> uuid \<Rightarrow> string \<Rightarrow> acct \<times> bool" where
  "RehashPassword e w uid newHash =
     (let (s, r) = ue_interf e UPassword w
      in if ue_fails e UPassword then ((s, r), False) else ((UpdateUserPassword s (ue_now e) uid newHash, r), True))"

subsection \<open>Administration\<close>

record AdminListFilters =
  af_Query :: "string option"
  af_Banned :: "bool option"
  af_Hidden :: "bool option"
  af_Role :: "string option"

definition ListAdmin ::
  "(string \<Rightarrow> string \<Rightarrow> bool) \<Rightarrow> user_env \<Rightarrow> acct \<Rightarrow> int \<Rightarrow> int \<Rightarrow> AdminListFilters \<Rightarrow>
   acct \<times> (ListUsersAdminRow list \<times> int) result" where
  "ListAdmin ilike e w limit offset f =
     (let w = ue_interf e UList w
      in if ue_fails e UList then (w, Inl (Internal ''users: listing''))
         else let items = ListUsersAdmin ilike (fst w) limit offset (af_Query f) (af_Banned f) (af_Hidden f) (af_Role f);
                  w = ue_interf e UCount w
              in if ue_fails e UCount then (w, Inl (Internal ''users: counting''))
                 else (w, Inr (items, CountUsersAdmin ilike (fst w) (af_Query f) (af_Banned f) (af_Hidden f) (af_Role f))))"

definition Users_AdminUpdate ::
  "user_env \<Rightarrow> acct \<Rightarrow> uuid \<Rightarrow> uuid \<Rightarrow> bool option \<Rightarrow> bool option \<Rightarrow> string option \<Rightarrow> acct \<times> User result" where
  "Users_AdminUpdate e w actorID targetID banned hidden role =
     (if actorID = targetID \<and> (banned = Some True \<or> (role \<noteq> None \<and> role \<noteq> Some ''admin''))
      then (w, Inl (Conflict ''you cannot ban or demote yourself''))
      else if role \<noteq> None \<and> role \<noteq> Some ''user'' \<and> role \<noteq> Some ''admin''
      then (w, Inl (Validation (Validation_Add [] ''role'' (''must be 'user' or 'admin'' @ [CHR 0x27]))))
      else let (s, r) = ue_interf e UAdminFields w
           in if ue_fails e UAdminFields then ((s, r), Inl (Internal ''users: admin update''))
              else case UpdateUserAdminFields s (ue_now e) targetID banned hidden role of
                     Inl _ \<Rightarrow> ((s, r), Inl (Internal ''users: admin update''))
                   | Inr (s', None) \<Rightarrow> ((s', r), Inl ErrNotFound)
                   | Inr (s', Some u) \<Rightarrow>
                       if banned = Some True
                       then (case revoke_sessions e (s', r) targetID [] ''users: revoking sessions on ban'' of
                               (w, Some err) \<Rightarrow> (w, Inl err)
                             | (w, None) \<Rightarrow> (w, Inr u))
                       else ((s', r), Inr u))"

definition AdminResetPassword :: "user_env \<Rightarrow> acct \<Rightarrow> uuid \<Rightarrow> string \<Rightarrow> acct \<times> app_error option" where
  "AdminResetPassword e w targetID newPassword =
     (case Users_Get e UGet w targetID of
        (w, Inl err) \<Rightarrow> (w, Some err)
      | (w, Inr _) \<Rightarrow>
          (case OrNil (check_password ''new_password'' newPassword []) of
             Some err \<Rightarrow> (w, Some err)
           | None \<Rightarrow> set_password e w targetID newPassword [] ''users: resetting password''
                       ''users: revoking sessions on reset''))"

subsection \<open>Opening a session\<close>

text \<open>After a login was authenticated: create the session, then read the row again; a ban that landed in between is
  seen here and the session is deleted, best effort.\<close>

definition open_session ::
  "user_env \<Rightarrow> string option \<Rightarrow> acct \<Rightarrow> User \<Rightarrow> string \<Rightarrow> string \<Rightarrow> acct \<times> (app_error + Session)" where
  "open_session e rand w u ip ua =
     (case SessionStore_Create (ue_sess e) rand (ue_now e) (snd w) (u_ID u) (u_Role u) ip ua of
        (r, Inl _) \<Rightarrow> ((fst w, r), Inl (Internal ''auth: storing session''))
      | (r, Inr sess) \<Rightarrow>
          (case Users_Get e UFresh (fst w, r) (u_ID u) of
             (w, Inr fresh) \<Rightarrow>
               if u_Banned fresh
               then ((fst w, fst (SessionStore_Delete (ue_sess e) (snd w) (ss_Token sess))), Inl ErrUnauthenticated)
               else (w, Inr sess)
           | (w, Inl _) \<Rightarrow> (w, Inr sess)))"

record login_cfg =
  lc_disabled :: bool
  lc_ip_limit :: "app_error option"
  lc_acct_limit :: "app_error option"

definition Login ::
  "user_env \<Rightarrow> cred_env \<Rightarrow> login_cfg \<Rightarrow> string option \<Rightarrow> acct \<Rightarrow> (string \<times> string) option \<Rightarrow> string \<Rightarrow> string \<Rightarrow>
   acct \<times> Session result" where
  "Login e c cfg rand w body ip ua =
     (case body of
        None \<Rightarrow> (w, Inl ErrBadRequest)
      | Some (em, password) \<Rightarrow>
          if lc_disabled cfg then (w, Inl (Forbidden ''email/password login is disabled on this deployment; use your configured identity provider''))
          else case lc_ip_limit cfg of
                 Some err \<Rightarrow> (w, Inl err)
               | None \<Rightarrow>
          (case lc_acct_limit cfg of
             Some err \<Rightarrow> (w, Inl err)
           | None \<Rightarrow>
               let (s, r) = ue_interf e ULogin w
               in case Authenticate_password c s (ToLower (ue_uni_lower e) em) password of
                    (s, Inl (CredErr a)) \<Rightarrow> ((s, r), Inl (if errors_Is a ErrUnavailable then a else ErrUnauthenticated))
                  | (s, Inl ErrInvalidCredentials) \<Rightarrow> ((s, r), Inl ErrUnauthenticated)
                  | (s, Inl CredPanic) \<Rightarrow> ((s, r), Inl panicked)
                  | (s, Inr uid) \<Rightarrow>
                      (case Users_Get e UGet (s, r) uid of
                         (w, Inl _) \<Rightarrow> (w, Inl ErrUnauthenticated)
                       | (w, Inr u) \<Rightarrow>
                           (case open_session e rand w u ip ua of
                              (w, Inl err) \<Rightarrow> (w, Inl err)
                            | (w, Inr sess) \<Rightarrow>
                                (case TeamOf e w (u_ID u) of
                                   (w, Inl err) \<Rightarrow> (w, Inl err)
                                 | (w, Inr _) \<Rightarrow> (w, Inr sess))))))"

definition Logout :: "user_env \<Rightarrow> acct \<Rightarrow> string option \<Rightarrow> acct \<times> app_error option" where
  "Logout e w identity =
     (case identity of
        None \<Rightarrow> (w, Some ErrUnauthenticated)
      | Some token \<Rightarrow>
          (case SessionStore_Delete (ue_sess e) (snd w) token of
             (r, None) \<Rightarrow> ((fst w, r), None)
           | (r, Some _) \<Rightarrow> ((fst w, r), Some (Internal ''exec''))))"

text \<open>The registration handler opens the session without reading the row again.\<close>

definition Register_account ::
  "user_env \<Rightarrow> app_error option \<Rightarrow> string option \<Rightarrow> acct \<Rightarrow> RegisterInput option \<Rightarrow> string \<Rightarrow> string \<Rightarrow> acct \<times> Session result" where
  "Register_account e limited rand w body ip ua =
     (case body of
        None \<Rightarrow> (w, Inl ErrBadRequest)
      | Some i \<Rightarrow>
          (case limited of
             Some err \<Rightarrow> (w, Inl err)
           | None \<Rightarrow>
               (case Users_Register e w i of
                  (w, Inl err) \<Rightarrow> (w, Inl err)
                | (w, Inr u) \<Rightarrow>
                    (case SessionStore_Create (ue_sess e) rand (ue_now e) (snd w) (u_ID u) (u_Role u) ip ua of
                       (r, Inl _) \<Rightarrow> ((fst w, r), Inl (Internal ''auth: storing session''))
                     | (r, Inr sess) \<Rightarrow>
                         (case TeamOf e (fst w, r) (u_ID u) of
                            (w, Inl err) \<Rightarrow> (w, Inl err)
                          | (w, Inr _) \<Rightarrow> (w, Inr sess))))))"

end
