(* ===== verification/Auth_Tokens.thy ===== *)
theory Auth_Tokens
  imports Accounts Encodings
begin

text \<open>
  Personal access tokens: \<^verbatim>\<open>internal/auth/token.go\<close> and the caller's identity of \<^verbatim>\<open>context.go\<close>. A token is
  \<^verbatim>\<open>osctf_pat_\<close> and the base32 text of 32 random bytes; the store keeps a hash of it and the first twelve
  characters of the body. SHA-256, random bytes and fresh ids are parameters. A \<open>tok_call\<close> names a statement that
  may fail (\<open>te_fails\<close>) and before which other sessions act (\<open>te_interf\<close>).
\<close>

subsection \<open>Identities\<close>

datatype AuthMethod = AuthSession | AuthToken

record Identity =
  id_UserID :: uuid
  id_Role :: string
  id_SessionToken :: string
  id_Method :: AuthMethod
  id_Scopes :: "string list"
  id_TokenID :: uuid

subsection \<open>Scopes and token strings\<close>

definition ScopeRead :: string where "ScopeRead = ''read''"
definition ScopeSubmit :: string where "ScopeSubmit = ''submit''"
definition ScopeAdmin :: string where "ScopeAdmin = ''admin''"
definition TokenPrefix :: string where "TokenPrefix = ''osctf_pat_''"
definition tokenRandBytes :: nat where "tokenRandBytes = 32"
definition tokenPrefixLen :: nat where "tokenPrefixLen = 12"

datatype tok_error = ErrInvalidToken | ErrTokenExpired | ErrUserBanned | ErrTokenScope | UnknownScope string | TokErr string

definition validScopes :: "string list" where
  "validScopes = [ScopeRead, ScopeSubmit, ScopeAdmin]"

fun ValidateScopes :: "string list \<Rightarrow> tok_error option" where
  "ValidateScopes [] = None"
| "ValidateScopes (s # ss) = (if s \<notin> set validScopes then Some (UnknownScope s) else ValidateScopes ss)"

datatype tok_call = TProbe | TOwner | TTouch | TCreate | TList | TRevoke | TDeleteUser | TListAll | TCountAll | TRevokeAny

record tok_env =
  te_fails :: "tok_call \<Rightarrow> bool"
  te_interf :: "tok_call \<Rightarrow> adb \<Rightarrow> adb"
  te_sha :: "string \<Rightarrow> string"
  te_rand :: "string option"
  te_newid :: "uuid option"
  te_now :: time

definition hashToken :: "tok_env \<Rightarrow> string \<Rightarrow> string" where
  "hashToken e plaintext = hex_EncodeToString (te_sha e plaintext)"

text \<open>The plaintext, its hash and the stored prefix.\<close>

definition GenerateToken :: "tok_env \<Rightarrow> tok_error + string \<times> string \<times> string" where
  "GenerateToken e =
     (case te_rand e of
        None \<Rightarrow> Inl (TokErr ''auth: generating token'')
      | Some b \<Rightarrow>
          let body = base32_EncodeToString b;
              plaintext = TokenPrefix @ body
          in Inr (plaintext, hashToken e plaintext, take tokenPrefixLen body))"

definition parsePresented :: "tok_env \<Rightarrow> string \<Rightarrow> (string \<times> string) option" where
  "parsePresented e raw =
     (let (body, found) = CutPrefix raw TokenPrefix
      in if \<not> found \<or> length body < tokenPrefixLen then None
         else Some (take tokenPrefixLen body, hashToken e raw))"

subsection \<open>The token service\<close>

record TokenMeta =
  tm_ID :: uuid
  tm_Name :: string
  tm_Prefix :: string
  tm_Scopes :: "string list"
  tm_LastUsedAt :: "time option"
  tm_ExpiresAt :: "time option"
  tm_CreatedAt :: time

definition metaOf :: "ApiToken \<Rightarrow> TokenMeta" where
  "metaOf t = \<lparr>tm_ID = at_ID t, tm_Name = at_Name t, tm_Prefix = at_Prefix t, tm_Scopes = at_Scopes t,
     tm_LastUsedAt = at_LastUsedAt t, tm_ExpiresAt = at_ExpiresAt t, tm_CreatedAt = at_CreatedAt t\<rparr>"

definition Token_Create ::
  "tok_env \<Rightarrow> adb \<Rightarrow> uuid \<Rightarrow> string \<Rightarrow> string list \<Rightarrow> time option \<Rightarrow> adb \<times> (tok_error + string \<times> TokenMeta)" where
  "Token_Create e s uid name scopes expires =
     (case ValidateScopes scopes of
        Some err \<Rightarrow> (s, Inl err)
      | None \<Rightarrow>
          (case te_newid e of
             None \<Rightarrow> (s, Inl (TokErr ''auth: token id''))
           | Some i \<Rightarrow>
               (case GenerateToken e of
                  Inl err \<Rightarrow> (s, Inl err)
                | Inr (plaintext, hash, pre) \<Rightarrow>
                    let s = te_interf e TCreate s
                    in if te_fails e TCreate then (s, Inl (TokErr ''auth: creating token''))
                       else case CreateAPIToken s (te_now e) i uid name hash pre scopes expires of
                              Inl _ \<Rightarrow> (s, Inl (TokErr ''auth: creating token''))
                            | Inr (s', row) \<Rightarrow> (s', Inr (plaintext, metaOf row)))))"

text \<open>The scan does not stop at a match: the last matching candidate counts.\<close>

fun last_match :: "string \<Rightarrow> ApiToken list \<Rightarrow> ApiToken option" where
  "last_match hash [] = None"
| "last_match hash (t # ts) =
     (case last_match hash ts of
        Some m \<Rightarrow> Some m
      | None \<Rightarrow> if ConstantTimeCompare hash (at_TokenHash t) = 1 then Some t else None)"

definition Token_Authenticate :: "tok_env \<Rightarrow> adb \<Rightarrow> string \<Rightarrow> time \<Rightarrow> adb \<times> (tok_error + Identity)" where
  "Token_Authenticate e s raw now =
     (case parsePresented e raw of
        None \<Rightarrow> (s, Inl ErrInvalidToken)
      | Some (pre, hash) \<Rightarrow>
          let s = te_interf e TProbe s
          in if te_fails e TProbe then (s, Inl (TokErr ''query''))
             else case last_match hash (GetAPITokensByPrefix s pre) of
                    None \<Rightarrow> (s, Inl ErrInvalidToken)
                  | Some tok \<Rightarrow>
                      if (case at_ExpiresAt tok of None \<Rightarrow> False | Some x \<Rightarrow> \<not> now < x) then (s, Inl ErrTokenExpired)
                      else if ValidateScopes (at_Scopes tok) \<noteq> None then (s, Inl ErrTokenScope)
                      else let s = te_interf e TOwner s
                           in if te_fails e TOwner then (s, Inl ErrInvalidToken)
                              else case GetUserByID s (at_UserID tok) of
                                     None \<Rightarrow> (s, Inl ErrInvalidToken)
                                   | Some u \<Rightarrow>
                                       if u_Banned u then (s, Inl ErrUserBanned)
                                       else (s, Inr \<lparr>id_UserID = u_ID u, id_Role = u_Role u, id_SessionToken = [],
                                              id_Method = AuthToken, id_Scopes = at_Scopes tok, id_TokenID = at_ID tok\<rparr>))"

text \<open>The boolean is whether the statement succeeded.\<close>

definition Token_Touch :: "tok_env \<Rightarrow> adb \<Rightarrow> time \<Rightarrow> uuid \<Rightarrow> adb \<times> bool" where
  "Token_Touch e s now i =
     (let s = te_interf e TTouch s
      in if te_fails e TTouch then (s, False) else (TouchAPIToken s now i, True))"

definition Token_List :: "tok_env \<Rightarrow> adb \<Rightarrow> uuid \<Rightarrow> adb \<times> (tok_error + TokenMeta list)" where
  "Token_List e s uid =
     (let s = te_interf e TList s
      in if te_fails e TList then (s, Inl (TokErr ''auth: listing tokens''))
         else (s, Inr (map metaOf (ListAPITokensByUser s uid))))"

definition Token_Revoke :: "tok_env \<Rightarrow> adb \<Rightarrow> uuid \<Rightarrow> uuid \<Rightarrow> adb \<times> (tok_error + bool)" where
  "Token_Revoke e s uid i =
     (let s = te_interf e TRevoke s
      in if te_fails e TRevoke then (s, Inl (TokErr ''auth: revoking token''))
         else case DeleteAPIToken s i uid of (s', n) \<Rightarrow> (s', Inr (n > 0)))"

definition DeleteForUser :: "tok_env \<Rightarrow> adb \<Rightarrow> uuid \<Rightarrow> adb \<times> bool" where
  "DeleteForUser e s uid =
     (let s = te_interf e TDeleteUser s
      in if te_fails e TDeleteUser then (s, False) else (DeleteAPITokensForUser s uid, True))"

definition Token_ListAll ::
  "tok_env \<Rightarrow> adb \<Rightarrow> int \<Rightarrow> int \<Rightarrow> adb \<times> (tok_error + (TokenMeta \<times> uuid \<times> string) list \<times> int)" where
  "Token_ListAll e s limit offset =
     (let s = te_interf e TListAll s
      in if te_fails e TListAll then (s, Inl (TokErr ''auth: listing all tokens''))
         else let rows = ListAllAPITokens s limit offset;
                  s = te_interf e TCountAll s
              in if te_fails e TCountAll then (s, Inl (TokErr ''auth: counting tokens''))
                 else (s, Inr (map (\<lambda>(t, uid, name). (metaOf t, uid, name)) rows, CountAllAPITokens s)))"

definition RevokeAny :: "tok_env \<Rightarrow> adb \<Rightarrow> uuid \<Rightarrow> adb \<times> (tok_error + bool)" where
  "RevokeAny e s i =
     (let s = te_interf e TRevokeAny s
      in if te_fails e TRevokeAny then (s, Inl (TokErr ''auth: admin revoking token''))
         else case DeleteAPITokenByID s i of (s', n) \<Rightarrow> (s', Inr (n > 0)))"

end
