(* ===== verification/Http_Gate.thy ===== *)
theory Http_Gate
  imports Users_Service Auth_Tokens
begin

text \<open>
  What stands between a request and its handler: the session, token, origin and CORS middleware of
  \<^verbatim>\<open>internal/httpserver\<close> in the order \<^verbatim>\<open>New\<close> nests them, the guards of \<^verbatim>\<open>handlers/guards.go\<close>, and the handlers
  of accounts and tokens (\<^verbatim>\<open>handlers/token_handlers.go\<close>, \<^verbatim>\<open>admin_users.go\<close>, the rest of \<^verbatim>\<open>auth.go\<close>) with
  \<^verbatim>\<open>internal/pagination\<close>.

  A request is its method, path (without the mount's prefix), session cookie and the headers read here; an absent
  header is the empty string, as for \<^verbatim>\<open>Header.Get\<close>. \<^verbatim>\<open>url.Parse\<close>, \<^verbatim>\<open>strconv.Quote\<close> and the rate limiter's answers
  are parameters. A reply is a problem (status, detail, \<^verbatim>\<open>Retry-After\<close>), the CORS preflight's 204, or the handler
  run with an identity. Audit entries and response bodies are not modelled.
\<close>

subsection \<open>Requests and replies\<close>

record http_req =
  hr_Method :: string
  hr_Path :: string
  hr_Cookie :: "string option"
  hr_Authorization :: string
  hr_Origin :: string
  hr_Referer :: string

datatype limit_answer = LimitOk | LimitHit duration | LimitDown

datatype reply = Problem nat string "int option" | NoContent | Handle "Identity option"

record api_cfg =
  ac_base :: string
  ac_dev :: string
  ac_url_Parse :: "string \<Rightarrow> (string \<times> string) option"
  ac_sessions :: bool
  ac_tokens :: bool
  ac_limit :: "(uuid \<Rightarrow> limit_answer) option"

subsection \<open>Middleware\<close>

definition session_identity :: "Session \<Rightarrow> Identity" where
  "session_identity sess = \<lparr>id_UserID = ss_UserID sess, id_Role = ss_Role sess, id_SessionToken = ss_Token sess,
     id_Method = AuthSession, id_Scopes = [], id_TokenID = uuid_nil\<rparr>"

definition sessionMiddleware :: "sess_env \<Rightarrow> redis \<Rightarrow> http_req \<Rightarrow> redis \<times> Identity option" where
  "sessionMiddleware e r req =
     (case hr_Cookie req of
        None \<Rightarrow> (r, None)
      | Some v \<Rightarrow>
          if v = [] then (r, None)
          else (case SessionStore_Get e r v of
                  (r, Inr sess) \<Rightarrow> (r, Some (session_identity sess))
                | (r, Inl _) \<Rightarrow> (r, None)))"

definition bearerFromHeader :: "http_req \<Rightarrow> string option" where
  "bearerFromHeader req =
     (let (body, ok) = CutPrefix (hr_Authorization req) ''Bearer ''
      in if \<not> ok then None else if TrimSpace body = [] then None else Some (TrimSpace body))"

definition requiredScope :: "string \<Rightarrow> string \<Rightarrow> string" where
  "requiredScope meth path =
     (if path = ''/admin'' \<or> HasPrefix path ''/admin/'' then ScopeAdmin
      else if meth = ''GET'' \<or> meth = ''HEAD'' then ScopeRead else ScopeSubmit)"

definition scopeAllows :: "string list \<Rightarrow> string \<Rightarrow> string \<Rightarrow> bool" where
  "scopeAllows scopes meth path = list_ex (\<lambda>s. s = requiredScope meth path) scopes"

definition writeTokenAuthError :: "tok_error \<Rightarrow> reply" where
  "writeTokenAuthError err =
     (if err = ErrTokenScope then Problem 403 ''the token's scopes are not recognized'' None
      else Problem 401 ''invalid or expired token'' None)"

definition limit_problem :: "(uuid \<Rightarrow> limit_answer) option \<Rightarrow> uuid \<Rightarrow> reply option" where
  "limit_problem limiter i =
     (case limiter of
        None \<Rightarrow> None
      | Some f \<Rightarrow>
          (case f i of
             LimitDown \<Rightarrow> Some (Problem 503 ''the rate limiter is temporarily unavailable; please retry shortly'' (Some 3))
           | LimitHit d \<Rightarrow> Some (Problem 429 ''token rate limit exceeded'' (Some (d div second + 1)))
           | LimitOk \<Rightarrow> None))"

definition tokenMiddleware ::
  "tok_env \<Rightarrow> (uuid \<Rightarrow> limit_answer) option \<Rightarrow> adb \<Rightarrow> Identity option \<Rightarrow> http_req \<Rightarrow> time \<Rightarrow> adb \<times> reply" where
  "tokenMiddleware e limiter s identity req now =
     (if identity \<noteq> None then (s, Handle identity)
      else case bearerFromHeader req of
             None \<Rightarrow> (s, Handle None)
           | Some raw \<Rightarrow>
               (case Token_Authenticate e s raw now of
                  (s, Inl err) \<Rightarrow> (s, writeTokenAuthError err)
                | (s, Inr i) \<Rightarrow>
                    (case limit_problem limiter (id_TokenID i) of
                       Some p \<Rightarrow> (s, p)
                     | None \<Rightarrow>
                         if \<not> scopeAllows (id_Scopes i) (hr_Method req) (hr_Path req)
                         then (s, Problem 403 ''the token's scopes do not permit this request'' None)
                         else (fst (Token_Touch e s now (id_TokenID i)), Handle (Some i)))))"

definition safe_method :: "string \<Rightarrow> bool" where
  "safe_method m \<longleftrightarrow> m = ''GET'' \<or> m = ''HEAD'' \<or> m = ''OPTIONS''"

definition request_origin :: "api_cfg \<Rightarrow> http_req \<Rightarrow> string" where
  "request_origin cfg req =
     (if hr_Origin req \<noteq> [] then hr_Origin req
      else if hr_Referer req \<noteq> []
      then (case ac_url_Parse cfg (hr_Referer req) of None \<Rightarrow> [] | Some (scheme, host) \<Rightarrow> scheme @ ''://'' @ host)
      else [])"

definition origin_allowed :: "api_cfg \<Rightarrow> http_req \<Rightarrow> bool" where
  "origin_allowed cfg req \<longleftrightarrow>
     TrimSuffix (request_origin cfg req) ''/'' \<in> set (ac_base cfg # (if ac_dev cfg \<noteq> [] then [ac_dev cfg] else []))"

text \<open>\<open>None\<close> passes the request on.\<close>

definition originCheck :: "api_cfg \<Rightarrow> http_req \<Rightarrow> Identity option \<Rightarrow> reply option" where
  "originCheck cfg req identity =
     (if safe_method (hr_Method req) then None
      else if (case identity of Some i \<Rightarrow> id_Method i = AuthToken | None \<Rightarrow> False) then None
      else if origin_allowed cfg req then None else Some (Problem 403 ''origin check failed'' None))"

definition corsDev :: "api_cfg \<Rightarrow> http_req \<Rightarrow> reply option" where
  "corsDev cfg req =
     (if ac_dev cfg \<noteq> [] \<and> hr_Origin req = ac_dev cfg \<and> hr_Method req = ''OPTIONS'' then Some NoContent else None)"

definition api_entry :: "api_cfg \<Rightarrow> sess_env \<Rightarrow> tok_env \<Rightarrow> acct \<Rightarrow> http_req \<Rightarrow> time \<Rightarrow> acct \<times> reply" where
  "api_entry cfg se te w req now =
     (let (r, identity) = (if ac_sessions cfg then sessionMiddleware se (snd w) req else (snd w, None));
          (s, out) = (if ac_tokens cfg then tokenMiddleware te (ac_limit cfg) (fst w) identity req now
                      else (fst w, Handle identity))
      in ((s, r), case out of
            Handle identity \<Rightarrow>
              (case (if ac_base cfg \<noteq> [] then originCheck cfg req identity else None) of
                 Some p \<Rightarrow> p
               | None \<Rightarrow> (case corsDev cfg req of Some p \<Rightarrow> p | None \<Rightarrow> Handle identity))
          | p \<Rightarrow> p))"

subsection \<open>Guards\<close>

definition requireUser :: "Identity option \<Rightarrow> Identity result" where
  "requireUser identity = (case identity of None \<Rightarrow> Inl ErrUnauthenticated | Some i \<Rightarrow> Inr i)"

definition requireSession :: "Identity option \<Rightarrow> Identity result" where
  "requireSession identity =
     (case requireUser identity of
        Inl err \<Rightarrow> Inl err
      | Inr i \<Rightarrow>
          if id_Method i \<noteq> AuthSession
          then Inl (Forbidden ''token management requires a session; an API token cannot manage tokens'')
          else Inr i)"

definition requireAdmin :: "user_env \<Rightarrow> acct \<Rightarrow> Identity option \<Rightarrow> acct \<times> User result" where
  "requireAdmin e w identity =
     (case requireUser identity of
        Inl err \<Rightarrow> (w, Inl err)
      | Inr i \<Rightarrow>
          (case Users_Get e UGuard w (id_UserID i) of
             (w, Inl _) \<Rightarrow> (w, Inl ErrUnauthenticated)
           | (w, Inr u) \<Rightarrow>
               if u_Banned u \<or> u_Role u \<noteq> ''admin'' then (w, Inl (Forbidden ''admin access required''))
               else (w, Inr u)))"

definition requireSessionAdmin :: "user_env \<Rightarrow> acct \<Rightarrow> Identity option \<Rightarrow> acct \<times> User result" where
  "requireSessionAdmin e w identity =
     (case requireSession identity of Inl err \<Rightarrow> (w, Inl err) | Inr _ \<Rightarrow> requireAdmin e w identity)"

definition callerIsAdmin :: "user_env \<Rightarrow> acct \<Rightarrow> Identity option \<Rightarrow> acct \<times> bool result" where
  "callerIsAdmin e w identity =
     (case requireAdmin e w identity of
        (w, Inl err) \<Rightarrow>
          (w, if errors_Is err ErrUnauthenticated \<or> errors_Is err ErrForbidden then Inr False else Inl err)
      | (w, Inr _) \<Rightarrow> (w, Inr True))"

end
