(* ===== verification/Account_Handlers.thy ===== *)
theory Account_Handlers
  imports Http_Gate
begin

text \<open>
  The handlers of tokens (\<^verbatim>\<open>handlers/token_handlers.go\<close>), of the caller's account (\<^verbatim>\<open>handlers/auth.go\<close>) and of the
  administration of users (\<^verbatim>\<open>handlers/admin_users.go\<close>), with \<^verbatim>\<open>internal/pagination\<close>. Go's \<^verbatim>\<open>int\<close> has 64 bits; the
  products that can exceed its range are taken modulo. Audit entries are best effort and not modelled.
\<close>

subsection \<open>Pagination\<close>

record Params =
  pg_Page :: int
  pg_PerPage :: int

definition maxPage :: int where "maxPage = 1000000"

definition Normalize :: "int option \<Rightarrow> int option \<Rightarrow> Params" where
  "Normalize page perPage =
     \<lparr>pg_Page = (case page of None \<Rightarrow> 1 | Some p \<Rightarrow> if p \<ge> 1 then (if p > maxPage then maxPage else p) else 1),
      pg_PerPage = (case perPage of None \<Rightarrow> 50 | Some n \<Rightarrow> if n < 1 then 1 else if n > 200 then 200 else n)\<rparr>"

definition Limit :: "Params \<Rightarrow> int" where
  "Limit p = signed_take_bit 31 (pg_PerPage p)"

definition Offset :: "Params \<Rightarrow> int" where
  "Offset p = signed_take_bit 31 ((pg_Page p - 1) * pg_PerPage p)"

subsection \<open>Tokens\<close>

record token_cfg =
  tc_enabled :: bool
  tc_DefaultTTL :: duration
  tc_MaxTTL :: duration
  tc_quote :: "string \<Rightarrow> string"

record CreateTokenBody =
  cb_Name :: string
  cb_Scopes :: "string list"
  cb_ExpiresInDays :: "int option"

text \<open>What of a token error a client sees: an internal error.\<close>

definition tok_internal :: "tok_error \<Rightarrow> app_error" where
  "tok_internal err = (case err of TokErr m \<Rightarrow> Internal m | _ \<Rightarrow> Internal ''auth'')"

definition hours :: "duration \<Rightarrow> int" where
  "hours d = d div (3600 * second)"

text \<open>\<^verbatim>\<open>time.Duration(days) * 24 * time.Hour\<close>.\<close>

definition days_ttl :: "int \<Rightarrow> duration" where
  "days_ttl days = signed_take_bit 63 (days * 24 * (3600 * second))"

definition token_ttl :: "token_cfg \<Rightarrow> int option \<Rightarrow> fields \<Rightarrow> duration \<times> fields" where
  "token_ttl cfg days v =
     (case days of
        None \<Rightarrow> (tc_DefaultTTL cfg, v)
      | Some d \<Rightarrow>
          if d < 1 then (tc_DefaultTTL cfg, Validation_Add v ''expires_in_days'' ''must be a positive number of days'')
          else let ttl = days_ttl d
               in (ttl, add_if (tc_MaxTTL cfg > 0 \<and> ttl > tc_MaxTTL cfg) ''expires_in_days''
                     (''exceeds the maximum of '' @ itoa (nat (hours (tc_MaxTTL cfg) div 24)) @ '' days'') v))"

definition token_fields :: "token_cfg \<Rightarrow> CreateTokenBody \<Rightarrow> fields" where
  "token_fields cfg b =
     (let v = add_if (length (cb_Name b) < 1 \<or> length (cb_Name b) > 100) ''name'' ''must be between 1 and 100 characters'' []
      in if cb_Scopes b = [] then Validation_Add v ''scopes'' ''at least one scope is required''
         else case ValidateScopes (cb_Scopes b) of
                Some (UnknownScope s) \<Rightarrow> Validation_Add v ''scopes'' (''unknown scope '' @ tc_quote cfg s)
              | _ \<Rightarrow> v)"

definition CreateToken ::
  "token_cfg \<Rightarrow> tok_env \<Rightarrow> adb \<Rightarrow> Identity option \<Rightarrow> CreateTokenBody option \<Rightarrow> time \<Rightarrow> adb \<times> (string \<times> TokenMeta) result" where
  "CreateToken cfg e s identity body now =
     (case requireSession identity of
        Inl err \<Rightarrow> (s, Inl err)
      | Inr i \<Rightarrow>
          if \<not> tc_enabled cfg then (s, Inl ErrNotImplemented)
          else case body of
                 None \<Rightarrow> (s, Inl ErrBadRequest)
               | Some b \<Rightarrow>
                   let (ttl, v) = token_ttl cfg (cb_ExpiresInDays b) (token_fields cfg b)
                   in case OrNil v of
                        Some err \<Rightarrow> (s, Inl err)
                      | None \<Rightarrow>
                          (case Token_Create e s (id_UserID i) (cb_Name b) (cb_Scopes b) (Some (now + ttl)) of
                             (s, Inl err) \<Rightarrow> (s, Inl (tok_internal err))
                           | (s, Inr created) \<Rightarrow> (s, Inr created)))"

definition ListTokens :: "token_cfg \<Rightarrow> tok_env \<Rightarrow> adb \<Rightarrow> Identity option \<Rightarrow> adb \<times> TokenMeta list result" where
  "ListTokens cfg e s identity =
     (case requireSession identity of
        Inl err \<Rightarrow> (s, Inl err)
      | Inr i \<Rightarrow>
          if \<not> tc_enabled cfg then (s, Inl ErrNotImplemented)
          else (case Token_List e s (id_UserID i) of
                  (s, Inl err) \<Rightarrow> (s, Inl (tok_internal err))
                | (s, Inr metas) \<Rightarrow> (s, Inr metas)))"

definition RevokeToken :: "token_cfg \<Rightarrow> tok_env \<Rightarrow> adb \<Rightarrow> Identity option \<Rightarrow> uuid \<Rightarrow> adb \<times> app_error option" where
  "RevokeToken cfg e s identity tid =
     (case requireSession identity of
        Inl err \<Rightarrow> (s, Some err)
      | Inr i \<Rightarrow>
          if \<not> tc_enabled cfg then (s, Some ErrNotImplemented)
          else (case Token_Revoke e s (id_UserID i) tid of
                  (s, Inl err) \<Rightarrow> (s, Some (tok_internal err))
                | (s, Inr ok) \<Rightarrow> (s, if \<not> ok then Some ErrNotFound else None)))"

definition AdminListTokens ::
  "user_env \<Rightarrow> token_cfg \<Rightarrow> tok_env \<Rightarrow> acct \<Rightarrow> Identity option \<Rightarrow> int option \<Rightarrow> int option \<Rightarrow>
   acct \<times> ((TokenMeta \<times> uuid \<times> string) list \<times> int \<times> Params) result" where
  "AdminListTokens ue cfg e w identity page perPage =
     (case requireSessionAdmin ue w identity of
        (w, Inl err) \<Rightarrow> (w, Inl err)
      | ((s, r), Inr _) \<Rightarrow>
          if \<not> tc_enabled cfg then ((s, r), Inl ErrNotImplemented)
          else let p = Normalize page perPage
               in (case Token_ListAll e s (Limit p) (Offset p) of
                     (s, Inl err) \<Rightarrow> ((s, r), Inl (tok_internal err))
                   | (s, Inr (metas, cnt)) \<Rightarrow> ((s, r), Inr (metas, cnt, p))))"

definition AdminRevokeToken ::
  "user_env \<Rightarrow> token_cfg \<Rightarrow> tok_env \<Rightarrow> acct \<Rightarrow> Identity option \<Rightarrow> uuid \<Rightarrow> acct \<times> app_error option" where
  "AdminRevokeToken ue cfg e w identity tid =
     (case requireSessionAdmin ue w identity of
        (w, Inl err) \<Rightarrow> (w, Some err)
      | ((s, r), Inr _) \<Rightarrow>
          if \<not> tc_enabled cfg then ((s, r), Some ErrNotImplemented)
          else (case RevokeAny e s tid of
                  (s, Inl err) \<Rightarrow> ((s, r), Some (tok_internal err))
                | (s, Inr ok) \<Rightarrow> ((s, r), if \<not> ok then Some ErrNotFound else None)))"

subsection \<open>The caller's account\<close>

definition GetMe :: "user_env \<Rightarrow> acct \<Rightarrow> Identity option \<Rightarrow> acct \<times> (User \<times> string list \<times> TeamRef option) result" where
  "GetMe e w identity =
     (case identity of
        None \<Rightarrow> (w, Inl ErrUnauthenticated)
      | Some i \<Rightarrow>
          (case Users_Get e UGet w (id_UserID i) of
             (w, Inl _) \<Rightarrow> (w, Inl ErrUnauthenticated)
           | (w, Inr u) \<Rightarrow>
               (case TeamOf e w (u_ID u) of
                  (w, Inl err) \<Rightarrow> (w, Inl err)
                | (w, Inr team) \<Rightarrow> (w, Inr (u, id_Scopes i, team)))))"

definition ChangePassword_handler ::
  "user_env \<Rightarrow> acct \<Rightarrow> Identity option \<Rightarrow> (string \<times> string) option \<Rightarrow> acct \<times> app_error option" where
  "ChangePassword_handler e w identity body =
     (case identity of
        None \<Rightarrow> (w, Some ErrUnauthenticated)
      | Some i \<Rightarrow>
          (case body of
             None \<Rightarrow> (w, Some ErrBadRequest)
           | Some (current, new) \<Rightarrow> ChangePassword e w (id_UserID i) current new (id_SessionToken i)))"

subsection \<open>Administration of users\<close>

definition AdminListUsers ::
  "(string \<Rightarrow> string \<Rightarrow> bool) \<Rightarrow> user_env \<Rightarrow> acct \<Rightarrow> Identity option \<Rightarrow> int option \<Rightarrow> int option \<Rightarrow> AdminListFilters \<Rightarrow>
   acct \<times> (ListUsersAdminRow list \<times> int \<times> Params) result" where
  "AdminListUsers ilike e w identity page perPage f =
     (case requireAdmin e w identity of
        (w, Inl err) \<Rightarrow> (w, Inl err)
      | (w, Inr _) \<Rightarrow>
          let p = Normalize page perPage
          in (case ListAdmin ilike e w (Limit p) (Offset p) f of
                (w, Inl err) \<Rightarrow> (w, Inl err)
              | (w, Inr (items, cnt)) \<Rightarrow> (w, Inr (items, cnt, p))))"

record UserPatch =
  up_Banned :: "bool option"
  up_Hidden :: "bool option"
  up_Role :: "string option"

text \<open>An error of the team's lookup only leaves the team out of the answer.\<close>

definition AdminUpdateUser ::
  "user_env \<Rightarrow> token_cfg \<Rightarrow> tok_env \<Rightarrow> acct \<Rightarrow> Identity option \<Rightarrow> uuid \<Rightarrow> UserPatch option \<Rightarrow> acct \<times> User result" where
  "AdminUpdateUser e cfg te w identity target body =
     (case requireAdmin e w identity of
        (w, Inl err) \<Rightarrow> (w, Inl err)
      | (w, Inr actor) \<Rightarrow>
          (case body of
             None \<Rightarrow> (w, Inl ErrBadRequest)
           | Some b \<Rightarrow>
               (case Users_AdminUpdate e w (u_ID actor) target (up_Banned b) (up_Hidden b) (up_Role b) of
                  (w, Inl err) \<Rightarrow> (w, Inl err)
                | ((s, r), Inr u) \<Rightarrow>
                    let (s, ok) = (if up_Banned b = Some True \<and> tc_enabled cfg then DeleteForUser te s target else (s, True))
                    in if \<not> ok then ((s, r), Inl (Internal ''exec''))
                       else (fst (TeamOf e (s, r) (u_ID u)), Inr u))))"

definition AdminResetPassword_handler ::
  "user_env \<Rightarrow> acct \<Rightarrow> Identity option \<Rightarrow> uuid \<Rightarrow> string option \<Rightarrow> acct \<times> app_error option" where
  "AdminResetPassword_handler e w identity target body =
     (case requireAdmin e w identity of
        (w, Inl err) \<Rightarrow> (w, Some err)
      | (w, Inr _) \<Rightarrow>
          (case body of
             None \<Rightarrow> (w, Some ErrBadRequest)
           | Some newPassword \<Rightarrow> AdminResetPassword e w target newPassword))"

end
