(* ===== verification/Session_Safety.thy ===== *)
theory Session_Safety
  imports Sessions
begin

text \<open>
  What the session store guarantees: under any interleaving of its pipelines and the passing of time every live
  session is in its user's set, so revoking by the set misses none; a login state is consumed once.
\<close>

subsection \<open>Steps\<close>

text \<open>The commands of all clients. \<open>own\<close> is as in \<open>sess_ok\<close>: a token is minted for one user, and a refresh or a
  deletion names the user that its client read in the session.\<close>

inductive redis_step :: "duration \<Rightarrow> (string \<Rightarrow> uuid) \<Rightarrow> redis \<Rightarrow> redis \<Rightarrow> bool" for ttl own where
  time_passes: "0 \<le> d \<Longrightarrow> redis_step ttl own r (tick d r)"
| create: "sh_UserID h = own token \<Longrightarrow> redis_step ttl own r (tx_create r ttl token h)"
| refresh: "redis_step ttl own r (tx_refresh r ttl token (own token))"
| delete: "redis_step ttl own r (tx_delete r (own token) token)"
| purge: "redis_step ttl own r (tx_purge r uid tokens)"
| states: "redis_step ttl own r (r\<lparr>rd_States := f\<rparr>)"

lemma sess_ok_states: "sess_ok ttl own r \<Longrightarrow> sess_ok ttl own (r\<lparr>rd_States := f\<rparr>)"
  by (simp add: sess_ok_def)

lemma redis_step_ok: "redis_step ttl own r r' \<Longrightarrow> 0 < ttl \<Longrightarrow> sess_ok ttl own r \<Longrightarrow> sess_ok ttl own r'"
  by (induction rule: redis_step.induct)
    (simp_all add: sess_ok_tick sess_ok_create sess_ok_refresh sess_ok_delete sess_ok_purge sess_ok_states)

text \<open>A user's set names tokens of that user only.\<close>

definition index_ok :: "(string \<Rightarrow> uuid) \<Rightarrow> redis \<Rightarrow> bool" where
  "index_ok own r \<longleftrightarrow> (\<forall>u ts e. rd_Index r u = Some (ts, e) \<longrightarrow> (\<forall>t \<in> set ts. own t = u))"

lemma index_ok_members: "index_ok own r \<Longrightarrow> t \<in> set (members r uid) \<Longrightarrow> own t = uid"
  by (auto simp: index_ok_def members_def live_def split: option.splits prod.splits if_splits)

lemma index_ok_add: "index_ok own r \<Longrightarrow> own token = uid \<Longrightarrow> index_ok own (index_add r uid token d)"
  using index_ok_members by (fastforce simp: index_ok_def index_add_def)

lemma index_ok_delete: "index_ok own r \<Longrightarrow> index_ok own (tx_delete r uid token)"
  by (auto simp: index_ok_def tx_delete_def index_remove_def Let_def live_Some split: option.splits prod.splits if_splits)

lemma index_ok_purge: "index_ok own r \<Longrightarrow> index_ok own (tx_purge r uid tokens)"
  unfolding tx_purge_def by (induction tokens arbitrary: r) (simp_all add: index_ok_delete)

lemma index_ok_same: "index_ok own r \<Longrightarrow> rd_Index r' = rd_Index r \<Longrightarrow> index_ok own r'"
  by (simp add: index_ok_def)

lemma redis_step_index: "redis_step ttl own r r' \<Longrightarrow> index_ok own r \<Longrightarrow> index_ok own r'"
proof (induction rule: redis_step.induct)
  case (refresh r token)
  then show ?case unfolding tx_refresh_def
    by (intro index_ok_add) (auto intro: index_ok_same split: option.split)
next
  case (create h token r)
  then show ?case unfolding tx_create_def by (intro index_ok_add) (auto intro: index_ok_same)
qed (auto simp: tick_def intro: index_ok_delete index_ok_purge index_ok_same)

lemma reachable_index: "(redis_step ttl own)\<^sup>*\<^sup>* (empty_redis t0) r \<Longrightarrow> index_ok own r"
proof (induction rule: rtranclp_induct)
  case base
  show ?case by (simp add: index_ok_def empty_redis_def)
qed (rule redis_step_index)

lemma redis_steps_ok: "(redis_step ttl own)\<^sup>*\<^sup>* r r' \<Longrightarrow> 0 < ttl \<Longrightarrow> sess_ok ttl own r \<Longrightarrow> sess_ok ttl own r'"
  by (induction rule: rtranclp_induct) (auto intro: redis_step_ok)

lemma empty_redis_ok: "sess_ok ttl own (empty_redis now)"
  by (simp add: sess_ok_def empty_redis_def live_def)

subsection \<open>Operations\<close>

text \<open>Other clients act by steps of their own.\<close>

definition fair_env :: "(string \<Rightarrow> uuid) \<Rightarrow> sess_env \<Rightarrow> bool" where
  "fair_env own e \<longleftrightarrow> 0 < sn_ttl e \<and> (\<forall>c r. (redis_step (sn_ttl e) own)\<^sup>*\<^sup>* r (sn_interf e c r))"

lemma fair_interf: "fair_env own e \<Longrightarrow> (redis_step (sn_ttl e) own)\<^sup>*\<^sup>* r (sn_interf e c r)"
  by (simp add: fair_env_def)

lemma exec_tx_steps:
  assumes "fair_env own e" "\<And>r. (redis_step (sn_ttl e) own)\<^sup>*\<^sup>* r (f r)"
  shows "(redis_step (sn_ttl e) own)\<^sup>*\<^sup>* r (fst (exec_tx e c f r))"
  using fair_interf [OF assms(1), of r c] assms(2) by (auto simp: exec_tx_def Let_def intro: rtranclp_trans)

lemma fair_ok: "fair_env own e \<Longrightarrow> sess_ok (sn_ttl e) own r \<Longrightarrow> sess_ok (sn_ttl e) own (sn_interf e c r)"
  using redis_steps_ok fair_interf by (fastforce simp: fair_env_def)

lemma SessionStore_Create_steps:
  assumes "fair_env own e" "rand = None \<or> own (base64url_EncodeToString (the rand)) = uid"
  shows "(redis_step (sn_ttl e) own)\<^sup>*\<^sup>* r (fst (SessionStore_Create e rand now r uid role ip ua))"
proof (cases rand)
  case (Some raw)
  let ?h = "\<lparr>sh_UserID = uid, sh_Role = role, sh_CreatedAt = now - now mod second, sh_IP = ip, sh_UA = ua\<rparr>"
  have "(redis_step (sn_ttl e) own)\<^sup>*\<^sup>* r (fst (exec_tx e SCreate (\<lambda>r. tx_create r (sn_ttl e) (base64url_EncodeToString raw) ?h) r))"
    using assms Some by (intro exec_tx_steps r_into_rtranclp redis_step.create) auto
  with Some show ?thesis by (simp add: SessionStore_Create_def Let_def case_prod_unfold)
qed (simp add: SessionStore_Create_def)

lemma SessionStore_Get_steps:
  assumes "fair_env own e" "sess_ok (sn_ttl e) own r"
  shows "(redis_step (sn_ttl e) own)\<^sup>*\<^sup>* r (fst (SessionStore_Get e r token))"
proof -
  let ?r = "sn_interf e SRead r"
  have 1: "(redis_step (sn_ttl e) own)\<^sup>*\<^sup>* r ?r" using fair_interf [OF assms(1)] .
  show ?thesis
  proof (cases "live_session ?r token")
    case None
    with 1 show ?thesis by (auto simp: SessionStore_Get_def Let_def)
  next
    case (Some p)
    obtain h x where p: "p = (h, x)" by (cases p)
    with Some have "sh_UserID h = own token" using sess_okD [OF fair_ok [OF assms]] by blast
    then have "(redis_step (sn_ttl e) own)\<^sup>*\<^sup>* (sn_interf e STtl ?r)
        (fst (exec_tx e SRefresh (\<lambda>r. tx_refresh r (sn_ttl e) token (sh_UserID h)) (sn_interf e STtl ?r)))"
      by (intro exec_tx_steps [OF assms(1)]) (auto intro: redis_step.refresh)
    with 1 Some p fair_interf [OF assms(1), of ?r STtl] show ?thesis
      by (auto simp: SessionStore_Get_def Let_def intro: rtranclp_trans)
  qed
qed

lemma SessionStore_Get_Inr:
  assumes "SessionStore_Get e r token = (r', Inr sess)" "fair_env own e" "sess_ok (sn_ttl e) own r"
  shows "ss_UserID sess = own token \<and> (\<exists>h x. live_session (sn_interf e SRead r) token = Some (h, x) \<and> sess = session_of token h)"
  using assms(1) sess_okD [OF fair_ok [OF assms(2,3)], of SRead token]
  by (auto simp: SessionStore_Get_def Let_def session_of_def split: if_splits option.splits)

lemma SessionStore_Delete_steps:
  assumes "fair_env own e" "sess_ok (sn_ttl e) own r"
  shows "(redis_step (sn_ttl e) own)\<^sup>*\<^sup>* r (fst (SessionStore_Delete e r token))"
proof -
  obtain r1 res where g: "SessionStore_Get e r token = (r1, res)" by fastforce
  then have 1: "(redis_step (sn_ttl e) own)\<^sup>*\<^sup>* r r1" using SessionStore_Get_steps [OF assms, of token] by simp
  show ?thesis
  proof (cases res)
    case (Inl err)
    with 1 g show ?thesis by (cases err) (simp_all add: SessionStore_Delete_def)
  next
    case (Inr sess)
    then have "ss_UserID sess = own token" using SessionStore_Get_Inr g assms by blast
    then have "(redis_step (sn_ttl e) own)\<^sup>*\<^sup>* r1 (fst (exec_tx e SDelete (\<lambda>r. tx_delete r (ss_UserID sess) token) r1))"
      by (intro exec_tx_steps [OF assms(1)]) (auto intro: redis_step.delete)
    with 1 g Inr show ?thesis by (auto simp: SessionStore_Delete_def case_prod_unfold intro: rtranclp_trans)
  qed
qed

lemma DeleteAllForUser_steps:
  assumes "fair_env own e"
  shows "(redis_step (sn_ttl e) own)\<^sup>*\<^sup>* r (fst (DeleteAllForUser e r uid keepToken))"
proof -
  let ?r = "sn_interf e SMembers r"
  have "(redis_step (sn_ttl e) own)\<^sup>*\<^sup>* ?r
      (fst (exec_tx e SPurge (\<lambda>r. tx_purge r uid (filter (\<lambda>t. t \<noteq> keepToken) (members ?r uid))) ?r))"
    by (intro exec_tx_steps [OF assms]) (auto intro: redis_step.purge)
  with fair_interf [OF assms, of r SMembers] show ?thesis
    by (auto simp: DeleteAllForUser_def Let_def case_prod_unfold intro: rtranclp_trans)
qed

lemma tx_purge_fields:
  "rd_Sess (tx_purge r uid tokens) t = (if t \<in> set tokens then None else rd_Sess r t) \<and> rd_Now (tx_purge r uid tokens) = rd_Now r"
  unfolding tx_purge_def by (induction tokens arbitrary: r) auto

lemma tx_purge_live:
  "live_session (tx_purge r uid tokens) t = (if t \<in> set tokens then None else live_session r t)"
  by (simp add: live_def tx_purge_fields)

subsection \<open>Revocation\<close>

text \<open>C18. After any history of the store, with sessions created, refreshed, deleted and expiring in any order, every
  live session of a user is in the user's set. So \<^verbatim>\<open>DeleteAllForUser\<close>, when its two commands succeed and no other
  client acts between them, ends every session of the user but the one to keep, and no session of another user.\<close>

theorem revocation_complete:
  assumes "0 < ttl" "(redis_step ttl own)\<^sup>*\<^sup>* (empty_redis t0) r"
    and "sn_ttl e = ttl" "\<And>c. \<not> sn_fails e c" "\<And>c r. sn_interf e c r = r"
    and "DeleteAllForUser e r uid keepToken = (r', res)"
  shows "res = None \<and> (\<forall>token. live_session r' token =
    (if own token = uid \<and> token \<noteq> keepToken then None else live_session r token))"
proof -
  have ok: "sess_ok ttl own r" using redis_steps_ok [OF assms(2,1) empty_redis_ok] .
  let ?ts = "filter (\<lambda>t. t \<noteq> keepToken) (members r uid)"
  have r': "r' = tx_purge r uid ?ts" "res = None"
    using assms(4-6) by (auto simp: DeleteAllForUser_def exec_tx_def Let_def)
  have "live_session r token = None \<or> token \<in> set (members r (own token))" for token
    using sess_okD [OF ok] by (cases "live_session r token") auto
  moreover have "own token = uid" if "token \<in> set (members r uid)" for token
    using index_ok_members [OF reachable_index [OF assms(2)] that] .
  ultimately have "live_session r' token = (if own token = uid \<and> token \<noteq> keepToken then None else live_session r token)" for token
    using r'(1) by (fastforce simp: tx_purge_live)
  with r'(2) show ?thesis by blast
qed

definition solo_env :: sess_env where
  "solo_env = \<lparr>sn_ttl = 100, sn_fails = (\<lambda>c. False), sn_landed = (\<lambda>c. False), sn_interf = (\<lambda>c r. r)\<rparr>"

definition sample_hash :: "uuid \<Rightarrow> sess_hash" where
  "sample_hash uid = \<lparr>sh_UserID = uid, sh_Role = ''user'', sh_CreatedAt = 0, sh_IP = [], sh_UA = []\<rparr>"

text \<open>Users 1 and 2; the session \<open>a\<close> of user 1 is kept, \<open>b\<close> is ended.\<close>

definition three_sessions :: redis where
  "three_sessions = tx_create (tick 60 (tx_create (tx_create (empty_redis 0) 100 ''a'' (sample_hash 1)) 100 ''b'' (sample_hash 1)))
     100 ''c'' (sample_hash 2)"

theorem revocation_complete_witness:
  "let r' = fst (DeleteAllForUser solo_env three_sessions 1 ''a'') in
     live_session r' ''a'' \<noteq> None \<and> live_session r' ''b'' = None \<and> live_session r' ''c'' \<noteq> None"
proof -
  define own :: "string \<Rightarrow> uuid" where "own t = (if t = ''c'' then 2 else 1)" for t
  define r1 where "r1 = tx_create (empty_redis 0) 100 ''a'' (sample_hash 1)"
  define r2 where "r2 = tx_create r1 100 ''b'' (sample_hash 1)"
  have "redis_step 100 own (empty_redis 0) r1" "redis_step 100 own r1 r2"
    "redis_step 100 own (tick 60 r2) three_sessions"
    unfolding r1_def r2_def three_sessions_def by (auto intro!: redis_step.create simp: own_def sample_hash_def)
  moreover have "redis_step 100 own r2 (tick 60 r2)" by (rule redis_step.time_passes) simp
  ultimately have "(redis_step 100 own)\<^sup>*\<^sup>* (empty_redis 0) three_sessions"
    by (meson rtranclp.rtrancl_into_rtrancl rtranclp.rtrancl_refl)
  then have "\<forall>token. live_session (fst (DeleteAllForUser solo_env three_sessions 1 ''a'')) token =
      (if own token = 1 \<and> token \<noteq> ''a'' then None else live_session three_sessions token)"
    using revocation_complete [OF _ _ _ _ _ surjective_pairing, of 100 own 0 three_sessions solo_env 1 "''a''"]
    by (simp add: solo_env_def)
  moreover have "live_session three_sessions ''a'' \<noteq> None" "live_session three_sessions ''c'' \<noteq> None" by code_simp+
  ultimately show ?thesis by (simp add: own_def Let_def)
qed

subsection \<open>Login states\<close>

text \<open>What the clients do with login states, with what the environment answers to each.\<close>

datatype state_op = OpStore string string string | OpConsume string | OpTick duration

fun do_state_op :: "sess_env \<times> state_op \<Rightarrow> redis \<Rightarrow> redis \<times> (state_error + LoginState) option" where
  "do_state_op (e, OpStore token provider ps) r = (fst (Store e r token provider ps), None)"
| "do_state_op (e, OpConsume token) r = (case Consume e r token of (r', x) \<Rightarrow> (r', Some x))"
| "do_state_op (e, OpTick d) r = (tick d r, None)"

text \<open>How often a sequence of operations stores a token and how often it gets a state for it.\<close>

fun run_states :: "string \<Rightarrow> (sess_env \<times> state_op) list \<Rightarrow> redis \<Rightarrow> nat \<times> nat" where
  "run_states token [] r = (0, 0)"
| "run_states token ((e, a) # ops) r =
     (let (r', out) = do_state_op (e, a) r; (stores, gets) = run_states token ops r'
      in (stores + (case a of OpStore t p ps \<Rightarrow> of_bool (t = token) | _ \<Rightarrow> 0),
          gets + (case a of OpConsume t \<Rightarrow> of_bool (t = token \<and> (\<exists>st. out = Some (Inr st))) | _ \<Rightarrow> 0)))"

lemma Consume_cases:
  assumes "Consume e r token = (r', x)" "sn_interf e = (\<lambda>c r. r)"
  shows "(\<forall>t. rd_States r' t = rd_States r t \<or> (t = token \<and> rd_States r' t = None)) \<and>
    (\<forall>st. x = Inr st \<longrightarrow> rd_States r token \<noteq> None \<and> rd_States r' token = None)"
  using assms by (auto simp: Consume_def Let_def live_def split: if_splits option.splits prod.splits)

lemma run_states_bound:
  assumes "list_all (\<lambda>(e, a). sn_interf e = (\<lambda>c r. r)) ops"
  shows "snd (run_states token ops r) \<le> fst (run_states token ops r) + of_bool (rd_States r token \<noteq> None)"
  using assms
proof (induction ops arbitrary: r)
  case (Cons op ops)
  obtain e a where op: "op = (e, a)" by (cases op)
  obtain r' out where s: "do_state_op (e, a) r = (r', out)" by fastforce
  have q: "sn_interf e = (\<lambda>c r. r)" using Cons.prems op by simp
  have IH: "snd (run_states token ops r') \<le> fst (run_states token ops r') + of_bool (rd_States r' token \<noteq> None)"
    using Cons by simp
  show ?case
  proof (cases a)
    case (OpStore t p ps)
    then have "rd_States r' token = rd_States r token \<or> t = token"
      using s q by (auto simp: Store_def exec_tx_def Let_def split: if_splits)
    with IH OpStore op s show ?thesis
      by (cases "t = token"; cases "rd_States r token"; cases "rd_States r' token")
        (simp_all add: Let_def case_prod_unfold)
  next
    case (OpConsume t)
    obtain x where x: "Consume e r t = (r', x)" "out = Some x" using s OpConsume by (auto split: prod.splits)
    note c = Consume_cases [OF x(1) q]
    have "rd_States r' token \<noteq> None \<Longrightarrow> rd_States r token \<noteq> None" using conjunct1 [OF c] by metis
    moreover have "t = token \<and> (\<exists>st. x = Inr st) \<Longrightarrow> rd_States r token \<noteq> None \<and> rd_States r' token = None"
      using conjunct2 [OF c] by blast
    ultimately have "of_bool (rd_States r' token \<noteq> None) + of_bool (t = token \<and> (\<exists>st. x = Inr st))
        \<le> (of_bool (rd_States r token \<noteq> None) :: nat)" by (auto simp: of_bool_def)
    with IH OpConsume op s x(2) show ?thesis by (simp add: Let_def case_prod_unfold)
  next
    case (OpTick d)
    then have "rd_States r' = rd_States r" using s by (auto simp: tick_def)
    with IH OpTick op s show ?thesis by (auto simp: Let_def case_prod_unfold)
  qed
qed simp

text \<open>A login state is single-use: in any sequence of commands, with any of them failing, a token yields a state
  at most as often as it was stored, so a callback replayed after it was consumed, or racing another one, gets
  none.\<close>

theorem login_state_single_use:
  assumes "list_all (\<lambda>(e, a). sn_interf e = (\<lambda>c r. r)) ops"
  shows "snd (run_states token ops (empty_redis now)) \<le> fst (run_states token ops (empty_redis now))"
  using run_states_bound [OF assms, of token "empty_redis now"] by (simp add: empty_redis_def)

definition replay :: "(sess_env \<times> state_op) list" where
  "replay = map (Pair solo_env) [OpStore ''s'' ''oidc'' ''ps'', OpConsume ''s'', OpConsume ''s'', OpStore ''t'' ''oidc'' ''ps'',
     OpTick 101, OpConsume ''t'']"

theorem login_state_single_use_witness:
  "snd (run_states ''s'' replay (empty_redis 0)) \<le> 1 \<and> run_states ''t'' replay (empty_redis 0) = (1, 0)"
proof -
  have "list_all (\<lambda>(e, a). sn_interf e = (\<lambda>c r. r)) replay" by (simp add: replay_def solo_env_def)
  from login_state_single_use [OF this, of "''s''" 0] show ?thesis
    by (simp add: replay_def Let_def Store_def Consume_def exec_tx_def solo_env_def live_def tick_def empty_redis_def)
qed

end
