(* ===== verification/Login_Races.thy ===== *)
theory Login_Races
  imports Users_Service Session_Safety Auth_Password_Safety
begin

text \<open>
  Logins against bans. A login authenticates, creates its session, reads the user row again and, when it is banned,
  deletes the session (\<^verbatim>\<open>Login\<close> and \<^verbatim>\<open>CompleteProviderLogin\<close>). A ban updates the row, lists the user's sessions and
  deletes them (\<^verbatim>\<open>AdminUpdate\<close>). Here the statements of any number of both interleave in any order, with every other
  command on sessions and every other write to the accounts that bans nobody; statements do not fail.

  The last part shows a case that the second read does not cover.
\<close>

subsection \<open>The interleaving\<close>

text \<open>A login that authenticated the row \<open>u\<close>, has created its session, has seen a ban, is over; a ban that has
  updated the row, has listed the sessions, is over.\<close>

datatype login_pc = LCreate User | LRecheck uuid string | LRevoke uuid string | LDone
datatype ban_pc = BMembers uuid | BPurge uuid "string list" | BDone uuid

record login_sys =
  l_Adb :: adb
  l_Redis :: redis
  l_Logins :: "login_pc list"
  l_Bans :: "ban_pc list"

definition put_login :: "nat \<Rightarrow> login_pc \<Rightarrow> login_sys \<Rightarrow> login_sys" where
  "put_login i p y = y\<lparr>l_Logins := (l_Logins y)[i := p]\<rparr>"

definition put_ban :: "nat \<Rightarrow> ban_pc \<Rightarrow> login_sys \<Rightarrow> login_sys" where
  "put_ban i p y = y\<lparr>l_Bans := (l_Bans y)[i := p]\<rparr>"

abbreviation login_at :: "login_sys \<Rightarrow> nat \<Rightarrow> login_pc \<Rightarrow> bool" where
  "login_at y i p \<equiv> i < length (l_Logins y) \<and> l_Logins y ! i = p"

abbreviation ban_at :: "login_sys \<Rightarrow> nat \<Rightarrow> ban_pc \<Rightarrow> bool" where
  "ban_at y i p \<equiv> i < length (l_Bans y) \<and> l_Bans y ! i = p"

definition is_banned :: "adb \<Rightarrow> uuid \<Rightarrow> bool" where
  "is_banned s uid \<longleftrightarrow> (case GetUserByID s uid of None \<Rightarrow> False | Some u \<Rightarrow> u_Banned u)"

inductive login_step :: "duration \<Rightarrow> (string \<Rightarrow> uuid) \<Rightarrow> login_sys \<Rightarrow> login_sys \<Rightarrow> bool" for ttl own where
  authenticated: "login_step ttl own y (y\<lparr>l_Logins := l_Logins y @ [LCreate u]\<rparr>)"
| create: "login_at y i (LCreate u) \<Longrightarrow> own token = u_ID u \<Longrightarrow> sh_UserID h = u_ID u \<Longrightarrow>
    login_step ttl own y (put_login i (LRecheck (u_ID u) token) (y\<lparr>l_Redis := tx_create (l_Redis y) ttl token h\<rparr>))"
| recheck: "login_at y i (LRecheck uid token) \<Longrightarrow>
    login_step ttl own y (put_login i (if is_banned (l_Adb y) uid then LRevoke uid token else LDone) y)"
| revoke: "login_at y i (LRevoke uid token) \<Longrightarrow>
    login_step ttl own y (put_login i LDone (y\<lparr>l_Redis := tx_delete (l_Redis y) uid token\<rparr>))"
| ban: "UpdateUserAdminFields (l_Adb y) now uid (Some True) hidden role = Inr (s', Some u) \<Longrightarrow>
    login_step ttl own y (y\<lparr>l_Adb := s', l_Bans := l_Bans y @ [BMembers uid]\<rparr>)"
| list_sessions: "ban_at y i (BMembers uid) \<Longrightarrow> login_step ttl own y (put_ban i (BPurge uid (members (l_Redis y) uid)) y)"
| purge: "ban_at y i (BPurge uid tokens) \<Longrightarrow>
    login_step ttl own y (put_ban i (BDone uid) (y\<lparr>l_Redis := tx_purge (l_Redis y) uid tokens\<rparr>))"
| other_write: "(\<And>uid. is_banned s' uid \<Longrightarrow> is_banned (l_Adb y) uid) \<Longrightarrow> login_step ttl own y (y\<lparr>l_Adb := s'\<rparr>)"
| other_command: "redis_step ttl own (l_Redis y) r' \<Longrightarrow>
    (\<And>token. live_session r' token \<noteq> None \<Longrightarrow> live_session (l_Redis y) token \<noteq> None) \<Longrightarrow>
    login_step ttl own y (y\<lparr>l_Redis := r'\<rparr>)"

definition login_start :: "adb \<Rightarrow> time \<Rightarrow> login_sys" where
  "login_start s t = \<lparr>l_Adb = s, l_Redis = empty_redis t, l_Logins = [], l_Bans = []\<rparr>"

text \<open>Somebody is still to end this session.\<close>

definition doomed :: "login_sys \<Rightarrow> uuid \<Rightarrow> string \<Rightarrow> bool" where
  "doomed y uid token \<longleftrightarrow> BMembers uid \<in> set (l_Bans y) \<or> (\<exists>ts. BPurge uid ts \<in> set (l_Bans y) \<and> token \<in> set ts) \<or>
     LRecheck uid token \<in> set (l_Logins y) \<or> LRevoke uid token \<in> set (l_Logins y)"

definition login_ok :: "duration \<Rightarrow> (string \<Rightarrow> uuid) \<Rightarrow> login_sys \<Rightarrow> bool" where
  "login_ok ttl own y \<longleftrightarrow> sess_ok ttl own (l_Redis y) \<and>
     (\<forall>token. live_session (l_Redis y) token \<noteq> None \<longrightarrow> is_banned (l_Adb y) (own token) \<longrightarrow> doomed y (own token) token)"

lemma set_update_other: "x \<in> set xs \<Longrightarrow> x \<noteq> xs ! i \<Longrightarrow> x \<in> set (xs[i := y])"
  by (metis in_set_conv_nth length_list_update nth_list_update_neq)

lemma doomed_put_login:
  "doomed y uid token \<Longrightarrow> l_Logins y ! i \<noteq> LRecheck uid token \<Longrightarrow> l_Logins y ! i \<noteq> LRevoke uid token \<Longrightarrow>
   doomed (put_login i p y) uid token"
  unfolding doomed_def put_login_def by (auto intro: set_update_other)

lemma doomed_put_ban:
  assumes "doomed y uid token" "l_Bans y ! i \<noteq> BMembers uid" "\<And>ts. l_Bans y ! i = BPurge uid ts \<Longrightarrow> token \<notin> set ts"
  shows "doomed (put_ban i p y) uid token"
proof -
  have "BPurge uid ts \<in> set ((l_Bans y)[i := p])" if "BPurge uid ts \<in> set (l_Bans y)" "token \<in> set ts" for ts
    using that assms(3) [of ts] set_update_other [of "BPurge uid ts"] by metis
  moreover have "BMembers uid \<in> set ((l_Bans y)[i := p])" if "BMembers uid \<in> set (l_Bans y)"
    using that assms(2) set_update_other by metis
  ultimately show ?thesis using assms(1) unfolding doomed_def put_ban_def by auto
qed

lemma doomed_l_Redis [simp]: "doomed (y\<lparr>l_Redis := r\<rparr>) = doomed y"
  by (intro ext) (simp add: doomed_def)

lemma UpdateUserAdminFields_bans:
  assumes "UpdateUserAdminFields s now uid (Some True) hidden role = Inr (s', r)" "is_banned s' i"
  shows "i = uid \<or> is_banned s i"
proof -
  from assms(1) obtain f where "s' = update_user s uid f" "\<And>u. u_ID (f u) = u_ID u"
    by (auto simp: UpdateUserAdminFields_def Let_def split: if_splits)
  moreover have "List.find (\<lambda>u. u_ID u = i) (map (\<lambda>u. if u_ID u = uid then f u else u) us) =
      List.find (\<lambda>u. u_ID u = i) us" if "i \<noteq> uid" for us
    using that calculation(2) by (induction us) auto
  ultimately show ?thesis using assms(2) by (cases "i = uid") (simp_all add: is_banned_def GetUserByID_def update_user_def)
qed

lemma login_step_ok:
  assumes "login_step ttl own y y'" "0 < ttl" "login_ok ttl own y"
  shows "login_ok ttl own y'"
  using assms
proof cases
  case (create i u token h)
  have "sess_ok ttl own (tx_create (l_Redis y) ttl token h)"
    using assms(2,3) create by (intro sess_ok_create) (auto simp: login_ok_def)
  moreover have "doomed y' (own t) t" if "live_session (l_Redis y') t \<noteq> None" "is_banned (l_Adb y') (own t)" for t
  proof (cases "t = token")
    case True
    then show ?thesis using create by (simp add: doomed_def put_login_def set_update_memI)
  next
    case False
    then have "doomed y (own t) t" using that assms(3) create
      by (auto simp: login_ok_def put_login_def tx_create_def index_add_def)
    then show ?thesis using create by (simp add: doomed_put_login)
  qed
  ultimately show ?thesis using create(1) by (simp add: login_ok_def put_login_def)
next
  case (recheck i uid token)
  have "doomed y' (own t) t" if "live_session (l_Redis y) t \<noteq> None" "is_banned (l_Adb y) (own t)" for t
  proof -
    have "doomed y (own t) t" using that assms(3) by (simp add: login_ok_def)
    then show ?thesis
    proof (cases "LRecheck (own t) t = LRecheck uid token")
      case True
      then show ?thesis using recheck that by (auto simp: doomed_def put_login_def set_update_memI)
    next
      case False
      then show ?thesis using recheck \<open>doomed y (own t) t\<close> by (auto intro!: doomed_put_login)
    qed
  qed
  with recheck(1) assms(3) show ?thesis by (simp add: login_ok_def put_login_def)
next
  case (revoke i uid token)
  have "doomed y' (own t) t" if "live_session (l_Redis y') t \<noteq> None" "is_banned (l_Adb y') (own t)" for t
  proof -
    have "doomed y (own t) t" "t \<noteq> token" using that assms(3) revoke
      by (auto simp: login_ok_def put_login_def split: if_splits)
    then show ?thesis using revoke by (simp add: doomed_put_login)
  qed
  moreover have "sess_ok ttl own (l_Redis y')" using revoke(1) assms(3) by (simp add: login_ok_def put_login_def sess_ok_delete)
  ultimately show ?thesis by (simp add: login_ok_def)
next
  case (ban now uid hidden role s' u)
  have "doomed y' (own t) t" if "live_session (l_Redis y) t \<noteq> None" "is_banned s' (own t)" for t
    using UpdateUserAdminFields_bans [OF ban(2) that(2)] that(1) assms(3) ban(1)
    by (auto simp: login_ok_def doomed_def)
  with ban(1) assms(3) show ?thesis by (simp add: login_ok_def)
next
  case (list_sessions i uid)
  have "doomed y' (own t) t" if "live_session (l_Redis y) t \<noteq> None" "is_banned (l_Adb y) (own t)" for t
  proof (cases "own t = uid")
    case True
    have "t \<in> set (members (l_Redis y) uid)" using that(1) assms(3) True sess_okD unfolding login_ok_def by fastforce
    then show ?thesis using list_sessions True
      by (auto simp: doomed_def put_ban_def intro!: exI [of _ "members (l_Redis y) uid"] set_update_memI)
  next
    case False
    have "doomed y (own t) t" using that assms(3) by (simp add: login_ok_def)
    then show ?thesis using list_sessions False by (auto intro!: doomed_put_ban)
  qed
  with list_sessions(1) assms(3) show ?thesis by (simp add: login_ok_def put_ban_def)
next
  case (purge i uid tokens)
  have "doomed y' (own t) t" if "live_session (l_Redis y') t \<noteq> None" "is_banned (l_Adb y') (own t)" for t
  proof -
    have "doomed y (own t) t" "t \<notin> set tokens" using that assms(3) purge(1)
      by (auto simp: login_ok_def put_ban_def tx_purge_live split: if_splits)
    then show ?thesis using purge by (auto intro!: doomed_put_ban)
  qed
  moreover have "sess_ok ttl own (l_Redis y')" using purge(1) assms(3) by (simp add: login_ok_def put_ban_def sess_ok_purge)
  ultimately show ?thesis by (simp add: login_ok_def)
next
  case (other_command r')
  then show ?thesis using assms(2,3) redis_step_ok by (auto simp: login_ok_def doomed_def)
qed (auto simp: login_ok_def doomed_def)

text \<open>C19. Bans win over logins. However logins and bans interleave, once every ban and every login of a banned user
  has run to its end, no session of the user is live.\<close>

theorem ban_ends_sessions:
  assumes "0 < ttl" "(login_step ttl own)\<^sup>*\<^sup>* (login_start s t) y" "is_banned (l_Adb y) uid"
    and "list_all (\<lambda>p. case p of BMembers v \<Rightarrow> v \<noteq> uid | BPurge v ts \<Rightarrow> v \<noteq> uid | BDone v \<Rightarrow> True) (l_Bans y)"
    and "list_all (\<lambda>p. case p of LRecheck v ts \<Rightarrow> v \<noteq> uid | LRevoke v ts \<Rightarrow> v \<noteq> uid | _ \<Rightarrow> True) (l_Logins y)"
  shows "live_session (l_Redis y) token = None \<or> own token \<noteq> uid"
proof -
  from assms(2) have "login_ok ttl own y"
  proof (induction rule: rtranclp_induct)
    case base
    show ?case by (simp add: login_ok_def login_start_def empty_redis_ok) (simp add: empty_redis_def live_def)
  qed (use assms(1) login_step_ok in blast)
  then have "live_session (l_Redis y) token \<noteq> None \<Longrightarrow> own token = uid \<Longrightarrow> doomed y uid token"
    using assms(3) by (auto simp: login_ok_def)
  then show ?thesis using assms(4,5) by (fastforce simp: doomed_def list_all_iff)
qed

text \<open>A login of user 1 is overtaken by a ban between its session's creation and its second read.\<close>

theorem ban_ends_sessions_witness:
  "\<exists>y. (login_step 100 (\<lambda>t. 1))\<^sup>*\<^sup>* (login_start login_store 0) y \<and> is_banned (l_Adb y) 1 \<and>
     l_Logins y = [LDone] \<and> live_session (l_Redis y) ''t'' = None"
proof -
  let ?step = "login_step 100 (\<lambda>t. 1)" and ?h = "sample_hash 1"
  define y1 where "y1 = (login_start login_store 0)\<lparr>l_Logins := [LCreate ada_user]\<rparr>"
  define y2 where "y2 = put_login 0 (LRecheck 1 ''t'') (y1\<lparr>l_Redis := tx_create (l_Redis y1) 100 ''t'' ?h\<rparr>)"
  obtain s u where b: "UpdateUserAdminFields login_store 5 1 (Some True) None None = Inr (s, Some u)" "is_banned s 1"
    by (simp add: UpdateUserAdminFields_def login_store_def ada_user_def eve_user_def GetUserByID_def update_user_def
        is_banned_def role_ok_def coalesce_def)
  define y3 where "y3 = y2\<lparr>l_Adb := s, l_Bans := [BMembers 1]\<rparr>"
  define y4 where "y4 = put_ban 0 (BPurge 1 (members (l_Redis y3) 1)) y3"
  define y5 where "y5 = put_ban 0 (BDone 1) (y4\<lparr>l_Redis := tx_purge (l_Redis y4) 1 (members (l_Redis y3) 1)\<rparr>)"
  define y6 where "y6 = put_login 0 (if is_banned (l_Adb y5) 1 then LRevoke 1 ''t'' else LDone) y5"
  define y7 where "y7 = put_login 0 LDone (y6\<lparr>l_Redis := tx_delete (l_Redis y6) 1 ''t''\<rparr>)"
  note ys = y1_def y2_def y3_def y4_def y5_def y6_def y7_def put_login_def put_ban_def login_start_def
  have "?step (login_start login_store 0) y1"
    using login_step.authenticated [where y = "login_start login_store 0" and u = ada_user] by (simp add: y1_def login_start_def)
  moreover have "?step y1 y2"
    using login_step.create [where y = y1 and i = 0 and u = ada_user and token = "''t''" and h = ?h]
    by (simp add: y1_def y2_def login_start_def ada_user_def sample_hash_def)
  moreover have "?step y2 y3" using login_step.ban [where y = y2 and now = 5 and uid = 1] b(1) by (simp add: ys)
  moreover have "?step y3 y4" unfolding y4_def by (rule login_step.list_sessions) (simp add: y3_def)
  moreover have "?step y4 y5" unfolding y5_def by (rule login_step.purge) (simp add: y4_def y3_def put_ban_def)
  moreover have "?step y5 y6" unfolding y6_def by (rule login_step.recheck) (simp add: ys)
  moreover have "?step y6 y7" unfolding y7_def using b(2) by (intro login_step.revoke) (simp add: ys)
  ultimately have run: "?step\<^sup>*\<^sup>* (login_start login_store 0) y7"
    by (meson rtranclp.rtrancl_into_rtrancl rtranclp.rtrancl_refl)
  have end_state: "l_Adb y7 = s" "l_Bans y7 = [BDone 1]" "l_Logins y7 = [LDone]" by (simp_all add: ys)
  have "live_session (l_Redis y7) ''t'' = None"
    using ban_ends_sessions [OF _ run, of 1 "''t''"] b(2) by (simp add: end_state)
  with run b(2) show ?thesis by (auto simp: end_state)
qed

subsection \<open>Password resets\<close>

text \<open>A reset is meant to lock out whoever knows the old password: it sets another and deletes the sessions. Two
  races with a login that knows the old password are open.\<close>

definition calm_env :: user_env where
  "calm_env = \<lparr>ue_fails = (\<lambda>c. False), ue_interf = (\<lambda>c w. w), ue_sess = solo_env, ue_cf = id, ue_uni_lower = id,
     ue_parse_addr = (\<lambda>a. True), ue_argon = toy_argon, ue_wait = 5, ue_verify_gate = GateOpen, ue_hash_gate = GateOpen,
     ue_salt = Some ''0123456789abcdef'', ue_newid = Some 3, ue_now = 50, ue_open = True\<rparr>"

definition open_cfg :: login_cfg where
  "open_cfg = \<lparr>lc_disabled = False, lc_ip_limit = None, lc_acct_limit = None\<rparr>"

lemma GetUserByID_UpdateUserPassword:
  "GetUserByID (UpdateUserPassword s now i hash) j =
     map_option (\<lambda>u. if j = i then u\<lparr>u_PasswordHash := hash, u_UpdatedAt := now\<rparr> else u) (GetUserByID s j)"
proof -
  have "List.find (\<lambda>u. u_ID u = j) (map (\<lambda>u. if u_ID u = i then u\<lparr>u_PasswordHash := hash, u_UpdatedAt := now\<rparr> else u) us) =
     map_option (\<lambda>u. if j = i then u\<lparr>u_PasswordHash := hash, u_UpdatedAt := now\<rparr> else u) (List.find (\<lambda>u. u_ID u = j) us)" for us
    by (induction us) auto
  then show ?thesis by (simp add: GetUserByID_def UpdateUserPassword_def update_user_def)
qed

lemma login_store_ada:
  "GetUserByID login_store 1 = Some ada_user" "GetUserTeam (db.truncate (UpdateUserPassword login_store n i h)) 1 = None"
  "Authenticate_password (cred_box GateOpen) login_store ''ada@x.org'' ''tr0ub4dor'' = (login_store, Inr 1)"
proof -
  show "GetUserByID login_store 1 = Some ada_user" by (simp add: GetUserByID_def login_store_def ada_user_def eve_user_def)
  show "GetUserTeam (db.truncate (UpdateUserPassword login_store n i h)) 1 = None"
    by (simp add: GetUserTeam_def login_store_def empty_adb_def db.truncate_def db.extend_def empty_db_def
        UpdateUserPassword_def update_user_def)
  have h: "u_PasswordHash ada_user = hashed ''tr0ub4dor''" "\<not> u_Banned ada_user" "u_ID ada_user = 1" by (simp_all add: ada_user_def)
  show "Authenticate_password (cred_box GateOpen) login_store ''ada@x.org'' ''tr0ub4dor'' = (login_store, Inr 1)"
    using h by (simp add: Authenticate_password_def cred_box_def login_store_lookups VerifyPassword_def parse_hashed
        deriveKey_def acquireHash_def toy_argon_def rehash_login_def NeedsRehash_def ConstantTimeCompare_iff)
qed

lemma calm_reset:
  "\<exists>h. \<forall>s r uid v. GetUserByID s uid = Some v \<longrightarrow> AdminResetPassword calm_env (s, r) uid ''n3w-passw0rd'' =
     ((UpdateUserPassword s 50 uid h, tx_purge r uid (filter (\<lambda>t. t \<noteq> []) (members r uid))), None)"
proof -
  obtain h where h: "HashPassword toy_argon 5 (Some ''0123456789abcdef'') GateOpen ''n3w-passw0rd'' = Inr h"
    by (simp add: HashPassword_def deriveKey_def acquireHash_def toy_argon_def)
  have c: "OrNil (check_password ''new_password'' ''n3w-passw0rd'' []) = None" by code_simp
  show ?thesis
    by (intro exI [of _ h]) (simp add: AdminResetPassword_def c calm_env_def Users_Get_def set_password_def revoke_sessions_def
        DeleteAllForUser_def exec_tx_def solo_env_def h)
qed

text \<open>A login that was verified before a reset outlives it. The login reads the row again after it has created
  its session, but looks at the ban only: with the reset run from beginning to end between the verification of the
  old password and the session's creation, the reset succeeds and the login then opens a session that stays.\<close>

theorem reset_misses_login:
  "let reset = AdminResetPassword calm_env (login_store, empty_redis 0) 1 ''n3w-passw0rd'';
       (w, res) = Login (calm_env\<lparr>ue_interf := (\<lambda>c w. if c = UGet then fst (AdminResetPassword calm_env w 1 ''n3w-passw0rd'') else w)\<rparr>)
          (cred_box GateOpen) open_cfg (Some raw) (login_store, empty_redis 0) (Some (''ada@x.org'', ''tr0ub4dor'')) ip ua
   in snd reset = None \<and> (\<exists>sess. res = Inr sess \<and> ss_UserID sess = 1 \<and> live_session (snd w) (ss_Token sess) \<noteq> None)"
proof -
  obtain h where reset: "\<And>s r uid v. GetUserByID s uid = Some v \<Longrightarrow>
    AdminResetPassword calm_env (s, r) uid ''n3w-passw0rd'' =
      ((UpdateUserPassword s 50 uid h, tx_purge r uid (filter (\<lambda>t. t \<noteq> []) (members r uid))), None)" using calm_reset by blast
  have "ToLower id ''ada@x.org'' = ''ada@x.org''" by code_simp
  moreover have "ue_interf calm_env = (\<lambda>c w. w)" "ue_fails calm_env = (\<lambda>c. False)" "ue_sess calm_env = solo_env"
    "ue_uni_lower calm_env = id" "ue_now calm_env = 50" by (simp_all add: calm_env_def)
  moreover have "u_ID ada_user = 1" "\<not> u_Banned ada_user" by (simp_all add: ada_user_def)
  ultimately show ?thesis
    by (simp add: Login_def Let_def reset [OF login_store_ada(1)] open_cfg_def login_store_ada Users_Get_def open_session_def
        SessionStore_Create_def exec_tx_def solo_env_def GetUserByID_UpdateUserPassword TeamOf_def session_of_def live_def
        tx_create_def index_add_def expire_in_pos tx_purge_fields empty_redis_def del: One_nat_def)
qed

text \<open>The rehash of a login can undo a reset. When the verified hash has outdated parameters, the login hashes
  the password it verified and stores it under the user's id whatever the row holds by then: if anything ran while
  it hashed, a reset included, the row ends with a hash of the old password and the login succeeds.\<close>

theorem rehash_undoes_reset:
  assumes "GetUserByEmail (ce_cf c) s email = Some u" "\<not> u_Banned u" "\<not> ce_lookup_fails c"
    and "VerifyPassword (ce_argon c) (ce_wait c) (ce_gate c) password (u_PasswordHash u) = Inr True"
    and "NeedsRehash (u_PasswordHash u)" "ce_rehash c" "\<not> ce_rehash_fails c"
    and "HashPassword (ce_argon c) (ce_wait c) (Some salt) (ce_rehash_gate c) password = Inr h"
    and "ce_rehash_rand c = Some salt" "ce_argon c password salt argonIterations argonMemoryKiB argonThreads argonKeyLen = Some key"
    and "length key = argonKeyLen"
  shows "snd (Authenticate_password c s email password) = Inr (u_ID u) \<and>
    GetUserByID (fst (Authenticate_password c s email password)) (u_ID u) =
      map_option (\<lambda>v. v\<lparr>u_PasswordHash := h, u_UpdatedAt := ce_now c\<rparr>) (GetUserByID (ce_interf c s) (u_ID u)) \<and>
    VerifyPassword (ce_argon c) w GateOpen password h = Inr True"
proof -
  have "h = phc_string argonMemoryKiB argonIterations argonThreads salt key"
    using assms(8,10) by (auto simp: HashPassword_def deriveKey_def acquireHash_def split: gate_answer.splits)
  then have "VerifyPassword (ce_argon c) w GateOpen password h = Inr True"
    using assms(10,11) by (simp add: VerifyPassword_def parse_hash deriveKey_def acquireHash_def ConstantTimeCompare_iff)
  then show ?thesis using assms
    by (simp add: Authenticate_password_def rehash_login_def GetUserByID_UpdateUserPassword)
qed

text \<open>Ada's hash has half the memory; the reset of the administrator lands while her login hashes.\<close>

definition weak_user :: User where
  "weak_user = ada_user\<lparr>u_PasswordHash := phc_string 9728 2 1 ''pepper'' ''tr0ub4''\<rparr>"

definition weak_store :: adb where "weak_store = empty_adb\<lparr>users := [weak_user]\<rparr>"

theorem rehash_undoes_reset_witness:
  "let reset = (\<lambda>s. fst (fst (AdminResetPassword calm_env (s, empty_redis 0) 1 ''n3w-passw0rd'')));
       (s, res) = Authenticate_password ((cred_box GateOpen)\<lparr>ce_interf := reset, ce_rehash_rand := Some ''pepper''\<rparr>)
          weak_store ''ada@x.org'' ''tr0ub4''
   in snd (AdminResetPassword calm_env (weak_store, empty_redis 0) 1 ''n3w-passw0rd'') = None \<and> res = Inr 1 \<and>
     (\<exists>u. GetUserByID s 1 = Some u \<and> VerifyPassword toy_argon 5 GateOpen ''tr0ub4'' (u_PasswordHash u) = Inr True)"
proof -
  obtain h where reset: "\<And>s r uid v. GetUserByID s uid = Some v \<Longrightarrow>
    AdminResetPassword calm_env (s, r) uid ''n3w-passw0rd'' =
      ((UpdateUserPassword s 50 uid h, tx_purge r uid (filter (\<lambda>t. t \<noteq> []) (members r uid))), None)" using calm_reset by blast
  let ?c = "(cred_box GateOpen)\<lparr>ce_interf := \<lambda>s. fst (fst (AdminResetPassword calm_env (s, empty_redis 0) 1 ''n3w-passw0rd'')),
    ce_rehash_rand := Some ''pepper''\<rparr>"
  have c: "ce_cf ?c = id" "ce_argon ?c = toy_argon" "ce_wait ?c = 5" "ce_gate ?c = GateOpen" "ce_rehash_gate ?c = GateOpen"
    "\<not> ce_lookup_fails ?c" "ce_rehash ?c" "\<not> ce_rehash_fails ?c" by (simp_all add: cred_box_def)
  have u: "u_ID weak_user = 1" "\<not> u_Banned weak_user" "u_PasswordHash weak_user = phc_string 9728 2 1 ''pepper'' ''tr0ub4''"
    "u_Email weak_user = ''ada@x.org''"
    by (simp_all add: weak_user_def ada_user_def)
  have l: "GetUserByID weak_store 1 = Some weak_user" "GetUserByEmail id weak_store ''ada@x.org'' = Some weak_user"
    using u by (simp_all add: weak_store_def GetUserByID_def GetUserByEmail_def)
  have p: "parsePHC (u_PasswordHash weak_user) = Some \<lparr>ph_memoryKiB = 9728, ph_iterations = 2, ph_threads = 1,
    ph_salt = ''pepper'', ph_hash = ''tr0ub4''\<rparr>" unfolding u by (rule parse_phc) simp_all
  obtain h' key where h': "HashPassword toy_argon 5 (Some ''pepper'') GateOpen ''tr0ub4'' = Inr h'"
    "toy_argon ''tr0ub4'' ''pepper'' argonIterations argonMemoryKiB argonThreads argonKeyLen = Some key" "length key = argonKeyLen"
    by (simp add: HashPassword_def deriveKey_def acquireHash_def toy_argon_def)
  have "VerifyPassword toy_argon 5 GateOpen ''tr0ub4'' (u_PasswordHash weak_user) = Inr True"
    by (simp add: VerifyPassword_def p deriveKey_def acquireHash_def toy_argon_def ConstantTimeCompare_iff)
  moreover have "NeedsRehash (u_PasswordHash weak_user)" by (simp add: NeedsRehash_def p argonMemoryKiB_def)
  ultimately show ?thesis
    using rehash_undoes_reset [of ?c weak_store "''ada@x.org''" weak_user "''tr0ub4''" "''pepper''" h' key 5] h' c u l
    by (auto simp: Let_def reset [OF l(1)] GetUserByID_UpdateUserPassword split: prod.splits simp del: One_nat_def)
qed

end
