(* ===== verification/Http_Gate_Safety.thy ===== *)
theory Http_Gate_Safety
  imports Account_Handlers Accounts_Invariant Login_Races
begin

text \<open>
  Which requests reach a handler and as whom; what a token can do; how long it lives. Token hashes are assumed
  unique, the constraint \<^verbatim>\<open>uq_api_tokens_hash\<close> of the migrations, which every write keeps (\<open>account_write_ok\<close>).
\<close>

subsection \<open>Tokens\<close>

lemma last_match_None: "last_match hash ts = None \<longleftrightarrow> (\<forall>t \<in> set ts. at_TokenHash t \<noteq> hash)"
  by (induction ts) (auto simp: ConstantTimeCompare_iff split: option.splits)

lemma last_match_Some: "last_match hash ts = Some t \<Longrightarrow> t \<in> set ts \<and> at_TokenHash t = hash"
  by (induction ts) (auto simp: ConstantTimeCompare_iff split: option.splits if_splits)

lemma last_match_iff:
  assumes "distinct (map at_TokenHash ts)"
  shows "last_match hash (filter P ts) = Some t \<longleftrightarrow> t \<in> set ts \<and> P t \<and> at_TokenHash t = hash"
proof (cases "last_match hash (filter P ts)")
  case None
  moreover from None have "\<forall>t \<in> set (filter P ts). at_TokenHash t \<noteq> hash" by (simp only: last_match_None)
  ultimately show ?thesis by auto
next
  case (Some m)
  from last_match_Some [OF Some] have m: "m \<in> set ts" "P m" "at_TokenHash m = hash" by simp_all
  have "x = m" if "x \<in> set ts" "at_TokenHash x = hash" for x
    using assms that m by (simp add: distinct_map inj_on_def)
  with m show ?thesis unfolding Some by blast
qed

lemma ValidateScopes_None: "ValidateScopes ss = None \<longleftrightarrow> set ss \<subseteq> set validScopes"
  by (induction ss) auto

lemma parsePresented_iff:
  "parsePresented e raw = Some (pre, hash) \<longleftrightarrow>
   (\<exists>body. raw = TokenPrefix @ body \<and> tokenPrefixLen \<le> length body \<and> pre = take tokenPrefixLen body) \<and> hash = hashToken e raw"
  by (auto simp: parsePresented_def CutPrefix_def HasPrefix_iff split: prod.splits if_splits)

text \<open>The row a presented token names, as far as a row can tell.\<close>

definition names_row :: "tok_env \<Rightarrow> string \<Rightarrow> ApiToken \<Rightarrow> bool" where
  "names_row e raw t \<longleftrightarrow> at_TokenHash t = hashToken e raw \<and>
     (\<exists>body. raw = TokenPrefix @ body \<and> tokenPrefixLen \<le> length body \<and> at_Prefix t = take tokenPrefixLen body)"

definition token_identity :: "ApiToken \<Rightarrow> User \<Rightarrow> Identity" where
  "token_identity t u = \<lparr>id_UserID = at_UserID t, id_Role = u_Role u, id_SessionToken = [], id_Method = AuthToken,
     id_Scopes = at_Scopes t, id_TokenID = at_ID t\<rparr>"

lemma token_identity_fields [simp]:
  "id_UserID (token_identity t u) = at_UserID t" "id_Role (token_identity t u) = u_Role u"
  "id_Method (token_identity t u) = AuthToken" "id_Scopes (token_identity t u) = at_Scopes t"
  "id_TokenID (token_identity t u) = at_ID t" "id_SessionToken (token_identity t u) = []"
  by (simp_all add: token_identity_def)

text \<open>The token is usable: its row is there, not expired, with known scopes, and its owner is there and not banned.\<close>

definition usable :: "tok_env \<Rightarrow> adb \<Rightarrow> string \<Rightarrow> time \<Rightarrow> ApiToken \<Rightarrow> User \<Rightarrow> bool" where
  "usable e s raw now t u \<longleftrightarrow> \<not> te_fails e TProbe \<and> \<not> te_fails e TOwner \<and> names_row e raw t \<and>
     t \<in> set (api_tokens (te_interf e TProbe s)) \<and> (\<forall>x. at_ExpiresAt t = Some x \<longrightarrow> now < x) \<and>
     set (at_Scopes t) \<subseteq> set validScopes \<and>
     GetUserByID (te_interf e TOwner (te_interf e TProbe s)) (at_UserID t) = Some u \<and> \<not> u_Banned u"

lemma GetUserByID_ID: "GetUserByID s i = Some u \<Longrightarrow> u_ID u = i"
  by (auto simp: GetUserByID_def find_Some_iff)

lemma Token_Authenticate_iff:
  assumes "distinct (map at_TokenHash (api_tokens (te_interf e TProbe s)))"
  shows "snd (Token_Authenticate e s raw now) = Inr i \<longleftrightarrow> (\<exists>t u. usable e s raw now t u \<and> i = token_identity t u)"
proof (cases "parsePresented e raw")
  case None
  then have "\<not> names_row e raw t" for t
    by (auto simp: names_row_def parsePresented_def CutPrefix_def split: prod.splits if_splits)
  with None show ?thesis by (simp add: Token_Authenticate_def usable_def)
next
  case (Some p)
  obtain pre hash where p: "p = (pre, hash)" by fastforce
  have n: "names_row e raw t \<longleftrightarrow> at_Prefix t = pre \<and> at_TokenHash t = hash" for t
    using Some [unfolded p parsePresented_iff] by (auto simp: names_row_def)
  have m: "last_match hash (GetAPITokensByPrefix (te_interf e TProbe s) pre) = Some t \<longleftrightarrow>
      t \<in> set (api_tokens (te_interf e TProbe s)) \<and> names_row e raw t" for t
    unfolding GetAPITokensByPrefix_def last_match_iff [OF assms] n by blast
  show ?thesis
  proof (cases "last_match hash (GetAPITokensByPrefix (te_interf e TProbe s) pre)")
    case None
    with m have "\<not> usable e s raw now t u" for t u by (auto simp: usable_def)
    with None Some p show ?thesis by (simp add: Token_Authenticate_def Let_def)
  next
    case (Some t)
    with m have t: "usable e s raw now t' u \<Longrightarrow> t' = t" for t' u by (fastforce simp: usable_def)
    from Some m have "t \<in> set (api_tokens (te_interf e TProbe s))" "names_row e raw t" by auto
    with Some \<open>parsePresented e raw = Some p\<close> p t show ?thesis
      by (auto simp: Token_Authenticate_def Let_def usable_def token_identity_def ValidateScopes_None GetUserByID_ID
          split: option.splits)
  qed
qed

lemma limit_problem_not_Handle: "limit_problem limiter tid \<noteq> Some (Handle x)"
  by (auto simp: limit_problem_def split: option.splits limit_answer.splits)

lemma tokenMiddleware_iff:
  "snd (tokenMiddleware e limiter s None req now) = Handle (Some i) \<longleftrightarrow>
   (\<exists>raw. bearerFromHeader req = Some raw \<and> snd (Token_Authenticate e s raw now) = Inr i \<and>
      limit_problem limiter (id_TokenID i) = None \<and> requiredScope (hr_Method req) (hr_Path req) \<in> set (id_Scopes i))"
proof (cases "bearerFromHeader req")
  case (Some raw)
  obtain s' out where "Token_Authenticate e s raw now = (s', out)" by fastforce
  with Some limit_problem_not_Handle show ?thesis
    by (cases out) (auto simp: tokenMiddleware_def writeTokenAuthError_def scopeAllows_def list_ex_iff split: option.splits)
qed (simp add: tokenMiddleware_def)

text \<open>C9. The token gate, exactly. Without a session, a request reaches its handler as a token's owner if and only
  if its \<^verbatim>\<open>Authorization\<close> header carries a token whose row is in the store, not expired and with known scopes only,
  whose owner exists and is not banned at the moment of the request, whose rate limit, counted for the token's id
  alone, lets it through, and which has the scope that the request's method and path ask for; the role is the one
  the owner's row has now. In particular a failing read never admits anybody.\<close>

theorem token_gate_exact:
  assumes "distinct (map at_TokenHash (api_tokens (te_interf e TProbe s)))"
  shows "snd (tokenMiddleware e limiter s None req now) = Handle (Some i) \<longleftrightarrow>
    (\<exists>raw t u. bearerFromHeader req = Some raw \<and> usable e s raw now t u \<and> i = token_identity t u \<and>
       limit_problem limiter (at_ID t) = None \<and> requiredScope (hr_Method req) (hr_Path req) \<in> set (at_Scopes t))"
  unfolding tokenMiddleware_iff Token_Authenticate_iff [OF assms] by auto blast+

text \<open>Ada's token 7 reads and submits; its owner is an administrator, but the token has no admin scope.\<close>

definition box_tok_env :: tok_env where
  "box_tok_env = \<lparr>te_fails = (\<lambda>c. False), te_interf = (\<lambda>c s. s), te_sha = id, te_rand = Some ''0123456789abcdef0123456789abcdef'',
     te_newid = Some 8, te_now = 10\<rparr>"

definition ada_admin :: User where
  "ada_admin = \<lparr>u_ID = 1, u_Username = ''ada'', u_Email = ''ada@x.org'', u_PasswordHash = [], u_Role = ''admin'',
     u_Banned = False, u_Hidden = False, u_CreatedAt = 0, u_UpdatedAt = 8\<rparr>"

definition ada_raw :: string where "ada_raw = TokenPrefix @ ''ABCDEFGHIJKLMNOP''"

definition ada_token :: ApiToken where
  "ada_token = \<lparr>at_ID = 7, at_UserID = 1, at_Name = ''ci'', at_TokenHash = hashToken box_tok_env ada_raw,
     at_Prefix = ''ABCDEFGHIJKL'', at_Scopes = [''read'', ''submit''], at_LastUsedAt = None, at_ExpiresAt = Some 100,
     at_CreatedAt = 0\<rparr>"

definition token_store :: adb where
  "token_store = empty_adb\<lparr>users := [ada_admin], api_tokens := [ada_token]\<rparr>"

definition token_req :: "string \<Rightarrow> string \<Rightarrow> http_req" where
  "token_req meth path = \<lparr>hr_Method = meth, hr_Path = path, hr_Cookie = None, hr_Authorization = ''Bearer '' @ ada_raw,
     hr_Origin = [], hr_Referer = []\<rparr>"

lemma ada_token_usable: "now < 100 \<Longrightarrow> usable box_tok_env token_store ada_raw now ada_token ada_admin"
  by (auto simp: usable_def names_row_def box_tok_env_def token_store_def ada_token_def ada_raw_def GetUserByID_def ada_admin_def
      tokenPrefixLen_def validScopes_def ScopeRead_def ScopeSubmit_def)

lemma ada_bearer: "bearerFromHeader (token_req meth path) = Some ada_raw"
proof -
  have "bearerFromHeader (token_req [] []) = Some ada_raw" by code_simp
  then show ?thesis by (simp add: bearerFromHeader_def token_req_def)
qed

lemma token_store_hashes: "distinct (map at_TokenHash (api_tokens (te_interf box_tok_env c token_store)))"
  by (simp add: box_tok_env_def token_store_def)

theorem token_gate_exact_witness:
  "snd (tokenMiddleware box_tok_env None token_store None (token_req ''POST'' ''/challenges/web1/submit'') 50) =
     Handle (Some (token_identity ada_token ada_admin)) \<and>
   snd (tokenMiddleware box_tok_env None token_store None (token_req ''GET'' ''/admin/users'') 50) \<noteq>
     Handle (Some (token_identity ada_token ada_admin))"
proof -
  note gate = token_gate_exact [OF token_store_hashes, of None _ 50 "token_identity ada_token ada_admin"]
  have r: "requiredScope ''POST'' ''/challenges/web1/submit'' = ''submit''" "requiredScope ''GET'' ''/admin/users'' = ''admin''"
    by code_simp+
  have l: "limit_problem None (at_ID ada_token) = None" by (simp add: limit_problem_def)
  have q: "hr_Method (token_req m p) = m" "hr_Path (token_req m p) = p" for m p by (simp_all add: token_req_def)
  have sc: "at_Scopes ada_token = [''read'', ''submit'']" by (simp add: ada_token_def)
  have "''admin'' \<notin> set (at_Scopes t)" if "token_identity ada_token ada_admin = token_identity t u" for t u
  proof -
    have "at_Scopes t = [''read'', ''submit'']" using that sc by (metis token_identity_fields(4))
    then show ?thesis by simp
  qed
  then have "snd (tokenMiddleware box_tok_env None token_store None (token_req ''GET'' ''/admin/users'') 50) \<noteq>
      Handle (Some (token_identity ada_token ada_admin))"
    unfolding gate q r by blast
  moreover have "snd (tokenMiddleware box_tok_env None token_store None (token_req ''POST'' ''/challenges/web1/submit'') 50) =
      Handle (Some (token_identity ada_token ada_admin))"
    unfolding gate q r using ada_bearer ada_token_usable [of 50] l sc by fastforce
  ultimately show ?thesis by blast
qed

subsection \<open>What reaches a handler\<close>

lemma sessionMiddleware_Some:
  assumes "sessionMiddleware e r req = (r', Some i)"
  shows "hr_Cookie req = Some (id_SessionToken i) \<and> id_Method i = AuthSession \<and>
    (\<exists>h x. live_session (sn_interf e SRead r) (id_SessionToken i) = Some (h, x) \<and> sh_UserID h = id_UserID i \<and> sh_Role h = id_Role i)"
  using assms
  by (auto simp: sessionMiddleware_def SessionStore_Get_def Let_def session_identity_def session_of_def
      split: option.splits if_splits sum.splits prod.splits)

lemma tokenMiddleware_Handle:
  assumes "tokenMiddleware e limiter s identity req now = (s', Handle out)"
  shows "out = identity \<or> identity = None \<and> (\<exists>i. out = Some i \<and> snd (tokenMiddleware e limiter s None req now) = Handle (Some i))"
  using assms
  by (auto simp: tokenMiddleware_def writeTokenAuthError_def limit_problem_not_Handle split: option.splits if_splits sum.splits prod.splits)

text \<open>C6. Nobody reaches a handler as somebody without that user's credential. Through the whole chain, the identity
  a handler sees is the one of the live session that the request's cookie names, or of a token that the gate admits;
  a session wins over a token. And a request with a method other than \<^verbatim>\<open>GET\<close>, \<^verbatim>\<open>HEAD\<close> and \<^verbatim>\<open>OPTIONS\<close> reaches
  a handler only from an allowed origin or with a token, so no foreign page can use a session's cookie to write.\<close>

theorem api_entry_sound:
  assumes "api_entry cfg se te w req now = (w', Handle identity)" "ac_base cfg \<noteq> []"
    and "distinct (map at_TokenHash (api_tokens (te_interf te TProbe (fst w))))"
  shows "(safe_method (hr_Method req) \<or> origin_allowed cfg req \<or> (\<exists>i. identity = Some i \<and> id_Method i = AuthToken)) \<and>
    (case identity of
       None \<Rightarrow> True
     | Some i \<Rightarrow>
         (case id_Method i of
            AuthSession \<Rightarrow> hr_Cookie req = Some (id_SessionToken i) \<and>
              (\<exists>h x. live_session (sn_interf se SRead (snd w)) (id_SessionToken i) = Some (h, x) \<and>
                 sh_UserID h = id_UserID i \<and> sh_Role h = id_Role i)
          | AuthToken \<Rightarrow> (\<exists>raw t u. bearerFromHeader req = Some raw \<and> usable te (fst w) raw now t u \<and>
              i = token_identity t u \<and> limit_problem (ac_limit cfg) (at_ID t) = None \<and>
              requiredScope (hr_Method req) (hr_Path req) \<in> set (at_Scopes t))))"
proof -
  obtain r sid where s: "(if ac_sessions cfg then sessionMiddleware se (snd w) req else (snd w, None)) = (r, sid)" by fastforce
  obtain s out where t: "(if ac_tokens cfg then tokenMiddleware te (ac_limit cfg) (fst w) sid req now else (fst w, Handle sid)) = (s, out)"
    by fastforce
  have out: "out = Handle identity" and oc: "originCheck cfg req identity = None"
    using assms(1,2) by (auto simp: api_entry_def s t originCheck_def corsDev_def split: reply.splits option.splits if_splits)
  have sess: "sid = Some i \<Longrightarrow> hr_Cookie req = Some (id_SessionToken i) \<and> id_Method i = AuthSession \<and>
      (\<exists>h x. live_session (sn_interf se SRead (snd w)) (id_SessionToken i) = Some (h, x) \<and> sh_UserID h = id_UserID i \<and>
        sh_Role h = id_Role i)" for i
    using s sessionMiddleware_Some by (auto split: if_splits)
  consider "identity = sid" | i where "sid = None" "identity = Some i"
      "snd (tokenMiddleware te (ac_limit cfg) (fst w) None req now) = Handle (Some i)"
    using t out tokenMiddleware_Handle by (auto split: if_splits) metis
  then have "case identity of None \<Rightarrow> True | Some i \<Rightarrow> (case id_Method i of
      AuthSession \<Rightarrow> hr_Cookie req = Some (id_SessionToken i) \<and>
        (\<exists>h x. live_session (sn_interf se SRead (snd w)) (id_SessionToken i) = Some (h, x) \<and> sh_UserID h = id_UserID i \<and>
          sh_Role h = id_Role i)
    | AuthToken \<Rightarrow> (\<exists>raw t u. bearerFromHeader req = Some raw \<and> usable te (fst w) raw now t u \<and> i = token_identity t u \<and>
        limit_problem (ac_limit cfg) (at_ID t) = None \<and> requiredScope (hr_Method req) (hr_Path req) \<in> set (at_Scopes t)))"
  proof cases
    case 1
    then show ?thesis using sess by (cases sid) auto
  next
    case 2
    then show ?thesis unfolding tokenMiddleware_iff Token_Authenticate_iff [OF assms(3)] by auto blast
  qed
  moreover have "safe_method (hr_Method req) \<or> origin_allowed cfg req \<or> (\<exists>i. identity = Some i \<and> id_Method i = AuthToken)"
    using oc by (auto simp: originCheck_def split: if_splits option.splits)
  ultimately show ?thesis by blast
qed

definition box_api :: api_cfg where
  "box_api = \<lparr>ac_base = ''https://ctf.org'', ac_dev = [], ac_url_Parse = (\<lambda>u. None), ac_sessions = True, ac_tokens = True,
     ac_limit = Some (\<lambda>i. LimitOk)\<rparr>"

definition cookie_req :: "string \<Rightarrow> http_req" where
  "cookie_req from_origin = \<lparr>hr_Method = ''POST'', hr_Path = ''/teams'', hr_Cookie = Some ''a'', hr_Authorization = [],
     hr_Origin = from_origin, hr_Referer = []\<rparr>"

text \<open>The session's own pages may write, another site may not.\<close>

theorem api_entry_sound_witness:
  "\<exists>w. api_entry box_api solo_env box_tok_env (token_store, three_sessions) (cookie_req ''https://ctf.org'') 60 =
      (w, Handle (Some (session_identity (session_of ''a'' (sample_hash 1))))) \<and>
   snd (api_entry box_api solo_env box_tok_env (token_store, three_sessions) (cookie_req ''https://evil.org'') 60) =
      Problem 403 ''origin check failed'' None \<and>
   origin_allowed box_api (cookie_req ''https://ctf.org'')"
proof -
  have live: "live_session three_sessions ''a'' = Some (sample_hash 1, second)" by code_simp
  have o1: "origin_allowed box_api (cookie_req ''https://ctf.org'')" and o2: "\<not> origin_allowed box_api (cookie_req ''https://evil.org'')"
    by code_simp+
  have run: "api_entry box_api solo_env box_tok_env (token_store, three_sessions) (cookie_req from) 60 =
      ((token_store, fst (sessionMiddleware solo_env three_sessions (cookie_req from))),
       if origin_allowed box_api (cookie_req from) then Handle (Some (session_identity (session_of ''a'' (sample_hash 1))))
       else Problem 403 ''origin check failed'' None)" for "from"
  proof -
    have "snd (sessionMiddleware solo_env three_sessions (cookie_req from)) = Some (session_identity (session_of ''a'' (sample_hash 1)))"
      using live by (auto simp: sessionMiddleware_def cookie_req_def SessionStore_Get_def Let_def solo_env_def)
    then show ?thesis
      by (cases "sessionMiddleware solo_env three_sessions (cookie_req from)")
        (simp add: api_entry_def box_api_def tokenMiddleware_def originCheck_def corsDev_def safe_method_def cookie_req_def
          session_identity_def)
  qed
  have b: "ac_base box_api \<noteq> []" by (simp add: box_api_def)
  have d: "distinct (map at_TokenHash (api_tokens (te_interf box_tok_env TProbe (fst (token_store, three_sessions)))))"
    using token_store_hashes by simp
  have good: "api_entry box_api solo_env box_tok_env (token_store, three_sessions) (cookie_req ''https://ctf.org'') 60 =
      ((token_store, fst (sessionMiddleware solo_env three_sessions (cookie_req ''https://ctf.org''))),
       Handle (Some (session_identity (session_of ''a'' (sample_hash 1)))))"
    using run o1 by simp
  have "safe_method (hr_Method (cookie_req ''https://ctf.org'')) \<or> origin_allowed box_api (cookie_req ''https://ctf.org'')"
    using conjunct1 [OF api_entry_sound [OF good b d]] by (simp add: session_identity_def)
  then have "origin_allowed box_api (cookie_req ''https://ctf.org'')" by (simp add: cookie_req_def safe_method_def)
  moreover have "snd (api_entry box_api solo_env box_tok_env (token_store, three_sessions) (cookie_req ''https://evil.org'') 60) =
      Problem 403 ''origin check failed'' None" using run o2 by simp
  ultimately show ?thesis using good by blast
qed

subsection \<open>Tokens cannot make tokens\<close>

text \<open>C33. A leaked token cannot outlive its own revocation: with a token's identity, whoever owns it and whatever its
  scopes, every token-management handler answers the same 403 and touches nothing.\<close>

theorem token_cannot_manage_tokens:
  assumes "id_Method i = AuthToken"
  shows "let no = Forbidden ''token management requires a session; an API token cannot manage tokens'' in
    CreateToken cfg e s (Some i) body now = (s, Inl no) \<and> ListTokens cfg e s (Some i) = (s, Inl no) \<and>
    RevokeToken cfg e s (Some i) tid = (s, Some no) \<and> AdminListTokens ue cfg e w (Some i) page perPage = (w, Inl no) \<and>
    AdminRevokeToken ue cfg e w (Some i) tid = (w, Some no)"
  using assms
  by (simp add: CreateToken_def ListTokens_def RevokeToken_def AdminListTokens_def AdminRevokeToken_def requireSessionAdmin_def
      requireSession_def requireUser_def Let_def)

definition box_tc :: token_cfg where
  "box_tc = \<lparr>tc_enabled = True, tc_DefaultTTL = 90 * 24 * (3600 * second), tc_MaxTTL = 365 * 24 * (3600 * second), tc_quote = id\<rparr>"

theorem token_cannot_manage_tokens_witness:
  "RevokeToken box_tc box_tok_env token_store (Some (token_identity ada_token ada_admin)) 7 =
     (token_store, Some (Forbidden ''token management requires a session; an API token cannot manage tokens'')) \<and>
   snd (RevokeToken box_tc box_tok_env token_store (Some (session_identity (session_of ''a'' (sample_hash 1)))) 7) = None"
proof -
  have "snd (RevokeToken box_tc box_tok_env token_store (Some (session_identity (session_of ''a'' (sample_hash 1)))) 7) = None"
    by (simp add: RevokeToken_def requireSession_def requireUser_def session_identity_def session_of_def box_tc_def
        Token_Revoke_def box_tok_env_def DeleteAPIToken_def delete_tokens_def token_store_def ada_token_def sample_hash_def)
  moreover have "id_Method (token_identity ada_token ada_admin) = AuthToken" by simp
  note token_cannot_manage_tokens [OF this, of box_tc box_tok_env token_store None 0 7 calm_env "(token_store, three_sessions)" None None]
  ultimately show ?thesis by (simp add: Let_def)
qed

subsection \<open>A token's life\<close>

lemma length_token_body:
  assumes "length b = tokenRandBytes"
  shows "length (base32_EncodeToString b) = 52"
  using length_encode_with [of 5 base32_alphabet b] assms
  by (simp add: base32_EncodeToString_def tokenRandBytes_def)

lemma Token_Create_row:
  assumes "Token_Create e s uid name scopes expires = (s', Inr (plaintext, m))"
  shows "\<exists>b t. te_rand e = Some b \<and> plaintext = TokenPrefix @ base32_EncodeToString b \<and> t \<in> set (api_tokens s') \<and> metaOf t = m \<and>
    at_UserID t = uid \<and> at_TokenHash t = hashToken e plaintext \<and> at_Prefix t = take tokenPrefixLen (base32_EncodeToString b) \<and>
    at_Scopes t = scopes \<and> at_ExpiresAt t = expires \<and> set scopes \<subseteq> set validScopes \<and> api_tokens s' = api_tokens (te_interf e TCreate s) @ [t]"
  using assms
  by (auto simp: Token_Create_def GenerateToken_def CreateAPIToken_def Let_def ValidateScopes_None [symmetric]
      split: option.splits sum.splits if_splits)

lemma same_row:
  "t'\<lparr>at_LastUsedAt := v\<rparr> = t \<Longrightarrow> at_ID t' = at_ID t \<and> at_UserID t' = at_UserID t \<and> at_TokenHash t' = at_TokenHash t \<and>
     at_Prefix t' = at_Prefix t \<and> at_Scopes t' = at_Scopes t \<and> at_ExpiresAt t' = at_ExpiresAt t"
  by auto

text \<open>C32. A token lives exactly as long as its row. \<^verbatim>\<open>Create\<close> hands out a plaintext and stores a row for it, and
  whenever \<^verbatim>\<open>Authenticate\<close> is later called on the plaintext without a failure, it answers as follows: while the row
  is there (its last-used stamp may have changed), the time is before its expiry and its owner is not banned, with
  the owner's current role and the scopes asked for; once no row has the token's hash, as after any revocation,
  with \<^verbatim>\<open>ErrInvalidToken\<close>. The hash is the same function in both calls.\<close>

theorem token_roundtrip:
  assumes "Token_Create e s uid name scopes (Some x) = (s', Inr (plaintext, m))" "te_rand e = Some b" "length b = tokenRandBytes"
    and "te_sha e' = te_sha e" "\<not> te_fails e' TProbe" "\<not> te_fails e' TOwner"
    and "distinct (map at_TokenHash (api_tokens (te_interf e' TProbe s2)))"
  shows "\<exists>t \<in> set (api_tokens s'). metaOf t = m \<and>
    (\<forall>t' \<in> set (api_tokens (te_interf e' TProbe s2)). \<forall>u.
       t'\<lparr>at_LastUsedAt := at_LastUsedAt t\<rparr> = t \<and> now < x \<and> \<not> u_Banned u \<and>
       GetUserByID (te_interf e' TOwner (te_interf e' TProbe s2)) uid = Some u \<longrightarrow>
       snd (Token_Authenticate e' s2 plaintext now) = Inr \<lparr>id_UserID = uid, id_Role = u_Role u, id_SessionToken = [],
         id_Method = AuthToken, id_Scopes = scopes, id_TokenID = tm_ID m\<rparr>) \<and>
    ((\<forall>t' \<in> set (api_tokens (te_interf e' TProbe s2)). at_TokenHash t' \<noteq> at_TokenHash t) \<longrightarrow>
       snd (Token_Authenticate e' s2 plaintext now) = Inl ErrInvalidToken)"
proof -
  obtain t where t: "plaintext = TokenPrefix @ base32_EncodeToString b" "t \<in> set (api_tokens s')" "metaOf t = m" "at_UserID t = uid"
    "at_TokenHash t = hashToken e plaintext" "at_Prefix t = take tokenPrefixLen (base32_EncodeToString b)" "at_Scopes t = scopes"
    "at_ExpiresAt t = Some x" "set scopes \<subseteq> set validScopes"
    using Token_Create_row [OF assms(1)] assms(2) by auto
  have h: "hashToken e' raw = hashToken e raw" for raw using assms(4) by (simp add: hashToken_def)
  have len: "tokenPrefixLen \<le> length (base32_EncodeToString b)"
    using length_token_body [OF assms(3)] by (simp add: tokenPrefixLen_def)
  have "snd (Token_Authenticate e' s2 plaintext now) = Inr (token_identity t' u)"
    if "t' \<in> set (api_tokens (te_interf e' TProbe s2))" "t'\<lparr>at_LastUsedAt := at_LastUsedAt t\<rparr> = t" "now < x" "\<not> u_Banned u"
      "GetUserByID (te_interf e' TOwner (te_interf e' TProbe s2)) uid = Some u" for t' u
  proof -
    have "usable e' s2 plaintext now t' u"
      using that(1,3-5) same_row [OF that(2)] t len assms(5,6) unfolding usable_def names_row_def h by auto
    then show ?thesis unfolding Token_Authenticate_iff [OF assms(7)] by blast
  qed
  moreover have "token_identity t' u = \<lparr>id_UserID = uid, id_Role = u_Role u, id_SessionToken = [], id_Method = AuthToken,
      id_Scopes = scopes, id_TokenID = tm_ID m\<rparr>" if "t'\<lparr>at_LastUsedAt := at_LastUsedAt t\<rparr> = t" for t' u
    using same_row [OF that] t(3,4,7) by (auto simp: token_identity_def metaOf_def)
  moreover have "snd (Token_Authenticate e' s2 plaintext now) = Inl ErrInvalidToken"
    if "\<forall>t' \<in> set (api_tokens (te_interf e' TProbe s2)). at_TokenHash t' \<noteq> at_TokenHash t"
  proof -
    have "parsePresented e' plaintext = Some (take tokenPrefixLen (base32_EncodeToString b), at_TokenHash t)"
      using t(1,5) len by (simp add: parsePresented_iff h)
    moreover have "last_match (at_TokenHash t) (GetAPITokensByPrefix (te_interf e' TProbe s2) pre) = None" for pre
      using that by (simp add: last_match_None GetAPITokensByPrefix_def)
    ultimately show ?thesis using assms(5) by (simp add: Token_Authenticate_def Let_def)
  qed
  ultimately show ?thesis using t(2,3) by (metis (no_types, lifting))
qed

text \<open>Ada creates token 8, uses it, deletes it and tries it again.\<close>

theorem token_roundtrip_witness:
  "\<exists>s plaintext m. Token_Create box_tok_env token_store 1 ''bot'' [''admin''] (Some 100) = (s, Inr (plaintext, m)) \<and>
     snd (Token_Authenticate box_tok_env s plaintext 20) = Inr \<lparr>id_UserID = 1, id_Role = ''admin'', id_SessionToken = [],
       id_Method = AuthToken, id_Scopes = [''admin''], id_TokenID = 8\<rparr>"
proof -
  let ?b = "''0123456789abcdef0123456789abcdef''"
  let ?p = "TokenPrefix @ base32_EncodeToString ?b"
  define t where "t = \<lparr>at_ID = 8, at_UserID = 1, at_Name = ''bot'', at_TokenHash = hashToken box_tok_env ?p,
     at_Prefix = take tokenPrefixLen (base32_EncodeToString ?b), at_Scopes = [''admin''], at_LastUsedAt = None,
     at_ExpiresAt = Some 100, at_CreatedAt = 10\<rparr>"
  have rand: "te_rand box_tok_env = Some ?b" and len: "length ?b = tokenRandBytes"
    by (simp_all add: box_tok_env_def tokenRandBytes_def)
  have "?p \<noteq> ada_raw" using length_token_body [OF len] by (auto simp: ada_raw_def dest: arg_cong [of _ _ length])
  then have other: "hashToken box_tok_env ?p \<noteq> hashToken box_tok_env ada_raw"
    by (simp add: hashToken_def encoders_inj box_tok_env_def)
  define s where "s = token_store\<lparr>api_tokens := [ada_token, t]\<rparr>"
  have create: "Token_Create box_tok_env token_store 1 ''bot'' [''admin''] (Some 100) = (s, Inr (?p, metaOf t))"
    using other rand
    by (simp add: Token_Create_def GenerateToken_def validScopes_def ScopeAdmin_def CreateAPIToken_def Let_def token_store_def
        ada_token_def ada_admin_def s_def t_def box_tok_env_def)
  have e: "te_interf box_tok_env c d = d" "\<not> te_fails box_tok_env c" for c d by (simp_all add: box_tok_env_def)
  have d: "distinct (map at_TokenHash (api_tokens (te_interf box_tok_env TProbe s)))"
    using other by (simp add: e s_def t_def ada_token_def)
  have u: "GetUserByID s 1 = Some ada_admin" "\<not> u_Banned ada_admin" "u_Role ada_admin = ''admin''"
    by (simp_all add: s_def token_store_def GetUserByID_def ada_admin_def)
  from token_roundtrip [OF create rand len refl e(2) e(2) d, of 20] obtain t0 where t0: "t0 \<in> set (api_tokens s)" "metaOf t0 = metaOf t"
    "\<And>t' u. t' \<in> set (api_tokens s) \<Longrightarrow> t'\<lparr>at_LastUsedAt := at_LastUsedAt t0\<rparr> = t0 \<Longrightarrow> \<not> u_Banned u \<Longrightarrow> GetUserByID s 1 = Some u \<Longrightarrow>
       snd (Token_Authenticate box_tok_env s ?p 20) = Inr \<lparr>id_UserID = 1, id_Role = u_Role u, id_SessionToken = [],
         id_Method = AuthToken, id_Scopes = [''admin''], id_TokenID = tm_ID (metaOf t)\<rparr>"
    unfolding e by auto
  have "tm_ID (metaOf t) = 8" by (simp add: metaOf_def t_def)
  with t0(3) [OF t0(1) _ u(2,1)] u(3) create show ?thesis by fastforce
qed

text \<open>Tokens do not outlive the policy. Whatever lifetime is asked for, a token that \<^verbatim>\<open>CreateToken\<close> issues expires,
  and no later than the configured maximum, or the default where that is longer, after its creation, even when the
  product of the days overflows; and up to 106751 days it lives the days asked for.\<close>

theorem token_lifetime_bounded:
  assumes "CreateToken cfg e s identity (Some b) now = (s', Inr (plaintext, m))" "0 < tc_MaxTTL cfg"
  shows "\<exists>x. tm_ExpiresAt m = Some x \<and> x \<le> now + max (tc_DefaultTTL cfg) (tc_MaxTTL cfg) \<and>
    (\<forall>d. cb_ExpiresInDays b = Some d \<longrightarrow> d \<le> 106751 \<longrightarrow> 1 \<le> d \<and> x = now + d * 24 * (3600 * second) \<and> x \<le> now + tc_MaxTTL cfg)"
proof -
  obtain i :: Identity and ttl where tv: "token_ttl cfg (cb_ExpiresInDays b) (token_fields cfg b) = (ttl, [])"
    and c: "Token_Create e s (id_UserID i) (cb_Name b) (cb_Scopes b) (Some (now + ttl)) = (s', Inr (plaintext, m))"
    using assms(1) by (auto simp: CreateToken_def Let_def OrNil_def HasErrors_def split: sum.splits if_splits prod.splits option.splits)
  from Token_Create_row [OF c] have "tm_ExpiresAt m = Some (now + ttl)" by (auto simp: metaOf_def)
  moreover have "ttl \<le> max (tc_DefaultTTL cfg) (tc_MaxTTL cfg)"
    using tv assms(2) by (auto simp: token_ttl_def Let_def split: option.splits if_splits)
  moreover have "1 \<le> d \<and> ttl = d * 24 * (3600 * second) \<and> ttl \<le> tc_MaxTTL cfg" if "cb_ExpiresInDays b = Some d" "d \<le> 106751" for d
  proof -
    have "1 \<le> d" "ttl = days_ttl d" "ttl \<le> tc_MaxTTL cfg"
      using tv that(1) assms(2) by (auto simp: token_ttl_def Let_def split: if_splits)
    moreover from \<open>1 \<le> d\<close> that(2) have "days_ttl d = d * 24 * (3600 * second)"
      unfolding days_ttl_def second_def by (intro signed_take_bit_int_eq_self) auto
    ultimately show ?thesis by simp
  qed
  ultimately show ?thesis by auto
qed

definition ada_session :: Identity where
  "ada_session = session_identity (session_of ''a'' (sample_hash 1))"

lemma box_create:
  assumes "1 \<le> d" "days_ttl d \<le> 365 * 24 * (3600 * second)"
  shows "\<exists>s p m. CreateToken box_tc box_tok_env token_store (Some ada_session)
      (Some \<lparr>cb_Name = ''bot'', cb_Scopes = [''read''], cb_ExpiresInDays = Some d\<rparr>) now = (s, Inr (p, m)) \<and>
    tm_ExpiresAt m = Some (now + days_ttl d)"
proof -
  let ?b = "''0123456789abcdef0123456789abcdef''"
  let ?p = "TokenPrefix @ base32_EncodeToString ?b"
  have rand: "te_rand box_tok_env = Some ?b" and len: "length ?b = tokenRandBytes"
    by (simp_all add: box_tok_env_def tokenRandBytes_def)
  have "?p \<noteq> ada_raw" using length_token_body [OF len] by (auto simp: ada_raw_def dest: arg_cong [of _ _ length])
  then have other: "hashToken box_tok_env ?p \<noteq> hashToken box_tok_env ada_raw"
    by (simp add: hashToken_def encoders_inj box_tok_env_def)
  have v: "token_ttl box_tc (Some d) [] = (days_ttl d, [])" using assms by (simp add: token_ttl_def box_tc_def add_if_def)
  have f: "token_fields box_tc \<lparr>cb_Name = ''bot'', cb_Scopes = [''read''], cb_ExpiresInDays = Some d\<rparr> = []"
    by (simp add: token_fields_def add_if_def validScopes_def ScopeRead_def)
  have "requireSession (Some ada_session) = Inr ada_session" "id_UserID ada_session = 1"
    by (simp_all add: requireSession_def requireUser_def ada_session_def session_identity_def session_of_def sample_hash_def)
  moreover have "\<exists>s m. Token_Create box_tok_env token_store 1 ''bot'' [''read''] (Some (now + days_ttl d)) = (s, Inr (?p, m)) \<and>
      tm_ExpiresAt m = Some (now + days_ttl d)"
    using other rand
    by (simp add: Token_Create_def GenerateToken_def validScopes_def ScopeRead_def CreateAPIToken_def Let_def token_store_def
        ada_token_def ada_admin_def box_tok_env_def metaOf_def)
  moreover have "tc_enabled box_tc" by (simp add: box_tc_def)
  moreover have ok: "OrNil [] = None" by simp
  ultimately show ?thesis using v f by (auto simp: CreateToken_def ok simp del: One_nat_def)
qed

theorem token_lifetime_bounded_witness:
  "\<exists>s p m. CreateToken box_tc box_tok_env token_store (Some ada_session)
      (Some \<lparr>cb_Name = ''bot'', cb_Scopes = [''read''], cb_ExpiresInDays = Some 30\<rparr>) 10 = (s, Inr (p, m)) \<and>
    tm_ExpiresAt m = Some (10 + 30 * 24 * (3600 * second))"
proof -
  have "days_ttl 30 \<le> 365 * 24 * (3600 * second)" by code_simp
  then obtain s p m where c: "CreateToken box_tc box_tok_env token_store (Some ada_session)
      (Some \<lparr>cb_Name = ''bot'', cb_Scopes = [''read''], cb_ExpiresInDays = Some 30\<rparr>) 10 = (s, Inr (p, m))"
    using box_create [of 30 10] by auto
  from token_lifetime_bounded [OF this] show ?thesis using c by (auto simp: box_tc_def second_def)
qed

text \<open>The product of the days wraps. A request for 213504 days, far above the maximum of 365, is not rejected: the
  lifetime wraps to 25 minutes and a token is issued.\<close>

theorem token_lifetime_wraps:
  "\<exists>s p m x. CreateToken box_tc box_tok_env token_store (Some ada_session)
      (Some \<lparr>cb_Name = ''bot'', cb_Scopes = [''read''], cb_ExpiresInDays = Some 213504\<rparr>) now = (s, Inr (p, m)) \<and>
    tm_ExpiresAt m = Some x \<and> x - now = 1526290448384 \<and> x - now < 26 * 60 * second"
proof -
  have "days_ttl 213504 = 1526290448384" by code_simp
  then show ?thesis using box_create [of 213504 now] by (auto simp: second_def)
qed

end
