(* ===== verification/Challenge_Admin.thy ===== *)
theory Challenge_Admin
  imports Challenge_Types Scoring Database Go_Strings
begin

text \<open>
  The administration of challenges: \<^verbatim>\<open>internal/challenges/admin.go\<close>, \<^verbatim>\<open>validate.go\<close>, \<^verbatim>\<open>service.go\<close> and
  \<^verbatim>\<open>attachments.go\<close>, over the queries of \<^verbatim>\<open>db/gen/challenges.sql.go\<close> and the constraints of the migrations.

  The store \<open>cdb\<close> adds the attachment rows to the relational store; the object store is the set of its keys.
  A \<open>chal_call\<close> names a statement that may fail (\<open>ch_fails\<close>) and before which other sessions act (\<open>ch_interf\<close>).
  \<^verbatim>\<open>encoding/json\<close>, \<^verbatim>\<open>strconv.Quote\<close>, the order of the database's collation and fresh ids are parameters; the
  registries of scoring modes and challenge types are those at the time of the call.
\<close>

subsection \<open>Rows and constraints\<close>

record ChallengeAttachment =
  ca_ID :: uuid
  ca_ChallengeID :: uuid
  ca_Filename :: string
  ca_SizeBytes :: int
  ca_ContentType :: string
  ca_ObjectKey :: string
  ca_CreatedAt :: time

record cdb = db +
  challenge_attachments :: "ChallengeAttachment list"

text \<open>The \<^verbatim>\<open>CHECK\<close> constraints of the table \<^verbatim>\<open>challenges\<close> (migrations 1 and 2; 7 drops the one on \<^verbatim>\<open>scoring\<close>).\<close>

definition valid_cats :: "string list" where
  "valid_cats = [''web'', ''pwn'', ''crypto'', ''rev'', ''forensics'', ''misc'']"

definition valid_diffs :: "string list" where
  "valid_diffs = [''intro'', ''easy'', ''medium'', ''hard'', ''insane'']"

definition opt_all :: "('a \<Rightarrow> bool) \<Rightarrow> 'a option \<Rightarrow> bool" where
  "opt_all P o' = (case o' of None \<Rightarrow> True | Some x \<Rightarrow> P x)"

definition chk_dynamic_fields :: "Challenge \<Rightarrow> bool" where
  "chk_dynamic_fields c \<longleftrightarrow> c_Scoring c \<noteq> ''dynamic'' \<or>
     (case (c_PointsMin c, c_Decay c) of
        (Some m, Some k) \<Rightarrow> m > 0 \<and> m \<le> c_PointsInitial c \<and> k > 0
      | _ \<Rightarrow> False)"

definition chk_container_fields :: "Challenge \<Rightarrow> bool" where
  "chk_container_fields c \<longleftrightarrow> c_Kind c \<noteq> ''container'' \<or> (c_Image c \<noteq> None \<and> c_InternalPort c \<noteq> None)"

definition chk_instancing_kind :: "Challenge \<Rightarrow> bool" where
  "chk_instancing_kind c \<longleftrightarrow> c_Kind c = ''container'' \<or>
     (c_Instancing c = ''shared'' \<and> c_FlagMode c = ''static'' \<and> c_InstanceTtlSeconds c = None \<and> c_Egress c \<and>
      c_WritablePaths c = ''[]'')"

definition challenge_checks :: "(string \<times> (Challenge \<Rightarrow> bool)) list" where
  "challenge_checks =
     [(''challenges_category_check'', \<lambda>c. c_Category c \<in> set valid_cats),
      (''challenges_difficulty_check'', \<lambda>c. opt_all (\<lambda>d. d \<in> set valid_diffs) (c_Difficulty c)),
      (''challenges_kind_check'', \<lambda>c. c_Kind c = ''standard'' \<or> c_Kind c = ''container''),
      (''challenges_points_initial_check'', \<lambda>c. c_PointsInitial c > 0),
      (''challenges_max_attempts_check'', \<lambda>c. opt_all (\<lambda>n. n > 0) (c_MaxAttempts c)),
      (''challenges_internal_port_check'', \<lambda>c. opt_all (\<lambda>p. 1 \<le> p \<and> p \<le> 65535) (c_InternalPort c)),
      (''challenges_mem_limit_mb_check'', \<lambda>c. 16 \<le> c_MemLimitMb c \<and> c_MemLimitMb c \<le> 8192),
      (''challenges_cpu_millis_check'', \<lambda>c. 100 \<le> c_CpuMillis c \<and> c_CpuMillis c \<le> 8000),
      (''challenges_instancing_check'', \<lambda>c. c_Instancing c = ''shared'' \<or> c_Instancing c = ''per_team''),
      (''challenges_flag_mode_check'', \<lambda>c. c_FlagMode c = ''static'' \<or> c_FlagMode c = ''per_instance''),
      (''challenges_instance_ttl_seconds_check'', \<lambda>c. opt_all (\<lambda>n. n \<ge> 0) (c_InstanceTtlSeconds c)),
      (''chk_challenges_dynamic_fields'', chk_dynamic_fields),
      (''chk_challenges_container_fields'', chk_container_fields),
      (''chk_challenges_instancing_kind'', chk_instancing_kind)]"

definition failed_check :: "Challenge \<Rightarrow> string option" where
  "failed_check c = map_option fst (List.find (\<lambda>(n, P). \<not> P c) challenge_checks)"

subsection \<open>Queries\<close>

definition CreateChallenge :: "'a db_scheme \<Rightarrow> Challenge \<Rightarrow> sql_error + 'a db_scheme \<times> Challenge" where
  "CreateChallenge d c =
     (case failed_check c of
        Some n \<Rightarrow> Inl (CheckViolation n)
      | None \<Rightarrow>
          if list_ex (\<lambda>x. c_ID x = c_ID c) (challenges d) then Inl (UniqueViolation ''challenges_pkey'')
          else if list_ex (\<lambda>x. c_Slug x = c_Slug c) (challenges d) then Inl (UniqueViolation ''uq_challenges_slug'')
          else Inr (d\<lparr>challenges := challenges d @ [c]\<rparr>, c))"

text \<open>The update of one row by \<open>f\<close>; \<open>None\<close> in the result is \<^verbatim>\<open>pgx.ErrNoRows\<close>.\<close>

definition UpdateChallenge ::
  "'a db_scheme \<Rightarrow> uuid \<Rightarrow> (Challenge \<Rightarrow> Challenge) \<Rightarrow> sql_error + 'a db_scheme \<times> Challenge option" where
  "UpdateChallenge d i f =
     (case List.find (\<lambda>c. c_ID c = i) (challenges d) of
        None \<Rightarrow> Inr (d, None)
      | Some c \<Rightarrow>
          (case failed_check (f c) of
             Some n \<Rightarrow> Inl (CheckViolation n)
           | None \<Rightarrow>
               if list_ex (\<lambda>x. c_ID x \<noteq> i \<and> c_Slug x = c_Slug (f c)) (challenges d)
               then Inl (UniqueViolation ''uq_challenges_slug'')
               else Inr (d\<lparr>challenges := map (\<lambda>x. if c_ID x = i then f x else x) (challenges d)\<rparr>, Some (f c))))"

text \<open>With the cascades of submissions, instances and attachments.\<close>

definition DeleteChallenge :: "cdb \<Rightarrow> uuid \<Rightarrow> cdb" where
  "DeleteChallenge d i =
     d\<lparr>challenges := filter (\<lambda>c. c_ID c \<noteq> i) (challenges d),
       submissions := filter (\<lambda>s. s_ChallengeID s \<noteq> i) (submissions d),
       instances := filter (\<lambda>n. i_ChallengeID n \<noteq> i) (instances d),
       challenge_attachments := filter (\<lambda>a. ca_ChallengeID a \<noteq> i) (challenge_attachments d)\<rparr>"

definition admin_match :: "string option \<Rightarrow> bool option \<Rightarrow> string option \<Rightarrow> Challenge \<Rightarrow> bool" where
  "admin_match category visible kind c \<longleftrightarrow>
     opt_all (\<lambda>x. c_Category c = x) category \<and> opt_all (\<lambda>x. c_Visible c = x) visible \<and> opt_all (\<lambda>x. c_Kind c = x) kind"

definition ListChallengesAdmin ::
  "(string \<Rightarrow> nat) \<Rightarrow> cdb \<Rightarrow> int \<Rightarrow> int \<Rightarrow> string option \<Rightarrow> bool option \<Rightarrow> string option \<Rightarrow> Challenge list" where
  "ListChallengesAdmin coll d limit offset category visible kind =
     take (nat limit) (drop (nat offset)
       (sort_key (\<lambda>c. coll (c_Category c)) (sort_key (\<lambda>c. coll (c_Title c))
         (filter (admin_match category visible kind) (challenges d)))))"

definition CountChallengesAdmin :: "cdb \<Rightarrow> string option \<Rightarrow> bool option \<Rightarrow> string option \<Rightarrow> int" where
  "CountChallengesAdmin d category visible kind = int (length (filter (admin_match category visible kind) (challenges d)))"

definition ListAttachments :: "(string \<Rightarrow> nat) \<Rightarrow> cdb \<Rightarrow> uuid \<Rightarrow> ChallengeAttachment list" where
  "ListAttachments coll d cid =
     sort_key (\<lambda>a. coll (ca_Filename a)) (filter (\<lambda>a. ca_ChallengeID a = cid) (challenge_attachments d))"

definition GetAttachment :: "cdb \<Rightarrow> uuid \<Rightarrow> uuid \<Rightarrow> ChallengeAttachment option" where
  "GetAttachment d i cid = List.find (\<lambda>a. ca_ID a = i \<and> ca_ChallengeID a = cid) (challenge_attachments d)"

definition CreateAttachment :: "cdb \<Rightarrow> ChallengeAttachment \<Rightarrow> sql_error + cdb \<times> ChallengeAttachment" where
  "CreateAttachment d a =
     (if ca_SizeBytes a < 0 then Inl (CheckViolation ''challenge_attachments_size_bytes_check'')
      else if list_ex (\<lambda>x. ca_ID x = ca_ID a) (challenge_attachments d) then Inl (UniqueViolation ''challenge_attachments_pkey'')
      else if list_ex (\<lambda>x. ca_ChallengeID x = ca_ChallengeID a \<and> ca_Filename x = ca_Filename a) (challenge_attachments d)
      then Inl (UniqueViolation ''uq_attachments_challenge_filename'')
      else if \<not> list_ex (\<lambda>c. c_ID c = ca_ChallengeID a) (challenges d)
      then Inl (ForeignKeyViolation ''challenge_attachments_challenge_id_fkey'')
      else Inr (d\<lparr>challenge_attachments := challenge_attachments d @ [a]\<rparr>, a))"

definition DeleteAttachment_sql :: "cdb \<Rightarrow> uuid \<Rightarrow> cdb" where
  "DeleteAttachment_sql d i = d\<lparr>challenge_attachments := filter (\<lambda>a. ca_ID a \<noteq> i) (challenge_attachments d)\<rparr>"

subsection \<open>Slugs\<close>

definition slug_char :: "char \<Rightarrow> bool" where
  "slug_char c \<longleftrightarrow> c \<in> set ''abcdefghijklmnopqrstuvwxyz0123456789''"

text \<open>\<^verbatim>\<open>^[a-z0-9]+(-[a-z0-9]+)*$\<close>.\<close>

definition slugRe :: "string \<Rightarrow> bool" where
  "slugRe s \<longleftrightarrow> list_all (\<lambda>w. w \<noteq> [] \<and> list_all slug_char w) (Split s CHR ''-'')"

text \<open>Every run of other characters becomes one hyphen.\<close>

function dash_runs :: "string \<Rightarrow> string" where
  "dash_runs [] = []"
| "dash_runs (c # cs) =
     (if slug_char c then c # dash_runs cs
      else CHR ''-'' # dash_runs (dropWhile (\<lambda>x. \<not> slug_char x) cs))"
  by pat_completeness auto
termination
  by (relation "measure length") (auto simp: length_dropWhile_le less_Suc_eq_le)

definition trim_dashes :: "string \<Rightarrow> string" where
  "trim_dashes s = rev (dropWhile (\<lambda>c. c = CHR ''-'') (rev (dropWhile (\<lambda>c. c = CHR ''-'') s)))"

definition slugify :: "(string \<Rightarrow> string) \<Rightarrow> string \<Rightarrow> string" where
  "slugify uni_lower title = trim_dashes (dash_runs (ToLower uni_lower (TrimSpace title)))"

subsection \<open>Inputs and validation\<close>

datatype chal_call =
    XGet | XGetUpload | XGetUpdate | XGetDelete | XCreate | XUpdate | XDelete | XList | XCount | XAtts | XSolves
  | XAttGet | XAttCreate | XAttDelete | XPut | XBlobDelete | XRollback | XBlobGet

record chal_env =
  ch_fails :: "chal_call \<Rightarrow> bool"
  ch_interf :: "chal_call \<Rightarrow> cdb \<Rightarrow> cdb"
  ch_types :: TypeRegistry
  ch_modes :: Registry
  ch_quote :: "string \<Rightarrow> string"
  ch_json_map :: "config \<Rightarrow> string"
  ch_json_list :: "string list \<Rightarrow> string"
  ch_uni_lower :: "string \<Rightarrow> string"
  ch_coll :: "string \<Rightarrow> nat"
  ch_newid :: "uuid option"
  ch_uuid_text :: "uuid \<Rightarrow> string"
  ch_now :: time

record CreateInput =
  ci_Slug :: "string option"
  ci_Title :: string
  ci_Category :: string
  ci_Description :: string
  ci_Difficulty :: "string option"
  ci_Kind :: string
  ci_Type :: string
  ci_TypeConfig :: config
  ci_Flag :: string
  ci_FlagCaseInsensitive :: bool
  ci_Scoring :: string
  ci_PointsInitial :: int
  ci_PointsMin :: "int option"
  ci_Decay :: "int option"
  ci_MaxAttempts :: "int option"
  ci_Visible :: bool
  ci_Image :: "string option"
  ci_InternalPort :: "int option"
  ci_MemLimitMB :: "int option"
  ci_CPUMillis :: "int option"
  ci_ContainerEnv :: config
  ci_ConnectionTemplate :: "string option"
  ci_Instancing :: string
  ci_FlagMode :: string
  ci_InstanceTTLSeconds :: "int option"
  ci_Egress :: "bool option"
  ci_WritablePaths :: "string list"

definition validateContainerLimits :: "fields \<Rightarrow> int option \<Rightarrow> int option \<Rightarrow> fields" where
  "validateContainerLimits v mem cpu =
     add_if (\<not> opt_all (\<lambda>c. \<not> (c < 100 \<or> c > 8000)) cpu) ''cpu_millis'' ''must be between 100 and 8000''
       (add_if (\<not> opt_all (\<lambda>m. \<not> (m < 16 \<or> m > 8192)) mem) ''mem_limit_mb'' ''must be between 16 and 8192'' v)"

definition validateInstancing ::
  "fields \<Rightarrow> string \<Rightarrow> string \<Rightarrow> string \<Rightarrow> int option \<Rightarrow> bool option \<Rightarrow> bool \<Rightarrow> fields" where
  "validateInstancing v kind instancing flagMode ttl egress hasWritable =
     (let v = add_if (instancing \<noteq> '''' \<and> instancing \<noteq> ''shared'' \<and> instancing \<noteq> ''per_team'') ''instancing''
                (''must be 'shared' or 'per_team'' @ [CHR 0x27]) v;
          v = add_if (flagMode \<noteq> '''' \<and> flagMode \<noteq> ''static'' \<and> flagMode \<noteq> ''per_instance'') ''flag_mode''
                (''must be 'static' or 'per_instance'' @ [CHR 0x27]) v;
          v = add_if (\<not> opt_all (\<lambda>t. \<not> t < 0) ttl) ''instance_ttl_seconds'' ''must be >= 0'' v
      in if kind = ''container'' then v
         else add_if hasWritable ''writable_paths'' ''only apply to container challenges''
             (add_if (egress = Some False) ''egress'' ''egress control only applies to container challenges''
             (add_if (ttl \<noteq> None) ''instance_ttl_seconds'' ''only applies to container challenges''
             (add_if (flagMode = ''per_instance'') ''flag_mode'' ''per_instance requires a container challenge''
             (add_if (instancing = ''per_team'') ''instancing'' ''per_team requires a container challenge'' v)))))"

definition validate_dynamic :: "int \<Rightarrow> int \<Rightarrow> int \<Rightarrow> fields \<Rightarrow> fields" where
  "validate_dynamic pointsMin pointsInitial decay v =
     add_if (decay < 1) ''decay'' ''is required and positive for dynamic scoring''
       (if pointsMin < 1 then Validation_Add v ''points_min'' ''is required and positive for dynamic scoring''
        else add_if (pointsMin > pointsInitial) ''points_min'' ''cannot exceed points_initial'' v)"

text \<open>A missing \<^verbatim>\<open>points_min\<close> or \<^verbatim>\<open>decay\<close> counts as 0 in either validation: it is below 1.\<close>

definition valOrZero :: "int option \<Rightarrow> int" where
  "valOrZero p = (case p of None \<Rightarrow> 0 | Some x \<Rightarrow> x)"

definition validateCreate :: "chal_env \<Rightarrow> CreateInput \<Rightarrow> string \<Rightarrow> app_error option" where
  "validateCreate e i slug =
     (let v = add_if (\<not> slugRe slug) ''slug'' ''must be lowercase alphanumeric words separated by single hyphens'' [];
          v = add_if (length (ci_Title i) < 1 \<or> length (ci_Title i) > 200) ''title'' ''must be between 1 and 200 characters'' v;
          v = add_if (ci_Category i \<notin> set valid_cats) ''category'' ''must be one of web, pwn, crypto, rev, forensics, misc'' v;
          v = add_if (\<not> opt_all (\<lambda>d. d \<in> set valid_diffs) (ci_Difficulty i)) ''difficulty''
                ''must be one of intro, easy, medium, hard, insane'' v;
          v = add_if (ci_Kind i \<noteq> ''standard'' \<and> ci_Kind i \<noteq> ''container'') ''kind'' (''must be 'standard' or 'container'' @ [CHR 0x27]) v;
          v = add_if (\<not> IsRegisteredType (ch_types e) (ci_Type i)) ''type''
                (''unknown challenge type '' @ ch_quote e (ci_Type i) @ '': no such type is registered'') v;
          v = add_if (length (ci_Flag i) < 1) ''flag'' ''is required'' v;
          v = add_if (\<not> IsRegisteredMode (ch_modes e) (ci_Scoring i)) ''scoring''
                (''unknown scoring mode '' @ ch_quote e (ci_Scoring i) @ '': no such mode is registered'') v;
          v = add_if (ci_PointsInitial i < 1) ''points_initial'' ''must be a positive integer'' v;
          v = (if ci_Scoring i = ''dynamic''
               then validate_dynamic (valOrZero (ci_PointsMin i)) (ci_PointsInitial i) (valOrZero (ci_Decay i)) v else v);
          v = (if ci_Kind i = ''container''
               then add_if (\<not> (case ci_InternalPort i of None \<Rightarrow> False | Some p \<Rightarrow> 1 \<le> p \<and> p \<le> 65535)) ''internal_port''
                      ''is required for container challenges (1-65535)''
                      (add_if (ci_Image i = None \<or> ci_Image i = Some '''') ''image'' ''is required for container challenges'' v)
               else v);
          v = validateContainerLimits v (ci_MemLimitMB i) (ci_CPUMillis i);
          v = add_if (\<not> opt_all (\<lambda>n. \<not> n < 1) (ci_MaxAttempts i)) ''max_attempts'' ''must be positive when set'' v
      in OrNil (validateInstancing v (ci_Kind i) (ci_Instancing i) (ci_FlagMode i) (ci_InstanceTTLSeconds i) (ci_Egress i)
                  (ci_WritablePaths i \<noteq> [])))"

definition add_all :: "string \<Rightarrow> config \<Rightarrow> fields \<Rightarrow> fields" where
  "add_all pre errs v = fold (\<lambda>(field, msg) v. Validation_Add v (pre @ field) msg) errs v"

definition validateTypeConfig :: "chal_env \<Rightarrow> string \<Rightarrow> config \<Rightarrow> config result" where
  "validateTypeConfig e typeID cfg =
     (case GetType (ch_types e) typeID of
        None \<Rightarrow> Inl (Unavailable (''challenge type '' @ ch_quote e typeID @ '' is not available'') 0)
      | Some ty \<Rightarrow>
          (case ct_ValidateConfig ty cfg of
             None \<Rightarrow> Inl (Unavailable (''challenge type '' @ ch_quote e typeID @ '' is temporarily unavailable; try again'') 0)
           | Some res \<Rightarrow>
               if \<not> cv_OK res
               then let v = add_all ''type_config.'' (cv_FieldErrors res) []
                    in Inl (Validation (if \<not> HasErrors v then Validation_Add v ''type_config'' ''rejected by the challenge type'' else v))
               else Inr (if cv_Normalized res \<noteq> [] then cv_Normalized res else cfg)))"

definition configJSON :: "chal_env \<Rightarrow> config \<Rightarrow> string" where
  "configJSON e m = (if m = [] then ''{}'' else ch_json_map e m)"

definition clampI32 :: "int \<Rightarrow> int" where
  "clampI32 v = (if v > 2147483647 then 2147483647 else if v < - 2147483648 then - 2147483648 else v)"

definition i32p :: "int option \<Rightarrow> int option" where
  "i32p p = map_option clampI32 p"

definition challenge_conflict :: "sql_error \<Rightarrow> app_error" where
  "challenge_conflict err =
     (case err of
        UniqueViolation _ \<Rightarrow> Conflict ''a challenge with that slug already exists''
      | CheckViolation n \<Rightarrow> Internal n
      | ForeignKeyViolation n \<Rightarrow> Internal n)"

subsection \<open>Creating\<close>

definition create_defaults :: "CreateInput \<Rightarrow> CreateInput" where
  "create_defaults i = i\<lparr>
     ci_Kind := (if ci_Kind i = '''' then ''standard'' else ci_Kind i),
     ci_Type := (if ci_Type i = '''' then ''standard'' else ci_Type i),
     ci_Scoring := (if ci_Scoring i = '''' then ''dynamic'' else ci_Scoring i),
     ci_Instancing := (if ci_Instancing i = '''' then ''shared'' else ci_Instancing i),
     ci_FlagMode := (if ci_FlagMode i = '''' then ''static'' else ci_FlagMode i)\<rparr>"

definition create_slug :: "chal_env \<Rightarrow> CreateInput \<Rightarrow> string" where
  "create_slug e i = (case ci_Slug i of Some s \<Rightarrow> s | None \<Rightarrow> slugify (ch_uni_lower e) (ci_Title i))"

definition create_row :: "chal_env \<Rightarrow> CreateInput \<Rightarrow> string \<Rightarrow> config \<Rightarrow> uuid \<Rightarrow> Challenge" where
  "create_row e i slug tc cid =
     \<lparr>c_ID = cid, c_Slug = slug, c_Title = ci_Title i, c_Category = ci_Category i, c_Description = ci_Description i,
      c_Difficulty = ci_Difficulty i, c_Kind = ci_Kind i, c_Flag = ci_Flag i,
      c_FlagCaseInsensitive = ci_FlagCaseInsensitive i, c_Scoring = ci_Scoring i,
      c_PointsInitial = clampI32 (ci_PointsInitial i), c_PointsMin = i32p (ci_PointsMin i), c_Decay = i32p (ci_Decay i),
      c_MaxAttempts = i32p (ci_MaxAttempts i), c_Visible = ci_Visible i, c_Image = ci_Image i,
      c_InternalPort = i32p (ci_InternalPort i),
      c_MemLimitMb = (case ci_MemLimitMB i of Some m \<Rightarrow> clampI32 m | None \<Rightarrow> 256),
      c_CpuMillis = (case ci_CPUMillis i of Some m \<Rightarrow> clampI32 m | None \<Rightarrow> 500),
      c_ContainerEnv = (if ci_ContainerEnv i \<noteq> [] then ch_json_map e (ci_ContainerEnv i) else ''{}''),
      c_ConnectionTemplate = ci_ConnectionTemplate i, c_CreatedAt = ch_now e, c_UpdatedAt = ch_now e,
      c_Instancing = ci_Instancing i, c_FlagMode = ci_FlagMode i,
      c_InstanceTtlSeconds = i32p (ci_InstanceTTLSeconds i), c_Egress = coalesce (ci_Egress i) True,
      c_WritablePaths = (if ci_WritablePaths i \<noteq> [] then ch_json_list e (ci_WritablePaths i) else ''[]''),
      c_Type = ci_Type i, c_TypeConfig = configJSON e tc\<rparr>"

definition Challenge_Create :: "chal_env \<Rightarrow> cdb \<Rightarrow> CreateInput \<Rightarrow> cdb \<times> Challenge result" where
  "Challenge_Create e d inp =
     (let i = create_defaults inp;
          slug = create_slug e i
      in case validateCreate e i slug of
           Some err \<Rightarrow> (d, Inl err)
         | None \<Rightarrow>
             (case validateTypeConfig e (ci_Type i) (ci_TypeConfig i) of
                Inl err \<Rightarrow> (d, Inl err)
              | Inr tc \<Rightarrow>
                  (case ch_newid e of
                     None \<Rightarrow> (d, Inl (Internal ''challenges: generating id''))
                   | Some cid \<Rightarrow>
                       let d = ch_interf e XCreate d
                       in if ch_fails e XCreate then (d, Inl (Internal ''query''))
                          else case CreateChallenge d (create_row e i slug tc cid) of
                                 Inl err \<Rightarrow> (d, Inl (challenge_conflict err))
                               | Inr (d', c) \<Rightarrow> (d', Inr c))))"

subsection \<open>Reading\<close>

record Full =
  fu_Challenge :: Challenge
  fu_Attachments :: "ChallengeAttachment list"
  fu_Solves :: int

definition loadFull :: "chal_env \<Rightarrow> cdb \<Rightarrow> Challenge \<Rightarrow> cdb \<times> Full result" where
  "loadFull e d c =
     (let d = ch_interf e XAtts d
      in if ch_fails e XAtts then (d, Inl (Internal ''challenges: listing attachments''))
         else let atts = ListAttachments (ch_coll e) d (c_ID c);
                  d = ch_interf e XSolves d
              in if ch_fails e XSolves then (d, Inl (Internal ''challenges: counting solves''))
                 else (d, Inr \<lparr>fu_Challenge = c, fu_Attachments = atts,
                             fu_Solves = CountChallengeSolves (db.truncate d) (c_ID c)\<rparr>))"

definition get_challenge :: "chal_env \<Rightarrow> chal_call \<Rightarrow> string \<Rightarrow> cdb \<Rightarrow> uuid \<Rightarrow> cdb \<times> Challenge result" where
  "get_challenge e c what d i =
     (let d = ch_interf e c d
      in if ch_fails e c then (d, Inl (Internal what))
         else case GetChallengeByID (db.truncate d) i of None \<Rightarrow> (d, Inl ErrNotFound) | Some x \<Rightarrow> (d, Inr x))"

definition GetAdmin :: "chal_env \<Rightarrow> cdb \<Rightarrow> uuid \<Rightarrow> cdb \<times> Full result" where
  "GetAdmin e d i =
     (case get_challenge e XGet ''challenges: get'' d i of
        (d, Inl err) \<Rightarrow> (d, Inl err)
      | (d, Inr c) \<Rightarrow> loadFull e d c)"

fun load_all :: "chal_env \<Rightarrow> cdb \<Rightarrow> Challenge list \<Rightarrow> cdb \<times> Full list result" where
  "load_all e d [] = (d, Inr [])"
| "load_all e d (c # cs) =
     (case loadFull e d c of
        (d, Inl err) \<Rightarrow> (d, Inl err)
      | (d, Inr f) \<Rightarrow>
          (case load_all e d cs of
             (d, Inl err) \<Rightarrow> (d, Inl err)
           | (d, Inr fs) \<Rightarrow> (d, Inr (f # fs))))"

definition Challenge_ListAdmin ::
  "chal_env \<Rightarrow> cdb \<Rightarrow> int \<Rightarrow> int \<Rightarrow> string option \<Rightarrow> bool option \<Rightarrow> string option \<Rightarrow> cdb \<times> (Full list \<times> int) result" where
  "Challenge_ListAdmin e d limit offset category visible kind =
     (let d = ch_interf e XList d
      in if ch_fails e XList then (d, Inl (Internal ''challenges: listing''))
         else let rows = ListChallengesAdmin (ch_coll e) d limit offset category visible kind;
                  d = ch_interf e XCount d
              in if ch_fails e XCount then (d, Inl (Internal ''challenges: counting''))
                 else let n = CountChallengesAdmin d category visible kind
                      in (case load_all e d rows of
                            (d, Inl err) \<Rightarrow> (d, Inl err)
                          | (d, Inr items) \<Rightarrow> (d, Inr (items, n))))"

subsection \<open>Updating\<close>

text \<open>A nullable column has a set flag beside its value.\<close>

record ChallengePatch =
  cp_Slug :: "string option"
  cp_Title :: "string option"
  cp_Category :: "string option"
  cp_Description :: "string option"
  cp_SetDifficulty :: bool
  cp_Difficulty :: "string option"
  cp_Flag :: "string option"
  cp_FlagCaseInsensitive :: "bool option"
  cp_Scoring :: "string option"
  cp_Type :: "string option"
  cp_TypeConfig :: "config option"
  cp_PointsInitial :: "int option"
  cp_SetPointsMin :: bool
  cp_PointsMin :: "int option"
  cp_SetDecay :: bool
  cp_Decay :: "int option"
  cp_SetMaxAttempts :: bool
  cp_MaxAttempts :: "int option"
  cp_Visible :: "bool option"
  cp_SetImage :: bool
  cp_Image :: "string option"
  cp_SetInternalPort :: bool
  cp_InternalPort :: "int option"
  cp_MemLimitMB :: "int option"
  cp_CPUMillis :: "int option"
  cp_ContainerEnv :: "config option"
  cp_SetConnectionTmpl :: bool
  cp_ConnectionTemplate :: "string option"
  cp_Instancing :: "string option"
  cp_FlagMode :: "string option"
  cp_SetInstanceTTL :: bool
  cp_InstanceTTLSeconds :: "int option"
  cp_Egress :: "bool option"
  cp_WritablePaths :: "string list option"

definition validateUpdate :: "chal_env \<Rightarrow> Challenge \<Rightarrow> ChallengePatch \<Rightarrow> app_error option" where
  "validateUpdate e cur p =
     (let v = add_if (\<not> opt_all (IsRegisteredType (ch_types e)) (cp_Type p)) ''type''
                (''unknown challenge type '' @ ch_quote e (coalesce (cp_Type p) '''') @ '': no such type is registered'') [];
          scoring = coalesce (cp_Scoring p) (c_Scoring cur);
          v = add_if (\<not> opt_all (IsRegisteredMode (ch_modes e)) (cp_Scoring p)) ''scoring''
                (''unknown scoring mode '' @ ch_quote e scoring @ '': no such mode is registered'') v;
          pointsInitial = coalesce (cp_PointsInitial p) (c_PointsInitial cur);
          v = add_if (cp_PointsInitial p \<noteq> None \<and> pointsInitial < 1) ''points_initial'' ''must be a positive integer'' v;
          pointsMin = valOrZero (if cp_SetPointsMin p then cp_PointsMin p else c_PointsMin cur);
          decay = valOrZero (if cp_SetDecay p then cp_Decay p else c_Decay cur);
          v = (if scoring = ''dynamic'' then validate_dynamic pointsMin pointsInitial decay v else v);
          v = add_if (\<not> opt_all slugRe (cp_Slug p)) ''slug'' ''must be lowercase alphanumeric words separated by single hyphens'' v;
          v = add_if (\<not> opt_all (\<lambda>c. c \<in> set valid_cats) (cp_Category p)) ''category''
                ''must be one of web, pwn, crypto, rev, forensics, misc'' v;
          v = add_if (cp_SetDifficulty p \<and> \<not> opt_all (\<lambda>x. x \<in> set valid_diffs) (cp_Difficulty p)) ''difficulty''
                ''must be one of intro, easy, medium, hard, insane'' v;
          v = add_if (\<not> opt_all (\<lambda>t. \<not> (length t < 1 \<or> length t > 200)) (cp_Title p)) ''title''
                ''must be between 1 and 200 characters'' v;
          v = add_if (\<not> opt_all (\<lambda>f. \<not> length f < 1) (cp_Flag p)) ''flag'' ''cannot be empty'' v;
          image = (if cp_SetImage p then cp_Image p else c_Image cur);
          port = (if cp_SetInternalPort p then i32p (cp_InternalPort p) else c_InternalPort cur);
          v = (if c_Kind cur = ''container''
               then add_if (port = None) ''internal_port'' ''a container challenge must keep an internal port''
                      (add_if (image = None \<or> image = Some '''') ''image'' ''a container challenge must keep an image'' v)
               else v);
          v = validateContainerLimits v (cp_MemLimitMB p) (cp_CPUMillis p)
      in OrNil (validateInstancing v (c_Kind cur) (coalesce (cp_Instancing p) (c_Instancing cur))
           (coalesce (cp_FlagMode p) (c_FlagMode cur))
           (if cp_SetInstanceTTL p then cp_InstanceTTLSeconds p else c_InstanceTtlSeconds cur)
           (Some (coalesce (cp_Egress p) (c_Egress cur)))
           (case cp_WritablePaths p of None \<Rightarrow> False | Some ws \<Rightarrow> ws \<noteq> [])))"

text \<open>The row that the statement writes over \<open>c\<close>.\<close>

definition patched :: "chal_env \<Rightarrow> ChallengePatch \<Rightarrow> config option \<Rightarrow> Challenge \<Rightarrow> Challenge" where
  "patched e p tc c =
     \<lparr>c_ID = c_ID c, c_Slug = coalesce (cp_Slug p) (c_Slug c), c_Title = coalesce (cp_Title p) (c_Title c),
      c_Category = coalesce (cp_Category p) (c_Category c), c_Description = coalesce (cp_Description p) (c_Description c),
      c_Difficulty = (if cp_SetDifficulty p then cp_Difficulty p else c_Difficulty c), c_Kind = c_Kind c,
      c_Flag = coalesce (cp_Flag p) (c_Flag c),
      c_FlagCaseInsensitive = coalesce (cp_FlagCaseInsensitive p) (c_FlagCaseInsensitive c),
      c_Scoring = coalesce (cp_Scoring p) (c_Scoring c),
      c_PointsInitial = coalesce (i32p (cp_PointsInitial p)) (c_PointsInitial c),
      c_PointsMin = (if cp_SetPointsMin p then i32p (cp_PointsMin p) else c_PointsMin c),
      c_Decay = (if cp_SetDecay p then i32p (cp_Decay p) else c_Decay c),
      c_MaxAttempts = (if cp_SetMaxAttempts p then i32p (cp_MaxAttempts p) else c_MaxAttempts c),
      c_Visible = coalesce (cp_Visible p) (c_Visible c), c_Image = (if cp_SetImage p then cp_Image p else c_Image c),
      c_InternalPort = (if cp_SetInternalPort p then i32p (cp_InternalPort p) else c_InternalPort c),
      c_MemLimitMb = coalesce (i32p (cp_MemLimitMB p)) (c_MemLimitMb c),
      c_CpuMillis = coalesce (i32p (cp_CPUMillis p)) (c_CpuMillis c),
      c_ContainerEnv = coalesce (map_option (ch_json_map e) (cp_ContainerEnv p)) (c_ContainerEnv c),
      c_ConnectionTemplate = (if cp_SetConnectionTmpl p then cp_ConnectionTemplate p else c_ConnectionTemplate c),
      c_CreatedAt = c_CreatedAt c, c_UpdatedAt = ch_now e,
      c_Instancing = coalesce (cp_Instancing p) (c_Instancing c), c_FlagMode = coalesce (cp_FlagMode p) (c_FlagMode c),
      c_InstanceTtlSeconds = (if cp_SetInstanceTTL p then i32p (cp_InstanceTTLSeconds p) else c_InstanceTtlSeconds c),
      c_Egress = coalesce (cp_Egress p) (c_Egress c),
      c_WritablePaths = coalesce (map_option (ch_json_list e) (cp_WritablePaths p)) (c_WritablePaths c),
      c_Type = coalesce (cp_Type p) (c_Type c), c_TypeConfig = coalesce (map_option (configJSON e) tc) (c_TypeConfig c)\<rparr>"

definition Challenge_Update :: "chal_env \<Rightarrow> cdb \<Rightarrow> uuid \<Rightarrow> ChallengePatch \<Rightarrow> cdb \<times> Challenge result" where
  "Challenge_Update e d i p =
     (case get_challenge e XGetUpdate ''challenges: get for update'' d i of
        (d, Inl err) \<Rightarrow> (d, Inl err)
      | (d, Inr cur) \<Rightarrow>
          (case validateUpdate e cur p of
             Some err \<Rightarrow> (d, Inl err)
           | None \<Rightarrow>
               (case (case cp_TypeConfig p of
                        None \<Rightarrow> Inr None
                      | Some cfg \<Rightarrow>
                          (case validateTypeConfig e (coalesce (cp_Type p) (c_Type cur)) cfg of
                             Inl err \<Rightarrow> Inl err
                           | Inr tc \<Rightarrow> Inr (Some tc))) of
                  Inl err \<Rightarrow> (d, Inl err)
                | Inr tc \<Rightarrow>
                    let d = ch_interf e XUpdate d
                    in if ch_fails e XUpdate then (d, Inl (Internal ''query''))
                       else case UpdateChallenge d i (patched e p tc) of
                              Inl err \<Rightarrow> (d, Inl (challenge_conflict err))
                            | Inr (d', None) \<Rightarrow> (d', Inl (Internal ''no rows in result set''))
                            | Inr (d', Some c) \<Rightarrow> (d', Inr c))))"

subsection \<open>Deleting\<close>

definition Challenge_Delete :: "chal_env \<Rightarrow> cdb \<Rightarrow> uuid \<Rightarrow> bool \<Rightarrow> bool \<Rightarrow> cdb \<times> app_error option" where
  "Challenge_Delete e d i eventRunning confirm =
     (case get_challenge e XGetDelete ''challenges: get for delete'' d i of
        (d, Inl err) \<Rightarrow> (d, Some err)
      | (d, Inr c) \<Rightarrow>
          if c_Visible c \<and> eventRunning \<and> \<not> confirm
          then (d, Some (Conflict ''refusing to delete a visible challenge during a running event; pass confirm=true''))
          else let d = ch_interf e XDelete d
               in if ch_fails e XDelete then (d, Some (Internal ''challenges: delete''))
                  else (DeleteChallenge d i, None))"

subsection \<open>Attachments\<close>

text \<open>The object store as the set of its keys; a failing put may have stored the object.\<close>

type_synonym blobs = "string set"

definition attachment_key :: "chal_env \<Rightarrow> uuid \<Rightarrow> uuid \<Rightarrow> string \<Rightarrow> string" where
  "attachment_key e cid i filename =
     ''challenges/'' @ ch_uuid_text e cid @ ''/'' @ ch_uuid_text e i @ ''/'' @ filename"

definition UploadAttachment ::
  "chal_env \<Rightarrow> bool \<Rightarrow> blobs \<Rightarrow> cdb \<Rightarrow> uuid \<Rightarrow> string \<Rightarrow> string \<Rightarrow> int \<Rightarrow> blobs \<times> cdb \<times> ChallengeAttachment result" where
  "UploadAttachment e landed b d cid filename contentType nbytes =
     (case get_challenge e XGetUpload ''challenges: get for upload'' d cid of
        (d, Inl err) \<Rightarrow> (b, d, Inl err)
      | (d, Inr _) \<Rightarrow>
          (case ch_newid e of
             None \<Rightarrow> (b, d, Inl (Internal ''challenges: generating id''))
           | Some i \<Rightarrow>
               let key = attachment_key e cid i filename
               in if ch_fails e XPut then (if landed then insert key b else b, d, Inl (Internal ''storage''))
                  else let b = insert key b;
                           rollback = (if ch_fails e XRollback then b else b - {key});
                           d = ch_interf e XAttCreate d
                       in if ch_fails e XAttCreate then (rollback, d, Inl (Internal ''challenges: recording attachment''))
                          else case CreateAttachment d \<lparr>ca_ID = i, ca_ChallengeID = cid, ca_Filename = filename, ca_SizeBytes = nbytes,
                                   ca_ContentType = (if contentType = '''' then ''application/octet-stream'' else contentType),
                                   ca_ObjectKey = key, ca_CreatedAt = ch_now e\<rparr> of
                                 Inl (UniqueViolation _) \<Rightarrow>
                                   (rollback, d, Inl (Conflict (''an attachment named '' @ ch_quote e filename @
                                      '' already exists on this challenge'')))
                               | Inl _ \<Rightarrow> (rollback, d, Inl (Internal ''challenges: recording attachment''))
                               | Inr (d', a) \<Rightarrow> (b, d', Inr a)))"

definition find_attachment :: "chal_env \<Rightarrow> cdb \<Rightarrow> uuid \<Rightarrow> uuid \<Rightarrow> cdb \<times> ChallengeAttachment result" where
  "find_attachment e d cid i =
     (let d = ch_interf e XAttGet d
      in if ch_fails e XAttGet then (d, Inl (Internal ''challenges: get attachment''))
         else case GetAttachment d i cid of None \<Rightarrow> (d, Inl ErrNotFound) | Some a \<Rightarrow> (d, Inr a))"

definition DeleteAttachment :: "chal_env \<Rightarrow> blobs \<Rightarrow> cdb \<Rightarrow> uuid \<Rightarrow> uuid \<Rightarrow> blobs \<times> cdb \<times> app_error option" where
  "DeleteAttachment e b d cid i =
     (case find_attachment e d cid i of
        (d, Inl err) \<Rightarrow> (b, d, Some err)
      | (d, Inr a) \<Rightarrow>
          if ch_fails e XBlobDelete then (b, d, Some (Internal ''storage''))
          else let b = b - {ca_ObjectKey a};
                   d = ch_interf e XAttDelete d
               in if ch_fails e XAttDelete then (b, d, Some (Internal ''challenges: delete attachment''))
                  else (b, DeleteAttachment_sql d i, None))"

text \<open>Opening gives the row; the object has to be there.\<close>

definition OpenAttachment :: "chal_env \<Rightarrow> blobs \<Rightarrow> cdb \<Rightarrow> uuid \<Rightarrow> uuid \<Rightarrow> cdb \<times> ChallengeAttachment result" where
  "OpenAttachment e b d cid i =
     (case find_attachment e d cid i of
        (d, Inl err) \<Rightarrow> (d, Inl err)
      | (d, Inr a) \<Rightarrow> if ch_fails e XBlobGet \<or> ca_ObjectKey a \<notin> b then (d, Inl (Internal ''storage'')) else (d, Inr a))"

end
