(* ===== verification/Challenge_Handlers.thy ===== *)
theory Challenge_Handlers
  imports Challenge_Admin Events_Service Manager Account_Handlers
begin

text \<open>
  The administration of challenges over HTTP: \<^verbatim>\<open>handlers/admin_challenges.go\<close>, with the mapping errors of
  \<^verbatim>\<open>handlers/admin_instances.go\<close>.

  The caller is checked against the store of accounts, which the other services only read; the instance manager works on
  the relational part of the store (\<open>lift_db\<close>). A handler returns which recomputation of the scoreboard it asked for.
  Audit entries are best effort and not modelled; of a multipart body the first part is given.
\<close>

datatype board_job = NoRecompute | Recompute_guarded | Recompute_force

definition admin_check :: "user_env \<Rightarrow> acct \<Rightarrow> Identity option \<Rightarrow> app_error option" where
  "admin_check ue w identity = (case snd (requireAdmin ue w identity) of Inl err \<Rightarrow> Some err | Inr _ \<Rightarrow> None)"

subsection \<open>Reading\<close>

definition AdminListChallenges ::
  "user_env \<Rightarrow> acct \<Rightarrow> chal_env \<Rightarrow> cdb \<Rightarrow> Identity option \<Rightarrow> int option \<Rightarrow> int option \<Rightarrow> string option \<Rightarrow> bool option \<Rightarrow>
   string option \<Rightarrow> cdb \<times> (Full list \<times> int \<times> Params) result" where
  "AdminListChallenges ue w e d identity page perPage category visible kind =
     (case admin_check ue w identity of
        Some err \<Rightarrow> (d, Inl err)
      | None \<Rightarrow>
          let p = Normalize page perPage
          in (case Challenge_ListAdmin e d (Limit p) (Offset p) category visible kind of
                (d, Inl err) \<Rightarrow> (d, Inl err)
              | (d, Inr (items, n)) \<Rightarrow> (d, Inr (items, n, p))))"

definition AdminGetChallenge :: "user_env \<Rightarrow> acct \<Rightarrow> chal_env \<Rightarrow> cdb \<Rightarrow> Identity option \<Rightarrow> uuid \<Rightarrow> cdb \<times> Full result" where
  "AdminGetChallenge ue w e d identity i =
     (case admin_check ue w identity of Some err \<Rightarrow> (d, Inl err) | None \<Rightarrow> GetAdmin e d i)"

subsection \<open>Creating and updating\<close>

text \<open>The body of a creation: pointers are options.\<close>

record ChallengeCreateBody =
  bb_Slug :: "string option"
  bb_Title :: string
  bb_Category :: string
  bb_Description :: "string option"
  bb_Difficulty :: "string option"
  bb_Kind :: "string option"
  bb_Type :: "string option"
  bb_TypeConfig :: "config option"
  bb_Flag :: string
  bb_FlagCaseInsensitive :: "bool option"
  bb_Scoring :: "string option"
  bb_PointsInitial :: int
  bb_PointsMin :: "int option"
  bb_Decay :: "int option"
  bb_MaxAttempts :: "int option"
  bb_Visible :: "bool option"
  bb_Image :: "string option"
  bb_InternalPort :: "int option"
  bb_MemLimitMb :: "int option"
  bb_CpuMillis :: "int option"
  bb_ContainerEnv :: "config option"
  bb_ConnectionTemplate :: "string option"
  bb_Instancing :: "string option"
  bb_FlagMode :: "string option"
  bb_InstanceTtlSeconds :: "int option"
  bb_Egress :: "bool option"
  bb_WritablePaths :: "string list option"

definition create_input :: "ChallengeCreateBody \<Rightarrow> CreateInput" where
  "create_input b =
     \<lparr>ci_Slug = bb_Slug b, ci_Title = bb_Title b, ci_Category = bb_Category b, ci_Description = coalesce (bb_Description b) [],
      ci_Difficulty = bb_Difficulty b, ci_Kind = coalesce (bb_Kind b) [], ci_Type = coalesce (bb_Type b) [],
      ci_TypeConfig = coalesce (bb_TypeConfig b) [], ci_Flag = bb_Flag b,
      ci_FlagCaseInsensitive = coalesce (bb_FlagCaseInsensitive b) False, ci_Scoring = coalesce (bb_Scoring b) [],
      ci_PointsInitial = bb_PointsInitial b, ci_PointsMin = bb_PointsMin b, ci_Decay = bb_Decay b,
      ci_MaxAttempts = bb_MaxAttempts b, ci_Visible = coalesce (bb_Visible b) False, ci_Image = bb_Image b,
      ci_InternalPort = bb_InternalPort b, ci_MemLimitMB = bb_MemLimitMb b, ci_CPUMillis = bb_CpuMillis b,
      ci_ContainerEnv = coalesce (bb_ContainerEnv b) [], ci_ConnectionTemplate = bb_ConnectionTemplate b,
      ci_Instancing = coalesce (bb_Instancing b) [], ci_FlagMode = coalesce (bb_FlagMode b) [],
      ci_InstanceTTLSeconds = bb_InstanceTtlSeconds b, ci_Egress = bb_Egress b,
      ci_WritablePaths = coalesce (bb_WritablePaths b) []\<rparr>"

definition AdminCreateChallenge ::
  "user_env \<Rightarrow> acct \<Rightarrow> chal_env \<Rightarrow> cdb \<Rightarrow> Identity option \<Rightarrow> ChallengeCreateBody option \<Rightarrow> cdb \<times> board_job \<times> Full result" where
  "AdminCreateChallenge ue w e d identity body =
     (case admin_check ue w identity of
        Some err \<Rightarrow> (d, NoRecompute, Inl err)
      | None \<Rightarrow>
          (case body of
             None \<Rightarrow> (d, NoRecompute, Inl ErrBadRequest)
           | Some b \<Rightarrow>
               (case Challenge_Create e d (create_input b) of
                  (d, Inl err) \<Rightarrow> (d, NoRecompute, Inl err)
                | (d, Inr c) \<Rightarrow>
                    (case GetAdmin e d (c_ID c) of
                       (d, Inl err) \<Rightarrow> (d, NoRecompute, Inl err)
                     | (d, Inr f) \<Rightarrow> (d, Recompute_guarded, Inr f)))))"

text \<open>A patch: every field is an option; a present nullable field sets its flag, so none can be cleared.\<close>

record ChallengeUpdateBody =
  bu_Slug :: "string option"
  bu_Title :: "string option"
  bu_Category :: "string option"
  bu_Description :: "string option"
  bu_Difficulty :: "string option"
  bu_Flag :: "string option"
  bu_FlagCaseInsensitive :: "bool option"
  bu_Scoring :: "string option"
  bu_Type :: "string option"
  bu_TypeConfig :: "config option"
  bu_PointsInitial :: "int option"
  bu_PointsMin :: "int option"
  bu_Decay :: "int option"
  bu_MaxAttempts :: "int option"
  bu_Visible :: "bool option"
  bu_Image :: "string option"
  bu_InternalPort :: "int option"
  bu_MemLimitMb :: "int option"
  bu_CpuMillis :: "int option"
  bu_ContainerEnv :: "config option"
  bu_ConnectionTemplate :: "string option"
  bu_Instancing :: "string option"
  bu_FlagMode :: "string option"
  bu_InstanceTtlSeconds :: "int option"
  bu_Egress :: "bool option"
  bu_WritablePaths :: "string list option"

definition update_patch :: "ChallengeUpdateBody \<Rightarrow> ChallengePatch" where
  "update_patch b =
     \<lparr>cp_Slug = bu_Slug b, cp_Title = bu_Title b, cp_Category = bu_Category b, cp_Description = bu_Description b,
      cp_SetDifficulty = (bu_Difficulty b \<noteq> None), cp_Difficulty = bu_Difficulty b, cp_Flag = bu_Flag b,
      cp_FlagCaseInsensitive = bu_FlagCaseInsensitive b, cp_Scoring = bu_Scoring b, cp_Type = bu_Type b,
      cp_TypeConfig = bu_TypeConfig b, cp_PointsInitial = bu_PointsInitial b,
      cp_SetPointsMin = (bu_PointsMin b \<noteq> None), cp_PointsMin = bu_PointsMin b,
      cp_SetDecay = (bu_Decay b \<noteq> None), cp_Decay = bu_Decay b,
      cp_SetMaxAttempts = (bu_MaxAttempts b \<noteq> None), cp_MaxAttempts = bu_MaxAttempts b, cp_Visible = bu_Visible b,
      cp_SetImage = (bu_Image b \<noteq> None), cp_Image = bu_Image b,
      cp_SetInternalPort = (bu_InternalPort b \<noteq> None), cp_InternalPort = bu_InternalPort b,
      cp_MemLimitMB = bu_MemLimitMb b, cp_CPUMillis = bu_CpuMillis b, cp_ContainerEnv = bu_ContainerEnv b,
      cp_SetConnectionTmpl = (bu_ConnectionTemplate b \<noteq> None), cp_ConnectionTemplate = bu_ConnectionTemplate b,
      cp_Instancing = bu_Instancing b, cp_FlagMode = bu_FlagMode b,
      cp_SetInstanceTTL = (bu_InstanceTtlSeconds b \<noteq> None), cp_InstanceTTLSeconds = bu_InstanceTtlSeconds b,
      cp_Egress = bu_Egress b, cp_WritablePaths = bu_WritablePaths b\<rparr>"

definition AdminUpdateChallenge ::
  "user_env \<Rightarrow> acct \<Rightarrow> chal_env \<Rightarrow> cdb \<Rightarrow> Identity option \<Rightarrow> uuid \<Rightarrow> ChallengeUpdateBody option \<Rightarrow> cdb \<times> board_job \<times> Full result" where
  "AdminUpdateChallenge ue w e d identity i body =
     (case admin_check ue w identity of
        Some err \<Rightarrow> (d, NoRecompute, Inl err)
      | None \<Rightarrow>
          (case body of
             None \<Rightarrow> (d, NoRecompute, Inl ErrBadRequest)
           | Some b \<Rightarrow>
               (case Challenge_Update e d i (update_patch b) of
                  (d, Inl err) \<Rightarrow> (d, NoRecompute, Inl err)
                | (d, Inr c) \<Rightarrow>
                    (case GetAdmin e d (c_ID c) of
                       (d, Inl err) \<Rightarrow> (d, NoRecompute, Inl err)
                     | (d, Inr f) \<Rightarrow> (d, Recompute_force, Inr f)))))"

subsection \<open>Deleting\<close>

definition mapRuntimeErr :: "app_error \<Rightarrow> app_error" where
  "mapRuntimeErr err = (if IsUnavailable err then Unavailable ''the container runtime is unavailable'' 0 else err)"

text \<open>The result of an operation on the relational part of a store.\<close>

definition lift_db :: "cdb \<Rightarrow> db \<Rightarrow> cdb" where
  "lift_db d d' = db.extend d' (db.more d)"

definition destroyInstanceIfAny ::
  "'s runtime option \<Rightarrow> world \<Rightarrow> 's \<Rightarrow> cdb \<Rightarrow> uuid \<Rightarrow> 's \<times> cdb \<times> app_error option" where
  "destroyInstanceIfAny rt w s d i =
     (case rt of
        None \<Rightarrow> (s, d, None)
      | Some rt \<Rightarrow>
          (case DestroyForChallenge rt w s (db.truncate d) i of
             (s, d', Inl err) \<Rightarrow> (s, lift_db d d', if IsUnavailable err then None else Some (mapRuntimeErr err))
           | (s, d', Inr _) \<Rightarrow> (s, lift_db d d', None)))"

text \<open>A failing read of the event counts as not running.\<close>

definition AdminDeleteChallenge ::
  "user_env \<Rightarrow> acct \<Rightarrow> chal_env \<Rightarrow> 's runtime option \<Rightarrow> world \<Rightarrow> time \<Rightarrow> bool \<Rightarrow> 's \<Rightarrow> cdb \<Rightarrow> Identity option \<Rightarrow> uuid \<Rightarrow>
   bool option \<Rightarrow> 's \<times> cdb \<times> board_job \<times> app_error option" where
  "AdminDeleteChallenge ue aw e rt w now event_fails s d identity i confirm =
     (case admin_check ue aw identity of
        Some err \<Rightarrow> (s, d, NoRecompute, Some err)
      | None \<Rightarrow>
          let running = (case events_Get event_fails (db.truncate d) of Inl _ \<Rightarrow> False | Inr v \<Rightarrow> phase now v = PhaseRunning)
          in (case destroyInstanceIfAny rt w s d i of
                (s, d, Some err) \<Rightarrow> (s, d, NoRecompute, Some err)
              | (s, d, None) \<Rightarrow>
                  (case Challenge_Delete e d i running (confirm = Some True) of
                     (d, Some err) \<Rightarrow> (s, d, NoRecompute, Some err)
                   | (d, None) \<Rightarrow> (s, d, Recompute_force, None))))"

subsection \<open>Attachments\<close>

record upload_part =
  pa_FormName :: string
  pa_FileName :: string
  pa_ContentType :: string
  pa_Bytes :: nat
  pa_ReadFails :: bool

definition AdminUploadAttachment ::
  "user_env \<Rightarrow> acct \<Rightarrow> chal_env \<Rightarrow> int \<Rightarrow> bool \<Rightarrow> blobs \<Rightarrow> cdb \<Rightarrow> Identity option \<Rightarrow> uuid \<Rightarrow> upload_part option option \<Rightarrow>
   blobs \<times> cdb \<times> ChallengeAttachment result" where
  "AdminUploadAttachment ue w e maxMB landed b d identity i body =
     (case admin_check ue w identity of
        Some err \<Rightarrow> (b, d, Inl err)
      | None \<Rightarrow>
          (case body of
             None \<Rightarrow> (b, d, Inl ErrBadRequest)
           | Some None \<Rightarrow> (b, d, Inl ErrBadRequest)
           | Some (Some p) \<Rightarrow>
               if pa_FormName p \<noteq> ''file'' then (b, d, Inl ErrBadRequest)
               else if pa_FileName p = [] then (b, d, Inl ErrBadRequest)
               else let maxBytes = maxMB * 1024 * 1024;
                        buf = min (int (pa_Bytes p)) (max 0 (maxBytes + 1))
                    in if pa_ReadFails p then (b, d, Inl (Internal ''challenges: reading upload''))
                       else if buf > maxBytes
                       then (b, d, Inl (Validation (Validation_Add [] ''file'' (''exceeds the '' @ itoa (nat maxMB) @ '' MB limit''))))
                       else UploadAttachment e landed b d i (pa_FileName p) (pa_ContentType p) buf))"

definition AdminDeleteAttachment ::
  "user_env \<Rightarrow> acct \<Rightarrow> chal_env \<Rightarrow> blobs \<Rightarrow> cdb \<Rightarrow> Identity option \<Rightarrow> uuid \<Rightarrow> uuid \<Rightarrow> blobs \<times> cdb \<times> app_error option" where
  "AdminDeleteAttachment ue w e b d identity i aid =
     (case admin_check ue w identity of
        Some err \<Rightarrow> (b, d, Some err)
      | None \<Rightarrow> DeleteAttachment e b d i aid)"

end
