(* ===== verification/Challenge_Board.thy ===== *)
theory Challenge_Board
  imports Challenge_Admin Events_Service Teams Manager Http_Gate
begin

text \<open>
  What participants see: \<^verbatim>\<open>internal/challenges/participant.go\<close>, the freeze of public solve lists
  (\<^verbatim>\<open>handlers/guards.go\<close>) and the pages of challenges, teams and users (\<^verbatim>\<open>handlers/challenges.go\<close>, \<^verbatim>\<open>teams.go\<close>,
  \<^verbatim>\<open>users.go\<close>, \<^verbatim>\<open>challenge_mappers.go\<close>).

  The pages only read. Every statement names a call, reads the database \<open>be_db\<close> of its moment and may fail; calls
  made once per challenge carry its id. The caller is an identity of the authentication gate; his rights and his team
  are read through the services of accounts, over the store \<open>be_acct\<close>. The last freeze decision read is the server's
  one piece of state.
\<close>

subsection \<open>Queries\<close>

record ListTeamSolvesRow =
  ts_ChallengeID :: uuid
  ts_SolvedAt :: time
  ts_Username :: string
  ts_Slug :: string
  ts_Title :: string
  ts_Category :: string

definition ListVisibleChallenges :: "(string \<Rightarrow> nat) \<Rightarrow> 'a db_scheme \<Rightarrow> Challenge list" where
  "ListVisibleChallenges coll d =
     sort_key (\<lambda>c. coll (c_Category c)) (sort_key c_PointsInitial (sort_key (\<lambda>c. coll (c_Title c))
       (filter c_Visible (challenges d))))"

text \<open>The joins with \<^verbatim>\<open>users\<close> and \<^verbatim>\<open>challenges\<close>; the list of a user has no name column.\<close>

definition solve_row :: "'a db_scheme \<Rightarrow> bool \<Rightarrow> Submission \<Rightarrow> ListTeamSolvesRow option" where
  "solve_row d named s =
     (case (List.find (\<lambda>u. u_ID u = s_UserID s) (users d), List.find (\<lambda>c. c_ID c = s_ChallengeID s) (challenges d)) of
        (u, Some c) \<Rightarrow>
          if s_Correct s \<and> c_Visible c \<and> (named \<longrightarrow> u \<noteq> None)
          then Some \<lparr>ts_ChallengeID = s_ChallengeID s, ts_SolvedAt = s_CreatedAt s,
                 ts_Username = (if named then u_Username (the u) else []), ts_Slug = c_Slug c, ts_Title = c_Title c,
                 ts_Category = c_Category c\<rparr>
          else None
      | (_, None) \<Rightarrow> None)"

definition ListTeamSolves :: "'a db_scheme \<Rightarrow> uuid \<Rightarrow> ListTeamSolvesRow list" where
  "ListTeamSolves d tid =
     sort_key ts_SolvedAt (List.map_filter (solve_row d True) (filter (\<lambda>s. s_TeamID s = tid) (submissions d)))"

definition ListUserSolves :: "'a db_scheme \<Rightarrow> uuid \<Rightarrow> ListTeamSolvesRow list" where
  "ListUserSolves d uid =
     sort_key ts_SolvedAt (List.map_filter (solve_row d False) (filter (\<lambda>s. s_UserID s = uid) (submissions d)))"

record ListPublicTeamsRow =
  pt_ID :: uuid
  pt_Name :: string
  pt_Banned :: bool
  pt_MemberCount :: int

definition ListPublicTeams :: "'a db_scheme \<Rightarrow> ListPublicTeamsRow list" where
  "ListPublicTeams d =
     map (\<lambda>t. \<lparr>pt_ID = t_ID t, pt_Name = t_Name t, pt_Banned = t_Banned t,
               pt_MemberCount = int (length (filter (\<lambda>m. m_TeamID m = t_ID t) (team_members d)))\<rparr>)
       (sort_key t_CreatedAt (filter (\<lambda>t. \<not> t_Hidden t) (teams d)))"

subsection \<open>The environment of a page\<close>

datatype board_call =
    BEvent | BList | BSolves uuid | BSolved uuid | BAttempts | BSlug | BAtts | BByID uuid | BValueSolves uuid | BInstance uuid
  | BTeam | BTeamSolves | BUserSolves | BMember | BCode | BPublic | BAttGet | BBlob

record board_env =
  be_fails :: "board_call \<Rightarrow> bool"
  be_db :: "board_call \<Rightarrow> cdb"
  be_users :: user_env
  be_acct :: acct
  be_modes :: Registry
  be_coll :: "string \<Rightarrow> nat"
  be_runtime :: "Manager option"
  be_events :: bool
  be_blobs :: blobs

text \<open>A statement of a page on the database of its moment.\<close>

definition ask :: "board_env \<Rightarrow> board_call \<Rightarrow> string \<Rightarrow> (cdb \<Rightarrow> 'a) \<Rightarrow> 'a result" where
  "ask e c what q = (if be_fails e c then Inl (Internal what) else Inr (q (be_db e c)))"

definition bind_result :: "'a result \<Rightarrow> ('a \<Rightarrow> 'b result) \<Rightarrow> 'b result" where
  "bind_result r f = (case r of Inl err \<Rightarrow> Inl err | Inr x \<Rightarrow> f x)"

definition admin_view :: "board_env \<Rightarrow> Identity option \<Rightarrow> bool result" where
  "admin_view e identity = snd (callerIsAdmin (be_users e) (be_acct e) identity)"

definition team_view :: "board_env \<Rightarrow> uuid \<Rightarrow> TeamRef option result" where
  "team_view e uid = snd (TeamOf (be_users e) (be_acct e) uid)"

text \<open>\<^verbatim>\<open>uuid.Nil\<close> for no team is \<open>None\<close>.\<close>

definition teamIDOrNil :: "board_env \<Rightarrow> uuid \<Rightarrow> uuid option" where
  "teamIDOrNil e uid = (case team_view e uid of Inl _ \<Rightarrow> None | Inr None \<Rightarrow> None | Inr (Some t) \<Rightarrow> Some (tr_ID t))"

definition callerID :: "Identity option \<Rightarrow> uuid option" where
  "callerID identity = (case requireUser identity of Inl _ \<Rightarrow> None | Inr i \<Rightarrow> Some (id_UserID i))"

definition member_view :: "board_env \<Rightarrow> board_call \<Rightarrow> uuid \<Rightarrow> uuid \<Rightarrow> bool result" where
  "member_view e c tid uid = IsMember (\<lambda>_. be_fails e c) (db.truncate (be_db e c)) tid uid"

subsection \<open>The service\<close>

definition CurrentPoints :: "Registry \<Rightarrow> Challenge \<Rightarrow> int \<Rightarrow> int" where
  "CurrentPoints reg c solves =
     Value reg (c_Scoring c)
       \<lparr>Initial = c_PointsInitial c, Minimum = (case c_PointsMin c of Some m \<Rightarrow> m | None \<Rightarrow> 0),
        Decay = (case c_Decay c of Some k \<Rightarrow> k | None \<Rightarrow> 0)\<rparr> solves"

record BoardEntry =
  bo_Challenge :: Challenge
  bo_Points :: int
  bo_Solves :: int
  bo_SolvedByMe :: bool

definition count_solves :: "board_env \<Rightarrow> board_call \<Rightarrow> string \<Rightarrow> uuid \<Rightarrow> int result" where
  "count_solves e c what cid = ask e c what (\<lambda>d. CountChallengeSolves (db.truncate d) cid)"

definition solved_check :: "board_env \<Rightarrow> uuid \<Rightarrow> uuid option \<Rightarrow> bool result" where
  "solved_check e cid team =
     (case team of
        None \<Rightarrow> Inr False
      | Some t \<Rightarrow> ask e (BSolved cid) ''challenges: solved check'' (\<lambda>d. HasTeamSolved (db.truncate d) cid t))"

definition board_entry :: "board_env \<Rightarrow> uuid option \<Rightarrow> Challenge \<Rightarrow> BoardEntry result" where
  "board_entry e team c =
     bind_result (count_solves e (BSolves (c_ID c)) ''challenges: counting solves'' (c_ID c)) (\<lambda>n.
     bind_result (solved_check e (c_ID c) team) (\<lambda>solved.
       Inr \<lparr>bo_Challenge = c, bo_Points = CurrentPoints (be_modes e) c n, bo_Solves = n, bo_SolvedByMe = solved\<rparr>))"

fun map_result :: "('a \<Rightarrow> 'b result) \<Rightarrow> 'a list \<Rightarrow> 'b list result" where
  "map_result f [] = Inr []"
| "map_result f (x # xs) = bind_result (f x) (\<lambda>y. bind_result (map_result f xs) (\<lambda>ys. Inr (y # ys)))"

definition ListVisible :: "board_env \<Rightarrow> uuid option \<Rightarrow> BoardEntry list result" where
  "ListVisible e team =
     bind_result (ask e BList ''challenges: listing visible'' (ListVisibleChallenges (be_coll e))) (map_result (board_entry e team))"

record Detail =
  de_Entry :: BoardEntry
  de_Attachments :: "ChallengeAttachment list"
  de_AttemptsUsed :: int

definition Challenge_GetBySlug :: "board_env \<Rightarrow> string \<Rightarrow> Challenge result" where
  "Challenge_GetBySlug e slug =
     bind_result (ask e BSlug ''challenges: get by slug'' (\<lambda>d. GetChallengeBySlug (db.truncate d) slug)) (\<lambda>r.
       case r of None \<Rightarrow> Inl ErrNotFound | Some c \<Rightarrow> Inr c)"

definition Challenge_GetByID :: "board_env \<Rightarrow> uuid \<Rightarrow> Challenge result" where
  "Challenge_GetByID e cid =
     bind_result (ask e (BByID cid) ''challenges: get by id'' (\<lambda>d. GetChallengeByID (db.truncate d) cid)) (\<lambda>r.
       case r of None \<Rightarrow> Inl ErrNotFound | Some c \<Rightarrow> Inr c)"

definition GetVisibleDetail :: "board_env \<Rightarrow> string \<Rightarrow> uuid option \<Rightarrow> Detail result" where
  "GetVisibleDetail e slug team =
     bind_result (Challenge_GetBySlug e slug) (\<lambda>c.
       if \<not> c_Visible c then Inl ErrNotFound
       else bind_result (count_solves e (BSolves (c_ID c)) ''challenges: counting solves'' (c_ID c)) (\<lambda>n.
            bind_result (ask e BAtts ''challenges: listing attachments'' (\<lambda>d. ListAttachments (be_coll e) d (c_ID c))) (\<lambda>atts.
            bind_result (solved_check e (c_ID c) team) (\<lambda>solved.
            bind_result (case team of
                 None \<Rightarrow> Inr 0
               | Some t \<Rightarrow> ask e BAttempts ''challenges: counting attempts'' (\<lambda>d. CountTeamAttempts (db.truncate d) (c_ID c) t)) (\<lambda>k.
              Inr \<lparr>de_Entry = \<lparr>bo_Challenge = c, bo_Points = CurrentPoints (be_modes e) c n, bo_Solves = n, bo_SolvedByMe = solved\<rparr>,
                   de_Attachments = atts, de_AttemptsUsed = k\<rparr>)))))"

text \<open>Here a missing row is an internal error too.\<close>

definition CurrentValue :: "board_env \<Rightarrow> uuid \<Rightarrow> int result" where
  "CurrentValue e cid =
     bind_result (ask e (BByID cid) ''challenges: current value'' (\<lambda>d. GetChallengeByID (db.truncate d) cid)) (\<lambda>r.
       case r of
         None \<Rightarrow> Inl (Internal ''challenges: current value'')
       | Some c \<Rightarrow>
           bind_result (count_solves e (BValueSolves cid) ''challenges: current value solve count'' cid) (\<lambda>n.
             Inr (CurrentPoints (be_modes e) c n)))"

subsection \<open>The freeze of solve lists\<close>

record freezeSnapshot =
  fs_frozen :: bool
  fs_freezeAt :: "time option"

text \<open>The answer is \<^verbatim>\<open>(frozen, freezeAt)\<close>, or \<open>None\<close> when nothing is known; \<^verbatim>\<open>time.Time{}\<close> is \<open>None\<close>.\<close>

definition freezeState :: "Event result \<Rightarrow> time \<Rightarrow> freezeSnapshot option \<Rightarrow> freezeSnapshot option \<times> (bool \<times> time option) option" where
  "freezeState ev now cache =
     (case ev of
        Inl _ \<Rightarrow> (cache, map_option (\<lambda>l. (fs_frozen l, fs_freezeAt l)) cache)
      | Inr v \<Rightarrow> (Some \<lparr>fs_frozen = Frozen now v, fs_freezeAt = e_FreezeAt v\<rparr>, Some (Frozen now v, e_FreezeAt v)))"

definition board_event :: "board_env \<Rightarrow> Event result" where
  "board_event e = events_Get (be_fails e BEvent) (db.truncate (be_db e BEvent))"

definition freezeHidesSolvesAfter ::
  "board_env \<Rightarrow> time \<Rightarrow> freezeSnapshot option \<Rightarrow> Identity option \<Rightarrow> uuid option \<Rightarrow> freezeSnapshot option \<times> bool \<times> time option" where
  "freezeHidesSolvesAfter e now cache identity resourceTeam =
     (if \<not> be_events e then (cache, True, None)
      else case freezeState (board_event e) now cache of
             (cache, None) \<Rightarrow> (cache, True, None)
           | (cache, Some (frozen, freezeAt)) \<Rightarrow>
               if \<not> frozen then (cache, False, None)
               else if admin_view e identity = Inr True then (cache, False, None)
               else if (case (resourceTeam, callerID identity) of
                          (Some t, Some uid) \<Rightarrow> member_view e BMember t uid = Inr True
                        | _ \<Rightarrow> False)
                    then (cache, False, None)
               else (cache, True, freezeAt))"

definition listed :: "bool \<Rightarrow> time option \<Rightarrow> ListTeamSolvesRow \<Rightarrow> bool" where
  "listed hide cutoff r \<longleftrightarrow> \<not> (hide \<and> \<not> (case cutoff of None \<Rightarrow> False | Some f \<Rightarrow> ts_SolvedAt r < f))"

subsection \<open>Pages of teams and users\<close>

record Solve =
  so_ChallengeID :: uuid
  so_Slug :: string
  so_Title :: string
  so_Category :: string
  so_Points :: int
  so_SolvedAt :: time
  so_Username :: "string option"

definition page_solve :: "board_env \<Rightarrow> bool \<Rightarrow> ListTeamSolvesRow \<Rightarrow> Solve result" where
  "page_solve e named r =
     bind_result (CurrentValue e (ts_ChallengeID r)) (\<lambda>pts.
       Inr \<lparr>so_ChallengeID = ts_ChallengeID r, so_Slug = ts_Slug r, so_Title = ts_Title r, so_Category = ts_Category r,
            so_Points = pts, so_SolvedAt = ts_SolvedAt r, so_Username = (if named then Some (ts_Username r) else None)\<rparr>)"

record TeamDetail =
  td_ID :: uuid
  td_Name :: string
  td_Members :: "uuid list"
  td_Points :: int
  td_Solves :: "Solve list"
  td_InviteCode :: "string option"

definition GetTeam_page ::
  "board_env \<Rightarrow> time \<Rightarrow> freezeSnapshot option \<Rightarrow> Identity option \<Rightarrow> uuid \<Rightarrow> freezeSnapshot option \<times> TeamDetail result" where
  "GetTeam_page e now cache identity tid =
     (case GetTeam (\<lambda>_. be_fails e BTeam) (db.truncate (be_db e BTeam)) tid of
        Inl err \<Rightarrow> (cache, Inl err)
      | Inr team \<Rightarrow>
          (case ask e BTeamSolves ''teams: solves'' (\<lambda>d. ListTeamSolves d tid) of
             Inl err \<Rightarrow> (cache, Inl err)
           | Inr rows \<Rightarrow>
               (case freezeHidesSolvesAfter e now cache identity (Some tid) of
                  (cache, hide, cutoff) \<Rightarrow>
                    (cache, bind_result (map_result (page_solve e True) (filter (listed hide cutoff) rows)) (\<lambda>solves.
                       bind_result (case callerID identity of
                            None \<Rightarrow> Inr False
                          | Some uid \<Rightarrow> member_view e BCode tid uid) (\<lambda>own.
                         Inr \<lparr>td_ID = tid, td_Name = t_Name (tv_Row team), td_Members = map m_UserID (tv_Members team),
                              td_Points = sum_list (map so_Points solves), td_Solves = solves,
                              td_InviteCode = (if own then Some (t_InviteCode (tv_Row team)) else None)\<rparr>))))))"

record PublicUser =
  pu_ID :: uuid
  pu_Username :: string
  pu_Solves :: "Solve list"
  pu_Team :: "(uuid \<times> string) option"

definition GetUser_page ::
  "board_env \<Rightarrow> time \<Rightarrow> freezeSnapshot option \<Rightarrow> Identity option \<Rightarrow> uuid \<Rightarrow> freezeSnapshot option \<times> PublicUser result" where
  "GetUser_page e now cache identity uid =
     (case snd (Users_Get (be_users e) UGet (be_acct e) uid) of
        Inl err \<Rightarrow> (cache, Inl err)
      | Inr u \<Rightarrow>
          if u_Hidden u \<and> admin_view e identity \<noteq> Inr True then (cache, Inl ErrNotFound)
          else case ask e BUserSolves ''users: solves'' (\<lambda>d. ListUserSolves d uid) of
                 Inl err \<Rightarrow> (cache, Inl err)
               | Inr rows \<Rightarrow>
                   (case team_view e uid of
                      Inl err \<Rightarrow> (cache, Inl err)
                    | Inr team \<Rightarrow>
                        (case freezeHidesSolvesAfter e now cache identity (map_option tr_ID team) of
                           (cache, hide, cutoff) \<Rightarrow>
                             (cache, bind_result (map_result (page_solve e False) (filter (listed hide cutoff) rows)) (\<lambda>solves.
                                Inr \<lparr>pu_ID = uid, pu_Username = u_Username u, pu_Solves = solves,
                                     pu_Team = map_option (\<lambda>t. (tr_ID t, tr_Name t)) team\<rparr>)))))"

definition ListTeams :: "board_env \<Rightarrow> (uuid \<times> string \<times> int) list result" where
  "ListTeams e =
     bind_result (ask e BPublic ''teams: public list'' ListPublicTeams) (\<lambda>rows.
       Inr (map (\<lambda>r. (pt_ID r, pt_Name r, pt_MemberCount r)) rows))"

subsection \<open>Instances of a challenge\<close>

text \<open>\<^verbatim>\<open>strings.NewReplacer\<close> on nonempty patterns: left to right, the first pattern that matches at a position.\<close>

fun Replacer :: "(string \<times> string) list \<Rightarrow> nat \<Rightarrow> string \<Rightarrow> string" where
  "Replacer ps skip [] = []"
| "Replacer ps (Suc skip) (c # cs) = Replacer ps skip cs"
| "Replacer ps 0 (c # cs) =
     (case List.find (\<lambda>(old, new). take (length old) (c # cs) = old) ps of
        None \<Rightarrow> c # Replacer ps 0 cs
      | Some (old, new) \<Rightarrow> new @ Replacer ps (length old - 1) cs)"

definition ConnectionInfo :: "Manager \<Rightarrow> Challenge \<Rightarrow> RInstance \<Rightarrow> string" where
  "ConnectionInfo m ch inst =
     (if n_State inst \<noteq> StateRunning \<or> n_HostPort inst = 0 then []
      else let tmpl = (case c_ConnectionTemplate ch of
                         None \<Rightarrow> ''nc {host} {port}''
                       | Some t \<Rightarrow> if t = [] then ''nc {host} {port}'' else t)
           in Replacer [(''{host}'', publicHost m), (''{port}'', itoa (nat (n_HostPort inst)))] 0 tmpl)"

definition nonempty :: "string \<Rightarrow> string option" where
  "nonempty s = (if s = [] then None else Some s)"

record TeamInstance =
  ti_ID :: uuid
  ti_State :: string
  ti_HostPort :: "int option"
  ti_StartedAt :: "time option"
  ti_ExpiresAt :: "time option"
  ti_Error :: "string option"
  ti_ConnectionInfo :: "string option"

definition toTeamInstance :: "Manager option \<Rightarrow> Challenge \<Rightarrow> RInstance \<Rightarrow> TeamInstance" where
  "toTeamInstance rt ch inst =
     \<lparr>ti_ID = n_ID inst, ti_State = n_State inst,
      ti_HostPort = (if n_HostPort inst = 0 then None else Some (n_HostPort inst)),
      ti_StartedAt = n_StartedAt inst, ti_ExpiresAt = n_ExpiresAt inst, ti_Error = nonempty (n_Err inst),
      ti_ConnectionInfo = (case rt of None \<Rightarrow> None | Some m \<Rightarrow> nonempty (ConnectionInfo m ch inst))\<rparr>"

text \<open>Here a failing statement and a missing row are both no instance.\<close>

definition InstanceForChallenge :: "board_env \<Rightarrow> uuid \<Rightarrow> RInstance option" where
  "InstanceForChallenge e cid =
     (if be_fails e (BInstance cid) then None
      else map_option rowToInstance (GetSharedInstance (db.truncate (be_db e (BInstance cid))) cid))"

definition team_instance :: "board_env \<Rightarrow> uuid \<Rightarrow> uuid \<Rightarrow> RInstance option" where
  "team_instance e cid tid =
     (if be_fails e (BInstance cid) then None
      else map_option rowToInstance (GetTeamInstance (db.truncate (be_db e (BInstance cid))) cid tid))"

subsection \<open>Pages of challenges\<close>

text \<open>The columns of a challenge that a participant's payload carries.\<close>

record PublicChallenge =
  pc_ID :: uuid
  pc_Slug :: string
  pc_Title :: string
  pc_Category :: string
  pc_Difficulty :: "string option"
  pc_Points :: int
  pc_Solves :: int
  pc_SolvedByMe :: bool
  pc_Kind :: string
  pc_Instancing :: string
  pc_HasInstance :: bool
  pc_ConnectionInfo :: "string option"

record PublicDetail = PublicChallenge +
  pc_FlagMode :: string
  pc_Description :: string
  pc_Attachments :: "(uuid \<times> string \<times> int) list"
  pc_MaxAttempts :: "int option"
  pc_AttemptsUsed :: int
  pc_Instance :: "TeamInstance option"

definition toChallenge :: "BoardEntry \<Rightarrow> PublicChallenge" where
  "toChallenge b =
     (let c = bo_Challenge b
      in \<lparr>pc_ID = c_ID c, pc_Slug = c_Slug c, pc_Title = c_Title c, pc_Category = c_Category c,
          pc_Difficulty = c_Difficulty c, pc_Points = bo_Points b, pc_Solves = bo_Solves b, pc_SolvedByMe = bo_SolvedByMe b,
          pc_Kind = c_Kind c, pc_Instancing = c_Instancing c, pc_HasInstance = False, pc_ConnectionInfo = None\<rparr>)"

definition toChallengeDetail :: "Detail \<Rightarrow> PublicDetail" where
  "toChallengeDetail x =
     (let c = bo_Challenge (de_Entry x)
      in PublicChallenge.extend (toChallenge (de_Entry x))
           \<lparr>pc_FlagMode = c_FlagMode c, pc_Description = c_Description c,
            pc_Attachments = map (\<lambda>a. (ca_ID a, ca_Filename a, ca_SizeBytes a)) (de_Attachments x),
            pc_MaxAttempts = c_MaxAttempts c, pc_AttemptsUsed = de_AttemptsUsed x, pc_Instance = None\<rparr>)"

definition enrichInstance :: "board_env \<Rightarrow> Challenge \<Rightarrow> PublicChallenge \<Rightarrow> PublicChallenge" where
  "enrichInstance e c out =
     (case be_runtime e of
        None \<Rightarrow> out
      | Some m \<Rightarrow>
          if c_Kind c \<noteq> ''container'' then out
          else case InstanceForChallenge e (c_ID c) of
                 None \<Rightarrow> out
               | Some inst \<Rightarrow>
                   out\<lparr>pc_HasInstance := True,
                       pc_ConnectionInfo := (case nonempty (ConnectionInfo m c inst) of
                          None \<Rightarrow> pc_ConnectionInfo out | Some ci \<Rightarrow> Some ci)\<rparr>)"

definition enrichDetailInstance :: "board_env \<Rightarrow> Challenge \<Rightarrow> uuid option \<Rightarrow> PublicDetail \<Rightarrow> PublicDetail" where
  "enrichDetailInstance e c team out =
     (if be_runtime e = None \<or> c_Kind c \<noteq> ''container'' then out
      else case (if c_Instancing c = ''per_team''
                 then (case team of None \<Rightarrow> None | Some t \<Rightarrow> team_instance e (c_ID c) t)
                 else InstanceForChallenge e (c_ID c)) of
             None \<Rightarrow> out
           | Some inst \<Rightarrow>
               let ti = toTeamInstance (be_runtime e) c inst
               in out\<lparr>pc_Instance := Some ti, pc_HasInstance := True, pc_ConnectionInfo := ti_ConnectionInfo ti\<rparr>)"

definition eventStarted :: "board_env \<Rightarrow> time \<Rightarrow> Identity option \<Rightarrow> bool result" where
  "eventStarted e now identity =
     bind_result (board_event e) (\<lambda>v. if phase now v \<noteq> PhasePre then Inr True else admin_view e identity)"

definition started :: "board_env \<Rightarrow> time \<Rightarrow> Identity option \<Rightarrow> Identity result" where
  "started e now identity =
     bind_result (requireUser identity) (\<lambda>i.
     bind_result (eventStarted e now identity) (\<lambda>ok.
       if \<not> ok then Inl (Forbidden ''the event has not started yet'') else Inr i))"

definition ListChallenges :: "board_env \<Rightarrow> time \<Rightarrow> Identity option \<Rightarrow> PublicChallenge list result" where
  "ListChallenges e now identity =
     bind_result (started e now identity) (\<lambda>i.
     bind_result (ListVisible e (teamIDOrNil e (id_UserID i))) (\<lambda>entries.
       Inr (map (\<lambda>b. enrichInstance e (bo_Challenge b) (toChallenge b)) entries)))"

definition GetChallenge :: "board_env \<Rightarrow> time \<Rightarrow> Identity option \<Rightarrow> string \<Rightarrow> PublicDetail result" where
  "GetChallenge e now identity slug =
     bind_result (started e now identity) (\<lambda>i.
       let team = teamIDOrNil e (id_UserID i)
       in bind_result (GetVisibleDetail e slug team) (\<lambda>x.
            Inr (enrichDetailInstance e (bo_Challenge (de_Entry x)) team (toChallengeDetail x))))"

text \<open>The download gives the attachment's row; its object has to be there.\<close>

definition DownloadAttachment ::
  "board_env \<Rightarrow> time \<Rightarrow> Identity option \<Rightarrow> string \<Rightarrow> uuid \<Rightarrow> ChallengeAttachment result" where
  "DownloadAttachment e now identity slug aid =
     bind_result (started e now identity) (\<lambda>i.
     bind_result (Challenge_GetBySlug e slug) (\<lambda>c.
       if \<not> c_Visible c \<and> admin_view e identity \<noteq> Inr True then Inl ErrNotFound
       else bind_result (ask e BAttGet ''challenges: get attachment'' (\<lambda>d. GetAttachment d aid (c_ID c))) (\<lambda>r.
              case r of
                None \<Rightarrow> Inl ErrNotFound
              | Some a \<Rightarrow>
                  if be_fails e BBlob \<or> ca_ObjectKey a \<notin> be_blobs e then Inl (Internal ''storage'') else Inr a)))"

end
