(* ===== verification/Challenge_Board_Safety.thy ===== *)
theory Challenge_Board_Safety
  imports Challenge_Board Scoreboard_Compute Login_Races
begin

text \<open>
  What the pages of participants reveal. They depend on the public view of the database only, in which invisible
  challenges, flags and other secrets do not exist; during a freeze the solve lists shown to outsiders depend on the
  solves before the freeze only; and the value shown for a challenge against the value the scoreboard uses.
\<close>

subsection \<open>The public view\<close>

definition public_challenge :: "Challenge \<Rightarrow> Challenge" where
  "public_challenge c = c\<lparr>c_Flag := [], c_FlagCaseInsensitive := False, c_Image := None, c_InternalPort := None,
     c_MemLimitMb := 0, c_CpuMillis := 0, c_ContainerEnv := [], c_CreatedAt := 0, c_UpdatedAt := 0,
     c_InstanceTtlSeconds := None, c_Egress := True, c_WritablePaths := [], c_Type := [], c_TypeConfig := []\<rparr>"

definition public_view :: "cdb \<Rightarrow> cdb" where
  "public_view d = d\<lparr>
     challenges := map public_challenge (filter c_Visible (challenges d)),
     submissions := map (\<lambda>s. s\<lparr>s_Provided := [], s_Ip := None, s_ScoredValue := None, s_ScoredBy := None\<rparr>) (submissions d),
     instances := map (\<lambda>n. n\<lparr>i_Flag := None\<rparr>) (instances d),
     challenge_attachments := filter (\<lambda>a. \<exists>c\<in>set (challenges d). c_Visible c \<and> c_ID c = ca_ChallengeID a) (challenge_attachments d)\<rparr>"

definition with_db :: "board_env \<Rightarrow> cdb \<Rightarrow> board_env" where
  "with_db e d = e\<lparr>be_db := \<lambda>c. d\<rparr>"

lemma with_db_simps [simp]:
  "be_db (with_db e d) c = d" "be_fails (with_db e d) = be_fails e" "be_users (with_db e d) = be_users e"
  "be_acct (with_db e d) = be_acct e" "be_modes (with_db e d) = be_modes e" "be_coll (with_db e d) = be_coll e"
  "be_runtime (with_db e d) = be_runtime e" "be_events (with_db e d) = be_events e" "be_blobs (with_db e d) = be_blobs e"
  by (simp_all add: with_db_def)

lemma public_challenge_simps [simp]:
  "c_ID (public_challenge c) = c_ID c" "c_Slug (public_challenge c) = c_Slug c" "c_Title (public_challenge c) = c_Title c"
  "c_Category (public_challenge c) = c_Category c" "c_Visible (public_challenge c) = c_Visible c"
  "c_PointsInitial (public_challenge c) = c_PointsInitial c" "c_Kind (public_challenge c) = c_Kind c"
  "c_Instancing (public_challenge c) = c_Instancing c" "c_FlagMode (public_challenge c) = c_FlagMode c"
  "c_Difficulty (public_challenge c) = c_Difficulty c" "c_Description (public_challenge c) = c_Description c"
  "c_MaxAttempts (public_challenge c) = c_MaxAttempts c" "CurrentPoints reg (public_challenge c) n = CurrentPoints reg c n"
  "ConnectionInfo m (public_challenge c) inst = ConnectionInfo m c inst"
  by (simp_all add: public_challenge_def CurrentPoints_def ConnectionInfo_def)

lemma find_filter_key:
  assumes "distinct (map f xs)"
  shows "List.find (\<lambda>x. f x = k) (filter V xs) =
    (case List.find (\<lambda>x. f x = k) xs of None \<Rightarrow> None | Some x \<Rightarrow> if V x then Some x else None)"
  using assms
proof (induction xs)
  case (Cons x xs)
  have "List.find (\<lambda>x. f x = k) xs = None" if "f x = k"
    using Cons.prems that by (auto simp: find_None_iff) (metis imageI)
  with Cons show ?case by auto
qed simp

lemma find_map_same_key:
  "(\<And>x. f (g x) = f x) \<Longrightarrow> List.find (\<lambda>x. f x = k) (map g xs) = map_option g (List.find (\<lambda>x. f x = k) xs)"
  by (induction xs) auto

lemma sort_key_map_key: "(\<And>x. f (g x) = f x) \<Longrightarrow> sort_key f (map g xs) = map g (sort_key f xs)"
proof (induction xs)
  case (Cons x xs)
  have "insort_key f (g x) (map g ys) = map g (insort_key f x ys)" for ys
    using Cons.prems by (induction ys) auto
  with Cons show ?case by simp
qed simp

subsection \<open>The queries on the public view\<close>

lemma ListVisible_public [simp]: "ListVisibleChallenges coll (public_view d) = map public_challenge (ListVisibleChallenges coll d)"
  by (simp add: ListVisibleChallenges_def public_view_def filter_map o_def sort_key_map_key)

lemma by_slug_public:
  assumes "distinct (map c_Slug (challenges d))"
  shows "GetChallengeBySlug (db.truncate (public_view d)) slug =
    (case GetChallengeBySlug (db.truncate d) slug of
       None \<Rightarrow> None | Some c \<Rightarrow> if c_Visible c then Some (public_challenge c) else None)"
  by (simp add: GetChallengeBySlug_def public_view_def db.truncate_def find_map_same_key find_filter_key [OF assms] split: option.splits)

lemma by_id_public:
  assumes "distinct (map c_ID (challenges d))"
  shows "GetChallengeByID (db.truncate (public_view d)) i =
    (case GetChallengeByID (db.truncate d) i of
       None \<Rightarrow> None | Some c \<Rightarrow> if c_Visible c then Some (public_challenge c) else None)"
  by (simp add: GetChallengeByID_def public_view_def db.truncate_def find_map_same_key find_filter_key [OF assms] split: option.splits)

lemma counts_public [simp]:
  "CountChallengeSolves (db.truncate (public_view d)) i = CountChallengeSolves (db.truncate d) i"
  "CountTeamAttempts (db.truncate (public_view d)) i t = CountTeamAttempts (db.truncate d) i t"
  "HasTeamSolved (db.truncate (public_view d)) i t = HasTeamSolved (db.truncate d) i t"
  by (simp_all add: CountChallengeSolves_def CountTeamAttempts_def HasTeamSolved_def public_view_def db.truncate_def
        filter_map o_def list_ex_iff)

lemma rowToInstance_flag [simp]: "rowToInstance (n\<lparr>i_Flag := None\<rparr>) = rowToInstance n"
  by (simp add: rowToInstance_def)

lemma instances_public [simp]:
  "map_option rowToInstance (GetSharedInstance (db.truncate (public_view d)) i) =
     map_option rowToInstance (GetSharedInstance (db.truncate d) i)"
  "map_option rowToInstance (GetTeamInstance (db.truncate (public_view d)) i t) =
     map_option rowToInstance (GetTeamInstance (db.truncate d) i t)"
proof -
  have "List.find P (map (\<lambda>n. n\<lparr>i_Flag := None\<rparr>) ns) = map_option (\<lambda>n. n\<lparr>i_Flag := None\<rparr>) (List.find P ns)"
    if "\<And>n. P (n\<lparr>i_Flag := None\<rparr>) = P n" for P and ns :: "Instance list"
    using that by (induction ns) auto
  then show
    "map_option rowToInstance (GetSharedInstance (db.truncate (public_view d)) i) =
       map_option rowToInstance (GetSharedInstance (db.truncate d) i)"
    "map_option rowToInstance (GetTeamInstance (db.truncate (public_view d)) i t) =
       map_option rowToInstance (GetTeamInstance (db.truncate d) i t)"
    by (simp_all add: GetSharedInstance_def GetTeamInstance_def public_view_def db.truncate_def option.map_comp o_def)
qed

lemma tables_public [simp]:
  "users (db.truncate (public_view d)) = users (db.truncate d)" "teams (db.truncate (public_view d)) = teams (db.truncate d)"
  "team_members (db.truncate (public_view d)) = team_members (db.truncate d)"
  "events (db.truncate (public_view d)) = events (db.truncate d)"
  by (simp_all add: public_view_def db.truncate_def)

lemma teams_public [simp]:
  "GetEvent (db.truncate (public_view d)) = GetEvent (db.truncate d)"
  "GetTeamByID (db.truncate (public_view d)) = GetTeamByID (db.truncate d)"
  "ListTeamMembers (db.truncate (public_view d)) = ListTeamMembers (db.truncate d)"
  "ListPublicTeams (public_view d) = ListPublicTeams d"
  by (simp_all add: fun_eq_iff GetEvent_def GetTeamByID_def ListTeamMembers_def)
     (simp add: ListPublicTeams_def public_view_def)

lemma members_public [simp]:
  "IsMember fails (db.truncate (public_view d)) t u = IsMember fails (db.truncate d) t u"
  "GetTeam fails (db.truncate (public_view d)) t = GetTeam fails (db.truncate d) t"
  by (simp_all add: IsMember_def GetUserTeam_def GetTeam_def load_def split: option.splits)

lemma solve_row_public:
  assumes "distinct (map c_ID (challenges d))"
  shows "solve_row (public_view d) named (s\<lparr>s_Provided := [], s_Ip := None, s_ScoredValue := None, s_ScoredBy := None\<rparr>) =
    solve_row d named s"
  by (simp add: solve_row_def public_view_def find_map_same_key find_filter_key [OF assms] split: option.splits)

lemma map_filter_map_cong: "(\<And>x. f (g x) = h x) \<Longrightarrow> List.map_filter f (map g xs) = List.map_filter h xs"
  by (simp add: List.map_filter_def filter_map o_def)

lemma solves_public:
  assumes "distinct (map c_ID (challenges d))"
  shows "ListTeamSolves (public_view d) t = ListTeamSolves d t" "ListUserSolves (public_view d) u = ListUserSolves d u"
proof -
  have "submissions (public_view d) =
      map (\<lambda>s. s\<lparr>s_Provided := [], s_Ip := None, s_ScoredValue := None, s_ScoredBy := None\<rparr>) (submissions d)"
    by (simp add: public_view_def)
  moreover have rows: "List.map_filter (solve_row (public_view d) named)
      (map (\<lambda>s. s\<lparr>s_Provided := [], s_Ip := None, s_ScoredValue := None, s_ScoredBy := None\<rparr>) ss) =
      List.map_filter (solve_row d named) ss" for named ss
    by (rule map_filter_map_cong) (rule solve_row_public [OF assms])
  ultimately show "ListTeamSolves (public_view d) t = ListTeamSolves d t" "ListUserSolves (public_view d) u = ListUserSolves d u"
    by (simp_all add: ListTeamSolves_def ListUserSolves_def filter_map o_def rows)
qed

lemma solve_row_visible:
  assumes "distinct (map c_ID (challenges d))" "solve_row d named s = Some r"
  shows "\<exists>c. GetChallengeByID (db.truncate d) (ts_ChallengeID r) = Some c \<and> c_Visible c"
  using assms(2) by (auto simp: solve_row_def GetChallengeByID_def db.truncate_def split: option.splits if_splits)

lemma listed_rows_visible:
  assumes "distinct (map c_ID (challenges d))" "r \<in> set (ListTeamSolves d t) \<or> r \<in> set (ListUserSolves d u)"
  shows "\<exists>c. GetChallengeByID (db.truncate d) (ts_ChallengeID r) = Some c \<and> c_Visible c"
  using assms(2) solve_row_visible [OF assms(1)]
  by (fastforce simp: ListTeamSolves_def ListUserSolves_def List.map_filter_def)

lemma find_filter_imp: "(\<And>x. x \<in> set xs \<Longrightarrow> P x \<Longrightarrow> Q x) \<Longrightarrow> List.find P (filter Q xs) = List.find P xs"
  by (induction xs) auto

lemma attachments_public:
  assumes "c \<in> set (challenges d)" "c_Visible c"
  shows "ListAttachments coll (public_view d) (c_ID c) = ListAttachments coll d (c_ID c)"
    "GetAttachment (public_view d) i (c_ID c) = GetAttachment d i (c_ID c)"
proof -
  have "filter (\<lambda>a. ca_ChallengeID a = c_ID c) (challenge_attachments (public_view d)) =
      filter (\<lambda>a. ca_ChallengeID a = c_ID c) (challenge_attachments d)"
    using assms by (auto simp: public_view_def intro!: filter_cong)
  then show "ListAttachments coll (public_view d) (c_ID c) = ListAttachments coll d (c_ID c)"
    by (simp add: ListAttachments_def)
  show "GetAttachment (public_view d) i (c_ID c) = GetAttachment d i (c_ID c)"
    unfolding GetAttachment_def using assms by (auto simp: public_view_def intro!: find_filter_imp)
qed

lemma by_slug_in: "GetChallengeBySlug (db.truncate d) slug = Some c \<Longrightarrow> c \<in> set (challenges d)"
  by (auto simp: GetChallengeBySlug_def db.truncate_def find_Some_iff)

subsection \<open>The pages on the public view\<close>

lemma bind_result_simps [simp]: "bind_result (Inl err) f = Inl err" "bind_result (Inr x) f = f x"
  by (simp_all add: bind_result_def)

lemma bind_result_cong: "(\<And>x. r = Inr x \<Longrightarrow> f x = g x) \<Longrightarrow> bind_result r f = bind_result r g"
  by (cases r) simp_all

lemma map_result_cong: "(\<And>x. x \<in> set xs \<Longrightarrow> f x = g x) \<Longrightarrow> map_result f xs = map_result g xs"
  by (induction xs) (auto intro!: bind_result_cong)

lemma map_result_map: "map_result f (map g xs) = map_result (f \<circ> g) xs"
  by (induction xs) simp_all

lemma views_with_db [simp]:
  "admin_view (with_db e d) = admin_view e" "team_view (with_db e d) = team_view e" "teamIDOrNil (with_db e d) = teamIDOrNil e"
  "board_event (with_db e (public_view d)) = board_event (with_db e d)"
  "member_view (with_db e (public_view d)) = member_view (with_db e d)"
  by (simp_all add: fun_eq_iff admin_view_def team_view_def teamIDOrNil_def board_event_def member_view_def events_Get_def)

lemma asks_public [simp]:
  "count_solves (with_db e (public_view d)) = count_solves (with_db e d)"
  "solved_check (with_db e (public_view d)) = solved_check (with_db e d)"
  "InstanceForChallenge (with_db e (public_view d)) = InstanceForChallenge (with_db e d)"
  "team_instance (with_db e (public_view d)) = team_instance (with_db e d)"
  by (simp_all add: fun_eq_iff count_solves_def solved_check_def ask_def InstanceForChallenge_def team_instance_def
        split: option.splits)

lemma started_public [simp]: "started (with_db e (public_view d)) = started (with_db e d)"
  by (intro ext; unfold started_def eventStarted_def views_with_db; rule refl)

lemma freeze_public [simp]:
  "freezeHidesSolvesAfter (with_db e (public_view d)) = freezeHidesSolvesAfter (with_db e d)"
  by (intro ext; unfold freezeHidesSolvesAfter_def views_with_db with_db_simps; rule refl)

lemma toTeamInstance_public: "toTeamInstance rt (public_challenge c) inst = toTeamInstance rt c inst"
  by (simp add: toTeamInstance_def split: option.splits)

lemma enrich_public [simp]:
  "enrichInstance (with_db e (public_view d)) (public_challenge c) = enrichInstance (with_db e d) c"
  "enrichDetailInstance (with_db e (public_view d)) (public_challenge c) = enrichDetailInstance (with_db e d) c"
  by (intro ext; unfold enrichInstance_def enrichDetailInstance_def public_challenge_simps asks_public with_db_simps
        toTeamInstance_public; rule refl)+

lemma board_entry_public:
  "board_entry (with_db e (public_view d)) t (public_challenge c) =
     map_sum id (\<lambda>b. b\<lparr>bo_Challenge := public_challenge c\<rparr>) (board_entry (with_db e d) t c)"
  by (simp add: board_entry_def bind_result_def split: sum.splits)

lemma board_entry_row: "board_entry e t c = Inr b \<Longrightarrow> bo_Challenge b = c"
  by (auto simp: board_entry_def bind_result_def split: sum.splits)

lemma toChallenge_row [simp]: "toChallenge (b\<lparr>bo_Challenge := public_challenge (bo_Challenge b)\<rparr>) = toChallenge b"
  by (simp add: toChallenge_def Let_def)

lemma list_entries_public:
  "bind_result (map_result (board_entry (with_db e (public_view d)) t) (map public_challenge cs))
     (\<lambda>bs. Inr (map (\<lambda>b. enrichInstance (with_db e (public_view d)) (bo_Challenge b) (toChallenge b)) bs)) =
   bind_result (map_result (board_entry (with_db e d) t) cs)
     (\<lambda>bs. Inr (map (\<lambda>b. enrichInstance (with_db e d) (bo_Challenge b) (toChallenge b)) bs))"
proof -
  have "map_result (board_entry (with_db e (public_view d)) t) (map public_challenge cs) =
      map_sum id (map (\<lambda>b. b\<lparr>bo_Challenge := public_challenge (bo_Challenge b)\<rparr>)) (map_result (board_entry (with_db e d) t) cs)"
  proof (induction cs)
    case (Cons c cs)
    show ?case
      by (cases "board_entry (with_db e d) t c"; cases "map_result (board_entry (with_db e d) t) cs")
         (simp_all add: board_entry_public Cons.IH board_entry_row)
  qed simp
  then show ?thesis
    by (cases "map_result (board_entry (with_db e d) t) cs") simp_all
qed

lemma ListChallenges_public: "ListChallenges (with_db e (public_view d)) = ListChallenges (with_db e d)"
proof (intro ext)
  fix now identity
  have "bind_result (ListVisible (with_db e (public_view d)) t)
      (\<lambda>bs. Inr (map (\<lambda>b. enrichInstance (with_db e (public_view d)) (bo_Challenge b) (toChallenge b)) bs)) =
    bind_result (ListVisible (with_db e d) t)
      (\<lambda>bs. Inr (map (\<lambda>b. enrichInstance (with_db e d) (bo_Challenge b) (toChallenge b)) bs))" for t
    by (simp add: ListVisible_def ask_def list_entries_public)
  then show "ListChallenges (with_db e (public_view d)) now identity = ListChallenges (with_db e d) now identity"
    by (simp add: ListChallenges_def)
qed


lemma detail_public:
  assumes "distinct (map c_Slug (challenges d))"
  shows "GetVisibleDetail (with_db e (public_view d)) slug t =
    map_sum id (\<lambda>x. x\<lparr>de_Entry := (de_Entry x)\<lparr>bo_Challenge := public_challenge (bo_Challenge (de_Entry x))\<rparr>\<rparr>)
      (GetVisibleDetail (with_db e d) slug t)"
proof -
  have slug: "Challenge_GetBySlug (with_db e (public_view d)) slug =
      bind_result (Challenge_GetBySlug (with_db e d) slug) (\<lambda>c. if c_Visible c then Inr (public_challenge c) else Inl ErrNotFound)"
    by (simp add: Challenge_GetBySlug_def ask_def by_slug_public [OF assms] split: option.splits)
  show ?thesis
  proof (cases "Challenge_GetBySlug (with_db e d) slug")
    case (Inl err)
    then show ?thesis by (simp add: GetVisibleDetail_def slug)
  next
    case (Inr c)
    then have "c \<in> set (challenges d)"
      by (auto simp: Challenge_GetBySlug_def ask_def bind_result_def by_slug_in split: if_splits option.splits sum.splits)
    then show ?thesis using Inr attachments_public [of c d]
      by (cases "c_Visible c") (simp_all add: GetVisibleDetail_def slug ask_def bind_result_def split: sum.splits option.splits)
  qed
qed

lemma toDetail_row [simp]:
  "toChallengeDetail (x\<lparr>de_Entry := (de_Entry x)\<lparr>bo_Challenge := public_challenge (bo_Challenge (de_Entry x))\<rparr>\<rparr>) = toChallengeDetail x"
  by (simp add: toChallengeDetail_def toChallenge_def Let_def)

lemma GetChallenge_public:
  assumes "distinct (map c_Slug (challenges d))"
  shows "GetChallenge (with_db e (public_view d)) now identity slug = GetChallenge (with_db e d) now identity slug"
proof -
  have "bind_result (GetVisibleDetail (with_db e (public_view d)) slug t)
      (\<lambda>x. Inr (enrichDetailInstance (with_db e (public_view d)) (bo_Challenge (de_Entry x)) t (toChallengeDetail x))) =
    bind_result (GetVisibleDetail (with_db e d) slug t)
      (\<lambda>x. Inr (enrichDetailInstance (with_db e d) (bo_Challenge (de_Entry x)) t (toChallengeDetail x)))" for t
    by (cases "GetVisibleDetail (with_db e d) slug t") (simp_all add: detail_public [OF assms])
  then show ?thesis by (simp add: GetChallenge_def)
qed

lemma Download_public:
  assumes "distinct (map c_Slug (challenges d))" "admin_view e identity \<noteq> Inr True"
  shows "DownloadAttachment (with_db e (public_view d)) now identity slug aid = DownloadAttachment (with_db e d) now identity slug aid"
proof -
  have slug: "Challenge_GetBySlug (with_db e (public_view d)) slug =
      bind_result (Challenge_GetBySlug (with_db e d) slug) (\<lambda>c. if c_Visible c then Inr (public_challenge c) else Inl ErrNotFound)"
    by (simp add: Challenge_GetBySlug_def ask_def by_slug_public [OF assms(1)] split: option.splits)
  show ?thesis
  proof (cases "Challenge_GetBySlug (with_db e d) slug")
    case (Inl err)
    then show ?thesis by (simp add: DownloadAttachment_def slug)
  next
    case (Inr c)
    then have "c \<in> set (challenges d)"
      by (auto simp: Challenge_GetBySlug_def ask_def bind_result_def by_slug_in split: if_splits option.splits sum.splits)
    then show ?thesis using Inr assms(2) attachments_public(2) [of c d]
      by (cases "c_Visible c") (simp_all add: DownloadAttachment_def slug ask_def)
  qed
qed

lemma page_solve_public:
  assumes "distinct (map c_ID (challenges d))" "r \<in> set (ListTeamSolves d t) \<or> r \<in> set (ListUserSolves d u)"
  shows "page_solve (with_db e (public_view d)) named r = page_solve (with_db e d) named r"
proof -
  obtain c where "GetChallengeByID (db.truncate d) (ts_ChallengeID r) = Some c" "c_Visible c"
    using listed_rows_visible [OF assms] by blast
  then show ?thesis by (simp add: page_solve_def CurrentValue_def ask_def by_id_public [OF assms(1)])
qed

lemma GetTeam_public:
  assumes "distinct (map c_ID (challenges d))"
  shows "GetTeam_page (with_db e (public_view d)) now cache identity t = GetTeam_page (with_db e d) now cache identity t"
proof -
  have "map_result (page_solve (with_db e (public_view d)) True) (filter P (ListTeamSolves d t)) =
      map_result (page_solve (with_db e d) True) (filter P (ListTeamSolves d t))" for P
    by (rule map_result_cong) (rule page_solve_public [OF assms, where t = t and u = t], simp)
  then show ?thesis
    by (simp add: GetTeam_page_def ask_def solves_public [OF assms] split: sum.splits prod.splits cong: option.case_cong)
qed

lemma GetUser_public:
  assumes "distinct (map c_ID (challenges d))"
  shows "GetUser_page (with_db e (public_view d)) now cache identity u = GetUser_page (with_db e d) now cache identity u"
proof -
  have "map_result (page_solve (with_db e (public_view d)) False) (filter P (ListUserSolves d u)) =
      map_result (page_solve (with_db e d) False) (filter P (ListUserSolves d u))" for P
    by (rule map_result_cong) (rule page_solve_public [OF assms, where t = u and u = u], simp)
  then show ?thesis
    by (simp add: GetUser_page_def ask_def solves_public [OF assms] split: sum.splits prod.splits)
qed

text \<open>C8. The pages of participants depend on the public view of the database only: the board, a challenge's page, the
  pages of teams and users, the list of teams, and for anyone but an administrator the downloads, answer as if invisible
  challenges with their attachments did not exist and every flag, stored guess, address, image, environment and type
  configuration were blank. So an invisible challenge cannot be told from a missing one, and no page carries a secret.\<close>

theorem pages_read_public_view:
  assumes "distinct (map c_ID (challenges d))" "distinct (map c_Slug (challenges d))"
  shows "ListChallenges (with_db e (public_view d)) now identity = ListChallenges (with_db e d) now identity \<and>
    GetChallenge (with_db e (public_view d)) now identity slug = GetChallenge (with_db e d) now identity slug \<and>
    GetTeam_page (with_db e (public_view d)) now cache identity t = GetTeam_page (with_db e d) now cache identity t \<and>
    GetUser_page (with_db e (public_view d)) now cache identity u = GetUser_page (with_db e d) now cache identity u \<and>
    ListTeams (with_db e (public_view d)) = ListTeams (with_db e d) \<and>
    (admin_view e identity = Inr True \<or>
     DownloadAttachment (with_db e (public_view d)) now identity slug aid = DownloadAttachment (with_db e d) now identity slug aid)"
proof -
  have "ListTeams (with_db e (public_view d)) = ListTeams (with_db e d)" by (simp add: ListTeams_def ask_def)
  then show ?thesis
    using ListChallenges_public [of e d] GetChallenge_public [OF assms(2), of e now identity slug]
      GetTeam_public [OF assms(1), of e now cache identity t] GetUser_public [OF assms(1), of e now cache identity u]
      Download_public [OF assms(2), of e identity now slug aid]
    by metis
qed


subsection \<open>The freeze\<close>

text \<open>Two databases that differ only in the submissions from the freeze on.\<close>

definition agrees_before :: "time \<Rightarrow> cdb \<Rightarrow> cdb \<Rightarrow> bool" where
  "agrees_before f d d' \<longleftrightarrow> d' = d\<lparr>submissions := submissions d'\<rparr> \<and>
     filter (\<lambda>s. s_CreatedAt s < f) (submissions d') = filter (\<lambda>s. s_CreatedAt s < f) (submissions d)"

definition without_points :: "Solve \<Rightarrow> Solve" where
  "without_points s = s\<lparr>so_Points := 0\<rparr>"

definition team_without_points :: "TeamDetail \<Rightarrow> TeamDetail" where
  "team_without_points x = x\<lparr>td_Points := 0, td_Solves := map without_points (td_Solves x)\<rparr>"

definition user_without_points :: "PublicUser \<Rightarrow> PublicUser" where
  "user_without_points x = x\<lparr>pu_Solves := map without_points (pu_Solves x)\<rparr>"

lemma filter_map_filter:
  "(\<And>x r. g x = Some r \<Longrightarrow> P r = Q x) \<Longrightarrow> filter P (List.map_filter g xs) = List.map_filter g (filter Q xs)"
proof (induction xs)
  case (Cons x xs)
  then show ?case by (cases "g x") (auto simp: List.map_filter_def)
qed (simp add: List.map_filter_def)

lemma solve_row_time: "solve_row d named s = Some r \<Longrightarrow> ts_SolvedAt r = s_CreatedAt s"
  by (auto simp: solve_row_def split: option.splits if_splits)

lemma agrees_tables:
  assumes "agrees_before f d d'"
  shows "users d' = users d" "teams d' = teams d" "team_members d' = team_members d" "events d' = events d"
    "challenges d' = challenges d" "instances d' = instances d" "challenge_attachments d' = challenge_attachments d"
proof -
  have eq: "d' = d\<lparr>submissions := submissions d'\<rparr>" using assms by (simp add: agrees_before_def)
  show "users d' = users d" "teams d' = teams d" "team_members d' = team_members d" "events d' = events d"
    "challenges d' = challenges d" "instances d' = instances d" "challenge_attachments d' = challenge_attachments d"
    by (subst eq, simp)+
qed

lemma frozen_rows:
  assumes "agrees_before f d d'" "cutoff \<in> {None, Some f}"
  shows "filter (listed True cutoff) (ListTeamSolves d' t) = filter (listed True cutoff) (ListTeamSolves d t)"
    "filter (listed True cutoff) (ListUserSolves d' u) = filter (listed True cutoff) (ListUserSolves d u)"
proof -
  have row: "solve_row d' named = solve_row d named" for named
    by (simp add: fun_eq_iff solve_row_def agrees_tables [OF assms(1)])
  have split: "filter (listed True (Some f)) (sort_key ts_SolvedAt (List.map_filter (solve_row d named) (filter P ss))) =
      sort_key ts_SolvedAt (List.map_filter (solve_row d named) (filter P (filter (\<lambda>s. s_CreatedAt s < f) ss)))" for named P ss
    using filter_map_filter [of "solve_row d named" "listed True (Some f)" "\<lambda>s. s_CreatedAt s < f"] solve_row_time [of d named]
    by (simp add: filter_sort listed_def conj_commute)
  have "filter (listed True (Some f)) (ListTeamSolves d' t) = filter (listed True (Some f)) (ListTeamSolves d t)"
    "filter (listed True (Some f)) (ListUserSolves d' u) = filter (listed True (Some f)) (ListUserSolves d u)"
    unfolding ListTeamSolves_def ListUserSolves_def row split
    using assms(1) by (simp_all add: agrees_before_def)
  moreover have "filter (listed True None) xs = []" for xs by (simp add: listed_def)
  ultimately show "filter (listed True cutoff) (ListTeamSolves d' t) = filter (listed True cutoff) (ListTeamSolves d t)"
    "filter (listed True cutoff) (ListUserSolves d' u) = filter (listed True cutoff) (ListUserSolves d u)"
    using assms(2) by auto
qed

lemma map_result_map_sum:
  "map_sum (\<lambda>e. e) (map g) (map_result f xs) = map_result (\<lambda>x. map_sum (\<lambda>e. e) g (f x)) xs"
proof (induction xs)
  case (Cons x xs)
  show ?case by (cases "f x"; cases "map_result f xs") (simp_all add: Cons.IH [symmetric])
qed simp

lemma page_solve_frozen:
  assumes "agrees_before f d d'"
  shows "map_sum (\<lambda>e. e) without_points (page_solve (with_db e d') named r) = map_sum (\<lambda>e. e) without_points (page_solve (with_db e d) named r)"
proof -
  have "GetChallengeByID (db.truncate d') i = GetChallengeByID (db.truncate d) i" for i
    by (simp add: GetChallengeByID_def db.truncate_def agrees_tables [OF assms])
  then show ?thesis
    by (auto simp: page_solve_def CurrentValue_def count_solves_def ask_def without_points_def bind_result_def split: sum.splits option.splits)
qed


lemma views_frozen:
  assumes "agrees_before f d d'"
  shows "board_event (with_db e d') = board_event (with_db e d)" "member_view (with_db e d') = member_view (with_db e d)"
    "GetTeam fails (db.truncate d') t = GetTeam fails (db.truncate d) t"
  by (simp_all add: fun_eq_iff board_event_def member_view_def events_Get_def GetEvent_def IsMember_def GetUserTeam_def
        GetTeamByID_def GetTeam_def load_def ListTeamMembers_def db.truncate_def agrees_tables [OF assms] split: option.splits)

lemma freeze_frozen:
  assumes "agrees_before f d d'"
  shows "freezeHidesSolvesAfter (with_db e d') = freezeHidesSolvesAfter (with_db e d)"
  by (intro ext; unfold freezeHidesSolvesAfter_def views_frozen [OF assms] views_with_db with_db_simps; rule refl)

lemma solves_frozen:
  assumes "agrees_before f d d'"
  shows "map_sum (\<lambda>e. e) (map without_points) (map_result (page_solve (with_db e d') named) rs) =
    map_sum (\<lambda>e. e) (map without_points) (map_result (page_solve (with_db e d) named) rs)"
  unfolding map_result_map_sum by (rule map_result_cong) (rule page_solve_frozen [OF assms])

text \<open>Someone who is neither an administrator nor in the team.\<close>

definition outsider :: "board_env \<Rightarrow> Identity option \<Rightarrow> uuid option \<Rightarrow> bool" where
  "outsider e identity team \<longleftrightarrow> admin_view e identity \<noteq> Inr True \<and>
     (case (team, callerID identity) of
        (Some t, Some uid) \<Rightarrow> member_view e BMember t uid \<noteq> Inr True
      | _ \<Rightarrow> True)"

text \<open>The server does not miss the freeze at \<open>f\<close>: it reads an event whose freeze has come, or, when it cannot read the event,
  has no earlier decision or one made during that freeze. (Without an events service it hides every solve.)\<close>

definition freeze_seen :: "board_env \<Rightarrow> time \<Rightarrow> freezeSnapshot option \<Rightarrow> time \<Rightarrow> bool" where
  "freeze_seen e now cache f \<longleftrightarrow> \<not> be_events e \<or>
     (case board_event e of
        Inr v \<Rightarrow> e_FreezeAt v = Some f \<and> f \<le> now
      | Inl _ \<Rightarrow> (case cache of None \<Rightarrow> True | Some l \<Rightarrow> fs_frozen l \<and> fs_freezeAt l = Some f))"

lemma hides_from_outsiders:
  assumes "freeze_seen e now cache f" "outsider e identity team"
  shows "\<exists>c cutoff. freezeHidesSolvesAfter e now cache identity team = (c, True, cutoff) \<and> cutoff \<in> {None, Some f}"
  using assms
  by (auto simp: freeze_seen_def freezeHidesSolvesAfter_def freezeState_def Frozen_def outsider_def
      split: option.splits sum.splits prod.splits)

lemma hides_alike:
  assumes "agrees_before f d d'" "freeze_seen (with_db e d) now cache f" "outsider (with_db e d) identity team"
  shows "\<exists>c cutoff. cutoff \<in> {None, Some f} \<and>
    freezeHidesSolvesAfter (with_db e d) now cache identity team = (c, True, cutoff) \<and>
    freezeHidesSolvesAfter (with_db e d') now cache identity team = (c, True, cutoff)"
  using hides_from_outsiders [OF assms(2,3)] freeze_frozen [OF assms(1), of e] by fastforce

lemma team_page_frozen:
  assumes "agrees_before f d d'" "cutoff \<in> {None, Some f}"
    and h: "freezeHidesSolvesAfter (with_db e d) now cache identity (Some t) = (c, True, cutoff)"
      "freezeHidesSolvesAfter (with_db e d') now cache identity (Some t) = (c, True, cutoff)"
  shows "map_sum (\<lambda>e. e) team_without_points (snd (GetTeam_page (with_db e d') now cache identity t)) =
    map_sum (\<lambda>e. e) team_without_points (snd (GetTeam_page (with_db e d) now cache identity t))"
proof -
  note rows = frozen_rows [OF assms(1,2)]
  show ?thesis
    using solves_frozen [OF assms(1), of e True "filter (listed True cutoff) (ListTeamSolves d t)"]
    by (cases "map_result (page_solve (with_db e d) True) (filter (listed True cutoff) (ListTeamSolves d t))";
        cases "map_result (page_solve (with_db e d') True) (filter (listed True cutoff) (ListTeamSolves d t))")
       (auto simp: GetTeam_page_def h ask_def rows views_frozen [OF assms(1)]
          bind_result_def team_without_points_def split: sum.splits option.splits)
qed

lemma user_page_frozen:
  assumes "agrees_before f d d'" "cutoff \<in> {None, Some f}" "team_view e u = Inr team"
    and h: "freezeHidesSolvesAfter (with_db e d) now cache identity (map_option tr_ID team) = (c, True, cutoff)"
      "freezeHidesSolvesAfter (with_db e d') now cache identity (map_option tr_ID team) = (c, True, cutoff)"
  shows "map_sum (\<lambda>e. e) user_without_points (snd (GetUser_page (with_db e d') now cache identity u)) =
    map_sum (\<lambda>e. e) user_without_points (snd (GetUser_page (with_db e d) now cache identity u))"
proof -
  note rows = frozen_rows [OF assms(1,2)]
  show ?thesis
    using assms(3) solves_frozen [OF assms(1), of e False "filter (listed True cutoff) (ListUserSolves d u)"]
    by (cases "map_result (page_solve (with_db e d) False) (filter (listed True cutoff) (ListUserSolves d u))";
        cases "map_result (page_solve (with_db e d') False) (filter (listed True cutoff) (ListUserSolves d u))")
       (auto simp: GetUser_page_def h ask_def rows user_without_points_def split: sum.splits)
qed

text \<open>C22. During a freeze the page of a team and the page of a user, as an outsider gets them, do not depend on what
  was submitted from the freeze on, given that the server does not miss the freeze: it reads the event as frozen, or cannot
  read it and its last successful reading was during the same freeze, or it never read it, or has no events service. The pages are then equal over any
  two databases that differ only there, but for the points attached to the solves, which are the current values of the
  challenges. (In the one case left out, an unreadable event and a last reading from before the freeze, every solve is listed:
  \<open>stale_freeze_leaks\<close> below.)\<close>

theorem frozen_pages_hide_later_solves:
  assumes "agrees_before f d d'" "freeze_seen (with_db e d) now cache f"
    and "outsider (with_db e d) identity (Some t)"
    and "case team_view e u of Inl _ \<Rightarrow> True | Inr team \<Rightarrow> outsider (with_db e d) identity (map_option tr_ID team)"
  shows "map_sum (\<lambda>e. e) team_without_points (snd (GetTeam_page (with_db e d') now cache identity t)) =
      map_sum (\<lambda>e. e) team_without_points (snd (GetTeam_page (with_db e d) now cache identity t)) \<and>
    map_sum (\<lambda>e. e) user_without_points (snd (GetUser_page (with_db e d') now cache identity u)) =
      map_sum (\<lambda>e. e) user_without_points (snd (GetUser_page (with_db e d) now cache identity u))"
proof
  show "map_sum (\<lambda>e. e) team_without_points (snd (GetTeam_page (with_db e d') now cache identity t)) =
      map_sum (\<lambda>e. e) team_without_points (snd (GetTeam_page (with_db e d) now cache identity t))"
    using hides_alike [OF assms(1-3)] team_page_frozen [OF assms(1)] by blast
  show "map_sum (\<lambda>e. e) user_without_points (snd (GetUser_page (with_db e d') now cache identity u)) =
      map_sum (\<lambda>e. e) user_without_points (snd (GetUser_page (with_db e d) now cache identity u))"
  proof (cases "team_view e u")
    case (Inl err)
    then show ?thesis by (simp add: GetUser_page_def ask_def split: sum.splits)
  next
    case (Inr team)
    with assms(4) have "outsider (with_db e d) identity (map_option tr_ID team)" by simp
    from hides_alike [OF assms(1,2) this] show ?thesis
      by (elim exE conjE) (rule user_page_frozen [OF assms(1) _ Inr])
  qed
qed

text \<open>The cache of the freeze decision leaks in one direction. A read before the freeze caches \<^verbatim>\<open>frozen = false\<close> beside the
  time of the freeze; when the event cannot be read later, that answer is served to everyone, however long the freeze has
  begun, and every solve is listed. With nothing cached the same failure hides every solve.\<close>

theorem stale_freeze_leaks:
  assumes "be_events e0" "board_event e0 = Inr v" "e_FreezeAt v = Some f" "t0 < f"
    and "be_events e" "board_event e = Inl err" "f \<le> t1"
  shows "let cache = fst (freezeHidesSolvesAfter e0 t0 c0 identity0 team0)
         in fs_freezeAt (the cache) = Some f \<and>
            snd (freezeHidesSolvesAfter e t1 cache identity team) = (False, None) \<and> listed False None r \<and>
            snd (freezeHidesSolvesAfter e t1 None identity team) = (True, None) \<and> \<not> listed True None r"
proof -
  have "Frozen t0 v = False" using assms(3,4) by (simp add: Frozen_def)
  then have "fst (freezeHidesSolvesAfter e0 t0 c0 identity0 team0) = Some \<lparr>fs_frozen = False, fs_freezeAt = Some f\<rparr>"
    using assms(1-3) by (simp add: freezeHidesSolvesAfter_def freezeState_def)
  then show ?thesis using assms(5,6) by (simp add: freezeHidesSolvesAfter_def freezeState_def listed_def)
qed

subsection \<open>Shown values and the scoreboard's\<close>

text \<open>A submission of a team whose solves count on the scoreboard.\<close>

definition counts_on_board :: "db \<Rightarrow> Submission \<Rightarrow> bool" where
  "counts_on_board d s \<longleftrightarrow>
     (case List.find (\<lambda>t. t_ID t = s_TeamID s) (teams d) of
        None \<Rightarrow> False
      | Some t \<Rightarrow> \<not> t_Hidden t \<and> \<not> t_Banned t \<and> has_visible_member d (t_ID t))"

lemma valid_row_facts:
  assumes "c_Visible c" "List.find (\<lambda>c. c_ID c = i) (challenges d) = Some c" "s_ChallengeID s = i"
  shows "(case valid_solve_row d s of None \<Rightarrow> False | Some r \<Rightarrow> vs_ChallengeID r = i \<and> \<not> vs_TeamBanned r) \<longleftrightarrow>
    s_Correct s \<and> counts_on_board d s"
  using assms by (auto simp: valid_solve_row_def counts_on_board_def split: option.splits)

lemma length_filter_map_filter:
  "length (filter P (List.map_filter g xs)) = length (filter (\<lambda>x. case g x of None \<Rightarrow> False | Some y \<Rightarrow> P y) xs)"
  by (induction xs) (auto simp: List.map_filter_def split: option.splits)

text \<open>The value that the pages show for a visible challenge is the scoreboard's value for more solves: the pages count
  every correct submission, the scoreboard those of teams that are neither hidden nor banned and have a member who is not
  hidden; the difference is exactly the number of the other correct submissions.\<close>

theorem shown_solves_exceed_board:
  assumes "List.find (\<lambda>c. c_ID c = i) (challenges d) = Some c" "c_Visible c"
  shows "CountChallengeSolves d i =
    solves_of (ListValidSolves d) i +
    int (length (filter (\<lambda>s. s_ChallengeID s = i \<and> s_Correct s \<and> \<not> counts_on_board d s) (submissions d)))"
proof -
  have "solves_of (ListValidSolves d) i =
      int (length (filter (\<lambda>r. vs_ChallengeID r = i \<and> \<not> vs_TeamBanned r) (List.map_filter (valid_solve_row d) (submissions d))))"
    by (simp add: solves_of_def ListValidSolves_def filter_sort)
  also have "\<dots> = int (length (filter (\<lambda>s. s_ChallengeID s = i \<and> s_Correct s \<and> counts_on_board d s) (submissions d)))"
  proof -
    have "(case valid_solve_row d s of None \<Rightarrow> False | Some r \<Rightarrow> vs_ChallengeID r = i \<and> \<not> vs_TeamBanned r) \<longleftrightarrow>
        s_ChallengeID s = i \<and> s_Correct s \<and> counts_on_board d s" for s
    proof (cases "s_ChallengeID s = i")
      case True
      then show ?thesis using valid_row_facts [OF assms(2,1) True] by simp
    next
      case False
      then show ?thesis by (auto simp: valid_solve_row_def split: option.splits)
    qed
    then show ?thesis by (simp add: length_filter_map_filter)
  qed
  finally have b: "solves_of (ListValidSolves d) i =
      int (length (filter (\<lambda>s. s_ChallengeID s = i \<and> s_Correct s \<and> counts_on_board d s) (submissions d)))" .
  have sum: "length (filter (\<lambda>s. A s \<and> B s) ss) = length (filter (\<lambda>s. A s \<and> B s \<and> Q s) ss) + length (filter (\<lambda>s. A s \<and> B s \<and> \<not> Q s) ss)"
    for A B Q and ss :: "Submission list"
    by (induction ss) auto
  show ?thesis unfolding CountChallengeSolves_def b
    by (subst sum [where Q = "counts_on_board d"]) simp
qed


subsection \<open>Witnesses\<close>

text \<open>A visible challenge solved before and after the freeze at 100, the later solve by a hidden team, and an invisible
  challenge.\<close>

definition bd_challenge :: "uuid \<Rightarrow> string \<Rightarrow> bool \<Rightarrow> Challenge" where
  "bd_challenge i slug vis =
     \<lparr>c_ID = i, c_Slug = slug, c_Title = slug, c_Category = ''web'', c_Description = [], c_Difficulty = None,
      c_Kind = ''standard'', c_Flag = ''flag'', c_FlagCaseInsensitive = False, c_Scoring = ModeStatic, c_PointsInitial = 100,
      c_PointsMin = None, c_Decay = None, c_MaxAttempts = None, c_Visible = vis, c_Image = None, c_InternalPort = None,
      c_MemLimitMb = 256, c_CpuMillis = 500, c_ContainerEnv = ''{}'', c_ConnectionTemplate = None, c_CreatedAt = 0,
      c_UpdatedAt = 0, c_Instancing = ''shared'', c_FlagMode = ''static'', c_InstanceTtlSeconds = None, c_Egress = True,
      c_WritablePaths = ''[]'', c_Type = ''standard'', c_TypeConfig = ''{}''\<rparr>"

definition bd_team :: "uuid \<Rightarrow> bool \<Rightarrow> Team" where
  "bd_team i hidden = \<lparr>t_ID = i, t_Name = ''t'', t_InviteCode = ''c'', t_CaptainID = i, t_Banned = False, t_Hidden = hidden,
     t_CreatedAt = 0, t_UpdatedAt = 0\<rparr>"

definition bd_user :: "uuid \<Rightarrow> User" where
  "bd_user i = \<lparr>u_ID = i, u_Username = ''u'', u_Email = ''e'', u_PasswordHash = [], u_Role = ''user'', u_Banned = False,
     u_Hidden = False, u_CreatedAt = 0, u_UpdatedAt = 0\<rparr>"

definition bd_solve :: "uuid \<Rightarrow> time \<Rightarrow> Submission" where
  "bd_solve team t = \<lparr>s_ID = team, s_ChallengeID = 5, s_TeamID = team, s_UserID = team, s_Provided = ''flag'', s_Correct = True,
     s_Ip = None, s_CreatedAt = t, s_ScoredValue = None, s_ScoredBy = None\<rparr>"

definition bd_event :: Event where
  "bd_event = \<lparr>e_ID = 1, e_Name = ''ctf'', e_Description = [], e_StartsAt = 0, e_EndsAt = 200, e_FreezeAt = Some 100,
     e_CreatedAt = 0, e_UpdatedAt = 0\<rparr>"

definition bd_db :: "Submission list \<Rightarrow> cdb" where
  "bd_db ss = \<lparr>users = [bd_user 1, bd_user 2], teams = [bd_team 1 False, bd_team 2 True],
     team_members = [\<lparr>m_TeamID = 1, m_UserID = 1, m_JoinedAt = 0\<rparr>, \<lparr>m_TeamID = 2, m_UserID = 2, m_JoinedAt = 0\<rparr>],
     events = [bd_event], challenges = [bd_challenge 5 ''open'' True, bd_challenge 6 ''secret'' False], submissions = ss,
     instances = [], challenge_attachments = []\<rparr>"

definition bd_env :: board_env where
  "bd_env = \<lparr>be_fails = (\<lambda>c. False), be_db = (\<lambda>c. bd_db []), be_users = calm_env, be_acct = (empty_adb, empty_redis 0),
     be_modes = defaultRegistry, be_coll = length, be_runtime = None, be_events = True, be_blobs = {}\<rparr>"

lemmas bd_defs = bd_challenge_def bd_team_def bd_user_def bd_solve_def bd_event_def bd_db_def

lemma bd_event_read: "board_event (with_db bd_env (bd_db ss)) = Inr bd_event"
  by (simp add: board_event_def events_Get_def GetEvent_def bd_env_def bd_db_def db.truncate_def)

lemma bd_anonymous: "outsider (with_db bd_env d) None team"
  by (simp add: outsider_def callerID_def requireUser_def admin_view_def callerIsAdmin_def requireAdmin_def errors_Is_def
        split: option.splits)

theorem pages_read_public_view_witness:
  "GetTeam_page (with_db bd_env (public_view (bd_db [bd_solve 1 50]))) 120 None None 1 =
     GetTeam_page (with_db bd_env (bd_db [bd_solve 1 50])) 120 None None 1 \<and>
   length (challenges (public_view (bd_db [bd_solve 1 50]))) = 1"
proof -
  have "distinct (map c_ID (challenges (bd_db [bd_solve 1 50])))" "distinct (map c_Slug (challenges (bd_db [bd_solve 1 50])))"
    by (simp_all add: bd_defs)
  from pages_read_public_view [OF this] show ?thesis by (simp add: public_view_def bd_defs)
qed

theorem frozen_pages_hide_later_solves_witness:
  "map_sum (\<lambda>e. e) team_without_points (snd (GetTeam_page (with_db bd_env (bd_db [bd_solve 1 50, bd_solve 2 150])) 120 None None 2)) =
     map_sum (\<lambda>e. e) team_without_points (snd (GetTeam_page (with_db bd_env (bd_db [bd_solve 1 50])) 120 None None 2)) \<and>
   ListTeamSolves (bd_db [bd_solve 1 50, bd_solve 2 150]) 2 \<noteq> []"
proof -
  have "agrees_before 100 (bd_db [bd_solve 1 50]) (bd_db [bd_solve 1 50, bd_solve 2 150])"
    by (simp add: agrees_before_def bd_db_def bd_solve_def)
  moreover have "freeze_seen (with_db bd_env (bd_db [bd_solve 1 50])) 120 None 100"
    by (simp add: freeze_seen_def bd_event_read) (simp add: bd_event_def)
  moreover have "case team_view bd_env 1 of Inl _ \<Rightarrow> True
      | Inr team \<Rightarrow> outsider (with_db bd_env (bd_db [bd_solve 1 50])) None (map_option tr_ID team)"
    by (simp add: bd_anonymous split: sum.splits)
  moreover have "ListTeamSolves (bd_db [bd_solve 1 50, bd_solve 2 150]) 2 \<noteq> []"
    by (simp add: ListTeamSolves_def List.map_filter_def solve_row_def bd_defs del: One_nat_def)
  ultimately show ?thesis
    using frozen_pages_hide_later_solves bd_anonymous by blast
qed

theorem stale_freeze_leaks_witness:
  "let cache = fst (freezeHidesSolvesAfter (with_db bd_env (bd_db [])) 50 None None None)
   in snd (freezeHidesSolvesAfter (bd_env\<lparr>be_fails := \<lambda>c. True\<rparr>) 150 cache None None) = (False, None)"
proof -
  have "be_events (with_db bd_env (bd_db []))" "e_FreezeAt bd_event = Some 100" "(50::time) < 100"
    "be_events (bd_env\<lparr>be_fails := \<lambda>c. True\<rparr>)"
    "board_event (bd_env\<lparr>be_fails := \<lambda>c. True\<rparr>) = Inl (Internal ''events: get'')" "(100::time) \<le> 150"
    by (simp_all add: bd_env_def bd_event_def board_event_def events_Get_def)
  from stale_freeze_leaks [OF this(1) bd_event_read this(2-6)] show ?thesis by (simp add: Let_def)
qed

theorem shown_solves_exceed_board_witness:
  "CountChallengeSolves (db.truncate (bd_db [bd_solve 1 50, bd_solve 2 150])) 5 = 2 \<and>
   solves_of (ListValidSolves (db.truncate (bd_db [bd_solve 1 50, bd_solve 2 150]))) 5 = 1"
proof -
  let ?d = "db.truncate (bd_db [bd_solve 1 50, bd_solve 2 150])"
  have "List.find (\<lambda>c. c_ID c = 5) (challenges ?d) = Some (bd_challenge 5 ''open'' True)" "c_Visible (bd_challenge 5 ''open'' True)"
    by (simp_all add: db.truncate_def bd_db_def bd_challenge_def)
  from shown_solves_exceed_board [OF this]
  have "CountChallengeSolves ?d 5 = solves_of (ListValidSolves ?d) 5 +
    int (length (filter (\<lambda>s. s_ChallengeID s = 5 \<and> s_Correct s \<and> \<not> counts_on_board ?d s) (submissions ?d)))" .
  moreover have "CountChallengeSolves ?d 5 = 2"
    by (simp add: CountChallengeSolves_def db.truncate_def bd_db_def bd_solve_def)
  moreover have "filter (\<lambda>s. s_ChallengeID s = 5 \<and> s_Correct s \<and> \<not> counts_on_board ?d s) (submissions ?d) = [bd_solve 2 150]"
    by (simp add: counts_on_board_def has_visible_member_def db.truncate_def bd_defs del: One_nat_def)
  ultimately show ?thesis by simp
qed

end
