(* ===== verification/Challenge_Handlers_Safety.thy ===== *)
theory Challenge_Handlers_Safety
  imports Challenge_Handlers Challenge_Board_Safety Manager_Ports
begin

text \<open>
  The administration of challenges across services: the deletion and the instance it destroys, the guard and the event
  it reads, the update and the scoreboard it has to refresh.
\<close>

subsection \<open>Deletion and its guard\<close>

lemma lift_truncate [simp]: "db.truncate (lift_db d d') = d'"
  by (simp add: lift_db_def db.truncate_def db.extend_def)

lemma lift_fields [simp]:
  "challenges (lift_db d d') = challenges d'" "instances (lift_db d d') = instances d'" "submissions (lift_db d d') = submissions d'"
  by (simp_all add: lift_db_def db.extend_def)

lemma GetSharedInstance_in:
  "GetSharedInstance d i = Some n \<Longrightarrow> n \<in> set (instances d) \<and> i_ChallengeID n = i"
  by (auto simp: GetSharedInstance_def find_Some_iff)

text \<open>C23. A deletion that is refused has already destroyed the instance. For an administrator who does not confirm, on a
  visible challenge with a shared instance during the event, the handler answers the conflict and leaves the challenge and
  its submissions; but the container of the running challenge has been destroyed and its row is gone, since the instance
  is destroyed before the guard is asked.\<close>

theorem refused_delete_destroys_instance:
  assumes "admin_check ue aw identity = None" "\<And>c. \<not> stmt_fails w c" "\<And>c d. interf w c d = d"
    and "\<And>c. \<not> ch_fails e c" "\<And>c d. ch_interf e c d = d"
    and "events_Get False (db.truncate d) = Inr v" "phase now v = PhaseRunning" "confirm \<noteq> Some True"
    and "GetChallengeByID (db.truncate d) i = Some c" "c_Visible c"
    and "GetSharedInstance (db.truncate d) i = Some n" "rt_Destroy rt s (i_ID n) = (s', Inr ())"
  shows "\<exists>d'. AdminDeleteChallenge ue aw e (Some rt) w now False s d identity i confirm =
      (s', d', NoRecompute, Some (Conflict ''refusing to delete a visible challenge during a running event; pass confirm=true'')) \<and>
    challenges d' = challenges d \<and> submissions d' = submissions d \<and>
    i_ID n \<in> i_ID ` set (instances d) \<and> i_ID n \<notin> i_ID ` set (instances d')"
proof -
  let ?d = "lift_db d (DeleteInstance (db.truncate d) (i_ID n))"
  have trunc: "challenges (db.truncate d) = challenges d" "instances (db.truncate d) = instances d"
    "submissions (db.truncate d) = submissions d"
    by (simp_all add: db.truncate_def)
  have "destroyInstanceIfAny (Some rt) w s d i = (s', ?d, None)"
    using assms(2,3,11,12)
    by (simp add: destroyInstanceIfAny_def DestroyForChallenge_def shared_row_def manager_Destroy_def DestroyInstance_def)
  moreover have "GetChallengeByID (DeleteInstance (db.truncate d) (i_ID n)) i = Some c"
    using assms(9) by (simp add: GetChallengeByID_def DeleteInstance_def)
  ultimately have "AdminDeleteChallenge ue aw e (Some rt) w now False s d identity i confirm =
      (s', ?d, NoRecompute, Some (Conflict ''refusing to delete a visible challenge during a running event; pass confirm=true''))"
    using assms(1,4-8,10) by (simp add: AdminDeleteChallenge_def Challenge_Delete_def get_challenge_def Let_def)
  moreover have "i_ID n \<in> i_ID ` set (instances d)" using GetSharedInstance_in [OF assms(11)] trunc by auto
  ultimately show ?thesis by (auto simp: DeleteInstance_def trunc)
qed


text \<open>When the event cannot be read the guard is off: the same unconfirmed request deletes the visible challenge with
  its submissions.\<close>

theorem unread_event_unguards_delete:
  assumes "admin_check ue aw identity = None" "\<And>c. \<not> ch_fails e c" "\<And>c d. ch_interf e c d = d"
    and "GetChallengeByID (db.truncate d) i = Some c"
  shows "AdminDeleteChallenge ue aw e None w now True s d identity i None = (s, DeleteChallenge d i, Recompute_force, None) \<and>
    i \<notin> c_ID ` set (challenges (DeleteChallenge d i)) \<and> i \<notin> s_ChallengeID ` set (submissions (DeleteChallenge d i))"
  using assms
  by (auto simp: AdminDeleteChallenge_def destroyInstanceIfAny_def Challenge_Delete_def get_challenge_def events_Get_def
        DeleteChallenge_def Let_def)

text \<open>An update can be stored without the recomputation that the scoreboard needs: when the reload for the answer
  fails after the update was written, the handler answers an error and asks for no recomputation.\<close>

theorem update_stored_without_recompute:
  assumes "admin_check ue aw identity = None" "Challenge_Update e d i (update_patch b) = (d', Inr c)" "ch_fails e XGet"
    and "\<And>c d. ch_interf e c d = d"
  shows "AdminUpdateChallenge ue aw e d identity i (Some b) = (d', NoRecompute, Inl (Internal ''challenges: get''))"
  using assms by (simp add: AdminUpdateChallenge_def GetAdmin_def get_challenge_def)

subsection \<open>Witnesses\<close>

text \<open>A visible container challenge with a running shared instance, during the event, and an administrator.\<close>

definition hd_admin :: User where
  "hd_admin = (bd_user 3)\<lparr>u_Role := ''admin''\<rparr>"

definition hd_identity :: Identity where
  "hd_identity = \<lparr>id_UserID = 3, id_Role = [], id_SessionToken = ''s'', id_Method = AuthSession, id_Scopes = [], id_TokenID = 0\<rparr>"

definition hd_acct :: acct where
  "hd_acct = (empty_adb\<lparr>users := [hd_admin]\<rparr>, empty_redis 0)"

definition hd_env :: chal_env where
  "hd_env = \<lparr>ch_fails = (\<lambda>_. False), ch_interf = (\<lambda>c d. d), ch_types = defaultTypeRegistry, ch_modes = defaultRegistry,
     ch_quote = (\<lambda>s. s), ch_json_map = (\<lambda>m. ''{}''), ch_json_list = (\<lambda>ws. ''[]''), ch_uni_lower = (\<lambda>s. s), ch_coll = length,
     ch_newid = Some 7, ch_uuid_text = (\<lambda>u. ''u''), ch_now = 0\<rparr>"

definition hd_db :: cdb where
  "hd_db = (bd_db [bd_solve 1 50])\<lparr>instances := [(box_row 8 5 ''running'' 30000)\<lparr>i_TeamID := None\<rparr>]\<rparr>"

text \<open>A runtime whose state is the list of its containers.\<close>

definition hd_runtime :: "uuid list runtime" where
  "hd_runtime = \<lparr>rt_Deploy = (\<lambda>w s d sp. (s, d, Inl ErrNotFound)), rt_Stop = (\<lambda>w s d i. (s, d, Inr ())),
     rt_Destroy = (\<lambda>s i. (filter (\<lambda>j. j \<noteq> i) s, Inr ())), rt_Status = (\<lambda>w s d i. (s, d, Inl ErrNotFound))\<rparr>"


lemma hd_admin_check: "admin_check calm_env hd_acct (Some hd_identity) = None"
  by (simp add: admin_check_def requireAdmin_def requireUser_def hd_identity_def hd_acct_def Users_Get_def calm_env_def
        GetUserByID_def hd_admin_def bd_user_def)

lemma hd_quiet: "\<not> stmt_fails lone_world q" "interf lone_world q x = x" "\<not> ch_fails hd_env k" "ch_interf hd_env k y = y"
  by (simp_all add: lone_world_def hd_env_def)

lemma hd_reads:
  "events_Get False (db.truncate hd_db) = Inr bd_event"
  "GetChallengeByID (db.truncate hd_db) 5 = Some (bd_challenge 5 ''open'' True)"
  "GetSharedInstance (db.truncate hd_db) 5 = Some ((box_row 8 5 ''running'' 30000)\<lparr>i_TeamID := None\<rparr>)"
  by (simp_all add: events_Get_def GetEvent_def GetChallengeByID_def GetSharedInstance_def hd_db_def bd_db_def db.truncate_def
        bd_challenge_def box_row_def)

theorem refused_delete_destroys_instance_witness:
  "\<exists>d' err. AdminDeleteChallenge calm_env hd_acct hd_env (Some hd_runtime) lone_world 60 False [8, 9] hd_db (Some hd_identity) 5 None
      = ([9], d', NoRecompute, Some (Conflict err)) \<and>
    challenges d' = challenges hd_db \<and> 8 \<notin> i_ID ` set (instances d')"
proof -
  have "phase 60 bd_event = PhaseRunning" "(None :: bool option) \<noteq> Some True" "c_Visible (bd_challenge 5 ''open'' True)"
    "rt_Destroy hd_runtime [8, 9] (i_ID ((box_row 8 5 ''running'' 30000)\<lparr>i_TeamID := None\<rparr>)) = ([9], Inr ())"
    by (simp_all add: phase_def bd_event_def bd_challenge_def hd_runtime_def box_row_def)
  from refused_delete_destroys_instance [OF hd_admin_check hd_quiet hd_reads(1) this(1,2) hd_reads(2) this(3) hd_reads(3) this(4)]
  show ?thesis by (auto simp: box_row_def)
qed

theorem unread_event_unguards_delete_witness:
  "fst (snd (AdminDeleteChallenge calm_env hd_acct hd_env None lone_world 60 True ([] :: uuid list) hd_db (Some hd_identity) 5 None)) =
     DeleteChallenge hd_db 5 \<and> 5 \<notin> s_ChallengeID ` set (submissions (DeleteChallenge hd_db 5))"
  using unread_event_unguards_delete [OF hd_admin_check hd_quiet(3,4) hd_reads(2), where w = lone_world and now = 60 and s = "[] :: uuid list"] by simp

end
