(* ===== verification/Fd_Budget.thy ===== *)
theory Fd_Budget
  imports Ws_Limits Go_Strings "HOL-Library.Word"
begin

text \<open>
  The file-descriptor budget (\<^verbatim>\<open>internal/fdbudget/budget.go\<close>), its use at start-up (\<^verbatim>\<open>cmd/platform/budget.go\<close>), and the
  limit of WebSocket connections that comes out of it. \<^verbatim>\<open>uint64\<close> is \<open>64 word\<close>; Go's \<^verbatim>\<open>int\<close> is an integer, with the
  conversions from and to \<^verbatim>\<open>uint64\<close> written out. Every method runs under the budget's mutex and is one step.
\<close>

subsection \<open>The budget\<close>

definition unlimited :: "64 word" where
  "unlimited = 2147483648"

record fd_claim =
  cl_Name :: string
  cl_Want :: int
  cl_Granted :: int
  cl_Clamped :: bool

record Budget =
  bu_soft :: "64 word"
  bu_reserved :: "64 word"
  bu_remaining :: "64 word"
  bu_unbounded :: bool
  bu_claims :: "fd_claim list"

definition NewBudget :: "64 word \<Rightarrow> Budget" where
  "NewBudget fdSoftLimit =
     (if fdSoftLimit = 0 \<or> unlimited \<le> fdSoftLimit
      then \<lparr>bu_soft = 0, bu_reserved = 0, bu_remaining = 0, bu_unbounded = True, bu_claims = []\<rparr>
      else let reserve = fdSoftLimit div 4;
               reserve = (if reserve < 256 then 256 else reserve);
               remaining = (if fdSoftLimit > reserve then fdSoftLimit - reserve else 0)
           in \<lparr>bu_soft = fdSoftLimit, bu_reserved = reserve, bu_remaining = remaining, bu_unbounded = False, bu_claims = []\<rparr>)"

definition fd_Claim :: "string \<Rightarrow> int \<Rightarrow> Budget \<Rightarrow> Budget \<times> int \<times> bool" where
  "fd_Claim name want b =
     (if bu_unbounded b
      then (b\<lparr>bu_claims := bu_claims b @ [\<lparr>cl_Name = name, cl_Want = want, cl_Granted = want, cl_Clamped = False\<rparr>]\<rparr>, want, False)
      else let rem = sint (bu_remaining b);
               (granted, clamped) = (if want \<le> 0 \<or> want > rem then (rem, True) else (want, False))
           in (b\<lparr>bu_remaining := bu_remaining b - word_of_int granted,
                bu_claims := bu_claims b @ [\<lparr>cl_Name = name, cl_Want = want, cl_Granted = granted, cl_Clamped = clamped\<rparr>]\<rparr>,
               granted, clamped))"

definition Split_budget :: "Budget \<Rightarrow> 64 word \<times> 64 word \<times> 64 word \<times> fd_claim list" where
  "Split_budget b = (bu_soft b, bu_reserved b, bu_remaining b, bu_claims b)"

text \<open>\<^verbatim>\<open>%d\<close>.\<close>

definition show_int :: "int \<Rightarrow> string" where
  "show_int n = (if n < 0 then CHR ''-'' # itoa (nat (- n)) else itoa (nat n))"

definition claim_text :: "bool \<Rightarrow> fd_claim \<Rightarrow> string" where
  "claim_text unbounded c =
     ''; '' @ cl_Name c @ ''='' @ show_int (cl_Granted c) @
     (if \<not> unbounded \<and> cl_Clamped c then ''(clamped from '' @ show_int (cl_Want c) @ '')'' else [])"

definition Budget_String :: "Budget \<Rightarrow> string" where
  "Budget_String b =
     (let (soft, reserved, remaining, claims) = Split_budget b
      in if bu_unbounded b
         then ''fd budget: unbounded (no RLIMIT_NOFILE constraint)'' @ concat (map (claim_text True) claims)
         else ''fd budget: soft='' @ itoa (unat soft) @ '' reserved='' @ itoa (unat reserved) @
              '' remaining='' @ itoa (unat remaining) @ concat (map (claim_text False) claims))"

subsection \<open>At start-up\<close>

record resourceBudget =
  rb_acct :: Budget
  rb_wsMaxConns :: int
  rb_pluginGlobal :: int

definition deriveResourceBudget :: "64 word \<Rightarrow> int \<Rightarrow> int \<Rightarrow> resourceBudget" where
  "deriveResourceBudget fdSoft pluginTotal wsMax =
     (let acct = NewBudget fdSoft;
          (acct, pluginGlobal, _) = fd_Claim ''plugin-inflight'' pluginTotal acct;
          (acct, ws, _) = fd_Claim ''websocket-conns'' wsMax acct
      in \<lparr>rb_acct = acct, rb_wsMaxConns = ws, rb_pluginGlobal = pluginGlobal\<rparr>)"

text \<open>The limits that the hub is given: the per-key cap and the handshake limits come from the configuration.\<close>

definition hub_limits :: "resourceBudget \<Rightarrow> int \<Rightarrow> int \<Rightarrow> duration \<Rightarrow> Limits" where
  "hub_limits rb perConn burst window =
     \<lparr>MaxConns = rb_wsMaxConns rb, MaxConnsPerKey = perConn, HandshakeBurst = burst, HandshakeWindow = window\<rparr>"

subsection \<open>Nothing is granted twice\<close>

definition claim_ok :: "fd_claim \<Rightarrow> bool" where
  "claim_ok c \<longleftrightarrow> 0 \<le> cl_Granted c \<and> (cl_Want c \<ge> 1 \<longrightarrow> cl_Granted c \<le> cl_Want c \<and> (cl_Clamped c \<longleftrightarrow> cl_Granted c < cl_Want c))"

text \<open>The headroom of a limit: what is left of it after the reserve.\<close>

definition headroom :: "64 word \<Rightarrow> int" where
  "headroom soft = max 0 (uint soft - max 256 (uint soft div 4))"

definition budget_ok :: "64 word \<Rightarrow> Budget \<Rightarrow> bool" where
  "budget_ok soft b \<longleftrightarrow> \<not> bu_unbounded b \<and> bu_soft b = soft \<and> uint (bu_remaining b) < 2147483648 \<and>
     sum_list (map cl_Granted (bu_claims b)) + uint (bu_remaining b) = headroom soft \<and> list_all claim_ok (bu_claims b)"

lemma uint_unlimited: "uint unlimited = 2147483648"
  by (simp add: unlimited_def)

lemma word_lt_iff: "(a::64 word) < b \<longleftrightarrow> uint a < uint b"
  by (simp add: word_less_def)

lemma new_budget_ok:
  assumes "soft \<noteq> 0" "soft < unlimited"
  shows "budget_ok soft (NewBudget soft)"
proof -
  have b: "uint soft < 2147483648" using assms(2) by (simp add: word_lt_iff uint_unlimited)
  have q: "uint (soft div 4) = uint soft div 4" by (simp add: uint_div)
  have sub: "uint (soft - r) = uint soft - uint r" if "uint r < uint soft" for r :: "64 word"
    using that by (simp add: uint_sub_if')
  show ?thesis using assms b
    by (auto simp: budget_ok_def NewBudget_def Let_def headroom_def word_lt_iff q sub not_le uint_unlimited max_def)
qed

lemma sint_small: "uint (w::64 word) < 2147483648 \<Longrightarrow> sint w = uint w"
  by (simp add: sint_uint) (rule signed_take_bit_int_eq_self, simp_all add: order_trans [OF _ uint_ge_0])

lemma claim_keeps_ok:
  assumes "budget_ok soft b"
  shows "budget_ok soft (fst (fd_Claim name want b))"
proof -
  let ?r = "uint (bu_remaining b)"
  have r: "?r < 2147483648" "sint (bu_remaining b) = ?r" using assms sint_small by (auto simp: budget_ok_def)
  have sub: "uint (bu_remaining b - word_of_int g) = ?r - g" if "0 \<le> g" "g \<le> ?r" for g
  proof -
    have "uint (word_of_int g :: 64 word) = g" using that r(1) by (simp add: uint_word_of_int)
    then show ?thesis using that by (simp add: uint_sub_if')
  qed
  show ?thesis
  proof (cases "want \<le> 0 \<or> want > ?r")
    case True
    then show ?thesis using assms sub [of ?r] r by (auto simp: budget_ok_def fd_Claim_def Let_def claim_ok_def)
  next
    case False
    then show ?thesis using assms sub [of want] r by (auto simp: budget_ok_def fd_Claim_def Let_def claim_ok_def)
  qed
qed


abbreviation all_claims :: "(string \<times> int) list \<Rightarrow> Budget \<Rightarrow> Budget" where
  "all_claims wants b \<equiv> fold (\<lambda>(name, want) b. fst (fd_Claim name want b)) wants b"

lemma all_claims_ok: "budget_ok soft b \<Longrightarrow> budget_ok soft (all_claims wants b)"
proof (induction wants arbitrary: b)
  case (Cons p wants)
  then show ?case using claim_keeps_ok [of soft b] by (cases p) auto
qed simp

lemma claim_fields [simp]:
  "bu_soft (fst (fd_Claim name want b)) = bu_soft b" "bu_reserved (fst (fd_Claim name want b)) = bu_reserved b"
  "bu_unbounded (fst (fd_Claim name want b)) = bu_unbounded b"
  by (auto simp: fd_Claim_def Let_def)

lemma all_claims_reserved: "bu_reserved (all_claims wants b) = bu_reserved b"
  by (induction wants arbitrary: b) (auto simp: case_prod_beta)

lemma new_reserved:
  assumes "soft \<noteq> 0" "soft < unlimited"
  shows "uint (bu_reserved (NewBudget soft)) = max 256 (uint soft div 4)"
  using assms by (auto simp: NewBudget_def Let_def not_le word_lt_iff uint_div uint_unlimited max_def)

text \<open>C34. The descriptors of a process are shared out once. Under a limit of at least 256, after any sequence of claims the
  grants, the remainder and the reserve add up to the limit exactly, in the machine's 64-bit arithmetic; every grant is
  between 0 and what was asked for, and is marked as clamped exactly when it is less.\<close>

theorem fd_budget_conserved:
  assumes "256 \<le> soft" "soft < unlimited"
  shows "let b = all_claims wants (NewBudget soft)
         in sum_list (map cl_Granted (bu_claims b)) + uint (bu_remaining b) + uint (bu_reserved b) = uint soft \<and>
            list_all claim_ok (bu_claims b)"
proof -
  have s: "256 \<le> uint soft" using assms(1) by (simp add: word_le_def)
  then have nz: "soft \<noteq> 0" by auto
  have "budget_ok soft (all_claims wants (NewBudget soft))"
    by (rule all_claims_ok [OF new_budget_ok [OF nz assms(2)]])
  moreover have "headroom soft + max 256 (uint soft div 4) = uint soft" using s by (auto simp: headroom_def max_def)
  ultimately show ?thesis
    by (simp add: Let_def budget_ok_def all_claims_reserved new_reserved [OF nz assms(2)])
qed

subsection \<open>The cap of WebSocket connections\<close>

lemma claim_grant:
  assumes "budget_ok soft b"
  shows "fst (snd (fd_Claim name want b)) = (if want \<le> 0 \<or> want > uint (bu_remaining b) then uint (bu_remaining b) else want)"
    "uint (bu_remaining (fst (fd_Claim name want b))) = uint (bu_remaining b) - fst (snd (fd_Claim name want b))"
proof -
  let ?r = "uint (bu_remaining b)"
  have r: "?r < 2147483648" "sint (bu_remaining b) = ?r" using assms sint_small by (auto simp: budget_ok_def)
  show g: "fst (snd (fd_Claim name want b)) = (if want \<le> 0 \<or> want > ?r then ?r else want)"
    using assms r by (auto simp: fd_Claim_def Let_def budget_ok_def)
  have "budget_ok soft (fst (fd_Claim name want b))" by (rule claim_keeps_ok [OF assms])
  moreover have "bu_claims (fst (fd_Claim name want b)) =
      bu_claims b @ [\<lparr>cl_Name = name, cl_Want = want, cl_Granted = fst (snd (fd_Claim name want b)),
        cl_Clamped = snd (snd (fd_Claim name want b))\<rparr>]"
    using assms by (auto simp: fd_Claim_def Let_def budget_ok_def)
  ultimately show "uint (bu_remaining (fst (fd_Claim name want b))) = ?r - fst (snd (fd_Claim name want b))"
    using assms by (simp add: budget_ok_def)
qed

lemma derived:
  assumes "soft \<noteq> 0" "soft < unlimited" "1 \<le> pt"
  shows "rb_pluginGlobal (deriveResourceBudget soft pt ws) = min pt (headroom soft)"
    "rb_wsMaxConns (deriveResourceBudget soft pt ws) =
       (let rem = headroom soft - min pt (headroom soft) in if ws \<le> 0 \<or> ws > rem then rem else ws)"
proof -
  let ?b = "NewBudget soft"
  have ok: "budget_ok soft ?b" by (rule new_budget_ok [OF assms(1,2)])
  have "bu_claims ?b = []" by (simp add: NewBudget_def Let_def)
  then have h: "uint (bu_remaining ?b) = headroom soft" using ok by (simp add: budget_ok_def)
  note g1 = claim_grant [OF ok, of "''plugin-inflight''" pt, unfolded h]
  note g2 = claim_grant [OF claim_keeps_ok [OF ok, of "''plugin-inflight''" pt], of "''websocket-conns''" ws]
  show "rb_pluginGlobal (deriveResourceBudget soft pt ws) = min pt (headroom soft)"
    using g1(1) assms(3) by (auto simp: deriveResourceBudget_def case_prod_beta Let_def min_def)
  show "rb_wsMaxConns (deriveResourceBudget soft pt ws) =
       (let rem = headroom soft - min pt (headroom soft) in if ws \<le> 0 \<or> ws > rem then rem else ws)"
    using g1 g2(1) assms(3) by (auto simp: deriveResourceBudget_def case_prod_beta Let_def min_def)
qed

abbreviation admit_all :: "time \<Rightarrow> string list \<Rightarrow> admissions \<Rightarrow> admissions" where
  "admit_all now keys a \<equiv> fold (\<lambda>k a. fst (admit now k a)) keys a"

lemma admit_all_capped:
  assumes "MaxConns (limits a) > 0" "total a \<le> MaxConns (limits a)"
  shows "limits (admit_all now keys a) = limits a \<and> total (admit_all now keys a) \<le> MaxConns (limits a)"
proof (induction keys rule: rev_induct)
  case (snoc k keys)
  let ?a = "admit_all now keys a"
  obtain a' why ok where r: "admit now k ?a = (a', why, ok)" by (cases "admit now k ?a")
  show ?case
  proof (cases ok)
    case True
    then show ?thesis using admit_granted [of now k ?a a' why] r snoc assms(1) by simp
  next
    case False
    then show ?thesis using admit_refused [of now k ?a a' why] r snoc by simp
  qed
qed (simp add: assms)

text \<open>C35. While the plugins leave some of the budget over, the connection cap that start-up derives is a real one: whatever
  handshakes arrive, no more connections are admitted than the cap, and reserve, plugin calls and connections together
  stay within the descriptor limit.\<close>

theorem ws_cap_within_budget:
  assumes "256 \<le> soft" "soft < unlimited" "1 \<le> pt" "pt < headroom soft"
  shows "let rb = deriveResourceBudget soft pt ws
         in total (admit_all now keys (newAdmissions (hub_limits rb per burst window))) \<le> rb_wsMaxConns rb \<and>
            max 256 (uint soft div 4) + rb_pluginGlobal rb + rb_wsMaxConns rb \<le> uint soft"
proof -
  have s: "256 \<le> uint soft" using assms(1) by (simp add: word_le_def)
  then have nz: "soft \<noteq> 0" by auto
  define rb where "rb = deriveResourceBudget soft pt ws"
  note d = derived [OF nz assms(2,3), of ws, folded rb_def]
  have pos: "0 < rb_wsMaxConns rb" "rb_pluginGlobal rb + rb_wsMaxConns rb \<le> headroom soft"
    using d assms(3,4) by (auto simp: Let_def min_def)
  have "headroom soft + max 256 (uint soft div 4) = uint soft" using s by (auto simp: headroom_def max_def)
  moreover have "total (admit_all now keys (newAdmissions (hub_limits rb per burst window))) \<le> rb_wsMaxConns rb"
    using admit_all_capped [of "newAdmissions (hub_limits rb per burst window)" now keys] pos(1)
    by (simp add: newAdmissions_def hub_limits_def)
  ultimately show ?thesis using pos(2) by (simp add: Let_def rb_def)
qed

lemma admit_fresh:
  assumes "MaxConns (limits a) = 0" "count_at (perKey a) k = 0" "hits_of a k = []" "count_at (forgive a) k = 0"
    "MaxConnsPerKey (limits a) \<ge> 0"
  shows "\<exists>a'. admit now k a = (a', [], True) \<and> limits a' = limits a \<and> total a' = total a + 1 \<and>
    (\<forall>j. j \<noteq> k \<longrightarrow> count_at (perKey a') j = count_at (perKey a) j \<and> hits_of a' j = hits_of a j \<and>
       count_at (forgive a') j = count_at (forgive a) j)"
  using assms by (auto simp: admit_def admit_handshake_def Let_def hits_of_def)

lemma admit_all_fresh:
  assumes "MaxConns (limits a) = 0" "MaxConnsPerKey (limits a) \<ge> 0" "distinct keys"
    "\<forall>k\<in>set keys. count_at (perKey a) k = 0 \<and> hits_of a k = [] \<and> count_at (forgive a) k = 0"
  shows "total (admit_all now keys a) = total a + int (length keys)"
  using assms
proof (induction keys arbitrary: a)
  case (Cons k keys)
  obtain a' where a': "admit now k a = (a', [], True)" "limits a' = limits a" "total a' = total a + 1"
    "\<And>j. j \<noteq> k \<Longrightarrow> count_at (perKey a') j = count_at (perKey a) j \<and> hits_of a' j = hits_of a j \<and>
       count_at (forgive a') j = count_at (forgive a) j"
    using admit_fresh [of a k now] Cons.prems by auto
  have "total (admit_all now keys a') = total a' + int (length keys)"
  proof (rule Cons.IH)
    show "\<forall>j\<in>set keys. count_at (perKey a') j = 0 \<and> hits_of a' j = [] \<and> count_at (forgive a') j = 0"
    proof
      fix j
      assume "j \<in> set keys"
      moreover from this have "j \<noteq> k" using Cons.prems(3) by auto
      ultimately show "count_at (perKey a') j = 0 \<and> hits_of a' j = [] \<and> count_at (forgive a') j = 0"
        using a'(4) [of j] Cons.prems(4) by auto
    qed
  qed (use Cons.prems a' in simp_all)
  then show ?case using a' by simp
qed simp

text \<open>When the plugins' claim uses up the budget, the cap is lifted instead of being tightened: nothing is left for the
  connections, their grant is 0, and 0 means unlimited to the hub. Then any number of clients, one connection each, is
  admitted.\<close>

theorem exhausted_budget_lifts_ws_cap:
  assumes "soft \<noteq> 0" "soft < unlimited" "1 \<le> pt" "headroom soft \<le> pt" "0 \<le> per" "distinct keys"
  shows "let rb = deriveResourceBudget soft pt ws
         in rb_wsMaxConns rb = 0 \<and>
            total (admit_all now keys (newAdmissions (hub_limits rb per burst window))) = int (length keys)"
proof -
  define rb where "rb = deriveResourceBudget soft pt ws"
  have "0 \<le> headroom soft" by (simp add: headroom_def)
  then have z: "rb_wsMaxConns rb = 0" using derived [OF assms(1-3), of ws, folded rb_def] assms(4) by (auto simp: Let_def min_def)
  have "total (admit_all now keys (newAdmissions (hub_limits rb per burst window))) =
      total (newAdmissions (hub_limits rb per burst window)) + int (length keys)"
    by (rule admit_all_fresh) (use z assms(5,6) in \<open>simp_all add: newAdmissions_def hub_limits_def hits_of_def\<close>)
  then show ?thesis using z by (simp add: Let_def rb_def newAdmissions_def)
qed

subsection \<open>Witnesses\<close>

theorem fd_budget_conserved_witness:
  "sum_list (map cl_Granted (bu_claims (all_claims [(''a'', 256), (''b'', 20000)] (NewBudget 1024)))) +
     uint (bu_remaining (all_claims [(''a'', 256), (''b'', 20000)] (NewBudget 1024))) +
     uint (bu_reserved (all_claims [(''a'', 256), (''b'', 20000)] (NewBudget 1024))) = 1024"
proof -
  have "(256::64 word) \<le> 1024" "(1024::64 word) < unlimited" by (simp_all add: unlimited_def)
  from fd_budget_conserved [OF this, of "[(''a'', 256), (''b'', 20000)]"] show ?thesis by (simp add: Let_def)
qed

theorem ws_cap_within_budget_witness:
  "let rb = deriveResourceBudget 1024 256 20000
   in total (admit_all 0 [''x'', ''y''] (newAdmissions (hub_limits rb 1 10 60))) \<le> rb_wsMaxConns rb \<and>
      256 + rb_pluginGlobal rb + rb_wsMaxConns rb \<le> 1024"
proof -
  have "(256::64 word) \<le> 1024" "(1024::64 word) < unlimited" "(1::int) \<le> 256" "(256::int) < headroom 1024"
    by (simp_all add: unlimited_def headroom_def)
  from ws_cap_within_budget [OF this, where ws = 20000 and now = 0 and keys = "[''x'', ''y'']" and per = 1 and burst = 10
      and window = 60]
  show ?thesis by (simp add: Let_def)
qed

theorem exhausted_budget_lifts_ws_cap_witness:
  "let rb = deriveResourceBudget 1024 768 20000
   in rb_wsMaxConns rb = 0 \<and> total (admit_all 0 [''x'', ''y'', ''z''] (newAdmissions (hub_limits rb 1 10 60))) = 3"
proof -
  have "(1024::64 word) \<noteq> 0" "(1024::64 word) < unlimited" "(1::int) \<le> 768" "headroom 1024 \<le> 768" "(0::int) \<le> 1"
    "distinct [''x'', ''y'', ''z'']"
    by (simp_all add: unlimited_def headroom_def)
  from exhausted_budget_lifts_ws_cap [OF this, where ws = 20000 and now = 0 and burst = 10 and window = 60]
  show ?thesis by (simp add: Let_def)
qed

end
