(* ===== verification/Challenge_Admin_Safety.thy ===== *)
theory Challenge_Admin_Safety
  imports Challenge_Admin
begin

text \<open>
  Derived slugs are valid; the validation of a challenge against the constraints of its table: which inputs pass the
  one and break the other; attachment rows and stored objects.
\<close>

subsection \<open>Slugs\<close>

abbreviation slug_or_dash :: "char \<Rightarrow> bool" where
  "slug_or_dash c \<equiv> slug_char c \<or> c = CHR ''-''"

abbreviation no_two_dashes :: "string \<Rightarrow> bool" where
  "no_two_dashes \<equiv> successively (\<lambda>a b. \<not> (a = CHR ''-'' \<and> b = CHR ''-''))"

abbreviation slug_word :: "string \<Rightarrow> bool" where
  "slug_word w \<equiv> w \<noteq> [] \<and> list_all slug_char w"

lemma dash_not_slug [simp]: "\<not> slug_char CHR ''-''"
  by code_simp

lemma Split_not_Nil [simp]: "Split s c \<noteq> []"
  by (induction s) (auto split: list.splits)

text \<open>The words of a text after a hyphen, and after a letter.\<close>

lemma split_words:
  "list_all slug_word (Split s CHR ''-'') \<longleftrightarrow>
     s \<noteq> [] \<and> list_all slug_or_dash s \<and> no_two_dashes s \<and> hd s \<noteq> CHR ''-'' \<and> last s \<noteq> CHR ''-''" (is ?after_dash)
  "list_all slug_char (hd (Split s CHR ''-'')) \<and> list_all slug_word (tl (Split s CHR ''-'')) \<longleftrightarrow>
     list_all slug_or_dash s \<and> no_two_dashes s \<and> (s \<noteq> [] \<longrightarrow> last s \<noteq> CHR ''-'')" (is ?after_letter)
proof (induction s)
  case (Cons c cs)
  {
    case 1
    show ?case using Cons.IH
      by (cases "Split cs CHR ''-''"; cases cs) (auto simp: successively_Cons split: list.splits)
  next
    case 2
    show ?case using Cons.IH
      by (cases "Split cs CHR ''-''"; cases cs) (auto simp: successively_Cons split: list.splits)
  }
qed auto

lemma slugRe_iff:
  "slugRe s \<longleftrightarrow> s \<noteq> [] \<and> list_all slug_or_dash s \<and> no_two_dashes s \<and> hd s \<noteq> CHR ''-'' \<and> last s \<noteq> CHR ''-''"
  unfolding slugRe_def by (rule split_words(1))

lemma dash_runs_shape:
  "list_all slug_or_dash (dash_runs s) \<and> no_two_dashes (dash_runs s) \<and>
   (s \<noteq> [] \<longrightarrow> slug_char (hd s) \<longrightarrow> hd (dash_runs s) \<noteq> CHR ''-'')"
proof (induction s rule: dash_runs.induct)
  case (2 c cs)
  show ?case
  proof (cases "slug_char c")
    case True
    then have "c \<noteq> CHR ''-''" by auto
    with 2(1) [OF True] True show ?thesis by (auto simp: successively_Cons)
  next
    case False
    define r where "r = dropWhile (\<lambda>x. \<not> slug_char x) cs"
    have "r = [] \<or> slug_char (hd r)" using hd_dropWhile [of "\<lambda>x. \<not> slug_char x" cs] unfolding r_def by blast
    moreover have "dash_runs (c # cs) = CHR ''-'' # dash_runs r" using False by (simp add: r_def)
    ultimately show ?thesis using 2(2) [OF False] False unfolding r_def [symmetric]
      by (cases r) (auto simp: successively_Cons)
  qed
qed simp

lemma no_two_dashes_rev: "no_two_dashes (rev s) \<longleftrightarrow> no_two_dashes s"
proof -
  have "(\<lambda>x y. \<not> (y = CHR ''-'' \<and> x = CHR ''-'')) = (\<lambda>x y. \<not> (x = CHR ''-'' \<and> y = CHR ''-''))" by (intro ext) blast
  then show ?thesis unfolding successively_rev by metis
qed

lemma trim_front:
  assumes "list_all P s" "successively R s"
  shows "list_all P (dropWhile Q s) \<and> successively R (dropWhile Q s)"
proof -
  have "s = takeWhile Q s @ dropWhile Q s" by simp
  with assms show ?thesis by (metis list_all_append successively_append_iff)
qed

text \<open>A slug derived from a title is valid whenever there is one: for every title, whatever its characters,
  \<^verbatim>\<open>slugify\<close> gives the empty text or lowercase alphanumeric words separated by single hyphens.\<close>

theorem slugify_valid:
  "slugRe (slugify uni_lower title) \<longleftrightarrow> slugify uni_lower title \<noteq> []"
proof -
  define d where "d = dash_runs (ToLower uni_lower (TrimSpace title))"
  define f where "f = dropWhile (\<lambda>c. c = CHR ''-'') d"
  define b where "b = dropWhile (\<lambda>c. c = CHR ''-'') (rev f)"
  have s: "slugify uni_lower title = rev b" by (simp add: slugify_def trim_dashes_def d_def f_def b_def)
  have "list_all slug_or_dash d" "no_two_dashes d" unfolding d_def using dash_runs_shape by blast+
  then have f: "list_all slug_or_dash f \<and> no_two_dashes f" unfolding f_def by (rule trim_front)
  then have "list_all slug_or_dash (rev f)" "no_two_dashes (rev f)" unfolding list_all_rev no_two_dashes_rev by blast+
  then have b: "list_all slug_or_dash b \<and> no_two_dashes b" unfolding b_def by (rule trim_front)
  have hb: "b \<noteq> [] \<Longrightarrow> hd b \<noteq> CHR ''-''" unfolding b_def by (rule hd_dropWhile)
  have lb: "b \<noteq> [] \<Longrightarrow> last b \<noteq> CHR ''-''"
  proof -
    assume "b \<noteq> []"
    then have "rev f \<noteq> []" by (auto simp: b_def)
    have "rev f = takeWhile (\<lambda>c. c = CHR ''-'') (rev f) @ b" by (simp add: b_def)
    then have "last (rev f) = last (takeWhile (\<lambda>c. c = CHR ''-'') (rev f) @ b)" by (rule arg_cong)
    then have "last b = last (rev f)" using \<open>b \<noteq> []\<close> unfolding last_append by simp
    moreover have "last (rev f) = hd f" using \<open>rev f \<noteq> []\<close> by (simp add: last_rev)
    moreover have "hd f \<noteq> CHR ''-''" using \<open>rev f \<noteq> []\<close> unfolding f_def rev_is_Nil_conv by (rule hd_dropWhile)
    ultimately show "last b \<noteq> CHR ''-''" by simp
  qed
  have "b \<noteq> [] \<Longrightarrow> hd (rev b) \<noteq> CHR ''-'' \<and> last (rev b) \<noteq> CHR ''-''"
    using hb lb by (simp add: hd_rev last_rev)
  then show ?thesis using b unfolding s slugRe_iff no_two_dashes_rev list_all_rev rev_is_Nil_conv by blast
qed


subsection \<open>Validation against the constraints of the table\<close>

lemmas validation_defs = add_if_Nil_iff OrNil_None_iff valOrZero_def validate_dynamic_def opt_all_def

lemma opt_all_simps [simp]: "opt_all P None" "opt_all P (Some x) = P x"
  by (simp_all add: opt_all_def)

lemma validate_dynamic_Nil_iff [simp]:
  "validate_dynamic m n k v = [] \<longleftrightarrow> 1 \<le> m \<and> m \<le> n \<and> 1 \<le> k \<and> v = []"
  by (auto simp: validate_dynamic_def)

lemma validateContainerLimits_Nil_iff [simp]:
  "validateContainerLimits v mem cpu = [] \<longleftrightarrow>
     opt_all (\<lambda>m. 16 \<le> m \<and> m \<le> 8192) mem \<and> opt_all (\<lambda>c. 100 \<le> c \<and> c \<le> 8000) cpu \<and> v = []"
  by (cases mem; cases cpu) (auto simp: validateContainerLimits_def)

lemma validateInstancing_Nil_iff [simp]:
  "validateInstancing v kind instancing flagMode ttl egress w = [] \<longleftrightarrow>
     v = [] \<and> instancing \<in> {'''', ''shared'', ''per_team''} \<and> flagMode \<in> {'''', ''static'', ''per_instance''} \<and>
     opt_all (\<lambda>t. 0 \<le> t) ttl \<and>
     (kind = ''container'' \<or>
        instancing \<noteq> ''per_team'' \<and> flagMode \<noteq> ''per_instance'' \<and> ttl = None \<and> egress \<noteq> Some False \<and> \<not> w)"
  by (cases ttl) (auto simp: validateInstancing_def Let_def)

lemma clampI32_simps [simp]:
  "0 < clampI32 n \<longleftrightarrow> 0 < n" "0 \<le> clampI32 n \<longleftrightarrow> 0 \<le> n"
  "1 \<le> clampI32 n \<longleftrightarrow> 1 \<le> n" "clampI32 n \<le> 65535 \<longleftrightarrow> n \<le> 65535"
  "16 \<le> clampI32 n \<longleftrightarrow> 16 \<le> n" "clampI32 n \<le> 8192 \<longleftrightarrow> n \<le> 8192"
  "100 \<le> clampI32 n \<longleftrightarrow> 100 \<le> n" "clampI32 n \<le> 8000 \<longleftrightarrow> n \<le> 8000"
  by (simp_all add: clampI32_def)

lemma clampI32_mono: "m \<le> n \<Longrightarrow> clampI32 m \<le> clampI32 n"
  by (simp add: clampI32_def)

lemma validateCreate_NoneD:
  assumes "validateCreate e i slug = None"
  shows "ci_Category i \<in> set valid_cats" "opt_all (\<lambda>d. d \<in> set valid_diffs) (ci_Difficulty i)"
    "ci_Kind i = ''standard'' \<or> ci_Kind i = ''container''" "1 \<le> ci_PointsInitial i"
    "ci_Scoring i = ''dynamic'' \<Longrightarrow> 1 \<le> valOrZero (ci_PointsMin i)"
    "ci_Scoring i = ''dynamic'' \<Longrightarrow> valOrZero (ci_PointsMin i) \<le> ci_PointsInitial i"
    "ci_Scoring i = ''dynamic'' \<Longrightarrow> 1 \<le> valOrZero (ci_Decay i)"
    "ci_Kind i = ''container'' \<Longrightarrow> ci_InternalPort i \<noteq> None \<and> opt_all (\<lambda>p. 1 \<le> p \<and> p \<le> 65535) (ci_InternalPort i)"
    "ci_Kind i = ''container'' \<Longrightarrow> ci_Image i \<noteq> None"
    "opt_all (\<lambda>m. 16 \<le> m \<and> m \<le> 8192) (ci_MemLimitMB i)" "opt_all (\<lambda>c. 100 \<le> c \<and> c \<le> 8000) (ci_CPUMillis i)"
    "opt_all (\<lambda>n. \<not> n < 1) (ci_MaxAttempts i)"
    "ci_Instancing i \<in> {[], ''shared'', ''per_team''}" "ci_FlagMode i \<in> {[], ''static'', ''per_instance''}"
    "opt_all (\<lambda>t. 0 \<le> t) (ci_InstanceTTLSeconds i)"
    "ci_Kind i = ''container'' \<or>
       ci_Instancing i \<noteq> ''per_team'' \<and> ci_FlagMode i \<noteq> ''per_instance'' \<and> ci_InstanceTTLSeconds i = None \<and>
       ci_Egress i \<noteq> Some False \<and> ci_WritablePaths i = []"
proof -
  have port: "(case ci_InternalPort i of None \<Rightarrow> False | Some p \<Rightarrow> 1 \<le> p \<and> p \<le> 65535) \<longleftrightarrow>
      ci_InternalPort i \<noteq> None \<and> opt_all (\<lambda>p. 1 \<le> p \<and> p \<le> 65535) (ci_InternalPort i)"
    by (cases "ci_InternalPort i") simp_all
  note raw = assms [unfolded validateCreate_def Let_def port OrNil_None_iff validateInstancing_Nil_iff
      validateContainerLimits_Nil_iff add_if_Nil_iff if_split [of "\<lambda>x. x = []"] validate_dynamic_Nil_iff]
  from raw show "ci_Category i \<in> set valid_cats" "opt_all (\<lambda>d. d \<in> set valid_diffs) (ci_Difficulty i)"
    "ci_Kind i = ''standard'' \<or> ci_Kind i = ''container''"
    "opt_all (\<lambda>m. 16 \<le> m \<and> m \<le> 8192) (ci_MemLimitMB i)" "opt_all (\<lambda>c. 100 \<le> c \<and> c \<le> 8000) (ci_CPUMillis i)"
    "opt_all (\<lambda>n. \<not> n < 1) (ci_MaxAttempts i)"
    "ci_Instancing i \<in> {[], ''shared'', ''per_team''}" "ci_FlagMode i \<in> {[], ''static'', ''per_instance''}"
    "opt_all (\<lambda>t. 0 \<le> t) (ci_InstanceTTLSeconds i)"
    "ci_Kind i = ''container'' \<or>
       ci_Instancing i \<noteq> ''per_team'' \<and> ci_FlagMode i \<noteq> ''per_instance'' \<and> ci_InstanceTTLSeconds i = None \<and>
       ci_Egress i \<noteq> Some False \<and> ci_WritablePaths i = []"
    by argo+
  from raw have "\<not> ci_PointsInitial i < 1" by argo
  then show "1 \<le> ci_PointsInitial i" by simp
  {
    assume k: "ci_Scoring i = ''dynamic''"
    from raw k show "1 \<le> valOrZero (ci_PointsMin i)" by argo
    from raw k show "valOrZero (ci_PointsMin i) \<le> ci_PointsInitial i" by argo
    from raw k show "1 \<le> valOrZero (ci_Decay i)" by argo
  next
    assume k: "ci_Kind i = ''container''"
    from raw k show "ci_InternalPort i \<noteq> None \<and> opt_all (\<lambda>p. 1 \<le> p \<and> p \<le> 65535) (ci_InternalPort i)" by argo
    from raw k show "ci_Image i \<noteq> None" by argo
  }
qed


lemma failed_check_eq_None: "failed_check c = None \<longleftrightarrow> list_all (\<lambda>(n, P). P c) challenge_checks"
  by (auto simp: failed_check_def find_None_iff list_all_iff)

text \<open>When the checks before and after the one on the port hold, only it can fail.\<close>

lemma failed_check_port:
  assumes "c_Category c \<in> set valid_cats" "opt_all (\<lambda>d. d \<in> set valid_diffs) (c_Difficulty c)"
    "c_Kind c = ''standard'' \<or> c_Kind c = ''container''" "c_PointsInitial c > 0" "opt_all (\<lambda>n. n > 0) (c_MaxAttempts c)"
    "16 \<le> c_MemLimitMb c \<and> c_MemLimitMb c \<le> 8192" "100 \<le> c_CpuMillis c \<and> c_CpuMillis c \<le> 8000"
    "c_Instancing c = ''shared'' \<or> c_Instancing c = ''per_team''"
    "c_FlagMode c = ''static'' \<or> c_FlagMode c = ''per_instance''" "opt_all (\<lambda>n. n \<ge> 0) (c_InstanceTtlSeconds c)"
    "chk_dynamic_fields c" "chk_container_fields c" "chk_instancing_kind c"
  shows "failed_check c = (if opt_all (\<lambda>p. 1 \<le> p \<and> p \<le> 65535) (c_InternalPort c) then None
                           else Some ''challenges_internal_port_check'')"
  using assms by (simp add: failed_check_def challenge_checks_def)

lemma opt_all_i32p:
  "opt_all P (map_option f x) = opt_all (\<lambda>y. P (f y)) x"
  by (cases x) simp_all

lemma opt_all_mono: "opt_all P x \<Longrightarrow> (\<And>y. P y \<Longrightarrow> Q y) \<Longrightarrow> opt_all Q x"
  by (cases x) simp_all

text \<open>C14. The validation of a new challenge mirrors the constraints of the table, but for one: a challenge that
  passes \<^verbatim>\<open>validateCreate\<close> (after the defaults) satisfies every \<^verbatim>\<open>CHECK\<close> of \<^verbatim>\<open>challenges\<close> as it is inserted, with every
  number clamped to 32 bits, unless it is a standard challenge with an internal port outside 1..65535, which the
  validation lets through and the database refuses.\<close>

theorem create_mirrors_checks:
  assumes "validateCreate e (create_defaults inp) slug = None"
  shows "failed_check (create_row e (create_defaults inp) slug tc cid) =
           (if opt_all (\<lambda>p. 1 \<le> p \<and> p \<le> 65535) (ci_InternalPort inp) then None
            else Some ''challenges_internal_port_check'') \<and>
         (opt_all (\<lambda>p. 1 \<le> p \<and> p \<le> 65535) (ci_InternalPort inp) \<or> ci_Kind (create_defaults inp) = ''standard'')"
proof -
  define i where "i = create_defaults inp"
  note D = validateCreate_NoneD [OF assms [folded i_def]]
  have ports: "ci_InternalPort i = ci_InternalPort inp" by (simp add: i_def create_defaults_def)
  have ne: "ci_Instancing i \<noteq> []" "ci_FlagMode i \<noteq> []" by (simp_all add: i_def create_defaults_def)
  define c where "c = create_row e i slug tc cid"
  note r = c_def create_row_def i32p_def
  have dyn: "chk_dynamic_fields c" using D(5-7) clampI32_mono
    by (cases "ci_PointsMin i"; cases "ci_Decay i") (auto simp: chk_dynamic_fields_def r valOrZero_def)
  have con: "chk_container_fields c" using D(8,9) by (auto simp: chk_container_fields_def r)
  have ins: "chk_instancing_kind c" using D(3,13,14,16) ne
    by (cases "ci_Egress i") (auto simp: chk_instancing_kind_def r coalesce_def)
  have mem: "16 \<le> c_MemLimitMb c \<and> c_MemLimitMb c \<le> 8192" using D(10) by (cases "ci_MemLimitMB i") (auto simp: r)
  have cpu: "100 \<le> c_CpuMillis c \<and> c_CpuMillis c \<le> 8000" using D(11) by (cases "ci_CPUMillis i") (auto simp: r)
  have att: "opt_all (\<lambda>n. n > 0) (c_MaxAttempts c)" using D(12) by (cases "ci_MaxAttempts i") (auto simp: r)
  have ttl: "opt_all (\<lambda>n. n \<ge> 0) (c_InstanceTtlSeconds c)" using D(15) by (cases "ci_InstanceTTLSeconds i") (auto simp: r)
  have "failed_check c = (if opt_all (\<lambda>p. 1 \<le> p \<and> p \<le> 65535) (c_InternalPort c) then None
          else Some ''challenges_internal_port_check'')"
    by (rule failed_check_port [OF _ _ _ _ att mem cpu _ _ ttl dyn con ins]) (use D(1-4,13,14) ne in \<open>auto simp: r\<close>)
  moreover have "opt_all (\<lambda>p. 1 \<le> p \<and> p \<le> 65535) (c_InternalPort c) = opt_all (\<lambda>p. 1 \<le> p \<and> p \<le> 65535) (ci_InternalPort inp)"
    by (simp add: r ports opt_all_i32p)
  ultimately show ?thesis using D(3,8) ports unfolding c_def i_def by auto
qed


lemma validateUpdate_NoneD:
  fixes e cur p
  defines "scoring \<equiv> coalesce (cp_Scoring p) (c_Scoring cur)"
    and "initial \<equiv> coalesce (cp_PointsInitial p) (c_PointsInitial cur)"
    and "pmin \<equiv> valOrZero (if cp_SetPointsMin p then cp_PointsMin p else c_PointsMin cur)"
    and "dec \<equiv> valOrZero (if cp_SetDecay p then cp_Decay p else c_Decay cur)"
    and "inst \<equiv> coalesce (cp_Instancing p) (c_Instancing cur)"
    and "fm \<equiv> coalesce (cp_FlagMode p) (c_FlagMode cur)"
    and "ttl \<equiv> (if cp_SetInstanceTTL p then cp_InstanceTTLSeconds p else c_InstanceTtlSeconds cur)"
    and "img \<equiv> (if cp_SetImage p then cp_Image p else c_Image cur)"
    and "port \<equiv> (if cp_SetInternalPort p then i32p (cp_InternalPort p) else c_InternalPort cur)"
  assumes "validateUpdate e cur p = None"
  shows "opt_all (\<lambda>c. c \<in> set valid_cats) (cp_Category p)"
    "cp_SetDifficulty p \<Longrightarrow> opt_all (\<lambda>x. x \<in> set valid_diffs) (cp_Difficulty p)"
    "cp_PointsInitial p = None \<or> \<not> initial < 1"
    "scoring = ''dynamic'' \<Longrightarrow> 1 \<le> pmin" "scoring = ''dynamic'' \<Longrightarrow> pmin \<le> initial" "scoring = ''dynamic'' \<Longrightarrow> 1 \<le> dec"
    "c_Kind cur = ''container'' \<Longrightarrow> port \<noteq> None" "c_Kind cur = ''container'' \<Longrightarrow> img \<noteq> None"
    "opt_all (\<lambda>m. 16 \<le> m \<and> m \<le> 8192) (cp_MemLimitMB p)" "opt_all (\<lambda>c. 100 \<le> c \<and> c \<le> 8000) (cp_CPUMillis p)"
    "inst \<in> {[], ''shared'', ''per_team''}" "fm \<in> {[], ''static'', ''per_instance''}" "opt_all (\<lambda>t. 0 \<le> t) ttl"
    "c_Kind cur = ''container'' \<or>
       inst \<noteq> ''per_team'' \<and> fm \<noteq> ''per_instance'' \<and> ttl = None \<and>
       Some (coalesce (cp_Egress p) (c_Egress cur)) \<noteq> Some False \<and> \<not> (case cp_WritablePaths p of None \<Rightarrow> False | Some ws \<Rightarrow> ws \<noteq> [])"
proof -
  note raw = assms(10) [unfolded validateUpdate_def Let_def OrNil_None_iff validateInstancing_Nil_iff
      validateContainerLimits_Nil_iff add_if_Nil_iff if_split [of "\<lambda>x. x = []"] validate_dynamic_Nil_iff,
      folded scoring_def initial_def pmin_def dec_def inst_def fm_def ttl_def img_def port_def]
  from raw show "opt_all (\<lambda>c. c \<in> set valid_cats) (cp_Category p)"
    "cp_PointsInitial p = None \<or> \<not> initial < 1"
    "opt_all (\<lambda>m. 16 \<le> m \<and> m \<le> 8192) (cp_MemLimitMB p)" "opt_all (\<lambda>c. 100 \<le> c \<and> c \<le> 8000) (cp_CPUMillis p)"
    "inst \<in> {[], ''shared'', ''per_team''}" "fm \<in> {[], ''static'', ''per_instance''}" "opt_all (\<lambda>t. 0 \<le> t) ttl"
    "c_Kind cur = ''container'' \<or>
       inst \<noteq> ''per_team'' \<and> fm \<noteq> ''per_instance'' \<and> ttl = None \<and>
       Some (coalesce (cp_Egress p) (c_Egress cur)) \<noteq> Some False \<and> \<not> (case cp_WritablePaths p of None \<Rightarrow> False | Some ws \<Rightarrow> ws \<noteq> [])"
    by argo+
  {
    assume k: "cp_SetDifficulty p"
    from raw k show "opt_all (\<lambda>x. x \<in> set valid_diffs) (cp_Difficulty p)" by argo
  next
    assume k: "scoring = ''dynamic''"
    from raw k show "1 \<le> pmin" by argo
    from raw k show "pmin \<le> initial" by argo
    from raw k show "1 \<le> dec" by argo
  next
    assume k: "c_Kind cur = ''container''"
    from raw k show "port \<noteq> None" by argo
    from raw k show "img \<noteq> None" by argo
  }
qed


lemma patched_instancing:
  assumes "failed_check cur = None" "validateUpdate e cur p = None" "ch_json_list e [] = ''[]''"
    "cp_Instancing p \<noteq> Some []" "cp_FlagMode p \<noteq> Some []"
  shows "chk_instancing_kind (patched e p tc cur)"
    "c_Instancing (patched e p tc cur) = ''shared'' \<or> c_Instancing (patched e p tc cur) = ''per_team''"
    "c_FlagMode (patched e p tc cur) = ''static'' \<or> c_FlagMode (patched e p tc cur) = ''per_instance''"
proof -
  note D = validateUpdate_NoneD [OF assms(2)]
  have cur: "chk_instancing_kind cur" "c_Instancing cur = ''shared'' \<or> c_Instancing cur = ''per_team''"
    "c_FlagMode cur = ''static'' \<or> c_FlagMode cur = ''per_instance''"
    using assms(1) by (simp_all add: failed_check_eq_None challenge_checks_def)
  show inst: "c_Instancing (patched e p tc cur) = ''shared'' \<or> c_Instancing (patched e p tc cur) = ''per_team''"
    using D(11) cur(2) assms(4) by (cases "cp_Instancing p") (auto simp: patched_def coalesce_def)
  show mode: "c_FlagMode (patched e p tc cur) = ''static'' \<or> c_FlagMode (patched e p tc cur) = ''per_instance''"
    using D(12) cur(3) assms(5) by (cases "cp_FlagMode p") (auto simp: patched_def coalesce_def)
  show "chk_instancing_kind (patched e p tc cur)"
  proof (cases "c_Kind cur = ''container''")
    case True
    then show ?thesis by (simp add: chk_instancing_kind_def patched_def)
  next
    case False
    note S = D(14) [simplified False simp_thms]
    have "c_Instancing (patched e p tc cur) = ''shared''" using S inst by (auto simp: patched_def)
    moreover have "c_FlagMode (patched e p tc cur) = ''static''" using S mode by (auto simp: patched_def)
    moreover have "c_InstanceTtlSeconds (patched e p tc cur) = None" using S by (auto simp: patched_def i32p_def split: if_splits)
    moreover have "c_Egress (patched e p tc cur)" using S by (simp add: patched_def)
    moreover have "c_WritablePaths (patched e p tc cur) = ''[]''" using S False cur(1) assms(3)
      by (cases "cp_WritablePaths p") (simp_all add: patched_def coalesce_def chk_instancing_kind_def)
    ultimately show ?thesis by (simp add: chk_instancing_kind_def)
  qed
qed

lemma patched_dynamic:
  assumes "failed_check cur = None" "validateUpdate e cur p = None" "opt_all (\<lambda>m. m \<le> 2147483647) (c_PointsMin cur)"
  shows "chk_dynamic_fields (patched e p tc cur)"
proof (cases "coalesce (cp_Scoring p) (c_Scoring cur) = ''dynamic''")
  case False
  then show ?thesis by (simp add: chk_dynamic_fields_def patched_def)
next
  case True
  note D = validateUpdate_NoneD(4-6) [OF assms(2) True]
  have k: "\<exists>k. (if cp_SetDecay p then i32p (cp_Decay p) else c_Decay cur) = Some k \<and> k > 0"
    using D(3) by (cases "cp_Decay p"; cases "c_Decay cur") (auto simp: valOrZero_def i32p_def split: if_splits)
  have "\<exists>m. (if cp_SetPointsMin p then i32p (cp_PointsMin p) else c_PointsMin cur) = Some m \<and> m > 0 \<and>
          m \<le> coalesce (i32p (cp_PointsInitial p)) (c_PointsInitial cur)"
    using D(1,2) assms(3)
    by (cases "cp_PointsMin p"; cases "c_PointsMin cur"; cases "cp_PointsInitial p")
       (auto simp: valOrZero_def i32p_def coalesce_def clampI32_def split: if_splits)
  with k show ?thesis by (auto simp: chk_dynamic_fields_def patched_def)
qed


text \<open>C13. The validation of an update mirrors the constraints of the table, but for four holes. When the row is legal and
  the patch passes \<^verbatim>\<open>validateUpdate\<close>, the row that the statement writes satisfies every \<^verbatim>\<open>CHECK\<close> exactly when the patch
  does not set a non-positive \<^verbatim>\<open>max_attempts\<close>, an internal port outside 1..65535, an empty \<^verbatim>\<open>instancing\<close> or an empty
  \<^verbatim>\<open>flag_mode\<close>: those pass the validation and are refused by the database, as an internal error. The hypotheses say that
  an empty list is encoded as \<^verbatim>\<open>[]\<close> and that the stored \<^verbatim>\<open>points_min\<close> fits its 32-bit column.\<close>

theorem update_mirrors_checks:
  assumes cur: "failed_check cur = None" and val: "validateUpdate e cur p = None" and enc: "ch_json_list e [] = ''[]''"
    and col: "opt_all (\<lambda>m. m \<le> 2147483647) (c_PointsMin cur)"
  shows "failed_check (patched e p tc cur) = None \<longleftrightarrow>
           (cp_SetMaxAttempts p \<longrightarrow> opt_all (\<lambda>n. 0 < n) (cp_MaxAttempts p)) \<and>
           (cp_SetInternalPort p \<longrightarrow> opt_all (\<lambda>n. 1 \<le> n \<and> n \<le> 65535) (cp_InternalPort p)) \<and>
           cp_Instancing p \<noteq> Some [] \<and> cp_FlagMode p \<noteq> Some []" (is "?l \<longleftrightarrow> ?att \<and> ?port \<and> ?inst \<and> ?mode")
proof
  assume ?l
  then have c: "opt_all (\<lambda>n. n > 0) (c_MaxAttempts (patched e p tc cur))"
    "opt_all (\<lambda>p. 1 \<le> p \<and> p \<le> 65535) (c_InternalPort (patched e p tc cur))"
    "c_Instancing (patched e p tc cur) \<noteq> []" "c_FlagMode (patched e p tc cur) \<noteq> []"
    unfolding failed_check_eq_None challenge_checks_def by (auto simp: list_all_iff)
  show "?att \<and> ?port \<and> ?inst \<and> ?mode"
    using c by (auto simp: patched_def i32p_def opt_all_i32p coalesce_def)
next
  assume ok: "?att \<and> ?port \<and> ?inst \<and> ?mode"
  define c where "c = patched e p tc cur"
  note D = validateUpdate_NoneD [OF val]
  note C = cur [unfolded failed_check_eq_None challenge_checks_def list.pred_inject prod.case]
  note I = patched_instancing [OF cur val enc, of tc, folded c_def]
  have cat: "c_Category c \<in> set valid_cats" using D(1) C by (cases "cp_Category p") (simp_all add: c_def patched_def coalesce_def)
  have dif: "opt_all (\<lambda>d. d \<in> set valid_diffs) (c_Difficulty c)" using D(2) C by (simp add: c_def patched_def)
  have kind: "c_Kind c = ''standard'' \<or> c_Kind c = ''container''" using C by (simp add: c_def patched_def)
  have ini: "c_PointsInitial c > 0" using D(3) C
    by (cases "cp_PointsInitial p") (simp_all add: c_def patched_def coalesce_def i32p_def)
  have att: "opt_all (\<lambda>n. n > 0) (c_MaxAttempts c)" using ok C by (simp add: c_def patched_def i32p_def opt_all_i32p)
  have mem: "16 \<le> c_MemLimitMb c \<and> c_MemLimitMb c \<le> 8192" using D(9) C
    by (cases "cp_MemLimitMB p") (simp_all add: c_def patched_def coalesce_def i32p_def)
  have cpu: "100 \<le> c_CpuMillis c \<and> c_CpuMillis c \<le> 8000" using D(10) C
    by (cases "cp_CPUMillis p") (simp_all add: c_def patched_def coalesce_def i32p_def)
  have ttl: "opt_all (\<lambda>n. n \<ge> 0) (c_InstanceTtlSeconds c)" using D(13)
    by (simp add: c_def patched_def i32p_def opt_all_i32p split: if_splits)
  have con: "chk_container_fields c" using D(7,8) by (auto simp: chk_container_fields_def c_def patched_def)
  have dyn: "chk_dynamic_fields c" unfolding c_def by (rule patched_dynamic [OF cur val col])
  have "opt_all (\<lambda>p. 1 \<le> p \<and> p \<le> 65535) (c_InternalPort c)" using ok C
    by (simp add: c_def patched_def i32p_def opt_all_i32p)
  with failed_check_port [OF cat dif kind ini att mem cpu I(2,3) ttl dyn con I(1)] ok
  show ?l unfolding c_def by simp
qed

subsection \<open>Attachments and their objects\<close>

text \<open>Every row has its object.\<close>

definition attachments_stored :: "blobs \<Rightarrow> cdb \<Rightarrow> bool" where
  "attachments_stored b d \<longleftrightarrow> ca_ObjectKey ` set (challenge_attachments d) \<subseteq> b"

abbreviation alone_env :: "chal_env \<Rightarrow> bool" where
  "alone_env e \<equiv> ch_interf e = (\<lambda>c d. d)"

lemma get_challenge_quiet: "alone_env e \<Longrightarrow> fst (get_challenge e c what d i) = d"
  by (simp add: get_challenge_def split: option.splits)

lemma CreateAttachment_Inr:
  "CreateAttachment d a = Inr (d', x) \<Longrightarrow>
     x = a \<and> d' = d\<lparr>challenge_attachments := challenge_attachments d @ [a]\<rparr> \<and> ca_ID a \<notin> ca_ID ` set (challenge_attachments d)"
  by (auto simp: CreateAttachment_def list_ex_iff split: if_splits)


text \<open>An upload is atomic for the rows and keeps every row's object: on success the row is appended and its object is
  stored; on any failure the rows are unchanged and at most the new object is left behind, and it is left only when the
  rollback of the object failed or a failing put had stored it. The hypothesis is that the key, which contains the fresh
  id, is not in use.\<close>

theorem upload_atomic:
  assumes "alone_env e" "attachments_stored b d" "opt_all (\<lambda>i. attachment_key e cid i fn \<notin> b) (ch_newid e)"
  shows "case UploadAttachment e landed b d cid fn ctype n of
           (b', d', Inr a) \<Rightarrow>
             d' = d\<lparr>challenge_attachments := challenge_attachments d @ [a]\<rparr> \<and> b' = insert (ca_ObjectKey a) b \<and>
             attachments_stored b' d' \<and> ca_ChallengeID a = cid \<and> ca_Filename a = fn
         | (b', d', Inl err) \<Rightarrow>
             d' = d \<and> attachments_stored b' d' \<and>
             (b' = b \<or> (\<exists>i. ch_newid e = Some i \<and> b' = insert (attachment_key e cid i fn) b \<and>
                            (ch_fails e XRollback \<or> ch_fails e XPut \<and> landed)))"
proof (cases "get_challenge e XGetUpload ''challenges: get for upload'' d cid")
  case (Pair d1 r)
  have d1: "d1 = d" using get_challenge_quiet [OF assms(1), of XGetUpload _ d cid] Pair by (metis fst_conv)
  show ?thesis
  proof (cases r)
    case (Inl err)
    then show ?thesis using Pair d1 assms(2) by (simp add: UploadAttachment_def)
  next
    case (Inr c)
    show ?thesis
    proof (cases "ch_newid e")
      case None
      then show ?thesis using Pair d1 Inr assms(2) by (simp add: UploadAttachment_def)
    next
      case (Some i)
      let ?k = "attachment_key e cid i fn"
      let ?a = "\<lparr>ca_ID = i, ca_ChallengeID = cid, ca_Filename = fn, ca_SizeBytes = n,
                 ca_ContentType = (if ctype = [] then ''application/octet-stream'' else ctype),
                 ca_ObjectKey = ?k, ca_CreatedAt = ch_now e\<rparr>"
      have new: "?k \<notin> b" using assms(3) Some by simp
      have keep: "attachments_stored (insert ?k b) d" using assms(2) by (auto simp: attachments_stored_def)
      note run = UploadAttachment_def Pair d1 Inr Some Let_def assms(1)
      show ?thesis
      proof (cases "CreateAttachment d ?a")
        case (Inl q)
        then show ?thesis using keep assms(2) new by (cases q) (simp_all add: run)
      next
        case (Inr p)
        then obtain d' x where p: "CreateAttachment d ?a = Inr (d', x)" by (cases p) simp
        show ?thesis using CreateAttachment_Inr [OF p] p keep assms(2) new
          by (auto simp: run attachments_stored_def)
      qed
    qed
  qed
qed

text \<open>A deletion that succeeds keeps every other row's object; one that fails leaves the row, perhaps without its object,
  and the deletion can be repeated.\<close>

lemma find_attachment_quiet:
  "alone_env e \<Longrightarrow> find_attachment e d cid i =
     (d, if ch_fails e XAttGet then Inl (Internal ''challenges: get attachment'')
         else case GetAttachment d i cid of None \<Rightarrow> Inl ErrNotFound | Some a \<Rightarrow> Inr a)"
  by (simp add: find_attachment_def split: option.splits)

lemma GetAttachment_SomeD:
  "GetAttachment d i cid = Some a \<Longrightarrow> a \<in> set (challenge_attachments d) \<and> ca_ID a = i \<and> ca_ChallengeID a = cid"
  by (auto simp: GetAttachment_def find_Some_iff)

theorem delete_attachment_retriable:
  assumes "alone_env e" "attachments_stored b d" "distinct (map ca_ObjectKey (challenge_attachments d))"
    "DeleteAttachment e b d cid i = (b', d', r)"
  shows "(case r of
            None \<Rightarrow> attachments_stored b' d' \<and> i \<notin> ca_ID ` set (challenge_attachments d') \<and>
                    challenge_attachments d' = filter (\<lambda>a. ca_ID a \<noteq> i) (challenge_attachments d)
          | Some err \<Rightarrow> d' = d \<and>
              (b' = b \<or> err = Internal ''challenges: delete attachment'' \<and>
                (\<exists>a. GetAttachment d i cid = Some a \<and> b' = b - {ca_ObjectKey a}))) \<and>
         (GetAttachment d' i cid \<noteq> None \<longrightarrow> snd (snd (DeleteAttachment (e\<lparr>ch_fails := \<lambda>c. False\<rparr>) b' d' cid i)) = None)"
proof -
  have retry: "GetAttachment x i cid \<noteq> None \<Longrightarrow>
      snd (snd (DeleteAttachment (e\<lparr>ch_fails := \<lambda>c. False\<rparr>) b'' x cid i)) = None" for x b''
    using assms(1) by (auto simp: DeleteAttachment_def find_attachment_def Let_def)
  show ?thesis
  proof (cases "GetAttachment d i cid")
    case None
    then show ?thesis using assms(1,4) by (auto simp: DeleteAttachment_def find_attachment_quiet retry split: if_splits)
  next
    case (Some a)
    have other: "ca_ObjectKey x \<noteq> ca_ObjectKey a" if "x \<in> set (challenge_attachments d)" "ca_ID x \<noteq> i" for x
      using assms(3) GetAttachment_SomeD [OF Some] that by (auto simp: distinct_map inj_on_def)
    then have "attachments_stored (b - {ca_ObjectKey a}) (DeleteAttachment_sql d i)"
      using assms(2) by (auto simp: attachments_stored_def DeleteAttachment_sql_def)
    then show ?thesis using assms(1,4) Some
      by (auto simp: DeleteAttachment_def find_attachment_quiet DeleteAttachment_sql_def Let_def retry split: if_splits)
  qed
qed


subsection \<open>Witnesses\<close>

definition wc_env :: chal_env where
  "wc_env = \<lparr>ch_fails = (\<lambda>_. False), ch_interf = (\<lambda>c d. d), ch_types = defaultTypeRegistry, ch_modes = defaultRegistry,
     ch_quote = (\<lambda>s. s), ch_json_map = (\<lambda>m. ''{}''), ch_json_list = (\<lambda>ws. ''['' @ concat ws @ '']''),
     ch_uni_lower = (\<lambda>s. s), ch_coll = length, ch_newid = Some 7, ch_uuid_text = (\<lambda>u. ''u''), ch_now = 0\<rparr>"

text \<open>A standard challenge with a port that no database row may have.\<close>

definition wc_input :: CreateInput where
  "wc_input = \<lparr>ci_Slug = None, ci_Title = ''Baby pwn'', ci_Category = ''pwn'', ci_Description = [], ci_Difficulty = Some ''easy'',
     ci_Kind = [], ci_Type = [], ci_TypeConfig = [], ci_Flag = ''flag'', ci_FlagCaseInsensitive = False,
     ci_Scoring = ''static'', ci_PointsInitial = 100, ci_PointsMin = None, ci_Decay = None, ci_MaxAttempts = None,
     ci_Visible = True, ci_Image = None, ci_InternalPort = Some 70000, ci_MemLimitMB = None, ci_CPUMillis = None,
     ci_ContainerEnv = [], ci_ConnectionTemplate = None, ci_Instancing = [], ci_FlagMode = [],
     ci_InstanceTTLSeconds = None, ci_Egress = None, ci_WritablePaths = []\<rparr>"

lemma slugify_witness: "slugify (\<lambda>s. s) ''  Baby  pwn!'' = ''baby-pwn''"
  by code_simp

lemma wc_slug: "slugRe ''baby-pwn''"
  by code_simp

lemma wc_modes: "IsRegisteredMode defaultRegistry ''static''"
  by (simp add: IsRegisteredMode_def defaultRegistry_def NewRegistry_def Get_def Let_def StaticEngine_def DynamicEngine_def ModeStatic_def)

lemma wc_types: "IsRegisteredType defaultTypeRegistry ''standard''"
  by (simp add: IsRegisteredType_def defaultTypeRegistry_def NewTypeRegistry_def Let_def builtinType_def)

lemma wc_valid: "validateCreate wc_env (create_defaults wc_input) ''baby-pwn'' = None"
  using wc_slug wc_modes wc_types
  by (simp add: validateCreate_def create_defaults_def wc_env_def wc_input_def valid_cats_def valid_diffs_def
        validateContainerLimits_def validateInstancing_def add_if_def OrNil_def HasErrors_def)

theorem create_mirrors_checks_witness:
  "failed_check (create_row wc_env (create_defaults wc_input) ''baby-pwn'' [] 7) = Some ''challenges_internal_port_check''"
  using create_mirrors_checks [OF wc_valid, of "[]" 7] by (simp add: wc_input_def)

definition wc_patch :: ChallengePatch where
  "wc_patch = \<lparr>cp_Slug = None, cp_Title = None, cp_Category = None, cp_Description = None, cp_SetDifficulty = False,
     cp_Difficulty = None, cp_Flag = None, cp_FlagCaseInsensitive = None, cp_Scoring = None, cp_Type = None,
     cp_TypeConfig = None, cp_PointsInitial = Some 200, cp_SetPointsMin = False, cp_PointsMin = None, cp_SetDecay = False,
     cp_Decay = None, cp_SetMaxAttempts = True, cp_MaxAttempts = Some 0, cp_Visible = None, cp_SetImage = False,
     cp_Image = None, cp_SetInternalPort = False, cp_InternalPort = None, cp_MemLimitMB = None, cp_CPUMillis = None,
     cp_ContainerEnv = None, cp_SetConnectionTmpl = False, cp_ConnectionTemplate = None, cp_Instancing = None,
     cp_FlagMode = None, cp_SetInstanceTTL = False, cp_InstanceTTLSeconds = None, cp_Egress = None, cp_WritablePaths = None\<rparr>"

definition wc_row :: Challenge where
  "wc_row = create_row wc_env (create_defaults (wc_input\<lparr>ci_InternalPort := None\<rparr>)) ''baby-pwn'' [] 7"

lemma wc_row_ok: "failed_check wc_row = None"
  by (simp add: wc_row_def create_row_def create_defaults_def wc_env_def wc_input_def failed_check_def challenge_checks_def
        valid_cats_def valid_diffs_def chk_dynamic_fields_def chk_container_fields_def chk_instancing_kind_def
        i32p_def clampI32_def coalesce_def)

lemma wc_update_valid: "validateUpdate wc_env wc_row wc_patch = None"
  by (simp add: validateUpdate_def wc_patch_def wc_row_def create_row_def create_defaults_def wc_env_def wc_input_def
        validateContainerLimits_def validateInstancing_def add_if_def OrNil_def HasErrors_def coalesce_def i32p_def clampI32_def)

theorem update_mirrors_checks_witness:
  "failed_check wc_row = None \<and> failed_check (patched wc_env wc_patch None wc_row) \<noteq> None"
proof -
  have "ch_json_list wc_env [] = ''[]''" by (simp add: wc_env_def)
  moreover have "opt_all (\<lambda>m. m \<le> 2147483647) (c_PointsMin wc_row)"
    by (simp add: wc_row_def create_row_def create_defaults_def wc_input_def i32p_def)
  ultimately have "failed_check (patched wc_env wc_patch None wc_row) \<noteq> None"
    by (subst update_mirrors_checks [OF wc_row_ok wc_update_valid]) (simp_all add: wc_patch_def)
  with wc_row_ok show ?thesis by simp
qed

definition wc_db :: cdb where
  "wc_db = \<lparr>users = [], teams = [], team_members = [], events = [], challenges = [wc_row], submissions = [], instances = [],
     challenge_attachments = []\<rparr>"


theorem upload_atomic_witness:
  "\<exists>b' d' a. UploadAttachment wc_env False {} wc_db 7 ''notes.txt'' [] 3 = (b', d', Inr a) \<and> attachments_stored b' d' \<and>
     challenge_attachments d' = [a]"
proof -
  have "alone_env wc_env" "attachments_stored {} wc_db" "opt_all (\<lambda>i. attachment_key wc_env 7 i ''notes.txt'' \<notin> {}) (ch_newid wc_env)"
    by (simp_all add: wc_env_def attachments_stored_def wc_db_def)
  note up = upload_atomic [OF this, of False "[]" 3]
  obtain b' d' a where "UploadAttachment wc_env False {} wc_db 7 ''notes.txt'' [] 3 = (b', d', Inr a)"
    by (simp add: UploadAttachment_def get_challenge_def wc_env_def wc_db_def GetChallengeByID_def db.truncate_def
          CreateAttachment_def wc_row_def create_row_def Let_def)
  with up show ?thesis by (auto simp: wc_db_def)
qed

definition wc_att :: ChallengeAttachment where
  "wc_att = \<lparr>ca_ID = 9, ca_ChallengeID = 7, ca_Filename = ''notes.txt'', ca_SizeBytes = 3, ca_ContentType = ''text/plain'',
     ca_ObjectKey = ''k'', ca_CreatedAt = 0\<rparr>"

text \<open>The row's deletion fails: the row is left without its object, and a second deletion succeeds.\<close>

theorem delete_attachment_retriable_witness:
  "\<exists>b' d' err. DeleteAttachment (wc_env\<lparr>ch_fails := \<lambda>c. c = XAttDelete\<rparr>) {''k''} (wc_db\<lparr>challenge_attachments := [wc_att]\<rparr>) 7 9
       = (b', d', Some err) \<and> \<not> attachments_stored b' d' \<and>
     snd (snd (DeleteAttachment ((wc_env\<lparr>ch_fails := \<lambda>c. c = XAttDelete\<rparr>)\<lparr>ch_fails := \<lambda>c. False\<rparr>) b' d' 7 9)) = None"
proof -
  let ?e = "wc_env\<lparr>ch_fails := \<lambda>c. c = XAttDelete\<rparr>" and ?d = "wc_db\<lparr>challenge_attachments := [wc_att]\<rparr>"
  have run: "DeleteAttachment ?e {''k''} ?d 7 9 = ({}, ?d, Some (Internal ''challenges: delete attachment''))"
    by (simp add: DeleteAttachment_def find_attachment_def GetAttachment_def wc_env_def wc_att_def Let_def)
  have "alone_env ?e" "attachments_stored {''k''} ?d" "distinct (map ca_ObjectKey (challenge_attachments ?d))"
    by (simp_all add: wc_env_def attachments_stored_def wc_att_def)
  from delete_attachment_retriable [OF this run]
  have "GetAttachment ?d 9 7 \<noteq> None \<longrightarrow> snd (snd (DeleteAttachment (?e\<lparr>ch_fails := \<lambda>c. False\<rparr>) {} ?d 7 9)) = None" by blast
  moreover have "GetAttachment ?d 9 7 \<noteq> None" by (simp add: GetAttachment_def wc_att_def)
  moreover have "\<not> attachments_stored {} ?d" by (simp add: attachments_stored_def)
  ultimately show ?thesis using run by blast
qed

end
