(* ===== verification/Rate_Limiter.thy ===== *)
theory Rate_Limiter
  imports Sessions Float64
begin

text \<open>
  The sliding-window rate limiter over Redis sorted sets: \<^verbatim>\<open>internal/redisx/ratelimit.go\<close>, with \<^verbatim>\<open>Server.limit\<close> of
  \<^verbatim>\<open>internal/handlers/auth.go\<close>, which turns its answer into an error.

  A sorted set is a list of members with their scores, stored with the time it expires. Scores are doubles: the
  attempt's time in nanoseconds is rounded by \<open>fl64\<close> when it is stored, and so is the bound of a trim when Redis parses
  it. As in \<open>Sessions\<close> a command or \<^verbatim>\<open>TxPipeline\<close> is atomic, may fail, and is preceded by whatever other clients do
  (\<open>li_interf\<close>); \<open>now\<close> and \<open>li_Until\<close> are the two readings of the caller's clock, \<open>ld_Now\<close> is Redis's.
\<close>

type_synonym zset = "(string \<times> rat) list"

record limit_db =
  ld_Now :: time
  ld_Sets :: "string \<rightharpoonup> zset \<times> time"

datatype limit_call = LTrim | LOldest | LRecord

record limit_env =
  li_fails :: "limit_call \<Rightarrow> bool"
  li_landed :: "limit_call \<Rightarrow> bool"
  li_interf :: "limit_call \<Rightarrow> limit_db \<Rightarrow> limit_db"
  li_Until :: time

definition limit_zkey :: "string \<Rightarrow> string \<Rightarrow> string" where
  "limit_zkey scope key = ''rl:'' @ scope @ '':'' @ key"

definition zmembers :: "limit_db \<Rightarrow> string \<Rightarrow> zset" where
  "zmembers r k = (case live (ld_Now r) (ld_Sets r) k of None \<Rightarrow> [] | Some (zs, e) \<Rightarrow> zs)"

text \<open>\<^verbatim>\<open>ZREMRANGEBYSCORE zkey 0 cutoff\<close>: an emptied set is gone.\<close>

definition trim_set :: "limit_db \<Rightarrow> string \<Rightarrow> time \<Rightarrow> limit_db" where
  "trim_set r k cutoff =
     (case live (ld_Now r) (ld_Sets r) k of
        None \<Rightarrow> r\<lparr>ld_Sets := (ld_Sets r)(k := None)\<rparr>
      | Some (zs, e) \<Rightarrow>
          let zs' = filter (\<lambda>(m, score). \<not> (0 \<le> score \<and> score \<le> fl64 (of_int cutoff))) zs
          in r\<lparr>ld_Sets := (ld_Sets r)(k := if zs' = [] then None else Some (zs', e))\<rparr>)"

text \<open>\<^verbatim>\<open>ZADD\<close> and \<^verbatim>\<open>EXPIRE\<close>: a member that is there already only changes its score, and the set's duration is sent in
  whole seconds (\<open>expire_in\<close>).\<close>

definition record_attempt :: "limit_db \<Rightarrow> string \<Rightarrow> time \<Rightarrow> duration \<Rightarrow> limit_db" where
  "record_attempt r k now window =
     (let m = itoa (nat now);
          zs = filter (\<lambda>(m', score). m' \<noteq> m) (zmembers r k) @ [(m, fl64 (of_int now))]
      in r\<lparr>ld_Sets := (ld_Sets r)(k \<mapsto> (zs, ld_Now r + expire_in window))\<rparr>)"

text \<open>\<^verbatim>\<open>ZRANGE zkey 0 0 WITHSCORES\<close>: the lowest score, of which only the value is used.\<close>

definition oldest_score :: "zset \<Rightarrow> rat option" where
  "oldest_score zs = (if zs = [] then None else Some (Min (set (map snd zs))))"

definition limit_tx :: "limit_env \<Rightarrow> limit_call \<Rightarrow> (limit_db \<Rightarrow> limit_db) \<Rightarrow> limit_db \<Rightarrow> limit_db \<times> bool" where
  "limit_tx e c f r =
     (let r = li_interf e c r
      in if li_fails e c then (if li_landed e c then f r else r, False) else (f r, True))"

definition Allow ::
  "limit_env \<Rightarrow> limit_db \<Rightarrow> string \<Rightarrow> string \<Rightarrow> int \<Rightarrow> duration \<Rightarrow> time \<Rightarrow> limit_db \<times> (string + bool \<times> duration)" where
  "Allow e r scope key limit window now =
     (let k = limit_zkey scope key; cutoff = now - window;
          (r, ok) = limit_tx e LTrim (\<lambda>r. trim_set r k cutoff) r
      in if \<not> ok then (r, Inl ''redisx: rate limit trim'')
         else if int (length (zmembers r k)) \<ge> limit
         then let r = li_interf e LOldest r
              in case (if li_fails e LOldest then None else oldest_score (zmembers r k)) of
                   None \<Rightarrow> (r, Inr (False, window))
                 | Some score \<Rightarrow>
                     let expiry = float_to_int \<lfloor>score\<rfloor> + window;
                         ra = expiry - li_Until e
                     in (r, Inr (False, if ra < second then second else ra))
         else case limit_tx e LRecord (\<lambda>r. record_attempt r k now window) r of
                (r, ok) \<Rightarrow> (r, if ok then Inr (True, 0) else Inl ''redisx: rate limit record''))"

text \<open>\<^verbatim>\<open>Server.limit\<close>: an unreachable Redis refuses the request. The retry hint is \<^verbatim>\<open>limiterUnavailableRetry\<close>.\<close>

definition limiterUnavailableRetry :: duration where
  "limiterUnavailableRetry = 3 * second"

definition limit_request ::
  "limit_env option \<Rightarrow> limit_db \<Rightarrow> string \<Rightarrow> string \<Rightarrow> int \<Rightarrow> duration \<Rightarrow> time \<Rightarrow> limit_db \<times> app_error option" where
  "limit_request limiter r scope key n window now =
     (case limiter of
        None \<Rightarrow> (r, None)
      | Some e \<Rightarrow>
          (case Allow e r scope key n window now of
             (r, Inl _) \<Rightarrow>
               (r, Some (Unavailable ''the rate limiter is temporarily unavailable; please retry shortly'' limiterUnavailableRetry))
           | (r, Inr (allowed, retryAfter)) \<Rightarrow> (r, if allowed then None else Some (RateLimited retryAfter scope))))"

text \<open>The \<^verbatim>\<open>Retry-After\<close> header of the answer (\<^verbatim>\<open>internal/httpx/httpx.go\<close>): the seconds of the hint as a double, cut off to a
  whole number, at least one.\<close>

definition Seconds :: "duration \<Rightarrow> rat" where
  "Seconds d = fl64 (of_int (d div second) + fl64 (of_int (d mod second) / 1000000000))"

definition retry_after_header :: "duration \<Rightarrow> int" where
  "retry_after_header d = (let secs = float_to_int \<lfloor>Seconds d\<rfloor> in if secs < 1 then 1 else secs)"

subsection \<open>The limit holds over every window\<close>

text \<open>A caller alone: every command succeeds at the instant that the caller's clock reads.\<close>

definition lone_caller :: "time \<Rightarrow> limit_env" where
  "lone_caller now = \<lparr>li_fails = (\<lambda>c. False), li_landed = (\<lambda>c. False),
     li_interf = (\<lambda>c r. r\<lparr>ld_Now := now\<rparr>), li_Until = now\<rparr>"

record attempt =
  lt_Scope :: string
  lt_Key :: string
  lt_Limit :: int
  lt_Window :: duration
  lt_Now :: time

definition attempt_zkey :: "attempt \<Rightarrow> string" where
  "attempt_zkey a = limit_zkey (lt_Scope a) (lt_Key a)"

definition allowed_in :: "limit_db \<Rightarrow> attempt \<Rightarrow> bool" where
  "allowed_in r a \<longleftrightarrow>
     snd (Allow (lone_caller (lt_Now a)) r (lt_Scope a) (lt_Key a) (lt_Limit a) (lt_Window a) (lt_Now a)) = Inr (True, 0)"

definition after_attempt :: "limit_db \<Rightarrow> attempt \<Rightarrow> limit_db" where
  "after_attempt r a =
     fst (Allow (lone_caller (lt_Now a)) r (lt_Scope a) (lt_Key a) (lt_Limit a) (lt_Window a) (lt_Now a))"

text \<open>The attempts that are let through when the attempts are made one after another.\<close>

fun admitted :: "limit_db \<Rightarrow> attempt list \<Rightarrow> attempt list" where
  "admitted r [] = []"
| "admitted r (a # as) = (if allowed_in r a then [a] else []) @ admitted (after_attempt r a) as"

lemma trim_set_now [simp]: "ld_Now (trim_set r k c) = ld_Now r"
  by (simp add: trim_set_def Let_def split: option.splits prod.splits)

lemma set_now_same: "ld_Now r = now \<Longrightarrow> r\<lparr>ld_Now := now\<rparr> = r"
  by (cases r) simp

definition trimmed :: "limit_db \<Rightarrow> attempt \<Rightarrow> limit_db" where
  "trimmed r a = trim_set (r\<lparr>ld_Now := lt_Now a\<rparr>) (attempt_zkey a) (lt_Now a - lt_Window a)"

lemma Allow_lone:
  shows allowed_in_iff: "allowed_in r a \<longleftrightarrow> int (length (zmembers (trimmed r a) (attempt_zkey a))) < lt_Limit a"
    and after_attempt_cases: "after_attempt r a =
      (if allowed_in r a then record_attempt (trimmed r a) (attempt_zkey a) (lt_Now a) (lt_Window a) else trimmed r a)"
  by (auto simp: after_attempt_def allowed_in_def Allow_def Let_def limit_tx_def lone_caller_def attempt_zkey_def trimmed_def
      set_now_same split: option.splits)

text \<open>What the store knows about a key: the set holds every admitted time that a trim at the last call would keep, under
  its own decimal member, and outlives its entries.\<close>

definition remembered :: "limit_db \<Rightarrow> string \<Rightarrow> duration \<Rightarrow> time \<Rightarrow> bool" where
  "remembered r k window t \<longleftrightarrow>
     (\<exists>zs e. ld_Sets r k = Some (zs, e) \<and> (itoa (nat t), fl64 (of_int t)) \<in> set zs \<and> t + window \<le> e)"

definition in_window :: "duration \<Rightarrow> time \<Rightarrow> time \<Rightarrow> bool" where
  "in_window window now t \<longleftrightarrow> t \<le> now \<and> fl64 (of_int t) > fl64 (of_int (now - window))"

definition window_ok :: "string \<Rightarrow> duration \<Rightarrow> time \<Rightarrow> limit_db \<Rightarrow> time set \<Rightarrow> bool" where
  "window_ok k window now r A \<longleftrightarrow>
     finite A \<and> (\<forall>t \<in> A. 0 \<le> t \<and> t \<le> now) \<and> (\<forall>t \<in> A. in_window window now t \<longrightarrow> remembered r k window t)"

lemma itoa_inj: "0 \<le> s \<Longrightarrow> 0 \<le> t \<Longrightarrow> itoa (nat s) = itoa (nat t) \<Longrightarrow> s = t"
  by (metis itoa_value int_nat_eq)

lemma in_window_mono: "in_window window now t \<Longrightarrow> now0 \<le> now \<Longrightarrow> t \<le> now0 \<Longrightarrow> in_window window now0 t"
  unfolding in_window_def by (meson diff_right_mono fl64_mono le_less_trans of_int_le_iff)

lemma remembered_other: "attempt_zkey a \<noteq> k \<Longrightarrow> remembered (after_attempt r a) k window t = remembered r k window t"
  by (auto simp: remembered_def after_attempt_cases trimmed_def trim_set_def record_attempt_def Let_def split: option.splits)

lemma remembered_trimmed:
  assumes "remembered r k window t" "attempt_zkey a = k" "lt_Window a = window" "0 \<le> t" "in_window window (lt_Now a) t"
  shows "remembered (trimmed r a) k window t"
    and "(itoa (nat t), fl64 (of_int t)) \<in> set (zmembers (trimmed r a) k)"
proof -
  from assms(1) obtain zs e where z: "ld_Sets r k = Some (zs, e)" "(itoa (nat t), fl64 (of_int t)) \<in> set zs" "t + window \<le> e"
    by (auto simp: remembered_def)
  have "lt_Now a < e"
  proof (rule ccontr)
    assume "\<not> lt_Now a < e"
    with z(3) have "t \<le> lt_Now a - window" by simp
    then show False using assms(5) fl64_mono [of "of_int t" "of_int (lt_Now a - window)"] by (simp add: in_window_def)
  qed
  then have l: "live (lt_Now a) (ld_Sets r) k = Some (zs, e)" using z(1) by (simp add: live_def)
  define zs' where "zs' = filter (\<lambda>(m, score). \<not> (0 \<le> score \<and> score \<le> fl64 (of_int (lt_Now a - lt_Window a)))) zs"
  have mem: "(itoa (nat t), fl64 (of_int t)) \<in> set zs'"
    using z(2) assms(3,5) by (auto simp: in_window_def zs'_def)
  then have ne: "zs' \<noteq> []" by auto
  have eq: "trimmed r a = r\<lparr>ld_Now := lt_Now a, ld_Sets := (ld_Sets r)(k \<mapsto> (zs', e))\<rparr>"
    using l ne assms(2) by (simp add: trimmed_def trim_set_def zs'_def Let_def)
  show "remembered (trimmed r a) k window t" using mem z(3) by (auto simp: remembered_def eq)
  show "(itoa (nat t), fl64 (of_int t)) \<in> set (zmembers (trimmed r a) k)" using mem \<open>lt_Now a < e\<close> by (simp add: eq live_def zmembers_def)
qed

lemma remembered_recorded:
  assumes "remembered r k window t" "0 \<le> t" "t < now" "ld_Now r = now" "t + window > now" "window \<le> expire_in window"
  shows "remembered (record_attempt r k now window) k window t"
proof -
  from assms(1) obtain zs e where z: "ld_Sets r k = Some (zs, e)" "(itoa (nat t), fl64 (of_int t)) \<in> set zs" "t + window \<le> e"
    by (auto simp: remembered_def)
  have ne: "itoa (nat t) \<noteq> itoa (nat now)" using itoa_inj [of t now] assms by fastforce
  have "live now (ld_Sets r) k = Some (zs, e)" using z(1,3) assms(5) by (simp add: live_def)
  then have "ld_Sets (record_attempt r k now window) k =
      Some (filter (\<lambda>(m', score). m' \<noteq> itoa (nat now)) zs @ [(itoa (nat now), fl64 (of_int now))], now + expire_in window)"
    using assms(4) by (simp add: record_attempt_def Let_def zmembers_def)
  then show ?thesis using z(2) ne assms(3,6) by (auto simp: remembered_def)
qed

text \<open>A duration that an \<^verbatim>\<open>EXPIRE\<close> keeps: less than a second (it becomes one second) or a whole number of seconds.\<close>

definition expire_keeps :: "duration \<Rightarrow> bool" where
  "expire_keeps window \<longleftrightarrow> window < second \<or> second dvd window"

lemma expire_keeps_le: "expire_keeps window \<Longrightarrow> 0 < window \<Longrightarrow> window \<le> expire_in window"
  by (auto simp: expire_keeps_def expire_in_def)

lemma in_window_late: "in_window window now t \<Longrightarrow> t + window > now"
  using fl64_mono [of "of_int t" "of_int (now - window)"] by (auto simp: in_window_def simp flip: of_int_diff intro: ccontr)

lemma window_ok_step:
  assumes ok: "window_ok k window now0 r A" and now: "now0 < lt_Now a" "0 \<le> lt_Now a"
    and same: "attempt_zkey a = k \<Longrightarrow> lt_Window a = window" and keeps: "expire_keeps window"
  shows "window_ok k window (lt_Now a) (after_attempt r a) (A \<union> (if attempt_zkey a = k \<and> allowed_in r a then {lt_Now a} else {}))"
proof -
  have old: "remembered (after_attempt r a) k window t" if t: "t \<in> A" "in_window window (lt_Now a) t" for t
  proof -
    have b: "0 \<le> t" "t \<le> now0" using ok t(1) by (auto simp: window_ok_def)
    have rem: "remembered r k window t" using ok t in_window_mono [OF t(2), of now0] b now by (simp add: window_ok_def)
    show ?thesis
    proof (cases "attempt_zkey a = k")
      case True
      have tr: "remembered (trimmed r a) k window t" using remembered_trimmed(1) [OF rem True same [OF True] b(1) t(2)] .
      have "ld_Now (trimmed r a) = lt_Now a" by (simp add: trimmed_def)
      then have "remembered (record_attempt (trimmed r a) k (lt_Now a) window) k window t"
        using remembered_recorded [OF tr b(1)] b(2) now(1) in_window_late [OF t(2)] expire_keeps_le [OF keeps] by simp
      with tr show ?thesis using True same [OF True] by (simp add: after_attempt_cases)
    next
      case False
      with rem show ?thesis by (simp add: remembered_other)
    qed
  qed
  have new: "remembered (after_attempt r a) k window (lt_Now a)"
    if "attempt_zkey a = k" "allowed_in r a" "in_window window (lt_Now a) (lt_Now a)"
    using that(1,2) same expire_keeps_le [OF keeps] in_window_late [OF that(3)] by (auto simp: after_attempt_cases remembered_def record_attempt_def Let_def trimmed_def)
  show ?thesis using ok now old new by (fastforce simp: window_ok_def)
qed

lemma window_count:
  assumes ok: "window_ok k window now0 r A" and now: "now0 < lt_Now a"
    and same: "attempt_zkey a = k" "lt_Window a = window" and allowed: "allowed_in r a"
  shows "int (card {t \<in> A. in_window window (lt_Now a) t}) < lt_Limit a"
proof -
  let ?m = "\<lambda>t. (itoa (nat t), fl64 (of_int t))" and ?W = "{t \<in> A. in_window window (lt_Now a) t}"
  have sub: "?m ` ?W \<subseteq> set (zmembers (trimmed r a) k)"
  proof (rule image_subsetI)
    fix t assume t: "t \<in> ?W"
    then have b: "0 \<le> t" "t \<le> now0" using ok by (auto simp: window_ok_def)
    have "remembered r k window t" using ok t in_window_mono [of window "lt_Now a" t now0] b now by (simp add: window_ok_def)
    from remembered_trimmed(2) [OF this same b(1)] t show "?m t \<in> set (zmembers (trimmed r a) k)" by simp
  qed
  have "inj_on ?m ?W" using ok itoa_inj by (fastforce simp: inj_on_def window_ok_def)
  then have "card ?W = card (?m ` ?W)" by (simp add: card_image)
  also have "\<dots> \<le> card (set (zmembers (trimmed r a) k))" by (rule card_mono [OF finite_set sub])
  also have "\<dots> \<le> length (zmembers (trimmed r a) k)" by (rule card_length)
  finally show ?thesis using allowed same(1) by (simp add: allowed_in_iff)
qed

definition admitted_times :: "string \<Rightarrow> limit_db \<Rightarrow> attempt list \<Rightarrow> time list" where
  "admitted_times k r as = map lt_Now (filter (\<lambda>a. attempt_zkey a = k) (admitted r as))"

lemma admitted_times_cons:
  "admitted_times k r (a # as) =
     (if attempt_zkey a = k \<and> allowed_in r a then [lt_Now a] else []) @ admitted_times k (after_attempt r a) as"
  by (simp add: admitted_times_def)

lemma admitted_bound:
  assumes "window_ok k window now0 r A" "\<forall>now. int (card {t \<in> A. in_window window now t}) \<le> n"
    and "sorted_wrt (<) (now0 # map lt_Now as)"
    and "\<forall>a \<in> set as. 0 \<le> lt_Now a \<and> (attempt_zkey a = k \<longrightarrow> lt_Window a = window \<and> lt_Limit a = n)"
    and "expire_keeps window"
  shows "int (card {t \<in> A \<union> set (admitted_times k r as). in_window window now t}) \<le> n"
  using assms
proof (induction as arbitrary: r A now0)
  case Nil
  then show ?case by (simp add: admitted_times_def)
next
  case (Cons a as)
  define B where "B = A \<union> (if attempt_zkey a = k \<and> allowed_in r a then {lt_Now a} else {})"
  have ok: "window_ok k window (lt_Now a) (after_attempt r a) B"
    unfolding B_def using Cons.prems by (intro window_ok_step) auto
  have fin: "finite A" and le: "\<forall>t \<in> A. t \<le> now0" using Cons.prems(1) by (auto simp: window_ok_def)
  have "int (card {t \<in> B. in_window window now' t}) \<le> n" for now'
  proof (cases "attempt_zkey a = k \<and> allowed_in r a \<and> in_window window now' (lt_Now a)")
    case True
    have "t \<in> A \<Longrightarrow> in_window window now' t \<Longrightarrow> in_window window (lt_Now a) t" for t
      using in_window_mono [of window now' t "lt_Now a"] True le Cons.prems(3) by (auto simp: in_window_def)
    then have "{t \<in> B. in_window window now' t} \<subseteq> insert (lt_Now a) {t \<in> A. in_window window (lt_Now a) t}"
      by (auto simp: B_def)
    then have "card {t \<in> B. in_window window now' t} \<le> Suc (card {t \<in> A. in_window window (lt_Now a) t})"
      using fin card_mono [of "insert (lt_Now a) {t \<in> A. in_window window (lt_Now a) t}" "{t \<in> B. in_window window now' t}"]
        card_insert_le_m1 by (auto simp: card_insert_if split: if_splits)
    moreover have "int (card {t \<in> A. in_window window (lt_Now a) t}) < n"
      using window_count [OF Cons.prems(1)] Cons.prems(3,4) True by auto
    ultimately show ?thesis by linarith
  next
    case False
    then have "{t \<in> B. in_window window now' t} = {t \<in> A. in_window window now' t}" by (auto simp: B_def)
    then show ?thesis using Cons.prems(2) by simp
  qed
  with Cons.IH [OF ok] Cons.prems(3-5)
  have "int (card {t \<in> B \<union> set (admitted_times k (after_attempt r a) as). in_window window now t}) \<le> n" by simp
  moreover have "A \<union> set (admitted_times k r (a # as)) = B \<union> set (admitted_times k (after_attempt r a) as)"
    by (auto simp: admitted_times_cons B_def)
  ultimately show ?case by simp
qed

lemma admitted_times_distinct:
  "distinct (map lt_Now as) \<Longrightarrow> set (admitted_times k r as) \<subseteq> lt_Now ` set as \<and> distinct (admitted_times k r as)"
proof (induction as arbitrary: r)
  case (Cons a as)
  then show ?case using Cons.IH [of "after_attempt r a"] by (auto simp: admitted_times_cons)
qed (simp add: admitted_times_def)

text \<open>C12. The limiter bounds what it lets through. When attempts are made one after another, from whatever the store holds,
  at most the limit of those that are let through for one key fall into any window, at whatever time the window ends, provided
  that the window is a whole number of seconds or shorter than one. A time counts as inside when its double is above that of
  the window's start: the scores are 256 nanoseconds coarse.\<close>

theorem limiter_window_bound:
  assumes "sorted_wrt (<) (map lt_Now as)" "\<forall>a \<in> set as. 0 \<le> lt_Now a" "0 \<le> n"
    and "\<forall>a \<in> set as. attempt_zkey a = k \<longrightarrow> lt_Window a = window \<and> lt_Limit a = n"
    and "window < second \<or> second dvd window"
  shows "int (length (filter (in_window window now) (admitted_times k r as))) \<le> n"
proof -
  have "distinct (admitted_times k r as)"
    using admitted_times_distinct assms(1) by (simp add: strict_sorted_iff)
  then have "length (filter (in_window window now) (admitted_times k r as)) =
      card {t \<in> {} \<union> set (admitted_times k r as). in_window window now t}"
    using distinct_card [of "filter (in_window window now) (admitted_times k r as)"] by simp
  moreover have "sorted_wrt (<) (- 1 # map lt_Now as)" using assms(1,2) by auto
  ultimately show ?thesis
    using admitted_bound [of k window "- 1" r "{}" n as now] assms by (simp add: window_ok_def expire_keeps_def)
qed

text \<open>One key with a limit of two in a window of ten nanoseconds: the third attempt within ten is refused, the fourth is
  late enough.\<close>

definition four_attempts :: "attempt list" where
  "four_attempts = map (\<lambda>t. \<lparr>lt_Scope = ''a'', lt_Key = ''b'', lt_Limit = 2, lt_Window = 10, lt_Now = t\<rparr>) [20, 21, 22, 31]"

theorem limiter_window_bound_witness:
  "admitted_times ''rl:a:b'' \<lparr>ld_Now = 0, ld_Sets = Map.empty\<rparr> four_attempts = [20, 21, 31] \<and>
   int (length (filter (in_window 10 25) (admitted_times ''rl:a:b'' \<lparr>ld_Now = 0, ld_Sets = Map.empty\<rparr> four_attempts))) \<le> 2"
proof
  have ordered: "sorted_wrt (<) (map lt_Now four_attempts)" "\<forall>a \<in> set four_attempts. 0 \<le> lt_Now a"
    "\<forall>a \<in> set four_attempts. attempt_zkey a = ''rl:a:b'' \<longrightarrow> lt_Window a = 10 \<and> lt_Limit a = 2"
    by (simp_all add: four_attempts_def)
  show "int (length (filter (in_window 10 25)
      (admitted_times ''rl:a:b'' \<lparr>ld_Now = 0, ld_Sets = Map.empty\<rparr> four_attempts))) \<le> 2"
    by (rule limiter_window_bound [OF ordered(1,2) _ ordered(3)]) (simp_all add: second_def)
  have fl: "fl64 10 = 10" "fl64 11 = 11" "fl64 12 = 12" "fl64 20 = 20" "fl64 21 = 21" "fl64 22 = 22" "fl64 31 = 31"
    using f64.fl_int [of 10] f64.fl_int [of 11] f64.fl_int [of 12] f64.fl_int [of 20] f64.fl_int [of 21] f64.fl_int [of 22]
      f64.fl_int [of 31] by simp_all
  have i: "itoa 20 \<noteq> itoa 21" using itoa_inj [of 20 21] by auto
  show "admitted_times ''rl:a:b'' \<lparr>ld_Now = 0, ld_Sets = Map.empty\<rparr> four_attempts = [20, 21, 31]"
    by (simp add: admitted_times_def four_attempts_def allowed_in_iff after_attempt_cases trimmed_def trim_set_def
        record_attempt_def attempt_zkey_def limit_zkey_def live_def Let_def zmembers_def fl i expire_in_def second_def)
qed

lemma fl64_apart:
  assumes "\<bar>m\<bar> \<le> 2 ^ 62" "\<bar>n\<bar> \<le> 2 ^ 62" "m + 2000 \<le> n"
  shows "fl64 (of_int m) < fl64 (of_int n)"
proof -
  have err: "\<bar>fl64 (of_int k) - of_int k\<bar> \<le> 512" if "\<bar>k\<bar> \<le> 2 ^ 62" for k :: int
  proof -
    have "\<bar>of_int k :: rat\<bar> \<le> 2 ^ 62" using that by (metis of_int_abs of_int_le_iff of_int_numeral of_int_power)
    then have "\<bar>of_int k :: rat\<bar> * 2 powi (- 53) \<le> 2 ^ 62 * 2 powi (- 53)" by (rule mult_right_mono) simp
    then show ?thesis using fl64_err [of "of_int k"] by (simp add: power_int_minus)
  qed
  have "(of_int m :: rat) + 2000 \<le> of_int n" using assms(3) by (metis of_int_add of_int_le_iff of_int_numeral)
  then show ?thesis using err [OF assms(1)] err [OF assms(2)] by linarith
qed

text \<open>With any other window the limit does not hold: the set is gone when the whole seconds have passed. With a limit of
  one per window of between one and two seconds (by at least a millisecond, so that the rounding of scores does not matter),
  an attempt is let through one second after another.\<close>

theorem fractional_window_overshoots:
  assumes "0 \<le> t" "t < 2 ^ 61" "second + 1000000 \<le> window" "window < 2 * second"
    and "one = \<lparr>lt_Scope = scope, lt_Key = key, lt_Limit = 1, lt_Window = window, lt_Now = t\<rparr>"
  shows "filter (in_window window (t + second)) (admitted_times (limit_zkey scope key) \<lparr>ld_Now = 0, ld_Sets = Map.empty\<rparr>
    [one, one\<lparr>lt_Now := t + second\<rparr>]) = [t, t + second]"
proof -
  have "admitted_times (limit_zkey scope key) \<lparr>ld_Now = 0, ld_Sets = Map.empty\<rparr> [one, one\<lparr>lt_Now := t + second\<rparr>] = [t, t + second]"
    using assms(3,4) unfolding assms(5)
    by (simp add: admitted_times_def allowed_in_iff after_attempt_cases trimmed_def trim_set_def record_attempt_def
        attempt_zkey_def live_def Let_def zmembers_def expire_in_def second_def)
  moreover have "fl64 (of_int (t + second - window)) < fl64 (of_int t)"
    "fl64 (of_int (t + second - window)) < fl64 (of_int (t + second))"
    using assms(1-4) by (auto intro!: fl64_apart simp: second_def simp del: of_int_add of_int_diff)
  ultimately show ?thesis by (simp add: in_window_def second_def)
qed

theorem fractional_window_overshoots_witness:
  "filter (in_window (1500 * 1000000) second) (admitted_times (limit_zkey ''login'' ''ip'') \<lparr>ld_Now = 0, ld_Sets = Map.empty\<rparr>
    [\<lparr>lt_Scope = ''login'', lt_Key = ''ip'', lt_Limit = 1, lt_Window = 1500 * 1000000, lt_Now = 0\<rparr>,
     \<lparr>lt_Scope = ''login'', lt_Key = ''ip'', lt_Limit = 1, lt_Window = 1500 * 1000000, lt_Now = second\<rparr>]) = [0, second]"
  using fractional_window_overshoots [of 0 "1500 * 1000000", OF _ _ _ _ refl] by (simp add: second_def)

subsection \<open>Waiting for the hint\<close>




fun run_attempts :: "limit_db \<Rightarrow> attempt list \<Rightarrow> limit_db" where
  "run_attempts r [] = r"
| "run_attempts r (a # as) = run_attempts (after_attempt r a) as"














text \<open>Waiting for exactly what the header says is not enough: with a limit of one in ten seconds, a caller let through at 0 and
  refused half a second later reads 9 in the header, and is refused again 9 seconds after that.\<close>

definition ten_seconds :: "time \<Rightarrow> attempt" where
  "ten_seconds t = \<lparr>lt_Scope = ''a'', lt_Key = ''b'', lt_Limit = 1, lt_Window = 10 * second, lt_Now = t\<rparr>"

theorem header_wait_refused:
  "let r = run_attempts \<lparr>ld_Now = 0, ld_Sets = Map.empty\<rparr> [ten_seconds 0];
       now = 500000000; (r', answer) = Allow (lone_caller now) r ''a'' ''b'' 1 (10 * second) now
   in answer = Inr (False, 9500000000) \<and> retry_after_header 9500000000 = 9 \<and>
      \<not> allowed_in r' (ten_seconds (now + 9 * second))"
proof -
  define r where "r = run_attempts \<lparr>ld_Now = 0, ld_Sets = Map.empty\<rparr> [ten_seconds 0]"
  have fl: "fl64 (- 9500000000) = - 9500000000" "fl64 (- 500000000) = - 500000000" "fl64 9 = 9" "fl64 (1 / 2) = 1 / 2"
    "fl64 (19 / 2) = 19 / 2"
    using f64.fl_int [of "- 9500000000"] f64.fl_int [of "- 500000000"] f64.fl_int [of 9] fl64_exact [of 1 "- 1"]
      fl64_exact [of 19 "- 1"] by (simp_all add: power_int_minus)
  have r: "ld_Sets r = [''rl:a:b'' \<mapsto> ([(itoa 0, 0)], 10 * second)]"
    by (simp add: r_def ten_seconds_def allowed_in_iff after_attempt_cases trimmed_def trim_set_def
        record_attempt_def attempt_zkey_def limit_zkey_def live_def Let_def zmembers_def expire_in_def second_def)
  have header: "retry_after_header 9500000000 = 9"
    by (simp add: retry_after_header_def Seconds_def second_def fl Let_def float_to_int_def floor_eq_iff)
  have sets: "zmembers (r\<lparr>ld_Now := t\<rparr>) ''rl:a:b'' = [(itoa 0, 0)]" if "t < 10 * second" for t
    using that by (simp add: zmembers_def live_def r)
  have trim: "trim_set (r\<lparr>ld_Now := t\<rparr>) ''rl:a:b'' (t - 10 * second) = r\<lparr>ld_Now := t\<rparr>" if "t \<in> {500000000, 9500000000}" for t
  proof -
    have "trim_set (r\<lparr>ld_Now := t\<rparr>) ''rl:a:b'' (t - 10 * second) =
        r\<lparr>ld_Now := t, ld_Sets := (ld_Sets r)(''rl:a:b'' := Some ([(itoa 0, 0)], 10 * second))\<rparr>"
      using that by (auto simp: trim_set_def live_def r second_def fl Let_def)
    moreover have "(ld_Sets r)(''rl:a:b'' := Some ([(itoa 0, 0)], 10 * second)) = ld_Sets r" by (simp add: r)
    ultimately show ?thesis by (cases r) simp
  qed
  have "Allow (lone_caller 500000000) r ''a'' ''b'' 1 (10 * second) 500000000 =
      (r\<lparr>ld_Now := 500000000\<rparr>, Inr (False, 9500000000))"
    using trim [of 500000000] sets [of 500000000]
    by (simp add: Allow_def limit_tx_def lone_caller_def limit_zkey_def oldest_score_def float_to_int_def second_def)
  moreover have "\<not> allowed_in (r\<lparr>ld_Now := 500000000\<rparr>) (ten_seconds (500000000 + 9 * second))"
    using trim [of 9500000000] sets [of 9500000000]
    by (simp add: allowed_in_iff trimmed_def attempt_zkey_def ten_seconds_def limit_zkey_def second_def)
  ultimately show ?thesis unfolding Let_def r_def [symmetric] using header by simp
qed

subsection \<open>Callers that overlap\<close>

text \<open>The count and the record are two round trips. \<open>overlapping m\<close> is a caller at whose second trip \<open>m\<close> others, nested in
  each other's gaps, are served from start to end.\<close>

fun overlapping :: "nat \<Rightarrow> string \<Rightarrow> string \<Rightarrow> int \<Rightarrow> duration \<Rightarrow> time \<Rightarrow> limit_db \<Rightarrow> limit_db \<times> (string + bool \<times> duration)" where
  "overlapping 0 scope key n window now r = Allow (lone_caller now) r scope key n window now"
| "overlapping (Suc m) scope key n window now r =
     Allow \<lparr>li_fails = (\<lambda>c. False), li_landed = (\<lambda>c. False),
            li_interf = (\<lambda>c r. if c = LRecord then (fst (overlapping m scope key n window (now + 1) r))
                              else r\<lparr>ld_Now := now\<rparr>), li_Until = now\<rparr> r scope key n window now"

lemma overlapping_records:
  assumes "1 \<le> n" "0 < window" "0 \<le> now" "ld_Sets r (limit_zkey scope key) = None"
  shows "snd (overlapping m scope key n window now r) = Inr (True, 0) \<and>
    ld_Now (fst (overlapping m scope key n window now r)) = now + int m \<and>
    ld_Sets (fst (overlapping m scope key n window now r)) (limit_zkey scope key) =
      Some (map (\<lambda>t. (itoa (nat t), fl64 (of_int t))) (rev [now..now + int m]), now + int m + expire_in window)"
  using assms(3,4)
proof (induction m arbitrary: now r)
  case 0
  then show ?case using assms(1)
    by (simp add: Allow_def limit_tx_def lone_caller_def trim_set_def record_attempt_def zmembers_def live_def Let_def)
next
  case (Suc m)
  define k where "k = limit_zkey scope key"
  define r0 where "r0 = r\<lparr>ld_Now := now, ld_Sets := (ld_Sets r)(k := None)\<rparr>"
  define r1 where "r1 = fst (overlapping m scope key n window (now + 1) r0)"
  have ih: "ld_Now r1 = now + 1 + int m"
    "ld_Sets r1 k = Some (map (\<lambda>t. (itoa (nat t), fl64 (of_int t))) (rev [now + 1..now + 1 + int m]), now + 1 + int m + expire_in window)"
    using Suc.IH [of "now + 1" r0] Suc.prems(1) by (simp_all add: r1_def r0_def k_def)
  have "overlapping (Suc m) scope key n window now r = (record_attempt r1 k now window, Inr (True, 0))"
    using Suc.prems(2) assms(1)
    by (simp add: Allow_def limit_tx_def trim_set_def zmembers_def live_def Let_def r1_def r0_def k_def)
  moreover have "filter (\<lambda>(m', score). m' \<noteq> itoa (nat now)) (map (\<lambda>t. (itoa (nat t), fl64 (of_int t))) (rev [now + 1..now + 1 + int m])) =
      map (\<lambda>t. (itoa (nat t), fl64 (of_int t))) (rev [now + 1..now + 1 + int m])"
    (is "filter ?P ?zs = ?zs")
  proof (rule filter_True, rule ballI)
    fix x assume "x \<in> set ?zs"
    then obtain t where "x = (itoa (nat t), fl64 (of_int t))" "now < t" by auto
    then show "?P x" using itoa_inj [of t now] Suc.prems(1) by auto
  qed
  moreover have "[now..now + int (Suc m)] = now # [now + 1..now + 1 + int m]" by (simp add: upto_rec1 add.assoc)
  ultimately show ?case using ih expire_in_pos [OF assms(2)]
    by (simp add: record_attempt_def zmembers_def live_def Let_def k_def [symmetric])
qed

text \<open>Callers that overlap are not bounded by the limit: with any limit of at least one, \<open>m + 1\<close> callers nested in each
  other's gaps are all let through, whatever \<open>m\<close> is, within \<open>m\<close> nanoseconds of one another.\<close>

theorem limiter_overshoots:
  assumes "1 \<le> n" "0 < window" "0 \<le> now" "ld_Sets r (limit_zkey scope key) = None"
  shows "snd (overlapping m scope key n window now r) = Inr (True, 0) \<and>
    zmembers (fst (overlapping m scope key n window now r)) (limit_zkey scope key) =
      map (\<lambda>t. (itoa (nat t), fl64 (of_int t))) (rev [now..now + int m])"
  using overlapping_records [OF assms] expire_in_pos [OF assms(2)] by (simp_all add: zmembers_def live_def)

theorem limiter_overshoots_witness:
  "snd (overlapping 2 ''a'' ''b'' 1 10 20 \<lparr>ld_Now = 0, ld_Sets = Map.empty\<rparr>) = Inr (True, 0) \<and>
   length (zmembers (fst (overlapping 2 ''a'' ''b'' 1 10 20 \<lparr>ld_Now = 0, ld_Sets = Map.empty\<rparr>)) ''rl:a:b'') = 3"
  using limiter_overshoots [of 1 10 20 "\<lparr>ld_Now = 0, ld_Sets = Map.empty\<rparr>" "''a''" "''b''" 2] by (simp add: limit_zkey_def)

end
