(* ===== verification/Provider_Login.thy ===== *)
theory Provider_Login
  imports Users_Service Auth_External Auth_Registry
begin

text \<open>
  External logins over HTTP: \<^verbatim>\<open>internal/handlers/auth_providers.go\<close>.

  A provider is the built-in credential check, a plugin that checks passwords, or a plugin that can redirect; what a plugin
  answers is a function (\<open>None\<close>: its call failed), \<open>rd_Begin\<close> of the core's state and the callback address, \<open>rd_Complete\<close>
  of the provider's own state and the callback's parameters. The query of a URL is the list of its keys and values,
  which \<^verbatim>\<open>net/url\<close> parses (\<open>so_url_query\<close>, \<open>None\<close> for an unparseable one); a request is given with its query parsed. A
  reply has the target of the redirect and what it does to the two cookies. The reasons of failures go to the log
  and are left out.
\<close>

record redirect_ops =
  rd_Begin :: "string \<Rightarrow> string \<Rightarrow> (string \<times> string) option"
  rd_Complete :: "string \<Rightarrow> (string \<rightharpoonup> string) \<Rightarrow> ExternalIdentity option"

datatype login_provider =
    CredentialForm
  | PasswordPlugin "string \<Rightarrow> string \<Rightarrow> ExternalIdentity option"
  | RedirectPlugin redirect_ops

record sso_env =
  so_Auth :: "login_provider AuthRegistry option"
  so_LoginStates :: "sess_env option"
  so_ExternalAuth :: "(ext_env \<times> ProvisionPolicy) option"
  so_Users :: user_env
  so_IPBurst :: int
  so_Limit :: "string \<Rightarrow> app_error option"
  so_EmailLoginDisabled :: bool
  so_BaseURL :: string
  so_url_query :: "string \<Rightarrow> (string \<times> string) list option"
  so_StateRand :: "string option"
  so_SessionRand :: "string option"

record callback_req =
  cb_Query :: "(string \<times> string) list"
  cb_Cookie :: "string option"
  cb_IP :: string
  cb_UserAgent :: string

datatype cookie_op = SetCookie string | ClearCookie

record sso_reply =
  sr_Location :: string
  sr_StateCookie :: "cookie_op option"
  sr_SessionCookie :: "string option"

definition loginSuccessPath :: string where "loginSuccessPath = ''/''"

definition loginFailurePath :: string where "loginFailurePath = ''/login?error=sso''"

text \<open>\<^verbatim>\<open>url.Values.Get\<close>: the first value of a key, or nothing.\<close>

definition query_get :: "(string \<times> string) list \<Rightarrow> string \<Rightarrow> string" where
  "query_get q k = (case map_of q k of None \<Rightarrow> [] | Some v \<Rightarrow> v)"

subsection \<open>Providers\<close>

text \<open>\<^verbatim>\<open>Names\<close> ranges over a Go map: \<open>names\<close> is the order of that run. The answer is sorted by name.\<close>

definition provider_info :: "sso_env \<Rightarrow> login_provider AuthRegistry \<Rightarrow> string \<Rightarrow> (string \<times> bool) option" where
  "provider_info e r name =
     (if name = ar_defaultName r then (if so_EmailLoginDisabled e then None else Some (name, False))
      else case GetProvider r name of
             None \<Rightarrow> None
           | Some p \<Rightarrow> Some (name, case p of RedirectPlugin ops \<Rightarrow> True | _ \<Rightarrow> False))"

definition ListAuthProviders :: "sso_env \<Rightarrow> string list \<Rightarrow> (string \<times> bool) list" where
  "ListAuthProviders e names =
     (case so_Auth e of None \<Rightarrow> [] | Some r \<Rightarrow> sort_key fst (List.map_filter (provider_info e r) names))"

definition redirectProvider :: "sso_env \<Rightarrow> string \<Rightarrow> redirect_ops option" where
  "redirectProvider e name =
     (case (so_Auth e, so_LoginStates e, so_ExternalAuth e) of
        (Some r, Some _, Some _) \<Rightarrow> (case GetProvider r name of Some (RedirectPlugin ops) \<Rightarrow> Some ops | _ \<Rightarrow> None)
      | _ \<Rightarrow> None)"

subsection \<open>Starting a login\<close>

text \<open>\<^verbatim>\<open>strings.TrimRight(s, "/")\<close>.\<close>

definition callbackURL :: "sso_env \<Rightarrow> string \<Rightarrow> string" where
  "callbackURL e name =
     rev (dropWhile (\<lambda>c. c = CHR ''/'') (rev (so_BaseURL e))) @ ''/api/v1/auth/'' @ name @ ''/callback''"

definition authorizeURLCarriesState :: "sso_env \<Rightarrow> string \<Rightarrow> string \<Rightarrow> bool" where
  "authorizeURLCarriesState e authorizeURL want \<longleftrightarrow>
     authorizeURL \<noteq> [] \<and>
     (case so_url_query e authorizeURL of
        None \<Rightarrow> False
      | Some q \<Rightarrow> query_get q ''state'' \<noteq> [] \<and> query_get q ''state'' = want)"

definition provider_down :: "string \<Rightarrow> app_error" where
  "provider_down name = Unavailable (''the '' @ name @ '' login is unavailable right now'') 0"

definition ip_limit :: "sso_env \<Rightarrow> string \<Rightarrow> app_error option" where
  "ip_limit e scope = (if so_IPBurst e > 0 then so_Limit e scope else None)"

definition state_failed :: "state_error \<Rightarrow> app_error" where
  "state_failed err = (case err of StateErr m \<Rightarrow> Internal m | ErrNoLoginState \<Rightarrow> Internal ''auth: no login state'')"

definition BeginProviderLogin :: "sso_env \<Rightarrow> redis \<Rightarrow> string \<Rightarrow> redis \<times> sso_reply result" where
  "BeginProviderLogin e r name =
     (case (redirectProvider e name, so_LoginStates e) of
        (Some rp, Some ls) \<Rightarrow>
          (case ip_limit e ''sso-begin'' of
             Some err \<Rightarrow> (r, Inl err)
           | None \<Rightarrow>
               (case Mint (so_StateRand e) of
                  Inl err \<Rightarrow> (r, Inl (state_failed err))
                | Inr state \<Rightarrow>
                    (case rd_Begin rp state (callbackURL e name) of
                       None \<Rightarrow> (r, Inl (provider_down name))
                     | Some (authorizeURL, providerState) \<Rightarrow>
                         if \<not> authorizeURLCarriesState e authorizeURL state then (r, Inl (provider_down name))
                         else case Store ls r state name providerState of
                                (r, Some err) \<Rightarrow> (r, Inl (state_failed err))
                              | (r, None) \<Rightarrow>
                                  (r, Inr \<lparr>sr_Location = authorizeURL, sr_StateCookie = Some (SetCookie state),
                                           sr_SessionCookie = None\<rparr>))))
      | _ \<Rightarrow> (r, Inl ErrNotFound))"

subsection \<open>Completing a login\<close>

definition sso_failed :: "sso_reply" where
  "sso_failed = \<lparr>sr_Location = loginFailurePath, sr_StateCookie = Some ClearCookie, sr_SessionCookie = None\<rparr>"

text \<open>From the identity on. The session is opened as in \<^verbatim>\<open>Login\<close>, with the same second look at the ban.\<close>

definition finish_login ::
  "sso_env \<Rightarrow> ext_env \<times> ProvisionPolicy \<Rightarrow> acct \<Rightarrow> string \<Rightarrow> ExternalIdentity \<Rightarrow> callback_req \<Rightarrow> acct \<times> sso_reply" where
  "finish_login e x w name idn req =
     (case Resolve (fst x) (snd x) (fst w) name idn of
        (s, Inl _) \<Rightarrow> ((s, snd w), sso_failed)
      | (s, Inr u) \<Rightarrow>
          (case open_session (so_Users e) (so_SessionRand e) (s, snd w) u (cb_IP req) (cb_UserAgent req) of
             (w, Inl _) \<Rightarrow> (w, sso_failed)
           | (w, Inr sess) \<Rightarrow>
               (w, \<lparr>sr_Location = loginSuccessPath, sr_StateCookie = Some ClearCookie, sr_SessionCookie = Some (ss_Token sess)\<rparr>)))"

definition CompleteProviderLogin ::
  "sso_env \<Rightarrow> acct \<Rightarrow> string \<Rightarrow> callback_req option \<Rightarrow> acct \<times> sso_reply result" where
  "CompleteProviderLogin e w name http =
     (case (redirectProvider e name, so_LoginStates e, so_ExternalAuth e) of
        (Some rp, Some ls, Some x) \<Rightarrow>
          (case http of
             None \<Rightarrow> (w, Inr sso_failed)
           | Some req \<Rightarrow>
               (case ip_limit e ''sso-callback'' of
                  Some err \<Rightarrow> (w, Inl err)
                | None \<Rightarrow>
                    let state = query_get (cb_Query req) ''state''
                    in case cb_Cookie req of
                         None \<Rightarrow> (w, Inr sso_failed)
                       | Some cookie \<Rightarrow>
                           if cookie = [] then (w, Inr sso_failed)
                           else if ConstantTimeCompare cookie state \<noteq> 1 then (w, Inr sso_failed)
                           else case Consume ls (snd w) state of
                                  (r, Inl _) \<Rightarrow> ((fst w, r), Inr sso_failed)
                                | (r, Inr st) \<Rightarrow>
                                    if ls_Provider st \<noteq> name then ((fst w, r), Inr sso_failed)
                                    else case rd_Complete rp (ls_ProviderState st) (map_of (cb_Query req)) of
                                           None \<Rightarrow> ((fst w, r), Inr sso_failed)
                                         | Some idn \<Rightarrow>
                                             (case finish_login e x (fst w, r) name idn req of
                                                (w, reply) \<Rightarrow> (w, Inr reply))))
      | _ \<Rightarrow> (w, Inr sso_failed))"

end
