(* ===== verification/Provider_Login_Safety.thy ===== *)
theory Provider_Login_Safety
  imports Provider_Login Auth_External_Safety Login_Races
begin

text \<open>
  What an external login over HTTP guarantees: a session only for the browser that started it and with a state of the
  core's own, the way through for an honest provider, and what password plugins cannot be used for.
\<close>

lemma redirectProvider_Some:
  "redirectProvider e name = Some rp \<longleftrightarrow>
     (\<exists>r ls x. so_Auth e = Some r \<and> so_LoginStates e = Some ls \<and> so_ExternalAuth e = Some x \<and>
        GetProvider r name = Some (RedirectPlugin rp))"
  by (auto simp: redirectProvider_def split: option.splits login_provider.splits)

lemma Consume_Inr:
  "Consume ls r state = (r', Inr st) \<longleftrightarrow>
     state \<noteq> [] \<and> \<not> sn_fails ls SConsume \<and>
     (\<exists>x. live (rd_Now (sn_interf ls SConsume r)) (rd_States (sn_interf ls SConsume r)) state = Some (st, x)) \<and>
     r' = (sn_interf ls SConsume r)\<lparr>rd_States := (rd_States (sn_interf ls SConsume r))(state := None)\<rparr>"
  by (auto simp: Consume_def Let_def split: option.splits)

text \<open>The one way to a reply that is not the failure.\<close>

lemma CompleteProviderLogin_way:
  assumes "CompleteProviderLogin e w name http = (w', Inr reply)" "reply \<noteq> sso_failed"
  shows "\<exists>req rp ls x r st idn. http = Some req \<and> redirectProvider e name = Some rp \<and> so_LoginStates e = Some ls \<and>
    so_ExternalAuth e = Some x \<and> cb_Cookie req = Some (query_get (cb_Query req) ''state'') \<and>
    Consume ls (snd w) (query_get (cb_Query req) ''state'') = (r, Inr st) \<and> ls_Provider st = name \<and>
    rd_Complete rp (ls_ProviderState st) (map_of (cb_Query req)) = Some idn \<and>
    finish_login e x (fst w, r) name idn req = (w', reply)"
  using assms
  by (auto simp: CompleteProviderLogin_def ConstantTimeCompare_iff Let_def split: option.splits sum.splits prod.splits if_splits)

lemma finish_login_way:
  assumes "finish_login e x w name idn req = (w', reply)" "reply \<noteq> sso_failed"
  shows "\<exists>s u sess. Resolve (fst x) (snd x) (fst w) name idn = (s, Inr u) \<and>
    open_session (so_Users e) (so_SessionRand e) (s, snd w) u (cb_IP req) (cb_UserAgent req) = (w', Inr sess) \<and>
    reply = \<lparr>sr_Location = loginSuccessPath, sr_StateCookie = Some ClearCookie, sr_SessionCookie = Some (ss_Token sess)\<rparr>"
  using assms by (auto simp: finish_login_def split: sum.splits prod.splits)

lemma open_session_way:
  assumes "open_session e rand w u ip ua = (w', Inr sess)"
  shows "\<exists>raw. rand = Some raw \<and> ss_Token sess = base64url_EncodeToString raw \<and> ss_UserID sess = u_ID u"
  using assms
  by (auto simp: open_session_def SessionStore_Create_def session_of_def Let_def split: option.splits sum.splits prod.splits if_splits)

text \<open>C7. A callback opens a session only for the browser that began the login, and only with a state of the core's own.
  Whatever other clients do meanwhile, a reply of \<^verbatim>\<open>CompleteProviderLogin\<close> is the one failure reply, which sets no
  session, or else: the callback's state is the non-empty value of the browser's cookie, it was stored for this very
  provider and had not expired or been used, it is gone afterwards, the provider vouched for the identity with the
  state it had been given, the return path accepted the identity as an account that is not banned, and the session
  is that account's.\<close>

theorem sso_login_bound:
  assumes "CompleteProviderLogin e w name http = (w', Inr reply)"
  shows "reply = sso_failed \<or>
    (\<exists>req rp ls x st t idn s u raw sess.
       http = Some req \<and> redirectProvider e name = Some rp \<and> so_LoginStates e = Some ls \<and> so_ExternalAuth e = Some x \<and>
       (let state = query_get (cb_Query req) ''state''; r = sn_interf ls SConsume (snd w) in
          state \<noteq> [] \<and> cb_Cookie req = Some state \<and>
          live (rd_Now r) (rd_States r) state = Some (st, t) \<and> ls_Provider st = name \<and>
          rd_Complete rp (ls_ProviderState st) (map_of (cb_Query req)) = Some idn \<and>
          Resolve (fst x) (snd x) (fst w) name idn = (s, Inr u) \<and> \<not> u_Banned u \<and>
          open_session (so_Users e) (so_SessionRand e) (s, r\<lparr>rd_States := (rd_States r)(state := None)\<rparr>) u
            (cb_IP req) (cb_UserAgent req) = (w', Inr sess) \<and>
          so_SessionRand e = Some raw \<and> ss_UserID sess = u_ID u \<and>
          reply = \<lparr>sr_Location = ''/'', sr_StateCookie = Some ClearCookie,
            sr_SessionCookie = Some (base64url_EncodeToString raw)\<rparr>))"
proof (cases "reply = sso_failed")
  case False
  from CompleteProviderLogin_way [OF assms False] obtain req rp ls x r st idn where way:
    "http = Some req" "redirectProvider e name = Some rp" "so_LoginStates e = Some ls" "so_ExternalAuth e = Some x"
    "cb_Cookie req = Some (query_get (cb_Query req) ''state'')"
    "Consume ls (snd w) (query_get (cb_Query req) ''state'') = (r, Inr st)" "ls_Provider st = name"
    "rd_Complete rp (ls_ProviderState st) (map_of (cb_Query req)) = Some idn"
    and fin: "finish_login e x (fst w, r) name idn req = (w', reply)" by blast
  from finish_login_way [OF fin False] obtain s u sess where
    res: "Resolve (fst x) (snd x) (fst w) name idn = (s, Inr u)"
    and op: "open_session (so_Users e) (so_SessionRand e) (s, r) u (cb_IP req) (cb_UserAgent req) = (w', Inr sess)"
    and reply: "reply = \<lparr>sr_Location = loginSuccessPath, sr_StateCookie = Some ClearCookie, sr_SessionCookie = Some (ss_Token sess)\<rparr>"
    by auto
  have ok: "\<not> u_Banned u" using Resolve_Inr [OF res] resolve_unbound_Inr by (fastforce simp: Let_def)
  from open_session_way [OF op] obtain raw where raw: "so_SessionRand e = Some raw"
    "ss_Token sess = base64url_EncodeToString raw" "ss_UserID sess = u_ID u" by blast
  let ?r = "sn_interf ls SConsume (snd w)" and ?state = "query_get (cb_Query req) ''state''"
  from way(6) [unfolded Consume_Inr] obtain t where st: "?state \<noteq> []"
    "live (rd_Now ?r) (rd_States ?r) ?state = Some (st, t)" "r = ?r\<lparr>rd_States := (rd_States ?r)(?state := None)\<rparr>" by blast
  show ?thesis
    unfolding Let_def
    by (intro disjI2 exI [of _ req] exI [of _ rp] exI [of _ ls] exI [of _ x] exI [of _ st] exI [of _ t] exI [of _ idn]
        exI [of _ s] exI [of _ u] exI [of _ raw] exI [of _ sess])
      (use way(1-5,7,8) st op res ok raw reply in \<open>simp add: loginSuccessPath_def\<close>)
qed simp

text \<open>A callback that reaches another browser, or comes without the cookie, changes nothing: no session, no account,
  and the login it was meant for can still complete.\<close>

theorem foreign_callback_harmless:
  assumes "cb_Cookie req \<noteq> Some (query_get (cb_Query req) ''state'') \<or> cb_Cookie req = Some []"
  shows "fst (CompleteProviderLogin e w name (Some req)) = w \<and>
    (snd (CompleteProviderLogin e w name (Some req)) = Inr sso_failed \<or> ip_limit e ''sso-callback'' \<noteq> None)"
  using assms
  by (auto simp: CompleteProviderLogin_def ConstantTimeCompare_iff Let_def split: option.split)

text \<open>C30. An honest provider's login goes through. Let \<^verbatim>\<open>BeginProviderLogin\<close> redirect to a URL, and let the identity provider
  send the same browser back with the state that the URL carries, while the stored state has not expired and nobody
  else used it. Then the plugin gets back the state it returned at the start, and when it vouches for an identity
  that the return path accepts, and the session store works, the browser is redirected home with a session of that
  account.\<close>

theorem sso_roundtrip:
  assumes "BeginProviderLogin e r0 name = (r1, Inr started)" "so_LoginStates e = Some ls" "so_ExternalAuth e = Some x"
    and "so_url_query e (sr_Location started) = Some q" "query_get (cb_Query req) ''state'' = query_get q ''state''"
    and "sr_StateCookie started = Some (SetCookie cookie)" "cb_Cookie req = Some cookie"
    and "rd_States (sn_interf ls SConsume (snd w)) cookie = rd_States r1 cookie"
    and "rd_Now (sn_interf ls SConsume (snd w)) < rd_Now r1 + sn_ttl ls"
    and "\<not> sn_fails ls SConsume" "ip_limit e ''sso-callback'' = None"
    and "\<And>rp providerState. redirectProvider e name = Some rp \<Longrightarrow>
           rd_Begin rp cookie (callbackURL e name) = Some (sr_Location started, providerState) \<Longrightarrow>
           rd_Complete rp providerState (map_of (cb_Query req)) = Some idn"
    and "Resolve (fst x) (snd x) (fst w) name idn = (s, Inr u)"
    and "let r = sn_interf ls SConsume (snd w) in
         open_session (so_Users e) (so_SessionRand e) (s, r\<lparr>rd_States := (rd_States r)(cookie := None)\<rparr>) u
           (cb_IP req) (cb_UserAgent req) = (w', Inr sess)"
  shows "CompleteProviderLogin e w name (Some req) =
      (w', Inr \<lparr>sr_Location = ''/'', sr_StateCookie = Some ClearCookie, sr_SessionCookie = Some (ss_Token sess)\<rparr>) \<and>
    ss_UserID sess = u_ID u"
proof -
  from assms(1,2,6) obtain rp providerState where b: "redirectProvider e name = Some rp" "Mint (so_StateRand e) = Inr cookie"
    "rd_Begin rp cookie (callbackURL e name) = Some (sr_Location started, providerState)"
    "authorizeURLCarriesState e (sr_Location started) cookie" "Store ls r0 cookie name providerState = (r1, None)"
    by (auto simp: BeginProviderLogin_def split: option.splits sum.splits prod.splits if_splits)
  have state: "query_get (cb_Query req) ''state'' = cookie" "cookie \<noteq> []"
    using b(4) assms(4,5) by (auto simp: authorizeURLCarriesState_def)
  have "rd_States r1 cookie = Some (\<lparr>ls_Provider = name, ls_ProviderState = providerState\<rparr>, rd_Now r1 + sn_ttl ls)"
    using b(5) by (auto simp: Store_def exec_tx_def Let_def split: if_splits)
  then have "Consume ls (snd w) cookie = ((sn_interf ls SConsume (snd w))
      \<lparr>rd_States := (rd_States (sn_interf ls SConsume (snd w)))(cookie := None)\<rparr>,
      Inr \<lparr>ls_Provider = name, ls_ProviderState = providerState\<rparr>)"
    using assms(8-10) state(2) by (simp add: Consume_def Let_def live_def)
  moreover have "rd_Complete rp providerState (map_of (cb_Query req)) = Some idn" by (rule assms(12) [OF b(1,3)])
  moreover have "ss_UserID sess = u_ID u" using open_session_way [OF assms(14) [unfolded Let_def]] by blast
  ultimately show ?thesis
    using b(1) assms(2,3,7,11,13,14) state
    by (auto simp: CompleteProviderLogin_def finish_login_def ConstantTimeCompare_iff loginSuccessPath_def Let_def)
qed

text \<open>A plugin that only checks passwords serves no login. With email login disabled and no redirect provider, a
  deployment counts as having a usable login as soon as such a plugin is registered, and the plugin is offered to
  clients; but the login form refuses every request, and the redirect routes know no such provider: no request reaches
  the plugin.\<close>

theorem password_plugin_unreachable:
  assumes "so_Auth e = Some r" "GetProvider r name = Some (PasswordPlugin check)" "name \<noteq> ar_defaultName r"
    and "set names = dom (ar_m r)" "\<And>n ops. GetProvider r n \<noteq> Some (RedirectPlugin ops)" "lc_disabled cfg"
  shows "HasUsableLogin names (ar_defaultName r) False \<and> (name, False) \<in> set (ListAuthProviders e names) \<and>
    (\<forall>w body. fst (Login ue c cfg rand w body ip ua) = w \<and>
       snd (Login ue c cfg rand w body ip ua) \<in> {Inl ErrBadRequest, Inl (Forbidden
         ''email/password login is disabled on this deployment; use your configured identity provider'')}) \<and>
    (\<forall>st n. BeginProviderLogin e st n = (st, Inl ErrNotFound)) \<and>
    (\<forall>w n http. CompleteProviderLogin e w n http = (w, Inr sso_failed))"
proof -
  have mem: "name \<in> set names" using assms(2,4) by (auto simp: GetProvider_def)
  have "HasUsableLogin names (ar_defaultName r) False"
    using mem assms(3) by (auto simp: HasUsableLogin_def list_ex_iff)
  moreover have "provider_info e r name = Some (name, False)" using assms(2,3) by (simp add: provider_info_def)
  then have "(name, False) \<in> set (ListAuthProviders e names)"
    using mem assms(1) by (force simp: ListAuthProviders_def List.map_filter_def)
  moreover have none: "redirectProvider e n = None" for n
    using assms(1) assms(5) [of n] by (auto simp: redirectProvider_def split: option.splits login_provider.splits)
  moreover have "BeginProviderLogin e st n = (st, Inl ErrNotFound)" for st n by (simp add: BeginProviderLogin_def none)
  moreover have "CompleteProviderLogin e w n http = (w, Inr sso_failed)" for w n http
    by (simp add: CompleteProviderLogin_def none)
  ultimately show ?thesis using assms(6) by (auto simp: Login_def split: option.splits prod.splits)
qed

subsection \<open>Witnesses\<close>

text \<open>An identity provider that sends the state back and a nonce of its own to its plugin.\<close>

definition fake_idp :: redirect_ops where
  "fake_idp = \<lparr>rd_Begin = (\<lambda>state cb. Some (''https://idp/?state='' @ state, ''nonce'')),
     rd_Complete = (\<lambda>st q. if st = ''nonce'' then Some eve_identity else None)\<rparr>"

definition oidc_registry :: "login_provider AuthRegistry" where
  "oidc_registry = (case RegisterProvider (NewAuthRegistry ''email'' CredentialForm) ''oidc'' (RedirectPlugin fake_idp) False
     of Inr r \<Rightarrow> r | Inl _ \<Rightarrow> NewAuthRegistry ''email'' CredentialForm)"

lemma oidc_registered: "GetProvider oidc_registry ''oidc'' = Some (RedirectPlugin fake_idp)"
  by (simp add: oidc_registry_def RegisterProvider_def NewAuthRegistry_def GetProvider_def Let_def)

definition oidc_env :: sso_env where
  "oidc_env = \<lparr>so_Auth = Some oidc_registry,
     so_LoginStates = Some (solo_env\<lparr>sn_ttl := LoginStateTTL\<rparr>), so_ExternalAuth = Some (calm_ext, ProvisionOpen), so_Users = calm_env,
     so_IPBurst = 0, so_Limit = (\<lambda>s. None), so_EmailLoginDisabled = False, so_BaseURL = ''https://ctf.org/'',
     so_url_query = (\<lambda>u. Some [(''state'', drop 19 u)]), so_StateRand = Some ''abc'', so_SessionRand = Some ''xyz''\<rparr>"

definition eve_state :: string where "eve_state = base64url_EncodeToString ''abc''"

definition eve_token :: string where "eve_token = base64url_EncodeToString ''xyz''"

definition eve_callback :: "string option \<Rightarrow> callback_req" where
  "eve_callback cookie = \<lparr>cb_Query = [(''state'', eve_state), (''code'', ''7'')], cb_Cookie = cookie, cb_IP = ''10.0.0.7'', cb_UserAgent = []\<rparr>"

definition eve_started :: redis where
  "eve_started = fst (BeginProviderLogin oidc_env (empty_redis 50) ''oidc'')"

lemma oidc_fields [simp]:
  "so_LoginStates oidc_env = Some (solo_env\<lparr>sn_ttl := LoginStateTTL\<rparr>)" "so_ExternalAuth oidc_env = Some (calm_ext, ProvisionOpen)"
  "so_Users oidc_env = calm_env" "ip_limit oidc_env s = None" "so_StateRand oidc_env = Some ''abc''"
  "so_url_query oidc_env u = Some [(''state'', drop 19 u)]" "so_SessionRand oidc_env = Some ''xyz''"
  "redirectProvider oidc_env ''oidc'' = Some fake_idp"
  by (simp_all add: oidc_env_def ip_limit_def redirectProvider_def oidc_registered)

lemma eve_state_ne: "eve_state \<noteq> []"
  using length_encode_with [of 6 base64url_alphabet "''abc''"]
  by (auto simp: eve_state_def base64url_EncodeToString_def)

lemma query_get_hd [simp]: "query_get ((k, v) # q) k = v"
  by (simp add: query_get_def)

lemma eve_begin_stored:
  "snd (BeginProviderLogin oidc_env (empty_redis 50) ''oidc'') =
     Inr \<lparr>sr_Location = ''https://idp/?state='' @ eve_state, sr_StateCookie = Some (SetCookie eve_state), sr_SessionCookie = None\<rparr>"
  "rd_Now eve_started = 50"
  "rd_States eve_started eve_state = Some (\<lparr>ls_Provider = ''oidc'', ls_ProviderState = ''nonce''\<rparr>, 50 + LoginStateTTL)"
  by (simp_all add: eve_started_def BeginProviderLogin_def Mint_def eve_state_def [symmetric] fake_idp_def
      authorizeURLCarriesState_def Store_def exec_tx_def solo_env_def empty_redis_def eve_state_ne Let_def)

lemma eve_begin: "BeginProviderLogin oidc_env (empty_redis 50) ''oidc'' =
    (eve_started, Inr \<lparr>sr_Location = ''https://idp/?state='' @ eve_state, sr_StateCookie = Some (SetCookie eve_state), sr_SessionCookie = None\<rparr>)"
  using eve_begin_stored(1) unfolding eve_started_def by (metis prod.collapse)

lemma eve_session:
  "\<exists>w' sess. open_session calm_env (Some ''xyz'') (eve_store, eve_started\<lparr>rd_States := f\<rparr>) eve ip ua = (w', Inr sess) \<and>
     ss_Token sess = eve_token"
proof -
  have get: "GetUserByID eve_store 101 = Some eve" by code_simp
  have eve: "u_ID eve = 101" "\<not> u_Banned eve" by (simp_all add: eve_def)
  show ?thesis
    by (simp add: open_session_def SessionStore_Create_def calm_env_def Users_Get_def exec_tx_def solo_env_def session_of_def
        eve_token_def get eve Let_def)
qed

theorem sso_roundtrip_witness:
  "\<exists>w'. CompleteProviderLogin oidc_env (ada_store, eve_started) ''oidc'' (Some (eve_callback (Some eve_state))) =
     (w', Inr \<lparr>sr_Location = ''/'', sr_StateCookie = Some ClearCookie, sr_SessionCookie = Some eve_token\<rparr>)"
proof -
  obtain w' sess where s: "open_session calm_env (Some ''xyz'') (eve_store, eve_started\<lparr>rd_States := (rd_States eve_started)(eve_state := None)\<rparr>)
      eve (cb_IP (eve_callback (Some eve_state))) (cb_UserAgent (eve_callback (Some eve_state))) = (w', Inr sess)" "ss_Token sess = eve_token"
    using eve_session by blast
  have calm: "sn_interf solo_env c r = r" "\<not> sn_fails solo_env c" for c r by (simp_all add: solo_env_def)
  have "CompleteProviderLogin oidc_env (ada_store, eve_started) ''oidc'' (Some (eve_callback (Some eve_state))) =
      (w', Inr \<lparr>sr_Location = ''/'', sr_StateCookie = Some ClearCookie, sr_SessionCookie = Some (ss_Token sess)\<rparr>)"
  proof (rule conjunct1 [OF sso_roundtrip [OF eve_begin oidc_fields(1,2,6)]])
    show "query_get (cb_Query (eve_callback (Some eve_state))) ''state'' =
        query_get [(''state'', drop 19 (sr_Location \<lparr>sr_Location = ''https://idp/?state='' @ eve_state,
          sr_StateCookie = Some (SetCookie eve_state), sr_SessionCookie = None\<rparr>))] ''state''"
      by (simp add: eve_callback_def)
    show "rd_Complete rp providerState (map_of (cb_Query (eve_callback (Some eve_state)))) = Some eve_identity"
      if "redirectProvider oidc_env ''oidc'' = Some rp"
        "rd_Begin rp eve_state (callbackURL oidc_env ''oidc'') = Some (sr_Location \<lparr>sr_Location = ''https://idp/?state='' @ eve_state,
          sr_StateCookie = Some (SetCookie eve_state), sr_SessionCookie = None\<rparr>, providerState)" for rp providerState
      using that by (auto simp: fake_idp_def)
    show "Resolve (fst (calm_ext, ProvisionOpen)) (snd (calm_ext, ProvisionOpen)) (fst (ada_store, eve_started)) ''oidc'' eve_identity =
        (eve_store, Inr eve)" using eve_login by simp
  qed (use s(1) in \<open>simp_all add: calm eve_begin_stored(2) eve_callback_def LoginStateTTL_def second_def Let_def\<close>)
  then show ?thesis unfolding s(2) by blast
qed

text \<open>The same callback in another browser.\<close>

theorem foreign_callback_harmless_witness:
  "CompleteProviderLogin oidc_env (ada_store, eve_started) ''oidc'' (Some (eve_callback (Some []))) =
     ((ada_store, eve_started), Inr sso_failed)"
proof -
  have "cb_Cookie (eve_callback (Some [])) \<noteq> Some (query_get (cb_Query (eve_callback (Some []))) ''state'') \<or>
      cb_Cookie (eve_callback (Some [])) = Some []"
    by (simp add: eve_callback_def)
  from foreign_callback_harmless [OF this, of oidc_env "(ada_store, eve_started)" "''oidc''"]
  show ?thesis by (simp add: prod_eq_iff)
qed

lemma eve_completes:
  "\<exists>w'. CompleteProviderLogin oidc_env (ada_store, eve_started) ''oidc'' (Some (eve_callback (Some eve_state))) =
     (w', Inr \<lparr>sr_Location = ''/'', sr_StateCookie = Some ClearCookie, sr_SessionCookie = Some eve_token\<rparr>)"
proof -
  obtain w' sess where s: "open_session calm_env (Some ''xyz'') (eve_store, eve_started\<lparr>rd_States := (rd_States eve_started)(eve_state := None)\<rparr>)
      eve ''10.0.0.7'' [] = (w', Inr sess)" "ss_Token sess = eve_token"
    using eve_session by blast
  have "Consume (solo_env\<lparr>sn_ttl := LoginStateTTL\<rparr>) eve_started eve_state =
      (eve_started\<lparr>rd_States := (rd_States eve_started)(eve_state := None)\<rparr>, Inr \<lparr>ls_Provider = ''oidc'', ls_ProviderState = ''nonce''\<rparr>)"
    by (simp add: Consume_def solo_env_def live_def eve_begin_stored(2,3) eve_state_ne LoginStateTTL_def second_def Let_def)
  moreover have "rd_Complete fake_idp ''nonce'' q = Some eve_identity" for q by (simp add: fake_idp_def)
  ultimately show ?thesis using s eve_login
    by (simp add: CompleteProviderLogin_def eve_callback_def finish_login_def ConstantTimeCompare_iff eve_state_ne loginSuccessPath_def Let_def)
qed

theorem sso_login_bound_witness:
  "\<exists>s u. Resolve calm_ext ProvisionOpen ada_store ''oidc'' eve_identity = (s, Inr u) \<and> \<not> u_Banned u \<and>
     live (rd_Now eve_started) (rd_States eve_started) eve_state \<noteq> None"
proof -
  obtain w' where run: "CompleteProviderLogin oidc_env (ada_store, eve_started) ''oidc'' (Some (eve_callback (Some eve_state))) =
     (w', Inr \<lparr>sr_Location = ''/'', sr_StateCookie = Some ClearCookie, sr_SessionCookie = Some eve_token\<rparr>)"
    using eve_completes by blast
  have calm: "sn_interf solo_env c r = r" for c r by (simp add: solo_env_def)
  from sso_login_bound [OF run] show ?thesis
    by (auto simp: sso_failed_def loginFailurePath_def eve_callback_def Let_def calm fake_idp_def split: if_splits)
qed

text \<open>A deployment that relies on a plugin which checks passwords against a directory.\<close>

definition ldap_registry :: "login_provider AuthRegistry" where
  "ldap_registry = (case RegisterProvider (NewAuthRegistry ''email'' CredentialForm) ''ldap'' (PasswordPlugin (\<lambda>i p. Some eve_identity)) False
     of Inr r \<Rightarrow> r | Inl _ \<Rightarrow> NewAuthRegistry ''email'' CredentialForm)"

definition ldap_env :: sso_env where
  "ldap_env = oidc_env\<lparr>so_Auth := Some ldap_registry, so_EmailLoginDisabled := True\<rparr>"

theorem password_plugin_unreachable_witness:
  "HasUsableLogin [''ldap'', ''email''] ''email'' False \<and> ListAuthProviders ldap_env [''ldap'', ''email''] = [(''ldap'', False)] \<and>
   snd (CompleteProviderLogin ldap_env (ada_store, eve_started) ''ldap'' None) = Inr sso_failed \<and>
   snd (BeginProviderLogin ldap_env (empty_redis 50) ''ldap'') = Inl ErrNotFound"
proof -
  have m: "ar_m ldap_registry = [''email'' \<mapsto> \<lparr>provider = CredentialForm, protected = True\<rparr>,
      ''ldap'' \<mapsto> \<lparr>provider = PasswordPlugin (\<lambda>i p. Some eve_identity), protected = False\<rparr>]" "ar_defaultName ldap_registry = ''email''"
    by (simp_all add: ldap_registry_def RegisterProvider_def NewAuthRegistry_def Let_def)
  have "so_Auth ldap_env = Some ldap_registry" "GetProvider ldap_registry ''ldap'' = Some (PasswordPlugin (\<lambda>i p. Some eve_identity))"
    "''ldap'' \<noteq> ar_defaultName ldap_registry" "set [''ldap'', ''email''] = dom (ar_m ldap_registry)"
    "GetProvider ldap_registry n \<noteq> Some (RedirectPlugin ops)" "lc_disabled (open_cfg\<lparr>lc_disabled := True\<rparr>)" for n ops
    by (auto simp: ldap_env_def m GetProvider_def)
  from password_plugin_unreachable [OF this(1-4) this(5) this(6)]
  have "HasUsableLogin [''ldap'', ''email''] ''email'' False"
    "snd (CompleteProviderLogin ldap_env (ada_store, eve_started) ''ldap'' None) = Inr sso_failed"
    "snd (BeginProviderLogin ldap_env (empty_redis 50) ''ldap'') = Inl ErrNotFound" by (simp_all add: m(2))
  moreover have "ListAuthProviders ldap_env [''ldap'', ''email''] = [(''ldap'', False)]"
    by (simp add: ListAuthProviders_def ldap_env_def provider_info_def m GetProvider_def)
  ultimately show ?thesis by simp
qed

end
