(* ===== verification/Plugin_Discovery.thy ===== *)
theory Plugin_Discovery
  imports Plugin_State
begin

text \<open>
  Finding plugins and resolving their configuration: \<^verbatim>\<open>internal/plugin/manifest.go\<close>, \<^verbatim>\<open>discovery.go\<close>, \<^verbatim>\<open>config.go\<close> and
  the part of \<^verbatim>\<open>launchDiscovered\<close> in \<^verbatim>\<open>boot.go\<close> that decides whether a plugin is launched.

  The directory tree is a parameter: the listing of the plugins directory, what a \<^verbatim>\<open>plugin.yaml\<close> decodes to
  (\<open>yaml_answer\<close>; YAML decoding is a library's), the mode of an executable, \<^verbatim>\<open>filepath.Join\<close>. A Go map that is ranged over
  is an association list with distinct keys in the order of that run. \<^verbatim>\<open>%q\<close> is the parameter \<open>quote\<close>;
  \<open>uni_upper\<close> is \<^verbatim>\<open>strings.ToUpper\<close> on text that is not ASCII, as a list of characters with one above 127 for every
  rune that is not ASCII. The texts of validation errors, which are only logged, are shortened.
\<close>

subsection \<open>Manifests\<close>

record ConfigKey =
  ck_Type :: string
  ck_Required :: bool
  ck_Secret :: bool
  ck_Default :: string

record Manifest =
  mf_Name :: string
  mf_Type :: string
  mf_ABI :: string
  mf_Version :: string
  mf_Executable :: string
  mf_Description :: string
  mf_Override :: bool
  mf_Config :: "(string \<times> ConfigKey) list"

text \<open>The keys of \<^verbatim>\<open>pluginTypes\<close>; the dispense keys are the names of the types.\<close>

definition pluginTypes :: "string list" where
  "pluginTypes = [''auth'', ''scoring'', ''notification'', ''challenge_type'']"

definition configTypeOK :: "string list" where
  "configTypeOK = [''string'', ''int'', ''bool'']"

definition name_char :: "char \<Rightarrow> bool" where
  "name_char c \<longleftrightarrow> is_digit c \<or> (97 \<le> (of_char c :: nat) \<and> (of_char c :: nat) \<le> 122)"

text \<open>\<^verbatim>\<open>^[a-z0-9]+(-[a-z0-9]+)*$\<close>.\<close>

definition nameRE :: "string \<Rightarrow> bool" where
  "nameRE s \<longleftrightarrow> list_all (\<lambda>w. w \<noteq> [] \<and> list_all name_char w) (Split s CHR ''-'')"

definition checkABIMajor :: "string \<Rightarrow> string option" where
  "checkABIMajor abi =
     (let i = IndexByte abi CHR ''.'';
          major = (if i \<ge> 0 then take (nat i) abi else abi)
      in case Atoi (TrimSpace major) of
           None \<Rightarrow> Some ''abi is not a valid major.minor''
         | Some n \<Rightarrow> if n \<noteq> ABIMajor then Some ''abi major differs from the host'' else None)"

text \<open>The first failing entry of the configuration; \<open>None\<close> when all are fine.\<close>

fun check_config_keys :: "(string \<times> ConfigKey) list \<Rightarrow> string option" where
  "check_config_keys [] = None"
| "check_config_keys ((key, c) # cs) =
     (if ck_Type c \<noteq> [] \<and> ck_Type c \<notin> set configTypeOK then Some ''config type must be string/int/bool''
      else if ck_Secret c \<and> ck_Default c \<noteq> [] then Some ''a secret key must not carry a value in the manifest''
      else check_config_keys cs)"

definition validate_manifest :: "Manifest \<Rightarrow> string option" where
  "validate_manifest m =
     (if \<not> nameRE (mf_Name m) then Some ''name must match''
      else if mf_Type m \<notin> set pluginTypes then Some ''type is not one of auth/scoring/notification/challenge_type''
      else case checkABIMajor (mf_ABI m) of
             Some err \<Rightarrow> Some err
           | None \<Rightarrow>
               if TrimSpace (mf_Executable m) = [] then Some ''executable is required''
               else check_config_keys (mf_Config m))"

subsection \<open>Discovery\<close>

datatype yaml_answer = NoFile | Unreadable | Malformed | Decoded Manifest

datatype listing = AbsentDir | ListError | Entries "(string \<times> bool) list"

record plugin_fs =
  fs_ReadDir :: "string \<Rightarrow> listing"
  fs_yaml :: "string \<Rightarrow> yaml_answer"
  fs_Stat :: "string \<Rightarrow> (bool \<times> bool) option"
  fs_Join :: "string \<Rightarrow> string \<Rightarrow> string"

record discovered =
  ds_manifest :: Manifest
  ds_dir :: string
  ds_executable :: string

text \<open>A regular file with the owner's execution bit.\<close>

definition checkExecutable :: "plugin_fs \<Rightarrow> string \<Rightarrow> bool" where
  "checkExecutable fs path = (case fs_Stat fs path of None \<Rightarrow> False | Some (regular, owner_exec) \<Rightarrow> regular \<and> owner_exec)"

definition loadOne :: "plugin_fs \<Rightarrow> string \<Rightarrow> discovered option" where
  "loadOne fs dir =
     (case fs_yaml fs (fs_Join fs dir ''plugin.yaml'') of
        Decoded m \<Rightarrow>
          if validate_manifest m \<noteq> None then None
          else let exe = fs_Join fs dir (mf_Executable m)
               in if checkExecutable fs exe then Some \<lparr>ds_manifest = m, ds_dir = dir, ds_executable = exe\<rparr> else None
      | _ \<Rightarrow> None)"

text \<open>The loop: \<open>byName\<close> maps a name to the indices of its claimants in \<open>found\<close>.\<close>

fun scan_entries ::
  "plugin_fs \<Rightarrow> string \<Rightarrow> (string \<times> bool) list \<Rightarrow> discovered list \<Rightarrow> (string \<Rightarrow> nat list) \<Rightarrow> discovered list \<times> (string \<Rightarrow> nat list)" where
  "scan_entries fs base [] found byName = (found, byName)"
| "scan_entries fs base ((name, isdir) # es) found byName =
     (if \<not> isdir then scan_entries fs base es found byName
      else case loadOne fs (fs_Join fs base name) of
             None \<Rightarrow> scan_entries fs base es found byName
           | Some d \<Rightarrow>
               let n = mf_Name (ds_manifest d)
               in scan_entries fs base es (found @ [d]) (byName(n := byName n @ [length found])))"

definition collided :: "discovered list \<Rightarrow> (string \<Rightarrow> nat list) \<Rightarrow> nat \<Rightarrow> bool" where
  "collided found byName i \<longleftrightarrow>
     list_ex (\<lambda>d. length (byName (mf_Name (ds_manifest d))) > 1 \<and> i \<in> set (byName (mf_Name (ds_manifest d)))) found"

definition discoverPlugins :: "plugin_fs \<Rightarrow> string \<Rightarrow> discovered list option" where
  "discoverPlugins fs base =
     (case fs_ReadDir fs base of
        AbsentDir \<Rightarrow> Some []
      | ListError \<Rightarrow> None
      | Entries es \<Rightarrow>
          let (found, byName) = scan_entries fs base (sort_key fst es) [] (\<lambda>n. [])
          in if list_all (\<lambda>i. \<not> collided found byName i) [0..<length found] then Some found
             else Some (map snd (filter (\<lambda>(i, d). \<not> collided found byName i) (enumerate 0 found))))"

definition CountByType :: "plugin_fs \<Rightarrow> string \<Rightarrow> string \<Rightarrow> int" where
  "CountByType fs base ptype =
     (case discoverPlugins fs base of
        None \<Rightarrow> 0
      | Some found \<Rightarrow> int (length (filter (\<lambda>d. mf_Type (ds_manifest d) = ptype) found)))"

subsection \<open>Configuration\<close>

definition ascii_upper :: "char \<Rightarrow> char" where
  "ascii_upper c = (let n = (of_char c :: nat) in if 97 \<le> n \<and> n \<le> 122 then char_of (n - 32) else c)"

definition env_char :: "char \<Rightarrow> char" where
  "env_char c = (let n = (of_char c :: nat) in if (65 \<le> n \<and> n \<le> 90) \<or> (48 \<le> n \<and> n \<le> 57) then c else CHR ''_'')"

definition envToken :: "(string \<Rightarrow> string) \<Rightarrow> string \<Rightarrow> string" where
  "envToken uni_upper s = map env_char (if is_ascii s then map ascii_upper s else uni_upper s)"

definition configEnvVar :: "(string \<Rightarrow> string) \<Rightarrow> string \<Rightarrow> string \<Rightarrow> string" where
  "configEnvVar uni_upper pluginName key = ''OSCTF_PLUGIN_'' @ envToken uni_upper pluginName @ ''_'' @ envToken uni_upper key"

definition ParseBool :: "string \<Rightarrow> bool option" where
  "ParseBool s =
     (if s \<in> set [''1'', ''t'', ''T'', ''true'', ''TRUE'', ''True''] then Some True
      else if s \<in> set [''0'', ''f'', ''F'', ''false'', ''FALSE'', ''False''] then Some False else None)"

text \<open>\<open>None\<close> is a valid value; the error text of the code quotes the value.\<close>

definition checkConfigType :: "(string \<Rightarrow> string) \<Rightarrow> string \<Rightarrow> string \<Rightarrow> string option" where
  "checkConfigType quote typ val =
     (if typ = ''int'' then (if Atoi val = None then Some (''must be an int, got '' @ quote val) else None)
      else if typ = ''bool'' then (if ParseBool val = None then Some (''must be a bool, got '' @ quote val) else None)
      else None)"

definition config_failed :: "(string \<Rightarrow> string) \<Rightarrow> Manifest \<Rightarrow> string \<Rightarrow> string" where
  "config_failed quote m what = ''plugin '' @ quote (mf_Name m) @ '': '' @ what"

text \<open>One key: \<open>Inr None\<close> is an optional key without a value.\<close>

definition resolve_key ::
  "(string \<Rightarrow> string) \<Rightarrow> (string \<Rightarrow> string) \<Rightarrow> Manifest \<Rightarrow> (string \<Rightarrow> string option) \<Rightarrow> string \<Rightarrow> ConfigKey \<Rightarrow> string + string option" where
  "resolve_key uni_upper quote m lookupEnv key decl =
     (let env = configEnvVar uni_upper (mf_Name m) key;
          missing = ''required secret config '' @ quote key @ '' is unset - set '' @ env @ '' in the host environment'';
          missing_value = ''required config '' @ quote key @ '' has no value - set '' @ env @ '' or a manifest default'';
          with_value = (\<lambda>val.
            if val = [] then (if ck_Required decl then Inl (config_failed quote m missing_value) else Inr None)
            else case checkConfigType quote (ck_Type decl) val of
                   Some err \<Rightarrow>
                     Inl (config_failed quote m (if ck_Secret decl then ''secret config '' @ quote key @ '' is not a valid '' @ ck_Type decl
                                                 else ''config '' @ quote key @ '' '' @ err))
                 | None \<Rightarrow> Inr (Some val))
      in case lookupEnv env of
           Some val \<Rightarrow> with_value val
         | None \<Rightarrow>
             if ck_Secret decl
             then (if ck_Required decl then Inl (config_failed quote m missing) else Inr None)
             else with_value (ck_Default decl))"

fun resolve_keys ::
  "(string \<Rightarrow> string) \<Rightarrow> (string \<Rightarrow> string) \<Rightarrow> Manifest \<Rightarrow> (string \<Rightarrow> string option) \<Rightarrow> (string \<times> ConfigKey) list \<Rightarrow>
   (string \<times> string) list \<Rightarrow> string + (string \<times> string) list" where
  "resolve_keys uni_upper quote m lookupEnv [] out = Inr out"
| "resolve_keys uni_upper quote m lookupEnv ((key, decl) # cs) out =
     (case resolve_key uni_upper quote m lookupEnv key decl of
        Inl err \<Rightarrow> Inl err
      | Inr None \<Rightarrow> resolve_keys uni_upper quote m lookupEnv cs out
      | Inr (Some val) \<Rightarrow> resolve_keys uni_upper quote m lookupEnv cs (out @ [(key, val)]))"

text \<open>The keys in sorted order. The map that comes out is listed in that order, in which JSON encodes it too.\<close>

definition resolveConfig ::
  "(string \<Rightarrow> string) \<Rightarrow> (string \<Rightarrow> string) \<Rightarrow> Manifest \<Rightarrow> (string \<Rightarrow> string option) \<Rightarrow> string + (string \<times> string) list" where
  "resolveConfig uni_upper quote m lookupEnv =
     resolve_keys uni_upper quote m lookupEnv (sort_key fst (mf_Config m)) []"

definition encodeConfig :: "((string \<times> string) list \<Rightarrow> string) \<Rightarrow> (string \<times> string) list \<Rightarrow> string" where
  "encodeConfig json cfg = (if cfg = [] then [] else json cfg)"

text \<open>What \<^verbatim>\<open>launchDiscovered\<close> decides: no start token, quarantined at load with the reason that administrators see, or
  launched with the encoded configuration.\<close>

datatype launch_decision = SkipLaunch | QuarantineAtLoad string string string | Launch discovered string string

definition launchDiscovered ::
  "(string \<Rightarrow> string) \<Rightarrow> (string \<Rightarrow> string) \<Rightarrow> ((string \<times> string) list \<Rightarrow> string) \<Rightarrow> (string \<Rightarrow> string option) \<Rightarrow> string option \<Rightarrow>
   discovered \<Rightarrow> launch_decision" where
  "launchDiscovered uni_upper quote json lookupEnv token d =
     (case token of
        None \<Rightarrow> SkipLaunch
      | Some token \<Rightarrow>
          (case resolveConfig uni_upper quote (ds_manifest d) lookupEnv of
             Inl reason \<Rightarrow> QuarantineAtLoad (mf_Name (ds_manifest d)) (mf_Type (ds_manifest d)) reason
           | Inr cfg \<Rightarrow> Launch d token (encodeConfig json cfg)))"

subsection \<open>Discovery, in closed form\<close>

abbreviation plugin_name :: "discovered \<Rightarrow> string" where
  "plugin_name d \<equiv> mf_Name (ds_manifest d)"

definition candidates :: "plugin_fs \<Rightarrow> string \<Rightarrow> (string \<times> bool) list \<Rightarrow> discovered list" where
  "candidates fs base es = List.map_filter (\<lambda>(n, isdir). if isdir then loadOne fs (fs_Join fs base n) else None) (sort_key fst es)"

definition claimed_by :: "discovered list \<Rightarrow> string \<Rightarrow> nat list" where
  "claimed_by ds n = filter (\<lambda>i. plugin_name (ds ! i) = n) [0..<length ds]"

lemma claimed_by_snoc: "claimed_by (ds @ [d]) n = claimed_by ds n @ (if plugin_name d = n then [length ds] else [])"
  by (auto simp: claimed_by_def nth_append intro!: filter_cong)

lemma scan_entries_found:
  "scan_entries fs base es found (claimed_by found) =
     (let ds = found @ List.map_filter (\<lambda>(n, isdir). if isdir then loadOne fs (fs_Join fs base n) else None) es
      in (ds, claimed_by ds))"
proof (induction es arbitrary: found)
  case Nil
  then show ?case by (simp add: List.map_filter_simps)
next
  case (Cons e es)
  obtain n isdir where e: "e = (n, isdir)" by (cases e)
  have upd: "(claimed_by found)(plugin_name d := claimed_by found (plugin_name d) @ [length found]) = claimed_by (found @ [d])" for d
    by (rule ext) (simp add: claimed_by_snoc)
  show ?case using Cons.IH [of found] Cons.IH [of "found @ [d]" for d]
    by (auto simp: e upd List.map_filter_simps Let_def split: option.split)
qed

lemma length_claimed_by: "length (claimed_by ds n) = length (filter (\<lambda>d. plugin_name d = n) ds)"
proof -
  have "map ((!) ds) (claimed_by ds n) = filter (\<lambda>d. plugin_name d = n) (map ((!) ds) [0..<length ds])"
    by (simp add: claimed_by_def filter_map comp_def)
  then show ?thesis by (metis length_map map_nth)
qed

lemma collided_iff:
  assumes "i < length ds"
  shows "collided ds (claimed_by ds) i \<longleftrightarrow> length (filter (\<lambda>d. plugin_name d = plugin_name (ds ! i)) ds) > 1"
proof -
  have "collided ds (claimed_by ds) i \<longleftrightarrow> (\<exists>d \<in> set ds. length (claimed_by ds (plugin_name d)) > 1 \<and> plugin_name (ds ! i) = plugin_name d)"
    using assms by (auto simp: collided_def list_ex_iff claimed_by_def)
  also have "\<dots> \<longleftrightarrow> length (claimed_by ds (plugin_name (ds ! i))) > 1" using assms by force
  finally show ?thesis by (simp add: length_claimed_by)
qed

definition unclaimed :: "discovered list \<Rightarrow> discovered list" where
  "unclaimed ds = filter (\<lambda>d. length (filter (\<lambda>d'. plugin_name d' = plugin_name d) ds) \<le> 1) ds"

lemma discoverPlugins_Entries:
  assumes "fs_ReadDir fs base = Entries es"
  shows "discoverPlugins fs base = Some (unclaimed (candidates fs base es))"
proof -
  let ?ds = "candidates fs base es"
  have start: "(\<lambda>n. []) = claimed_by []" by (rule ext) (simp add: claimed_by_def)
  have scan: "scan_entries fs base (sort_key fst es) [] (\<lambda>n. []) = (?ds, claimed_by ?ds)"
    unfolding start by (simp add: scan_entries_found candidates_def Let_def)
  have keep: "filter (\<lambda>(i, d). \<not> collided ?ds (claimed_by ?ds) i) (enumerate 0 ?ds) =
      filter (\<lambda>(i, d). length (filter (\<lambda>d'. plugin_name d' = plugin_name d) ?ds) \<le> 1) (enumerate 0 ?ds)"
    by (rule filter_cong) (auto simp: in_set_enumerate_eq collided_iff)
  have "map snd (filter (\<lambda>(i, d). P d) (enumerate k xs)) = filter P xs" for P k and xs :: "discovered list"
    by (induction xs arbitrary: k) auto
  then have some: "map snd (filter (\<lambda>(i, d). \<not> collided ?ds (claimed_by ?ds) i) (enumerate 0 ?ds)) = unclaimed ?ds"
    unfolding keep unclaimed_def .
  have all: "unclaimed ?ds = ?ds" if "list_all (\<lambda>i. \<not> collided ?ds (claimed_by ?ds) i) [0..<length ?ds]"
    using that unfolding unclaimed_def
    by (intro filter_True) (auto simp: list_all_iff collided_iff in_set_conv_nth not_less)
  show ?thesis using some all by (simp add: discoverPlugins_def assms scan)
qed

lemma distinct_map_by_count:
  "(\<And>n. length (filter (\<lambda>x. f x = n) xs) \<le> 1) \<Longrightarrow> distinct (map f xs)"
proof (induction xs)
  case (Cons x xs)
  have "length (filter (\<lambda>y. f y = n) xs) \<le> 1" for n
    using Cons.prems [of n] by (simp split: if_splits)
  moreover have "filter (\<lambda>y. f y = f x) xs = []" using Cons.prems [of "f x"] by simp
  ultimately show ?case using Cons.IH by (force simp: filter_empty_conv)
qed simp

lemma unclaimed_named:
  "filter (\<lambda>d. plugin_name d = n) (unclaimed ds) =
     (let named = filter (\<lambda>d. plugin_name d = n) ds in if length named \<le> 1 then named else [])"
  unfolding unclaimed_def filter_filter Let_def by (auto intro: filter_cong simp: filter_empty_conv)

lemma unclaimed_distinct: "distinct (map plugin_name (unclaimed ds))"
  by (rule distinct_map_by_count) (simp add: unclaimed_named Let_def)

lemma loadOne_Some:
  "loadOne fs dir = Some d \<Longrightarrow> validate_manifest (ds_manifest d) = None \<and> ds_dir d = dir \<and>
     ds_executable d = fs_Join fs dir (mf_Executable (ds_manifest d)) \<and> checkExecutable fs (ds_executable d)"
  by (auto simp: loadOne_def Let_def split: yaml_answer.splits if_splits)

lemma sort_key_unique:
  assumes "mset xs = mset ys" "distinct (map f xs)"
  shows "sort_key f xs = sort_key f ys"
  using assms by (intro sort_key_inj_key_eq) (simp_all add: distinct_map)

lemma in_candidates:
  "d \<in> set (candidates fs base es) \<longleftrightarrow> (\<exists>n. (n, True) \<in> set es \<and> loadOne fs (fs_Join fs base n) = Some d)"
  by (force simp: candidates_def List.map_filter_def split: if_splits)

lemma count_map_filter:
  "distinct xs \<Longrightarrow> length (filter P (List.map_filter g xs)) \<le> 1 \<longleftrightarrow>
     (\<forall>x \<in> set xs. \<forall>y \<in> set xs. \<forall>d e. g x = Some d \<and> P d \<and> g y = Some e \<and> P e \<longrightarrow> x = y)"
proof (induction xs)
  case (Cons x xs)
  show ?case
  proof (cases "\<exists>d. g x = Some d \<and> P d")
    case True
    then obtain d where d: "g x = Some d" "P d" by blast
    have "length (filter P (List.map_filter g (x # xs))) \<le> 1 \<longleftrightarrow> (\<forall>y \<in> set xs. \<forall>e. g y = Some e \<longrightarrow> \<not> P e)"
      using d by (force simp: List.map_filter_simps filter_empty_conv List.map_filter_def)
    also have "\<dots> \<longleftrightarrow> (\<forall>x' \<in> set (x # xs). \<forall>y \<in> set (x # xs). \<forall>d e. g x' = Some d \<and> P d \<and> g y = Some e \<and> P e \<longrightarrow> x' = y)"
      using d Cons.prems by fastforce
    finally show ?thesis .
  next
    case False
    then have "filter P (List.map_filter g (x # xs)) = filter P (List.map_filter g xs)"
      by (auto simp: List.map_filter_simps split: option.split)
    then show ?thesis using Cons False by auto
  qed
qed (simp add: List.map_filter_simps)

definition load_entry :: "plugin_fs \<Rightarrow> string \<Rightarrow> string \<times> bool \<Rightarrow> discovered option" where
  "load_entry fs base = (\<lambda>(n, isdir). if isdir then loadOne fs (fs_Join fs base n) else None)"

lemma in_unclaimed:
  assumes "distinct (map fst es)"
  shows "d \<in> set (unclaimed (candidates fs base es)) \<longleftrightarrow>
    (\<exists>n. (n, True) \<in> set es \<and> loadOne fs (fs_Join fs base n) = Some d \<and>
       (\<forall>n' d'. (n', True) \<in> set es \<and> loadOne fs (fs_Join fs base n') = Some d' \<and> plugin_name d' = plugin_name d \<longrightarrow> n' = n))"
proof -
  have c: "candidates fs base es = List.map_filter (load_entry fs base) (sort_key fst es)"
    by (simp add: candidates_def load_entry_def)
  have "distinct (sort_key fst es)" using assms by (simp add: distinct_map)
  from count_map_filter [OF this, of "\<lambda>d'. plugin_name d' = plugin_name d" "load_entry fs base"]
  have "length (filter (\<lambda>d'. plugin_name d' = plugin_name d) (candidates fs base es)) \<le> 1 \<longleftrightarrow>
      (\<forall>n n' d1 d2. (n, True) \<in> set es \<and> (n', True) \<in> set es \<and> loadOne fs (fs_Join fs base n) = Some d1 \<and>
         plugin_name d1 = plugin_name d \<and> loadOne fs (fs_Join fs base n') = Some d2 \<and> plugin_name d2 = plugin_name d \<longrightarrow> n = n')"
    unfolding c load_entry_def by (simp add: Ball_def split_paired_All) blast
  then show ?thesis unfolding unclaimed_def set_filter mem_Collect_eq in_candidates by blast
qed

text \<open>C27. What discovery returns. From a directory that can be read, in whatever order the system lists it, discovery returns
  plugins with different names; each comes from a subdirectory whose manifest passes the validation and names an
  executable file; and a plugin is left out only when another subdirectory claims its name: then no claimant is
  returned, whichever comes first.\<close>

theorem discovery_exact:
  assumes "fs_ReadDir fs base = Entries es" "distinct (map fst es)"
  shows "\<exists>ds. discoverPlugins fs base = Some ds \<and> distinct (map (\<lambda>d. mf_Name (ds_manifest d)) ds) \<and>
    (\<forall>d. d \<in> set ds \<longleftrightarrow>
       (\<exists>n. (n, True) \<in> set es \<and> loadOne fs (fs_Join fs base n) = Some d \<and> validate_manifest (ds_manifest d) = None \<and>
          checkExecutable fs (ds_executable d) \<and>
          (\<forall>n' d'. (n', True) \<in> set es \<and> loadOne fs (fs_Join fs base n') = Some d' \<and>
             mf_Name (ds_manifest d') = mf_Name (ds_manifest d) \<longrightarrow> n' = n))) \<and>
    (\<forall>fs' es'. mset es' = mset es \<and> fs' = fs\<lparr>fs_ReadDir := (\<lambda>p. Entries es')\<rparr> \<longrightarrow> discoverPlugins fs' base = Some ds)"
proof (intro exI conjI)
  show "discoverPlugins fs base = Some (unclaimed (candidates fs base es))" by (rule discoverPlugins_Entries) fact
  show "distinct (map (\<lambda>d. mf_Name (ds_manifest d)) (unclaimed (candidates fs base es)))" by (rule unclaimed_distinct)
  show "\<forall>d. d \<in> set (unclaimed (candidates fs base es)) \<longleftrightarrow>
       (\<exists>n. (n, True) \<in> set es \<and> loadOne fs (fs_Join fs base n) = Some d \<and> validate_manifest (ds_manifest d) = None \<and>
          checkExecutable fs (ds_executable d) \<and>
          (\<forall>n' d'. (n', True) \<in> set es \<and> loadOne fs (fs_Join fs base n') = Some d' \<and>
             mf_Name (ds_manifest d') = mf_Name (ds_manifest d) \<longrightarrow> n' = n))"
    unfolding in_unclaimed [OF assms(2)] using loadOne_Some by blast
  show "\<forall>fs' es'. mset es' = mset es \<and> fs' = fs\<lparr>fs_ReadDir := (\<lambda>p. Entries es')\<rparr> \<longrightarrow>
      discoverPlugins fs' base = Some (unclaimed (candidates fs base es))"
  proof (intro allI impI)
    fix fs' es' assume e: "mset es' = mset es \<and> fs' = fs\<lparr>fs_ReadDir := (\<lambda>p. Entries es')\<rparr>"
    then have "sort_key fst es' = sort_key fst es" using sort_key_unique [of es es' fst] assms(2) by simp
    moreover have "loadOne fs' = loadOne fs" "fs_Join fs' = fs_Join fs"
      using e by (auto simp: fun_eq_iff loadOne_def checkExecutable_def Let_def split: yaml_answer.split)
    ultimately have "candidates fs' base es' = candidates fs base es" by (simp add: candidates_def cong: if_cong)
    with discoverPlugins_Entries [of fs' base es'] e show "discoverPlugins fs' base = Some (unclaimed (candidates fs base es))"
      by simp
  qed
qed

subsection \<open>Configuration, in closed form\<close>

text \<open>The value of a key: the host's variable, or for a key that is no secret the manifest's default.\<close>

definition config_value :: "(string \<Rightarrow> string) \<Rightarrow> Manifest \<Rightarrow> (string \<Rightarrow> string option) \<Rightarrow> string \<times> ConfigKey \<Rightarrow> string" where
  "config_value uni_upper m lookupEnv kd =
     (case lookupEnv (configEnvVar uni_upper (mf_Name m) (fst kd)) of
        Some val \<Rightarrow> val
      | None \<Rightarrow> if ck_Secret (snd kd) then [] else ck_Default (snd kd))"

definition well_typed :: "string \<Rightarrow> string \<Rightarrow> bool" where
  "well_typed typ val \<longleftrightarrow> (typ = ''int'' \<longrightarrow> Atoi val \<noteq> None) \<and> (typ = ''bool'' \<longrightarrow> ParseBool val \<noteq> None)"

definition key_fine :: "(string \<Rightarrow> string) \<Rightarrow> Manifest \<Rightarrow> (string \<Rightarrow> string option) \<Rightarrow> string \<times> ConfigKey \<Rightarrow> bool" where
  "key_fine uni_upper m lookupEnv kd \<longleftrightarrow>
     (let val = config_value uni_upper m lookupEnv kd
      in if val = [] then \<not> ck_Required (snd kd) else well_typed (ck_Type (snd kd)) val)"

lemma checkConfigType_None: "checkConfigType quote typ val = None \<longleftrightarrow> well_typed typ val"
  by (auto simp: checkConfigType_def well_typed_def)

lemma resolve_key_iff:
  "(\<exists>err. resolve_key uni_upper quote m lookupEnv key decl = Inl err) \<longleftrightarrow> \<not> key_fine uni_upper m lookupEnv (key, decl)"
  "key_fine uni_upper m lookupEnv (key, decl) \<Longrightarrow>
     resolve_key uni_upper quote m lookupEnv key decl =
       Inr (let val = config_value uni_upper m lookupEnv (key, decl) in if val = [] then None else Some val)"
  by (auto simp: resolve_key_def key_fine_def config_value_def Let_def simp flip: checkConfigType_None [of quote]
      split: option.splits if_splits)

lemma resolve_keys_iff:
  "resolve_keys uni_upper quote m lookupEnv cs out = Inr cfg \<longleftrightarrow>
     (\<forall>kd \<in> set cs. key_fine uni_upper m lookupEnv kd) \<and>
     cfg = out @ filter (\<lambda>(k, v). v \<noteq> []) (map (\<lambda>kd. (fst kd, config_value uni_upper m lookupEnv kd)) cs)"
proof (induction cs arbitrary: out)
  case (Cons c cs)
  obtain key decl where c: "c = (key, decl)" by (cases c)
  show ?case
  proof (cases "key_fine uni_upper m lookupEnv c")
    case True
    then show ?thesis using Cons.IH resolve_key_iff(2) [of uni_upper m lookupEnv key decl quote]
      by (auto simp: c Let_def)
  next
    case False
    with resolve_key_iff(1) [of uni_upper quote m lookupEnv key decl] show ?thesis by (auto simp: c)
  qed
qed auto

text \<open>A plugin's configuration. It resolves exactly when every declared key has a value of its type or is optional and
  has none, and then it holds, in sorted order, the declared keys that have one, with the host's variable before the
  manifest's default and for a secret the variable alone. Otherwise the plugin is quarantined and not launched.\<close>

theorem resolved_config_exact:
  "launchDiscovered uni_upper quote json lookupEnv (Some token) d =
     (let m = ds_manifest d; value = config_value uni_upper m lookupEnv;
          cfg = filter (\<lambda>(k, v). v \<noteq> []) (map (\<lambda>kd. (fst kd, value kd)) (sort_key fst (mf_Config m)))
      in if list_all (\<lambda>(k, c). if value (k, c) = [] then \<not> ck_Required c
             else (ck_Type c = ''int'' \<longrightarrow> Atoi (value (k, c)) \<noteq> None) \<and> (ck_Type c = ''bool'' \<longrightarrow> ParseBool (value (k, c)) \<noteq> None))
           (mf_Config m)
         then Launch d token (if cfg = [] then [] else json cfg)
         else QuarantineAtLoad (mf_Name m) (mf_Type m) (projl (resolveConfig uni_upper quote m lookupEnv)))"
proof -
  let ?m = "ds_manifest d"
  have fine: "(\<forall>kd \<in> set (sort_key fst (mf_Config ?m)). key_fine uni_upper ?m lookupEnv kd) \<longleftrightarrow>
      list_all (\<lambda>(k, c). if config_value uni_upper ?m lookupEnv (k, c) = [] then \<not> ck_Required c
             else (ck_Type c = ''int'' \<longrightarrow> Atoi (config_value uni_upper ?m lookupEnv (k, c)) \<noteq> None) \<and>
               (ck_Type c = ''bool'' \<longrightarrow> ParseBool (config_value uni_upper ?m lookupEnv (k, c)) \<noteq> None)) (mf_Config ?m)"
    by (auto simp: list_all_iff key_fine_def well_typed_def Let_def split: if_splits)
  define cfg where "cfg = filter (\<lambda>(k, v). v \<noteq> []) (map (\<lambda>kd. (fst kd, config_value uni_upper ?m lookupEnv kd)) (sort_key fst (mf_Config ?m)))"
  note iff = resolve_keys_iff [of uni_upper quote ?m lookupEnv "sort_key fst (mf_Config ?m)" "[]", folded resolveConfig_def,
      unfolded append_Nil, folded cfg_def, unfolded fine]
  show ?thesis
  proof (cases "resolveConfig uni_upper quote ?m lookupEnv")
    case (Inl err)
    with iff [of cfg] show ?thesis by (simp only: launchDiscovered_def Let_def) simp
  next
    case (Inr c)
    with iff [of c] have "c = cfg" by simp
    with Inr iff [of cfg] show ?thesis by (simp add: launchDiscovered_def encodeConfig_def cfg_def Let_def)
  qed
qed

subsection \<open>Secrets\<close>

text \<open>The variables of a manifest's secret keys and of its other keys, and what may be known of a secret: whether its
  variable is set, whether it is empty, and whether it is valid for the declared type.\<close>

definition secret_vars :: "(string \<Rightarrow> string) \<Rightarrow> Manifest \<Rightarrow> string set" where
  "secret_vars uni_upper m = set (map (\<lambda>kd. configEnvVar uni_upper (mf_Name m) (fst kd)) (filter (\<lambda>kd. ck_Secret (snd kd)) (mf_Config m)))"

definition plain_vars :: "(string \<Rightarrow> string) \<Rightarrow> Manifest \<Rightarrow> string set" where
  "plain_vars uni_upper m = set (map (\<lambda>kd. configEnvVar uni_upper (mf_Name m) (fst kd)) (filter (\<lambda>kd. \<not> ck_Secret (snd kd)) (mf_Config m)))"

definition secret_state :: "(string \<Rightarrow> string) \<Rightarrow> Manifest \<Rightarrow> (string \<Rightarrow> string option) \<Rightarrow> string \<times> ConfigKey \<Rightarrow> (bool \<times> bool) option" where
  "secret_state uni_upper m env kd =
     map_option (\<lambda>v. (v = [], well_typed (ck_Type (snd kd)) v)) (env (configEnvVar uni_upper (mf_Name m) (fst kd)))"

lemma resolve_key_same:
  assumes "if ck_Secret decl then secret_state uni_upper m env1 (key, decl) = secret_state uni_upper m env2 (key, decl)
    else env1 (configEnvVar uni_upper (mf_Name m) key) = env2 (configEnvVar uni_upper (mf_Name m) key)"
  shows "case resolve_key uni_upper quote m env1 key decl of
      Inl err \<Rightarrow> resolve_key uni_upper quote m env2 key decl = Inl err
    | Inr a \<Rightarrow> \<exists>b. resolve_key uni_upper quote m env2 key decl = Inr b"
proof (cases "ck_Secret decl")
  case True
  with assms show ?thesis
    by (cases "env1 (configEnvVar uni_upper (mf_Name m) key)"; cases "env2 (configEnvVar uni_upper (mf_Name m) key)")
      (auto simp: resolve_key_def secret_state_def Let_def simp flip: checkConfigType_None [of quote] split: option.splits)
next
  case False
  with assms have "resolve_key uni_upper quote m env2 key decl = resolve_key uni_upper quote m env1 key decl"
    by (simp add: resolve_key_def Let_def)
  then show ?thesis by (simp split: sum.split)
qed

text \<open>C28. The reason for which a plugin is quarantined at load, which goes to the log and to administrators, says nothing about
  the value of a secret but whether it is set, empty and valid for its type, provided that no other key of the manifest is
  read from a secret key's variable: two hosts whose environments differ in nothing but the variables of secret keys, and
  there in neither of these three, give the same reason.\<close>

theorem quarantine_hides_secrets:
  assumes "secret_vars uni_upper (ds_manifest d) \<inter> plain_vars uni_upper (ds_manifest d) = {}"
    and "\<forall>v. v \<notin> secret_vars uni_upper (ds_manifest d) \<longrightarrow> env1 v = env2 v"
    and "\<forall>kd \<in> set (mf_Config (ds_manifest d)). ck_Secret (snd kd) \<longrightarrow>
      secret_state uni_upper (ds_manifest d) env1 kd = secret_state uni_upper (ds_manifest d) env2 kd"
    and "launchDiscovered uni_upper quote json env1 token d = QuarantineAtLoad name ptype reason"
  shows "launchDiscovered uni_upper quote json env2 token d = QuarantineAtLoad name ptype reason"
proof -
  let ?m = "ds_manifest d"
  have "resolve_keys uni_upper quote ?m env2 cs out2 = Inl reason"
    if "resolve_keys uni_upper quote ?m env1 cs out1 = Inl reason" "set cs \<subseteq> set (mf_Config ?m)" for cs out1 out2
    using that
  proof (induction cs arbitrary: out1 out2)
    case (Cons c cs)
    obtain key decl where c: "c = (key, decl)" by (cases c)
    have mem: "(key, decl) \<in> set (mf_Config ?m)" using Cons.prems(2) c by simp
    have "env1 (configEnvVar uni_upper (mf_Name ?m) key) = env2 (configEnvVar uni_upper (mf_Name ?m) key)" if "\<not> ck_Secret decl"
    proof -
      have "configEnvVar uni_upper (mf_Name ?m) key \<in> plain_vars uni_upper ?m"
        using mem that unfolding plain_vars_def by force
      then show ?thesis using assms(1,2) by blast
    qed
    then have "case resolve_key uni_upper quote ?m env1 key decl of
      Inl err \<Rightarrow> resolve_key uni_upper quote ?m env2 key decl = Inl err
    | Inr a \<Rightarrow> \<exists>b. resolve_key uni_upper quote ?m env2 key decl = Inr b"
      using bspec [OF assms(3) mem] by (intro resolve_key_same) simp
    then show ?case using Cons.prems Cons.IH
      by (auto simp: c split: sum.splits option.splits)
  qed simp
  from this [where cs = "sort_key fst (mf_Config ?m)"] assms(4) show ?thesis
    by (auto simp: launchDiscovered_def resolveConfig_def split: option.splits sum.splits)
qed

text \<open>Without the proviso a secret does reach the reason. Upper-casing makes the keys \<^verbatim>\<open>pin\<close> and \<^verbatim>\<open>PIN\<close> of one manifest share a
  variable: with a secret text under the one and a plain integer under the other, the reason quotes the secret.\<close>

theorem shared_variable_leaks_secret:
  assumes "mf_Config (ds_manifest d) = [(plain, plain_decl), (secret, secret_decl)]"
    and "ck_Type plain_decl = ''int''" "\<not> ck_Secret plain_decl" "ck_Type secret_decl = []" "ck_Secret secret_decl"
    and "configEnvVar uni_upper (mf_Name (ds_manifest d)) plain = var" "configEnvVar uni_upper (mf_Name (ds_manifest d)) secret = var"
    and "lookupEnv var = Some value" "value \<noteq> []" "Atoi value = None"
  shows "launchDiscovered uni_upper quote json lookupEnv (Some token) d =
    QuarantineAtLoad (mf_Name (ds_manifest d)) (mf_Type (ds_manifest d))
      (''plugin '' @ quote (mf_Name (ds_manifest d)) @ '': config '' @ quote plain @ '' must be an int, got '' @ quote value)"
proof -
  have "sort_key fst (mf_Config (ds_manifest d)) \<in>
      {[(plain, plain_decl), (secret, secret_decl)], [(secret, secret_decl), (plain, plain_decl)]}"
    by (simp add: assms(1))
  then show ?thesis using assms(2-10)
    by (auto simp: launchDiscovered_def resolveConfig_def resolve_key_def checkConfigType_def config_failed_def Let_def)
qed

text \<open>C38. The variable of a key does not determine the plugin. For plugins \<open>n\<close> and \<open>n-k\<close>, whose names discovery tells apart,
  the key \<open>k_l\<close> of the first and the key \<open>l\<close> of the second are read from the same variable: a secret that the operator
  sets for one plugin is handed to the other one, whose manifest only has to declare an optional key.\<close>

theorem secret_reaches_other_plugin:
  assumes "is_ascii n" "is_ascii k" "is_ascii l"
    and "configEnvVar uni_upper n (k @ ''_'' @ l) = var" "lookupEnv var = Some secret" "secret \<noteq> []"
    and "mf_Name (ds_manifest d) = n @ ''-'' @ k"
    and "mf_Config (ds_manifest d) = [(l, \<lparr>ck_Type = [], ck_Required = False, ck_Secret = False, ck_Default = []\<rparr>)]"
  shows "launchDiscovered uni_upper quote json lookupEnv (Some token) d = Launch d token (json [(l, secret)])"
proof -
  have "is_ascii (n @ ''-'' @ k)" "is_ascii (k @ ''_'' @ l)" using assms(1-3) by (simp_all add: is_ascii_def)
  moreover have "env_char (ascii_upper (CHR ''-'')) = CHR ''_''" "env_char (ascii_upper (CHR ''_'')) = CHR ''_''"
    by (simp_all add: env_char_def ascii_upper_def)
  ultimately have "configEnvVar uni_upper (n @ ''-'' @ k) l = var"
    using assms(1-3) unfolding assms(4) [symmetric] by (simp add: configEnvVar_def envToken_def)
  then show ?thesis using assms(5-8)
    by (simp add: launchDiscovered_def resolveConfig_def resolve_key_def encodeConfig_def checkConfigType_def Let_def)
qed

subsection \<open>Witnesses\<close>

definition demo_manifest :: "string \<Rightarrow> (string \<times> ConfigKey) list \<Rightarrow> Manifest" where
  "demo_manifest name cfg = \<lparr>mf_Name = name, mf_Type = ''auth'', mf_ABI = ''1.0'', mf_Version = [], mf_Executable = ''run'',
     mf_Description = [], mf_Override = False, mf_Config = cfg\<rparr>"

definition demo_plugin :: "string \<Rightarrow> string \<Rightarrow> (string \<times> ConfigKey) list \<Rightarrow> discovered" where
  "demo_plugin dir name cfg = \<lparr>ds_manifest = demo_manifest name cfg, ds_dir = dir, ds_executable = dir @ ''/run''\<rparr>"

text \<open>Two directories claim the name \<open>x\<close>.\<close>

definition demo_fs :: plugin_fs where
  "demo_fs = \<lparr>fs_ReadDir = (\<lambda>p. Entries [(''b'', True), (''c'', True), (''a'', True), (''f'', False)]),
     fs_yaml = (\<lambda>p. if p = ''p/a/plugin.yaml'' \<or> p = ''p/b/plugin.yaml'' then Decoded (demo_manifest ''x'' [])
                else if p = ''p/c/plugin.yaml'' then Decoded (demo_manifest ''y'' []) else NoFile),
     fs_Stat = (\<lambda>p. Some (True, True)), fs_Join = (\<lambda>a b. a @ ''/'' @ b)\<rparr>"

lemma demo_valid: "validate_manifest (demo_manifest ''x'' []) = None" "validate_manifest (demo_manifest ''y'' []) = None"
  by code_simp+

lemma demo_loads: "loadOne demo_fs ''p/a'' = Some (demo_plugin ''p/a'' ''x'' [])" "loadOne demo_fs ''p/b'' = Some (demo_plugin ''p/b'' ''x'' [])"
  "loadOne demo_fs ''p/c'' = Some (demo_plugin ''p/c'' ''y'' [])"
  using demo_valid by (simp_all add: loadOne_def demo_fs_def checkExecutable_def demo_plugin_def demo_manifest_def)

theorem discovery_exact_witness:
  "\<exists>ds. discoverPlugins demo_fs ''p'' = Some ds \<and> demo_plugin ''p/c'' ''y'' [] \<in> set ds \<and> demo_plugin ''p/a'' ''x'' [] \<notin> set ds"
proof -
  let ?es = "[(''b'', True), (''c'', True), (''a'', True), (''f'', False)]"
  have join: "fs_Join demo_fs ''p'' n = ''p/'' @ n" and exe: "checkExecutable demo_fs q" for n q
    by (simp_all add: demo_fs_def checkExecutable_def)
  have manifest: "ds_manifest (demo_plugin dir name cfg) = demo_manifest name cfg" "mf_Name (demo_manifest name cfg) = name" for dir name cfg
    by (simp_all add: demo_plugin_def demo_manifest_def)
  have "fs_ReadDir demo_fs ''p'' = Entries ?es" by (simp add: demo_fs_def)
  from discovery_exact [OF this] obtain ds where ds: "discoverPlugins demo_fs ''p'' = Some ds"
    and mem: "\<And>d. d \<in> set ds \<longleftrightarrow>
       (\<exists>n. (n, True) \<in> set ?es \<and> loadOne demo_fs (fs_Join demo_fs ''p'' n) = Some d \<and>
          validate_manifest (ds_manifest d) = None \<and> checkExecutable demo_fs (ds_executable d) \<and>
          (\<forall>n' d'. (n', True) \<in> set ?es \<and> loadOne demo_fs (fs_Join demo_fs ''p'' n') = Some d' \<and>
             mf_Name (ds_manifest d') = mf_Name (ds_manifest d) \<longrightarrow> n' = n))"
    by auto
  have "demo_plugin ''p/c'' ''y'' [] \<in> set ds"
    unfolding mem using demo_valid(2) demo_loads exe
    by (intro exI [of _ "''c''"]) (auto simp: join manifest)
  moreover have "demo_plugin ''p/a'' ''x'' [] \<notin> set ds"
  proof
    assume "demo_plugin ''p/a'' ''x'' [] \<in> set ds"
    then obtain n where n: "\<forall>n' d'. (n', True) \<in> set ?es \<and> loadOne demo_fs (fs_Join demo_fs ''p'' n') = Some d' \<and>
        mf_Name (ds_manifest d') = mf_Name (ds_manifest (demo_plugin ''p/a'' ''x'' [])) \<longrightarrow> n' = n" unfolding mem by blast
    have "''a'' = n" using n demo_loads(1) by (auto simp: join manifest)
    moreover have "''b'' = n" using n demo_loads(2) by (auto simp: join manifest)
    ultimately have "''a'' = ''b''" by (rule trans [OF _ sym])
    then show False by simp
  qed
  ultimately show ?thesis using ds by blast
qed

definition key_decl :: "string \<Rightarrow> bool \<Rightarrow> bool \<Rightarrow> string \<Rightarrow> ConfigKey" where
  "key_decl typ required secret def = \<lparr>ck_Type = typ, ck_Required = required, ck_Secret = secret, ck_Default = def\<rparr>"

definition pin_plugin :: discovered where
  "pin_plugin = demo_plugin ''p/v'' ''vault'' [(''pin'', key_decl ''int'' True True []), (''url'', key_decl [] False False ''u'')]"

lemma pin_var: "configEnvVar id ''vault'' ''pin'' = ''OSCTF_PLUGIN_VAULT_PIN''" "configEnvVar id ''vault'' ''url'' = ''OSCTF_PLUGIN_VAULT_URL''"
  by code_simp+

definition pin_env :: "string \<Rightarrow> string \<Rightarrow> string option" where
  "pin_env pin v = (if v = ''OSCTF_PLUGIN_VAULT_PIN'' then Some pin else None)"

theorem resolved_config_exact_witness:
  "launchDiscovered id id (\<lambda>c. concat (map fst c)) (pin_env ''42'') (Some ''t'') pin_plugin = Launch pin_plugin ''t'' ''pinurl''"
proof -
  have "Atoi ''42'' = Some 42" by code_simp
  then show ?thesis
    by (subst resolved_config_exact) (simp add: pin_plugin_def demo_plugin_def demo_manifest_def key_decl_def config_value_def pin_var
        pin_env_def Let_def)
qed

theorem quarantine_hides_secrets_witness:
  "\<exists>reason. launchDiscovered id id (\<lambda>c. []) (pin_env ''hunter'') (Some ''t'') pin_plugin = QuarantineAtLoad ''vault'' ''auth'' reason \<and>
     launchDiscovered id id (\<lambda>c. []) (pin_env ''swordfish'') (Some ''t'') pin_plugin = QuarantineAtLoad ''vault'' ''auth'' reason"
proof -
  have bad: "Atoi ''hunter'' = None" "Atoi ''swordfish'' = None" by code_simp+
  have q: "\<exists>reason. launchDiscovered id id (\<lambda>c. []) (pin_env ''hunter'') (Some ''t'') pin_plugin = QuarantineAtLoad ''vault'' ''auth'' reason"
    by (simp add: launchDiscovered_def resolveConfig_def resolve_key_def pin_plugin_def demo_plugin_def demo_manifest_def
        key_decl_def pin_var pin_env_def checkConfigType_def bad Let_def)
  have "secret_vars id (ds_manifest pin_plugin) = {''OSCTF_PLUGIN_VAULT_PIN''}"
    "plain_vars id (ds_manifest pin_plugin) = {''OSCTF_PLUGIN_VAULT_URL''}"
    by (simp_all add: secret_vars_def plain_vars_def pin_plugin_def demo_plugin_def demo_manifest_def key_decl_def pin_var)
  moreover have "\<forall>kd \<in> set (mf_Config (ds_manifest pin_plugin)). ck_Secret (snd kd) \<longrightarrow>
      secret_state id (ds_manifest pin_plugin) (pin_env ''hunter'') kd = secret_state id (ds_manifest pin_plugin) (pin_env ''swordfish'') kd"
    by (simp add: secret_state_def pin_plugin_def demo_plugin_def demo_manifest_def key_decl_def pin_var pin_env_def
        well_typed_def bad)
  moreover have "\<forall>v. v \<notin> {''OSCTF_PLUGIN_VAULT_PIN''} \<longrightarrow> pin_env ''hunter'' v = pin_env ''swordfish'' v"
    by (simp add: pin_env_def)
  ultimately show ?thesis
    using quarantine_hides_secrets [of id pin_plugin "pin_env ''hunter''" "pin_env ''swordfish''"] q by fastforce
qed

definition shared_plugin :: discovered where
  "shared_plugin = demo_plugin ''p/v'' ''vault'' [(''PIN'', key_decl ''int'' False False []), (''pin'', key_decl [] False True [])]"

theorem shared_variable_leaks_secret_witness:
  "validate_manifest (ds_manifest shared_plugin) = None \<and>
   launchDiscovered id id (\<lambda>c. []) (pin_env ''hunter'') (Some ''t'') shared_plugin =
     QuarantineAtLoad ''vault'' ''auth'' ''plugin vault: config PIN must be an int, got hunter''"
proof
  show "validate_manifest (ds_manifest shared_plugin) = None" by code_simp
  have var: "configEnvVar id ''vault'' ''PIN'' = ''OSCTF_PLUGIN_VAULT_PIN''" by code_simp
  have bad: "Atoi ''hunter'' = None" by code_simp
  show "launchDiscovered id id (\<lambda>c. []) (pin_env ''hunter'') (Some ''t'') shared_plugin =
     QuarantineAtLoad ''vault'' ''auth'' ''plugin vault: config PIN must be an int, got hunter''"
    using shared_variable_leaks_secret [of shared_plugin "''PIN''" "key_decl ''int'' False False []" "''pin''"
        "key_decl [] False True []" id "''OSCTF_PLUGIN_VAULT_PIN''" "pin_env ''hunter''" "''hunter''" id "\<lambda>c. []" "''t''"]
    by (simp add: shared_plugin_def demo_plugin_def demo_manifest_def key_decl_def var pin_var pin_env_def bad)
qed

definition other_plugin :: discovered where
  "other_plugin = demo_plugin ''p/w'' ''vault-p'' [(''in'', key_decl [] False False [])]"

theorem secret_reaches_other_plugin_witness:
  "configEnvVar id ''vault'' ''p_in'' = ''OSCTF_PLUGIN_VAULT_P_IN'' \<and>
   launchDiscovered id id (\<lambda>c. snd (hd c)) [''OSCTF_PLUGIN_VAULT_P_IN'' \<mapsto> ''swordfish''] (Some ''t'') other_plugin =
     Launch other_plugin ''t'' ''swordfish''"
proof
  show var: "configEnvVar id ''vault'' ''p_in'' = ''OSCTF_PLUGIN_VAULT_P_IN''" by code_simp
  have ascii: "is_ascii ''vault''" "is_ascii ''p''" "is_ascii ''in''" by code_simp+
  have "launchDiscovered id id (\<lambda>c. snd (hd c)) [''OSCTF_PLUGIN_VAULT_P_IN'' \<mapsto> ''swordfish''] (Some ''t'') other_plugin =
      Launch other_plugin ''t'' (snd (hd [(''in'', ''swordfish'')]))"
    by (rule secret_reaches_other_plugin [OF ascii])
      (use var in \<open>simp_all add: other_plugin_def demo_plugin_def demo_manifest_def key_decl_def\<close>)
  then show "launchDiscovered id id (\<lambda>c. snd (hd c)) [''OSCTF_PLUGIN_VAULT_P_IN'' \<mapsto> ''swordfish''] (Some ''t'') other_plugin =
     Launch other_plugin ''t'' ''swordfish''" by simp
qed

end
