(* ===== verification/Spec2Isabelle.thy ===== *)
theory Spec2Isabelle
  imports Scoring Challenge_Types Auth_Registry Scoreboard_Concurrency Submissions_Log Teams_Invariant Team_Lock Fake_Runtime Event_Bus Ws_Hub Plugin_Supervisor Flags Auth_External_Safety Auth_Password_Safety Hash_Gate Http_Gate_Safety Challenge_Handlers_Safety Fd_Budget Challenge_Admin_Safety Rate_Limiter Provider_Login_Safety Plugin_Discovery
begin

text \<open>
  A verification development of OSCTF, a platform that runs capture-the-flag competitions. The sources are the Go
  packages under \<^verbatim>\<open>src/internal\<close>; paths below are relative to it.

  \<^bold>\<open>The program.\<close> Participants form teams, start a container for a challenge, read a flag in it and submit the flag.
  A correct submission is a solve; the scoreboard adds up the worth of the solves. An HTTP layer authenticates a
  request (session cookie, API token, external login) and calls the services: \<^verbatim>\<open>teams\<close>, \<^verbatim>\<open>submissions\<close>, \<^verbatim>\<open>scoreboard\<close>,
  \<^verbatim>\<open>events\<close>, \<^verbatim>\<open>users\<close>, \<^verbatim>\<open>scheduler\<close>. The services share one Postgres database and Redis. The scheduler asks the
  instance manager of \<^verbatim>\<open>runtime\<close> for containers, which keeps a table of instances in the database and drives the
  Docker daemon; a reconcile pass repairs what the two disagree on. The submission path publishes domain events on
  a bus, and a hub sends scoreboard frames to WebSocket clients. Scoring modes, challenge types, notifications and
  login providers can come from plugin processes, each under a supervisor.

  \<^bold>\<open>Theories and sources.\<close>
    \<^item> \<open>Prelude\<close>: uuids, times, \<^verbatim>\<open>apperr\<close>, shared facts. \<open>Float64\<close>, \<open>Go_Sort\<close>, \<open>Go_Strings\<close>, \<open>Encodings\<close>: what the
      sources use of Go's arithmetic, \<^verbatim>\<open>sort\<close>, \<^verbatim>\<open>strings\<close>, \<^verbatim>\<open>strconv\<close>, \<^verbatim>\<open>encoding\<close> packages.
    \<^item> \<open>Registry_Spec\<close>: the contract of the registries as locales, interpreted by \<open>Scoring\<close> (\<^verbatim>\<open>scoring\<close>),
      \<open>Challenge_Types\<close> (\<^verbatim>\<open>challenges/typeregistry.go\<close>) and \<open>Auth_Registry\<close> (\<^verbatim>\<open>auth/registry.go\<close>).
    \<^item> \<open>Database\<close>, \<open>Database_Instances\<close>, \<open>Accounts\<close>: the tables and the generated queries (\<^verbatim>\<open>db/gen\<close>), with the
      constraints of \<^verbatim>\<open>db/migrations\<close> as errors of the writes.
    \<^item> \<open>Events_Service\<close> (\<^verbatim>\<open>events/service.go\<close>), \<open>Scoreboard_Compute\<close>, \<open>Scoreboard_Service\<close>,
      \<open>Scoreboard_Consistency\<close>, \<open>Scoreboard_Concurrency\<close> (\<^verbatim>\<open>scoreboard\<close>): standings, the cached board and its freeze.
    \<^item> \<open>Submissions\<close>, \<open>Submissions_Log\<close> (\<^verbatim>\<open>submissions\<close>): the flag path, the score repair worker, the log they keep.
    \<^item> \<open>Teams\<close>, \<open>Teams_Invariant\<close>, \<open>Team_Lock\<close> (\<^verbatim>\<open>teams\<close>, the lock map of \<^verbatim>\<open>scheduler\<close>).
    \<^item> \<open>Runtime\<close>, \<open>Reconcile\<close>, \<open>Docker\<close>, \<open>Docker_Reconcile\<close>, \<open>Manager\<close>, \<open>Manager_Ports\<close>, \<open>Fake_Runtime\<close> (\<^verbatim>\<open>runtime\<close>):
      the interface of a container runtime as a locale, its two implementations, the manager over it.
    \<^item> \<open>Scheduler\<close>, \<open>Scheduler_Quota\<close>, \<open>Scheduler_Sweeps\<close> (\<^verbatim>\<open>scheduler\<close>).
    \<^item> \<open>Event_Bus\<close> (\<^verbatim>\<open>events/bus.go\<close>), \<open>Ws_Limits\<close>, \<open>Ws_Hub\<close> (\<^verbatim>\<open>ws\<close>), \<open>Plugin_State\<close>, \<open>Plugin_Supervisor\<close>
      (\<^verbatim>\<open>plugin\<close>): the concurrent parts, as actions of goroutines that interleave in any order.
    \<^item> \<open>Flags\<close> (\<^verbatim>\<open>flags\<close>): per-instance flags.
    \<^item> \<open>Accounts_Invariant\<close>: the constraints of \<open>Accounts\<close> as an invariant, and its tables as interpretations of one
      locale. \<open>Auth_External\<close>, \<open>Auth_External_Safety\<close> (\<^verbatim>\<open>auth/external.go\<close>): what an auth plugin's assertion is
      allowed to mean. \<open>Auth_Password\<close>, \<open>Auth_Password_Safety\<close>, \<open>Hash_Gate\<close> (\<^verbatim>\<open>auth/password.go\<close>, \<^verbatim>\<open>provider.go\<close>): PHC
      strings, the login provider, the hashing gate. \<open>Sessions\<close>, \<open>Session_Safety\<close> (\<^verbatim>\<open>auth/session.go\<close>,
      \<^verbatim>\<open>loginstate.go\<close>): sessions and login states in Redis. \<open>Users_Service\<close> (\<^verbatim>\<open>users\<close>, the login part of \<^verbatim>\<open>handlers/auth.go\<close>): accounts, passwords,
      administration, login. \<open>Login_Races\<close>: logins against bans and resets.
    \<^item> \<open>Auth_Tokens\<close> (\<^verbatim>\<open>auth/token.go\<close>), \<open>Http_Gate\<close> (\<^verbatim>\<open>httpserver\<close>, \<^verbatim>\<open>handlers/guards.go\<close>), \<open>Account_Handlers\<close>: API tokens, the
      middleware chain and the guards, and the handlers behind them. \<open>Http_Gate_Safety\<close>: what they admit.
    \<^item> \<open>Challenge_Admin\<close> (\<^verbatim>\<open>challenges/admin.go\<close>, \<^verbatim>\<open>validate.go\<close>, \<^verbatim>\<open>service.go\<close>, \<^verbatim>\<open>attachments.go\<close>): creating, changing and
      deleting challenges and their attachments, with the constraints of their table. \<open>Challenge_Admin_Safety\<close>: the
      validation against those constraints, slugs, rows and stored objects.
    \<^item> \<open>Challenge_Board\<close>, \<open>Challenge_Board_Safety\<close> (\<^verbatim>\<open>challenges/participant.go\<close>, the participant pages of \<^verbatim>\<open>handlers\<close>):
      what a participant reads of challenges, teams and users, under the freeze guard. \<open>Challenge_Handlers\<close>,
      \<open>Challenge_Handlers_Safety\<close> (\<^verbatim>\<open>handlers/admin_challenges.go\<close>): the administration of challenges with its deletion
      guard and the containers it destroys.
    \<^item> \<open>Fd_Budget\<close> (\<^verbatim>\<open>fdbudget\<close>): how the claims on file descriptors are granted and the cap on sockets follows.
    \<^item> \<open>Rate_Limiter\<close> (\<^verbatim>\<open>redisx/ratelimit.go\<close>): the sliding-window limiter. \<open>Provider_Login\<close>, \<open>Provider_Login_Safety\<close>
      (\<^verbatim>\<open>handlers/auth_providers.go\<close>): the routes of external logins. \<open>Plugin_Discovery\<close> (\<^verbatim>\<open>plugin/discovery.go\<close>,
      \<^verbatim>\<open>manifest.go\<close>, \<^verbatim>\<open>config.go\<close>): which plugins are found and with what configuration they are launched.
  Definitions keep the names of the Go functions and types; a suffix or prefix is added where the name is taken.

  \<^bold>\<open>How state and failure are modelled.\<close> A service method is a function from the state it reads and writes (the
  database, Redis, the runtime's state) to the new state and a \<open>result\<close>, an error on the left or a value on the
  right; every early return and every error branch is a branch. A parameter \<open>fails\<close> says for every statement
  whether it fails; a failed statement has no effect, except a failed commit, whose effect is open (\<open>landed\<close>). What
  other sessions do between two statements is a function \<open>interf\<close> (or a separately given older database), which the
  theorems constrain as little as they can. A transaction that locks the row it works on is one step. Where the
  order of the actions of several goroutines matters (scoreboard, bus, hub, locks, supervisor) an action is an
  \<open>inductive\<close> step or a constructor of an action type, and the theorems hold for every run; history fields that no
  operation reads record what was sent or delivered. Nothing is bounded by fuel: loops are structural, or
  functions with a measure.

  What is not under \<^verbatim>\<open>src\<close> is an argument: the answers of the Docker daemon, of plugin processes and of Redis, the
  folding of \<^verbatim>\<open>citext\<close> columns, Unicode lower-casing, JSON decoding, hashes, fresh ids and random bytes, clocks.

  \<^bold>\<open>What the theorems show.\<close> The properties are marked \<open>C1\<close>, \<open>C2\<close>, ... in the order of their importance.
    \<^item> Scoring and standings: the value of a challenge within its bounds in float64 arithmetic, the board as a
      function of the log of solves, freeze and ban, a live read that misses no solve, though perhaps a
      score recorded since; what a freeze hides when the event can be read.
    \<^item> Submissions: acceptance exactly when it should be but for one gap, one solve per team and challenge, attempts bounded,
      secrets not stored, final scores, repair.
    \<^item> Teams: size and captaincy invariants of all operations, mutual exclusion of the team lock.
    \<^item> Containers: quota, ports, hardening, the reconcile decision, expiry.
    \<^item> Bus, hub, supervisor: accounting of events, faithful and convergent streams, crash loops end in quarantine,
      calls reach only live processes.
    \<^item> Accounts: external logins yield unbanned, bound or verified accounts and write no authority; hashes verify
      what they were made from; login answers do not tell a password account from no account; sessions can be revoked; a ban ends
      every session however it interleaves with logins, and the two ways in which a password reset does not.
    \<^item> Requests: exactly which reach a handler as a token's owner; every identity has its credential, and writes an
      allowed origin; tokens live as long as their rows, cannot manage tokens, and expire in time.
    \<^item> Challenges: which validated creations and updates the constraints of the table accept; derived slugs are valid;
      uploads and deletions of attachments against the object store.
    \<^item> Pages: participants' pages are a function of the visible challenges; under a freeze they show no later solve,
      unless the server misses the freeze; the deletion guard and what a refused deletion has already done.
    \<^item> Descriptors: grants never exceed the budget, and the socket cap is the grant except for an exhausted budget.
    \<^item> Limits: what the limiter admits per window when attempts do not overlap and the window is of whole seconds, what
      overlapping attempts and other windows let through, how long a refused caller has to wait. External logins end in the browser and account they began for.
    \<^item> Plugins: discovery is exact and independent of the listing's order; configuration, and where its secrets can and cannot go.

  Several theorems state a behaviour that a comment of the code excludes; the manifest lists them as findings.

  \<^bold>\<open>Not modelled.\<close> The generated API code (\<^verbatim>\<open>apigen\<close>, \<^verbatim>\<open>apiclient\<close>, \<^verbatim>\<open>pluginpb\<close>), the wiring in \<^verbatim>\<open>src/cmd\<close>, the plugin
  SDK and the sample plugins, HTTP rendering, metrics and logs, object storage, the seed data and the web client:
  they are glue, I/O or calls into libraries.
  Also without a model: boot order, in-flight budget and log capture of plugins, some request handlers, the CLI.
\<close>

subsection \<open>The score repair and the served board\<close>

lemma RecordScore_count: "CountValidSolves (fst (RecordScore d i by v)) = CountValidSolves d"
  using lagging_length [OF RecordScore_lagging, of d i "by" v] by (simp add: CountValidSolves_eq)

lemma fold_repair_count:
  "CountValidSolves (fst (fold (repair_row f fails) rows (d, counts, n))) = CountValidSolves d"
proof (induction rows arbitrary: d counts n)
  case (Cons r rows)
  obtain d' counts' n' where r: "repair_row f fails r (d, counts, n) = (d', counts', n')"
    by (metis prod.exhaust)
  then have "CountValidSolves d' = CountValidSolves d"
    using repair_row_rescored [OF r] RecordScore_count by (auto simp: rescored_def)
  then show ?case using r Cons.IH by simp
qed simp

lemma RepairOnce_count: "CountValidSolves (fst (RepairOnce sc gf lf fails d)) = CountValidSolves d"
  using fold_repair_count [of _ fails "ListSolvesNeedingScore d repairBatch" d Map.empty 0]
  by (auto simp: RepairOnce_def Let_def split: option.split prod.split) (metis fst_conv)

text \<open>Scores that the repair worker fills in do not reach a cached board: the pass changes recorded
  values but not the number of valid solves, which is all that the read repair and the periodic
  reconcile look at. A board cached before the pass is still served after it, with the values of
  before.\<close>

theorem repaired_scores_not_served:
  assumes "pg_ok w" "quiet reg (fst (RepairOnce sc gf lf fails d)) w" "\<not> frozen (sub w InFrozen)"
    and "redis st keyCurrent = Some cached" "sn_SolveCount cached = CountValidSolves d"
    and "\<not> ob_fail (w [InRead 2, RGet])" "\<not> ob_fail (w [InRead 2, Unmarshal])"
    and "\<not> ob_fail (w [InRead 0, RGet])" "\<not> ob_fail (w [InRead 0, Unmarshal])"
  shows "Current w adm st = (st, Inr (cached\<lparr>sn_Frozen := False\<rparr>)) \<and> ReconcileIfBehind w st = (st, Inr ())"
  using cached_board_kept [OF assms(1,2,3,4)] assms(5-9) by (simp add: RepairOnce_count)

lemma RepairOnce_events: "events (fst (RepairOnce sc gf lf fails d)) = events d"
proof -
  have "events (fst (fold (repair_row f fails) rows (d, counts, n))) = events d" for f rows d counts n
  proof (induction rows arbitrary: d counts n)
    case (Cons r rows)
    obtain d' counts' n' where r: "repair_row f fails r (d, counts, n) = (d', counts', n')"
      by (metis prod.exhaust)
    then have "events d' = events d"
      using repair_row_rescored [OF r] by (auto simp: rescored_def RecordScore_def Let_def)
    then show ?case using r Cons.IH by simp
  qed simp
  then show ?thesis by (auto simp: RepairOnce_def Let_def split: option.split prod.split) (metis fst_conv)
qed

definition first_blood :: scorer where
  "first_blood = (\<lambda>_ _ _. (40, ''first-blood'', True))"

theorem repaired_scores_not_served_witness:
  "Current (still_world defaultRegistry (fst (RepairOnce (Some first_blood) False False (\<lambda>_. False) unscored_db)) 10)
      False (New\<lparr>redis := (\<lambda>_. Some (empty_board\<lparr>sn_SolveCount := CountValidSolves unscored_db\<rparr>))\<rparr>) =
    (New\<lparr>redis := (\<lambda>_. Some (empty_board\<lparr>sn_SolveCount := CountValidSolves unscored_db\<rparr>))\<rparr>,
     Inr (empty_board\<lparr>sn_SolveCount := CountValidSolves unscored_db, sn_Frozen := False\<rparr>))"
proof -
  let ?d = "fst (RepairOnce (Some first_blood) False False (\<lambda>_. False) unscored_db)"
  have "GetEvent ?d = Some sample_event"
    by (simp add: GetEvent_def RepairOnce_events unscored_db_def solved_db_def sample_db_def)
  then have "\<not> frozen (still_world defaultRegistry ?d 10)"
    by (simp add: frozen_def events_Get_def still_world_def Frozen_def sample_event_def)
  then show ?thesis
    using repaired_scores_not_served [where reg = defaultRegistry and d = unscored_db and adm = False
        and w = "still_world defaultRegistry ?d 10" and cached = "empty_board\<lparr>sn_SolveCount := CountValidSolves unscored_db\<rparr>"
        and st = "New\<lparr>redis := (\<lambda>_. Some (empty_board\<lparr>sn_SolveCount := CountValidSolves unscored_db\<rparr>))\<rparr>"
        and sc = "Some first_blood" and gf = False and lf = False and fails = "\<lambda>_. False"]
    by simp
qed

end
